(* ===== verification/Go_Prelude.thy ===== *)
theory Go_Prelude
  imports Main "HOL-Library.Word" "HOL-Library.AList"
begin

text \<open>
  The shared prelude: what the Go language and its standard library give the platform,
  as far as the modelled code uses them, and the generic lemmas of the development.

  \<^item> Byte slices are lists of 8-bit words; Go strings are byte strings (\<open>string\<close>, a list of
    8-bit characters). The case mapping, the case folding and the white space of the
    \<^verbatim>\<open>strings\<close> package are those of ASCII: a non-ASCII byte is a letter without case.
  \<^item> A Go map is an association list with distinct keys: the list order is the order in
    which a \<^verbatim>\<open>range\<close> loop visits the entries. Go leaves that order open, and so does every
    theorem, which holds for each order.
  \<^item> A result \<open>'e + 'a\<close> is an error on the left or a value on the right.
  \<^item> Times are milliseconds or seconds as unbounded integers.
\<close>

unbundle bit_operations_syntax

named_theorems go_simps \<open>unfolding rules of the modelled operations\<close>
named_theorems go_intros \<open>introduction rules for the invariants of the components\<close>

type_synonym byte = "8 word"
type_synonym bytes = "byte list"
type_synonym 'v gomap = "(string \<times> 'v) list"

subsection \<open>Characters and the strings package\<close>

definition ascii_lower :: "char \<Rightarrow> char" where
  "ascii_lower c = (let n = (of_char c :: nat) in
     if 65 \<le> n \<and> n \<le> 90 then char_of (n + 32) else c)"

definition ascii_upper :: "char \<Rightarrow> char" where
  "ascii_upper c = (let n = (of_char c :: nat) in
     if 97 \<le> n \<and> n \<le> 122 then char_of (n - 32) else c)"

definition to_lower :: "string \<Rightarrow> string" where
  "to_lower s = map ascii_lower s"

definition to_upper :: "string \<Rightarrow> string" where
  "to_upper s = map ascii_upper s"

definition equal_fold :: "string \<Rightarrow> string \<Rightarrow> bool" where
  "equal_fold a b \<longleftrightarrow> to_lower a = to_lower b"

definition is_space :: "char \<Rightarrow> bool" where
  "is_space c = (let n = (of_char c :: nat) in n = 32 \<or> (9 \<le> n \<and> n \<le> 13))"

definition trim_left :: "(char \<Rightarrow> bool) \<Rightarrow> string \<Rightarrow> string" where
  "trim_left p s = dropWhile p s"

definition trim_right :: "(char \<Rightarrow> bool) \<Rightarrow> string \<Rightarrow> string" where
  "trim_right p s = rev (dropWhile p (rev s))"

definition trim_by :: "(char \<Rightarrow> bool) \<Rightarrow> string \<Rightarrow> string" where
  "trim_by p s = trim_right p (trim_left p s)"

definition trim_space :: "string \<Rightarrow> string" where
  "trim_space s = trim_by is_space s"

definition has_prefix :: "string \<Rightarrow> string \<Rightarrow> bool" where
  "has_prefix s p \<longleftrightarrow> take (length p) s = p"

definition has_suffix :: "string \<Rightarrow> string \<Rightarrow> bool" where
  "has_suffix s p \<longleftrightarrow> length p \<le> length s \<and> drop (length s - length p) s = p"

definition trim_prefix :: "string \<Rightarrow> string \<Rightarrow> string" where
  "trim_prefix s p = (if has_prefix s p then drop (length p) s else s)"

definition trim_suffix :: "string \<Rightarrow> string \<Rightarrow> string" where
  "trim_suffix s p = (if has_suffix s p then take (length s - length p) s else s)"

fun contains_sub :: "string \<Rightarrow> string \<Rightarrow> bool" where
  "contains_sub [] p = (p = [])"
| "contains_sub (c # s) p = (has_prefix (c # s) p \<or> contains_sub s p)"

text \<open>\<^verbatim>\<open>strings.NewReplacer\<close> with every pattern one byte and every replacement empty.\<close>

definition remove_chars :: "char list \<Rightarrow> string \<Rightarrow> string" where
  "remove_chars cs s = filter (\<lambda>c. c \<notin> set cs) s"

lemma has_prefix_append [simp]: "has_prefix (p @ s) p"
  by (simp add: has_prefix_def)

lemma has_prefix_self [simp]: "has_prefix s s"
  by (simp add: has_prefix_def)

lemma trim_prefix_append [simp]: "trim_prefix (p @ s) p = s"
  by (simp add: trim_prefix_def)

lemma has_suffix_append [simp]: "has_suffix (s @ p) p"
  by (simp add: has_suffix_def)

lemma trim_suffix_append [simp]: "trim_suffix (s @ p) p = s"
  by (simp add: trim_suffix_def)

lemma has_suffixE:
  assumes "has_suffix s p"
  obtains u where "s = u @ p"
  using assms unfolding has_suffix_def by (metis append_take_drop_id)

lemma has_prefixE:
  assumes "has_prefix s p"
  obtains u where "s = p @ u"
  using assms unfolding has_prefix_def by (metis append_take_drop_id)

subsection \<open>Decimal numbers (strconv.Itoa on non-negative values)\<close>

definition digit_char :: "nat \<Rightarrow> char" where
  "digit_char n = char_of (48 + n)"

fun nat_digits :: "nat \<Rightarrow> string" where
  "nat_digits n = (if n < 10 then [digit_char n] else nat_digits (n div 10) @ [digit_char (n mod 10)])"

declare nat_digits.simps [simp del]

definition int_digits :: "int \<Rightarrow> string" where
  "int_digits i = (if i < 0 then CHR ''-'' # nat_digits (nat (- i)) else nat_digits (nat i))"

lemma nat_digits_nonempty [simp]: "nat_digits n \<noteq> []" "[] \<noteq> nat_digits n"
  by (subst nat_digits.simps, simp)+

lemma digit_char_inject [simp]:
  assumes "m < 10" "n < 10"
  shows "digit_char m = digit_char n \<longleftrightarrow> m = n"
proof
  assume "digit_char m = digit_char n"
  then have "(of_char (digit_char m) :: nat) = of_char (digit_char n)" by simp
  with assms show "m = n" by (simp add: digit_char_def)
qed simp

lemma nat_digits_inject [simp]: "nat_digits m = nat_digits n \<longleftrightarrow> m = n"
proof
  assume "nat_digits m = nat_digits n"
  then show "m = n"
  proof (induction m arbitrary: n rule: nat_digits.induct)
    case (1 m)
    show ?case
    proof (cases "m < 10")
      case True
      with "1.prems" show ?thesis
        by (subst (asm) (1 2) nat_digits.simps) (auto split: if_splits)
    next
      case False
      with "1.prems" have big: "\<not> n < 10"
        by (subst (asm) (1 2) nat_digits.simps) (auto split: if_splits)
      with False "1.prems" have "nat_digits (m div 10) = nat_digits (n div 10)" "m mod 10 = n mod 10"
        by (subst (asm) (1 2) nat_digits.simps, simp)+
      with "1.IH" [OF False] show ?thesis by (metis div_mult_mod_eq)
    qed
  qed
qed simp

lemma nat_digits_all_digit: "c \<in> set (nat_digits n) \<Longrightarrow> 48 \<le> (of_char c :: nat) \<and> (of_char c :: nat) \<le> 57"
proof (induction n rule: nat_digits.induct)
  case (1 n)
  have dig: "(of_char (digit_char k) :: nat) = 48 + k" if "k < 10" for k
    using that by (simp add: digit_char_def)
  show ?case
  proof (cases "n < 10")
    case True
    with "1.prems" dig [OF True] show ?thesis by (subst (asm) nat_digits.simps) auto
  next
    case False
    have "n mod 10 < 10" by simp
    from "1.prems" False consider "c \<in> set (nat_digits (n div 10))" | "c = digit_char (n mod 10)"
      by (subst (asm) nat_digits.simps) auto
    then show ?thesis
    proof cases
      case 1
      then show ?thesis using "1.IH" [OF False] by simp
    next
      case 2
      then show ?thesis using dig [OF \<open>n mod 10 < 10\<close>] \<open>n mod 10 < 10\<close> by simp
    qed
  qed
qed

subsection \<open>Hexadecimal (encoding/hex)\<close>

definition hex_digit :: "nat \<Rightarrow> char" where
  "hex_digit n = (if n < 10 then char_of (48 + n) else char_of (87 + n))"

definition hex_value :: "char \<Rightarrow> nat option" where
  "hex_value c = (let n = (of_char c :: nat) in
     if 48 \<le> n \<and> n \<le> 57 then Some (n - 48)
     else if 97 \<le> n \<and> n \<le> 102 then Some (n - 87)
     else if 65 \<le> n \<and> n \<le> 70 then Some (n - 55)
     else None)"

fun hex_encode :: "bytes \<Rightarrow> string" where
  "hex_encode [] = []"
| "hex_encode (b # bs) = hex_digit (unat b div 16) # hex_digit (unat b mod 16) # hex_encode bs"

text \<open>\<^verbatim>\<open>hex.DecodeString\<close>: \<open>None\<close> for an odd length or a byte that is no hexadecimal digit.\<close>

fun hex_decode :: "string \<Rightarrow> bytes option" where
  "hex_decode [] = Some []"
| "hex_decode [_] = None"
| "hex_decode (a # b # cs) =
     (case (hex_value a, hex_value b) of
        (Some x, Some y) \<Rightarrow> map_option (\<lambda>bs. of_nat (16 * x + y) # bs) (hex_decode cs)
      | _ \<Rightarrow> None)"

lemma of_char_hex_digit: "n < 16 \<Longrightarrow> (of_char (hex_digit n) :: nat) = (if n < 10 then 48 + n else 87 + n)"
  by (auto simp: hex_digit_def)

lemma hex_value_digit [simp]: "n < 16 \<Longrightarrow> hex_value (hex_digit n) = Some n"
  by (simp add: hex_value_def of_char_hex_digit)

lemma of_char_upper_hex_digit:
  "n < 16 \<Longrightarrow> (of_char (ascii_upper (hex_digit n)) :: nat) = (if n < 10 then 48 + n else 55 + n)"
  by (simp add: ascii_upper_def of_char_hex_digit Let_def)

lemma hex_value_upper_digit [simp]: "n < 16 \<Longrightarrow> hex_value (ascii_upper (hex_digit n)) = Some n"
  by (simp add: hex_value_def of_char_upper_hex_digit)

lemma unat_byte_bound [simp]: "unat (b :: byte) < 256"
  using unsigned_less [of b, where 'a = nat] by simp

lemma unat_byte_nibbles [simp]: "unat (b :: byte) div 16 < 16"
proof -
  have "unat b < 256" by (rule unat_byte_bound)
  then show ?thesis by linarith
qed

lemma hex_decode_encode [simp]: "hex_decode (hex_encode bs) = Some bs"
  by (induction bs) simp_all

lemma hex_decode_upper_encode [simp]: "hex_decode (to_upper (hex_encode bs)) = Some bs"
  by (induction bs) (simp_all add: to_upper_def)

lemma hex_encode_chars: "c \<in> set (hex_encode bs) \<Longrightarrow> \<exists>n < 16. c = hex_digit n"
proof (induction bs)
  case (Cons b bs)
  have "unat b mod 16 < 16" by simp
  with Cons show ?case using unat_byte_nibbles [of b] by (simp, blast)
qed simp

lemma length_hex_encode [simp]: "length (hex_encode bs) = 2 * length bs"
  by (induction bs) simp_all

lemma hex_encode_inject [simp]: "hex_encode as = hex_encode bs \<longleftrightarrow> as = bs"
  by (metis hex_decode_encode option.inject)

subsection \<open>Words in bytes (encoding/binary)\<close>

definition le16 :: "bytes \<Rightarrow> 16 word" where
  "le16 bs = ucast (bs ! 0) OR push_bit 8 (ucast (bs ! 1))"

definition be16 :: "bytes \<Rightarrow> 16 word" where
  "be16 bs = ucast (bs ! 1) OR push_bit 8 (ucast (bs ! 0))"

definition put_le16 :: "16 word \<Rightarrow> bytes" where
  "put_le16 w = [ucast w, ucast (drop_bit 8 w)]"

definition put_be16 :: "16 word \<Rightarrow> bytes" where
  "put_be16 w = [ucast (drop_bit 8 w), ucast w]"

lemma word16_split: "(ucast (ucast w :: byte) :: 16 word) OR push_bit 8 (ucast (ucast (drop_bit 8 w) :: byte)) = w"
  by (rule bit_word_eqI) (auto simp: bit_simps)

lemma le16_put [simp]: "le16 (put_le16 w) = w"
  by (simp add: le16_def put_le16_def word16_split)

lemma be16_put [simp]: "be16 (put_be16 w) = w"
  by (simp add: be16_def put_be16_def word16_split)

lemma put_le16_of [simp]: "put_le16 (le16 [a, b]) = [a, b]"
proof -
  have "(ucast (le16 [a, b]) :: byte) = a"
    by (rule bit_word_eqI) (auto simp: le16_def bit_simps)
  moreover have "(ucast (drop_bit 8 (le16 [a, b])) :: byte) = b"
    by (rule bit_word_eqI) (auto simp: le16_def bit_simps dest: bit_imp_le_length)
  ultimately show ?thesis by (simp add: put_le16_def)
qed

lemma byte_up_down [simp]: "(ucast (ucast (b :: byte) :: 16 word) :: byte) = b"
  by (rule bit_word_eqI) (auto simp: bit_simps)

lemma byte_up_inject [simp]: "(ucast (b :: byte) :: 16 word) = ucast c \<longleftrightarrow> b = c"
  by (metis byte_up_down)

lemma length_two: "length xs = 2 \<Longrightarrow> \<exists>a b. xs = [a, b]"
  by (cases xs; cases "tl xs") auto

lemma xor_right_cancel [simp]: "(a :: 'w :: len word) XOR c = b XOR c \<longleftrightarrow> a = b"
  by (metis xor.assoc xor.right_neutral xor_self_eq)

lemma xor_left_cancel [simp]: "c XOR (a :: 'w :: len word) = c XOR b \<longleftrightarrow> a = b"
  by (metis xor.commute xor_right_cancel)

lemma length_put16 [simp]: "length (put_le16 w) = 2" "length (put_be16 w) = 2"
  by (simp_all add: put_le16_def put_be16_def)

text \<open>\<open>slice bs i j\<close> is \<^verbatim>\<open>bs[i:j]\<close> for \<open>i \<le> j \<le> len(bs)\<close>.\<close>

definition slice :: "'a list \<Rightarrow> nat \<Rightarrow> nat \<Rightarrow> 'a list" where
  "slice xs i j = take (j - i) (drop i xs)"

lemma length_slice [simp]: "j \<le> length xs \<Longrightarrow> length (slice xs i j) = j - i"
  by (simp add: slice_def)

lemma slice_append_mid: "length a = i \<Longrightarrow> length b = j - i \<Longrightarrow> slice (a @ b @ c) i j = b"
  by (simp add: slice_def)

lemma slice_update_in: "a \<le> i \<Longrightarrow> i < b \<Longrightarrow> slice (xs[i := c]) a b = (slice xs a b)[i - a := c]"
  by (simp add: slice_def drop_update_swap take_update_swap)

lemma slice_update_out: "b \<le> i \<Longrightarrow> slice (xs[i := c]) a b = slice xs a b"
  by (cases "a \<le> i") (simp_all add: slice_def drop_update_swap list_update_beyond)

lemma nth_slice: "i < j - a \<Longrightarrow> j \<le> length xs \<Longrightarrow> slice xs a j ! i = xs ! (a + i)"
  by (simp add: slice_def)

lemma set_slice_subset: "set (slice xs i j) \<subseteq> set xs"
  unfolding slice_def using set_take_subset set_drop_subset by fast

subsection \<open>Go maps\<close>

definition gm_get :: "'v gomap \<Rightarrow> string \<Rightarrow> 'v option" where
  "gm_get m k = map_of m k"

definition gm_put :: "string \<Rightarrow> 'v \<Rightarrow> 'v gomap \<Rightarrow> 'v gomap" where
  "gm_put k v m = AList.update k v m"

definition gm_del :: "string \<Rightarrow> 'v gomap \<Rightarrow> 'v gomap" where
  "gm_del k m = AList.delete k m"

definition gm_ok :: "'v gomap \<Rightarrow> bool" where
  "gm_ok m \<longleftrightarrow> distinct (map fst m)"

lemma gm_get_put [simp]: "gm_get (gm_put k v m) k' = (if k' = k then Some v else gm_get m k')"
  by (simp add: gm_get_def gm_put_def update_conv')

lemma gm_get_del [simp]: "gm_get (gm_del k m) k' = (if k' = k then None else gm_get m k')"
  by (simp add: gm_get_def gm_del_def delete_conv')

lemma gm_get_Nil [simp]: "gm_get [] k = None"
  by (simp add: gm_get_def)

lemma gm_ok_Nil [simp]: "gm_ok []"
  by (simp add: gm_ok_def)

lemma gm_ok_put [simp, go_intros]: "gm_ok m \<Longrightarrow> gm_ok (gm_put k v m)"
  by (simp add: gm_ok_def gm_put_def distinct_update)

lemma gm_ok_del [simp, go_intros]: "gm_ok m \<Longrightarrow> gm_ok (gm_del k m)"
  by (simp add: gm_ok_def gm_del_def distinct_delete)

lemma gm_mem_get: "gm_ok m \<Longrightarrow> (k, v) \<in> set m \<longleftrightarrow> gm_get m k = Some v"
  by (simp add: gm_ok_def gm_get_def)

lemma gm_get_mem: "gm_get m k = Some v \<Longrightarrow> (k, v) \<in> set m"
  by (simp add: gm_get_def map_of_SomeD)

lemma gm_put_mem:
  assumes "gm_ok m"
  shows "(k', v') \<in> set (gm_put k v m) \<longleftrightarrow> (if k' = k then v' = v else (k', v') \<in> set m)"
  using assms gm_mem_get [OF gm_ok_put [OF assms]] by (auto simp: gm_mem_get)

lemma gm_del_mem:
  assumes "gm_ok m"
  shows "(k', v') \<in> set (gm_del k m) \<longleftrightarrow> k' \<noteq> k \<and> (k', v') \<in> set m"
  using assms gm_mem_get [OF gm_ok_del [OF assms]] by (auto simp: gm_mem_get)

lemma gm_length_put:
  assumes "gm_ok m"
  shows "length (gm_put k v m) = (if gm_get m k = None then Suc (length m) else length m)"
proof -
  have "length (AList.update k v m) = (if k \<in> fst ` set m then length m else Suc (length m))"
    by (induction m) (auto split: if_splits)
  then show ?thesis by (auto simp: gm_put_def gm_get_def map_of_eq_None_iff)
qed

text \<open>Keeping only the entries a predicate accepts: \<^verbatim>\<open>for k := range m { if ... { delete(m, k) } }\<close>.\<close>

definition gm_filter :: "(string \<Rightarrow> 'v \<Rightarrow> bool) \<Rightarrow> 'v gomap \<Rightarrow> 'v gomap" where
  "gm_filter p m = filter (\<lambda>(k, v). p k v) m"

lemma gm_ok_filter [simp, go_intros]: "gm_ok m \<Longrightarrow> gm_ok (gm_filter p m)"
  unfolding gm_ok_def gm_filter_def by (induction m) auto

lemma gm_get_filter:
  assumes "gm_ok m"
  shows "gm_get (gm_filter p m) k = (case gm_get m k of None \<Rightarrow> None | Some v \<Rightarrow> if p k v then Some v else None)"
  using assms unfolding gm_ok_def gm_filter_def gm_get_def
  by (induction m) (auto simp: map_of_eq_None_iff image_iff split: option.splits)

subsection \<open>Results\<close>

lemma sum_case_Inr_iff [simp]: "(case r of Inl e \<Rightarrow> Inl e | Inr x \<Rightarrow> Inr (f x)) = Inr y \<longleftrightarrow> (\<exists>x. r = Inr x \<and> y = f x)"
  by (cases r) auto

end
