(* ===== verification/Checksums.thy ===== *)
theory Checksums
  imports Go_Prelude
begin

text \<open>
  The interface of the byte-wise checksums that protect the frames of the device protocols:
  a running value folded over the bytes of the protected part. The laws ask that one step
  loses nothing, neither of the running value nor of the byte. The client lemma is what a
  receiver relies on: two messages of equal length that differ in one byte never have the
  same checksum. The CRC of the Modbus RTU frames (\<^verbatim>\<open>internal/modbusframe\<close>) and the additive
  checksum of the GB/T 26875 frames (\<^verbatim>\<open>internal/parser/gb26875.go\<close>) interpret it.
\<close>

locale byte_checksum =
  fixes init :: "'s"
    and step :: "'s \<Rightarrow> byte \<Rightarrow> 's"
  assumes step_state_inj: "step s b = step s' b \<Longrightarrow> s = s'"
    and step_byte_inj: "step s b = step s b' \<Longrightarrow> b = b'"
begin

definition check :: "bytes \<Rightarrow> 's" where
  "check bs = foldl step init bs"

lemma foldl_state_inj: "foldl step s bs = foldl step s' bs \<Longrightarrow> s = s'"
  by (induction bs arbitrary: s s') (auto dest: step_state_inj)

lemma foldl_one_byte: "foldl step s (xs @ b # ys) = foldl step s (xs @ c # ys) \<Longrightarrow> b = c"
  by (auto dest: foldl_state_inj step_byte_inj)

lemma check_one_byte:
  assumes "i < length bs" "c \<noteq> bs ! i"
  shows "foldl step init (bs[i := c]) \<noteq> foldl step init bs"
proof
  assume eq: "foldl step init (bs[i := c]) = foldl step init bs"
  have "bs = take i bs @ bs ! i # drop (Suc i) bs" using assms(1) by (rule id_take_nth_drop)
  moreover have "bs[i := c] = take i bs @ c # drop (Suc i) bs"
    using assms(1) by (rule upd_conv_take_nth_drop)
  ultimately have "foldl step init (take i bs @ c # drop (Suc i) bs) =
      foldl step init (take i bs @ bs ! i # drop (Suc i) bs)"
    using eq by metis
  then have "c = bs ! i" by (rule foldl_one_byte)
  with assms(2) show False by simp
qed

end

end
