(* ===== verification/Modbus_Frame.thy ===== *)
theory Modbus_Frame
  imports Checksums
begin

text \<open>
  \<^verbatim>\<open>internal/modbusframe/rtu.go\<close>: the CRC-16 of Modbus RTU (reflected polynomial \<^verbatim>\<open>0xa001\<close>,
  initial value \<^verbatim>\<open>0xffff\<close>, low byte first on the wire), appending it and validating a frame.
\<close>

datatype rtu_error = RtuBadLength | RtuCrcMismatch

text \<open>One round of the inner loop, and its eight rounds for one byte.\<close>

definition crc_bit :: "16 word \<Rightarrow> 16 word" where
  "crc_bit v = (if v AND 1 \<noteq> 0 then drop_bit 1 v XOR 0xa001 else drop_bit 1 v)"

definition crc_byte :: "16 word \<Rightarrow> byte \<Rightarrow> 16 word" where
  "crc_byte v b = (crc_bit ^^ 8) (v XOR ucast b)"

definition CRC :: "bytes \<Rightarrow> 16 word" where
  "CRC data = foldl crc_byte 0xffff data"

definition AppendCRC :: "bytes \<Rightarrow> bytes" where
  "AppendCRC data = (let v = CRC data in data @ [ucast v, ucast (drop_bit 8 v)])"

definition Validate :: "bytes \<Rightarrow> rtu_error + unit" where
  "Validate data =
     (if length data < 5 \<or> length data > 256 then Inl RtuBadLength
      else if CRC (take (length data - 2) data) \<noteq> le16 (drop (length data - 2) data)
      then Inl RtuCrcMismatch
      else Inr ())"

subsection \<open>The CRC step loses nothing\<close>

lemma bit0_and_one: "(v :: 16 word) AND 1 \<noteq> 0 \<longleftrightarrow> bit v 0"
  by (simp add: and_one_eq odd_iff_mod_2_eq_one bit_0)

text \<open>The top bit of the polynomial is set, so the top bit of the result tells the bit shifted out.\<close>

lemma crc_bit_top: "bit (crc_bit v) 15 \<longleftrightarrow> bit v 0"
proof -
  have "\<not> bit v 16" using bit_imp_le_length [of v 16] by auto
  then show ?thesis by (simp add: crc_bit_def bit0_and_one bit_simps)
qed

lemma crc_bit_inj: "crc_bit v = crc_bit w \<Longrightarrow> v = w"
proof -
  assume eq: "crc_bit v = crc_bit w"
  have low: "bit v 0 = bit w 0" using eq crc_bit_top [of v] crc_bit_top [of w] by simp
  have "drop_bit 1 v = drop_bit 1 w"
    using eq low by (simp add: crc_bit_def bit0_and_one split: if_splits)
  then have hi: "bit v (Suc n) = bit w (Suc n)" for n
    by (metis bit_drop_bit_eq comp_apply plus_1_eq_Suc)
  show "v = w"
  proof (rule bit_word_eqI)
    fix n show "bit v n = bit w n" by (cases n) (simp_all add: low hi)
  qed
qed

lemma crc_bit_pow_inj: "(crc_bit ^^ n) v = (crc_bit ^^ n) w \<Longrightarrow> v = w"
  by (induction n) (auto dest: crc_bit_inj)

interpretation crc: byte_checksum "0xffff" crc_byte
proof unfold_locales
  fix s s' :: "16 word" and b :: byte
  assume "crc_byte s b = crc_byte s' b"
  then have "s XOR ucast b = s' XOR ucast b"
    unfolding crc_byte_def by (rule crc_bit_pow_inj)
  then show "s = s'" by simp
next
  fix s :: "16 word" and b b' :: byte
  assume "crc_byte s b = crc_byte s b'"
  then have "s XOR ucast b = s XOR ucast b'"
    unfolding crc_byte_def by (rule crc_bit_pow_inj)
  then have "(ucast b :: 16 word) = ucast b'" by simp
  then show "b = b'" by simp
qed

subsection \<open>Round trip and error detection\<close>

lemma length_AppendCRC [simp]: "length (AppendCRC data) = length data + 2"
  by (simp add: AppendCRC_def Let_def)

lemma le16_crc_tail: "le16 [ucast v, ucast (drop_bit 8 v)] = v"
  using le16_put [of v] by (simp add: put_le16_def)

lemma Validate_AppendCRC_iff:
  "Validate (AppendCRC data) = Inr () \<longleftrightarrow> 3 \<le> length data \<and> length data \<le> 254"
  by (auto simp: Validate_def AppendCRC_def Let_def le16_crc_tail)

text \<open>Every accepted frame is a message with its CRC appended: nothing else passes.\<close>

lemma Validate_sound:
  assumes "Validate f = Inr ()"
  shows "f = AppendCRC (take (length f - 2) f)"
proof -
  let ?n = "length f - 2"
  from assms have len: "5 \<le> length f" and crc: "CRC (take ?n f) = le16 (drop ?n f)"
    by (auto simp: Validate_def split: if_splits)
  from len have "length (drop ?n f) = 2" by simp
  then obtain a b where ab: "drop ?n f = [a, b]" using length_two by blast
  have "AppendCRC (take ?n f) = take ?n f @ put_le16 (le16 [a, b])"
    by (simp add: AppendCRC_def Let_def crc ab put_le16_def)
  then have "AppendCRC (take ?n f) = take ?n f @ [a, b]" by simp
  then show ?thesis using ab by (metis append_take_drop_id)
qed

lemma AppendCRC_inject: "AppendCRC a = AppendCRC b \<Longrightarrow> a = b"
  by (auto simp: AppendCRC_def Let_def)

text \<open>Changing one byte of an accepted frame, wherever it is, makes it rejected.\<close>

lemma Validate_one_byte:
  assumes ok: "Validate f = Inr ()" and i: "i < length f" and c: "c \<noteq> f ! i"
  shows "Validate (f[i := c]) = Inl RtuCrcMismatch"
proof (rule ccontr)
  let ?g = "f[i := c]"
  let ?n = "length f - 2"
  assume "Validate ?g \<noteq> Inl RtuCrcMismatch"
  with ok have "Validate ?g = Inr ()" by (auto simp: Validate_def split: if_splits)
  then have g: "?g = AppendCRC (take ?n ?g)" using Validate_sound [of ?g] by simp
  have f: "f = AppendCRC (take ?n f)" using ok by (rule Validate_sound)
  have len: "5 \<le> length f" using ok by (auto simp: Validate_def split: if_splits)
  show False
  proof (cases "i < ?n")
    case False
    then have "take ?n ?g = take ?n f" by simp
    with f g have "?g = f" by metis
    with i c show False by (metis nth_list_update_eq)
  next
    case True
    then have tk: "take ?n ?g = (take ?n f)[i := c]" by (simp add: take_update_swap)
    have "drop ?n ?g = drop ?n f" using True by simp
    moreover have "drop ?n f = put_le16 (CRC (take ?n f))"
      using arg_cong [OF f, of "drop ?n"] len
      by (simp add: AppendCRC_def Let_def put_le16_def)
    moreover have "drop ?n ?g = put_le16 (CRC (take ?n ?g))"
      using arg_cong [OF g, of "drop ?n"] len
      by (simp add: AppendCRC_def Let_def put_le16_def)
    ultimately have "CRC (take ?n ?g) = CRC (take ?n f)" by (metis le16_put)
    moreover have "CRC ((take ?n f)[i := c]) \<noteq> CRC (take ?n f)"
      unfolding CRC_def using True i c by (intro crc.check_one_byte) auto
    ultimately show False by (simp add: tk)
  qed
qed

end
