(* ===== verification/Go_Time.thy ===== *)
theory Go_Time
  imports Go_Prelude
begin

text \<open>
  The part of Go's \<^verbatim>\<open>time\<close> package the protocol parsers use: \<^verbatim>\<open>time.Date\<close> with its
  normalisation, \<^verbatim>\<open>Time.Year\<close> and \<^verbatim>\<open>Time.UnixMilli\<close>. The local zone is a fixed offset in
  seconds east of UTC, a parameter of the definitions. A wall-clock reading is a \<open>civil\<close>
  record; an instant is the number of local seconds since 0001-01-01 00:00:00.
\<close>

record civil =
  Year :: int
  Month :: int
  Day :: int
  Hour :: int
  Minute :: int
  Second :: int

definition leap :: "int \<Rightarrow> bool" where
  "leap y \<longleftrightarrow> y mod 4 = 0 \<and> (y mod 100 \<noteq> 0 \<or> y mod 400 = 0)"

definition days_before_year :: "int \<Rightarrow> int" where
  "days_before_year y = (let p = y - 1 in 365 * p + p div 4 - p div 100 + p div 400)"

definition month_days :: "int \<Rightarrow> int \<Rightarrow> int" where
  "month_days y m = (if m = 2 then (if leap y then 29 else 28)
     else if m = 4 \<or> m = 6 \<or> m = 9 \<or> m = 11 then 30 else 31)"

definition days_before_month :: "int \<Rightarrow> int \<Rightarrow> int" where
  "days_before_month y m =
     (if m \<le> 1 then 0 else if m = 2 then 31
      else (if leap y then 1 else 0) +
        (if m = 3 then 59 else if m = 4 then 90 else if m = 5 then 120 else if m = 6 then 151
         else if m = 7 then 181 else if m = 8 then 212 else if m = 9 then 243 else if m = 10 then 273
         else if m = 11 then 304 else 334))"

text \<open>\<^verbatim>\<open>time.Date\<close>: the month is brought into 1..12 by moving years; days, hours, minutes and
  seconds out of range carry over, because the instant is a plain sum.\<close>

definition time_Date :: "int \<Rightarrow> int \<Rightarrow> int \<Rightarrow> int \<Rightarrow> int \<Rightarrow> int \<Rightarrow> int" where
  "time_Date y m d hh mm ss =
     (let y' = y + (m - 1) div 12; m' = (m - 1) mod 12 + 1 in
      (days_before_year y' + days_before_month y' m' + (d - 1)) * 86400 + hh * 3600 + mm * 60 + ss)"

text \<open>\<^verbatim>\<open>Time.Year\<close>: an estimate from the mean year length, corrected by one year at most.\<close>

definition time_Year :: "int \<Rightarrow> int" where
  "time_Year t =
     (let d = t div 86400; y = (400 * d) div 146097 + 1 in
      if d < days_before_year y then y - 1
      else if days_before_year (y + 1) \<le> d then y + 1 else y)"

definition unix_epoch :: int where
  "unix_epoch = days_before_year 1970 * 86400"

definition UnixMilli :: "int \<Rightarrow> int \<Rightarrow> int" where
  "UnixMilli zone t = (t - unix_epoch - zone) * 1000"

definition civil_ok :: "civil \<Rightarrow> bool" where
  "civil_ok c \<longleftrightarrow> 1 \<le> Month c \<and> Month c \<le> 12 \<and> 1 \<le> Day c \<and> Day c \<le> month_days (Year c) (Month c) \<and>
     0 \<le> Hour c \<and> Hour c \<le> 23 \<and> 0 \<le> Minute c \<and> Minute c \<le> 59 \<and> 0 \<le> Second c \<and> Second c \<le> 59"

definition civil_instant :: "civil \<Rightarrow> int" where
  "civil_instant c = time_Date (Year c) (Month c) (Day c) (Hour c) (Minute c) (Second c)"

subsection \<open>Facts\<close>

lemma div_pred:
  fixes y n :: int
  assumes "1 < n"
  shows "y div n = (y - 1) div n + (if y mod n = 0 then 1 else 0)"
proof -
  define q r where "q = y div n" and "r = y mod n"
  have y: "y = n * q + r" and r: "0 \<le> r" "r < n" using assms by (simp_all add: q_def r_def)
  show ?thesis
  proof (cases "r = 0")
    case True
    have "y - 1 = n * (q - 1) + (n - 1)" using y True by (simp add: algebra_simps)
    then have "(y - 1) div n = q - 1" using assms int_div_pos_eq [of "y - 1" n "q - 1" "n - 1"] by simp
    then show ?thesis using True by (simp add: q_def r_def)
  next
    case False
    have "y - 1 = n * q + (r - 1)" using y by simp
    then have "(y - 1) div n = q" using False r int_div_pos_eq [of "y - 1" n q "r - 1"] by simp
    then show ?thesis using False by (simp add: q_def r_def)
  qed
qed

lemma days_before_year_step: "days_before_year (y + 1) = days_before_year y + (if leap y then 366 else 365)"
proof -
  have l4: "y mod 4 = 0" if "y mod 100 = 0" using that mod_mod_cancel [of 4 100 y] by simp
  have l100: "y mod 100 = 0" if "y mod 400 = 0" using that mod_mod_cancel [of 100 400 y] by simp
  have next_year: "days_before_year (y + 1) = 365 * y + y div 4 - y div 100 + y div 400"
    by (simp only: days_before_year_def Let_def add_diff_cancel_right')
  have this_year: "days_before_year y = 365 * (y - 1) + (y - 1) div 4 - (y - 1) div 100 + (y - 1) div 400"
    by (simp only: days_before_year_def Let_def)
  have d4: "y div 4 = (y - 1) div 4 + (if y mod 4 = 0 then 1 else 0)" by (rule div_pred) simp
  have d100: "y div 100 = (y - 1) div 100 + (if y mod 100 = 0 then 1 else 0)" by (rule div_pred) simp
  have d400: "y div 400 = (y - 1) div 400 + (if y mod 400 = 0 then 1 else 0)" by (rule div_pred) simp
  have count: "(if P \<and> (\<not> Q \<or> R) then 366 else 365) = 365 + (if P then 1 else 0) - (if Q then 1 else 0) +
      (if R then 1 else (0 :: int))" if "Q \<Longrightarrow> P" "R \<Longrightarrow> Q" for P Q R
    using that by (cases P; cases Q; cases R) simp_all
  have ext: "(if leap y then 366 else 365) = 365 + (if y mod 4 = 0 then 1 else 0) -
      (if y mod 100 = 0 then 1 else 0) + (if y mod 400 = 0 then 1 else (0 :: int))"
    unfolding leap_def by (rule count) (fact l4, fact l100)
  have sum: "365 * y + (a + i) - (b + j) + (c + k) = 365 * (y - 1) + a - b + c + (365 + i - j + k)"
    for a b c i j k :: int by simp
  show ?thesis unfolding next_year this_year ext d4 d100 d400 by (rule sum)
qed

text \<open>No day number up to 31 leaves the year: the last month has 31 days.\<close>

lemma days_in_year_bound:
  assumes "1 \<le> m" "m \<le> 12" "1 \<le> d" "d \<le> 31"
  shows "0 \<le> days_before_month y m + (d - 1)"
    and "days_before_month y m + (d - 1) < (if leap y then 366 else 365)"
proof -
  have "days_before_month y m \<in> {0, 31, 59, 60, 90, 91, 120, 121, 151, 152, 181, 182, 212, 213, 243, 244,
      273, 274, 304, 305, 334, 335}"
    by (simp add: days_before_month_def)
  then have "0 \<le> days_before_month y m" by auto
  with assms(3) show "0 \<le> days_before_month y m + (d - 1)" by linarith
  have "days_before_month y m \<le> (if leap y then 335 else 334)" by (simp add: days_before_month_def)
  with assms(4) show "days_before_month y m + (d - 1) < (if leap y then 366 else 365)"
    by (simp split: if_splits)
qed

lemma div_bounds: "0 < n \<Longrightarrow> n * (p div n) \<le> p \<and> p < n * (p div n) + n" for n p :: int
  using pos_mod_bound [of n p] pos_mod_sign [of n p] mult_div_mod_eq [of n p] by linarith

lemma year_bounds:
  "146097 * (y - 1) - 699 \<le> 400 * days_before_year y" "400 * days_before_year y \<le> 146097 * (y - 1) + 396"
proof -
  define p a b c where "p = y - 1" and "a = p div 4" and "b = p div 100" and "c = p div 400"
  have "4 * a \<le> p \<and> p < 4 * a + 4" unfolding a_def by (rule div_bounds) simp
  moreover have "100 * b \<le> p \<and> p < 100 * b + 100" unfolding b_def by (rule div_bounds) simp
  moreover have "400 * c \<le> p \<and> p < 400 * c + 400" unfolding c_def by (rule div_bounds) simp
  moreover have "days_before_year y = 365 * p + a - b + c"
    by (simp only: days_before_year_def Let_def p_def a_def b_def c_def)
  ultimately show "146097 * (y - 1) - 699 \<le> 400 * days_before_year y"
    "400 * days_before_year y \<le> 146097 * (y - 1) + 396"
    unfolding p_def [symmetric] by linarith+
qed

lemma time_Year_day:
  assumes "days_before_year y \<le> t div 86400" "t div 86400 < days_before_year (y + 1)"
  shows "time_Year t = y"
proof -
  define d e where "d = t div 86400" and "e = (400 * d) div 146097 + 1"
  have lo: "146097 * (y - 1) - 699 \<le> 400 * d" and hi: "400 * d < 146097 * y + 396"
    using assms year_bounds(1) [of y] year_bounds(2) [of "y + 1"] by (simp_all add: d_def)
  have e: "146097 * (e - 1) \<le> 400 * d \<and> 400 * d < 146097 * (e - 1) + 146097"
    using div_bounds [of 146097 "400 * d"] by (simp add: e_def)
  have "y - 1 \<le> e" using lo e [THEN conjunct2] by simp
  moreover have "e \<le> y + 1" using hi e [THEN conjunct1] by simp
  ultimately consider "e = y - 1" | "e = y" | "e = y + 1" by linarith
  then show ?thesis
  proof cases
    case 1
    have "days_before_year (y - 1) \<le> d"
      using days_before_year_step [of "y - 1"] assms(1) by (simp add: d_def split: if_splits)
    with 1 assms show ?thesis by (simp add: time_Year_def Let_def d_def [symmetric] e_def [symmetric])
  qed (use assms in \<open>simp_all add: time_Year_def Let_def d_def [symmetric] e_def [symmetric]\<close>)
qed

lemma time_Year_Date:
  assumes "1 \<le> m" "m \<le> 12" "1 \<le> d" "d \<le> 31" "0 \<le> hh" "hh \<le> 23" "0 \<le> mm" "mm \<le> 59" "0 \<le> ss" "ss \<le> 59"
  shows "time_Year (time_Date y m d hh mm ss) = y"
proof -
  have m: "(m - 1) div 12 = 0" "(m - 1) mod 12 = m - 1" using assms(1,2) by simp_all
  have rest: "0 \<le> hh * 3600 + mm * 60 + ss" "hh * 3600 + mm * 60 + ss < 86400"
    using assms(5-) by linarith+
  have "time_Date y m d hh mm ss div 86400 = days_before_year y + days_before_month y m + (d - 1)"
    using rest by (intro int_div_pos_eq [where r = "hh * 3600 + mm * 60 + ss"])
      (simp_all add: time_Date_def Let_def m)
  then show ?thesis
    using days_in_year_bound [OF assms(1-4), of y] days_before_year_step [of y]
    by (intro time_Year_day) simp_all
qed

end
