(* ===== verification/Model_Types.thy ===== *)
theory Model_Types
  imports Go_Prelude Complex_Main
begin

text \<open>
  The data model of \<^verbatim>\<open>internal/model\<close>: messages, device states, alarms, rules and the
  registry entries the engine reads, with the pure methods of these types. Every struct is
  a record with the source's fields in the source's order (the prefix names the type); a
  nil pointer is \<open>None\<close>, a nil map or slice is the empty list.
\<close>

subsection \<open>Dynamic values\<close>

text \<open>
  \<^verbatim>\<open>float64\<close> as far as the code looks at it: NaN, the infinities and the finite numbers, which
  are rational. Both zeros compare equal in Go and are one number here.
\<close>

datatype f64 = FNaN | FInf bool | FNum rat

fun f64_lt :: "f64 \<Rightarrow> f64 \<Rightarrow> bool" where
  "f64_lt (FNum a) (FNum b) = (a < b)"
| "f64_lt (FInf neg) (FNum _) = neg"
| "f64_lt (FNum _) (FInf neg) = (\<not> neg)"
| "f64_lt (FInf a) (FInf b) = (a \<and> \<not> b)"
| "f64_lt _ _ = False"

fun f64_eq :: "f64 \<Rightarrow> f64 \<Rightarrow> bool" where
  "f64_eq (FNum a) (FNum b) = (a = b)"
| "f64_eq (FInf a) (FInf b) = (a = b)"
| "f64_eq _ _ = False"

definition f64_le :: "f64 \<Rightarrow> f64 \<Rightarrow> bool" where
  "f64_le a b \<longleftrightarrow> f64_lt a b \<or> f64_eq a b"

text \<open>The integer kinds a Go \<^verbatim>\<open>any\<close> may hold, and the dynamic values themselves.\<close>

datatype int_kind = KInt | KInt64 | KInt32 | KUint | KUint64 | KUint32 | KUint16 | KUint8

datatype gval =
    VNil
  | VBool bool
  | VInt int_kind int
  | VFloat f64
  | VFloat32 f64
  | VStr string
  | VBytes string
  | VList "gval list"
  | VMap "(string \<times> gval) list"

subsection \<open>Messages\<close>

text \<open>The kind of a message is a string type: the six kinds of the platform, and any other text a parser was configured with.\<close>

datatype MessageType = PropertyReport | EventReport | StateChange | AlarmReport | CommandReply | LogReport | OtherType string

record RawMessage =
  rm_MessageID :: string
  rm_Source :: string
  rm_TenantID :: string
  rm_ProductID :: string
  rm_DeviceID :: string
  rm_DeviceName :: string
  rm_GatewayID :: string
  rm_Protocol :: string
  rm_Transport :: string
  rm_ReceivedAt :: int
  rm_PayloadFormat :: string
  rm_Payload :: string
  rm_ClientID :: string
  rm_RemoteAddress :: string
  rm_Headers :: "string gomap"
  rm_ParserVersion :: string
  rm_ProtocolID :: string
  rm_ProtocolVersion :: string
  rm_PointTableVersion :: string
  rm_CollectorID :: string
  rm_Metadata :: "gval gomap"

definition zero_RawMessage :: RawMessage where
  "zero_RawMessage = \<lparr>rm_MessageID = [], rm_Source = [], rm_TenantID = [], rm_ProductID = [], rm_DeviceID = [],
     rm_DeviceName = [], rm_GatewayID = [], rm_Protocol = [], rm_Transport = [], rm_ReceivedAt = 0,
     rm_PayloadFormat = [], rm_Payload = [], rm_ClientID = [], rm_RemoteAddress = [], rm_Headers = [],
     rm_ParserVersion = [], rm_ProtocolID = [], rm_ProtocolVersion = [], rm_PointTableVersion = [],
     rm_CollectorID = [], rm_Metadata = []\<rparr>"

text \<open>The JSON text of a raw message: \<^verbatim>\<open>json.Marshal\<close> and \<^verbatim>\<open>json.Unmarshal\<close> of the standard library.\<close>

record codec =
  cd_marshal :: "RawMessage \<Rightarrow> string option"
  cd_unmarshal :: "string \<Rightarrow> RawMessage option"

record StandardMessage =
  sm_MessageID :: string
  sm_RawMessageID :: string
  sm_TenantID :: string
  sm_ProductID :: string
  sm_DeviceID :: string
  sm_MessageType :: MessageType
  sm_Timestamp :: int
  sm_Properties :: "gval gomap"
  sm_Event :: "gval gomap"
  sm_Tags :: "string gomap"
  sm_Raw :: "gval gomap"
  sm_Parser :: string
  sm_ParserVersion :: string

record RawArchiveIndex =
  ri_MessageID :: string
  ri_TenantID :: string
  ri_ProductID :: string
  ri_DeviceID :: string
  ri_Protocol :: string
  ri_PayloadFormat :: string
  ri_ObjectBucket :: string
  ri_ObjectKey :: string
  ri_ObjectOffset :: int
  ri_PayloadHash :: string
  ri_PayloadSize :: int
  ri_ReceivedAt :: int
  ri_ArchivedAt :: int
  ri_PublishedAt :: int
  ri_PublishAttempts :: int
  ri_LastPublishError :: string
  ri_ParseAttemptedAt :: int
  ri_ParseError :: string

text \<open>The level of an MQTT topic built from free text: slashes become underscores, outer blanks are dropped.\<close>

definition topic_clean :: "string \<Rightarrow> string" where
  "topic_clean v =
     (let v = trim_by (\<lambda>c. c = CHR '' '') (map (\<lambda>c. if c = CHR ''/'' then CHR ''_'' else c) v)
      in if v = [] then ''unknown'' else v)"

definition MessageType_text :: "MessageType \<Rightarrow> string" where
  "MessageType_text t = (case t of PropertyReport \<Rightarrow> ''PROPERTY_REPORT'' | EventReport \<Rightarrow> ''EVENT_REPORT''
     | StateChange \<Rightarrow> ''STATE_CHANGE'' | AlarmReport \<Rightarrow> ''ALARM_REPORT'' | CommandReply \<Rightarrow> ''COMMAND_REPLY''
     | LogReport \<Rightarrow> ''LOG_REPORT'' | OtherType s \<Rightarrow> s)"

definition MessageType_of :: "string \<Rightarrow> MessageType" where
  "MessageType_of s = (case find (\<lambda>t. MessageType_text t = s) [PropertyReport, EventReport, StateChange, AlarmReport, CommandReply, LogReport] of
     Some t \<Rightarrow> t | None \<Rightarrow> OtherType s)"

lemma MessageType_text_of [simp]: "MessageType_text (MessageType_of s) = s"
proof (cases "find (\<lambda>t. MessageType_text t = s) [PropertyReport, EventReport, StateChange, AlarmReport, CommandReply, LogReport]")
  case None
  then show ?thesis unfolding MessageType_of_def None by (simp add: MessageType_text_def)
next
  case (Some t)
  then have "MessageType_text t = s" unfolding find_Some_iff by blast
  then show ?thesis unfolding MessageType_of_def Some by simp
qed

definition StandardMessage_MQTTTopic :: "StandardMessage \<Rightarrow> string" where
  "StandardMessage_MQTTTopic m = ''/iot/parsed/'' @ topic_clean (sm_TenantID m) @ ''/'' @ topic_clean (sm_ProductID m) @
     ''/'' @ topic_clean (sm_DeviceID m) @ ''/'' @ topic_clean (MessageType_text (sm_MessageType m))"

definition MaxRawPublishAttempts :: int where
  "MaxRawPublishAttempts = 12"

text \<open>The partition key of device-ordered topics.\<close>

definition DeviceKey :: "string \<Rightarrow> string \<Rightarrow> string" where
  "DeviceKey tenant device = nat_digits (length tenant) @ '':'' @ tenant @ device"

subsection \<open>Device state\<close>

record DeviceState =
  ds_Version :: int
  ds_TenantID :: string
  ds_ProductID :: string
  ds_DeviceID :: string
  ds_ConnectionStatus :: string
  ds_DataStatus :: string
  ds_BusinessStatus :: string
  ds_LastConnectAt :: int
  ds_LastDisconnectAt :: int
  ds_LastSeenAt :: int
  ds_LastMessageID :: string
  ds_ReportIntervalSec :: int
  ds_OfflineToleranceSec :: int
  ds_OfflineAt :: int
  ds_OfflineDetectedAt :: int
  ds_StatusSource :: string
  ds_Reason :: string

definition zero_DeviceState :: DeviceState where
  "zero_DeviceState = \<lparr>ds_Version = 0, ds_TenantID = [], ds_ProductID = [], ds_DeviceID = [],
     ds_ConnectionStatus = [], ds_DataStatus = [], ds_BusinessStatus = [], ds_LastConnectAt = 0,
     ds_LastDisconnectAt = 0, ds_LastSeenAt = 0, ds_LastMessageID = [], ds_ReportIntervalSec = 0,
     ds_OfflineToleranceSec = 0, ds_OfflineAt = 0, ds_OfflineDetectedAt = 0, ds_StatusSource = [],
     ds_Reason = []\<rparr>"

record DeviceStateEvent =
  de_State :: DeviceState
  de_RecordedAt :: int

definition OfflineDeadline :: "DeviceState \<Rightarrow> int" where
  "OfflineDeadline s = ds_LastSeenAt s + (ds_ReportIntervalSec s + ds_OfflineToleranceSec s) * 1000"

definition OfflineStatus :: "DeviceState \<Rightarrow> string" where
  "OfflineStatus s = (if ds_ConnectionStatus s = ''CONNECTED'' then ''SUSPECTED_OFFLINE'' else ''OFFLINE'')"

definition OfflineCheckAt :: "DeviceState \<Rightarrow> int" where
  "OfflineCheckAt s =
     (if ds_LastSeenAt s = 0 then 0
      else let deadline = OfflineDeadline s in
        if ds_DataStatus s = ''SILENT'' \<and> ds_BusinessStatus s = OfflineStatus s \<and> ds_OfflineAt s = deadline
        then 0 else deadline)"

subsection \<open>Registry entries and timing\<close>

record ThingField =
  tf_Writable :: bool
  tf_Identifier :: string
  tf_Name :: string
  tf_DataType :: string
  tf_Unit :: string
  tf_Required :: bool
  tf_Min :: "f64 option"
  tf_Max :: "f64 option"
  tf_AlarmLow :: "f64 option"
  tf_AlarmHigh :: "f64 option"

definition Numeric :: "ThingField \<Rightarrow> bool" where
  "Numeric f \<longleftrightarrow> tf_DataType f = ''number'' \<or> tf_DataType f = ''integer''"

record ThingOperation =
  to_Identifier :: string
  to_Name :: string
  to_Fields :: "ThingField list"

record ThingModel =
  tm_Properties :: "ThingField list"
  tm_Events :: "ThingOperation list"
  tm_Commands :: "ThingOperation list"

text \<open>The fields of a product the engine reads: the preparation and presentation fields of the registry are left out.\<close>

record Product =
  pr_ThingModel :: "ThingModel option"
  pr_ID :: string
  pr_TenantID :: string
  pr_Name :: string
  pr_ProtocolPackageID :: string
  pr_Status :: string
  pr_Metadata :: "gval gomap"
  pr_ReportIntervalSec :: int
  pr_OfflineToleranceSec :: int
  pr_CreatedAt :: int
  pr_UpdatedAt :: int

record ManagedDevice =
  md_ID :: string
  md_TenantID :: string
  md_ProductID :: string
  md_Name :: string
  md_Status :: string
  md_DeviceRole :: string
  md_GatewayID :: string
  md_RegistrationSource :: string
  md_AutoRegistered :: bool
  md_AccessKey :: string
  md_SecretHash :: string
  md_SecretHint :: string
  md_Description :: string
  md_Tags :: "string gomap"
  md_CreatedAt :: int
  md_UpdatedAt :: int
  md_Connector :: string
  md_ConnectorProfileID :: string
  md_ChildAddress :: string
  md_ChildType :: string
  md_OnboardingRequestHash :: string
  md_ReportIntervalSec :: int
  md_OfflineToleranceSec :: int

definition zero_ManagedDevice :: ManagedDevice where
  "zero_ManagedDevice = \<lparr>md_ID = [], md_TenantID = [], md_ProductID = [], md_Name = [], md_Status = [],
     md_DeviceRole = [], md_GatewayID = [], md_RegistrationSource = [], md_AutoRegistered = False,
     md_AccessKey = [], md_SecretHash = [], md_SecretHint = [], md_Description = [], md_Tags = [],
     md_CreatedAt = 0, md_UpdatedAt = 0, md_Connector = [], md_ConnectorProfileID = [], md_ChildAddress = [],
     md_ChildType = [], md_OnboardingRequestHash = [], md_ReportIntervalSec = 0, md_OfflineToleranceSec = 0\<rparr>"

text \<open>\<^verbatim>\<open>ManagedDevice.IsGateway\<close>.\<close>

definition IsGateway :: "ManagedDevice \<Rightarrow> bool" where
  "IsGateway d \<longleftrightarrow> md_DeviceRole d = ''GATEWAY'' \<and> md_GatewayID d = []"

definition DefaultReportIntervalSec :: int where "DefaultReportIntervalSec = 300"
definition DefaultOfflineToleranceSec :: int where "DefaultOfflineToleranceSec = 60"

datatype timing_error = BadInterval | BadTolerance

definition ValidateDeviceTiming :: "int \<Rightarrow> int \<Rightarrow> timing_error + unit" where
  "ValidateDeviceTiming interval tolerance =
     (if interval \<noteq> 0 \<and> (interval < 10 \<or> interval > 7 * 24 * 3600) then Inl BadInterval
      else if tolerance < 0 \<or> tolerance > 24 * 3600 then Inl BadTolerance
      else Inr ())"

subsection \<open>Rules and alarms\<close>

record RuleCondition =
  rc_Field :: string
  rc_Operator :: string
  rc_Value :: gval

record RuleAction =
  ra_Type :: string
  ra_CameraID :: string
  ra_Page :: string

record AlarmRule =
  ar_ID :: string
  ar_TenantID :: string
  ar_ProductID :: string
  ar_Name :: string
  ar_Description :: string
  ar_AlarmType :: string
  ar_Level :: string
  ar_Conditions :: "RuleCondition list"
  ar_Match :: string
  ar_DurationSeconds :: int
  ar_Recovery :: "RuleCondition list"
  ar_Actions :: "RuleAction list"
  ar_Expression :: string
  ar_Enabled :: bool
  ar_Version :: int
  ar_CreatedAt :: int
  ar_UpdatedAt :: int

record CameraSummary =
  cs_CameraID :: string
  cs_Brand :: string
  cs_CameraName :: string
  cs_CameraPoint :: string
  cs_DeviceID :: string
  cs_Building :: string
  cs_Floor :: string
  cs_Room :: string
  cs_Enabled :: bool

record AlarmLocation =
  lo_UnitID :: string
  lo_UnitName :: string
  lo_BuildingID :: string
  lo_BuildingName :: string
  lo_FloorID :: string
  lo_FloorName :: string
  lo_PointID :: string
  lo_PointName :: string
  lo_X :: "f64 option"
  lo_Y :: "f64 option"
  lo_Current :: bool

record AlarmDisposition =
  di_Result :: string
  di_Notes :: string
  di_Handler :: string
  di_ArrivedAt :: int
  di_DispatchID :: string
  di_VerifiedAt :: int
  di_AIAnalysisAt :: int
  di_AIRiskLevel :: string
  di_AIPromptVersion :: string

record AlarmAttachment =
  at_ID :: string
  at_Name :: string
  at_ContentType :: string
  at_Size :: int
  at_SHA256 :: string
  at_UploadedBy :: string
  at_UploadedAt :: int

record Alarm =
  al_Version :: int
  al_ComponentID :: string
  al_ComponentName :: string
  al_ComponentLocation :: string
  al_ID :: string
  al_TenantID :: string
  al_RuleID :: string
  al_TriggerID :: string
  al_DeviceID :: string
  al_DeviceName :: string
  al_AlarmType :: string
  al_Content :: string
  al_AlarmLevel :: string
  al_Status :: string
  al_Source :: string
  al_CityCode :: string
  al_DistrictCode :: string
  al_BuildingID :: string
  al_DeviceType :: string
  al_AreaID :: string
  al_FirstTriggeredAt :: int
  al_LastTriggeredAt :: int
  al_TriggerCount :: int
  al_RecoveredAt :: int
  al_AckedAt :: int
  al_ClosedAt :: int
  al_Confidence :: f64
  al_MultiSource :: bool
  al_Cameras :: "CameraSummary list"
  al_Details :: "gval gomap"
  al_Disposition :: "AlarmDisposition option"
  al_Location :: "AlarmLocation option"
  al_Attachments :: "AlarmAttachment list"

definition zero_Alarm :: Alarm where
  "zero_Alarm = \<lparr>al_Version = 0, al_ComponentID = [], al_ComponentName = [], al_ComponentLocation = [],
     al_ID = [], al_TenantID = [], al_RuleID = [], al_TriggerID = [], al_DeviceID = [], al_DeviceName = [],
     al_AlarmType = [], al_Content = [], al_AlarmLevel = [], al_Status = [], al_Source = [],
     al_CityCode = [], al_DistrictCode = [], al_BuildingID = [], al_DeviceType = [], al_AreaID = [],
     al_FirstTriggeredAt = 0, al_LastTriggeredAt = 0, al_TriggerCount = 0, al_RecoveredAt = 0,
     al_AckedAt = 0, al_ClosedAt = 0, al_Confidence = FNum 0, al_MultiSource = False, al_Cameras = [],
     al_Details = [], al_Disposition = None, al_Location = None, al_Attachments = []\<rparr>"

definition Alarm_MQTTTopic :: "Alarm \<Rightarrow> string \<Rightarrow> string" where
  "Alarm_MQTTTopic a eventType = ''/iot/alarm/'' @ topic_clean eventType @ ''/'' @ topic_clean (al_CityCode a) @ ''/'' @
     topic_clean (al_DistrictCode a) @ ''/'' @ topic_clean (al_BuildingID a) @ ''/'' @ topic_clean (al_DeviceType a) @
     ''/'' @ topic_clean (al_DeviceID a)"

text \<open>\<^verbatim>\<open>a.Status == "ACTIVE" || a.Status == "ACKED"\<close>, the test for an open alarm.\<close>

definition alarm_open :: "Alarm \<Rightarrow> bool" where
  "alarm_open a \<longleftrightarrow> al_Status a = ''ACTIVE'' \<or> al_Status a = ''ACKED''"

definition ValidDispositionResult :: "string \<Rightarrow> bool" where
  "ValidDispositionResult v \<longleftrightarrow>
     v \<in> {''REAL_FIRE'', ''FALSE_ALARM'', ''TEST'', ''MAINTENANCE'', ''FAULT''}"

definition fireAlarmTypes :: "string list" where
  "fireAlarmTypes = [''FIRE'', ''FIRE_RISK'', ''SMOKE_DETECTED'', ''FLAME_DETECTED'', ''ELECTRICAL_FIRE'',
     ''MANUAL_ALARM'', ''GAS_LEAK'']"

definition RequiresVerification :: "Alarm \<Rightarrow> bool" where
  "RequiresVerification a \<longleftrightarrow> equal_fold (al_AlarmLevel a) ''CRITICAL'' \<or>
     to_upper (al_AlarmType a) \<in> set fireAlarmTypes"

definition MaxAlarmAttachments :: nat where
  "MaxAlarmAttachments = 10"

text \<open>An outbox event; its payload is the reported alarm (its JSON text in the code).\<close>

record OutboxEvent =
  ob_Seq :: int
  ob_Topic :: string
  ob_Key :: string
  ob_Payload :: Alarm

definition TopicAlarmReported :: string where "TopicAlarmReported = ''iot.alarm.reported''"

definition AlarmReportEvent :: "Alarm \<Rightarrow> Alarm \<Rightarrow> OutboxEvent" where
  "AlarmReportEvent saved report =
     \<lparr>ob_Seq = 0, ob_Topic = TopicAlarmReported, ob_Key = al_ID saved,
      ob_Payload = report\<lparr>al_ID := al_ID saved, al_FirstTriggeredAt := al_FirstTriggeredAt saved,
        al_TriggerCount := al_TriggerCount saved, al_Status := al_Status saved\<rparr>\<rparr>"

record AuditLog =
  au_ID :: string
  au_TenantID :: string
  au_Actor :: string
  au_Action :: string
  au_TargetType :: string
  au_TargetID :: string
  au_Details :: "gval gomap"
  au_CreatedAt :: int

subsection \<open>Component alarms\<close>

record ComponentStatus =
  co_ID :: string
  co_Name :: string
  co_Location :: string
  co_Timestamp :: int
  co_Alarms :: "bool gomap"

record ComponentAlarmState =
  ca_Timestamp :: int
  ca_MessageID :: string
  ca_Active :: bool
  ca_AlarmID :: string
  ca_Event :: string

definition zero_ComponentAlarmState :: ComponentAlarmState where
  "zero_ComponentAlarmState = \<lparr>ca_Timestamp = 0, ca_MessageID = [], ca_Active = False, ca_AlarmID = [], ca_Event = []\<rparr>"

definition Supersedes :: "ComponentAlarmState \<Rightarrow> ComponentAlarmState \<Rightarrow> bool" where
  "Supersedes nxt old =
     (if ca_Timestamp nxt < ca_Timestamp old \<or> (ca_MessageID nxt = ca_MessageID old \<and> ca_MessageID old \<noteq> [])
      then False
      else ca_Timestamp nxt \<noteq> ca_Timestamp old \<or> (\<not> ca_Active old \<and> ca_Active nxt))"

definition TransitionComponentAlarm :: "Alarm \<Rightarrow> Alarm \<Rightarrow> ComponentAlarmState \<Rightarrow> Alarm \<times> string" where
  "TransitionComponentAlarm candidate old state =
     (let active = alarm_open old in
      if ca_Active state then
        if active then
          (let o1 = old\<lparr>al_LastTriggeredAt := al_LastTriggeredAt candidate,
                al_TriggerCount := al_TriggerCount old + 1, al_TriggerID := al_TriggerID candidate,
                al_Details := al_Details candidate\<rparr>;
             o2 = (if al_ComponentName candidate \<noteq> [] then o1\<lparr>al_ComponentName := al_ComponentName candidate\<rparr> else o1);
             o3 = (if al_ComponentLocation candidate \<noteq> [] then o2\<lparr>al_ComponentLocation := al_ComponentLocation candidate\<rparr> else o2)
           in (o3, []))
        else (candidate, ''raised'')
      else if active then
        (old\<lparr>al_Status := ''RECOVERED'', al_RecoveredAt := al_LastTriggeredAt candidate\<rparr>, ''recovered'')
      else (old, []))"

subsection \<open>Claims and leases\<close>

record StandardClaim =
  sc_ShouldProcess :: bool
  sc_Created :: bool
  sc_Token :: int
  sc_Busy :: bool
  sc_HeldBy :: string
  sc_RetryAfter :: int

record ExecutionLease =
  el_TenantID :: string
  el_Resource :: string
  el_Owner :: string
  el_Endpoint :: string
  el_Token :: int
  el_ExpiresAt :: int

subsection \<open>Facts about the types\<close>

lemma alarm_open_simps [simp]:
  "alarm_open (a\<lparr>al_Status := ''RECOVERED''\<rparr>) = False"
  "alarm_open (a\<lparr>al_Status := ''CLOSED''\<rparr>) = False"
  "alarm_open (a\<lparr>al_Status := ''SUPPRESSED''\<rparr>) = False"
  "alarm_open (a\<lparr>al_Status := ''ACKED''\<rparr>) = True"
  by (simp_all add: alarm_open_def)

lemma zero_Alarm_not_open [simp]: "\<not> alarm_open zero_Alarm"
  by (simp add: alarm_open_def zero_Alarm_def)

text \<open>The length prefix makes the partition key injective.\<close>

lemma takeWhile_digits:
  "takeWhile (\<lambda>c. c \<noteq> CHR '':'') (nat_digits n @ '':'' @ s) = nat_digits n"
proof -
  have "c \<noteq> CHR '':''" if "c \<in> set (nat_digits n)" for c
    using nat_digits_all_digit [OF that] by auto
  then show ?thesis by (simp add: takeWhile_append2)
qed

lemma DeviceKey_inject: "DeviceKey t d = DeviceKey t' d' \<longleftrightarrow> t = t' \<and> d = d'"
proof
  assume eq: "DeviceKey t d = DeviceKey t' d'"
  then have "nat_digits (length t) = nat_digits (length t')"
    by (metis DeviceKey_def takeWhile_digits)
  then have len: "length t = length t'" by simp
  with eq show "t = t' \<and> d = d'" by (simp add: DeviceKey_def)
qed simp

lemma OfflineCheckAt_marked:
  assumes "ds_DataStatus s = ''SILENT''" "ds_BusinessStatus s = OfflineStatus s" "ds_OfflineAt s = OfflineDeadline s"
  shows "OfflineCheckAt s = 0"
  using assms by (simp add: OfflineCheckAt_def Let_def)

end
