(* ===== verification/GB26875.thy ===== *)
theory GB26875
  imports Checksums Go_Time Model_Types
begin

text \<open>
  \<^verbatim>\<open>internal/parser/gb26875.go\<close>: the GB/T 26875.3-2011 frame codec and the parser that turns a
  frame into a standard message. The zone of \<^verbatim>\<open>time.Local\<close> is the parameter \<open>loc\<close>. The lemmas:
  frames decode to what was encoded, one corrupted byte is always noticed, and the message
  type of a component report is exactly what its status words say.
\<close>

datatype gb_error =
    GbTooShort | GbBadStart | GbBadEnd
  | GbDataTooLong nat | GbLengthMismatch nat nat | GbChecksum byte byte
  | GbNoHeader byte | GbBadRegistration | GbBadTimeSync
  | GbBadComponents nat nat | GbUnsupported byte byte | GbInvalidHex

definition gb26875ControlLength :: nat where "gb26875ControlLength = 25"
definition gb26875MaxDataLength :: nat where "gb26875MaxDataLength = 512"

record gb26875Frame =
  gf_Sequence :: "16 word"
  gf_VersionMajor :: byte
  gf_VersionMinor :: byte
  gf_Source :: string
  gf_Destination :: string
  gf_Command :: byte
  gf_Data :: bytes
  gf_FrameTime :: int

subsection \<open>BCD times\<close>

definition decodeBCD :: "byte \<Rightarrow> int" where
  "decodeBCD v = (if drop_bit 4 v \<le> 9 \<and> v AND 0x0f \<le> 9
     then uint (drop_bit 4 v) * 10 + uint (v AND 0x0f) else uint v)"

definition encodeBCD :: "int \<Rightarrow> byte" where
  "encodeBCD v = word_of_int (push_bit 4 (v div 10) OR v mod 10)"

definition decodeGB26875Time :: "int \<Rightarrow> bytes \<Rightarrow> int" where
  "decodeGB26875Time loc data =
     (if length data \<noteq> 6 then 0
      else let v = map decodeBCD data;
               year = 2000 + v ! 5;
               t = time_Date year (v ! 4) (v ! 3) (v ! 2) (v ! 1) (v ! 0)
           in if v ! 4 < 1 \<or> v ! 4 > 12 \<or> v ! 3 < 1 \<or> v ! 3 > 31 \<or> v ! 2 > 23 \<or> v ! 1 > 59 \<or> v ! 0 > 59
                \<or> time_Year t \<noteq> year
              then 0 else UnixMilli loc t)"

definition encodeGB26875Time :: "civil \<Rightarrow> bytes" where
  "encodeGB26875Time tm = [encodeBCD (Second tm), encodeBCD (Minute tm), encodeBCD (Hour tm),
     encodeBCD (Day tm), encodeBCD (Month tm), encodeBCD (Year tm mod 100)]"

subsection \<open>Frames\<close>

definition gb_sum :: "bytes \<Rightarrow> byte" where
  "gb_sum bs = foldl (+) 0 bs"

definition at_sign :: byte where "at_sign = 0x40"
definition hash_sign :: byte where "hash_sign = 0x23"

definition decodeGB26875Frame :: "int \<Rightarrow> bytes \<Rightarrow> gb_error + gb26875Frame" where
  "decodeGB26875Frame loc data =
     (let n = length data in
      if n < 2 + gb26875ControlLength + 1 + 2 then Inl GbTooShort
      else if data ! 0 \<noteq> at_sign \<or> data ! 1 \<noteq> at_sign then Inl GbBadStart
      else if data ! (n - 2) \<noteq> hash_sign \<or> data ! (n - 1) \<noteq> hash_sign then Inl GbBadEnd
      else let dataLength = unat (le16 (slice data 24 26)) in
        if dataLength > gb26875MaxDataLength then Inl (GbDataTooLong dataLength)
        else if n \<noteq> 2 + gb26875ControlLength + dataLength + 1 + 2 then Inl (GbLengthMismatch dataLength n)
        else let sum = gb_sum (slice data 2 (27 + dataLength)) in
          if data ! (27 + dataLength) \<noteq> sum then Inl (GbChecksum (data ! (27 + dataLength)) sum)
          else Inr \<lparr>gf_Sequence = le16 (slice data 2 4), gf_VersionMajor = data ! 4, gf_VersionMinor = data ! 5,
                gf_Source = to_upper (hex_encode (slice data 12 18)),
                gf_Destination = to_upper (hex_encode (slice data 18 24)),
                gf_Command = data ! 26, gf_Data = slice data 27 (27 + dataLength),
                gf_FrameTime = decodeGB26875Time loc (slice data 6 12)\<rparr>)"

text \<open>The header and the application data, over which the checksum runs.\<close>

definition gb_body :: "16 word \<Rightarrow> bytes \<Rightarrow> bytes \<Rightarrow> byte \<Rightarrow> bytes \<Rightarrow> civil \<Rightarrow> bytes" where
  "gb_body sequence source destination command application tm =
     put_le16 sequence @ [1, 3] @ encodeGB26875Time tm @ source @ destination @
     put_le16 (of_nat (length application)) @ [command] @ application"

definition buildGB26875Frame :: "16 word \<Rightarrow> bytes \<Rightarrow> bytes \<Rightarrow> byte \<Rightarrow> bytes \<Rightarrow> civil \<Rightarrow> bytes" where
  "buildGB26875Frame sequence source destination command application tm =
     (let body = gb_body sequence source destination command application tm in
      [at_sign, at_sign] @ body @ [gb_sum body] @ [hash_sign, hash_sign])"

definition platform_address :: bytes where "platform_address = replicate 6 0xff"

definition BuildGB26875AckFrame :: "16 word \<Rightarrow> bytes \<Rightarrow> civil \<Rightarrow> bytes" where
  "BuildGB26875AckFrame sequence destination tm =
     buildGB26875Frame sequence platform_address destination 0x03 [] tm"

definition BuildGB26875TimeSyncFrame :: "16 word \<Rightarrow> bytes \<Rightarrow> civil \<Rightarrow> bytes" where
  "BuildGB26875TimeSyncFrame sequence destination tm =
     buildGB26875Frame sequence platform_address destination 0x01 ([0x5A, 0x01] @ encodeGB26875Time tm) tm"

definition BuildGB26875TimeSyncRequestFrame :: "16 word \<Rightarrow> bytes \<Rightarrow> civil \<Rightarrow> bytes" where
  "BuildGB26875TimeSyncRequestFrame sequence source tm =
     buildGB26875Frame sequence source platform_address 0x01 ([0x5A, 0x01] @ encodeGB26875Time tm) tm"

text \<open>\<open>copy_into dst i src\<close> is \<^verbatim>\<open>copy(dst[i:j], src)\<close> with \<open>j\<close> bounding how much is copied.\<close>

definition copy_into :: "bytes \<Rightarrow> nat \<Rightarrow> nat \<Rightarrow> bytes \<Rightarrow> bytes" where
  "copy_into dst i j src = (let k = min (j - i) (length src) in
     take i dst @ take k src @ drop (i + k) dst)"

definition string_bytes :: "string \<Rightarrow> bytes" where
  "string_bytes s = map (\<lambda>c. of_nat (of_char c)) s"

definition bytes_string :: "bytes \<Rightarrow> string" where
  "bytes_string bs = map (\<lambda>b. char_of (unat b)) bs"

definition BuildGB26875RegistrationFrame :: "16 word \<Rightarrow> bytes \<Rightarrow> civil \<Rightarrow> bytes" where
  "BuildGB26875RegistrationFrame sequence source tm =
     (let application = [0x00, 0x01, 0x01, 0x03] @ replicate 108 0;
          application' = copy_into application 18 34 (string_bytes (to_upper (hex_encode source)))
      in buildGB26875Frame sequence source platform_address 0x00 application' tm)"

definition component_object_bytes ::
  "byte \<Rightarrow> byte \<Rightarrow> byte \<Rightarrow> 16 word \<Rightarrow> 16 word \<Rightarrow> 16 word \<Rightarrow> string \<Rightarrow> civil \<Rightarrow> bytes" where
  "component_object_bytes systemType systemAddress componentType circuitAddress nodeAddress status description tm =
     [systemType, systemAddress, componentType] @ put_le16 circuitAddress @ put_le16 nodeAddress @ put_le16 status @
     (let d = take 31 (string_bytes description) in d @ replicate (31 - length d) 0) @ encodeGB26875Time tm"

definition BuildGB26875ComponentStatusFrame ::
  "16 word \<Rightarrow> bytes \<Rightarrow> byte \<Rightarrow> byte \<Rightarrow> byte \<Rightarrow> 16 word \<Rightarrow> 16 word \<Rightarrow> 16 word \<Rightarrow> string \<Rightarrow> civil \<Rightarrow> bytes" where
  "BuildGB26875ComponentStatusFrame sequence source systemType systemAddress componentType circuitAddress nodeAddress status description tm =
     buildGB26875Frame sequence source platform_address 0x02
       ([0x02, 0x01] @ component_object_bytes systemType systemAddress componentType circuitAddress nodeAddress status description tm) tm"

subsection \<open>From a frame to a standard message\<close>

definition hex2 :: "byte \<Rightarrow> string" where
  "hex2 b = ''0x'' @ to_upper (hex_encode [b])"

definition pad2 :: "nat \<Rightarrow> string" where
  "pad2 n = (if n < 10 then CHR ''0'' # nat_digits n else nat_digits n)"

definition isGB26875PlatformAddress :: "string \<Rightarrow> bool" where
  "isGB26875PlatformAddress v \<longleftrightarrow> equal_fold v ''FFFFFFFFFFFF'' \<or> equal_fold v ''000000000000''"

text \<open>The component names are Chinese text; their UTF-8 bytes are written out.\<close>

definition utf8_text :: "nat list \<Rightarrow> string" where
  "utf8_text ns = map char_of ns"

definition gb26875ComponentName :: "byte \<Rightarrow> string" where
  "gb26875ComponentName v =
     (if v = 23 then utf8_text [230, 137, 139, 229, 138, 168, 231, 129, 171, 231, 129, 190, 230, 138, 165, 232, 173, 166, 230, 140, 137, 233, 146, 174]
      else if v = 30 then utf8_text [230, 132, 159, 230, 184, 169, 231, 129, 171, 231, 129, 190, 230, 142, 162, 230, 181, 139, 229, 153, 168]
      else if v = 40 then utf8_text [230, 132, 159, 231, 131, 159, 231, 129, 171, 231, 129, 190, 230, 142, 162, 230, 181, 139, 229, 153, 168]
      else if v = 137 then utf8_text [229, 163, 176, 229, 133, 137, 230, 138, 165, 232, 173, 166, 229, 153, 168]
      else utf8_text [233, 131, 168, 228, 187, 182, 231, 177, 187, 229, 158, 139] @ nat_digits (unat v))"

text \<open>\<^verbatim>\<open>utf8.ValidString\<close> on the byte values.\<close>

definition utf8_cont :: "nat \<Rightarrow> bool" where
  "utf8_cont b \<longleftrightarrow> 128 \<le> b \<and> b \<le> 191"

fun utf8_valid :: "nat list \<Rightarrow> bool" where
  "utf8_valid [] = True"
| "utf8_valid (a # r) =
     (if a < 128 then utf8_valid r
      else case r of [] \<Rightarrow> False
      | b # r2 \<Rightarrow>
        if 194 \<le> a \<and> a \<le> 223 then utf8_cont b \<and> utf8_valid r2
        else case r2 of [] \<Rightarrow> False
        | c # r3 \<Rightarrow>
          if 224 \<le> a \<and> a \<le> 239
          then (if a = 224 then 160 \<le> b \<and> b \<le> 191 else if a = 237 then 128 \<le> b \<and> b \<le> 159 else utf8_cont b) \<and>
               utf8_cont c \<and> utf8_valid r3
          else case r3 of [] \<Rightarrow> False
          | d # r4 \<Rightarrow>
            240 \<le> a \<and> a \<le> 244 \<and>
            (if a = 240 then 144 \<le> b \<and> b \<le> 191 else if a = 244 then 128 \<le> b \<and> b \<le> 143 else utf8_cont b) \<and>
            utf8_cont c \<and> utf8_cont d \<and> utf8_valid r4)"

text \<open>\<^verbatim>\<open>descriptionBytes\<close> up to the first zero byte, as text; bytes that are no UTF-8 in hexadecimal.\<close>

definition component_description :: "bytes \<Rightarrow> string" where
  "component_description v9_40 =
     (let db = takeWhile (\<lambda>b. b \<noteq> 0) v9_40; description = trim_space (bytes_string db) in
      if utf8_valid (map of_char description) then description else to_upper (hex_encode db))"

definition status_word :: "bytes \<Rightarrow> 16 word" where
  "status_word v = le16 (slice v 7 9)"

definition status_alarm :: "16 word \<Rightarrow> bool" where
  "status_alarm status \<longleftrightarrow> bit status 1"

definition status_fault :: "16 word \<Rightarrow> bool" where
  "status_fault status \<longleftrightarrow> bit status 2 \<or> bit status 8 \<or> bit status 9 \<or> bit status 10 \<or> bit status 11 \<or>
     bit status 12 \<or> bit status 14 \<or> bit status 15"

definition component_object :: "int \<Rightarrow> bytes \<Rightarrow> gval gomap" where
  "component_object loc v =
     (let status = status_word v in
      [(''systemType'', VInt KInt (uint (v ! 0))), (''systemAddress'', VInt KInt (uint (v ! 1))),
       (''componentType'', VInt KInt (uint (v ! 2))), (''componentTypeName'', VStr (gb26875ComponentName (v ! 2))),
       (''circuitAddress'', VInt KInt (uint (le16 (slice v 3 5)))),
       (''nodeAddress'', VInt KInt (uint (le16 (slice v 5 7)))), (''statusWord'', VInt KInt (uint status)),
       (''description'', VStr (component_description (slice v 9 40))),
       (''occurredAt'', VInt KInt64 (decodeGB26875Time loc (slice v 40 46))),
       (''test'', VBool (bit status 0)), (''fireAlarm'', VBool (bit status 1)), (''fault'', VBool (bit status 2)),
       (''shielded'', VBool (bit status 3)), (''supervision'', VBool (bit status 4)), (''started'', VBool (bit status 5)),
       (''feedback'', VBool (bit status 6)), (''delayed'', VBool (bit status 7)), (''powerFault'', VBool (bit status 8)),
       (''offline'', VBool (bit status 9)), (''openCircuit'', VBool (bit status 10)), (''shortCircuit'', VBool (bit status 11)),
       (''removed'', VBool (bit status 12)), (''sensorFault'', VBool (bit status 14)), (''upgradeFault'', VBool (bit status 15))])"

definition component_chunks :: "bytes \<Rightarrow> nat \<Rightarrow> bytes list" where
  "component_chunks data count = map (\<lambda>i. slice data (i * 46) ((i + 1) * 46)) [0..<count]"

definition field_of :: "gval gomap \<Rightarrow> string \<Rightarrow> string \<times> gval" where
  "field_of obj k = (k, case gm_get obj k of None \<Rightarrow> VNil | Some v \<Rightarrow> v)"

definition applyGB26875ComponentStatus :: "int \<Rightarrow> StandardMessage \<Rightarrow> bytes \<Rightarrow> nat \<Rightarrow> gb_error + StandardMessage" where
  "applyGB26875ComponentStatus loc msg data count =
     (if count < 1 \<or> length data \<noteq> count * 46 then Inl (GbBadComponents count (length data))
      else let chunks = component_chunks data count;
               objects = map (component_object loc) chunks;
               anyAlarm = list_ex (\<lambda>v. status_alarm (status_word v)) chunks;
               anyFault = list_ex (\<lambda>v. status_fault (status_word v)) chunks;
               first = objects ! 0;
               objs = VList (map VMap objects)
           in Inr (msg\<lparr>
             sm_Properties := [(''fireAlarm'', VBool anyAlarm), (''fault'', VBool anyFault)] @
               map (field_of first) [''componentType'', ''componentTypeName'', ''circuitAddress'', ''nodeAddress'',
                 ''statusWord'', ''started'', ''feedback'', ''shielded'', ''supervision'', ''offline'', ''powerFault'',
                 ''openCircuit'', ''shortCircuit'', ''removed'', ''sensorFault''] @ [(''objects'', objs)],
             sm_Event := [(''type'', VStr ''COMPONENT_STATUS''), (''alarm'', VBool anyAlarm), (''fault'', VBool anyFault),
               (''objects'', objs)],
             sm_MessageType := (if anyAlarm \<or> anyFault then AlarmReport else StateChange)\<rparr>))"

definition applyGB26875Data :: "int \<Rightarrow> StandardMessage \<Rightarrow> gb26875Frame \<Rightarrow> gb_error + StandardMessage" where
  "applyGB26875Data loc msg frame =
     (let data = gf_Data frame; cmd = gf_Command frame in
      if cmd = 0x07 \<and> length data = 0 then Inr (msg\<lparr>sm_Event := [(''type'', VStr ''KEEPALIVE'')]\<rparr>)
      else if cmd = 0x03 \<and> length data = 0
      then Inr (msg\<lparr>sm_MessageType := CommandReply, sm_Event := [(''type'', VStr ''ACK'')]\<rparr>)
      else if length data < 2 then Inl (GbNoHeader cmd)
      else let typeFlag = data ! 0; count = unat (data ! 1);
               msg = msg\<lparr>sm_Raw := gm_put ''objectCount'' (VInt KInt (int count))
                              (gm_put ''typeFlag'' (VStr (hex2 typeFlag)) (sm_Raw msg))\<rparr>
           in
        if cmd = 0x00 \<and> typeFlag = 0x00 then
          (if count \<noteq> 1 \<or> length data \<noteq> 112 then Inl GbBadRegistration
           else Inr (msg\<lparr>sm_MessageType := StateChange,
             sm_Event := [(''type'', VStr ''REGISTER''), (''objectCount'', VInt KInt (int count))],
             sm_Properties := [(''registered'', VBool True),
               (''registrationObjectLength'', VInt KInt (int (length (drop 2 data)))),
               (''registrationPayload'', VStr (to_upper (hex_encode (drop 2 data))))]\<rparr>))
        else if cmd = 0x01 \<and> typeFlag = 0x5A then
          (if count \<noteq> 1 \<or> length data \<noteq> 8 then Inl GbBadTimeSync
           else let t = decodeGB26875Time loc (drop 2 data);
                    msg = (if isGB26875PlatformAddress (gf_Source frame)
                      then msg\<lparr>sm_MessageType := CommandReply,
                             sm_Event := [(''type'', VStr ''TIME_SYNC''), (''synchronizedAt'', VInt KInt64 t)]\<rparr>
                      else msg\<lparr>sm_MessageType := EventReport,
                             sm_Event := [(''type'', VStr ''TIME_SYNC_REQUEST''), (''requestedAt'', VInt KInt64 t)]\<rparr>)
                in Inr (msg\<lparr>sm_Properties := [(''requestedAt'', VInt KInt64 t)]\<rparr>))
        else if cmd = 0x02 \<and> typeFlag = 0x02 then applyGB26875ComponentStatus loc msg (drop 2 data) count
        else Inl (GbUnsupported cmd typeFlag))"

definition is_dquote :: "char \<Rightarrow> bool" where
  "is_dquote c \<longleftrightarrow> (of_char c :: nat) = 34"

definition hex_separators :: "char list" where
  "hex_separators = map char_of [32, 13, 10, 9 :: nat]"

text \<open>The hexadecimal text of a payload: surrounding quotes and white space dropped.\<close>

definition gb_payload_text :: "string \<Rightarrow> string" where
  "gb_payload_text payload = remove_chars hex_separators (trim_space (trim_by is_dquote payload))"

definition gb_base_message :: "RawMessage \<Rightarrow> string \<Rightarrow> gb26875Frame \<Rightarrow> StandardMessage" where
  "gb_base_message raw text frame =
     \<lparr>sm_MessageID = ''msg_'' @ trim_prefix (rm_MessageID raw) ''raw_'', sm_RawMessageID = rm_MessageID raw,
      sm_TenantID = rm_TenantID raw, sm_ProductID = rm_ProductID raw, sm_DeviceID = rm_DeviceID raw,
      sm_MessageType = PropertyReport,
      sm_Timestamp = (if gf_FrameTime frame > 0 then gf_FrameTime frame else rm_ReceivedAt raw),
      sm_Properties = [], sm_Event = [],
      sm_Tags = [(''protocol'', ''GB/T 26875.3-2011''), (''terminalVendor'', ''Dahua'')],
      sm_Raw = [(''payloadFormat'', VStr ''hex''), (''payload'', VStr (to_upper text)),
        (''sequence'', VInt KUint16 (uint (gf_Sequence frame))),
        (''protocolVersion'', VStr (nat_digits (unat (gf_VersionMajor frame)) @ ''.'' @ pad2 (unat (gf_VersionMinor frame)))),
        (''sourceAddress'', VStr (gf_Source frame)), (''destinationAddress'', VStr (gf_Destination frame)),
        (''command'', VStr (hex2 (gf_Command frame)))],
      sm_Parser = [], sm_ParserVersion = []\<rparr>"

definition Parse_GB26875 :: "int \<Rightarrow> RawMessage \<Rightarrow> gb_error + StandardMessage" where
  "Parse_GB26875 loc raw =
     (let text = gb_payload_text (rm_Payload raw) in
      case hex_decode text of
        None \<Rightarrow> Inl GbInvalidHex
      | Some data \<Rightarrow>
        (case decodeGB26875Frame loc data of
           Inl e \<Rightarrow> Inl e
         | Inr frame \<Rightarrow> applyGB26875Data loc (gb_base_message raw text frame) frame))"

subsection \<open>Times\<close>

lemma bcd_table: "list_all (\<lambda>v. decodeBCD (encodeBCD v) = v) [0..99]"
  by code_simp

lemma decodeBCD_encodeBCD [simp]: "0 \<le> v \<Longrightarrow> v \<le> 99 \<Longrightarrow> decodeBCD (encodeBCD v) = v"
  using bcd_table by (simp add: list_all_iff)

lemma decodeBCD_nonneg [simp]: "0 \<le> decodeBCD b"
  by (simp add: decodeBCD_def)

text \<open>The year test of \<^verbatim>\<open>decodeGB26875Time\<close> never decides: within the other bounds no date leaves its year.\<close>

lemma decodeGB26875Time_eq:
  assumes "length data = 6"
  defines "v \<equiv> map decodeBCD data"
  shows "decodeGB26875Time loc data =
    (if 1 \<le> v ! 4 \<and> v ! 4 \<le> 12 \<and> 1 \<le> v ! 3 \<and> v ! 3 \<le> 31 \<and> v ! 2 \<le> 23 \<and> v ! 1 \<le> 59 \<and> v ! 0 \<le> 59
     then UnixMilli loc (time_Date (2000 + v ! 5) (v ! 4) (v ! 3) (v ! 2) (v ! 1) (v ! 0)) else 0)"
proof -
  have nn: "0 \<le> v ! i" if "i < 6" for i using that assms by simp
  show ?thesis
    using assms(1) nn [of 0] nn [of 1] nn [of 2]
    by (auto simp: decodeGB26875Time_def Let_def v_def time_Year_Date)
qed

lemma month_days_le_31: "month_days y m \<le> 31"
  by (simp add: month_days_def)

lemma decode_encode_time:
  assumes "civil_ok c" "2000 \<le> Year c" "Year c \<le> 2099"
  shows "decodeGB26875Time loc (encodeGB26875Time c) = UnixMilli loc (civil_instant c)"
proof -
  have "Day c \<le> 31" using assms(1) month_days_le_31 [of "Year c" "Month c"] by (simp add: civil_ok_def)
  moreover have "2000 + Year c mod 100 = Year c"
  proof -
    have "(Year c - 2000) mod 100 = Year c - 2000" using assms(2,3) by simp
    moreover have "Year c mod 100 = (Year c - 2000) mod 100" using mod_mult_self2 [of "Year c - 2000" 100 20] by simp
    ultimately show ?thesis by simp
  qed
  moreover have "0 \<le> Year c mod 100" "Year c mod 100 \<le> 99" by simp_all
  ultimately show ?thesis
    using assms(1) by (subst decodeGB26875Time_eq) (auto simp: encodeGB26875Time_def civil_ok_def civil_instant_def)
qed

subsection \<open>Frame round trip\<close>

lemma length_encode_time [simp]: "length (encodeGB26875Time c) = 6"
  by (simp add: encodeGB26875Time_def)

lemma length_six: "length xs = 6 \<Longrightarrow> \<exists>a b c d e f. xs = [a, b, c, d, e, f]"
  by (auto simp: length_Suc_conv numeral_eq_Suc)

lemma length_gb_body [simp]:
  "length source = 6 \<Longrightarrow> length destination = 6 \<Longrightarrow>
   length (gb_body sequence source destination command application c) = 25 + length application"
  by (simp add: gb_body_def)

lemma decode_of_parts:
  assumes "length body = 25 + n" "n \<le> 512" "unat (le16 (slice body 22 24)) = n"
  shows "decodeGB26875Frame loc ([at_sign, at_sign] @ body @ [gb_sum body] @ [hash_sign, hash_sign]) =
    Inr \<lparr>gf_Sequence = le16 (slice body 0 2), gf_VersionMajor = body ! 2, gf_VersionMinor = body ! 3,
         gf_Source = to_upper (hex_encode (slice body 10 16)),
         gf_Destination = to_upper (hex_encode (slice body 16 22)),
         gf_Command = body ! 24, gf_Data = slice body 25 (25 + n),
         gf_FrameTime = decodeGB26875Time loc (slice body 4 10)\<rparr>"
proof -
  let ?f = "[at_sign, at_sign] @ body @ [gb_sum body] @ [hash_sign, hash_sign]"
  have sl: "slice ?f (Suc (Suc i)) (Suc (Suc j)) = slice body i j" if "i \<le> j" "j \<le> 25 + n" for i j
    using that assms(1) by (simp add: slice_def)
  have nt: "?f ! Suc (Suc i) = body ! i" if "i < 25 + n" for i
    using that assms(1) by (simp add: nth_append)
  have sums: "slice ?f 2 (27 + n) = body" using sl [of 0 "25 + n"] assms(1)
    by (simp add: slice_def numeral_2_eq_2)
  have len: "slice ?f 24 26 = slice body 22 24" using sl [of 22 24] by (simp add: numeral_eq_Suc)
  have chk: "?f ! (27 + n) = gb_sum body" using assms(1) by (simp add: nth_append)
  have parts: "slice ?f 2 4 = slice body 0 2" "slice ?f 6 12 = slice body 4 10" "slice ?f 12 18 = slice body 10 16"
    "slice ?f 18 24 = slice body 16 22" "slice ?f 27 (27 + n) = slice body 25 (25 + n)"
    using sl [of 0 2] sl [of 4 10] sl [of 10 16] sl [of 16 22] sl [of 25 "25 + n"] by (simp_all add: numeral_eq_Suc)
  have bytes: "?f ! 4 = body ! 2" "?f ! 5 = body ! 3" "?f ! 26 = body ! 24"
    using nt [of 2] nt [of 3] nt [of 24] by (simp_all add: numeral_eq_Suc)
  have ends: "length ?f = 30 + n" "?f ! 0 = at_sign" "?f ! 1 = at_sign" "?f ! (28 + n) = hash_sign" "?f ! (29 + n) = hash_sign"
    using assms(1) by (simp_all add: nth_append)
  show ?thesis
    unfolding decodeGB26875Frame_def Let_def len assms(3) ends(1)
    using assms(2) ends chk sums parts bytes
    by (simp add: gb26875ControlLength_def gb26875MaxDataLength_def)
qed

lemma gb_body_parts:
  fixes sequence command application c
  assumes "length source = 6" "length destination = 6"
  defines "b \<equiv> gb_body sequence source destination command application c"
  shows "slice b 0 2 = put_le16 sequence" "b ! 2 = 1" "b ! 3 = 3" "slice b 4 10 = encodeGB26875Time c"
    "slice b 10 16 = source" "slice b 16 22 = destination"
    "slice b 22 24 = put_le16 (of_nat (length application))" "b ! 24 = command"
    "slice b 25 (25 + length application) = application"
proof -
  obtain s0 s1 s2 s3 s4 s5 where s: "source = [s0, s1, s2, s3, s4, s5]" using assms(1) length_six by blast
  obtain d0 d1 d2 d3 d4 d5 where d: "destination = [d0, d1, d2, d3, d4, d5]" using assms(2) length_six by blast
  show "slice b 0 2 = put_le16 sequence" "b ! 2 = 1" "b ! 3 = 3" "slice b 4 10 = encodeGB26875Time c"
    "slice b 10 16 = source" "slice b 16 22 = destination"
    "slice b 22 24 = put_le16 (of_nat (length application))" "b ! 24 = command"
    "slice b 25 (25 + length application) = application"
    by (simp_all add: b_def gb_body_def put_le16_def encodeGB26875Time_def s d slice_def)
qed

lemma decode_build_frame:
  assumes "length source = 6" "length destination = 6" "length application \<le> 512"
    and "civil_ok c" "2000 \<le> Year c" "Year c \<le> 2099"
  shows "decodeGB26875Frame loc (buildGB26875Frame sequence source destination command application c) =
    Inr \<lparr>gf_Sequence = sequence, gf_VersionMajor = 1, gf_VersionMinor = 3,
         gf_Source = to_upper (hex_encode source), gf_Destination = to_upper (hex_encode destination),
         gf_Command = command, gf_Data = application, gf_FrameTime = UnixMilli loc (civil_instant c)\<rparr>"
proof -
  let ?b = "gb_body sequence source destination command application c"
  have "length application < 2 ^ 16" using assms(3) by simp
  then have "unat (of_nat (length application) :: 16 word) = length application"
    by (simp add: unat_of_nat)
  then have len: "unat (le16 (slice ?b 22 24)) = length application"
    using gb_body_parts(7) [OF assms(1,2)] by simp
  have "length ?b = 25 + length application" using assms(1,2) by simp
  from decode_of_parts [OF this assms(3) len] show ?thesis
    by (simp add: buildGB26875Frame_def Let_def gb_body_parts [OF assms(1,2)] decode_encode_time [OF assms(4-6)])
qed

subsection \<open>Error detection\<close>

interpretation gb: byte_checksum "0 :: byte" "(+)"
  by unfold_locales simp_all

definition gb_accepts :: "bytes \<Rightarrow> nat \<Rightarrow> bool" where
  "gb_accepts f L \<longleftrightarrow> length f = 30 + L \<and> L \<le> 512 \<and> f ! 0 = at_sign \<and> f ! 1 = at_sign \<and>
     f ! (28 + L) = hash_sign \<and> f ! (29 + L) = hash_sign \<and> f ! (27 + L) = gb_sum (slice f 2 (27 + L))"

lemma decode_accepts:
  assumes "decodeGB26875Frame loc f = Inr fr"
  obtains L where "gb_accepts f L" "unat (le16 (slice f 24 26)) = L"
proof -
  define L where "L = unat (le16 (slice f 24 26))"
  have len: "length f = 30 + L" and rest: "L \<le> 512" "f ! 0 = at_sign" "f ! 1 = at_sign"
      "f ! (length f - 2) = hash_sign" "f ! (length f - 1) = hash_sign" "f ! (27 + L) = gb_sum (slice f 2 (27 + L))"
    using assms unfolding decodeGB26875Frame_def Let_def L_def [symmetric] gb26875ControlLength_def gb26875MaxDataLength_def
    by (simp_all split: if_splits)
  have "gb_accepts f L" using len rest by (simp add: gb_accepts_def)
  then show thesis using that L_def by blast
qed

lemma gb_accepts_one_byte:
  assumes f: "gb_accepts f L" and i: "i < length f" and c: "c \<noteq> f ! i"
  shows "\<not> gb_accepts (f[i := c]) L"
proof
  let ?g = "f[i := c]"
  assume g: "gb_accepts ?g L"
  have fg: "f ! j = ?g ! j" if "j \<noteq> i" for j using that by simp
  have gi: "?g ! i = c" using i by simp
  consider "i < 2" | "2 \<le> i \<and> i < 27 + L" | "i = 27 + L" | "28 + L \<le> i" by linarith
  then show False
  proof cases
    case 1
    then have "i = 0 \<or> i = 1" by auto
    with f g gi c show ?thesis by (auto simp: gb_accepts_def)
  next
    case 2
    then have "slice ?g 2 (27 + L) = (slice f 2 (27 + L))[i - 2 := c]" by (simp add: slice_update_in)
    moreover have "?g ! (27 + L) = f ! (27 + L)" using 2 by simp
    ultimately have "gb_sum ((slice f 2 (27 + L))[i - 2 := c]) = gb_sum (slice f 2 (27 + L))"
      using f g by (simp add: gb_accepts_def)
    moreover have "i - 2 < length (slice f 2 (27 + L))" using 2 f by (simp add: gb_accepts_def) linarith
    moreover have "slice f 2 (27 + L) ! (i - 2) = f ! i"
      using 2 f nth_slice [of "i - 2" "27 + L" 2 f]
      by (simp add: gb_accepts_def numeral_2_eq_2 Suc_diff_Suc less_diff_conv2)
    ultimately show ?thesis using gb.check_one_byte [of "i - 2" "slice f 2 (27 + L)" c] c
      by (simp add: gb_sum_def)
  next
    case 3
    then have "slice ?g 2 (27 + L) = slice f 2 (27 + L)" by (simp add: slice_update_out)
    with 3 f g gi c show ?thesis by (simp add: gb_accepts_def)
  next
    case 4
    with i f have "i = 28 + L \<or> i = 29 + L" by (auto simp: gb_accepts_def)
    with f g gi c show ?thesis by (auto simp: gb_accepts_def)
  qed
qed

lemma decode_one_byte:
  assumes "decodeGB26875Frame loc f = Inr fr" "i < length f" "c \<noteq> f ! i"
  shows "\<exists>e. decodeGB26875Frame loc (f[i := c]) = Inl e"
proof (cases "decodeGB26875Frame loc (f[i := c])")
  case (Inr fr')
  obtain L where f: "gb_accepts f L" using assms(1) by (rule decode_accepts)
  obtain L' where g: "gb_accepts (f[i := c]) L'" using Inr by (rule decode_accepts)
  have "L = L'" using f g by (simp add: gb_accepts_def)
  with gb_accepts_one_byte [OF f assms(2,3)] g show ?thesis by simp
qed simp

subsection \<open>What a component report means\<close>

lemma component_status_type:
  assumes "applyGB26875ComponentStatus loc msg data count = Inr m"
  shows "sm_MessageType m = (if \<exists>i < count. status_alarm (le16 (slice data (i * 46 + 7) (i * 46 + 9))) \<or>
      status_fault (le16 (slice data (i * 46 + 7) (i * 46 + 9))) then AlarmReport else StateChange)"
proof -
  have ok: "\<not> (count < 1 \<or> length data \<noteq> count * 46)"
    using assms unfolding applyGB26875ComponentStatus_def by (metis Inl_Inr_False)
  have w: "status_word (slice data (i * 46) ((i + 1) * 46)) = le16 (slice data (i * 46 + 7) (i * 46 + 9))" for i
    by (simp add: status_word_def slice_def drop_take add.commute)
  have m: "sm_MessageType m = (if list_ex (\<lambda>v. status_alarm (status_word v)) (component_chunks data count) \<or>
      list_ex (\<lambda>v. status_fault (status_word v)) (component_chunks data count) then AlarmReport else StateChange)"
    using assms ok by (auto simp: applyGB26875ComponentStatus_def Let_def)
  have "list_ex (\<lambda>v. P (status_word v)) (component_chunks data count) \<longleftrightarrow>
      (\<exists>i < count. P (le16 (slice data (i * 46 + 7) (i * 46 + 9))))" for P
    unfolding component_chunks_def list_ex_iff set_map bex_simps(7) w by auto
  then show ?thesis unfolding m by auto
qed

subsection \<open>A component report through the whole parser\<close>

lemma hex_digit_plain:
  assumes "n < 16"
  shows "\<not> is_dquote (hex_digit n)" "\<not> is_space (hex_digit n)" "hex_digit n \<notin> set hex_separators"
proof -
  have v: "(of_char (hex_digit n) :: nat) = (if n < 10 then 48 + n else 87 + n)" using assms by (rule of_char_hex_digit)
  show "\<not> is_dquote (hex_digit n)" "\<not> is_space (hex_digit n)"
    using v by (auto simp: is_dquote_def is_space_def Let_def split: if_splits)
  have "(of_char c :: nat) \<in> {32, 13, 10, 9}" if "c \<in> set hex_separators" for c
    using that by (auto simp: hex_separators_def)
  then show "hex_digit n \<notin> set hex_separators" using v by (fastforce split: if_splits)
qed

lemma dropWhile_none: "\<forall>c \<in> set s. \<not> p c \<Longrightarrow> dropWhile p s = s"
  by (cases s) auto

lemma trim_by_none: "\<forall>c \<in> set s. \<not> p c \<Longrightarrow> trim_by p s = s"
  by (simp add: trim_by_def trim_left_def trim_right_def dropWhile_none)

lemma trim_by_wrapped:
  assumes "p q" "\<forall>c \<in> set s. \<not> p c"
  shows "trim_by p (q # s @ [q]) = s"
proof (cases "s = []")
  case True
  with assms(1) show ?thesis by (simp add: trim_by_def trim_left_def trim_right_def)
next
  case False
  then have "dropWhile p (s @ [q]) = s @ [q]" using assms(2) by (cases s) auto
  then show ?thesis using assms by (simp add: trim_by_def trim_left_def trim_right_def dropWhile_none)
qed

lemma gb_payload_text_hex: "gb_payload_text (char_of (34 :: nat) # hex_encode bs @ [char_of (34 :: nat)]) = hex_encode bs"
proof -
  have q: "is_dquote (char_of (34 :: nat))" by (simp add: is_dquote_def)
  have plain: "\<not> is_dquote c \<and> \<not> is_space c \<and> c \<notin> set hex_separators" if "c \<in> set (hex_encode bs)" for c
    using hex_encode_chars [OF that] hex_digit_plain by auto
  have "trim_by is_dquote (char_of (34 :: nat) # hex_encode bs @ [char_of (34 :: nat)]) = hex_encode bs"
    using q plain by (intro trim_by_wrapped) auto
  moreover have "trim_space (hex_encode bs) = hex_encode bs"
    unfolding trim_space_def using plain by (intro trim_by_none) auto
  moreover have "remove_chars hex_separators (hex_encode bs) = hex_encode bs"
    unfolding remove_chars_def using plain by (auto simp: filter_id_conv)
  ultimately show ?thesis by (simp add: gb_payload_text_def)
qed

lemma length_component_object [simp]:
  "length (component_object_bytes st sa ct ca na status description c) = 46"
  by (simp add: component_object_bytes_def Let_def)

lemma component_object_word:
  "slice (component_object_bytes st sa ct ca na status description c) 7 9 = put_le16 status"
  "slice (component_object_bytes st sa ct ca na status description c) 3 5 = put_le16 ca"
  "slice (component_object_bytes st sa ct ca na status description c) 5 7 = put_le16 na"
  "component_object_bytes st sa ct ca na status description c ! 2 = ct"
  by (simp_all add: component_object_bytes_def put_le16_def slice_def)

lemma apply_component_frame:
  assumes "gf_Command frame = 2" "gf_Data frame = [2, 1] @ obj" "length obj = 46"
  shows "applyGB26875Data loc msg frame =
    applyGB26875ComponentStatus loc (msg\<lparr>sm_Raw := gm_put ''objectCount'' (VInt KInt 1)
      (gm_put ''typeFlag'' (VStr (hex2 2)) (sm_Raw msg))\<rparr>) obj 1"
  using assms by (simp add: applyGB26875Data_def Let_def)

lemma apply_one_component:
  assumes "length obj = 46"
  shows "\<exists>m. applyGB26875ComponentStatus loc msg obj 1 = Inr m \<and>
    sm_MessageType m = (if status_alarm (status_word obj) \<or> status_fault (status_word obj) then AlarmReport else StateChange) \<and>
    sm_DeviceID m = sm_DeviceID msg \<and> sm_Timestamp m = sm_Timestamp msg \<and>
    gm_get (sm_Properties m) ''circuitAddress'' = Some (VInt KInt (uint (le16 (slice obj 3 5)))) \<and>
    gm_get (sm_Properties m) ''nodeAddress'' = Some (VInt KInt (uint (le16 (slice obj 5 7)))) \<and>
    gm_get (sm_Properties m) ''componentType'' = Some (VInt KInt (uint (obj ! 2))) \<and>
    gm_get (sm_Properties m) ''statusWord'' = Some (VInt KInt (uint (status_word obj)))"
proof -
  have "component_chunks obj 1 = [obj]" using assms by (simp add: component_chunks_def slice_def)
  then show ?thesis
    using assms by (simp add: applyGB26875ComponentStatus_def Let_def gm_get_def field_of_def component_object_def)
qed

lemma parse_component_frame:
  assumes len: "length source = 6" and tm: "civil_ok c" "2000 \<le> Year c" "Year c \<le> 2099"
    and payload: "rm_Payload raw = char_of (34 :: nat) # hex_encode (BuildGB26875ComponentStatusFrame
      sequence source st sa ct ca na status description c) @ [char_of (34 :: nat)]"
  shows "\<exists>m. Parse_GB26875 loc raw = Inr m \<and>
    sm_MessageType m = (if status_alarm status \<or> status_fault status then AlarmReport else StateChange) \<and>
    sm_DeviceID m = rm_DeviceID raw \<and>
    sm_Timestamp m = (if UnixMilli loc (civil_instant c) > 0 then UnixMilli loc (civil_instant c) else rm_ReceivedAt raw) \<and>
    gm_get (sm_Properties m) ''circuitAddress'' = Some (VInt KInt (uint ca)) \<and>
    gm_get (sm_Properties m) ''nodeAddress'' = Some (VInt KInt (uint na)) \<and>
    gm_get (sm_Properties m) ''componentType'' = Some (VInt KInt (uint ct)) \<and>
    gm_get (sm_Properties m) ''statusWord'' = Some (VInt KInt (uint status))"
proof -
  let ?frame = "BuildGB26875ComponentStatusFrame sequence source st sa ct ca na status description c"
  let ?obj = "component_object_bytes st sa ct ca na status description c"
  let ?text = "gb_payload_text (rm_Payload raw)"
  define fr where "fr = \<lparr>gf_Sequence = sequence, gf_VersionMajor = 1, gf_VersionMinor = 3,
         gf_Source = to_upper (hex_encode source), gf_Destination = to_upper (hex_encode platform_address),
         gf_Command = 2, gf_Data = [2, 1] @ ?obj, gf_FrameTime = UnixMilli loc (civil_instant c)\<rparr>"
  have dec: "decodeGB26875Frame loc ?frame = Inr fr"
    unfolding BuildGB26875ComponentStatusFrame_def fr_def using len tm
    by (intro decode_build_frame) (simp_all add: platform_address_def)
  have hx: "hex_decode ?text = Some ?frame" unfolding payload gb_payload_text_hex by simp
  have "Parse_GB26875 loc raw = applyGB26875Data loc (gb_base_message raw ?text fr) fr"
    unfolding Parse_GB26875_def Let_def hx by (simp add: dec)
  also have "\<dots> = applyGB26875ComponentStatus loc ((gb_base_message raw ?text fr)\<lparr>sm_Raw :=
      gm_put ''objectCount'' (VInt KInt 1) (gm_put ''typeFlag'' (VStr (hex2 2)) (sm_Raw (gb_base_message raw ?text fr)))\<rparr>) ?obj 1"
    by (rule apply_component_frame) (simp_all add: fr_def)
  finally have parse: "Parse_GB26875 loc raw = \<dots>" .
  have word: "status_word ?obj = status" by (simp add: status_word_def component_object_word)
  have base: "sm_DeviceID (gb_base_message raw ?text fr) = rm_DeviceID raw"
    "sm_Timestamp (gb_base_message raw ?text fr) =
      (if UnixMilli loc (civil_instant c) > 0 then UnixMilli loc (civil_instant c) else rm_ReceivedAt raw)"
    by (simp_all add: gb_base_message_def fr_def)
  show ?thesis
    unfolding parse
    using apply_one_component [of ?obj loc "(gb_base_message raw ?text fr)\<lparr>sm_Raw :=
      gm_put ''objectCount'' (VInt KInt 1) (gm_put ''typeFlag'' (VStr (hex2 2)) (sm_Raw (gb_base_message raw ?text fr)))\<rparr>",
      OF length_component_object]
    by (simp add: word component_object_word base split del: if_split)
qed

end
