(* ===== verification/Memory_Repo.thy ===== *)
theory Memory_Repo
  imports Model_Types Go_SHA256 "HOL-Library.List_Lexorder" "HOL-Library.Char_ord" "HOL-Library.Product_Lexorder"
begin

text \<open>
  The in-memory repository of \<^verbatim>\<open>internal/adapters/memory\<close>: the record \<open>repo\<close> holds the maps of
  \<^verbatim>\<open>Repository\<close> that the engine uses, and every operation is one function on it. An operation runs under
  \<^verbatim>\<open>r.mu\<close>, so it is atomic; \<^verbatim>\<open>clone\<close> and \<^verbatim>\<open>cloneAlarm\<close> copy values and are the
  identity here. A map is an association list whose order stands for Go's iteration order. Operations that
  read \<^verbatim>\<open>time.Now()\<close> take the time, in milliseconds, as an argument.
\<close>

subsection \<open>Errors\<close>

datatype err =
    ErrNotFound
  | ErrInvalidIngress
  | ErrStaleClaim
  | ErrConcurrentUpdate
  | ErrRawConflict
  | ErrBackpressure
  | ErrDispositionRequired
  | ErrAlarmClosed
  | ErrTooManyAttachments
  | ErrAttachmentNotFound
  | ErrPermanent string
  | ErrTransient
  | ErrPublish
  | ErrText string

subsection \<open>State\<close>

record memoryClaim =
  mc_owner :: string
  mc_token :: int
  mc_expires :: int

definition zero_memoryClaim :: memoryClaim where
  "zero_memoryClaim = \<lparr>mc_owner = [], mc_token = 0, mc_expires = 0\<rparr>"

record rawReservation =
  rr_Metadata :: RawMessage
  rr_Hash :: string

record ObjectRef =
  or_Bucket :: string
  or_Key :: string

record VideoCameraMapping =
  vm_TenantID :: string
  vm_CameraID :: string
  vm_CameraName :: string
  vm_Brand :: string
  vm_CameraPoint :: string
  vm_DeviceID :: string
  vm_IngestMode :: string
  vm_ProjectID :: string
  vm_CityCode :: string
  vm_DistrictCode :: string
  vm_Building :: string
  vm_Floor :: string
  vm_Room :: string
  vm_AreaID :: string
  vm_RelatedDeviceIDs :: "string list"
  vm_RelatedFloorIDs :: "string list"
  vm_RelatedRoomIDs :: "string list"
  vm_VideoPlatformID :: string
  vm_StreamURL :: string
  vm_StreamType :: string
  vm_SDKEndpoint :: string
  vm_SDKCameraID :: string
  vm_SDKCredentialRef :: string
  vm_StreamConfigured :: bool
  vm_PreviewEligible :: bool
  vm_Enabled :: bool
  vm_UpdatedAt :: int

record VideoCameraRelation =
  vr_TenantID :: string
  vr_CameraID :: string
  vr_RelationType :: string
  vr_TargetID :: string

record VideoAlarmEvent =
  ve_EventID :: string
  ve_Source :: string
  ve_TenantID :: string
  ve_ProjectID :: string
  ve_CameraID :: string
  ve_CameraName :: string
  ve_AreaID :: string
  ve_AlarmType :: string
  ve_AlarmName :: string
  ve_AlarmLevel :: string
  ve_Confidence :: f64
  ve_EventTime :: int
  ve_ReceivedAt :: int
  ve_SnapshotURL :: string
  ve_VideoClipURL :: string
  ve_CityCode :: string
  ve_DistrictCode :: string
  ve_BuildingID :: string
  ve_Location :: "gval gomap"
  ve_Raw :: "gval gomap"

text \<open>The fields of an AI analysis that the verification of an alarm reads.\<close>

record AIAnalysis =
  ai_TenantID :: string
  ai_AlarmID :: string
  ai_RiskLevel :: string
  ai_PromptVersion :: string
  ai_CreatedAt :: int
  ai_Error :: string
  ai_KnowledgeScope :: string

text \<open>\<^verbatim>\<open>externaldata.Result\<close>, the body of a delivery entry of the external-data store, and the entry itself.\<close>

record Result =
  rs_DeviceID :: string
  rs_CameraID :: string
  rs_MessageID :: string
  rs_AlarmID :: string
  rs_AlarmIDs :: "string list"

record delivery_entry =
  dl_SourceID :: string
  dl_Status :: string
  dl_Revision :: int
  dl_CreatedAt :: int
  dl_UpdatedAt :: int
  dl_Body :: Result

record ProtocolPackage =
  pp_ID :: string
  pp_TenantID :: string
  pp_Name :: string
  pp_Version :: string
  pp_Protocol :: string
  pp_Transport :: string
  pp_PayloadFormat :: string
  pp_ParserType :: string
  pp_Status :: string
  pp_Description :: string
  pp_Config :: "gval gomap"
  pp_CreatedAt :: int
  pp_UpdatedAt :: int

record ProtocolRelease =
  pl_TenantID :: string
  pl_ProtocolID :: string
  pl_Version :: string
  pl_Transport :: string
  pl_PayloadFormat :: string
  pl_ParserType :: string
  pl_Status :: string
  pl_PointTableVersion :: string
  pl_Capabilities :: "string list"
  pl_Config :: "gval gomap"
  pl_Artifact :: "gval gomap"
  pl_CreatedAt :: int
  pl_PublishedAt :: int

record ProductProtocolBinding =
  pb_TenantID :: string
  pb_ProductID :: string
  pb_ProtocolID :: string
  pb_Version :: string
  pb_PreviousVersion :: string
  pb_PreviousProtocolID :: string
  pb_UpdatedAt :: int

record DeviceCommand =
  dc_Confirmed :: bool
  dc_ID :: string
  dc_TenantID :: string
  dc_ProductID :: string
  dc_DeviceID :: string
  dc_Type :: string
  dc_Data :: "gval gomap"
  dc_Status :: string
  dc_LastError :: string
  dc_Reply :: "gval gomap"
  dc_CreatedAt :: int
  dc_UpdatedAt :: int

record repo =
  rp_objectCleanups :: "ObjectRef list"
  rp_componentAlarms :: "ComponentAlarmState gomap"
  rp_outbox :: "OutboxEvent list"
  rp_outboxSeq :: int
  rp_rawReservations :: "rawReservation gomap"
  rp_leases :: "ExecutionLease gomap"
  rp_raw :: "RawArchiveIndex gomap"
  rp_standard :: "StandardMessage gomap"
  rp_standardProcessed :: "bool gomap"
  rp_claims :: "memoryClaim gomap"
  rp_rulePending :: "int gomap"
  rp_states :: "DeviceState gomap"
  rp_stateEvents :: "DeviceStateEvent list"
  rp_rules :: "AlarmRule gomap"
  rp_alarms :: "Alarm gomap"
  rp_video :: "VideoAlarmEvent gomap"
  rp_ai :: "AIAnalysis gomap"
  rp_deliveries :: "delivery_entry gomap"
  rp_videoMappings :: "VideoCameraMapping gomap"
  rp_videoRelations :: "VideoCameraRelation list gomap"
  rp_audits :: "AuditLog list"
  rp_products :: "Product gomap"
  rp_protocols :: "ProtocolPackage gomap"
  rp_protocolReleases :: "ProtocolRelease gomap"
  rp_protocolBindings :: "ProductProtocolBinding gomap"
  rp_devices :: "ManagedDevice gomap"
  rp_commands :: "DeviceCommand gomap"

definition NewRepository :: repo where
  "NewRepository = \<lparr>rp_objectCleanups = [], rp_componentAlarms = [], rp_outbox = [], rp_outboxSeq = 0,
     rp_rawReservations = [], rp_leases = [], rp_raw = [], rp_standard = [],
     rp_standardProcessed = [], rp_claims = [], rp_rulePending = [], rp_states = [], rp_stateEvents = [],
     rp_rules = [], rp_alarms = [], rp_video = [], rp_ai = [], rp_deliveries = [],
     rp_videoMappings = [], rp_videoRelations = [], rp_audits = [], rp_products = [],
     rp_protocols = [], rp_protocolReleases = [], rp_protocolBindings = [], rp_devices = [], rp_commands = []\<rparr>"

text \<open>\<^verbatim>\<open>key\<close> joins its parts with NUL bytes.\<close>

definition nul :: char where "nul = char_of (0 :: nat)"

fun key :: "string list \<Rightarrow> string" where
  "key [] = []"
| "key [p] = p"
| "key (p # q # ps) = p @ nul # key (q # ps)"

declare key.simps [simp del]

definition gm_vals :: "'v gomap \<Rightarrow> 'v list" where
  "gm_vals m = map snd m"

subsection \<open>Pages and orders\<close>

definition newerFirst :: "int \<Rightarrow> int \<Rightarrow> string \<Rightarrow> string \<Rightarrow> bool" where
  "newerFirst a b idA idB \<longleftrightarrow> a > b \<or> a = b \<and> idA < idB"

definition normalizePage :: "int \<Rightarrow> int \<Rightarrow> int \<times> int" where
  "normalizePage limit offset = (let limit = (if limit \<le> 0 then 20 else limit) in (min limit 100, max offset 0))"

definition page :: "'a list \<Rightarrow> int \<Rightarrow> int \<Rightarrow> 'a list" where
  "page v offset limit =
     (let offset = (if offset < 0 then 0 else offset) in
      if offset \<ge> int (length v) then []
      else let limit = (if limit \<le> 0 then 100 else limit);
               end = offset + limit;
               end = (if end > int (length v) then int (length v) else end)
           in slice v (nat offset) (nat end))"

subsection \<open>Products and devices\<close>

definition SaveProduct :: "Product \<Rightarrow> repo \<Rightarrow> repo" where
  "SaveProduct v r = r\<lparr>rp_products := gm_put (key [pr_TenantID v, pr_ID v]) v (rp_products r)\<rparr>"

definition GetProduct :: "string \<Rightarrow> string \<Rightarrow> repo \<Rightarrow> err + Product" where
  "GetProduct tenant pid r = (case gm_get (rp_products r) (key [tenant, pid]) of
     None \<Rightarrow> Inl ErrNotFound | Some v \<Rightarrow> Inr v)"

definition SaveProtocolPackage :: "ProtocolPackage \<Rightarrow> repo \<Rightarrow> repo" where
  "SaveProtocolPackage v r = r\<lparr>rp_protocols := gm_put (key [pp_TenantID v, pp_ID v]) v (rp_protocols r)\<rparr>"

definition GetProtocolPackage :: "string \<Rightarrow> string \<Rightarrow> repo \<Rightarrow> err + ProtocolPackage" where
  "GetProtocolPackage tenant pid r = (case gm_get (rp_protocols r) (key [tenant, pid]) of
     None \<Rightarrow> Inl ErrNotFound | Some v \<Rightarrow> Inr v)"

definition CreateProtocolRelease :: "ProtocolRelease \<Rightarrow> repo \<Rightarrow> (err + unit) \<times> repo" where
  "CreateProtocolRelease v r =
     (let k = key [pl_TenantID v, pl_ProtocolID v, pl_Version v] in
      case gm_get (rp_protocolReleases r) k of
        Some _ \<Rightarrow> (Inl (ErrText ''protocol release already exists''), r)
      | None \<Rightarrow> (Inr (), r\<lparr>rp_protocolReleases := gm_put k v (rp_protocolReleases r)\<rparr>))"

definition GetProtocolRelease :: "string \<Rightarrow> string \<Rightarrow> string \<Rightarrow> repo \<Rightarrow> err + ProtocolRelease" where
  "GetProtocolRelease tenant protocolID version r =
     (case gm_get (rp_protocolReleases r) (key [tenant, protocolID, version]) of None \<Rightarrow> Inl ErrNotFound | Some v \<Rightarrow> Inr v)"

definition UpdateProtocolReleaseStatus :: "string \<Rightarrow> string \<Rightarrow> string \<Rightarrow> string \<Rightarrow> int \<Rightarrow> repo \<Rightarrow> (err + unit) \<times> repo" where
  "UpdateProtocolReleaseStatus tenant protocolID version status publishedAt r =
     (let k = key [tenant, protocolID, version] in
      case gm_get (rp_protocolReleases r) k of
        None \<Rightarrow> (Inl ErrNotFound, r)
      | Some v \<Rightarrow> (Inr (), r\<lparr>rp_protocolReleases :=
          gm_put k (v\<lparr>pl_Status := status, pl_PublishedAt := publishedAt\<rparr>) (rp_protocolReleases r)\<rparr>))"

definition SaveProductProtocolBinding :: "ProductProtocolBinding \<Rightarrow> repo \<Rightarrow> repo" where
  "SaveProductProtocolBinding v r =
     r\<lparr>rp_protocolBindings := gm_put (key [pb_TenantID v, pb_ProductID v]) v (rp_protocolBindings r)\<rparr>"

definition GetProductProtocolBinding :: "string \<Rightarrow> string \<Rightarrow> repo \<Rightarrow> err + ProductProtocolBinding" where
  "GetProductProtocolBinding tenant productID r =
     (case gm_get (rp_protocolBindings r) (key [tenant, productID]) of None \<Rightarrow> Inl ErrNotFound | Some v \<Rightarrow> Inr v)"

definition SaveManagedDevice :: "ManagedDevice \<Rightarrow> repo \<Rightarrow> (err + unit) \<times> repo" where
  "SaveManagedDevice v r =
     (if list_ex (\<lambda>cur. md_AccessKey cur = md_AccessKey v \<and> (md_TenantID cur \<noteq> md_TenantID v \<or> md_ID cur \<noteq> md_ID v))
           (gm_vals (rp_devices r))
      then (Inl (ErrText ''access key already exists''), r)
      else (Inr (), r\<lparr>rp_devices := gm_put (key [md_TenantID v, md_ID v]) v (rp_devices r)\<rparr>))"

definition GetManagedDevice :: "string \<Rightarrow> string \<Rightarrow> repo \<Rightarrow> err + ManagedDevice" where
  "GetManagedDevice tenant did r = (case gm_get (rp_devices r) (key [tenant, did]) of
     None \<Rightarrow> Inl ErrNotFound | Some v \<Rightarrow> Inr v)"

definition GetManagedDeviceByAccessKey :: "string \<Rightarrow> repo \<Rightarrow> err + ManagedDevice" where
  "GetManagedDeviceByAccessKey accessKey r = (case find (\<lambda>v. md_AccessKey v = accessKey) (gm_vals (rp_devices r)) of
     None \<Rightarrow> Inl ErrNotFound | Some v \<Rightarrow> Inr v)"

text \<open>Newest first, then by ID descending.\<close>

definition ListManagedDevices :: "string \<Rightarrow> repo \<Rightarrow> ManagedDevice list" where
  "ListManagedDevices tenant r =
     rev (sort_key (\<lambda>v. (md_UpdatedAt v, md_ID v)) (filter (\<lambda>v. md_TenantID v = tenant) (gm_vals (rp_devices r))))"

record DeviceFilter =
  df_TenantID :: string
  df_Role :: string
  df_RestrictProducts :: bool
  df_ProductIDs :: "string list"
  df_RestrictDevices :: bool
  df_DeviceIDs :: "string list"
  df_Query :: string
  df_Status :: string
  df_Runtime :: string

definition EffectiveRole :: "ManagedDevice \<Rightarrow> string" where
  "EffectiveRole d = (if md_DeviceRole d = [] then ''DIRECT'' else md_DeviceRole d)"

definition DeviceFilter_Matches :: "DeviceFilter \<Rightarrow> ManagedDevice \<Rightarrow> DeviceState option \<Rightarrow> bool" where
  "DeviceFilter_Matches f d state \<longleftrightarrow>
     \<not> (df_TenantID f \<noteq> [] \<and> md_TenantID d \<noteq> df_TenantID f) \<and>
     \<not> (df_Role f \<noteq> [] \<and> EffectiveRole d \<noteq> df_Role f) \<and>
     \<not> (df_RestrictProducts f \<and> md_ProductID d \<notin> set (df_ProductIDs f)) \<and>
     \<not> (df_RestrictDevices f \<and> md_ID d \<notin> set (df_DeviceIDs f)) \<and>
     (let q = to_lower (trim_space (df_Query f)) in
        \<not> (q \<noteq> [] \<and> \<not> contains_sub (to_lower (md_ID d)) q \<and> \<not> contains_sub (to_lower (md_Name d)) q)) \<and>
     \<not> (df_Status f \<noteq> [] \<and> md_Status d \<noteq> df_Status f) \<and>
     (df_Runtime f = [] \<or>
        (case state of Some s \<Rightarrow> if ds_BusinessStatus s \<noteq> [] then ds_BusinessStatus s else ''NEVER_SEEN''
         | None \<Rightarrow> ''NEVER_SEEN'') = df_Runtime f)"

definition ListManagedDevicesFiltered :: "DeviceFilter \<Rightarrow> int \<Rightarrow> int \<Rightarrow> repo \<Rightarrow> ManagedDevice list \<times> nat" where
  "ListManagedDevicesFiltered f limit offset r =
     (let out = rev (sort_key (\<lambda>v. (md_UpdatedAt v, md_ID v))
            (filter (\<lambda>v. DeviceFilter_Matches f v (gm_get (rp_states r) (key [md_TenantID v, md_ID v])))
               (gm_vals (rp_devices r))));
          (limit, offset) = normalizePage limit offset
      in (page out offset limit, length out))"

subsection \<open>Raw messages\<close>

definition PayloadHash :: "RawMessage \<Rightarrow> string" where
  "PayloadHash m = sha256_hex (rm_Payload m)"

definition SaveRawIndex :: "RawArchiveIndex \<Rightarrow> repo \<Rightarrow> bool \<times> repo" where
  "SaveRawIndex v r =
     (let k = key [ri_TenantID v, ri_MessageID v] in
      case gm_get (rp_raw r) k of
        Some _ \<Rightarrow> (False, r)
      | None \<Rightarrow> (True, r\<lparr>rp_raw := gm_put k v (rp_raw r)\<rparr>))"

definition MarkRawPublished :: "string \<Rightarrow> string \<Rightarrow> int \<Rightarrow> string \<Rightarrow> repo \<Rightarrow> (err + unit) \<times> repo" where
  "MarkRawPublished tenant messageID publishedAt lastError r =
     (let k = key [tenant, messageID] in
      case gm_get (rp_raw r) k of
        None \<Rightarrow> (Inl ErrNotFound, r)
      | Some v \<Rightarrow>
          let v1 = v\<lparr>ri_PublishAttempts := ri_PublishAttempts v + 1, ri_LastPublishError := lastError\<rparr>;
              v2 = (if lastError = [] then v1\<lparr>ri_PublishedAt := publishedAt\<rparr> else v1)
          in (Inr (), r\<lparr>rp_raw := gm_put k v2 (rp_raw r)\<rparr>))"

definition raw_pending :: "RawArchiveIndex \<Rightarrow> bool" where
  "raw_pending v \<longleftrightarrow> ri_PublishedAt v = 0 \<and> ri_PublishAttempts v < MaxRawPublishAttempts"

definition ListPendingRawIndexes :: "int \<Rightarrow> repo \<Rightarrow> RawArchiveIndex list" where
  "ListPendingRawIndexes limit r =
     page (sort_key (\<lambda>v. (ri_PublishAttempts v, ri_ArchivedAt v)) (filter raw_pending (gm_vals (rp_raw r)))) 0 limit"

definition CountStalledRawIndexes :: "repo \<Rightarrow> nat" where
  "CountStalledRawIndexes r = length (filter (\<lambda>v. ri_PublishedAt v = 0 \<and> ri_PublishAttempts v \<ge> MaxRawPublishAttempts)
     (gm_vals (rp_raw r)))"

definition GetRawIndex :: "string \<Rightarrow> string \<Rightarrow> repo \<Rightarrow> err + RawArchiveIndex" where
  "GetRawIndex tenant messageID r = (case gm_get (rp_raw r) (key [tenant, messageID]) of
     None \<Rightarrow> Inl ErrNotFound | Some v \<Rightarrow> Inr v)"

definition GetRawIndexAt :: "string \<Rightarrow> string \<Rightarrow> int \<Rightarrow> repo \<Rightarrow> err + RawArchiveIndex" where
  "GetRawIndexAt tenant messageID receivedAt r = GetRawIndex tenant messageID r"

definition MarkRawParseResult :: "string \<Rightarrow> string \<Rightarrow> int \<Rightarrow> string \<Rightarrow> repo \<Rightarrow> repo" where
  "MarkRawParseResult tenant messageID t message r =
     (let k = key [tenant, messageID] in
      case gm_get (rp_raw r) k of
        None \<Rightarrow> r
      | Some v \<Rightarrow> r\<lparr>rp_raw := gm_put k (v\<lparr>ri_ParseAttemptedAt := t, ri_ParseError := message\<rparr>) (rp_raw r)\<rparr>)"

text \<open>
  The reservation keeps \<^verbatim>\<open>clone(v)\<close>, a JSON round trip that yields the zero message when the payload is not
  valid JSON; \<open>json_valid\<close> stands for \<^verbatim>\<open>json.Valid\<close>.
\<close>

definition clone_raw :: "(string \<Rightarrow> bool) \<Rightarrow> RawMessage \<Rightarrow> RawMessage" where
  "clone_raw json_valid v = (if json_valid (rm_Payload v) then v else zero_RawMessage)"

definition ReserveRawMessage :: "(string \<Rightarrow> bool) \<Rightarrow> RawMessage \<Rightarrow> repo \<Rightarrow> (err + (RawMessage \<times> bool)) \<times> repo" where
  "ReserveRawMessage json_valid v r =
     (let k = key [rm_TenantID v, rm_MessageID v] in
      case gm_get (rp_rawReservations r) k of
        Some old \<Rightarrow>
          if rr_Hash old \<noteq> PayloadHash v \<or> rm_ProductID (rr_Metadata old) \<noteq> rm_ProductID v \<or>
             rm_DeviceID (rr_Metadata old) \<noteq> rm_DeviceID v
          then (Inl ErrRawConflict, r)
          else (Inr ((rr_Metadata old)\<lparr>rm_Payload := rm_Payload v\<rparr>, False), r)
      | None \<Rightarrow>
          (Inr (v, True), r\<lparr>rp_rawReservations :=
             gm_put k \<lparr>rr_Metadata = (clone_raw json_valid v)\<lparr>rm_Payload := []\<rparr>, rr_Hash = PayloadHash v\<rparr> (rp_rawReservations r)\<rparr>))"

subsection \<open>Standard messages and processing claims\<close>

definition SaveStandardMessageIfAbsent :: "StandardMessage \<Rightarrow> repo \<Rightarrow> bool \<times> repo" where
  "SaveStandardMessageIfAbsent v r =
     (let k = key [sm_TenantID v, sm_MessageID v] in
      case gm_get (rp_standard r) k of
        Some _ \<Rightarrow> (False, r)
      | None \<Rightarrow> (True, r\<lparr>rp_standard := gm_put k v (rp_standard r),
                          rp_standardProcessed := gm_put k False (rp_standardProcessed r)\<rparr>))"

definition processed :: "repo \<Rightarrow> string \<Rightarrow> bool" where
  "processed r k = (case gm_get (rp_standardProcessed r) k of None \<Rightarrow> False | Some b \<Rightarrow> b)"

definition claim_of :: "repo \<Rightarrow> string \<Rightarrow> memoryClaim" where
  "claim_of r k = (case gm_get (rp_claims r) k of None \<Rightarrow> zero_memoryClaim | Some c \<Rightarrow> c)"

definition zero_StandardClaim :: StandardClaim where
  "zero_StandardClaim = \<lparr>sc_ShouldProcess = False, sc_Created = False, sc_Token = 0, sc_Busy = False,
     sc_HeldBy = [], sc_RetryAfter = 0\<rparr>"

definition ClaimStandardMessage :: "int \<Rightarrow> StandardMessage \<Rightarrow> string \<Rightarrow> int \<Rightarrow> repo \<Rightarrow> StandardClaim \<times> repo" where
  "ClaimStandardMessage now v owner lease r =
     (let k = key [sm_TenantID v, sm_MessageID v];
          (created, r1) = SaveStandardMessageIfAbsent v r
      in if processed r1 k then (zero_StandardClaim\<lparr>sc_Created := created\<rparr>, r1)
         else let c = claim_of r1 k in
           if mc_owner c \<noteq> [] \<and> mc_owner c \<noteq> owner \<and> now < mc_expires c
           then (zero_StandardClaim\<lparr>sc_Created := created, sc_Busy := True, sc_HeldBy := mc_owner c,
                   sc_RetryAfter := mc_expires c - now\<rparr>, r1)
           else let c' = \<lparr>mc_owner = owner, mc_token = mc_token c + 1, mc_expires = now + lease\<rparr>
                in (zero_StandardClaim\<lparr>sc_ShouldProcess := True, sc_Created := created, sc_Token := mc_token c'\<rparr>,
                    r1\<lparr>rp_claims := gm_put k c' (rp_claims r1)\<rparr>))"

definition MarkStandardMessageProcessed :: "string \<Rightarrow> string \<Rightarrow> int \<Rightarrow> repo \<Rightarrow> (err + unit) \<times> repo" where
  "MarkStandardMessageProcessed tenant messageID token r =
     (let k = key [tenant, messageID] in
      case gm_get (rp_standard r) k of
        None \<Rightarrow> (Inl ErrNotFound, r)
      | Some _ \<Rightarrow>
          if processed r k \<or> mc_token (claim_of r k) \<noteq> token then (Inl ErrStaleClaim, r)
          else (Inr (), r\<lparr>rp_standardProcessed := gm_put k True (rp_standardProcessed r)\<rparr>))"

definition GetStandardMessageByRaw :: "string \<Rightarrow> string \<Rightarrow> repo \<Rightarrow> err + StandardMessage" where
  "GetStandardMessageByRaw tenant rawID r =
     (case find (\<lambda>v. sm_TenantID v = tenant \<and> sm_RawMessageID v = rawID) (gm_vals (rp_standard r)) of
        None \<Rightarrow> Inl ErrNotFound | Some v \<Rightarrow> Inr v)"

primrec latest_message :: "string \<Rightarrow> string \<Rightarrow> StandardMessage option \<Rightarrow> StandardMessage list \<Rightarrow> StandardMessage option" where
  "latest_message tenant device best [] = best"
| "latest_message tenant device best (v # vs) =
     latest_message tenant device
       (if sm_TenantID v = tenant \<and> sm_DeviceID v = device \<and>
           (case best of None \<Rightarrow> True | Some b \<Rightarrow> sm_Timestamp v > sm_Timestamp b)
        then Some v else best) vs"

definition GetLatestMessage :: "string \<Rightarrow> string \<Rightarrow> repo \<Rightarrow> err + StandardMessage" where
  "GetLatestMessage tenant device r =
     (case latest_message tenant device None (gm_vals (rp_standard r)) of None \<Rightarrow> Inl ErrNotFound | Some v \<Rightarrow> Inr v)"

subsection \<open>Device states\<close>

definition stored_state :: "repo \<Rightarrow> string \<Rightarrow> string \<Rightarrow> DeviceState option" where
  "stored_state r tenant device = gm_get (rp_states r) (key [tenant, device])"

definition UpsertDeviceState :: "DeviceState \<Rightarrow> repo \<Rightarrow> repo" where
  "UpsertDeviceState v r =
     (let k = key [ds_TenantID v, ds_DeviceID v];
          old = (case gm_get (rp_states r) k of None \<Rightarrow> 0 | Some s \<Rightarrow> ds_Version s)
      in r\<lparr>rp_states := gm_put k (v\<lparr>ds_Version := old + 1\<rparr>) (rp_states r)\<rparr>)"

definition UpsertDeviceStateIf :: "DeviceState \<Rightarrow> repo \<Rightarrow> bool \<times> repo" where
  "UpsertDeviceStateIf v r =
     (let k = key [ds_TenantID v, ds_DeviceID v];
          old = gm_get (rp_states r) k
      in if (ds_Version v = 0 \<and> old \<noteq> None) \<or>
            (ds_Version v \<noteq> 0 \<and> (case old of None \<Rightarrow> True | Some s \<Rightarrow> ds_Version s \<noteq> ds_Version v))
         then (False, r)
         else (True, r\<lparr>rp_states := gm_put k (v\<lparr>ds_Version := ds_Version v + 1\<rparr>) (rp_states r)\<rparr>))"

definition GetDeviceState :: "string \<Rightarrow> string \<Rightarrow> repo \<Rightarrow> err + DeviceState" where
  "GetDeviceState tenant device r = (case stored_state r tenant device of
     None \<Rightarrow> Inl ErrNotFound | Some v \<Rightarrow> Inr v)"

definition GetDeviceStateFresh :: "string \<Rightarrow> string \<Rightarrow> repo \<Rightarrow> err + DeviceState" where
  "GetDeviceStateFresh tenant device r = GetDeviceState tenant device r"

definition ListDeviceStates :: "string \<Rightarrow> repo \<Rightarrow> DeviceState list" where
  "ListDeviceStates tenant r = filter (\<lambda>v. tenant = [] \<or> ds_TenantID v = tenant) (gm_vals (rp_states r))"

definition ListOfflineDue :: "int \<Rightarrow> nat \<Rightarrow> repo \<Rightarrow> DeviceState list" where
  "ListOfflineDue now limit r =
     take limit (filter (\<lambda>v. OfflineCheckAt v > 0 \<and> OfflineCheckAt v < now) (gm_vals (rp_states r)))"

text \<open>The event keeps \<^verbatim>\<open>clone(v)\<close>, whose JSON text leaves the version out.\<close>

definition SaveDeviceStateEvent :: "int \<Rightarrow> DeviceState \<Rightarrow> repo \<Rightarrow> repo" where
  "SaveDeviceStateEvent now v r = r\<lparr>rp_stateEvents := rp_stateEvents r @ [\<lparr>de_State = v\<lparr>ds_Version := 0\<rparr>, de_RecordedAt = now\<rparr>]\<rparr>"

subsection \<open>Rules and their duration timers\<close>

definition SaveRule :: "AlarmRule \<Rightarrow> repo \<Rightarrow> repo" where
  "SaveRule v r = r\<lparr>rp_rules := gm_put (key [ar_TenantID v, ar_ID v]) v (rp_rules r)\<rparr>"

definition ListRules :: "string \<Rightarrow> repo \<Rightarrow> AlarmRule list" where
  "ListRules tenant r =
     rev (sort_key (\<lambda>v. (ar_UpdatedAt v, ar_ID v)) (filter (\<lambda>v. tenant = [] \<or> ar_TenantID v = tenant) (gm_vals (rp_rules r))))"

definition ListRulesPage :: "string \<Rightarrow> int \<Rightarrow> int \<Rightarrow> repo \<Rightarrow> AlarmRule list \<times> nat" where
  "ListRulesPage tenant limit offset r =
     (let items = ListRules tenant r in (page items offset limit, length items))"

definition drop_pendings :: "string \<Rightarrow> string \<Rightarrow> repo \<Rightarrow> repo" where
  "drop_pendings tenant ruleID r =
     r\<lparr>rp_rulePending := gm_filter (\<lambda>k _. \<not> has_prefix k (key [tenant, ruleID] @ [nul])) (rp_rulePending r)\<rparr>"

definition Repo_DeleteRule :: "string \<Rightarrow> string \<Rightarrow> repo \<Rightarrow> (err + unit) \<times> repo" where
  "Repo_DeleteRule tenant rid r =
     (let k = key [tenant, rid] in
      case gm_get (rp_rules r) k of
        None \<Rightarrow> (Inl ErrNotFound, r)
      | Some _ \<Rightarrow> (Inr (), drop_pendings tenant rid (r\<lparr>rp_rules := gm_del k (rp_rules r)\<rparr>)))"

definition SaveRulePending :: "string \<Rightarrow> string \<Rightarrow> string \<Rightarrow> int \<Rightarrow> repo \<Rightarrow> repo" where
  "SaveRulePending tenant ruleID deviceID since r =
     (let k = key [tenant, ruleID, deviceID] in
      case gm_get (rp_rulePending r) k of
        Some current \<Rightarrow> if current \<le> since then r else r\<lparr>rp_rulePending := gm_put k since (rp_rulePending r)\<rparr>
      | None \<Rightarrow> r\<lparr>rp_rulePending := gm_put k since (rp_rulePending r)\<rparr>)"

definition GetRulePending :: "string \<Rightarrow> string \<Rightarrow> string \<Rightarrow> repo \<Rightarrow> int option" where
  "GetRulePending tenant ruleID deviceID r = gm_get (rp_rulePending r) (key [tenant, ruleID, deviceID])"

definition DeleteRulePending :: "string \<Rightarrow> string \<Rightarrow> string \<Rightarrow> repo \<Rightarrow> repo" where
  "DeleteRulePending tenant ruleID deviceID r =
     r\<lparr>rp_rulePending := gm_del (key [tenant, ruleID, deviceID]) (rp_rulePending r)\<rparr>"

definition DeleteRulePendings :: "string \<Rightarrow> string \<Rightarrow> repo \<Rightarrow> repo" where
  "DeleteRulePendings tenant ruleID r = drop_pendings tenant ruleID r"

subsection \<open>Device commands\<close>

definition CreateDeviceCommand :: "DeviceCommand \<Rightarrow> repo \<Rightarrow> (DeviceCommand \<times> bool) \<times> repo" where
  "CreateDeviceCommand v r =
     (let k = key [dc_TenantID v, dc_ID v] in
      case gm_get (rp_commands r) k of
        Some old \<Rightarrow> ((old, False), r)
      | None \<Rightarrow> ((v, True), r\<lparr>rp_commands := gm_put k v (rp_commands r)\<rparr>))"

definition UpdateDeviceCommandDispatch :: "string \<Rightarrow> string \<Rightarrow> string \<Rightarrow> string \<Rightarrow> int \<Rightarrow> repo \<Rightarrow> (err + unit) \<times> repo" where
  "UpdateDeviceCommandDispatch t cid status msg now r =
     (let k = key [t, cid] in
      case gm_get (rp_commands r) k of
        None \<Rightarrow> (Inl ErrNotFound, r)
      | Some v \<Rightarrow> (Inr (), if dc_Status v = ''DISPATCHING''
          then r\<lparr>rp_commands := gm_put k (v\<lparr>dc_Status := status, dc_LastError := msg, dc_UpdatedAt := now\<rparr>) (rp_commands r)\<rparr>
          else r))"

definition CompleteDeviceCommand :: "string \<Rightarrow> string \<Rightarrow> string \<Rightarrow> gval gomap \<Rightarrow> int \<Rightarrow> repo \<Rightarrow> repo" where
  "CompleteDeviceCommand t d cid reply now r =
     (let k = key [t, cid] in
      case gm_get (rp_commands r) k of
        None \<Rightarrow> r
      | Some v \<Rightarrow>
          if dc_DeviceID v \<noteq> d then r
          else if dc_Status v = ''SUCCEEDED'' \<or> dc_Status v = ''FAILED'' then r
          else r\<lparr>rp_commands := gm_put k (v\<lparr>dc_Status := (if gm_get reply ''success'' = Some (VBool True) then ''SUCCEEDED'' else ''FAILED''),
                 dc_Reply := reply, dc_UpdatedAt := now\<rparr>) (rp_commands r)\<rparr>)"

subsection \<open>Alarms and the outbox\<close>

definition addOutbox :: "OutboxEvent \<Rightarrow> repo \<Rightarrow> repo" where
  "addOutbox v r = r\<lparr>rp_outboxSeq := rp_outboxSeq r + 1, rp_outbox := rp_outbox r @ [v\<lparr>ob_Seq := rp_outboxSeq r + 1\<rparr>]\<rparr>"

text \<open>The test of the loop of \<^verbatim>\<open>UpsertAlarm\<close>: an open alarm of the same tenant, device and rule.\<close>

definition same_open :: "Alarm \<Rightarrow> Alarm \<Rightarrow> bool" where
  "same_open v a \<longleftrightarrow> al_TenantID a = al_TenantID v \<and> al_DeviceID a = al_DeviceID v \<and> al_RuleID a = al_RuleID v \<and> alarm_open a"

definition put_alarm :: "Alarm \<Rightarrow> repo \<Rightarrow> repo" where
  "put_alarm a r = r\<lparr>rp_alarms := gm_put (key [al_TenantID a, al_ID a]) a (rp_alarms r)\<rparr>"

definition UpsertAlarm :: "Alarm \<Rightarrow> repo \<Rightarrow> (Alarm \<times> bool) \<times> repo" where
  "UpsertAlarm v r =
     (case find (\<lambda>(k, a). same_open v a) (rp_alarms r) of
        Some (k, a) \<Rightarrow>
          if al_TriggerID v \<noteq> [] \<and> al_TriggerID a = al_TriggerID v then ((a, False), r)
          else let a' = a\<lparr>al_LastTriggeredAt := al_LastTriggeredAt v, al_TriggerCount := al_TriggerCount a + 1,
                 al_Confidence := (if f64_lt (al_Confidence a) (al_Confidence v) then al_Confidence v else al_Confidence a),
                 al_Version := al_Version a + 1\<rparr>
               in ((a', False), addOutbox (AlarmReportEvent a' v) (r\<lparr>rp_alarms := gm_put k a' (rp_alarms r)\<rparr>))
      | None \<Rightarrow> let v' = v\<lparr>al_Version := 1\<rparr> in ((v', True), addOutbox (AlarmReportEvent v' v') (put_alarm v' r)))"

text \<open>
  \<^verbatim>\<open>DrainOutbox\<close> publishes a batch without holding the mutex and then removes what was sent; its two
  sections under the mutex are modelled here, the publications between them belong to the engine.
\<close>

definition outbox_batch :: "nat \<Rightarrow> repo \<Rightarrow> OutboxEvent list" where
  "outbox_batch limit r = take limit (rp_outbox r)"

definition outbox_remove :: "OutboxEvent list \<Rightarrow> repo \<Rightarrow> repo" where
  "outbox_remove sent r = r\<lparr>rp_outbox := filter (\<lambda>v. ob_Seq v \<notin> set (map ob_Seq sent)) (rp_outbox r)\<rparr>"

definition stored_alarm :: "repo \<Rightarrow> string \<Rightarrow> string \<Rightarrow> Alarm option" where
  "stored_alarm r tenant aid = gm_get (rp_alarms r) (key [tenant, aid])"

definition GetAlarm :: "string \<Rightarrow> string \<Rightarrow> repo \<Rightarrow> err + Alarm" where
  "GetAlarm tenant aid r = (case stored_alarm r tenant aid of None \<Rightarrow> Inl ErrNotFound | Some v \<Rightarrow> Inr v)"

record AlarmFilter =
  af_Summary :: bool
  af_TenantID :: string
  af_DeviceID :: string
  af_Status :: string
  af_Level :: string
  af_Source :: string
  af_Start :: int
  af_End :: int
  af_Limit :: int
  af_Offset :: int
  af_DeviceIDs :: "string list option"
  af_AlarmType :: string

definition zero_AlarmFilter :: AlarmFilter where
  "zero_AlarmFilter = \<lparr>af_Summary = False, af_TenantID = [], af_DeviceID = [], af_Status = [], af_Level = [],
     af_Source = [], af_Start = 0, af_End = 0, af_Limit = 0, af_Offset = 0, af_DeviceIDs = None, af_AlarmType = []\<rparr>"

definition matchesAlarmFilter :: "Alarm \<Rightarrow> AlarmFilter \<Rightarrow> bool" where
  "matchesAlarmFilter v f \<longleftrightarrow>
     (af_TenantID f = [] \<or> al_TenantID v = af_TenantID f) \<and> (af_DeviceID f = [] \<or> al_DeviceID v = af_DeviceID f) \<and>
     (case af_DeviceIDs f of None \<Rightarrow> True | Some ids \<Rightarrow> al_DeviceID v \<in> set ids) \<and>
     (af_Status f = [] \<or> al_Status v = af_Status f) \<and> (af_Level f = [] \<or> al_AlarmLevel v = af_Level f) \<and>
     (af_Source f = [] \<or> al_Source v = af_Source f) \<and>
     (af_Start f \<le> 0 \<or> al_LastTriggeredAt v \<ge> af_Start f) \<and> (af_End f \<le> 0 \<or> al_LastTriggeredAt v \<le> af_End f) \<and>
     (af_AlarmType f = [] \<or> al_AlarmType v = af_AlarmType f)"

definition ListAlarms :: "AlarmFilter \<Rightarrow> repo \<Rightarrow> Alarm list" where
  "ListAlarms f r =
     page (sort_key (\<lambda>v. - al_LastTriggeredAt v)
       (map (\<lambda>v. if af_Summary f then v\<lparr>al_Details := [], al_Cameras := []\<rparr> else v)
          (filter (\<lambda>v. matchesAlarmFilter v f) (gm_vals (rp_alarms r))))) (af_Offset f) (af_Limit f)"

definition CountAlarms :: "AlarmFilter \<Rightarrow> repo \<Rightarrow> nat" where
  "CountAlarms f r = length (filter (\<lambda>v. matchesAlarmFilter v f) (gm_vals (rp_alarms r)))"

definition UpdateAlarm :: "Alarm \<Rightarrow> repo \<Rightarrow> (err + unit) \<times> repo" where
  "UpdateAlarm v r = (case gm_get (rp_alarms r) (key [al_TenantID v, al_ID v]) of
     None \<Rightarrow> (Inl ErrNotFound, r)
   | Some old \<Rightarrow> (Inr (), put_alarm (v\<lparr>al_Version := al_Version old + 1\<rparr>) r))"

definition UpdateAlarmIf :: "Alarm \<Rightarrow> repo \<Rightarrow> (err + bool) \<times> repo" where
  "UpdateAlarmIf v r = (case gm_get (rp_alarms r) (key [al_TenantID v, al_ID v]) of
     None \<Rightarrow> (Inl ErrNotFound, r)
   | Some old \<Rightarrow>
       if al_Version old \<noteq> al_Version v then (Inr False, r)
       else (Inr True, put_alarm (v\<lparr>al_Version := al_Version v + 1\<rparr>) r))"

definition HasOpenAlarm :: "string \<Rightarrow> string \<Rightarrow> repo \<Rightarrow> bool" where
  "HasOpenAlarm tenant device r =
     list_ex (\<lambda>v. al_TenantID v = tenant \<and> al_DeviceID v = device \<and> alarm_open v) (gm_vals (rp_alarms r))"

definition LoadDeviceStateWithAlarms :: "string \<Rightarrow> string \<Rightarrow> repo \<Rightarrow> (err + DeviceState) \<times> bool" where
  "LoadDeviceStateWithAlarms tenant device r = (GetDeviceStateFresh tenant device r, HasOpenAlarm tenant device r)"

text \<open>The state write and the completion of a message: the second step runs only when the first succeeded.\<close>

definition CompleteStandardMessage ::
    "DeviceState option \<Rightarrow> string \<Rightarrow> string \<Rightarrow> int \<Rightarrow> repo \<Rightarrow> (bool \<times> err option) \<times> repo" where
  "CompleteStandardMessage state tenant messageID token r =
     (let (ok, r1) = (case state of None \<Rightarrow> (True, r) | Some s \<Rightarrow> UpsertDeviceStateIf s r) in
      if \<not> ok then ((False, None), r1)
      else case MarkStandardMessageProcessed tenant messageID token r1 of
        (Inl e, r2) \<Rightarrow> ((True, Some e), r2)
      | (Inr _, r2) \<Rightarrow> ((True, None), r2))"

definition ApplyComponentAlarm :: "Alarm \<Rightarrow> ComponentAlarmState \<Rightarrow> repo \<Rightarrow> (Alarm \<times> string) \<times> repo" where
  "ApplyComponentAlarm candidate state r =
     (let k = key [al_TenantID candidate, al_DeviceID candidate, al_RuleID candidate];
          previous = (case gm_get (rp_componentAlarms r) k of None \<Rightarrow> zero_ComponentAlarmState | Some s \<Rightarrow> s);
          old = (case gm_get (rp_alarms r) (key [al_TenantID candidate, ca_AlarmID previous]) of
                   None \<Rightarrow> zero_Alarm | Some a \<Rightarrow> a)
      in if ca_MessageID state = ca_MessageID previous \<and> ca_Timestamp state = ca_Timestamp previous
         then ((old, ca_Event previous), r)
         else if \<not> Supersedes state previous then ((old, []), r)
         else let (alarm, event) = TransitionComponentAlarm candidate old state;
                  state' = state\<lparr>ca_AlarmID := al_ID alarm, ca_Event := event\<rparr>;
                  stored = (case gm_get (rp_alarms r) (key [al_TenantID alarm, al_ID alarm]) of
                              None \<Rightarrow> 0 | Some a \<Rightarrow> al_Version a);
                  alarm' = (if al_ID alarm \<noteq> [] then alarm\<lparr>al_Version := stored + 1\<rparr> else alarm);
                  r1 = (if al_ID alarm \<noteq> [] then put_alarm alarm' r else r);
                  r2 = (if al_ID alarm \<noteq> [] \<and> ca_Active state then addOutbox (AlarmReportEvent alarm' candidate) r1 else r1)
              in ((alarm', event), r2\<lparr>rp_componentAlarms := gm_put k state' (rp_componentAlarms r2)\<rparr>))"

definition UpsertExternalAlarm :: "Alarm \<Rightarrow> repo \<Rightarrow> (err + (Alarm \<times> bool \<times> bool)) \<times> repo" where
  "UpsertExternalAlarm report r =
     (if al_TenantID report = [] \<or> al_ID report = [] \<or> al_DeviceID report = [] \<or> al_TriggerID report = [] \<or>
         \<not> contains_sub (al_RuleID report) '':external:''
      then (Inl ErrInvalidIngress, r)
      else case gm_get (rp_alarms r) (key [al_TenantID report, al_ID report]) of
        Some saved \<Rightarrow>
          if al_DeviceID saved \<noteq> al_DeviceID report \<or> al_RuleID saved \<noteq> al_RuleID report then (Inl ErrInvalidIngress, r)
          else if al_TriggerID saved = al_TriggerID report \<or> al_Status saved = ''CLOSED'' \<or> al_Status saved = ''RECOVERED''
          then (Inr (saved, False, False), r)
          else let saved' = saved\<lparr>al_Details := al_Details report, al_Content := al_Content report,
                  al_LastTriggeredAt := al_LastTriggeredAt report, al_AlarmLevel := al_AlarmLevel report,
                  al_Confidence := al_Confidence report, al_TriggerID := al_TriggerID report,
                  al_TriggerCount := al_TriggerCount saved + 1, al_Version := al_Version saved + 1\<rparr>
               in (Inr (saved', False, True), addOutbox (AlarmReportEvent saved' report)
                     (r\<lparr>rp_alarms := gm_put (key [al_TenantID report, al_ID report]) saved' (rp_alarms r)\<rparr>))
      | None \<Rightarrow>
          let saved = report\<lparr>al_TriggerCount := 1, al_Version := 1\<rparr>
          in (Inr (saved, True, True), addOutbox (AlarmReportEvent saved report) (put_alarm saved r)))"

subsection \<open>Leases, audits and object clean-up\<close>

definition AcquireExecutionLease ::
    "int \<Rightarrow> string \<Rightarrow> string \<Rightarrow> string \<Rightarrow> string \<Rightarrow> int \<Rightarrow> repo \<Rightarrow> (err + (ExecutionLease \<times> bool)) \<times> repo" where
  "AcquireExecutionLease now tenant resource owner endpoint ttl r =
     (if tenant = [] \<or> resource = [] \<or> owner = [] \<or> ttl < 1000 \<or> ttl > 60000
      then (Inl (ErrText ''invalid execution lease''), r)
      else let k = key [tenant, resource]; found = gm_get (rp_leases r) k in
        if (case found of Some v \<Rightarrow> el_ExpiresAt v > now \<and> el_Owner v \<noteq> owner | None \<Rightarrow> False)
        then (Inr (the found, False), r)
        else let v = (case found of
                 None \<Rightarrow> \<lparr>el_TenantID = tenant, el_Resource = resource, el_Owner = [], el_Endpoint = [], el_Token = 1, el_ExpiresAt = 0\<rparr>
               | Some v \<Rightarrow> if el_ExpiresAt v \<le> now then v\<lparr>el_Token := el_Token v + 1\<rparr> else v);
               v' = v\<lparr>el_Owner := owner, el_Endpoint := endpoint, el_ExpiresAt := now + ttl\<rparr>
             in (Inr (v', True), r\<lparr>rp_leases := gm_put k v' (rp_leases r)\<rparr>))"

definition GetExecutionLease :: "int \<Rightarrow> string \<Rightarrow> string \<Rightarrow> repo \<Rightarrow> err + ExecutionLease" where
  "GetExecutionLease now tenant resource r = (case gm_get (rp_leases r) (key [tenant, resource]) of
     None \<Rightarrow> Inl ErrNotFound | Some v \<Rightarrow> if el_ExpiresAt v \<le> now then Inl ErrNotFound else Inr v)"

definition ReleaseExecutionLease :: "ExecutionLease \<Rightarrow> repo \<Rightarrow> repo" where
  "ReleaseExecutionLease lease r =
     (let k = key [el_TenantID lease, el_Resource lease] in
      case gm_get (rp_leases r) k of
        None \<Rightarrow> r
      | Some v \<Rightarrow> if el_Owner v = el_Owner lease \<and> el_Token v = el_Token lease
                  then r\<lparr>rp_leases := gm_put k (v\<lparr>el_ExpiresAt := 0\<rparr>) (rp_leases r)\<rparr> else r)"

definition SaveAudit :: "AuditLog \<Rightarrow> repo \<Rightarrow> repo" where
  "SaveAudit v r = r\<lparr>rp_audits := rp_audits r @ [v]\<rparr>"

definition EnqueueObjectCleanup :: "string \<Rightarrow> string \<Rightarrow> repo \<Rightarrow> repo" where
  "EnqueueObjectCleanup bucket k r =
     (let ref = \<lparr>or_Bucket = bucket, or_Key = k\<rparr> in
      if ref \<in> set (rp_objectCleanups r) then r else r\<lparr>rp_objectCleanups := rp_objectCleanups r @ [ref]\<rparr>)"

definition PendingObjectCleanups :: "nat \<Rightarrow> repo \<Rightarrow> ObjectRef list" where
  "PendingObjectCleanups limit r = take limit (rp_objectCleanups r)"

definition FinishObjectCleanup :: "string \<Rightarrow> string \<Rightarrow> repo \<Rightarrow> repo" where
  "FinishObjectCleanup bucket k r =
     r\<lparr>rp_objectCleanups := filter (\<lambda>v. v \<noteq> \<lparr>or_Bucket = bucket, or_Key = k\<rparr>) (rp_objectCleanups r)\<rparr>"

subsection \<open>Cameras\<close>

fun unique_from :: "string list \<Rightarrow> string list \<Rightarrow> string list" where
  "unique_from seen [] = []"
| "unique_from seen (v # vs) =
     (let v = trim_space v in
      if v = [] \<or> v \<in> set seen then unique_from seen vs else v # unique_from (v # seen) vs)"

definition uniqueStrings :: "string list \<Rightarrow> string list" where
  "uniqueStrings values = unique_from [] values"

definition SaveVideoCameraMapping :: "VideoCameraMapping \<Rightarrow> repo \<Rightarrow> (err + unit) \<times> repo" where
  "SaveVideoCameraMapping v r =
     (let legacy = uniqueStrings (vm_RelatedDeviceIDs v);
          v = (if vm_DeviceID v = [] \<and> length legacy = 1 then v\<lparr>vm_DeviceID := legacy ! 0\<rparr> else v)
      in if length legacy > 1 \<or> (vm_DeviceID v \<noteq> [] \<and> length legacy = 1 \<and> legacy ! 0 \<noteq> vm_DeviceID v)
         then (Inl (ErrText ''a camera can be associated with at most one device''), r)
         else let v = v\<lparr>vm_RelatedDeviceIDs := [], vm_RelatedFloorIDs := [], vm_RelatedRoomIDs := []\<rparr>;
                  k = key [vm_TenantID v, vm_CameraID v];
                  relations = (if vm_DeviceID v \<noteq> []
                    then [\<lparr>vr_TenantID = vm_TenantID v, vr_CameraID = vm_CameraID v, vr_RelationType = ''device'', vr_TargetID = vm_DeviceID v\<rparr>]
                    else [])
              in (Inr (), r\<lparr>rp_videoMappings := gm_put k v (rp_videoMappings r),
                             rp_videoRelations := gm_put k relations (rp_videoRelations r)\<rparr>))"

definition GetVideoCameraMapping :: "string \<Rightarrow> string \<Rightarrow> repo \<Rightarrow> err + VideoCameraMapping" where
  "GetVideoCameraMapping tenant camera r = (case gm_get (rp_videoMappings r) (key [tenant, camera]) of
     None \<Rightarrow> Inl ErrNotFound | Some v \<Rightarrow> Inr v)"

definition ListVideoCameraMappings :: "string \<Rightarrow> repo \<Rightarrow> VideoCameraMapping list" where
  "ListVideoCameraMappings tenant r =
     sort_key vm_CameraID (filter (\<lambda>v. vm_TenantID v = tenant) (gm_vals (rp_videoMappings r)))"

text \<open>The loop of \<^verbatim>\<open>ReplaceVideoCameraRelations\<close>: the kept relations and the device, or \<open>None\<close> for two devices.\<close>

fun keep_relations :: "string \<Rightarrow> string \<Rightarrow> string \<Rightarrow> VideoCameraRelation list \<Rightarrow> (VideoCameraRelation list \<times> string) option" where
  "keep_relations tenant camera device [] = Some ([], device)"
| "keep_relations tenant camera device (x # xs) =
     (if vr_RelationType x \<noteq> ''device'' \<or> trim_space (vr_TargetID x) = [] then keep_relations tenant camera device xs
      else if device \<noteq> [] \<and> device \<noteq> vr_TargetID x then None
      else case keep_relations tenant camera (vr_TargetID x) xs of
        None \<Rightarrow> None
      | Some (ys, d) \<Rightarrow> Some (x\<lparr>vr_TenantID := tenant, vr_CameraID := camera\<rparr> # ys, d))"

definition ReplaceVideoCameraRelations :: "string \<Rightarrow> string \<Rightarrow> VideoCameraRelation list \<Rightarrow> repo \<Rightarrow> (err + unit) \<times> repo" where
  "ReplaceVideoCameraRelations tenant camera relations r =
     (case keep_relations tenant camera [] relations of
        None \<Rightarrow> (Inl (ErrText ''a camera can be associated with at most one device''), r)
      | Some (kept, device) \<Rightarrow>
          let k = key [tenant, camera];
              r1 = r\<lparr>rp_videoRelations := gm_put k kept (rp_videoRelations r)\<rparr>
          in (Inr (), case gm_get (rp_videoMappings r) k of
                None \<Rightarrow> r1
              | Some m \<Rightarrow> r1\<lparr>rp_videoMappings := gm_put k (m\<lparr>vm_DeviceID := device, vm_RelatedDeviceIDs := [],
                    vm_RelatedFloorIDs := [], vm_RelatedRoomIDs := []\<rparr>) (rp_videoMappings r)\<rparr>))"

definition ListVideoCameraRelations :: "string \<Rightarrow> string \<Rightarrow> repo \<Rightarrow> VideoCameraRelation list" where
  "ListVideoCameraRelations tenant camera r = (case gm_get (rp_videoRelations r) (key [tenant, camera]) of
     None \<Rightarrow> [] | Some xs \<Rightarrow> xs)"

definition ListVideoCameraRelationsByTarget :: "string \<Rightarrow> string \<Rightarrow> string \<Rightarrow> repo \<Rightarrow> VideoCameraRelation list" where
  "ListVideoCameraRelationsByTarget tenant relationType targetID r =
     sort_key vr_CameraID (filter (\<lambda>x. vr_TenantID x = tenant \<and> vr_RelationType x = relationType \<and> vr_TargetID x = targetID)
       (concat (gm_vals (rp_videoRelations r))))"

subsection \<open>Video events, AI results and deliveries of external events\<close>

definition SaveVideoEvent :: "VideoAlarmEvent \<Rightarrow> repo \<Rightarrow> bool \<times> repo" where
  "SaveVideoEvent v r =
     (let k = key [ve_TenantID v, ve_EventID v] in
      case gm_get (rp_video r) k of Some _ \<Rightarrow> (False, r) | None \<Rightarrow> (True, r\<lparr>rp_video := gm_put k v (rp_video r)\<rparr>))"

definition UpdateVideoEvent :: "VideoAlarmEvent \<Rightarrow> repo \<Rightarrow> repo" where
  "UpdateVideoEvent v r = r\<lparr>rp_video := gm_put (key [ve_TenantID v, ve_EventID v]) v (rp_video r)\<rparr>"

definition GetVideoEvent :: "string \<Rightarrow> string \<Rightarrow> repo \<Rightarrow> err + VideoAlarmEvent" where
  "GetVideoEvent tenant eid r = (case gm_get (rp_video r) (key [tenant, eid]) of None \<Rightarrow> Inl ErrNotFound | Some v \<Rightarrow> Inr v)"

definition SaveAIAnalysis :: "AIAnalysis \<Rightarrow> repo \<Rightarrow> repo" where
  "SaveAIAnalysis v r = r\<lparr>rp_ai := gm_put (key [ai_TenantID v, ai_AlarmID v, ai_KnowledgeScope v]) v (rp_ai r)\<rparr>"

definition GetAIAnalysis :: "string \<Rightarrow> string \<Rightarrow> string \<Rightarrow> repo \<Rightarrow> err + AIAnalysis" where
  "GetAIAnalysis tenant aid scope r = (case gm_get (rp_ai r) (key [tenant, aid, scope]) of None \<Rightarrow> Inl ErrNotFound | Some v \<Rightarrow> Inr v)"

text \<open>
  \<^verbatim>\<open>externalDataStore.Put\<close> of an entry of kind \<^verbatim>\<open>delivery\<close> with expected revision zero: it creates the
  entry, and an entry that exists is a conflict, \<open>ErrText ''conflict''\<close>.
\<close>

definition validExternalKey :: "string \<Rightarrow> string \<Rightarrow> string \<Rightarrow> bool" where
  "validExternalKey tenant kind eid \<longleftrightarrow> trim_space tenant \<noteq> [] \<and> trim_space kind \<noteq> [] \<and> trim_space eid \<noteq> []"

definition Put_delivery :: "int \<Rightarrow> string \<Rightarrow> string \<Rightarrow> string \<Rightarrow> Result \<Rightarrow> repo \<Rightarrow> (err + unit) \<times> repo" where
  "Put_delivery now tenant eid sourceID body r =
     (if \<not> validExternalKey tenant ''delivery'' eid then (Inl (ErrText ''invalid''), r)
      else let k = key [tenant, ''delivery'', eid] in
        case gm_get (rp_deliveries r) k of
          Some _ \<Rightarrow> (Inl (ErrText ''conflict''), r)
        | None \<Rightarrow> (Inr (), r\<lparr>rp_deliveries := gm_put k \<lparr>dl_SourceID = sourceID, dl_Status = ''PROCESSED'', dl_Revision = 1,
                     dl_CreatedAt = now, dl_UpdatedAt = now, dl_Body = body\<rparr> (rp_deliveries r)\<rparr>))"

end
