(* ===== verification/Engine_Base.thy ===== *)
theory Engine_Base
  imports Memory_Repo
begin

text \<open>
  The engine of \<^verbatim>\<open>internal/core\<close> as a state machine over the repository. A call of the repository is atomic, but other
  workers run between two calls: the schedule \<open>en_sched\<close> holds one event per call, which may change the repository in
  any way, let time pass and make the call fail with a transient error. With an empty schedule nobody
  interferes and no call fails. Publications to the bus and to the realtime channel are logged; their
  failures are scheduled the same way. The in-process mutexes only restrict the interleavings and are left out, as are
  logging, metrics and context cancellation. Random identities are drawn from the stream \<open>en_rand\<close>. The variable
  that \<^verbatim>\<open>RemoveAlarmAttachment\<close> shares with the function it passes on is \<open>en_removed\<close>; the raw message archive is \<open>en_archive\<close>.
\<close>

record UIActionEvent =
  ui_ID :: string
  ui_TenantID :: string
  ui_RuleID :: string
  ui_AlarmID :: string
  ui_DeviceID :: string
  ui_Action :: RuleAction
  ui_TriggeredAt :: int

text \<open>Payloads travel as JSON text; the values are kept here.\<close>

datatype payload =
    PRaw RawMessage
  | PStandard StandardMessage
  | PAlarm Alarm
  | PState DeviceState
  | PUIAction UIActionEvent
  | PObject "gval gomap"

record bus_event =
  be_Topic :: string
  be_Key :: string
  be_Payload :: payload

record rt_event =
  rt_Topic :: string
  rt_Payload :: payload
  rt_Retain :: bool

record sched_event =
  ev_repo :: "repo \<Rightarrow> repo"
  ev_fail :: bool
  ev_tick :: nat

text \<open>The protocol cache (\<^verbatim>\<open>protocol_cache.go\<close>): the cached result and when it was loaded.\<close>

record tenantProtocols =
  tp_bindings :: "((err + ProductProtocolBinding) \<times> int) gomap"
  tp_releases :: "(ProtocolRelease \<times> int) gomap"
  tp_products :: "((err + Product) \<times> int) gomap"

text \<open>
  The files of the raw message archive by bucket and key, and what happens to the next operation on it: it works, it is refused
  before anything is written, or the file it creates is cut off after some bytes.
\<close>

datatype archive_fault = ArchiveOk | ArchiveRefused | ArchiveTorn nat

record engine =
  en_repo :: repo
  en_sched :: "sched_event list"
  en_clock :: int
  en_rand :: "nat \<Rightarrow> string"
  en_drawn :: nat
  en_bus :: "bus_event list"
  en_bus_faults :: "bool list"
  en_rt :: "rt_event list"
  en_rt_faults :: "bool list"
  en_locator :: "(string \<Rightarrow> string \<Rightarrow> string \<Rightarrow> AlarmLocation option) option"
  en_identity :: string
  en_publishExternal :: bool
  en_paused :: bool
  en_ruleCache :: "(AlarmRule list \<times> int) gomap"
  en_protocols :: "tenantProtocols gomap"
  en_removed :: "AlarmAttachment option"
  en_archive :: "string gomap option"
  en_archive_faults :: "archive_fault list"

text \<open>Topics of \<^verbatim>\<open>internal/model\<close>.\<close>

definition TopicRaw :: string where "TopicRaw = ''iot.raw.message''"
definition TopicParsed :: string where "TopicParsed = ''iot.parsed.message''"
definition TopicPropertyReport :: string where "TopicPropertyReport = ''iot.property.report''"
definition TopicEventReport :: string where "TopicEventReport = ''iot.event.report''"
definition TopicDeviceBusiness :: string where "TopicDeviceBusiness = ''iot.device.business''"
definition TopicAlarmRaised :: string where "TopicAlarmRaised = ''iot.alarm.raised''"
definition TopicAlarmRecovered :: string where "TopicAlarmRecovered = ''iot.alarm.recovered''"
definition TopicAlarmConfirmed :: string where "TopicAlarmConfirmed = ''iot.alarm.confirmed''"
definition TopicUIAction :: string where "TopicUIAction = ''iot.ui-action''"

subsection \<open>Computations of the engine\<close>

type_synonym 'a eng = "engine \<Rightarrow> (err + 'a) \<times> engine"

definition eret :: "'a \<Rightarrow> 'a eng" where
  "eret x = (\<lambda>w. (Inr x, w))"

definition efail :: "err \<Rightarrow> 'a eng" where
  "efail e = (\<lambda>w. (Inl e, w))"

definition ebind :: "'a eng \<Rightarrow> ('a \<Rightarrow> 'b eng) \<Rightarrow> 'b eng" where
  "ebind m f = (\<lambda>w. case m w of (Inl e, w') \<Rightarrow> (Inl e, w') | (Inr x, w') \<Rightarrow> f x w')"

text \<open>The outcome of a call as a value, for code that looks at the error or drops it.\<close>

definition etry :: "'a eng \<Rightarrow> (err + 'a) eng" where
  "etry m = (\<lambda>w. case m w of (r, w') \<Rightarrow> (Inr r, w'))"

definition ethen :: "unit eng \<Rightarrow> 'b eng \<Rightarrow> 'b eng" where
  "ethen m k = ebind m (\<lambda>_. k)"

primrec efor :: "'a list \<Rightarrow> ('a \<Rightarrow> unit eng) \<Rightarrow> unit eng" where
  "efor [] f = eret ()"
| "efor (x # xs) f = ethen (f x) (efor xs f)"

primrec efold :: "'a list \<Rightarrow> 'b \<Rightarrow> ('a \<Rightarrow> 'b \<Rightarrow> 'b eng) \<Rightarrow> 'b eng" where
  "efold [] acc f = eret acc"
| "efold (x # xs) acc f = ebind (f x acc) (\<lambda>acc'. efold xs acc' f)"

definition enow :: "int eng" where
  "enow = (\<lambda>w. (Inr (en_clock w), w))"

definition easks :: "(engine \<Rightarrow> 'a) \<Rightarrow> 'a eng" where
  "easks f = (\<lambda>w. (Inr (f w), w))"

text \<open>\<^verbatim>\<open>id\<close> and \<^verbatim>\<open>NewAuditID\<close>: a prefix and fresh random hexadecimal digits.\<close>

definition new_id :: "string \<Rightarrow> string eng" where
  "new_id prefix = (\<lambda>w. (Inr (prefix @ ''_'' @ en_rand w (en_drawn w)), w\<lparr>en_drawn := en_drawn w + 1\<rparr>))"

subsection \<open>Calls of the repository\<close>

definition env_step :: "engine \<Rightarrow> bool \<times> engine" where
  "env_step w = (case en_sched w of
     [] \<Rightarrow> (False, w)
   | ev # evs \<Rightarrow> (ev_fail ev, w\<lparr>en_sched := evs, en_repo := ev_repo ev (en_repo w),
                               en_clock := en_clock w + int (ev_tick ev)\<rparr>))"

definition repo_op :: "(int \<Rightarrow> repo \<Rightarrow> (err + 'a) \<times> repo) \<Rightarrow> 'a eng" where
  "repo_op f = (\<lambda>w. case env_step w of (failed, w1) \<Rightarrow>
     if failed then (Inl ErrTransient, w1)
     else case f (en_clock w1) (en_repo w1) of (x, r) \<Rightarrow> (x, w1\<lparr>en_repo := r\<rparr>))"

definition repo_read :: "(repo \<Rightarrow> err + 'a) \<Rightarrow> 'a eng" where
  "repo_read f = repo_op (\<lambda>_ r. (f r, r))"

definition repo_val :: "(repo \<Rightarrow> 'a) \<Rightarrow> 'a eng" where
  "repo_val f = repo_read (\<lambda>r. Inr (f r))"

definition repo_upd :: "(repo \<Rightarrow> 'a \<times> repo) \<Rightarrow> 'a eng" where
  "repo_upd f = repo_op (\<lambda>_ r. case f r of (x, r') \<Rightarrow> (Inr x, r'))"

definition repo_put :: "(repo \<Rightarrow> repo) \<Rightarrow> unit eng" where
  "repo_put f = repo_upd (\<lambda>r. ((), f r))"

definition repo_try :: "(repo \<Rightarrow> (err + 'a) \<times> repo) \<Rightarrow> 'a eng" where
  "repo_try f = repo_op (\<lambda>_ r. f r)"

subsection \<open>Publications (publish.go)\<close>

definition bus_publish :: "string \<Rightarrow> string \<Rightarrow> payload \<Rightarrow> unit eng" where
  "bus_publish topic k p = (\<lambda>w.
     let fault = (case en_bus_faults w of [] \<Rightarrow> False | b # _ \<Rightarrow> b);
         w1 = w\<lparr>en_bus_faults := tl (en_bus_faults w)\<rparr>
     in if fault then (Inl ErrPublish, w1)
        else (Inr (), w1\<lparr>en_bus := en_bus w @ [\<lparr>be_Topic = topic, be_Key = k, be_Payload = p\<rparr>]\<rparr>))"

definition rt_publish :: "string \<Rightarrow> payload \<Rightarrow> bool \<Rightarrow> unit eng" where
  "rt_publish topic p retain = (\<lambda>w.
     let fault = (case en_rt_faults w of [] \<Rightarrow> False | b # _ \<Rightarrow> b);
         w1 = w\<lparr>en_rt_faults := tl (en_rt_faults w)\<rparr>
     in if fault then (Inl ErrPublish, w1)
        else (Inr (), w1\<lparr>en_rt := en_rt w @ [\<lparr>rt_Topic = topic, rt_Payload = p, rt_Retain = retain\<rparr>]\<rparr>))"

text \<open>A result that the code drops (\<^verbatim>\<open>_ = f()\<close>).\<close>

definition eignore :: "'a eng \<Rightarrow> unit eng" where
  "eignore m = ebind (etry m) (\<lambda>_. eret ())"

definition publishEvent :: "string \<Rightarrow> string \<Rightarrow> string \<Rightarrow> payload \<Rightarrow> unit eng" where
  "publishEvent topic k realtimeTopic p =
     ethen (eignore (bus_publish topic k p)) (eignore (rt_publish realtimeTopic p False))"

definition RecordAudit :: "AuditLog \<Rightarrow> unit eng" where
  "RecordAudit entry =
     ebind (if au_ID entry = [] then ebind (new_id ''audit'') (\<lambda>i. eret (entry\<lparr>au_ID := i\<rparr>)) else eret entry)
       (\<lambda>entry. eignore (repo_put (SaveAudit entry)))"

subsection \<open>The outbox relay (outbox.go)\<close>

definition outboxBatch :: nat where "outboxBatch = 100"

primrec publish_batch :: "OutboxEvent list \<Rightarrow> OutboxEvent list \<Rightarrow> (OutboxEvent list \<times> err option) eng" where
  "publish_batch [] sent = eret (sent, None)"
| "publish_batch (v # vs) sent =
     ebind (etry (bus_publish (ob_Topic v) (ob_Key v) (PAlarm (ob_Payload v)))) (\<lambda>r.
       case r of Inl e \<Rightarrow> eret (sent, Some e) | Inr _ \<Rightarrow> publish_batch vs (sent @ [v]))"

text \<open>The number of events sent, counted by their sequence numbers, and the first publication error.\<close>

definition DrainOutbox :: "nat \<Rightarrow> (nat \<times> err option) eng" where
  "DrainOutbox limit =
     ebind (repo_val (outbox_batch limit)) (\<lambda>batch.
     ebind (publish_batch batch []) (\<lambda>(sent, e).
     ethen (repo_put (outbox_remove sent))
       (eret (length (remdups (map ob_Seq sent)), e))))"

text \<open>
  \<^verbatim>\<open>flushOutbox\<close> drains until a batch is not full or a publication fails; the mutex that makes concurrent
  drains of one process wait is left out. The loop ends: a call either consumes an event of the schedule or, with nobody
  interfering, removes a full batch.
\<close>

lemma env_step_simps:
  "en_sched (snd (env_step w)) = tl (en_sched w)"
  "en_sched w = [] \<Longrightarrow> env_step w = (False, w)"
  by (cases "en_sched w"; simp add: env_step_def)+

lemma sched_repo_op [simp]: "en_sched (snd (repo_op f w)) = tl (en_sched w)"
  using env_step_simps(1) [of w] by (auto simp: repo_op_def split: prod.splits)

lemma sched_repo_calls [simp]:
  "en_sched (snd (repo_read g w)) = tl (en_sched w)" "en_sched (snd (repo_val h w)) = tl (en_sched w)"
  "en_sched (snd (repo_put p w)) = tl (en_sched w)" "en_sched (snd (repo_upd u w)) = tl (en_sched w)"
  by (simp_all add: repo_read_def repo_val_def repo_put_def repo_upd_def)

lemma publish_same [simp]:
  "en_sched (snd (bus_publish t k p w)) = en_sched w" "en_repo (snd (bus_publish t k p w)) = en_repo w"
  by (simp_all add: bus_publish_def Let_def)

lemma etry_snd [simp]: "snd (etry m w) = snd (m w)"
  by (simp add: etry_def split: prod.splits)

lemma etry_eq: "etry m w = (Inr (fst (m w)), snd (m w))"
  by (simp add: etry_def split: prod.splits)

lemma publish_batch_same [simp]:
  "en_sched (snd (publish_batch vs sent w)) = en_sched w" "en_repo (snd (publish_batch vs sent w)) = en_repo w"
proof (induction vs arbitrary: sent w)
  case (Cons v vs)
  { case 1 show ?case using Cons publish_same [of "ob_Topic v" "ob_Key v" "PAlarm (ob_Payload v)" w]
      by (auto simp: ebind_def etry_eq eret_def split: sum.splits) }
  { case 2 show ?case using Cons publish_same [of "ob_Topic v" "ob_Key v" "PAlarm (ob_Payload v)" w]
      by (auto simp: ebind_def etry_eq eret_def split: sum.splits) }
qed (simp_all add: eret_def)

lemma publish_batch_sent:
  "publish_batch vs sent w = (Inr (sent', e), w') \<Longrightarrow> \<exists>k. sent' = sent @ take k vs \<and> (e = None \<longrightarrow> k = length vs)"
proof (induction vs arbitrary: sent w)
  case (Cons v vs)
  show ?case
  proof (cases "fst (bus_publish (ob_Topic v) (ob_Key v) (PAlarm (ob_Payload v)) w)")
    case (Inl x)
    with Cons.prems have "sent' = sent @ take 0 (v # vs) \<and> (e = None \<longrightarrow> (0::nat) = length (v # vs))"
      by (auto simp: ebind_def etry_eq eret_def)
    then show ?thesis by blast
  next
    case (Inr x)
    with Cons.prems have "publish_batch vs (sent @ [v]) (snd (bus_publish (ob_Topic v) (ob_Key v) (PAlarm (ob_Payload v)) w)) = (Inr (sent', e), w')"
      by (simp add: ebind_def etry_eq)
    from Cons.IH [OF this] obtain k where "sent' = (sent @ [v]) @ take k vs" "e = None \<longrightarrow> k = length vs" by blast
    then have "sent' = sent @ take (Suc k) (v # vs) \<and> (e = None \<longrightarrow> Suc k = length (v # vs))" by simp
    then show ?thesis by blast
  qed
qed (auto simp: eret_def)

lemma ebind_eq: "ebind m f w = (case fst (m w) of Inl e \<Rightarrow> (Inl e, snd (m w)) | Inr x \<Rightarrow> f x (snd (m w)))"
  by (simp add: ebind_def split: prod.splits sum.splits)

lemma ethen_eq: "ethen m k w = (case fst (m w) of Inl e \<Rightarrow> (Inl e, snd (m w)) | Inr x \<Rightarrow> k (snd (m w)))"
  by (simp add: ethen_def ebind_eq)

lemma quiet_repo_op: "en_sched w = [] \<Longrightarrow> repo_op f w = (case f (en_clock w) (en_repo w) of (x, r) \<Rightarrow> (x, w\<lparr>en_repo := r\<rparr>))"
  by (simp add: repo_op_def env_step_simps)

lemma quiet_calls:
  assumes "en_sched w = []"
  shows "repo_read g w = (g (en_repo w), w)" "repo_val h w = (Inr (h (en_repo w)), w)"
    "repo_put p w = (Inr (), w\<lparr>en_repo := p (en_repo w)\<rparr>)"
    "repo_upd u w = (case u (en_repo w) of (x, r) \<Rightarrow> (Inr x, w\<lparr>en_repo := r\<rparr>))"
    "repo_try t w = (case t (en_repo w) of (x, r) \<Rightarrow> (x, w\<lparr>en_repo := r\<rparr>))"
  using assms by (simp_all add: repo_read_def repo_val_def repo_put_def repo_upd_def repo_try_def quiet_repo_op split: prod.splits)

lemma DrainOutbox_quiet:
  assumes "en_sched w = []" "DrainOutbox limit w = (Inr (n, e), w')"
  obtains k where "k \<le> length (rp_outbox (en_repo w))" "n \<le> k"
    "en_sched w' = []" "en_repo w' = outbox_remove (take k (outbox_batch limit (en_repo w))) (en_repo w)"
    "k \<le> limit" "e = None \<longrightarrow> k = length (outbox_batch limit (en_repo w))"
proof -
  let ?batch = "outbox_batch limit (en_repo w)"
  obtain sent e' w1 where p: "publish_batch ?batch [] w = (Inr (sent, e'), w1)"
    using assms by (auto simp: DrainOutbox_def ebind_eq quiet_calls split: sum.splits) (metis prod.collapse)
  have w1: "en_sched w1 = []" "en_repo w1 = en_repo w"
    using publish_batch_same [of ?batch "[]" w] assms(1) p by simp_all
  obtain k where k: "sent = take k ?batch" "e' = None \<longrightarrow> k = length ?batch" using publish_batch_sent [OF p] by auto
  have r: "n = length (remdups (map ob_Seq sent))" "e = e'" "w' = w1\<lparr>en_repo := outbox_remove sent (en_repo w)\<rparr>"
    using assms p w1 by (auto simp: DrainOutbox_def ebind_eq ethen_eq quiet_calls eret_def)
  define m where "m = min k (length ?batch)"
  have m: "sent = take m ?batch" "m \<le> length ?batch" using k by (simp_all add: m_def min_def)
  show ?thesis
  proof (rule that [of m])
    show "m \<le> length (rp_outbox (en_repo w))" "m \<le> limit" using m(2) by (simp_all add: outbox_batch_def)
    show "n \<le> m" using r(1) m length_remdups_leq [of "map ob_Seq sent"] by simp
    show "e = None \<longrightarrow> m = length ?batch" using k r by (simp add: m_def)
  qed (use w1 r m in simp_all)
qed

lemma outbox_remove_take: "k \<le> length (rp_outbox r) \<Longrightarrow>
  length (rp_outbox (outbox_remove (take k (rp_outbox r)) r)) \<le> length (rp_outbox r) - k"
proof -
  let ?p = "\<lambda>v. ob_Seq v \<notin> set (map ob_Seq (take k (rp_outbox r)))"
  assume "k \<le> length (rp_outbox r)"
  have "filter ?p (rp_outbox r) = filter ?p (take k (rp_outbox r)) @ filter ?p (drop k (rp_outbox r))"
    by (metis append_take_drop_id filter_append)
  moreover have "filter ?p (take k (rp_outbox r)) = []" by (auto simp: filter_empty_conv)
  ultimately show ?thesis by (simp add: outbox_remove_def) (metis length_drop length_filter_le)
qed

lemma DrainOutbox_progress:
  assumes "DrainOutbox limit w = (Inr (n, e), w')" "limit \<le> n" "0 < limit"
  shows "length (en_sched w') < length (en_sched w) \<or>
    (length (en_sched w') = length (en_sched w) \<and> length (rp_outbox (en_repo w')) < length (rp_outbox (en_repo w)))"
proof (cases "en_sched w")
  case Nil
  from DrainOutbox_quiet [OF Nil assms(1)] obtain k where k: "k \<le> length (rp_outbox (en_repo w))" "n \<le> k" "k \<le> limit"
    "en_sched w' = []" "en_repo w' = outbox_remove (take k (outbox_batch limit (en_repo w))) (en_repo w)" by metis
  then have "take k (outbox_batch limit (en_repo w)) = take k (rp_outbox (en_repo w))" by (simp add: outbox_batch_def)
  with k assms outbox_remove_take [of k "en_repo w"] show ?thesis using Nil by simp
next
  case (Cons ev evs)
  have "en_sched w' = tl (tl (en_sched w))"
    using assms(1) by (auto simp: DrainOutbox_def ebind_eq ethen_eq eret_def split: sum.splits prod.splits)
  with Cons show ?thesis by (simp add: less_Suc_eq_le)
qed

function flushOutbox :: "unit eng" where
  "flushOutbox w = (case DrainOutbox outboxBatch w of
     (Inl _, w') \<Rightarrow> (Inr (), w')
   | (Inr (n, e), w') \<Rightarrow> if e \<noteq> None \<or> n < outboxBatch then (Inr (), w') else flushOutbox w')"
  by auto
termination
proof (relation "measures [\<lambda>w. length (en_sched w), \<lambda>w. length (rp_outbox (en_repo w))]", simp, goal_cases)
  case (1 w x w' y n e)
  then have "DrainOutbox outboxBatch w = (Inr (n, e), w')" "outboxBatch \<le> n" "0 < outboxBatch"
    by (auto simp: outboxBatch_def)
  from DrainOutbox_progress [OF this] show ?case by auto
qed

declare flushOutbox.simps [simp del]

subsection \<open>Predicates kept by computations\<close>

definition keeps :: "(engine \<Rightarrow> bool) \<Rightarrow> 'a eng \<Rightarrow> bool" where
  "keeps P m \<longleftrightarrow> (\<forall>w. P w \<longrightarrow> P (snd (m w)))"

named_theorems keep_rules \<open>rules that split a computation into its parts\<close>

lemma keepsD: "keeps P m \<Longrightarrow> P w \<Longrightarrow> P (snd (m w))"
  by (simp add: keeps_def)

lemma keepsI: "(\<And>w. P w \<Longrightarrow> P (snd (m w))) \<Longrightarrow> keeps P m"
  by (simp add: keeps_def)

lemma keeps_eret [keep_rules]: "keeps P (eret x)"
  by (simp add: keeps_def eret_def)

lemma keeps_efail [keep_rules]: "keeps P (efail e)"
  by (simp add: keeps_def efail_def)

lemma keeps_enow [keep_rules]: "keeps P enow"
  by (simp add: keeps_def enow_def)

lemma keeps_easks [keep_rules]: "keeps P (easks f)"
  by (simp add: keeps_def easks_def)

lemma keeps_ebind [keep_rules]: "keeps P m \<Longrightarrow> (\<And>x. keeps P (f x)) \<Longrightarrow> keeps P (ebind m f)"
  by (auto simp: keeps_def ebind_eq split: sum.splits)

lemma keeps_ethen [keep_rules]: "keeps P m \<Longrightarrow> keeps P k \<Longrightarrow> keeps P (ethen m k)"
  unfolding ethen_def by (intro keeps_ebind)

lemma keeps_etry [keep_rules]: "keeps P m \<Longrightarrow> keeps P (etry m)"
  by (simp add: keeps_def)

lemma keeps_eignore [keep_rules]: "keeps P m \<Longrightarrow> keeps P (eignore m)"
  unfolding eignore_def by (intro keep_rules)

lemma keeps_if [keep_rules]: "(b \<Longrightarrow> keeps P m) \<Longrightarrow> (\<not> b \<Longrightarrow> keeps P k) \<Longrightarrow> keeps P (if b then m else k)"
  by simp

lemma keeps_sum [keep_rules]: "(\<And>e. keeps P (f e)) \<Longrightarrow> (\<And>x. keeps P (g x)) \<Longrightarrow> keeps P (case s of Inl e \<Rightarrow> f e | Inr x \<Rightarrow> g x)"
  by (cases s) simp_all

lemma keeps_option [keep_rules]: "keeps P m \<Longrightarrow> (\<And>x. keeps P (g x)) \<Longrightarrow> keeps P (case s of None \<Rightarrow> m | Some x \<Rightarrow> g x)"
  by (cases s) simp_all

lemma keeps_prod [keep_rules]: "(\<And>a b. keeps P (f a b)) \<Longrightarrow> keeps P (case s of (a, b) \<Rightarrow> f a b)"
  by (cases s) simp

lemma keeps_let [keep_rules]: "(\<And>x. keeps P (f x)) \<Longrightarrow> keeps P (let x = a in f x)"
  by simp

lemma keeps_efor [keep_rules]: "(\<And>x. keeps P (f x)) \<Longrightarrow> keeps P (efor xs f)"
  by (induction xs) (auto intro: keep_rules)

lemma keeps_efold [keep_rules]: "(\<And>x acc. keeps P (f x acc)) \<Longrightarrow> keeps P (efold xs acc f)"
  by (induction xs arbitrary: acc) (auto intro: keep_rules)

text \<open>
  A predicate that other workers, publications, caches and the draw of identities keep, and that only looks at the alarms,
  the component states, the device states and the rules of the repository.
\<close>

locale stable_world =
  fixes P :: "engine \<Rightarrow> bool"
  assumes env: "P w \<Longrightarrow> P (snd (env_step w))"
    and logs: "P w \<Longrightarrow> P (w\<lparr>en_bus := a\<rparr>)" "P w \<Longrightarrow> P (w\<lparr>en_bus_faults := b\<rparr>)"
      "P w \<Longrightarrow> P (w\<lparr>en_rt := c\<rparr>)" "P w \<Longrightarrow> P (w\<lparr>en_rt_faults := b\<rparr>)"
    and rule_cache: "P w \<Longrightarrow> P (w\<lparr>en_ruleCache := gm_put t (ListRules t (en_repo w), n) (en_ruleCache w)\<rparr>)"
      "P w \<Longrightarrow> P (w\<lparr>en_ruleCache := gm_del t (en_ruleCache w)\<rparr>)"
    and caches: "P w \<Longrightarrow> P (w\<lparr>en_protocols := p\<rparr>)"
      "P w \<Longrightarrow> P (w\<lparr>en_removed := att\<rparr>)"
      "P w \<Longrightarrow> P (w\<lparr>en_archive := store\<rparr>)" "P w \<Longrightarrow> P (w\<lparr>en_archive_faults := af\<rparr>)" "P w \<Longrightarrow> P (w\<lparr>en_clock := now\<rparr>)"
    and draw: "P w \<Longrightarrow> P (w\<lparr>en_drawn := Suc (en_drawn w)\<rparr>)"
    and frame: "P w \<Longrightarrow> rp_alarms r = rp_alarms (en_repo w) \<Longrightarrow> rp_componentAlarms r = rp_componentAlarms (en_repo w) \<Longrightarrow>
      rp_states r = rp_states (en_repo w) \<Longrightarrow> rp_rules r = rp_rules (en_repo w) \<Longrightarrow> P (w\<lparr>en_repo := r\<rparr>)"
begin

lemma keeps_repo_op:
  assumes "\<And>w x r. P w \<Longrightarrow> f (en_clock w) (en_repo w) = (x, r) \<Longrightarrow> P (w\<lparr>en_repo := r\<rparr>)"
  shows "keeps P (repo_op f)"
proof (rule keepsI)
  fix w assume "P w"
  then have "P (snd (env_step w))" by (rule env)
  then show "P (snd (repo_op f w))" using assms by (auto simp: repo_op_def split: prod.splits)
qed

lemma keeps_repo_read [keep_rules]: "keeps P (repo_read f)"
  unfolding repo_read_def by (rule keeps_repo_op) (auto intro: frame)

lemma keeps_repo_val [keep_rules]: "keeps P (repo_val f)"
  unfolding repo_val_def by (rule keeps_repo_read)

lemma keeps_frame_op:
  assumes "\<And>now r. rp_alarms (snd (f now r)) = rp_alarms r" "\<And>now r. rp_componentAlarms (snd (f now r)) = rp_componentAlarms r"
    "\<And>now r. rp_states (snd (f now r)) = rp_states r" "\<And>now r. rp_rules (snd (f now r)) = rp_rules r"
  shows "keeps P (repo_op f)"
proof (rule keeps_repo_op)
  fix w x r assume "P w" "f (en_clock w) (en_repo w) = (x, r)"
  then show "P (w\<lparr>en_repo := r\<rparr>)" using assms [of "en_clock w" "en_repo w"] by (intro frame) simp_all
qed

lemma keeps_frame_put:
  assumes "\<And>r. rp_alarms (f r) = rp_alarms r" "\<And>r. rp_componentAlarms (f r) = rp_componentAlarms r" "\<And>r. rp_states (f r) = rp_states r"
    "\<And>r. rp_rules (f r) = rp_rules r"
  shows "keeps P (repo_put f)"
  unfolding repo_put_def repo_upd_def by (rule keeps_frame_op) (simp_all add: assms)

lemma keeps_bus [keep_rules]: "keeps P (bus_publish t k p)"
  by (rule keepsI) (auto simp: bus_publish_def Let_def intro: logs)

lemma keeps_rt [keep_rules]: "keeps P (rt_publish t p b)"
  by (rule keepsI) (auto simp: rt_publish_def Let_def intro: logs)

lemma keeps_publishEvent [keep_rules]: "keeps P (publishEvent t k rt p)"
  unfolding publishEvent_def by (intro keep_rules)

lemma keeps_new_id [keep_rules]: "keeps P (new_id prefix)"
  by (rule keepsI) (simp add: new_id_def draw)

lemma keeps_RecordAudit [keep_rules]: "keeps P (RecordAudit entry)"
  unfolding RecordAudit_def by (intro keep_rules keeps_frame_put) (simp_all add: SaveAudit_def)

lemma keeps_publish_batch [keep_rules]: "keeps P (publish_batch vs sent)"
  by (induction vs arbitrary: sent) (auto intro!: keep_rules)

lemma keeps_DrainOutbox [keep_rules]: "keeps P (DrainOutbox n)"
  unfolding DrainOutbox_def by (intro keep_rules keeps_frame_put) (simp_all add: outbox_remove_def)

lemma keeps_flushOutbox [keep_rules]: "keeps P flushOutbox"
proof (rule keepsI)
  fix w
  show "P w \<Longrightarrow> P (snd (flushOutbox w))"
  proof (induction w rule: flushOutbox.induct)
    case (1 w)
    have "P (snd (DrainOutbox outboxBatch w))" using keepsD [OF keeps_DrainOutbox 1(2)] .
    then show ?case using 1(1) by (subst flushOutbox.simps) (auto split: prod.splits sum.splits)
  qed
qed

end

end
