(* ===== verification/Rules.thy ===== *)
theory Rules
  imports Engine_Base
begin

text \<open>
  Alarm rules: field lookup, comparison and matching (\<^verbatim>\<open>rules.go\<close>), the rewriting of expressions, the
  validation of rule drafts (\<^verbatim>\<open>rule_validation.go\<close>) and the thing-model quality check
  (\<^verbatim>\<open>thing_quality.go\<close>). The record \<open>golib\<close> collects what the code takes from outside the
  repository: the text form of floats and its inverse, JSON decoding of text, the media admission of video events
  (URL syntax and allowed hosts), and the third-party rule engine.
\<close>

record golib =
  lb_ftoa :: "f64 \<Rightarrow> string"
  lb_atof :: "string \<Rightarrow> f64 option"
  lb_json_map :: "string \<Rightarrow> gval gomap option"
  lb_json_video :: "string \<Rightarrow> VideoAlarmEvent option"
  lb_video_value :: "VideoAlarmEvent \<Rightarrow> gval"
  lb_media_error :: "VideoAlarmEvent \<Rightarrow> string option"
  lb_compiles :: "string \<Rightarrow> bool"
  lb_gengine :: "string \<Rightarrow> (string \<times> gval) list \<Rightarrow> StandardMessage \<Rightarrow> bool option"

subsection \<open>Numbers and text of dynamic values\<close>

text \<open>\<^verbatim>\<open>float64(n)\<close>: exact up to 53 bits, otherwise rounded to the nearest, ties to even.\<close>

fun bit_length :: "nat \<Rightarrow> nat" where
  "bit_length n = (if n = 0 then 0 else Suc (bit_length (n div 2)))"

declare bit_length.simps [simp del]

definition round53 :: "nat \<Rightarrow> nat" where
  "round53 n =
     (if n \<le> 2 ^ 53 then n
      else let e = bit_length n - 53; q = n div 2 ^ e; r = n mod 2 ^ e; half = 2 ^ (e - 1)
           in (if half < r \<or> (half = r \<and> odd q) then q + 1 else q) * 2 ^ e)"

definition f64_of_int :: "int \<Rightarrow> f64" where
  "f64_of_int n = FNum (if n < 0 then - of_nat (round53 (nat (- n))) else of_nat (round53 (nat n)))"

definition asFloat :: "golib \<Rightarrow> gval \<Rightarrow> f64 option" where
  "asFloat lb v = (case v of
     VFloat x \<Rightarrow> Some x
   | VFloat32 x \<Rightarrow> Some x
   | VInt k n \<Rightarrow> if k = KInt \<or> k = KInt64 \<or> k = KInt32 then Some (f64_of_int n) else None
   | VBool b \<Rightarrow> Some (if b then FNum 1 else FNum 0)
   | VStr s \<Rightarrow> lb_atof lb s
   | _ \<Rightarrow> None)"

definition join_sp :: "string list \<Rightarrow> string" where
  "join_sp xs = concat (map (\<lambda>(i, x). if i = 0 then x else CHR '' '' # x) (enumerate 0 xs))"

text \<open>\<^verbatim>\<open>fmt.Sprint\<close> of one value; maps print their keys in order.\<close>

fun sprint :: "golib \<Rightarrow> gval \<Rightarrow> string" where
  "sprint lb VNil = ''<nil>''"
| "sprint lb (VBool b) = (if b then ''true'' else ''false'')"
| "sprint lb (VInt _ n) = int_digits n"
| "sprint lb (VFloat x) = lb_ftoa lb x"
| "sprint lb (VFloat32 x) = lb_ftoa lb x"
| "sprint lb (VStr s) = s"
| "sprint lb (VBytes s) = ''['' @ join_sp (map (\<lambda>c. nat_digits (of_char c)) s) @ '']''"
| "sprint lb (VList vs) = ''['' @ join_sp (map (sprint lb) vs) @ '']''"
| "sprint lb (VMap m) = ''map['' @ join_sp (map (\<lambda>(k, t). k @ '':'' @ t) (sort_key fst (map (\<lambda>(k, v). (k, sprint lb v)) m))) @ '']''"

subsection \<open>Comparison\<close>

definition compare_float :: "string \<Rightarrow> f64 \<Rightarrow> f64 \<Rightarrow> bool" where
  "compare_float op a b =
     (if op = ''>'' \<or> op = ''gt'' then f64_lt b a
      else if op = ''>='' \<or> op = ''gte'' then f64_le b a
      else if op = ''<'' \<or> op = ''lt'' then f64_lt a b
      else if op = ''<='' \<or> op = ''lte'' then f64_le a b
      else if op = ''!='' \<or> op = ''ne'' then \<not> f64_eq a b
      else f64_eq a b)"

text \<open>Everything but \<^verbatim>\<open>in\<close>, for an operator in lower case without outer blanks.\<close>

definition compare_scalar :: "golib \<Rightarrow> gval \<Rightarrow> string \<Rightarrow> gval \<Rightarrow> bool" where
  "compare_scalar lb a op b =
     (if op = ''exists'' then a \<noteq> VNil
      else if op = ''contains'' then contains_sub (sprint lb a) (sprint lb b)
      else case (asFloat lb a, asFloat lb b) of
        (Some af, Some bf) \<Rightarrow> compare_float op af bf
      | _ \<Rightarrow> let as = to_lower (sprint lb a); bs = to_lower (sprint lb b)
             in if op = ''!='' \<or> op = ''ne'' then as \<noteq> bs else as = bs)"

definition slice_items :: "gval \<Rightarrow> gval list" where
  "slice_items b = (case b of VList vs \<Rightarrow> vs | VBytes s \<Rightarrow> map (\<lambda>c. VInt KUint8 (int (of_char c))) s | _ \<Rightarrow> [])"

definition compare :: "golib \<Rightarrow> gval \<Rightarrow> string \<Rightarrow> gval \<Rightarrow> bool" where
  "compare lb a op b =
     (let op = to_lower (trim_space op) in
      if op = ''in'' then list_ex (\<lambda>x. compare_scalar lb a ''eq'' x) (slice_items b)
      else compare_scalar lb a op b)"

subsection \<open>Matching\<close>

definition fieldValue :: "StandardMessage \<Rightarrow> string \<Rightarrow> gval option" where
  "fieldValue msg path =
     (if has_prefix path ''properties.'' then gm_get (sm_Properties msg) (trim_prefix path ''properties.'')
      else if has_prefix path ''tags.'' then map_option VStr (gm_get (sm_Tags msg) (trim_prefix path ''tags.''))
      else if has_prefix path ''event.'' then gm_get (sm_Event msg) (trim_prefix path ''event.'')
      else case gm_get (sm_Properties msg) path of
        Some v \<Rightarrow> Some v
      | None \<Rightarrow> (case gm_get (sm_Tags msg) path of Some v \<Rightarrow> Some (VStr v) | None \<Rightarrow> gm_get (sm_Event msg) path))"

definition condition_holds :: "golib \<Rightarrow> StandardMessage \<Rightarrow> RuleCondition \<Rightarrow> bool" where
  "condition_holds lb msg c =
     (case fieldValue msg (rc_Field c) of None \<Rightarrow> False | Some v \<Rightarrow> compare lb v (rc_Operator c) (rc_Value c))"

fun match_loop :: "(RuleCondition \<Rightarrow> bool) \<Rightarrow> bool \<Rightarrow> RuleCondition list \<Rightarrow> bool" where
  "match_loop ok allof [] = allof"
| "match_loop ok allof (c # cs) =
     (let matched = ok c in
      if allof \<and> \<not> matched then False else if \<not> allof \<and> matched then True else match_loop ok allof cs)"

definition MatchConditions :: "golib \<Rightarrow> RuleCondition list \<Rightarrow> StandardMessage \<Rightarrow> bool" where
  "MatchConditions lb cs msg = (if cs = [] then False else match_loop (condition_holds lb msg) True cs)"

definition ruleCovers :: "AlarmRule \<Rightarrow> StandardMessage \<Rightarrow> bool" where
  "ruleCovers rule msg \<longleftrightarrow> (ar_TenantID rule = [] \<or> ar_TenantID rule = sm_TenantID msg) \<and>
     (ar_ProductID rule = [] \<or> ar_ProductID rule = sm_ProductID msg)"

subsection \<open>Expressions\<close>

datatype expr_error = ExprEmpty | ExprTooLong | ExprUnterminated | ExprForbidden string | ExprCompile | ExprExecute

definition backslash :: char where "backslash = CHR 0x5C"
definition dquote :: char where "dquote = CHR 0x22"
definition squote :: char where "squote = CHR 0x27"

text \<open>The rest of a string literal after its opening quote, and what follows; \<open>None\<close> when it is not closed.\<close>

fun scan_string :: "char \<Rightarrow> string \<Rightarrow> (string \<times> string) option" where
  "scan_string q [] = None"
| "scan_string q [c] = (if c \<noteq> backslash \<and> c = q then Some ([c], []) else None)"
| "scan_string q (c # d # s) =
     (if c = backslash then map_option (\<lambda>(x, r). (c # d # x, r)) (scan_string q s)
      else if c = q then
        (if q = dquote \<and> d = dquote then map_option (\<lambda>(x, r). (c # d # x, r)) (scan_string q s)
         else Some ([c], d # s))
      else map_option (\<lambda>(x, r). (c # x, r)) (scan_string q (d # s)))"

definition is_lower :: "char \<Rightarrow> bool" where "is_lower c = (let n = (of_char c :: nat) in 97 \<le> n \<and> n \<le> 122)"
definition is_upper :: "char \<Rightarrow> bool" where "is_upper c = (let n = (of_char c :: nat) in 65 \<le> n \<and> n \<le> 90)"
definition is_digit :: "char \<Rightarrow> bool" where "is_digit c = (let n = (of_char c :: nat) in 48 \<le> n \<and> n \<le> 57)"

definition expressionIdentifier :: "char \<Rightarrow> bool" where
  "expressionIdentifier c \<longleftrightarrow> is_lower c \<or> is_upper c \<or> is_digit c \<or> c = CHR ''_''"

text \<open>White space and field characters of the regular expression \<^verbatim>\<open>expressionField\<close>.\<close>

definition re_space :: "char \<Rightarrow> bool" where
  "re_space c = (let n = (of_char c :: nat) in n = 32 \<or> n = 9 \<or> n = 10 \<or> n = 12 \<or> n = 13)"

definition field_char :: "char \<Rightarrow> bool" where
  "field_char c \<longleftrightarrow> is_lower c \<or> is_upper c \<or> is_digit c \<or> c = CHR ''_'' \<or> c = CHR ''.'' \<or> c = CHR ''-''"

text \<open>After the kind: blanks, bracket, quoted field, bracket. The result is the field and the remaining text.\<close>

definition field_index :: "string \<Rightarrow> (string \<times> string) option" where
  "field_index s =
     (case dropWhile re_space s of
        c # s1 \<Rightarrow> if c \<noteq> CHR ''['' then None else
          (case dropWhile re_space s1 of
             q # s2 \<Rightarrow> if q \<noteq> dquote \<and> q \<noteq> squote then None else
               let field = takeWhile field_char s2 in
               if field = [] then None else
               (case dropWhile field_char s2 of
                  q' # s3 \<Rightarrow> if q' \<noteq> q then None else
                    (case dropWhile re_space s3 of
                       b # s4 \<Rightarrow> if b = CHR '']'' then Some (field, s4) else None
                     | [] \<Rightarrow> None)
                | [] \<Rightarrow> None)
           | [] \<Rightarrow> None)
      | [] \<Rightarrow> None)"

definition expressionField :: "string \<Rightarrow> (string \<times> string \<times> string) option" where
  "expressionField s =
     (let try = (\<lambda>kind. if has_prefix s kind then map_option (\<lambda>(f, r). (kind, f, r)) (field_index (trim_prefix s kind)) else None)
      in case try ''Properties'' of Some x \<Rightarrow> Some x
         | None \<Rightarrow> (case try ''Tags'' of Some x \<Rightarrow> Some x | None \<Rightarrow> try ''Event''))"

definition forbidden_tokens :: "string list" where
  "forbidden_tokens = [''rule'', ''begin'', ''end'', ''import'', ''exec'', ''system'']"

definition binding_name :: "nat \<Rightarrow> string" where
  "binding_name i = ''iotField'' @ nat_digits i"

text \<open>The position of a field among the bindings so far, and the bindings with it added.\<close>

fun field_pos :: "'a \<Rightarrow> 'a list \<Rightarrow> nat option" where
  "field_pos x [] = None"
| "field_pos x (y # ys) = (if x = y then Some 0 else map_option Suc (field_pos x ys))"

definition bind_field :: "(string \<times> string) list \<Rightarrow> string \<times> string \<Rightarrow> nat \<times> (string \<times> string) list" where
  "bind_field bs kf = (case field_pos kf bs of Some i \<Rightarrow> (i, bs) | None \<Rightarrow> (length bs, bs @ [kf]))"

lemma scan_string_shorter: "scan_string q s = Some (x, r) \<Longrightarrow> length r < length s"
  by (induction q s arbitrary: x rule: scan_string.induct) (fastforce split: if_splits)+

lemma scan_string_split: "scan_string q s = Some (x, r) \<Longrightarrow> s = x @ r"
  by (induction q s arbitrary: x rule: scan_string.induct) (auto split: if_splits)

lemma dropWhile_shorter: "dropWhile p s = x # r \<Longrightarrow> length r < length s"
  using length_dropWhile_le [of p s] by simp

lemma field_index_shorter:
  assumes "field_index s = Some (f, r)"
  shows "length r < length s"
proof -
  obtain c s1 q s2 q' s3 b where d: "dropWhile re_space s = c # s1" "dropWhile re_space s1 = q # s2"
    "dropWhile field_char s2 = q' # s3" "dropWhile re_space s3 = b # r"
    using assms unfolding field_index_def Let_def by (auto split: list.splits if_splits)
  show ?thesis using d [THEN dropWhile_shorter] by linarith
qed

lemma length_trim_prefix: "length (trim_prefix s p) \<le> length s"
  by (simp add: trim_prefix_def)

lemma expressionField_shorter: "expressionField s = Some (k, f, r) \<Longrightarrow> length r < length s"
proof -
  have *: "length r < length s" if "field_index (trim_prefix s p) = Some (f, r)" for p
    using field_index_shorter [OF that] length_trim_prefix [of s p] by simp
  assume "expressionField s = Some (k, f, r)"
  then show ?thesis by (auto simp: expressionField_def Let_def split: option.splits if_splits dest!: *)
qed

definition prepend :: "string \<Rightarrow> expr_error + (string \<times> 'b) \<Rightarrow> expr_error + (string \<times> 'b)" where
  "prepend x res = (case res of Inl e \<Rightarrow> Inl e | Inr (y, b) \<Rightarrow> Inr (x @ y, b))"

function rewriteExpressionFields :: "(string \<times> string) list \<Rightarrow> string \<Rightarrow> expr_error + (string \<times> (string \<times> string) list)" where
  "rewriteExpressionFields bs [] = Inr ([], bs)"
| "rewriteExpressionFields bs (c # s) =
     (if c = dquote \<or> c = squote then
        (case scan_string c s of
           None \<Rightarrow> Inl ExprUnterminated
         | Some (x, r) \<Rightarrow> prepend (c # x) (rewriteExpressionFields bs r))
      else if c \<in> {CHR ''{'', CHR ''}'', CHR '';''} then Inl (ExprForbidden [c])
      else if \<not> expressionIdentifier c \<or> is_digit c then prepend [c] (rewriteExpressionFields bs s)
      else case expressionField (c # s) of
        None \<Rightarrow>
          (let token = c # takeWhile expressionIdentifier s in
           if to_lower token \<in> set forbidden_tokens then Inl (ExprForbidden token)
           else prepend token (rewriteExpressionFields bs (dropWhile expressionIdentifier s)))
      | Some (kind, field, r) \<Rightarrow>
          (case bind_field bs (kind, field) of (i, bs') \<Rightarrow>
             prepend (binding_name i) (rewriteExpressionFields bs' r)))"
  by pat_completeness auto
termination
  by (relation "measure (\<lambda>(_, s). length s)")
    (auto dest!: scan_string_shorter expressionField_shorter simp: length_dropWhile_le less_Suc_eq_le)

declare rewriteExpressionFields.simps(2) [simp del]

text \<open>\<^verbatim>\<open>buildExpression\<close> on the trimmed text: the rule text for the engine and the bindings.\<close>

definition rule_text :: "string \<Rightarrow> string" where
  "rule_text rewritten = ''rule '' @ dquote # ''iot_expression'' @ dquote # '' '' @ dquote # ''controlled expression'' @ dquote #
     char_of (10 :: nat) # ''begin'' @ char_of (10 :: nat) # ''if '' @ rewritten @ '' { MarkMatched() }'' @ char_of (10 :: nat) # ''end''"

definition buildExpression :: "golib \<Rightarrow> string \<Rightarrow> expr_error + (string \<times> (string \<times> string) list)" where
  "buildExpression lb expression =
     (if expression = [] then Inl ExprEmpty
      else if length expression > 4096 then Inl ExprTooLong
      else case rewriteExpressionFields [] expression of
        Inl e \<Rightarrow> Inl e
      | Inr (rewritten, bindings) \<Rightarrow>
          if lb_compiles lb (rule_text rewritten) then Inr (rule_text rewritten, bindings) else Inl ExprCompile)"

text \<open>The value a binding gets from a message: zero when the field is missing.\<close>

definition binding_value :: "StandardMessage \<Rightarrow> string \<times> string \<Rightarrow> gval" where
  "binding_value msg kf =
     (case kf of (kind, field) \<Rightarrow>
        let found = (if kind = ''Properties'' then gm_get (sm_Properties msg) field
                     else if kind = ''Event'' then gm_get (sm_Event msg) field
                     else if kind = ''Tags'' then map_option VStr (gm_get (sm_Tags msg) field) else None)
        in case found of Some v \<Rightarrow> v | None \<Rightarrow> VFloat (FNum 0))"

definition evaluateGengine :: "golib \<Rightarrow> string \<Rightarrow> StandardMessage \<Rightarrow> bool \<Rightarrow> expr_error + bool" where
  "evaluateGengine lb expression msg execute =
     (case buildExpression lb (trim_space expression) of
        Inl e \<Rightarrow> Inl e
      | Inr (text_of_rule, bindings) \<Rightarrow>
          if \<not> execute then Inr False
          else let dc = map (\<lambda>(i, kf). (binding_name i, binding_value msg kf)) (enumerate 0 bindings)
               in case lb_gengine lb text_of_rule dc msg of None \<Rightarrow> Inl ExprExecute | Some matched \<Rightarrow> Inr matched)"

definition EvaluateGengineExpression :: "golib \<Rightarrow> string \<Rightarrow> StandardMessage \<Rightarrow> expr_error + bool" where
  "EvaluateGengineExpression lb expression msg = evaluateGengine lb expression msg True"

definition MatchRule :: "golib \<Rightarrow> AlarmRule \<Rightarrow> StandardMessage \<Rightarrow> bool" where
  "MatchRule lb rule msg =
     (if \<not> ar_Enabled rule \<or> \<not> ruleCovers rule msg then False
      else if trim_space (ar_Expression rule) \<noteq> [] then EvaluateGengineExpression lb (ar_Expression rule) msg = Inr True
      else if ar_Conditions rule = [] then False
      else match_loop (condition_holds lb msg) (\<not> equal_fold (ar_Match rule) ''any'') (ar_Conditions rule))"

subsection \<open>Properties of matching\<close>

lemma match_loop_iff: "match_loop ok True cs = list_all ok cs" "match_loop ok False cs = list_ex ok cs"
  by (induction cs) (auto simp: Let_def)

lemma MatchConditions_iff: "MatchConditions lb cs msg \<longleftrightarrow> cs \<noteq> [] \<and> list_all (condition_holds lb msg) cs"
  by (auto simp: MatchConditions_def match_loop_iff)

lemma MatchRule_iff:
  assumes "trim_space (ar_Expression rule) = []"
  shows "MatchRule lb rule msg \<longleftrightarrow> ar_Enabled rule \<and> ruleCovers rule msg \<and> ar_Conditions rule \<noteq> [] \<and>
    (if equal_fold (ar_Match rule) ''any'' then list_ex (condition_holds lb msg) (ar_Conditions rule)
     else list_all (condition_holds lb msg) (ar_Conditions rule))"
  using assms by (auto simp: MatchRule_def match_loop_iff)

subsection \<open>Properties of the rewriting\<close>

lemma prepend_Inr: "prepend x res = Inr (out, b) \<longleftrightarrow> (\<exists>y. res = Inr (y, b) \<and> out = x @ y)"
  by (auto simp: prepend_def split: sum.splits)

lemma field_pos_None: "field_pos x ys = None \<longleftrightarrow> x \<notin> set ys"
  by (induction ys) auto

lemma field_pos_Some: "field_pos x ys = Some i \<Longrightarrow> i < length ys \<and> ys ! i = x"
  by (induction ys arbitrary: i) (auto split: if_splits)

lemma bind_field_props:
  assumes "bind_field bs kf = (i, bs')" "distinct bs"
  shows "distinct bs'" "i < length bs'" "bs' ! i = kf" "set bs \<subseteq> set bs'"
  using assms by (auto simp: bind_field_def field_pos_None dest: field_pos_Some split: option.splits)

lemma rewrite_cases:
  assumes "rewriteExpressionFields bs (c # s) = Inr (out, bs')"
  obtains (str) x r y where "c = dquote \<or> c = squote" "scan_string c s = Some (x, r)"
      "rewriteExpressionFields bs r = Inr (y, bs')" "out = c # x @ y"
  | (plain) y where "c \<noteq> dquote" "c \<noteq> squote" "c \<notin> {CHR ''{'', CHR ''}'', CHR '';''}"
      "rewriteExpressionFields bs s = Inr (y, bs')" "out = c # y"
  | (token) y where "expressionIdentifier c" "rewriteExpressionFields bs (dropWhile expressionIdentifier s) = Inr (y, bs')"
      "out = (c # takeWhile expressionIdentifier s) @ y"
  | (field) kind field r i b1 y where "expressionIdentifier c" "expressionField (c # s) = Some (kind, field, r)" "bind_field bs (kind, field) = (i, b1)"
      "rewriteExpressionFields b1 r = Inr (y, bs')" "out = binding_name i @ y"
proof -
  note eq = assms [unfolded rewriteExpressionFields.simps(2)]
  show thesis
  proof (cases "c = dquote \<or> c = squote")
    case True
    with eq str show thesis by (auto simp: prepend_Inr split: option.splits)
  next
    case nq: False
    with eq have nb: "c \<notin> {CHR ''{'', CHR ''}'', CHR '';''}" by (auto split: if_splits)
    show thesis
    proof (cases "\<not> expressionIdentifier c \<or> is_digit c")
      case True
      with eq nq nb plain show thesis by (auto simp: prepend_Inr)
    next
      case False
      show thesis
      proof (cases "expressionField (c # s)")
        case None
        with eq nq nb False token show thesis by (auto simp: prepend_Inr Let_def split: if_splits)
      next
        case (Some kfr)
        obtain kind fld r where k: "kfr = (kind, fld, r)" by (cases kfr)
        obtain i b1 where b: "bind_field bs (kind, fld) = (i, b1)" by fastforce
        show thesis using eq nq nb False Some k b field by (auto simp: prepend_Inr)
      qed
    qed
  qed
qed

text \<open>Every field gets a name of its own: the bindings are pairwise different.\<close>

lemma rewrite_distinct: "rewriteExpressionFields bs s = Inr (out, bs') \<Longrightarrow> distinct bs \<Longrightarrow> distinct bs' \<and> set bs \<subseteq> set bs'"
proof (induction "length s" arbitrary: bs s out rule: less_induct)
  case less
  show ?case
  proof (cases s)
    case (Cons c t)
    from less.prems(1) [unfolded Cons] show ?thesis
    proof (cases rule: rewrite_cases)
      case (str x r y)
      then show ?thesis using less.hyps [of r] scan_string_shorter [of c t] less.prems(2) Cons by auto
    next
      case (plain y)
      then show ?thesis using less.hyps [of t] less.prems(2) Cons by auto
    next
      case (token y)
      then show ?thesis using less.hyps [of "dropWhile expressionIdentifier t"] length_dropWhile_le [of expressionIdentifier t] less.prems(2) Cons
        by (auto simp: less_Suc_eq_le)
    next
      case (field kind fld r i b1 y)
      have "length r < length s" using expressionField_shorter field(2) Cons by blast
      then show ?thesis using less.hyps [of r b1] bind_field_props [OF field(3) less.prems(2)] field(4) by auto
    qed
  qed (use less.prems in simp)
qed

lemma binding_name_inject [simp]: "binding_name i = binding_name j \<longleftrightarrow> i = j"
  by (simp add: binding_name_def)

subsection \<open>Accepted expressions stay inside their condition\<close>

text \<open>The text outside string literals; \<open>None\<close> when a literal is not closed.\<close>

function bare :: "string \<Rightarrow> string option" where
  "bare [] = Some []"
| "bare (c # s) =
     (if c = dquote \<or> c = squote then (case scan_string c s of None \<Rightarrow> None | Some (x, r) \<Rightarrow> bare r)
      else map_option ((#) c) (bare s))"
  by pat_completeness auto
termination by (relation "measure length") (auto dest: scan_string_shorter simp: less_Suc_eq)

declare bare.simps(2) [simp del]

lemma scan_string_follow: "scan_string q s = Some (x, r) \<Longrightarrow> x \<noteq> [] \<and> (q = dquote \<longrightarrow> r = [] \<or> hd r \<noteq> dquote)"
  by (induction q s arbitrary: x rule: scan_string.induct) (auto split: if_splits)

lemma scan_string_append:
  "scan_string q s = Some (x, r) \<Longrightarrow> (q = dquote \<longrightarrow> t = [] \<or> hd t \<noteq> dquote) \<Longrightarrow> scan_string q (x @ t) = Some (x, t)"
proof (induction q s arbitrary: x rule: scan_string.induct)
  case (2 q c)
  then show ?case by (cases t) (auto split: if_splits)
next
  case (3 q c d s)
  show ?case
  proof (cases "c = backslash \<or> (c = q \<and> q = dquote \<and> d = dquote)")
    case True
    with 3 show ?thesis by (auto split: if_splits)
  next
    case False
    show ?thesis
    proof (cases "c = q")
      case True
      with 3(4,5) False have "x = [c]" by (auto split: if_splits)
      then show ?thesis using True False 3(5) by (cases t) auto
    next
      case neq: False
      with 3(4) False obtain x' where x': "scan_string q (d # s) = Some (x', r)" "x = c # x'" by auto
      obtain e x'' where e: "x' = e # x''" using scan_string_follow [OF x'(1)] by (cases x') auto
      have "scan_string q (x' @ t) = Some (x', t)" using 3(3) [OF _ _ x'(1)] 3(5) False neq by auto
      then show ?thesis using x'(2) e False neq by auto
    qed
  qed
qed simp

lemma bare_plain:
  assumes "\<forall>c \<in> set x. c \<noteq> dquote \<and> c \<noteq> squote"
  shows "bare (x @ y) = map_option ((@) x) (bare y)"
  using assms by (induction x) (cases "bare y"; simp add: bare.simps(2))+

lemma identifier_plain: "expressionIdentifier c \<Longrightarrow> c \<noteq> dquote \<and> c \<noteq> squote \<and> c \<notin> {CHR ''{'', CHR ''}'', CHR '';''}"
  by (auto simp: expressionIdentifier_def is_lower_def is_upper_def is_digit_def dquote_def squote_def)

lemma binding_name_identifier: "c \<in> set (binding_name i) \<Longrightarrow> expressionIdentifier c"
  using nat_digits_all_digit [of c i]
  by (auto simp: binding_name_def expressionIdentifier_def is_digit_def is_lower_def is_upper_def)

lemma rewrite_head:
  assumes "rewriteExpressionFields bs s = Inr (out, bs')" "s = [] \<or> hd s \<noteq> dquote"
  shows "out = [] \<or> hd out \<noteq> dquote"
proof (cases s)
  case (Cons c t)
  from assms(1) [unfolded Cons] show ?thesis
  proof (cases rule: rewrite_cases)
    case (field kind fld r i b1 y)
    have "hd (binding_name i @ y) = CHR ''i''" by (simp add: binding_name_def)
    then show ?thesis using field by (auto simp: dquote_def)
  next
    case (token y)
    then show ?thesis using identifier_plain by auto
  qed (use assms(2) Cons in auto)
qed (use assms in simp)

definition braceless :: "string \<Rightarrow> bool" where
  "braceless s \<longleftrightarrow> (\<forall>c \<in> set s. c \<notin> {CHR ''{'', CHR ''}'', CHR '';''})"

lemma rewrite_braceless:
  "rewriteExpressionFields bs s = Inr (out, bs') \<Longrightarrow> \<exists>b. bare out = Some b \<and> braceless b"
proof (induction "length s" arbitrary: bs s out rule: less_induct)
  case less
  show ?case
  proof (cases s)
    case (Cons c t)
    from less.prems [unfolded Cons] show ?thesis
    proof (cases rule: rewrite_cases)
      case (str x r y)
      have "length r < length s" using scan_string_shorter [OF str(2)] Cons by simp
      from less.hyps [OF this str(3)] obtain b where b: "bare y = Some b" "braceless b" by blast
      have "y = [] \<or> hd y \<noteq> dquote" if "c = dquote"
        using rewrite_head [OF str(3)] scan_string_follow [OF str(2)] that by simp
      then have "scan_string c (x @ y) = Some (x, y)" using scan_string_append [OF str(2)] by blast
      then show ?thesis using b str by (simp add: bare.simps(2))
    next
      case (plain y)
      moreover from this obtain b where "bare y = Some b" "braceless b" using less.hyps [of t] Cons by auto
      ultimately show ?thesis by (simp add: bare.simps(2) braceless_def)
    next
      case (token y)
      have "length (dropWhile expressionIdentifier t) < length s"
        using length_dropWhile_le [of expressionIdentifier t] Cons by simp
      from less.hyps [OF this token(2)] obtain b where b: "bare y = Some b" "braceless b" by blast
      have tok: "\<forall>d \<in> set (c # takeWhile expressionIdentifier t). expressionIdentifier d"
        using token(1) set_takeWhileD by fastforce
      then have "bare out = Some ((c # takeWhile expressionIdentifier t) @ b)"
        using bare_plain [of "c # takeWhile expressionIdentifier t" y] token(3) b identifier_plain by (simp only: option.map) blast
      moreover have "braceless (c # takeWhile expressionIdentifier t)" using tok identifier_plain unfolding braceless_def by blast
      ultimately show ?thesis using b by (simp add: braceless_def ball_Un)
    next
      case (field kind fld r i b1 y)
      have "length r < length s" using expressionField_shorter field(2) Cons by blast
      from less.hyps [OF this field(4)] obtain b where b: "bare y = Some b" "braceless b" by blast
      have plain: "\<forall>d \<in> set (binding_name i). d \<noteq> dquote \<and> d \<noteq> squote \<and> d \<notin> {CHR ''{'', CHR ''}'', CHR '';''}"
        using binding_name_identifier identifier_plain by blast
      then have "bare out = Some (binding_name i @ b)" using bare_plain [of "binding_name i" y] field(5) b by simp
      then show ?thesis using b plain by (simp add: braceless_def ball_Un)
    qed
  qed (use less.prems in \<open>simp add: braceless_def\<close>)
qed

end
