(* ===== verification/Rule_Checks.thy ===== *)
theory Rule_Checks
  imports Rules
begin

text \<open>
  The validation of rule drafts (\<^verbatim>\<open>rule_validation.go\<close>) and the comparison of reported properties with the
  thing model (\<^verbatim>\<open>thing_quality.go\<close>). Texts shown to people are replaced by constructors that carry the same data.
\<close>

subsection \<open>Fields of a product\<close>

record RuleField =
  rf_Field :: string
  rf_Name :: string
  rf_Kind :: string
  rf_DataType :: string
  rf_Unit :: string
  rf_Min :: "f64 option"
  rf_Max :: "f64 option"
  rf_AlarmLow :: "f64 option"
  rf_AlarmHigh :: "f64 option"

definition rule_field :: "string \<Rightarrow> ThingField \<Rightarrow> RuleField" where
  "rule_field kind f = \<lparr>rf_Field = tf_Identifier f, rf_Name = tf_Name f, rf_Kind = kind, rf_DataType = tf_DataType f,
     rf_Unit = tf_Unit f, rf_Min = tf_Min f, rf_Max = tf_Max f, rf_AlarmLow = tf_AlarmLow f, rf_AlarmHigh = tf_AlarmHigh f\<rparr>"

definition RuleFields :: "Product \<Rightarrow> RuleField list" where
  "RuleFields product =
     (case pr_ThingModel product of
        None \<Rightarrow> []
      | Some tm \<Rightarrow> map (rule_field ''property'') (tm_Properties tm) @
          concat (map (\<lambda>event. \<lparr>rf_Field = to_Identifier event, rf_Name = to_Name event, rf_Kind = ''event'', rf_DataType = [],
              rf_Unit = [], rf_Min = None, rf_Max = None, rf_AlarmLow = None, rf_AlarmHigh = None\<rparr> #
              map (rule_field ''eventField'') (to_Fields event)) (tm_Events tm)))"

definition metadata_item :: "gval \<Rightarrow> string list" where
  "metadata_item item = (case item of
     VStr s \<Rightarrow> [s]
   | VMap m \<Rightarrow> (case gm_get m ''id'' of Some (VStr s) \<Rightarrow> [s] | _ \<Rightarrow> []) @ (case gm_get m ''code'' of Some (VStr s) \<Rightarrow> [s] | _ \<Rightarrow> [])
   | _ \<Rightarrow> [])"

definition metadata_fields :: "gval option \<Rightarrow> string list" where
  "metadata_fields v = (case v of
     Some (VList items) \<Rightarrow> concat (map metadata_item items)
   | Some (VMap m) \<Rightarrow> map fst m
   | _ \<Rightarrow> [])"

definition productFields :: "Product \<Rightarrow> string list" where
  "productFields product = map rf_Field (RuleFields product) @
     concat (map (\<lambda>k. metadata_fields (gm_get (pr_Metadata product) k)) [''properties'', ''fields'', ''telemetry''])"

subsection \<open>Drafts\<close>

datatype draft_error =
    DraftName | DraftLevel | DraftMatch | DraftDuration | DraftActions | DraftCameraMissing | DraftCamera
  | DraftPage | DraftActionType | DraftEmpty | DraftField string | DraftOperator string | DraftExpression expr_error
  | DraftProduct | DraftUndeclared string

datatype rule_warning = NoThingModel
datatype rule_conflict = SameTrigger string string | LevelConflict string string

text \<open>The pattern \<^verbatim>\<open>^(properties\.|tags\.|event\.)?[A-Za-z_][A-Za-z0-9_.-]*$\<close>.\<close>

definition plain_field :: "string \<Rightarrow> bool" where
  "plain_field s = (case s of [] \<Rightarrow> False | c # t \<Rightarrow> (is_lower c \<or> is_upper c \<or> c = CHR ''_'') \<and> list_all field_char t)"

definition ruleFieldPattern :: "string \<Rightarrow> bool" where
  "ruleFieldPattern s \<longleftrightarrow> plain_field s \<or>
     list_ex (\<lambda>p. has_prefix s p \<and> plain_field (trim_prefix s p)) [''properties.'', ''tags.'', ''event.'']"

definition allowed_levels :: "string list" where
  "allowed_levels = [''CRITICAL'', ''HIGH'', ''MEDIUM'', ''LOW'', ''INFO'']"

definition allowedPages :: "string list" where
  "allowedPages = [''dashboard'', ''devices'', ''products'', ''protocols'', ''protocolassistant'', ''integration'', ''cameras'',
     ''alarms'', ''inspection'', ''raw'', ''rules'', ''knowledge'', ''ai'']"

definition allowedOps :: "string list" where
  "allowedOps = [''eq'', ''=='', ''ne'', ''!='', ''>'', ''gt'', ''>='', ''gte'', ''<'', ''lt'', ''<='', ''lte'', ''contains'', ''in'', ''exists'']"

definition check_action :: "repo \<Rightarrow> AlarmRule \<Rightarrow> RuleAction \<Rightarrow> draft_error option" where
  "check_action r rule action =
     (let kind = to_upper (trim_space (ra_Type action)) in
      if kind = ''OPEN_CAMERA'' then
        let camera = trim_space (ra_CameraID action) in
        if camera = [] then Some DraftCameraMissing
        else (case GetVideoCameraMapping (ar_TenantID rule) camera r of
                Inl _ \<Rightarrow> Some DraftCamera
              | Inr m \<Rightarrow> if vm_Enabled m then None else Some DraftCamera)
      else if kind = ''OPEN_PAGE'' then
        if to_lower (trim_space (ra_Page action)) \<in> set allowedPages then None else Some DraftPage
      else Some DraftActionType)"

definition check_condition :: "RuleCondition \<Rightarrow> draft_error option" where
  "check_condition c =
     (if \<not> ruleFieldPattern (rc_Field c) then Some (DraftField (rc_Field c))
      else if to_lower (rc_Operator c) \<notin> set allowedOps then Some (DraftOperator (rc_Operator c))
      else None)"

definition check_declared :: "string list \<Rightarrow> RuleCondition \<Rightarrow> draft_error option" where
  "check_declared declared c =
     (if has_prefix (rc_Field c) ''tags.'' then None
      else let field = trim_prefix (trim_prefix (rc_Field c) ''properties.'') ''event.''
           in if field \<in> set declared then None else Some (DraftUndeclared field))"

fun first_error :: "('a \<Rightarrow> draft_error option) \<Rightarrow> 'a list \<Rightarrow> draft_error option" where
  "first_error f [] = None"
| "first_error f (x # xs) = (case f x of Some e \<Rightarrow> Some e | None \<Rightarrow> first_error f xs)"

text \<open>The checks that look at the rule alone, in order.\<close>

definition check_schema :: "AlarmRule \<Rightarrow> draft_error option" where
  "check_schema rule =
     (if trim_space (ar_Name rule) = [] \<or> trim_space (ar_AlarmType rule) = [] then Some DraftName
      else if to_upper (ar_Level rule) \<notin> set allowed_levels then Some DraftLevel
      else if ar_Match rule \<noteq> [] \<and> \<not> equal_fold (ar_Match rule) ''all'' \<and> \<not> equal_fold (ar_Match rule) ''any'' then Some DraftMatch
      else if ar_DurationSeconds rule < 0 then Some DraftDuration
      else if length (ar_Actions rule) > 4 then Some DraftActions
      else None)"

definition rule_conflicts :: "AlarmRule \<Rightarrow> AlarmRule \<Rightarrow> rule_conflict list" where
  "rule_conflicts rule other =
     (if ar_ID other = ar_ID rule \<or> ar_ProductID other \<noteq> ar_ProductID rule then []
      else (if (ar_Expression other = ar_Expression rule \<and> ar_Expression rule \<noteq> []) \<or> ar_Conditions other = ar_Conditions rule
            then [SameTrigger (ar_Name other) (ar_ID other)] else []) @
           (if ar_AlarmType other = ar_AlarmType rule \<and> ar_Level other \<noteq> ar_Level rule \<and> ar_Conditions other = ar_Conditions rule
            then [LevelConflict (ar_Name other) (ar_ID other)] else []))"

definition ValidateRuleDraft :: "golib \<Rightarrow> AlarmRule \<Rightarrow> repo \<Rightarrow> draft_error + (rule_warning list \<times> rule_conflict list)" where
  "ValidateRuleDraft lb rule r =
     (case check_schema rule of Some e \<Rightarrow> Inl e | None \<Rightarrow>
      case first_error (check_action r rule) (ar_Actions rule) of Some e \<Rightarrow> Inl e | None \<Rightarrow>
      if ar_Conditions rule = [] \<and> trim_space (ar_Expression rule) = [] then Inl DraftEmpty else
      case first_error check_condition (ar_Conditions rule @ ar_Recovery rule) of Some e \<Rightarrow> Inl e | None \<Rightarrow>
      case (if ar_Expression rule = [] then Inr False else evaluateGengine lb (ar_Expression rule)
              \<lparr>sm_MessageID = [], sm_RawMessageID = [], sm_TenantID = [], sm_ProductID = [], sm_DeviceID = [],
               sm_MessageType = PropertyReport, sm_Timestamp = 0, sm_Properties = [(''temperature'', VFloat (FNum 0))],
               sm_Event = [], sm_Tags = [], sm_Raw = [], sm_Parser = [], sm_ParserVersion = []\<rparr> False) of
        Inl e \<Rightarrow> Inl (DraftExpression e)
      | Inr _ \<Rightarrow>
        let conflicts = concat (map (rule_conflicts rule) (ListRules (ar_TenantID rule) r)) in
        if ar_ProductID rule = [] then Inr ([], conflicts)
        else case GetProduct (ar_TenantID rule) (ar_ProductID rule) r of
          Inl _ \<Rightarrow> Inl DraftProduct
        | Inr product \<Rightarrow>
            let declared = productFields product in
            if declared = [] then Inr ([NoThingModel], conflicts)
            else case first_error (check_declared declared) (ar_Conditions rule @ ar_Recovery rule) of
              Some e \<Rightarrow> Inl e
            | None \<Rightarrow> Inr ([], conflicts))"

subsection \<open>Thing-model quality\<close>

definition thingNumber :: "gval \<Rightarrow> f64 option" where
  "thingNumber v = (case v of
     VFloat x \<Rightarrow> Some x
   | VFloat32 x \<Rightarrow> Some x
   | VInt k n \<Rightarrow> if k \<in> {KInt, KInt64, KInt32, KUint64, KUint32} then Some (f64_of_int n) else None
   | _ \<Rightarrow> None)"

text \<open>\<^verbatim>\<open>n == math.Trunc(n)\<close>: false for NaN, true for the infinities.\<close>

definition f64_integral :: "f64 \<Rightarrow> bool" where
  "f64_integral x = (case x of FNaN \<Rightarrow> False | FInf _ \<Rightarrow> True | FNum q \<Rightarrow> q = of_int \<lfloor>q\<rfloor>)"

definition thingValueMatches :: "string \<Rightarrow> gval \<Rightarrow> bool" where
  "thingValueMatches dataType v =
     (if dataType = ''number'' then thingNumber v \<noteq> None
      else if dataType = ''integer'' then (case thingNumber v of None \<Rightarrow> False | Some n \<Rightarrow> f64_integral n)
      else if dataType = ''string'' then (case v of VStr _ \<Rightarrow> True | _ \<Rightarrow> False)
      else if dataType = ''boolean'' then (case v of VBool _ \<Rightarrow> True | _ \<Rightarrow> False)
      else if dataType = ''object'' then (case v of VMap _ \<Rightarrow> True | _ \<Rightarrow> False)
      else if dataType = ''array'' then (case v of VList _ \<Rightarrow> True | _ \<Rightarrow> False)
      else True)"

definition below :: "f64 \<Rightarrow> f64 option \<Rightarrow> bool" where
  "below n b = (case b of None \<Rightarrow> False | Some m \<Rightarrow> f64_lt n m)"

definition above :: "f64 \<Rightarrow> f64 option \<Rightarrow> bool" where
  "above n b = (case b of None \<Rightarrow> False | Some m \<Rightarrow> f64_lt m n)"

text \<open>A later declaration of an identifier replaces an earlier one.\<close>

definition declared_field :: "ThingModel \<Rightarrow> string \<Rightarrow> ThingField option" where
  "declared_field tm name = find (\<lambda>f. tf_Identifier f = name) (rev (tm_Properties tm))"

definition property_issue :: "ThingModel \<Rightarrow> string \<Rightarrow> gval \<Rightarrow> string list" where
  "property_issue tm name v =
     (case declared_field tm name of
        None \<Rightarrow> [''unknown:'' @ name]
      | Some f \<Rightarrow>
          if \<not> thingValueMatches (tf_DataType f) v then [''type:'' @ name]
          else if Numeric f \<and>
            (let number = (case thingNumber v of None \<Rightarrow> FNum 0 | Some n \<Rightarrow> n) in below number (tf_Min f) \<or> above number (tf_Max f))
          then [''range:'' @ name] else [])"

definition thingModelIssues :: "ThingModel option \<Rightarrow> StandardMessage \<Rightarrow> string list" where
  "thingModelIssues tmo msg =
     (case tmo of
        None \<Rightarrow> []
      | Some tm \<Rightarrow>
          if tm_Properties tm = [] \<or> sm_Properties msg = [] then []
          else sort (concat (map (\<lambda>(name, v). property_issue tm name v) (sm_Properties msg))))"

definition maxQualityTag :: nat where "maxQualityTag = 256"

definition join_comma :: "string list \<Rightarrow> string" where
  "join_comma xs = concat (map (\<lambda>(i, x). if i = 0 then x else CHR '','' # x) (enumerate 0 xs))"

text \<open>\<^verbatim>\<open>strings.LastIndexByte(s, ',')\<close>, as the length of the text before it.\<close>

definition last_comma :: "string \<Rightarrow> nat option" where
  "last_comma s = (if CHR '','' \<in> set s then Some (length s - Suc (length (takeWhile (\<lambda>c. c \<noteq> CHR '','') (rev s)))) else None)"

definition quality_tag :: "string list \<Rightarrow> string" where
  "quality_tag issues =
     (let tag = join_comma issues in
      if length tag > maxQualityTag then
        (case last_comma (take maxQualityTag tag) of
           Some n_cut \<Rightarrow> if n_cut > 0 then take n_cut tag else take maxQualityTag tag
         | None \<Rightarrow> take maxQualityTag tag)
      else tag)"

definition markThingQuality :: "Product \<Rightarrow> StandardMessage \<Rightarrow> StandardMessage" where
  "markThingQuality product msg =
     (let issues = thingModelIssues (pr_ThingModel product) msg in
      if issues = [] then msg else msg\<lparr>sm_Tags := gm_put ''quality'' (quality_tag issues) (sm_Tags msg)\<rparr>)"

subsection \<open>What the checks guarantee\<close>

lemma first_error_None: "first_error f xs = None \<longleftrightarrow> (\<forall>x \<in> set xs. f x = None)"
  by (induction xs) (auto split: option.splits)

lemma draft_accepted:
  assumes "ValidateRuleDraft lb rule r = Inr (ws, cs)"
  shows "check_schema rule = None" "\<forall>c \<in> set (ar_Conditions rule @ ar_Recovery rule). check_condition c = None"
    "ar_Conditions rule \<noteq> [] \<or> trim_space (ar_Expression rule) \<noteq> []"
    "ar_Expression rule \<noteq> [] \<Longrightarrow> \<exists>x. buildExpression lb (trim_space (ar_Expression rule)) = Inr x"
    "\<forall>a \<in> set (ar_Actions rule). check_action r rule a = None"
  using assms
  by (auto simp: ValidateRuleDraft_def Let_def first_error_None evaluateGengine_def split: option.splits if_splits sum.splits prod.splits)

lemma quality_tag_bound: "length (quality_tag issues) \<le> maxQualityTag"
proof -
  have "n_cut \<le> length s" if "last_comma s = Some n_cut" for s n_cut using that by (auto simp: last_comma_def split: if_splits)
  then show ?thesis by (fastforce simp: quality_tag_def Let_def split: option.splits)
qed

end
