(* ===== verification/Alarm_Store.thy ===== *)
theory Alarm_Store
  imports Memory_Repo
begin

text \<open>
  The invariant of the stored alarms and how an alarm may evolve. At most one alarm of a tenant, device and rule is open
  (rules of external events apart, whose alarms are keyed by the event); an open component alarm is the one its component
  state names; a closed alarm that needs verification carries its verification result; an alarm has at most
  \<^verbatim>\<open>MaxAlarmAttachments\<close> attachments. Every alarm operation of the repository keeps the invariant and moves every
  stored alarm along the status graph, with a larger version for every change.
\<close>

subsection \<open>Keys\<close>

definition clean :: "string \<Rightarrow> bool" where
  "clean s \<longleftrightarrow> nul \<notin> set s"

lemma takeWhile_clean: "clean s \<Longrightarrow> takeWhile (\<lambda>c. c \<noteq> nul) (s @ nul # x) = s"
  unfolding clean_def by (subst takeWhile_append2) auto

lemma append_nul_inject: "clean s \<Longrightarrow> clean s' \<Longrightarrow> s @ nul # x = s' @ nul # x' \<longleftrightarrow> s = s' \<and> x = x'"
  by (metis append_same_eq list.inject same_append_eq takeWhile_clean)

lemma key_two: "key [a, b] = a @ nul # b" and key_three: "key [a, b, c] = a @ nul # b @ nul # c"
  by (simp_all add: key.simps)

lemma key2_inject: "clean a \<Longrightarrow> clean a' \<Longrightarrow> key [a, b] = key [a', b'] \<longleftrightarrow> a = a' \<and> b = b'"
  by (simp add: key_two append_nul_inject)

lemma key3_inject:
  "clean a \<Longrightarrow> clean a' \<Longrightarrow> clean b \<Longrightarrow> clean b' \<Longrightarrow> key [a, b, c] = key [a', b', c'] \<longleftrightarrow> a = a' \<and> b = b' \<and> c = c'"
  by (simp add: key_three append_nul_inject)

subsection \<open>The invariant\<close>

definition external_rule :: "string \<Rightarrow> bool" where
  "external_rule rid \<longleftrightarrow> contains_sub rid '':external:''"

definition component_rule :: "string \<Rightarrow> bool" where
  "component_rule rid \<longleftrightarrow> contains_sub rid '':component:'' \<and> \<not> external_rule rid"

definition alarm_key :: "Alarm \<Rightarrow> string" where
  "alarm_key a = key [al_TenantID a, al_ID a]"

definition rule_key :: "Alarm \<Rightarrow> string" where
  "rule_key a = key [al_TenantID a, al_DeviceID a, al_RuleID a]"

definition alarm_ok :: "Alarm \<Rightarrow> bool" where
  "alarm_ok a \<longleftrightarrow> clean (al_TenantID a) \<and> clean (al_DeviceID a) \<and> al_ID a \<noteq> [] \<and>
     (al_Status a = ''CLOSED'' \<longrightarrow> RequiresVerification a \<longrightarrow> al_Disposition a \<noteq> None) \<and>
     length (al_Attachments a) \<le> MaxAlarmAttachments \<and> 1 \<le> al_TriggerCount a"

definition alarms_wf :: "repo \<Rightarrow> bool" where
  "alarms_wf r \<longleftrightarrow> gm_ok (rp_alarms r) \<and> (\<forall>(k, a) \<in> set (rp_alarms r). k = alarm_key a \<and> alarm_ok a)"

definition open_unique :: "repo \<Rightarrow> bool" where
  "open_unique r \<longleftrightarrow> (\<forall>(k, a) \<in> set (rp_alarms r). \<forall>(k', a') \<in> set (rp_alarms r).
     alarm_open a \<and> \<not> external_rule (al_RuleID a) \<and> same_open a a' \<longrightarrow> k = k')"

definition linked :: "repo \<Rightarrow> Alarm \<Rightarrow> bool" where
  "linked r a \<longleftrightarrow> (\<exists>s. gm_get (rp_componentAlarms r) (rule_key a) = Some s \<and> ca_AlarmID s = al_ID a)"

definition components_linked :: "repo \<Rightarrow> bool" where
  "components_linked r \<longleftrightarrow> (\<forall>(k, a) \<in> set (rp_alarms r). alarm_open a \<and> component_rule (al_RuleID a) \<longrightarrow> linked r a)"

definition alarm_inv :: "repo \<Rightarrow> bool" where
  "alarm_inv r \<longleftrightarrow> alarms_wf r \<and> open_unique r \<and> components_linked r"

subsection \<open>Evolution of an alarm\<close>

definition status_reach :: "string \<Rightarrow> string \<Rightarrow> bool" where
  "status_reach s s' \<longleftrightarrow> s' = s \<or> s' = ''CLOSED'' \<or> (s = ''ACTIVE'' \<and> s' \<in> {''ACKED'', ''RECOVERED'', ''SUPPRESSED''}) \<or>
     (s = ''ACKED'' \<and> s' \<in> {''RECOVERED'', ''SUPPRESSED''})"

definition evolves :: "Alarm \<Rightarrow> Alarm \<Rightarrow> bool" where
  "evolves a a' \<longleftrightarrow> a' = a \<or>
     (al_Version a < al_Version a' \<and> al_TenantID a' = al_TenantID a \<and> al_ID a' = al_ID a \<and> al_RuleID a' = al_RuleID a \<and>
      al_DeviceID a' = al_DeviceID a \<and> al_AlarmType a' = al_AlarmType a \<and> al_FirstTriggeredAt a' = al_FirstTriggeredAt a \<and>
      status_reach (al_Status a) (al_Status a') \<and> al_TriggerCount a \<le> al_TriggerCount a' \<and>
      (al_Status a = ''CLOSED'' \<longrightarrow> al_Disposition a' = al_Disposition a \<and> al_Attachments a' = al_Attachments a))"

definition history :: "repo \<Rightarrow> repo \<Rightarrow> bool" where
  "history r r' \<longleftrightarrow> (\<forall>k a. gm_get (rp_alarms r) k = Some a \<longrightarrow> (\<exists>a'. gm_get (rp_alarms r') k = Some a' \<and> evolves a a'))"

lemma status_reach_refl [simp]: "status_reach s s"
  by (simp add: status_reach_def)

lemma status_reach_trans: "status_reach a b \<Longrightarrow> status_reach b c \<Longrightarrow> status_reach a c"
  by (auto simp: status_reach_def)

lemma status_reach_closed: "status_reach ''CLOSED'' s \<longleftrightarrow> s = ''CLOSED''"
  by (auto simp: status_reach_def)

lemma evolves_refl [simp]: "evolves a a"
  by (simp add: evolves_def)

lemma evolves_trans: "evolves a b \<Longrightarrow> evolves b c \<Longrightarrow> evolves a c"
  unfolding evolves_def by (elim disjE) (auto intro: status_reach_trans simp: status_reach_closed)

lemma evolves_version: "evolves a b \<Longrightarrow> al_Version b = al_Version a \<Longrightarrow> b = a"
  by (auto simp: evolves_def)

lemma evolves_version_le: "evolves a b \<Longrightarrow> al_Version a \<le> al_Version b"
  by (auto simp: evolves_def)

lemma history_refl [simp]: "history r r"
  by (simp add: history_def)

lemma history_trans: "history a b \<Longrightarrow> history b c \<Longrightarrow> history a c"
  unfolding history_def by (meson evolves_trans)

lemma history_same: "rp_alarms r' = rp_alarms r \<Longrightarrow> history r r'"
  by (simp add: history_def)

lemma alarm_inv_same:
  "rp_alarms r' = rp_alarms r \<Longrightarrow> rp_componentAlarms r' = rp_componentAlarms r \<Longrightarrow> alarm_inv r' = alarm_inv r"
  by (simp add: alarm_inv_def alarms_wf_def open_unique_def components_linked_def linked_def)

lemma addOutbox_same [simp]:
  "rp_alarms (addOutbox v r) = rp_alarms r" "rp_componentAlarms (addOutbox v r) = rp_componentAlarms r"
  by (simp_all add: addOutbox_def)

lemma put_alarm_simps [simp]:
  "rp_alarms (put_alarm a r) = gm_put (alarm_key a) a (rp_alarms r)"
  "rp_componentAlarms (put_alarm a r) = rp_componentAlarms r"
  by (simp_all add: put_alarm_def alarm_key_def)

lemma alarm_inv_outbox [simp]: "alarm_inv (addOutbox v r) = alarm_inv r"
  by (rule alarm_inv_same) simp_all

lemma history_outbox [simp]: "history r (addOutbox v r') = history r r'"
  by (simp add: history_def)

subsection \<open>Storing an alarm\<close>

lemma inv_stored:
  assumes "alarm_inv r" "gm_get (rp_alarms r) k = Some a"
  shows "k = alarm_key a" "alarm_ok a" "(k, a) \<in> set (rp_alarms r)"
  using assms gm_get_mem [OF assms(2)] by (auto simp: alarm_inv_def alarms_wf_def)

lemma inv_mem:
  assumes "alarm_inv r" "(k, a) \<in> set (rp_alarms r)"
  shows "gm_get (rp_alarms r) k = Some a" "k = alarm_key a" "alarm_ok a"
  using assms by (auto simp: alarm_inv_def alarms_wf_def gm_mem_get)

text \<open>
  When the stored alarm may be replaced: it evolves, and an alarm that becomes or stays open is the only open one of its
  rule and, for a component, the one its component state names.
\<close>

definition may_store :: "repo \<Rightarrow> Alarm \<Rightarrow> bool" where
  "may_store r a \<longleftrightarrow> alarm_ok a \<and>
     (\<forall>old. gm_get (rp_alarms r) (alarm_key a) = Some old \<longrightarrow> evolves old a) \<and>
     (alarm_open a \<longrightarrow> \<not> external_rule (al_RuleID a) \<longrightarrow>
        (\<forall>(k', a') \<in> set (rp_alarms r). same_open a a' \<longrightarrow> k' = alarm_key a)) \<and>
     (alarm_open a \<longrightarrow> component_rule (al_RuleID a) \<longrightarrow> linked r a)"

lemma same_open_sym: "alarm_open a \<Longrightarrow> same_open a b \<Longrightarrow> same_open b a"
  by (simp add: same_open_def)

lemma put_alarm_inv:
  assumes inv: "alarm_inv r" and ok: "may_store r a"
  shows "alarm_inv (put_alarm a r)" "history r (put_alarm a r)"
proof -
  have gm: "gm_ok (rp_alarms r)" using inv by (simp add: alarm_inv_def alarms_wf_def)
  have mem: "(k, b) \<in> set (rp_alarms (put_alarm a r)) \<longleftrightarrow> (k = alarm_key a \<and> b = a) \<or> (k \<noteq> alarm_key a \<and> (k, b) \<in> set (rp_alarms r))" for k b
    using gm by (auto simp: gm_mem_get)
  have "alarms_wf (put_alarm a r)"
    using inv ok gm by (auto simp: alarms_wf_def may_store_def alarm_inv_def gm_mem_get split: if_splits)
  moreover have "open_unique (put_alarm a r)"
    unfolding open_unique_def
  proof (clarify)
    fix k b k' b'
    assume 1: "(k, b) \<in> set (rp_alarms (put_alarm a r))" "(k', b') \<in> set (rp_alarms (put_alarm a r))"
      and 2: "alarm_open b" "\<not> external_rule (al_RuleID b)" "same_open b b'"
    have b': "alarm_open b'" "al_RuleID b' = al_RuleID b" "same_open b' b" using 2 by (auto simp: same_open_def)
    have u: "k' = alarm_key a" if "alarm_open a" "\<not> external_rule (al_RuleID a)" "(k', a') \<in> set (rp_alarms r)" "same_open a a'" for k' a'
      using ok that by (auto simp: may_store_def)
    show "k = k'"
      using 1 2 b' u inv unfolding mem by (auto simp: alarm_inv_def open_unique_def)
  qed
  moreover have "components_linked (put_alarm a r)"
    unfolding components_linked_def
  proof clarify
    fix k b
    assume "(k, b) \<in> set (rp_alarms (put_alarm a r))" "alarm_open b" "component_rule (al_RuleID b)"
    then have "linked r b" using inv ok unfolding mem by (auto simp: alarm_inv_def components_linked_def may_store_def)
    then show "linked (put_alarm a r) b" by (simp add: linked_def)
  qed
  ultimately show "alarm_inv (put_alarm a r)" by (simp add: alarm_inv_def)
  show "history r (put_alarm a r)"
    using ok by (auto simp: history_def may_store_def)
qed

text \<open>Replacing an open alarm by a version of itself that is still open needs no further check.\<close>

lemma may_store_update:
  assumes inv: "alarm_inv r" and old: "gm_get (rp_alarms r) (alarm_key a) = Some old"
    and ev: "evolves old a" and ok: "alarm_ok a" and op: "alarm_open a \<Longrightarrow> alarm_open old"
  shows "may_store r a"
proof -
  have mem: "(alarm_key a, old) \<in> set (rp_alarms r)" using inv_stored(3) [OF inv old] .
  have same: "al_TenantID a = al_TenantID old" "al_DeviceID a = al_DeviceID old" "al_RuleID a = al_RuleID old" "al_ID a = al_ID old"
    using ev by (auto simp: evolves_def)
  have "\<forall>(k', a') \<in> set (rp_alarms r). same_open a a' \<longrightarrow> k' = alarm_key a" if "alarm_open a" "\<not> external_rule (al_RuleID a)"
  proof clarify
    fix k' a'
    assume "(k', a') \<in> set (rp_alarms r)" "same_open a a'"
    moreover have "same_open old a'" using calculation(2) same by (simp add: same_open_def)
    ultimately show "k' = alarm_key a"
      using inv mem that op same unfolding alarm_inv_def open_unique_def by fastforce
  qed
  moreover have "linked r a" if "alarm_open a" "component_rule (al_RuleID a)"
  proof -
    have "linked r old" using inv mem op that same unfolding alarm_inv_def components_linked_def by fastforce
    then show ?thesis by (simp add: linked_def rule_key_def same)
  qed
  ultimately show ?thesis using old ev ok by (simp add: may_store_def)
qed

subsection \<open>The operations of the repository\<close>

lemma find_Some_mem: "find p xs = Some x \<Longrightarrow> x \<in> set xs \<and> p x"
  by (auto simp: find_Some_iff)

lemma find_None_all: "find p xs = None \<Longrightarrow> x \<in> set xs \<Longrightarrow> \<not> p x"
  by (auto simp: find_None_iff)

text \<open>A new alarm: fresh identity, active, well-formed.\<close>

definition new_alarm :: "repo \<Rightarrow> Alarm \<Rightarrow> bool" where
  "new_alarm r v \<longleftrightarrow> alarm_ok v \<and> al_Status v = ''ACTIVE'' \<and> stored_alarm r (al_TenantID v) (al_ID v) = None"

lemma alarm_ok_version [simp]: "alarm_ok (v\<lparr>al_Version := n\<rparr>) = alarm_ok v"
  by (simp add: alarm_ok_def RequiresVerification_def)

lemma alarm_open_version [simp]: "alarm_open (v\<lparr>al_Version := n\<rparr>) = alarm_open v"
  by (simp add: alarm_open_def)

lemma alarm_key_version [simp]: "alarm_key (v\<lparr>al_Version := n\<rparr>) = alarm_key v"
  by (simp add: alarm_key_def)

lemma UpsertAlarm_inv:
  assumes inv: "alarm_inv r" and new: "new_alarm r v" and plain: "\<not> component_rule (al_RuleID v)"
  shows "alarm_inv (snd (UpsertAlarm v r))" "history r (snd (UpsertAlarm v r))"
proof -
  have "alarm_inv (snd (UpsertAlarm v r)) \<and> history r (snd (UpsertAlarm v r))"
  proof (cases "find (\<lambda>(k, a). same_open v a) (rp_alarms r)")
    case None
    let ?v = "v\<lparr>al_Version := 1\<rparr>"
    have "\<not> same_open v a'" if "(k', a') \<in> set (rp_alarms r)" for k' a' using find_None_all [OF None that] by simp
    moreover have "same_open ?v a' = same_open v a'" for a' by (simp add: same_open_def)
    ultimately have "may_store r ?v"
      using new plain unfolding may_store_def new_alarm_def stored_alarm_def alarm_key_def by auto
    from put_alarm_inv [OF inv this] show ?thesis using None by (simp add: UpsertAlarm_def Let_def)
  next
    case (Some ka)
    obtain k a where ka: "ka = (k, a)" by (cases ka)
    with Some have mem: "(k, a) \<in> set (rp_alarms r)" and op: "alarm_open a" using find_Some_mem by (fastforce simp: same_open_def)+
    note st = inv_mem [OF inv mem]
    define a' where "a' = a\<lparr>al_LastTriggeredAt := al_LastTriggeredAt v, al_TriggerCount := al_TriggerCount a + 1,
      al_Confidence := (if f64_lt (al_Confidence a) (al_Confidence v) then al_Confidence v else al_Confidence a),
      al_Version := al_Version a + 1\<rparr>"
    have k: "alarm_key a' = k" using st(2) by (simp add: a'_def alarm_key_def)
    have "evolves a a'" by (simp add: a'_def evolves_def)
    moreover have "alarm_ok a'" using st(3) by (simp add: a'_def alarm_ok_def RequiresVerification_def)
    ultimately have "may_store r a'" using may_store_update [OF inv] st(1) k op by metis
    from put_alarm_inv [OF inv this] have "alarm_inv (r\<lparr>rp_alarms := gm_put k a' (rp_alarms r)\<rparr>) \<and> history r (r\<lparr>rp_alarms := gm_put k a' (rp_alarms r)\<rparr>)"
      using k by (simp add: put_alarm_def alarm_key_def)
    then show ?thesis using inv Some ka by (simp add: UpsertAlarm_def Let_def a'_def)
  qed
  then show "alarm_inv (snd (UpsertAlarm v r))" "history r (snd (UpsertAlarm v r))" by auto
qed

text \<open>A versioned write whose version is current replaces exactly the alarm it was computed from.\<close>

lemma UpdateAlarmIf_inv:
  assumes inv: "alarm_inv r" and cur: "gm_get (rp_alarms r) (alarm_key v) = Some current"
    and ver: "al_Version v = al_Version current"
    and ev: "evolves current (v\<lparr>al_Version := al_Version v + 1\<rparr>)" and ok: "alarm_ok v" and op: "alarm_open v \<Longrightarrow> alarm_open current"
  shows "alarm_inv (snd (UpdateAlarmIf v r))" "history r (snd (UpdateAlarmIf v r))"
proof -
  have "may_store r (v\<lparr>al_Version := al_Version v + 1\<rparr>)"
    using may_store_update [OF inv _ ev] cur ok op by simp
  from put_alarm_inv [OF inv this] show "alarm_inv (snd (UpdateAlarmIf v r))" "history r (snd (UpdateAlarmIf v r))"
    using cur ver by (simp_all add: UpdateAlarmIf_def alarm_key_def)
qed

lemma UpdateAlarmIf_stale:
  "gm_get (rp_alarms r) (alarm_key v) = Some old \<Longrightarrow> al_Version old \<noteq> al_Version v \<Longrightarrow> snd (UpdateAlarmIf v r) = r"
  "gm_get (rp_alarms r) (alarm_key v) = None \<Longrightarrow> snd (UpdateAlarmIf v r) = r"
  by (simp_all add: UpdateAlarmIf_def alarm_key_def)

lemma UpsertExternalAlarm_inv:
  assumes inv: "alarm_inv r" and ok: "alarm_ok v" and act: "al_Status v = ''ACTIVE''"
  shows "alarm_inv (snd (UpsertExternalAlarm v r))" "history r (snd (UpsertExternalAlarm v r))"
proof -
  have "alarm_inv (snd (UpsertExternalAlarm v r)) \<and> history r (snd (UpsertExternalAlarm v r))"
  proof (cases "external_rule (al_RuleID v) \<and> \<not> (al_TenantID v = [] \<or> al_ID v = [] \<or> al_DeviceID v = [] \<or> al_TriggerID v = [])")
    case False
    then show ?thesis using inv by (auto simp: UpsertExternalAlarm_def external_rule_def)
  next
    case guard: True
    then have ext: "external_rule (al_RuleID v)" "\<not> component_rule (al_RuleID v)" by (auto simp: component_rule_def)
    show ?thesis
    proof (cases "gm_get (rp_alarms r) (alarm_key v)")
      case None
      let ?v = "v\<lparr>al_TriggerCount := 1, al_Version := 1\<rparr>"
      have "alarm_ok ?v" using ok by (simp add: alarm_ok_def RequiresVerification_def)
      then have "may_store r ?v" using None ext act by (simp add: may_store_def alarm_key_def)
      from put_alarm_inv [OF inv this] show ?thesis
        using guard None by (simp add: UpsertExternalAlarm_def external_rule_def alarm_key_def Let_def)
    next
      case (Some saved)
      define s' where "s' = saved\<lparr>al_Details := al_Details v, al_Content := al_Content v,
                  al_LastTriggeredAt := al_LastTriggeredAt v, al_AlarmLevel := al_AlarmLevel v,
                  al_Confidence := al_Confidence v, al_TriggerID := al_TriggerID v,
                  al_TriggerCount := al_TriggerCount saved + 1, al_Version := al_Version saved + 1\<rparr>"
      note st = inv_stored [OF inv Some]
      show ?thesis
      proof (cases "al_DeviceID saved \<noteq> al_DeviceID v \<or> al_RuleID saved \<noteq> al_RuleID v \<or> al_TriggerID saved = al_TriggerID v \<or>
          al_Status saved = ''CLOSED'' \<or> al_Status saved = ''RECOVERED''")
        case True
        then show ?thesis using guard Some inv by (auto simp: UpsertExternalAlarm_def external_rule_def alarm_key_def)
      next
        case False
        have key: "alarm_key s' = alarm_key v" using st(1) by (simp add: s'_def alarm_key_def)
        have "evolves saved s'" by (simp add: s'_def evolves_def)
        moreover have "alarm_ok s'" using st(2) False by (simp add: s'_def alarm_ok_def RequiresVerification_def)
        moreover have "alarm_open s' = alarm_open saved" by (simp add: s'_def alarm_open_def)
        ultimately have "may_store r s'" using may_store_update [OF inv] Some key by metis
        from put_alarm_inv [OF inv this] have "alarm_inv (r\<lparr>rp_alarms := gm_put (alarm_key v) s' (rp_alarms r)\<rparr>) \<and>
            history r (r\<lparr>rp_alarms := gm_put (alarm_key v) s' (rp_alarms r)\<rparr>)"
          using key by (simp add: put_alarm_def alarm_key_def)
        then show ?thesis using guard Some False
          by (simp add: UpsertExternalAlarm_def external_rule_def alarm_key_def Let_def s'_def [symmetric])
      qed
    qed
  qed
  then show "alarm_inv (snd (UpsertExternalAlarm v r))" "history r (snd (UpsertExternalAlarm v r))" by auto
qed

subsection \<open>Component alarms\<close>

lemma component_state_inv:
  assumes inv: "alarm_inv r"
    and same: "\<And>j a. (j, a) \<in> set (rp_alarms r) \<Longrightarrow> alarm_open a \<Longrightarrow> component_rule (al_RuleID a) \<Longrightarrow> rule_key a = k \<Longrightarrow> al_ID a = ca_AlarmID s"
  shows "alarm_inv (r\<lparr>rp_componentAlarms := gm_put k s (rp_componentAlarms r)\<rparr>)"
proof -
  have "components_linked (r\<lparr>rp_componentAlarms := gm_put k s (rp_componentAlarms r)\<rparr>)"
    using inv same by (fastforce simp: components_linked_def linked_def alarm_inv_def)
  then show ?thesis using inv by (simp add: alarm_inv_def alarms_wf_def open_unique_def)
qed

text \<open>The alarm a component's state names, as \<^verbatim>\<open>ApplyComponentAlarm\<close> looks it up.\<close>

definition previous_state :: "repo \<Rightarrow> Alarm \<Rightarrow> ComponentAlarmState" where
  "previous_state r c = (case gm_get (rp_componentAlarms r) (rule_key c) of None \<Rightarrow> zero_ComponentAlarmState | Some s \<Rightarrow> s)"

definition previous_alarm :: "repo \<Rightarrow> Alarm \<Rightarrow> Alarm" where
  "previous_alarm r c = (case gm_get (rp_alarms r) (key [al_TenantID c, ca_AlarmID (previous_state r c)]) of
     None \<Rightarrow> zero_Alarm | Some a \<Rightarrow> a)"

lemma open_component_is_previous:
  assumes inv: "alarm_inv r" and c: "clean (al_TenantID c)" "clean (al_DeviceID c)"
    and a: "(j, a) \<in> set (rp_alarms r)" "alarm_open a" "component_rule (al_RuleID a)" "rule_key a = rule_key c"
  shows "previous_alarm r c = a" "ca_AlarmID (previous_state r c) = al_ID a"
proof -
  note st = inv_mem [OF inv a(1)]
  have t: "al_TenantID a = al_TenantID c"
    using a(4) c st(3) by (simp add: rule_key_def key3_inject alarm_ok_def)
  have "linked r a" using inv a unfolding alarm_inv_def components_linked_def by fastforce
  then show p: "ca_AlarmID (previous_state r c) = al_ID a"
    by (auto simp: linked_def previous_state_def a(4))
  show "previous_alarm r c = a"
    using st(1,2) by (simp add: previous_alarm_def p t [symmetric] alarm_key_def)
qed

lemma previous_alarm_stored:
  assumes inv: "alarm_inv r" and c: "clean (al_TenantID c)" and found: "al_ID (previous_alarm r c) \<noteq> []"
  shows "gm_get (rp_alarms r) (alarm_key (previous_alarm r c)) = Some (previous_alarm r c)"
    "al_ID (previous_alarm r c) = ca_AlarmID (previous_state r c)" "alarm_ok (previous_alarm r c)"
proof -
  obtain a where a: "gm_get (rp_alarms r) (key [al_TenantID c, ca_AlarmID (previous_state r c)]) = Some a" "previous_alarm r c = a"
    using found by (auto simp: previous_alarm_def zero_Alarm_def split: option.splits)
  note st = inv_stored [OF inv a(1)]
  have "clean (al_TenantID a)" using st(2) by (simp add: alarm_ok_def)
  with st(1) c have "al_ID a = ca_AlarmID (previous_state r c)" by (simp add: alarm_key_def key2_inject)
  with st a show "gm_get (rp_alarms r) (alarm_key (previous_alarm r c)) = Some (previous_alarm r c)"
    "al_ID (previous_alarm r c) = ca_AlarmID (previous_state r c)" "alarm_ok (previous_alarm r c)" by simp_all
qed

text \<open>The two writes of a transition, in the order that suits the proof.\<close>

definition component_write :: "Alarm \<Rightarrow> ComponentAlarmState \<Rightarrow> Alarm \<Rightarrow> string \<Rightarrow> repo \<Rightarrow> repo" where
  "component_write c state a event r =
     (let r1 = r\<lparr>rp_componentAlarms := gm_put (rule_key c) (state\<lparr>ca_AlarmID := al_ID a, ca_Event := event\<rparr>) (rp_componentAlarms r)\<rparr>
      in if al_ID a = [] then r1
         else put_alarm (a\<lparr>al_Version := (case gm_get (rp_alarms r) (alarm_key a) of None \<Rightarrow> 0 | Some b \<Rightarrow> al_Version b) + 1\<rparr>) r1)"

lemma ApplyComponentAlarm_snd:
  "rp_alarms (snd (ApplyComponentAlarm c state r)) = rp_alarms r' \<and> rp_componentAlarms (snd (ApplyComponentAlarm c state r)) = rp_componentAlarms r'"
  if "r' = (if (ca_MessageID state = ca_MessageID (previous_state r c) \<and> ca_Timestamp state = ca_Timestamp (previous_state r c)) \<or>
               \<not> Supersedes state (previous_state r c) then r
            else (case TransitionComponentAlarm c (previous_alarm r c) state of (a, event) \<Rightarrow> component_write c state a event r))"
  unfolding that ApplyComponentAlarm_def previous_alarm_def previous_state_def rule_key_def component_write_def Let_def
  by (auto simp: alarm_key_def put_alarm_def split: prod.splits)

lemma component_update_fields:
  assumes "alarm_open old" "ca_Active state" "TransitionComponentAlarm c old state = (a, event)"
  shows "al_TenantID a = al_TenantID old" "al_ID a = al_ID old" "al_RuleID a = al_RuleID old" "al_DeviceID a = al_DeviceID old"
    "al_AlarmType a = al_AlarmType old" "al_FirstTriggeredAt a = al_FirstTriggeredAt old" "al_Status a = al_Status old"
    "al_TriggerCount a = al_TriggerCount old + 1" "al_Disposition a = al_Disposition old" "al_Attachments a = al_Attachments old"
    "al_AlarmLevel a = al_AlarmLevel old"
  using assms by (cases "al_ComponentName c = []"; cases "al_ComponentLocation c = []"; auto simp: TransitionComponentAlarm_def Let_def)+

lemma evolves_component_update:
  assumes "alarm_open old" "ca_Active state" "TransitionComponentAlarm c old state = (a, event)"
  shows "evolves old (a\<lparr>al_Version := al_Version old + 1\<rparr>)" "alarm_ok old \<Longrightarrow> alarm_ok a" "alarm_key a = alarm_key old"
    "alarm_open a" "al_ID a = al_ID old"
  using component_update_fields [OF assms] assms(1)
  by (simp_all add: evolves_def alarm_ok_def RequiresVerification_def alarm_key_def alarm_open_def)

lemma component_clear_eq:
  assumes "\<not> ca_Active state" "TransitionComponentAlarm c old state = (a, event)"
  shows "a = (if alarm_open old then old\<lparr>al_Status := ''RECOVERED'', al_RecoveredAt := al_LastTriggeredAt c\<rparr> else old)"
  using assms by (simp add: TransitionComponentAlarm_def Let_def split: if_splits)

lemma evolves_component_clear:
  assumes "\<not> ca_Active state" "TransitionComponentAlarm c old state = (a, event)"
  shows "evolves old (a\<lparr>al_Version := al_Version old + 1\<rparr>)" "alarm_ok old \<Longrightarrow> alarm_ok a" "alarm_key a = alarm_key old"
    "\<not> alarm_open a" "al_ID a = al_ID old"
proof -
  note a = component_clear_eq [OF assms]
  show "alarm_key a = alarm_key old" "al_ID a = al_ID old" "\<not> alarm_open a"
    by (simp_all add: a alarm_key_def alarm_open_def)
  show "evolves old (a\<lparr>al_Version := al_Version old + 1\<rparr>)"
    by (simp add: a evolves_def status_reach_def alarm_open_def)
  show "alarm_ok old \<Longrightarrow> alarm_ok a"
    by (simp add: a alarm_ok_def)
qed

lemma component_write_inv:
  assumes inv: "alarm_inv r" and new: "new_alarm r c" and comp: "component_rule (al_RuleID c)"
    and tr: "TransitionComponentAlarm c (previous_alarm r c) state = (a, event)"
  shows "alarm_inv (component_write c state a event r) \<and> history r (component_write c state a event r)"
proof -
  let ?old = "previous_alarm r c"
  let ?r1 = "r\<lparr>rp_componentAlarms := gm_put (rule_key c) (state\<lparr>ca_AlarmID := al_ID a, ca_Event := event\<rparr>) (rp_componentAlarms r)\<rparr>"
  have cl: "clean (al_TenantID c)" "clean (al_DeviceID c)" "al_ID c \<noteq> []" using new by (auto simp: new_alarm_def alarm_ok_def)
  note prev = open_component_is_previous [OF inv cl(1,2)]
  show ?thesis
  proof (cases "ca_Active state \<and> \<not> alarm_open ?old")
    case True
    then have a: "a = c" using tr by (simp add: TransitionComponentAlarm_def)
    have none: "\<not> (alarm_open b \<and> component_rule (al_RuleID b) \<and> rule_key b = rule_key c)" if "(j, b) \<in> set (rp_alarms r)" for j b
      using prev(1) [OF that] True by auto
    have r1: "alarm_inv ?r1" using none by (intro component_state_inv [OF inv]) blast
    have abs: "gm_get (rp_alarms r) (alarm_key c) = None" using new by (simp add: new_alarm_def stored_alarm_def alarm_key_def)
    have "\<not> same_open c b" if "(j, b) \<in> set (rp_alarms r)" for j b
      using none [OF that] comp by (auto simp: same_open_def rule_key_def)
    then have "may_store ?r1 (c\<lparr>al_Version := 1\<rparr>)"
      using new abs a by (auto simp: may_store_def new_alarm_def linked_def rule_key_def same_open_def)
    from put_alarm_inv [OF r1 this] show ?thesis
      using abs a cl(3) by (simp add: component_write_def history_def)
  next
    case False
    have upd: "evolves ?old (a\<lparr>al_Version := al_Version ?old + 1\<rparr>)" "alarm_ok ?old \<Longrightarrow> alarm_ok a"
      "alarm_key a = alarm_key ?old" "alarm_open a \<Longrightarrow> alarm_open ?old" "al_ID a = al_ID ?old"
      using evolves_component_update [OF _ _ tr] evolves_component_clear [OF _ tr] False by blast+
    have r1: "alarm_inv ?r1"
    proof (rule component_state_inv [OF inv])
      fix j b
      assume "(j, b) \<in> set (rp_alarms r)" "alarm_open b" "component_rule (al_RuleID b)" "rule_key b = rule_key c"
      then show "al_ID b = ca_AlarmID (state\<lparr>ca_AlarmID := al_ID a, ca_Event := event\<rparr>)" using prev(1) upd(5) by simp
    qed
    show ?thesis
    proof (cases "al_ID a = []")
      case True
      then show ?thesis using r1 by (simp add: component_write_def history_def)
    next
      case False
      then have st: "gm_get (rp_alarms r) (alarm_key ?old) = Some ?old" "alarm_ok ?old"
        using previous_alarm_stored [OF inv cl(1)] upd(5) by simp_all
      have "may_store ?r1 (a\<lparr>al_Version := al_Version ?old + 1\<rparr>)"
        using may_store_update [OF r1 _ upd(1)] st upd by simp
      from put_alarm_inv [OF r1 this] show ?thesis
        using False st upd(3) by (simp add: component_write_def history_def)
    qed
  qed
qed

lemma ApplyComponentAlarm_inv:
  assumes inv: "alarm_inv r" and new: "new_alarm r c" and comp: "component_rule (al_RuleID c)"
  shows "alarm_inv (snd (ApplyComponentAlarm c state r))" "history r (snd (ApplyComponentAlarm c state r))"
proof -
  obtain a event where tr: "TransitionComponentAlarm c (previous_alarm r c) state = (a, event)" by fastforce
  define r' where "r' = (if (ca_MessageID state = ca_MessageID (previous_state r c) \<and> ca_Timestamp state = ca_Timestamp (previous_state r c)) \<or>
      \<not> Supersedes state (previous_state r c) then r else component_write c state a event r)"
  have same: "rp_alarms (snd (ApplyComponentAlarm c state r)) = rp_alarms r'"
    "rp_componentAlarms (snd (ApplyComponentAlarm c state r)) = rp_componentAlarms r'"
    using ApplyComponentAlarm_snd [of r' state r c] tr by (auto simp: r'_def)
  have "alarm_inv r' \<and> history r r'"
    using component_write_inv [OF inv new comp tr] inv by (simp add: r'_def)
  then show "alarm_inv (snd (ApplyComponentAlarm c state r))" "history r (snd (ApplyComponentAlarm c state r))"
    using alarm_inv_same [OF same] by (simp_all add: history_def same)
qed

end
