(* ===== verification/Redelivery.thy ===== *)
theory Redelivery
  imports Alarm_Store
begin

text \<open>
  The bus delivers a message at least once, so every write of an alarm meets its own repetition. Reports of external events
  and of components recognise the repetition and change nothing; a report for an alarm that is already open is recognised
  only when it is the one that opened the alarm.
\<close>

subsection \<open>External events\<close>

lemma addOutbox_alarms [simp]: "rp_alarms (addOutbox e r) = rp_alarms r" "rp_componentAlarms (addOutbox e r) = rp_componentAlarms r"
  by (simp_all add: addOutbox_def Let_def split: option.splits)

lemma UpsertExternalAlarm_again:
  assumes "UpsertExternalAlarm v r = (Inr (a, created, changed), r1)"
  shows "UpsertExternalAlarm v r1 = (Inr (a, False, False), r1)"
  using assms by (auto simp: UpsertExternalAlarm_def put_alarm_def Let_def split: option.splits if_splits)

subsection \<open>Components\<close>

definition repeated :: "ComponentAlarmState \<Rightarrow> ComponentAlarmState \<Rightarrow> bool" where
  "repeated s p \<longleftrightarrow> ca_MessageID s = ca_MessageID p \<and> ca_Timestamp s = ca_Timestamp p"

lemma ApplyComponentAlarm_alt:
  "ApplyComponentAlarm c s r =
     (if repeated s (previous_state r c) then ((previous_alarm r c, ca_Event (previous_state r c)), r)
      else if \<not> Supersedes s (previous_state r c) then ((previous_alarm r c, []), r)
      else let (alarm, event) = TransitionComponentAlarm c (previous_alarm r c) s;
               state' = s\<lparr>ca_AlarmID := al_ID alarm, ca_Event := event\<rparr>;
               stored = (case gm_get (rp_alarms r) (key [al_TenantID alarm, al_ID alarm]) of None \<Rightarrow> 0 | Some a \<Rightarrow> al_Version a);
               alarm' = (if al_ID alarm \<noteq> [] then alarm\<lparr>al_Version := stored + 1\<rparr> else alarm);
               r1 = (if al_ID alarm \<noteq> [] then put_alarm alarm' r else r);
               r2 = (if al_ID alarm \<noteq> [] \<and> ca_Active s then addOutbox (AlarmReportEvent alarm' c) r1 else r1)
           in ((alarm', event), r2\<lparr>rp_componentAlarms := gm_put (rule_key c) state' (rp_componentAlarms r2)\<rparr>))"
  unfolding ApplyComponentAlarm_def repeated_def previous_alarm_def previous_state_def rule_key_def by (simp only: Let_def)

lemma ApplyComponentAlarm_cases:
  obtains (repeated) "repeated s (previous_state r c)" "ApplyComponentAlarm c s r = ((previous_alarm r c, ca_Event (previous_state r c)), r)"
  | (outdated) "\<not> repeated s (previous_state r c)" "\<not> Supersedes s (previous_state r c)" "ApplyComponentAlarm c s r = ((previous_alarm r c, []), r)"
  | (applied) a e i where "\<not> repeated s (previous_state r c)" "Supersedes s (previous_state r c)" "fst (ApplyComponentAlarm c s r) = (a, e)"
      "rp_componentAlarms (snd (ApplyComponentAlarm c s r)) = gm_put (rule_key c) (s\<lparr>ca_AlarmID := i, ca_Event := e\<rparr>) (rp_componentAlarms r)"
proof -
  consider "repeated s (previous_state r c)" | "\<not> repeated s (previous_state r c)" "\<not> Supersedes s (previous_state r c)"
    | "\<not> repeated s (previous_state r c)" "Supersedes s (previous_state r c)" by blast
  then show thesis
  proof cases
    case 1
    then show thesis using repeated
      by (simp add: ApplyComponentAlarm_alt)
  next
    case 2
    then show thesis using outdated
      by (simp add: ApplyComponentAlarm_alt)
  next
    case 3
    obtain x e where t: "TransitionComponentAlarm c (previous_alarm r c) s = (x, e)" by fastforce
    define out where "out = ApplyComponentAlarm c s r"
    have "snd (fst out) = e" "rp_componentAlarms (snd out) = gm_put (rule_key c) (s\<lparr>ca_AlarmID := al_ID x, ca_Event := e\<rparr>) (rp_componentAlarms r)"
      using 3 t by (simp_all add: out_def ApplyComponentAlarm_alt Let_def put_alarm_def)
    then show thesis using applied [of "fst (fst out)" e "al_ID x"] 3 by (simp add: out_def prod_eq_iff)
  qed
qed

lemma previous_after:
  "rp_componentAlarms r' = gm_put (rule_key c) s (rp_componentAlarms r) \<Longrightarrow> previous_state r' c = s"
  by (simp add: previous_state_def)

lemma ApplyComponentAlarm_repeated:
  "repeated s (previous_state r c) \<Longrightarrow> ApplyComponentAlarm c s r = ((previous_alarm r c, ca_Event (previous_state r c)), r)"
  by (rule ApplyComponentAlarm_cases [of s r c]) auto

lemma ApplyComponentAlarm_again:
  assumes "ApplyComponentAlarm c s r = ((a, e), r1)"
  shows "\<exists>a'. ApplyComponentAlarm c s r1 = ((a', e), r1)"
proof (cases rule: ApplyComponentAlarm_cases [of s r c])
  case (applied a' e' i)
  with assms have "previous_state r1 c = s\<lparr>ca_AlarmID := i, ca_Event := e\<rparr>" by (simp add: previous_after)
  moreover from this have "repeated s (previous_state r1 c)" by (simp add: repeated_def)
  ultimately show ?thesis using ApplyComponentAlarm_repeated [of s r1 c] by simp
qed (use assms in auto)

definition watermark :: "repo \<Rightarrow> string \<Rightarrow> int" where
  "watermark r k = (case gm_get (rp_componentAlarms r) k of None \<Rightarrow> 0 | Some s \<Rightarrow> ca_Timestamp s)"

lemma Supersedes_time: "Supersedes s p \<Longrightarrow> ca_Timestamp p \<le> ca_Timestamp s"
  by (simp add: Supersedes_def split: if_splits)

lemma watermark_previous: "watermark r (rule_key c) = ca_Timestamp (previous_state r c)"
  by (simp add: watermark_def previous_state_def zero_ComponentAlarmState_def split: option.splits)

lemma ApplyComponentAlarm_watermark: "watermark r k \<le> watermark (snd (ApplyComponentAlarm c s r)) k"
proof (cases rule: ApplyComponentAlarm_cases [of s r c])
  case (applied a e i)
  show ?thesis
  proof (cases "k = rule_key c")
    case True
    have "watermark (snd (ApplyComponentAlarm c s r)) k = ca_Timestamp s" using applied(4) True by (simp add: watermark_def)
    then show ?thesis using Supersedes_time [OF applied(2)] True by (simp add: watermark_previous)
  next
    case False
    then show ?thesis using applied(4) by (simp add: watermark_def)
  qed
qed simp_all

subsection \<open>Rule and device alarms\<close>

lemma find_holds: "find P xs = Some x \<Longrightarrow> P x"
  by (induction xs) (auto split: if_splits)

lemma find_put:
  assumes "gm_ok m" "find P m = Some (k, a)" "P (k, a')"
  shows "find P (gm_put k a' m) = Some (k, a')"
  using assms unfolding gm_ok_def gm_put_def
proof (induction m)
  case (Cons x m)
  obtain l b where x: "x = (l, b)" by (cases x)
  show ?case
  proof (cases "P (l, b)")
    case False
    then have f: "find P m = Some (k, a)" using Cons.prems(2) x by simp
    then have "(k, a) \<in> set m" by (metis find_Some_iff nth_mem)
    then have "l \<noteq> k" using Cons.prems(1) x by force
    then show ?thesis using Cons False f x by simp
  qed (use Cons x in simp)
qed simp

text \<open>The report that opened the alarm is recognised; any later one is counted every time it is delivered.\<close>

lemma UpsertAlarm_first_again:
  assumes "find (\<lambda>(k, a). same_open v a) (rp_alarms r) = Some (k, a)" "al_TriggerID a = al_TriggerID v" "al_TriggerID v \<noteq> []"
  shows "UpsertAlarm v r = ((a, False), r)"
  using assms by (simp add: UpsertAlarm_def)

definition retriggered :: "Alarm \<Rightarrow> Alarm \<Rightarrow> Alarm" where
  "retriggered v a = a\<lparr>al_LastTriggeredAt := al_LastTriggeredAt v, al_TriggerCount := al_TriggerCount a + 1,
     al_Confidence := (if f64_lt (al_Confidence a) (al_Confidence v) then al_Confidence v else al_Confidence a), al_Version := al_Version a + 1\<rparr>"

lemma retriggered_fields [simp]:
  "al_TriggerCount (retriggered v a) = al_TriggerCount a + 1" "al_TriggerID (retriggered v a) = al_TriggerID a"
  "same_open x (retriggered v a) = same_open x a"
  by (simp_all add: retriggered_def same_open_def alarm_open_def)

lemma UpsertAlarm_later:
  assumes "find (\<lambda>(k, a). same_open v a) (rp_alarms r) = Some (k, a)" "al_TriggerID a \<noteq> al_TriggerID v"
  shows "UpsertAlarm v r = ((retriggered v a, False),
    addOutbox (AlarmReportEvent (retriggered v a) v) (r\<lparr>rp_alarms := gm_put k (retriggered v a) (rp_alarms r)\<rparr>))"
  using assms by (simp add: UpsertAlarm_def Let_def retriggered_def)

lemma UpsertAlarm_later_again:
  assumes ok: "gm_ok (rp_alarms r)" and f: "find (\<lambda>(k, a). same_open v a) (rp_alarms r) = Some (k, a)" and n: "al_TriggerID a \<noteq> al_TriggerID v"
  shows "al_TriggerCount (fst (fst (UpsertAlarm v (snd (UpsertAlarm v r))))) = al_TriggerCount a + 2"
proof -
  have "same_open v a" using find_holds [OF f] by simp
  then have "find (\<lambda>(k, a). same_open v a) (gm_put k (retriggered v a) (rp_alarms r)) = Some (k, retriggered v a)"
    using ok f by (intro find_put) auto
  then show ?thesis using n UpsertAlarm_later [of v "snd (UpsertAlarm v r)" k "retriggered v a"] by (simp add: UpsertAlarm_later [OF f n])
qed

end
