(* ===== verification/Device_State.thy ===== *)
theory Device_State
  imports Engine_Base
begin

text \<open>
  Device states: the versioned read-modify-write of \<^verbatim>\<open>consistency.go\<close>, the message, connection, timing and offline
  transitions of \<^verbatim>\<open>device_state.go\<close>, \<^verbatim>\<open>device_timing.go\<close> and \<^verbatim>\<open>connections.go\<close>, and the protocol
  cache of \<^verbatim>\<open>protocol_cache.go\<close> that the timing lookup goes through.
\<close>

subsection \<open>Protocol cache\<close>

definition protocolCacheTTL :: int where "protocolCacheTTL = 2000"

definition empty_protocols :: tenantProtocols where
  "empty_protocols = \<lparr>tp_bindings = [], tp_releases = [], tp_products = []\<rparr>"

definition tenant_protocols :: "string \<Rightarrow> engine \<Rightarrow> tenantProtocols" where
  "tenant_protocols tenant w = (case gm_get (en_protocols w) tenant of None \<Rightarrow> empty_protocols | Some t \<Rightarrow> t)"

definition set_tenant_protocols :: "string \<Rightarrow> (int \<Rightarrow> tenantProtocols \<Rightarrow> tenantProtocols) \<Rightarrow> unit eng" where
  "set_tenant_protocols tenant f = (\<lambda>w. (Inr (), w\<lparr>en_protocols :=
     gm_put tenant (f (en_clock w) (tenant_protocols tenant w)) (en_protocols w)\<rparr>))"

definition eresult :: "err + 'a \<Rightarrow> 'a eng" where
  "eresult r = (case r of Inl e \<Rightarrow> efail e | Inr x \<Rightarrow> eret x)"

definition fresh_entry :: "('a \<times> int) option \<Rightarrow> int \<Rightarrow> 'a option" where
  "fresh_entry entry now = (case entry of None \<Rightarrow> None
     | Some (x, loadedAt) \<Rightarrow> if now - loadedAt < protocolCacheTTL then Some x else None)"

definition productBinding :: "string \<Rightarrow> string \<Rightarrow> ProductProtocolBinding eng" where
  "productBinding tenant product =
     ebind (easks (\<lambda>w. fresh_entry (gm_get (tp_bindings (tenant_protocols tenant w)) product) (en_clock w))) (\<lambda>hit.
     case hit of Some res \<Rightarrow> eresult res
     | None \<Rightarrow> ebind (etry (repo_read (GetProductProtocolBinding tenant product))) (\<lambda>res.
         if res = Inl ErrNotFound \<or> \<not> isl res
         then ethen (set_tenant_protocols tenant (\<lambda>now t. t\<lparr>tp_bindings := gm_put product (res, now) (tp_bindings t)\<rparr>)) (eresult res)
         else eresult res))"

definition protocolRelease :: "string \<Rightarrow> string \<Rightarrow> string \<Rightarrow> ProtocolRelease eng" where
  "protocolRelease tenant protocolID version =
     (let k = protocolID @ ''@'' @ version in
      ebind (easks (\<lambda>w. fresh_entry (gm_get (tp_releases (tenant_protocols tenant w)) k) (en_clock w))) (\<lambda>hit.
      case hit of Some release \<Rightarrow> eret release
      | None \<Rightarrow> ebind (repo_read (GetProtocolRelease tenant protocolID version)) (\<lambda>release.
          ethen (set_tenant_protocols tenant (\<lambda>now t. t\<lparr>tp_releases := gm_put k (release, now) (tp_releases t)\<rparr>)) (eret release))))"

definition cachedProduct :: "string \<Rightarrow> string \<Rightarrow> Product eng" where
  "cachedProduct tenant product =
     ebind (easks (\<lambda>w. fresh_entry (gm_get (tp_products (tenant_protocols tenant w)) product) (en_clock w))) (\<lambda>hit.
     case hit of Some res \<Rightarrow> eresult res
     | None \<Rightarrow> ebind (etry (repo_read (GetProduct tenant product))) (\<lambda>res.
         if res = Inl ErrNotFound \<or> \<not> isl res
         then ethen (set_tenant_protocols tenant (\<lambda>now t. t\<lparr>tp_products := gm_put product (res, now) (tp_products t)\<rparr>)) (eresult res)
         else eresult res))"

definition ProtocolsChanged :: "string \<Rightarrow> unit eng" where
  "ProtocolsChanged tenant = (\<lambda>w. (Inr (), w\<lparr>en_protocols := gm_del tenant (en_protocols w)\<rparr>))"

subsection \<open>Versioned updates (consistency.go)\<close>

definition casAttempts :: nat where "casAttempts = 8"

text \<open>The body of the loop after the read: \<open>retry\<close> stands for the attempts that are left.\<close>

definition attempt_step ::
    "string \<Rightarrow> string \<Rightarrow> (DeviceState \<Rightarrow> bool \<Rightarrow> (bool \<times> DeviceState) eng) \<Rightarrow> (DeviceState \<times> DeviceState \<times> bool) eng \<Rightarrow>
     DeviceState \<Rightarrow> bool \<Rightarrow> (DeviceState \<times> DeviceState \<times> bool) eng" where
  "attempt_step tenant device fn retry current found =
     ebind (fn current found) (\<lambda>(write, nxt).
       if \<not> write then eret (current, current, False)
       else let nxt = nxt\<lparr>ds_TenantID := tenant, ds_DeviceID := device, ds_Version := ds_Version current\<rparr> in
         ebind (repo_upd (UpsertDeviceStateIf nxt)) (\<lambda>ok.
           if ok then eret (current, nxt\<lparr>ds_Version := ds_Version nxt + 1\<rparr>, True) else retry))"

primrec mutateDeviceState_loop ::
    "nat \<Rightarrow> string \<Rightarrow> string \<Rightarrow> (DeviceState \<Rightarrow> bool \<Rightarrow> (bool \<times> DeviceState) eng) \<Rightarrow> (DeviceState \<times> DeviceState \<times> bool) eng" where
  "mutateDeviceState_loop 0 tenant device fn = efail ErrConcurrentUpdate"
| "mutateDeviceState_loop (Suc n) tenant device fn =
     ebind (etry (repo_read (GetDeviceStateFresh tenant device))) (\<lambda>got.
     case got of
       Inl e \<Rightarrow> if e \<noteq> ErrNotFound then efail e
               else attempt_step tenant device fn (mutateDeviceState_loop n tenant device fn) zero_DeviceState False
     | Inr current \<Rightarrow> attempt_step tenant device fn (mutateDeviceState_loop n tenant device fn) current True)"

definition mutateDeviceState ::
    "string \<Rightarrow> string \<Rightarrow> (DeviceState \<Rightarrow> bool \<Rightarrow> (bool \<times> DeviceState) eng) \<Rightarrow> (DeviceState \<times> DeviceState \<times> bool) eng" where
  "mutateDeviceState tenant device fn = mutateDeviceState_loop casAttempts tenant device fn"

primrec mutateAlarm_loop :: "nat \<Rightarrow> string \<Rightarrow> string \<Rightarrow> (Alarm \<Rightarrow> (bool \<times> Alarm) eng) \<Rightarrow> (Alarm \<times> bool) eng" where
  "mutateAlarm_loop 0 tenant alarmID fn = efail ErrConcurrentUpdate"
| "mutateAlarm_loop (Suc n) tenant alarmID fn =
     ebind (repo_read (GetAlarm tenant alarmID)) (\<lambda>current.
     ebind (fn current) (\<lambda>(write, nxt).
       if \<not> write then eret (current, False)
       else let nxt = nxt\<lparr>al_Version := al_Version current\<rparr> in
         ebind (repo_try (UpdateAlarmIf nxt)) (\<lambda>ok.
           if ok then eret (nxt\<lparr>al_Version := al_Version nxt + 1\<rparr>, True)
           else mutateAlarm_loop n tenant alarmID fn)))"

definition mutateAlarm :: "string \<Rightarrow> string \<Rightarrow> (Alarm \<Rightarrow> (bool \<times> Alarm) eng) \<Rightarrow> (Alarm \<times> bool) eng" where
  "mutateAlarm tenant alarmID fn = mutateAlarm_loop casAttempts tenant alarmID fn"

definition publishStateChange :: "DeviceState \<Rightarrow> DeviceState \<Rightarrow> unit eng" where
  "publishStateChange before after =
     (if ds_BusinessStatus before = ds_BusinessStatus after \<and> ds_ConnectionStatus before = ds_ConnectionStatus after then eret ()
      else ethen (eignore (repo_op (\<lambda>now r. (Inr (), SaveDeviceStateEvent now after r))))
             (eignore (rt_publish (''/iot/device/state/'' @ ds_TenantID after @ ''/'' @ ds_ProductID after @ ''/'' @ ds_DeviceID after)
                (PState after) True)))"

text \<open>What every caller does with the result of a state mutation.\<close>

definition finish_state :: "(DeviceState \<times> DeviceState \<times> bool) eng \<Rightarrow> unit eng" where
  "finish_state m = ebind m (\<lambda>(before, after, written). if written then publishStateChange before after else eret ())"

subsection \<open>Timing (device\_timing.go)\<close>

definition EffectiveDeviceTiming :: "Product option \<Rightarrow> ManagedDevice option \<Rightarrow> int \<times> int" where
  "EffectiveDeviceTiming product device =
     (let interval = DefaultReportIntervalSec; tolerance = DefaultOfflineToleranceSec;
          interval = (case product of Some p \<Rightarrow> if pr_ReportIntervalSec p > 0 then pr_ReportIntervalSec p else interval | None \<Rightarrow> interval);
          tolerance = (case product of Some p \<Rightarrow> if pr_OfflineToleranceSec p > 0 then pr_OfflineToleranceSec p else tolerance | None \<Rightarrow> tolerance);
          interval = (case device of Some d \<Rightarrow> if md_ReportIntervalSec d > 0 then md_ReportIntervalSec d else interval | None \<Rightarrow> interval);
          tolerance = (case device of Some d \<Rightarrow> if md_OfflineToleranceSec d > 0 then md_OfflineToleranceSec d else tolerance | None \<Rightarrow> tolerance)
      in (interval, tolerance))"

definition to_opt :: "err + 'a \<Rightarrow> 'a option" where
  "to_opt r = (case r of Inl _ \<Rightarrow> None | Inr x \<Rightarrow> Some x)"

definition deviceTiming :: "string \<Rightarrow> string \<Rightarrow> string \<Rightarrow> (int \<times> int) eng" where
  "deviceTiming tenant productID deviceID =
     ebind (etry (cachedProduct tenant productID)) (\<lambda>p.
     ebind (etry (repo_read (GetManagedDevice tenant deviceID))) (\<lambda>d.
       eret (EffectiveDeviceTiming (to_opt p) (to_opt d))))"

definition deviceTimingPage :: int where "deviceTimingPage = 500"

text \<open>The states of a list of devices get the timing; the result counts the states that changed.\<close>

definition apply_timing :: "string \<Rightarrow> Product option \<Rightarrow> ManagedDevice list \<Rightarrow> nat \<Rightarrow> nat eng" where
  "apply_timing tenant product devices changed =
     efold devices changed (\<lambda>device changed.
       let (interval, tolerance) = EffectiveDeviceTiming product (Some device) in
       ebind (mutateDeviceState tenant (md_ID device) (\<lambda>state found.
           eret (if \<not> found \<or> (ds_ReportIntervalSec state = interval \<and> ds_OfflineToleranceSec state = tolerance) then (False, state)
                 else (True, state\<lparr>ds_ReportIntervalSec := interval, ds_OfflineToleranceSec := tolerance\<rparr>))))
         (\<lambda>(before, after, written).
           if written then ethen (publishStateChange before after) (eret (changed + 1)) else eret changed))"

definition timing_filter :: "string \<Rightarrow> string \<Rightarrow> DeviceFilter" where
  "timing_filter tenant productID = \<lparr>df_TenantID = tenant, df_Role = [], df_RestrictProducts = True, df_ProductIDs = [productID],
     df_RestrictDevices = False, df_DeviceIDs = [], df_Query = [], df_Status = [], df_Runtime = []\<rparr>"

text \<open>
  The page loop of \<^verbatim>\<open>ApplyDeviceTiming\<close>. A page is never longer than 100 devices, so the loop ends after its
  first page; the argument bounds the number of pages.
\<close>

primrec timing_pages :: "nat \<Rightarrow> string \<Rightarrow> string \<Rightarrow> Product option \<Rightarrow> int \<Rightarrow> nat \<Rightarrow> nat eng" where
  "timing_pages 0 tenant productID product offset changed = efail (ErrText ''out of pages'')"
| "timing_pages (Suc n) tenant productID product offset changed =
     ebind (repo_val (ListManagedDevicesFiltered (timing_filter tenant productID) deviceTimingPage offset)) (\<lambda>(devices, total).
     ebind (apply_timing tenant product devices changed) (\<lambda>changed.
       if int (length devices) < deviceTimingPage then eret changed
       else timing_pages n tenant productID product (offset + deviceTimingPage) changed))"

definition ApplyDeviceTiming :: "string \<Rightarrow> string \<Rightarrow> string \<Rightarrow> nat eng" where
  "ApplyDeviceTiming tenant productID deviceID =
     ethen (ProtocolsChanged tenant)
     (ebind (etry (repo_read (GetProduct tenant productID))) (\<lambda>p.
       if deviceID \<noteq> [] then
         ebind (repo_read (GetManagedDevice tenant deviceID)) (\<lambda>device.
           apply_timing tenant (to_opt p) [device] 0)
       else timing_pages 1 tenant productID (to_opt p) 0 0))"

subsection \<open>Message state (device\_state.go)\<close>

definition active_alarm_reason :: string where
  "active_alarm_reason = map (\<lambda>n. char_of n) [0xe5 :: nat, 0xad, 0x98, 0xe5, 0x9c, 0xa8, 0xe6, 0xb4, 0xbb, 0xe5, 0x8a, 0xa8,
     0xe5, 0x91, 0x8a, 0xe8, 0xad, 0xa6]"

definition StandardParserName :: string where "StandardParserName = ''iot_standard_parser''"

text \<open>The state of a device that has none yet.\<close>

definition initial_message_state :: "DeviceState \<Rightarrow> StandardMessage \<Rightarrow> DeviceState" where
  "initial_message_state state msg =
     (let interval = ds_ReportIntervalSec state; tolerance = ds_OfflineToleranceSec state;
          (interval, tolerance) = (if interval \<le> 0 then (DefaultReportIntervalSec, DefaultOfflineToleranceSec) else (interval, tolerance))
      in zero_DeviceState\<lparr>ds_TenantID := sm_TenantID msg, ds_ProductID := sm_ProductID msg, ds_DeviceID := sm_DeviceID msg,
           ds_ReportIntervalSec := interval, ds_OfflineToleranceSec := tolerance, ds_ConnectionStatus := ''UNKNOWN''\<rparr>)"

text \<open>A connection status carried by a state message of the standard parser.\<close>

definition reported_connection :: "StandardMessage \<Rightarrow> string option" where
  "reported_connection msg =
     (if sm_MessageType msg = StateChange \<and> sm_Parser msg = StandardParserName then
        (case gm_get (sm_Properties msg) ''connectionStatus'' of
           Some (VStr status) \<Rightarrow> if status = ''CONNECTED'' \<or> status = ''DISCONNECTED'' \<or> status = ''UNKNOWN'' then Some status else None
         | _ \<Rightarrow> None)
      else None)"

definition apply_message :: "DeviceState \<Rightarrow> StandardMessage \<Rightarrow> DeviceState" where
  "apply_message state msg =
     (let s1 = state\<lparr>ds_DataStatus := ''ACTIVE'',
           ds_BusinessStatus := (if sm_MessageType msg = AlarmReport \<or> equal_fold (ds_BusinessStatus state) ''ALARM'' then ''ALARM'' else ''ONLINE''),
           ds_LastSeenAt := sm_Timestamp msg, ds_LastMessageID := sm_MessageID msg, ds_StatusSource := ''RAW_MESSAGE''\<rparr>
      in case reported_connection msg of
           None \<Rightarrow> s1
         | Some status \<Rightarrow>
             (let s2 = s1\<lparr>ds_ConnectionStatus := status\<rparr> in
              if status = ''CONNECTED'' then s2\<lparr>ds_LastConnectAt := sm_Timestamp msg\<rparr>
              else if status = ''DISCONNECTED'' then s2\<lparr>ds_LastDisconnectAt := sm_Timestamp msg\<rparr> else s2))"

definition nextMessageState :: "DeviceState \<Rightarrow> bool \<Rightarrow> StandardMessage \<Rightarrow> bool \<Rightarrow> bool \<Rightarrow> bool \<times> DeviceState" where
  "nextMessageState state found msg reconcile isopen =
     (let state = (if found then state else initial_message_state state msg);
          late = sm_Timestamp msg < ds_LastSeenAt state
      in if late \<and> \<not> reconcile then (False, state)
         else let previous = state;
                  state = apply_message state msg;
                  state = (if late then previous else state);
                  state = (if reconcile then
                      (if isopen then state\<lparr>ds_BusinessStatus := ''ALARM'', ds_StatusSource := ''ACTIVE_ALARM'', ds_Reason := active_alarm_reason\<rparr>
                       else if \<not> late \<or> ds_BusinessStatus state = ''ALARM''
                       then state\<lparr>ds_BusinessStatus := ''ONLINE'', ds_StatusSource := ''RAW_MESSAGE'', ds_Reason := []\<rparr>
                       else state)
                    else state)
              in (True, state))"

definition applyMessageState :: "StandardMessage \<Rightarrow> bool \<Rightarrow> unit eng" where
  "applyMessageState msg reconcile =
     finish_state (mutateDeviceState (sm_TenantID msg) (sm_DeviceID msg) (\<lambda>state found.
       ebind (if reconcile then repo_val (HasOpenAlarm (sm_TenantID msg) (sm_DeviceID msg)) else eret False) (\<lambda>isopen.
       ebind (if found then eret state
              else ebind (deviceTiming (sm_TenantID msg) (sm_ProductID msg) (sm_DeviceID msg)) (\<lambda>(interval, tolerance).
                eret (state\<lparr>ds_ReportIntervalSec := interval, ds_OfflineToleranceSec := tolerance\<rparr>))) (\<lambda>state.
         eret (nextMessageState state found msg reconcile isopen)))))"

definition touchState :: "StandardMessage \<Rightarrow> unit eng" where
  "touchState msg = applyMessageState msg False"

text \<open>The status that follows the open alarms of a device.\<close>

definition business_state :: "string \<Rightarrow> bool \<Rightarrow> DeviceState \<Rightarrow> DeviceState" where
  "business_state product isopen state =
     (let state = (if ds_ProductID state = [] then state\<lparr>ds_ProductID := product\<rparr> else state) in
      if isopen then state\<lparr>ds_BusinessStatus := ''ALARM'', ds_StatusSource := ''ACTIVE_ALARM'', ds_Reason := active_alarm_reason\<rparr>
      else state\<lparr>ds_BusinessStatus := ''ONLINE'', ds_StatusSource := ''RAW_MESSAGE'', ds_Reason := []\<rparr>)"

definition syncDeviceBusinessStatus :: "string \<Rightarrow> string \<Rightarrow> string \<Rightarrow> unit eng" where
  "syncDeviceBusinessStatus tenant product device =
     finish_state (mutateDeviceState tenant device (\<lambda>state found.
       if \<not> found then eret (False, state)
       else ebind (repo_val (HasOpenAlarm tenant device)) (\<lambda>isopen.
         eret (True, business_state product isopen state))))"

definition updateDeviceState :: "DeviceState \<Rightarrow> unit eng" where
  "updateDeviceState state =
     finish_state (mutateDeviceState (ds_TenantID state) (ds_DeviceID state) (\<lambda>current _.
       eret (True, if ds_LastSeenAt state = 0 then state\<lparr>ds_LastSeenAt := ds_LastSeenAt current\<rparr> else state)))"

definition UpdateDeviceState :: "DeviceState \<Rightarrow> unit eng" where
  "UpdateDeviceState state = updateDeviceState state"

text \<open>
  \<^verbatim>\<open>handleState\<close>: the payload as a device state, when it parses as one with a device, and as a standard message.
\<close>

definition handleState :: "DeviceState option \<Rightarrow> StandardMessage option \<Rightarrow> unit eng" where
  "handleState as_state as_message =
     (if (case as_state of Some s \<Rightarrow> ds_DeviceID s \<noteq> [] | None \<Rightarrow> False) then UpdateDeviceState (the as_state)
      else case as_message of None \<Rightarrow> efail (ErrPermanent ''json'') | Some msg \<Rightarrow> touchState msg)"

definition ReportConnection :: "string \<Rightarrow> string \<Rightarrow> string \<Rightarrow> bool \<Rightarrow> int \<Rightarrow> unit eng" where
  "ReportConnection tenant product device isconn at_ms =
     finish_state (mutateDeviceState tenant device (\<lambda>state found.
       ebind (if found then eret state
              else ebind (deviceTiming tenant product device) (\<lambda>(interval, tolerance).
                eret (zero_DeviceState\<lparr>ds_TenantID := tenant, ds_ProductID := product, ds_DeviceID := device, ds_DataStatus := ''UNKNOWN'',
                   ds_BusinessStatus := ''UNKNOWN'', ds_ReportIntervalSec := interval, ds_OfflineToleranceSec := tolerance\<rparr>))) (\<lambda>state.
         eret (True,
           if isconn then state\<lparr>ds_ConnectionStatus := ''CONNECTED'', ds_LastConnectAt := at_ms, ds_StatusSource := ''LISTENER_SESSION''\<rparr>
           else state\<lparr>ds_ConnectionStatus := ''DISCONNECTED'', ds_LastDisconnectAt := at_ms, ds_StatusSource := ''LISTENER_SESSION''\<rparr>))))"

subsection \<open>The offline scan\<close>

definition offlineScanBatch :: nat where "offlineScanBatch = 1000"

definition mark_offline :: "int \<Rightarrow> DeviceState \<Rightarrow> DeviceState" where
  "mark_offline now s = s\<lparr>ds_DataStatus := ''SILENT'', ds_BusinessStatus := OfflineStatus s, ds_OfflineAt := OfflineDeadline s,
     ds_OfflineDetectedAt := now, ds_StatusSource := ''RAW_MESSAGE_TIMEOUT''\<rparr>"

definition scan_device :: "int \<Rightarrow> DeviceState \<Rightarrow> unit eng" where
  "scan_device now listed =
     ebind (etry (mutateDeviceState (ds_TenantID listed) (ds_DeviceID listed) (\<lambda>s found.
       eret (if \<not> found \<or> OfflineCheckAt s = 0 \<or> OfflineCheckAt s \<ge> now then (False, s) else (True, mark_offline now s)))) ) (\<lambda>res.
     case res of Inr (before, after, True) \<Rightarrow> publishStateChange before after | _ \<Rightarrow> eret ())"

text \<open>
  The loop of \<^verbatim>\<open>ScanOffline\<close> reads a batch of due devices until a batch is not full; the argument bounds the batches.
\<close>

primrec scan_batches :: "nat \<Rightarrow> int \<Rightarrow> unit eng" where
  "scan_batches 0 now = efail (ErrText ''scan budget exhausted'')"
| "scan_batches (Suc n) now =
     ebind (repo_val (ListOfflineDue now offlineScanBatch)) (\<lambda>states.
     ethen (efor states (scan_device now))
       (if length states < offlineScanBatch then eret () else scan_batches n now))"

definition ScanOffline :: "nat \<Rightarrow> unit eng" where
  "ScanOffline budget = ebind enow (\<lambda>now. scan_batches budget now)"

subsection \<open>The message transition\<close>

lemma apply_message_fields [simp]:
  "ds_LastSeenAt (apply_message s msg) = sm_Timestamp msg" "ds_LastMessageID (apply_message s msg) = sm_MessageID msg"
  "ds_DataStatus (apply_message s msg) = ''ACTIVE''" "ds_Version (apply_message s msg) = ds_Version s"
  by (simp_all add: apply_message_def Let_def split: option.splits)

lemma nextMessageState_late:
  assumes "sm_Timestamp msg < ds_LastSeenAt s"
  shows "nextMessageState s True msg False isopen = (False, s)"
    "nextMessageState s True msg True isopen = (True,
       if isopen then s\<lparr>ds_BusinessStatus := ''ALARM'', ds_StatusSource := ''ACTIVE_ALARM'', ds_Reason := active_alarm_reason\<rparr>
       else if ds_BusinessStatus s = ''ALARM'' then s\<lparr>ds_BusinessStatus := ''ONLINE'', ds_StatusSource := ''RAW_MESSAGE'', ds_Reason := []\<rparr>
       else s)"
  using assms by (simp_all add: nextMessageState_def Let_def)

lemma nextMessageState_seen:
  assumes "nextMessageState s True msg reconcile isopen = (wr, s')"
  shows "ds_LastSeenAt s' = (if wr then max (ds_LastSeenAt s) (sm_Timestamp msg) else ds_LastSeenAt s)"
  using assms by (auto simp: nextMessageState_def Let_def split: if_splits)

lemma nextMessageState_reconciled:
  assumes "nextMessageState s found msg True isopen = (wr, s')"
  shows "wr" "ds_BusinessStatus s' = ''ALARM'' \<longleftrightarrow> isopen"
  using assms by (auto simp: nextMessageState_def Let_def split: if_splits)

lemma initial_message_state_timing:
  "ds_ReportIntervalSec (initial_message_state s msg) > 0"
  by (auto simp: initial_message_state_def DefaultReportIntervalSec_def Let_def)

subsection \<open>The offline mark\<close>

lemma OfflineCheckAt_mark_offline: "OfflineCheckAt (mark_offline now s) = 0"
  by (rule OfflineCheckAt_marked) (simp_all add: mark_offline_def OfflineStatus_def OfflineDeadline_def)

subsection \<open>Compare-and-swap stores\<close>

text \<open>
  The contract of a versioned store: a write succeeds only on the version it names and then raises it. Other writers change
  a record only with a larger version and never remove it (\<open>disciplined\<close>).
\<close>

locale cas_store =
  fixes get :: "'r \<Rightarrow> 'v option" and cas :: "'v \<Rightarrow> 'r \<Rightarrow> bool \<times> 'r" and ver :: "'v \<Rightarrow> int" and stamp :: "'v \<Rightarrow> 'v"
  assumes cas_fail: "cas v r = (False, r') \<Longrightarrow> r' = r"
    and cas_ok: "cas v r = (True, r') \<Longrightarrow> get r' = Some (stamp v)"
    and cas_version: "cas v r = (True, r') \<Longrightarrow> get r = Some c \<Longrightarrow> ver c = ver v"
    and stamp_ver: "ver (stamp v) = ver v + 1"
begin

definition disciplined :: "'r \<Rightarrow> 'r \<Rightarrow> bool" where
  "disciplined r r' \<longleftrightarrow> (\<forall>c. get r = Some c \<longrightarrow> (\<exists>c'. get r' = Some c' \<and> (c' = c \<or> ver c < ver c')))"

lemma disciplined_refl: "disciplined r r"
  by (simp add: disciplined_def)

lemma disciplined_trans: "disciplined a b \<Longrightarrow> disciplined b c \<Longrightarrow> disciplined a c"
  unfolding disciplined_def by (metis order.strict_trans)

lemma cas_disciplined: "disciplined r (snd (cas v r))"
proof (cases "cas v r")
  case (Pair ok r')
  then show ?thesis
    using cas_fail [of v r r'] cas_ok [of v r r'] cas_version [of v r r'] stamp_ver [of v]
    by (cases ok) (auto simp: disciplined_def)
qed

text \<open>A write computed from a state read earlier, with its version, replaces exactly that state.\<close>

lemma no_lost_update:
  assumes "disciplined r0 r1" "get r0 = Some c" "ver v = ver c" "cas v r1 = (True, r2)"
  shows "get r1 = Some c"
proof -
  obtain c' where c': "get r1 = Some c'" "c' = c \<or> ver c < ver c'" using assms(1,2) by (auto simp: disciplined_def)
  with cas_version [OF assms(4) c'(1)] assms(3) show ?thesis by auto
qed

end

text \<open>A store whose writes with version zero create the record.\<close>

locale cas_create_store = cas_store +
  assumes cas_zero: "cas v r = (True, r') \<Longrightarrow> ver v = 0 \<Longrightarrow> get r = None"
    and cas_nonzero: "cas v r = (True, r') \<Longrightarrow> ver v \<noteq> 0 \<Longrightarrow> get r \<noteq> None"
begin

text \<open>What a successful write replaced, in terms of what its writer read.\<close>

lemma replaced:
  assumes "disciplined r0 r1" "cas v r1 = (True, r2)"
    and "case got of None \<Rightarrow> ver v = 0 | Some c \<Rightarrow> ver v = ver c \<and> get r0 = Some c"
  shows "get r1 = got"
  using assms cas_zero [OF assms(2)] no_lost_update [OF assms(1) _ _ assms(2)] by (cases got) auto

end

interpretation state_cas: cas_create_store "\<lambda>r. stored_state r t d" "\<lambda>v. UpsertDeviceStateIf (v\<lparr>ds_TenantID := t, ds_DeviceID := d\<rparr>)"
    ds_Version "\<lambda>v. v\<lparr>ds_TenantID := t, ds_DeviceID := d, ds_Version := ds_Version v + 1\<rparr>" for t d
  by unfold_locales (auto simp: UpsertDeviceStateIf_def stored_state_def Let_def split: if_splits option.splits)

interpretation alarm_cas: cas_store "\<lambda>r. stored_alarm r t i"
    "\<lambda>v r. case UpdateAlarmIf (v\<lparr>al_TenantID := t, al_ID := i\<rparr>) r of (Inr ok, r') \<Rightarrow> (ok, r') | (Inl _, r') \<Rightarrow> (False, r')"
    al_Version "\<lambda>v. v\<lparr>al_TenantID := t, al_ID := i, al_Version := al_Version v + 1\<rparr>" for t i
  by unfold_locales (auto simp: UpdateAlarmIf_def stored_alarm_def put_alarm_def split: if_splits option.splits)

subsection \<open>What the state operations keep\<close>

context stable_world
begin

lemma keeps_set_tenant [keep_rules]: "keeps P (set_tenant_protocols t f)"
  by (rule keepsI) (simp add: set_tenant_protocols_def caches)

lemma keeps_ProtocolsChanged [keep_rules]: "keeps P (ProtocolsChanged t)"
  by (rule keepsI) (simp add: ProtocolsChanged_def caches)

lemma keeps_eresult [keep_rules]: "keeps P (eresult r)"
  unfolding eresult_def by (intro keep_rules)

lemma keeps_productBinding [keep_rules]: "keeps P (productBinding t p)"
  unfolding productBinding_def by (intro keep_rules)

lemma keeps_protocolRelease [keep_rules]: "keeps P (protocolRelease t p v)"
  unfolding protocolRelease_def by (intro keep_rules)

lemma keeps_cachedProduct [keep_rules]: "keeps P (cachedProduct t p)"
  unfolding cachedProduct_def by (intro keep_rules)

lemma keeps_deviceTiming [keep_rules]: "keeps P (deviceTiming t p d)"
  unfolding deviceTiming_def by (intro keep_rules)

lemma keeps_publishStateChange [keep_rules]: "keeps P (publishStateChange a b)"
  unfolding publishStateChange_def by (intro keep_rules keeps_frame_op) (simp_all add: SaveDeviceStateEvent_def)

end

text \<open>A predicate that versioned writes of device states keep as well.\<close>

locale state_world = stable_world +
  assumes state_write: "P w \<Longrightarrow> P (w\<lparr>en_repo := snd (UpsertDeviceStateIf v (en_repo w))\<rparr>)"
begin

lemma keeps_state_write [keep_rules]: "keeps P (repo_upd (UpsertDeviceStateIf v))"
proof -
  have "P (w\<lparr>en_repo := r\<rparr>)" if "P w" "UpsertDeviceStateIf v (en_repo w) = (x, r)" for w x r
    using state_write [OF that(1), of v] that(2) by simp
  then show ?thesis unfolding repo_upd_def by (intro keeps_repo_op) (auto split: prod.splits)
qed

lemma keeps_mutateDeviceState [keep_rules]:
  "(\<And>s f. keeps P (fn s f)) \<Longrightarrow> keeps P (mutateDeviceState t d fn)"
proof -
  assume fn: "\<And>s f. keeps P (fn s f)"
  have "keeps P (mutateDeviceState_loop n t d fn)" for n
    by (induction n) (auto simp: attempt_step_def intro!: keep_rules fn)
  then show ?thesis by (simp add: mutateDeviceState_def)
qed

lemma keeps_finish_state [keep_rules]: "keeps P m \<Longrightarrow> keeps P (finish_state m)"
  unfolding finish_state_def by (intro keep_rules)

lemma keeps_applyMessageState [keep_rules]: "keeps P (applyMessageState msg b)"
  unfolding applyMessageState_def by (intro keep_rules)

lemma keeps_syncDeviceBusinessStatus [keep_rules]: "keeps P (syncDeviceBusinessStatus t p d)"
  unfolding syncDeviceBusinessStatus_def by (intro keep_rules)

lemma keeps_UpdateDeviceState [keep_rules]: "keeps P (UpdateDeviceState s)"
  unfolding UpdateDeviceState_def updateDeviceState_def by (intro keep_rules)

lemma keeps_handleState [keep_rules]: "keeps P (handleState a b)"
  unfolding handleState_def touchState_def by (intro keep_rules)

lemma keeps_ReportConnection [keep_rules]: "keeps P (ReportConnection t p d c i)"
  unfolding ReportConnection_def by (intro keep_rules)

lemma keeps_scan_batches [keep_rules]: "keeps P (scan_batches n now)"
  by (induction n) (auto simp: scan_device_def intro!: keep_rules split: bool.split)

lemma keeps_ScanOffline [keep_rules]: "keeps P (ScanOffline n)"
  unfolding ScanOffline_def by (intro keep_rules)

lemma keeps_apply_timing [keep_rules]: "keeps P (apply_timing t p ds n)"
  unfolding apply_timing_def by (intro keep_rules)

lemma keeps_timing_pages [keep_rules]: "keeps P (timing_pages n t p q i c)"
  by (induction n arbitrary: i c) (auto intro!: keep_rules)

lemma keeps_ApplyDeviceTiming [keep_rules]: "keeps P (ApplyDeviceTiming t p d)"
  unfolding ApplyDeviceTiming_def by (intro keep_rules)

end

subsection \<open>Updates under interference\<close>

text \<open>
  \<open>since t d w0 w\<close>: the other workers of \<open>w\<close> respect the versions of the device's state, and so did everything that
  happened since \<open>w0\<close>.
\<close>

definition others_disciplined :: "string \<Rightarrow> string \<Rightarrow> engine \<Rightarrow> bool" where
  "others_disciplined t d w \<longleftrightarrow> (\<forall>ev \<in> set (en_sched w). \<forall>r. state_cas.disciplined t d r (ev_repo ev r))"

definition since :: "string \<Rightarrow> string \<Rightarrow> engine \<Rightarrow> engine \<Rightarrow> bool" where
  "since t d w0 w \<longleftrightarrow> others_disciplined t d w \<and> state_cas.disciplined t d (en_repo w0) (en_repo w)"

lemma disciplined_same_states: "rp_states r' = rp_states r \<Longrightarrow> state_cas.disciplined t d r0 r' = state_cas.disciplined t d r0 r"
  unfolding state_cas.disciplined_def by (simp add: stored_state_def)

interpretation since: stable_world "since t d w0" for t d w0
proof unfold_locales
  fix w assume s: "since t d w0 w"
  show "since t d w0 (snd (env_step w))"
  proof (cases "en_sched w")
    case Nil then show ?thesis using s by (simp add: env_step_def)
  next
    case (Cons ev evs)
    then have "state_cas.disciplined t d (en_repo w) (ev_repo ev (en_repo w))" using s by (simp add: since_def others_disciplined_def)
    with s Cons show ?thesis
      by (auto simp: env_step_def since_def others_disciplined_def intro: state_cas.disciplined_trans)
  qed
next
  fix w and r :: repo
  assume "since t d w0 w" "rp_states r = rp_states (en_repo w)"
  then show "since t d w0 (w\<lparr>en_repo := r\<rparr>)"
    using disciplined_same_states [of r "en_repo w" t d "en_repo w0"] by (simp add: since_def others_disciplined_def)
qed (simp_all add: since_def others_disciplined_def)

text \<open>A computation that only reads the device's state, as the functions given to the updates do.\<close>

definition reader :: "string \<Rightarrow> string \<Rightarrow> 'a eng \<Rightarrow> bool" where
  "reader t d m \<longleftrightarrow> (\<forall>w0. keeps (since t d w0) m)"

lemma readerD: "reader t d m \<Longrightarrow> since t d w0 w \<Longrightarrow> since t d w0 (snd (m w))"
  by (simp add: reader_def keeps_def)

lemma since_self: "others_disciplined t d w \<Longrightarrow> since t d w w"
  by (simp add: since_def state_cas.disciplined_refl)

lemma since_trans: "since t d w0 w1 \<Longrightarrow> since t d w1 w2 \<Longrightarrow> since t d w0 w2"
  by (auto simp: since_def intro: state_cas.disciplined_trans)

definition written_from :: "string \<Rightarrow> string \<Rightarrow> (DeviceState \<Rightarrow> bool \<Rightarrow> (bool \<times> DeviceState) eng) \<Rightarrow> engine \<Rightarrow> DeviceState \<Rightarrow> DeviceState \<Rightarrow> engine \<Rightarrow> bool" where
  "written_from t d fn w before after w' \<longleftrightarrow>
     (\<exists>r found w1 w2 nxt. state_cas.disciplined t d (en_repo w) r \<and>
        stored_state r t d = (if found then Some before else None) \<and> (\<not> found \<longrightarrow> before = zero_DeviceState) \<and>
        fn before found w1 = (Inr (True, nxt), w2) \<and>
        after = nxt\<lparr>ds_TenantID := t, ds_DeviceID := d, ds_Version := ds_Version before + 1\<rparr> \<and>
        en_repo w' = r\<lparr>rp_states := gm_put (key [t, d]) after (rp_states r)\<rparr>)"

lemma UpsertDeviceStateIf_True:
  assumes "UpsertDeviceStateIf v r = (True, r')"
  shows "r' = r\<lparr>rp_states := gm_put (key [ds_TenantID v, ds_DeviceID v]) (v\<lparr>ds_Version := ds_Version v + 1\<rparr>) (rp_states r)\<rparr>"
  using assms by (auto simp: UpsertDeviceStateIf_def Let_def split: if_splits)

text \<open>One attempt: the state was read as \<open>got\<close> in \<open>w1\<close>, computed up to \<open>w2\<close> and written.\<close>

lemma attempt_written:
  assumes s: "since t d w w1" and got: "stored_state (en_repo w1) t d = got"
    and b: "before = (case got of None \<Rightarrow> zero_DeviceState | Some c \<Rightarrow> c)"
    and fn: "fn before (got \<noteq> None) w1 = (Inr (True, nxt), w2)" "reader t d (fn before (got \<noteq> None))"
    and wr: "repo_upd (UpsertDeviceStateIf (nxt\<lparr>ds_TenantID := t, ds_DeviceID := d, ds_Version := ds_Version before\<rparr>)) w2 = (Inr True, w')"
  shows "written_from t d fn w before (nxt\<lparr>ds_TenantID := t, ds_DeviceID := d, ds_Version := ds_Version before + 1\<rparr>) w'"
proof -
  let ?v = "nxt\<lparr>ds_TenantID := t, ds_DeviceID := d, ds_Version := ds_Version before\<rparr>"
  have o1: "others_disciplined t d w1" using s by (simp add: since_def)
  have s2: "since t d w1 w2" using readerD [OF fn(2) since_self [OF o1]] fn(1) by simp
  define w3 where "w3 = snd (env_step w2)"
  have s3: "since t d w1 w3" using since.env [OF s2] by (simp add: w3_def)
  have cas: "UpsertDeviceStateIf ?v (en_repo w3) = (True, en_repo w')"
    using wr by (auto simp: repo_upd_def repo_op_def w3_def split: prod.splits if_splits)
  have z: "ds_Version zero_DeviceState = 0" by (simp add: zero_DeviceState_def)
  have "stored_state (en_repo w3) t d = got"
  proof (rule state_cas.replaced [of t d "en_repo w1" _ ?v "en_repo w'"])
    show "state_cas.disciplined t d (en_repo w1) (en_repo w3)" using s3 by (simp add: since_def)
    have "?v\<lparr>ds_TenantID := t, ds_DeviceID := d\<rparr> = ?v" by simp
    then show "UpsertDeviceStateIf (?v\<lparr>ds_TenantID := t, ds_DeviceID := d\<rparr>) (en_repo w3) = (True, en_repo w')" using cas by (simp only:)
    show "case got of None \<Rightarrow> ds_Version ?v = 0 | Some c \<Rightarrow> ds_Version ?v = ds_Version c \<and> stored_state (en_repo w1) t d = Some c"
      using got b z by (simp split: option.splits)
  qed
  moreover have "en_repo w' = (en_repo w3)\<lparr>rp_states := gm_put (key [t, d]) (?v\<lparr>ds_Version := ds_Version before + 1\<rparr>) (rp_states (en_repo w3))\<rparr>"
    using UpsertDeviceStateIf_True [OF cas] by simp
  moreover have "state_cas.disciplined t d (en_repo w) (en_repo w3)"
    using since_trans [OF s s3] by (simp add: since_def)
  ultimately show ?thesis
    unfolding written_from_def using fn(1) b
    by (intro exI [of _ "en_repo w3"] exI [of _ "got \<noteq> None"] exI [of _ w1] exI [of _ w2] exI [of _ nxt])
      (auto split: option.splits)
qed

lemma attempt_step_written:
  assumes s: "since t d w w1" and got: "stored_state (en_repo w1) t d = got"
    and b: "current = (case got of None \<Rightarrow> zero_DeviceState | Some c \<Rightarrow> c)" "found = (got \<noteq> None)"
    and rd: "\<And>st f. reader t d (fn st f)"
    and retry: "\<And>w1 w' before after. since t d w w1 \<Longrightarrow> retry w1 = (Inr (before, after, True), w') \<Longrightarrow> written_from t d fn w before after w'"
    and res: "attempt_step t d fn retry current found w1 = (Inr (before, after, True), w')"
  shows "written_from t d fn w before after w'"
proof -
  obtain nxt w2 where fn: "fn current found w1 = (Inr (True, nxt), w2)"
    using res by (auto simp: attempt_step_def ebind_eq eret_def split: sum.splits if_splits prod.splits) (metis prod.collapse)+
  define v where "v = nxt\<lparr>ds_TenantID := t, ds_DeviceID := d, ds_Version := ds_Version current\<rparr>"
  have s2: "since t d w w2" using readerD [OF rd s, of current found] fn by simp
  have s3: "since t d w (snd (repo_upd (UpsertDeviceStateIf v) w2))"
  proof -
    have e: "since t d w (snd (env_step w2))" using s2 by (rule since.env)
    have "state_cas.disciplined t d r (snd (UpsertDeviceStateIf v r))" for r
    proof -
      have "v\<lparr>ds_TenantID := t, ds_DeviceID := d\<rparr> = v" by (simp add: v_def)
      then show ?thesis using state_cas.cas_disciplined [of t d r v] by (simp only:)
    qed
    with e show ?thesis
      by (auto simp: repo_upd_def repo_op_def since_def others_disciplined_def split: prod.splits
          intro: state_cas.disciplined_trans) (metis snd_conv state_cas.disciplined_trans)
  qed
  obtain ok w3 where wr: "repo_upd (UpsertDeviceStateIf v) w2 = (Inr ok, w3)"
    using res fn by (auto simp: attempt_step_def ebind_eq v_def [symmetric] Let_def split: sum.splits) (metis prod.collapse)
  show ?thesis
  proof (cases ok)
    case True
    with res fn wr have "before = current" "after = v\<lparr>ds_Version := ds_Version v + 1\<rparr>" "w' = w3"
      by (simp_all add: attempt_step_def ebind_eq v_def [symmetric] Let_def eret_def)
    then show ?thesis
      using attempt_written [OF s got b(1), of fn nxt w2 w'] fn rd wr True b by (simp add: v_def)
  next
    case False
    with res fn wr have "retry w3 = (Inr (before, after, True), w')"
      by (simp add: attempt_step_def ebind_eq v_def [symmetric] Let_def)
    then show ?thesis using retry s3 wr by simp
  qed
qed

text \<open>
  No lost update: whatever the other workers do between the calls, a successful update replaced exactly the state it was
  computed from.
\<close>

lemma mutate_loop_no_lost_update:
  assumes rd: "\<And>st f. reader t d (fn st f)"
  shows "since t d w w1 \<Longrightarrow> mutateDeviceState_loop n t d fn w1 = (Inr (before, after, True), w') \<Longrightarrow> written_from t d fn w before after w'"
proof (induction n arbitrary: w1 w' before after)
  case 0
  then show ?case by (simp add: efail_def)
next
  case (Suc n)
  define g where "g = repo_read (GetDeviceStateFresh t d) w1"
  have s2: "since t d w (snd g)" using keepsD [OF since.keeps_repo_read Suc.prems(1)] by (simp add: g_def)
  have val: "fst g = Inl ErrTransient \<or> fst g = GetDeviceState t d (en_repo (snd g))"
    by (auto simp: g_def repo_read_def repo_op_def GetDeviceStateFresh_def split: prod.splits)
  note IH = Suc.IH
  show ?case
  proof (cases "stored_state (en_repo (snd g)) t d")
    case None
    with val Suc.prems(2) have "attempt_step t d fn (mutateDeviceState_loop n t d fn) zero_DeviceState False (snd g) = (Inr (before, after, True), w')"
      by (auto simp: ebind_eq etry_eq g_def [symmetric] efail_def GetDeviceState_def
          split: sum.splits if_splits)
    from attempt_step_written [OF s2 None _ _ rd IH this] show ?thesis by simp
  next
    case (Some c)
    with val Suc.prems(2) have "attempt_step t d fn (mutateDeviceState_loop n t d fn) c True (snd g) = (Inr (before, after, True), w')"
      by (auto simp: ebind_eq etry_eq g_def [symmetric] efail_def GetDeviceState_def
          split: sum.splits if_splits)
    from attempt_step_written [OF s2 Some _ _ rd IH this] show ?thesis by simp
  qed
qed

lemma reader_message_state:
  "reader t d (ebind (if reconcile then repo_val (HasOpenAlarm a b) else eret False) (\<lambda>isopen.
     ebind (if found then eret state else ebind (deviceTiming a p b) (\<lambda>(i, tol). eret (state\<lparr>ds_ReportIntervalSec := i, ds_OfflineToleranceSec := tol\<rparr>)))
       (\<lambda>state. eret (nextMessageState state found msg reconcile isopen))))"
  unfolding reader_def by (intro allI keep_rules)

text \<open>The timing of a template reaches one page of devices only.\<close>

lemma length_page: "0 < limit \<Longrightarrow> int (length (page xs offset limit)) \<le> limit"
  by (auto simp: page_def Let_def slice_def)

lemma length_filtered: "ListManagedDevicesFiltered f limit offset r = (ds, n) \<Longrightarrow> length ds \<le> 100"
proof -
  assume "ListManagedDevicesFiltered f limit offset r = (ds, n)"
  then obtain out lim off where "ds = page out off lim" "0 < lim" "lim \<le> 100"
    by (auto simp: ListManagedDevicesFiltered_def normalizePage_def Let_def split: if_splits)
  with length_page [of lim out off] show ?thesis by simp
qed

lemma efold_count:
  fixes f :: "'a \<Rightarrow> nat \<Rightarrow> nat eng"
  assumes "\<And>x a w a' w'. f x a w = (Inr a', w') \<Longrightarrow> a' \<le> a + 1"
  shows "efold xs c f w = (Inr n, w') \<Longrightarrow> n \<le> c + length xs"
proof (induction xs arbitrary: c w)
  case (Cons x xs)
  show ?case
  proof (cases "f x c w")
    case (Pair res w1)
    with Cons.prems obtain c' where c': "res = Inr c'" "efold xs c' f w1 = (Inr n, w')"
      by (cases res) (auto simp: ebind_eq)
    with assms Pair have "c' \<le> c + 1" by blast
    with Cons.IH [OF c'(2)] show ?thesis by simp
  qed
qed (simp add: eret_def)

lemma apply_timing_count: "apply_timing t p ds c w = (Inr n, w') \<Longrightarrow> n \<le> c + length ds"
  unfolding apply_timing_def
  by (erule efold_count [rotated]) (auto simp: ebind_eq ethen_eq eret_def Let_def split: prod.splits sum.splits if_splits)

lemma timing_pages_bound:
  assumes "timing_pages n t p q off c w = (Inr m, w')"
  shows "m \<le> c + 100"
proof (cases n)
  case 0
  with assms show ?thesis by (simp add: efail_def)
next
  case (Suc k)
  define l where "l = repo_val (ListManagedDevicesFiltered (timing_filter t p) deviceTimingPage off) w"
  obtain ds tot where l: "fst l = Inr (ds, tot)"
    using assms Suc by (auto simp: ebind_eq l_def [symmetric] split: sum.splits)
  have "length ds \<le> 100"
    using l length_filtered by (auto simp: l_def repo_val_def repo_read_def repo_op_def split: prod.splits if_splits)
  moreover from this have short: "int (length ds) < deviceTimingPage" by (simp add: deviceTimingPage_def)
  moreover obtain w1 where "apply_timing t q ds c (snd l) = (Inr m, w1)"
    using assms Suc l short by (auto simp: ebind_eq l_def [symmetric] eret_def split: sum.splits) (metis prod.collapse)
  ultimately show ?thesis using apply_timing_count by fastforce
qed

text \<open>The page bound of the loop is enough: no run asks for a second page.\<close>

lemma timing_pages_enough: "timing_pages (Suc n) t p q off c = timing_pages 1 t p q off c"
proof
  fix w
  define l where "l = repo_val (ListManagedDevicesFiltered (timing_filter t p) deviceTimingPage off) w"
  have "int (length ds) < deviceTimingPage" if "fst l = Inr (ds, tot)" for ds tot
    using that length_filtered
    by (fastforce simp: deviceTimingPage_def l_def repo_val_def repo_read_def repo_op_def split: prod.splits if_splits)
  then show "timing_pages (Suc n) t p q off c w = timing_pages 1 t p q off c w"
    by (auto simp: ebind_eq l_def [symmetric] split: sum.splits)
qed

end
