(* ===== verification/Alarm_Engine.thy ===== *)
theory Alarm_Engine
  imports Device_State Rules Alarm_Store
begin

text \<open>
  Alarms in the engine: the lifecycle operations of operators (\<^verbatim>\<open>alarm_lifecycle.go\<close>), alarms of rules
  (\<^verbatim>\<open>alarm_rules.go\<close>), alarms a device asserts itself (\<^verbatim>\<open>alarm_direct.go\<close>), component alarms
  (\<^verbatim>\<open>component.go\<close>) and alarms of external events (\<^verbatim>\<open>external_data.go\<close>).
\<close>

subsection \<open>Operator actions (alarm\_lifecycle.go)\<close>

definition alarmLocation :: "string \<Rightarrow> string \<Rightarrow> string \<Rightarrow> AlarmLocation option eng" where
  "alarmLocation tenant device component =
     easks (\<lambda>w. case en_locator w of None \<Rightarrow> None | Some f \<Rightarrow> f tenant device component)"

definition alarmDeviceName :: "string \<Rightarrow> string \<Rightarrow> string eng" where
  "alarmDeviceName tenant device =
     ebind (etry (repo_read (GetManagedDevice tenant device))) (\<lambda>d.
       eret (case d of Inl _ \<Rightarrow> [] | Inr dev \<Rightarrow> trim_space (md_Name dev)))"

text \<open>The transition of an alarm to a status, at a time.\<close>

definition status_change :: "int \<Rightarrow> string \<Rightarrow> Alarm \<Rightarrow> err + Alarm" where
  "status_change now status a =
     (if status = ''ACKED'' then
        if al_Status a \<noteq> ''ACTIVE'' then Inl (ErrText ''only active alarms can be acknowledged'')
        else Inr (a\<lparr>al_Status := status, al_AckedAt := now\<rparr>)
      else if status = ''RECOVERED'' then
        if al_Status a \<noteq> ''ACTIVE'' \<and> al_Status a \<noteq> ''ACKED'' then Inl (ErrText ''only active or acknowledged alarms can be recovered'')
        else Inr (a\<lparr>al_Status := status, al_RecoveredAt := now\<rparr>)
      else if status = ''CLOSED'' then
        if RequiresVerification a \<and> al_Disposition a = None then Inl ErrDispositionRequired
        else Inr (a\<lparr>al_Status := status, al_ClosedAt := now\<rparr>)
      else if status = ''SUPPRESSED'' then
        if al_Status a \<noteq> ''ACTIVE'' \<and> al_Status a \<noteq> ''ACKED'' then Inl (ErrText ''only active or acknowledged alarms can be suppressed'')
        else Inr (a\<lparr>al_Status := status\<rparr>)
      else Inl (ErrText ''unsupported status''))"

definition audit :: "string \<Rightarrow> string \<Rightarrow> string \<Rightarrow> string \<Rightarrow> gval gomap \<Rightarrow> int \<Rightarrow> AuditLog" where
  "audit tenant actor action alarmID details now = \<lparr>au_ID = [], au_TenantID = tenant, au_Actor = actor, au_Action = action,
     au_TargetType = ''alarm'', au_TargetID = alarmID, au_Details = details, au_CreatedAt = now\<rparr>"

definition SetAlarmStatus :: "string \<Rightarrow> string \<Rightarrow> string \<Rightarrow> string \<Rightarrow> Alarm eng" where
  "SetAlarmStatus tenant alarmID status actor =
     ebind enow (\<lambda>now.
     ebind (mutateAlarm tenant alarmID (\<lambda>a. eresult (map_sum id (\<lambda>a'. (True, a')) (status_change now status a)))) (\<lambda>(a, _).
     ethen (syncDeviceBusinessStatus (al_TenantID a) [] (al_DeviceID a))
     (ethen (RecordAudit (audit tenant actor (''alarm.'' @ to_lower status) alarmID [] now))
     (ethen (if status = ''RECOVERED'' then publishEvent TopicAlarmRecovered (al_ID a) (Alarm_MQTTTopic a ''recovered'') (PAlarm a)
             else publishEvent TopicAlarmConfirmed (al_ID a) (Alarm_MQTTTopic a ''confirmed'') (PAlarm a))
       (eret a)))))"

text \<open>The newest successful analysis over the knowledge scopes.\<close>

definition analysis_scopes :: "string list" where
  "analysis_scopes = [[], ''alarm-handler'', ''legacy-tenant-knowledge'']"

definition latestAIAnalysis :: "string \<Rightarrow> string \<Rightarrow> AIAnalysis option eng" where
  "latestAIAnalysis tenant alarmID =
     efold analysis_scopes None (\<lambda>scope latest.
       ebind (etry (repo_read (GetAIAnalysis tenant alarmID scope))) (\<lambda>res. eret (case res of
           Inl _ \<Rightarrow> latest
         | Inr a \<Rightarrow> if ai_Error a \<noteq> [] \<or> ai_RiskLevel a = [] \<or>
               (case latest of Some l \<Rightarrow> ai_CreatedAt a \<le> ai_CreatedAt l | None \<Rightarrow> False) then latest else Some a)))"

definition verify_change :: "int \<Rightarrow> AlarmDisposition \<Rightarrow> Alarm \<Rightarrow> err + Alarm" where
  "verify_change now d a =
     (if al_Status a = ''CLOSED'' then Inl (ErrText ''closed alarms cannot be verified again'')
      else if di_ArrivedAt d \<noteq> 0 \<and> (di_ArrivedAt d < al_FirstTriggeredAt a \<or> di_ArrivedAt d > now)
      then Inl (ErrText ''arrival time must be between the alarm and now'')
      else Inr (a\<lparr>al_Disposition := Some d\<rparr>))"

definition VerifyAlarm :: "string \<Rightarrow> string \<Rightarrow> AlarmDisposition \<Rightarrow> string \<Rightarrow> Alarm eng" where
  "VerifyAlarm tenant alarmID d actor =
     (if \<not> ValidDispositionResult (di_Result d) then efail (ErrText ''unknown verification result'')
      else ebind enow (\<lambda>now.
        ebind (latestAIAnalysis tenant alarmID) (\<lambda>analysis.
        let d = d\<lparr>di_Handler := actor, di_VerifiedAt := now,
              di_AIAnalysisAt := (case analysis of None \<Rightarrow> 0 | Some x \<Rightarrow> ai_CreatedAt x),
              di_AIRiskLevel := (case analysis of None \<Rightarrow> [] | Some x \<Rightarrow> ai_RiskLevel x),
              di_AIPromptVersion := (case analysis of None \<Rightarrow> [] | Some x \<Rightarrow> ai_PromptVersion x)\<rparr> in
        ebind (mutateAlarm tenant alarmID (\<lambda>a. eresult (map_sum id (\<lambda>a'. (True, a')) (verify_change now d a)))) (\<lambda>(a, _).
        ethen (RecordAudit (audit tenant actor ''alarm.verify'' alarmID
                 [(''result'', VStr (di_Result d)), (''dispatchId'', VStr (di_DispatchID d))] now))
          (eret a)))))"

definition changeAttachments :: "string \<Rightarrow> string \<Rightarrow> string \<Rightarrow> string \<Rightarrow> AlarmAttachment \<Rightarrow> (Alarm \<Rightarrow> Alarm eng) \<Rightarrow> Alarm eng" where
  "changeAttachments tenant alarmID actor action att change =
     ebind (mutateAlarm tenant alarmID (\<lambda>a.
       if al_Status a = ''CLOSED'' then efail ErrAlarmClosed
       else ebind (change a) (\<lambda>a'. eret (True, a')))) (\<lambda>(a, _).
     ebind enow (\<lambda>now.
     ethen (RecordAudit (audit tenant actor action alarmID
              [(''attachmentId'', VStr (at_ID att)), (''name'', VStr (at_Name att)), (''size'', VInt KInt64 (at_Size att))] now))
       (eret a)))"

definition add_attachment :: "AlarmAttachment \<Rightarrow> Alarm \<Rightarrow> err + Alarm" where
  "add_attachment att a =
     (if length (al_Attachments a) \<ge> MaxAlarmAttachments then Inl ErrTooManyAttachments
      else Inr (a\<lparr>al_Attachments := al_Attachments a @ [att]\<rparr>))"

definition AddAlarmAttachment :: "string \<Rightarrow> string \<Rightarrow> AlarmAttachment \<Rightarrow> string \<Rightarrow> Alarm eng" where
  "AddAlarmAttachment tenant alarmID att actor =
     ebind enow (\<lambda>now.
       let att = att\<lparr>at_UploadedBy := actor, at_UploadedAt := now\<rparr> in
       changeAttachments tenant alarmID actor ''alarm.attachment.add'' att (\<lambda>a. eresult (add_attachment att a)))"

fun remove_first :: "('a \<Rightarrow> bool) \<Rightarrow> 'a list \<Rightarrow> 'a list" where
  "remove_first p [] = []"
| "remove_first p (x # xs) = (if p x then xs else x # remove_first p xs)"

definition remove_attachment :: "string \<Rightarrow> Alarm \<Rightarrow> Alarm" where
  "remove_attachment attachmentID a = a\<lparr>al_Attachments := remove_first (\<lambda>v. at_ID v = attachmentID) (al_Attachments a)\<rparr>"

definition zero_attachment :: AlarmAttachment where
  "zero_attachment = \<lparr>at_ID = [], at_Name = [], at_ContentType = [], at_Size = 0, at_SHA256 = [], at_UploadedBy = [], at_UploadedAt = 0\<rparr>"

text \<open>
  The function given to the update stores the attachment it removes in a variable of \<^verbatim>\<open>RemoveAlarmAttachment\<close>, which
  returns it; an update that is retried overwrites the variable.
\<close>

definition set_removed :: "AlarmAttachment option \<Rightarrow> unit eng" where
  "set_removed att = (\<lambda>w. (Inr (), w\<lparr>en_removed := att\<rparr>))"

definition RemoveAlarmAttachment :: "string \<Rightarrow> string \<Rightarrow> string \<Rightarrow> string \<Rightarrow> AlarmAttachment eng" where
  "RemoveAlarmAttachment tenant alarmID attachmentID actor =
     ethen (set_removed None)
     (ebind (changeAttachments tenant alarmID actor ''alarm.attachment.remove'' (zero_attachment\<lparr>at_ID := attachmentID\<rparr>) (\<lambda>a.
         case find (\<lambda>v. at_ID v = attachmentID) (al_Attachments a) of
           None \<Rightarrow> efail ErrAttachmentNotFound
         | Some att \<Rightarrow> ethen (set_removed (Some att)) (eret (remove_attachment attachmentID a)))) (\<lambda>_.
       ebind (easks en_removed) (\<lambda>removed. eret (case removed of None \<Rightarrow> zero_attachment | Some att \<Rightarrow> att))))"

end
