(* ===== verification/Alarm_Reports.thy ===== *)
theory Alarm_Reports
  imports Alarm_Engine Go_SHA256
begin

text \<open>
  How reports become alarms: the values a report carries (\<^verbatim>\<open>alarm_direct.go\<close>), the identity of external events
  (\<^verbatim>\<open>external_data.go\<close>), alarms raised and recovered by rules (\<^verbatim>\<open>alarm_rules.go\<close>), by the device itself
  (\<^verbatim>\<open>alarm_direct.go\<close>) and per component (\<^verbatim>\<open>component.go\<close>), and the rule cache (\<^verbatim>\<open>rule_cache.go\<close>).
\<close>

subsection \<open>Runes\<close>

text \<open>Go's decoding of a byte string into runes: an invalid byte counts as one rune, the replacement character.\<close>

definition in_range :: "nat \<Rightarrow> nat \<Rightarrow> char \<Rightarrow> bool" where
  "in_range lo hi c \<longleftrightarrow> lo \<le> (of_char c :: nat) \<and> (of_char c :: nat) \<le> hi"

definition rune_width :: "char \<Rightarrow> string \<Rightarrow> nat option" where
  "rune_width c rest =
     (let conts = (\<lambda>lo hi n. if n \<le> length rest \<and> 0 < n \<and> in_range lo hi (hd rest) \<and> list_all (in_range 0x80 0xbf) (take (n - 1) (tl rest))
                             then Some (n + 1) else None) in
      if in_range 0 0x7f c then Some 1
      else if in_range 0xc2 0xdf c then conts 0x80 0xbf 1
      else if in_range 0xe0 0xe0 c then conts 0xa0 0xbf 2
      else if in_range 0xed 0xed c then conts 0x80 0x9f 2
      else if in_range 0xe1 0xef c then conts 0x80 0xbf 2
      else if in_range 0xf0 0xf0 c then conts 0x90 0xbf 3
      else if in_range 0xf1 0xf3 c then conts 0x80 0xbf 3
      else if in_range 0xf4 0xf4 c then conts 0x80 0x8f 3
      else None)"

definition replacement :: string where
  "replacement = map (\<lambda>n. char_of n) [0xef :: nat, 0xbf, 0xbd]"

function runes :: "string \<Rightarrow> string list" where
  "runes [] = []"
| "runes (c # rest) = (case rune_width c rest of
     Some n \<Rightarrow> (c # take (n - 1) rest) # runes (drop (n - 1) rest)
   | None \<Rightarrow> replacement # runes rest)"
  by pat_completeness auto
termination by (relation "measure length") auto

definition truncateRunes :: "string \<Rightarrow> nat \<Rightarrow> string" where
  "truncateRunes s limit = (if length (runes s) > limit then concat (take limit (runes s)) else s)"

subsection \<open>Values of a report (alarm\_direct.go)\<close>

definition messageMap :: "golib \<Rightarrow> gval option \<Rightarrow> gval gomap option" where
  "messageMap lb v = (case v of
     Some (VMap m) \<Rightarrow> Some m
   | Some (VBytes s) \<Rightarrow> lb_json_map lb s
   | Some (VStr s) \<Rightarrow> lb_json_map lb s
   | _ \<Rightarrow> None)"

definition directMessageSources :: "golib \<Rightarrow> StandardMessage \<Rightarrow> gval gomap list" where
  "directMessageSources lb msg =
     [sm_Properties msg, sm_Event msg, sm_Raw msg] @
     (case messageMap lb (gm_get (sm_Raw msg) ''payload'') of
        None \<Rightarrow> []
      | Some payload \<Rightarrow> payload # (case messageMap lb (gm_get payload ''alarm'') of None \<Rightarrow> [] | Some alarm \<Rightarrow> [alarm])) @
     (case messageMap lb (gm_get (sm_Event msg) ''alarm'') of None \<Rightarrow> [] | Some alarm \<Rightarrow> [alarm])"

fun first_value :: "gval gomap list \<Rightarrow> string \<Rightarrow> gval option" where
  "first_value [] k = None"
| "first_value (source # sources) k = (case gm_get source k of Some v \<Rightarrow> Some v | None \<Rightarrow> first_value sources k)"

definition messageValue :: "golib \<Rightarrow> StandardMessage \<Rightarrow> string \<Rightarrow> gval option" where
  "messageValue lb msg k = first_value (directMessageSources lb msg) k"

fun firstMessageValue :: "golib \<Rightarrow> StandardMessage \<Rightarrow> string list \<Rightarrow> gval" where
  "firstMessageValue lb msg [] = VNil"
| "firstMessageValue lb msg (k # ks) = (case messageValue lb msg k of Some v \<Rightarrow> v | None \<Rightarrow> firstMessageValue lb msg ks)"

definition truthy :: "gval \<Rightarrow> bool" where
  "truthy v = (case v of
     VBool b \<Rightarrow> b
   | VFloat x \<Rightarrow> \<not> f64_eq x (FNum 0)
   | VFloat32 x \<Rightarrow> \<not> f64_eq x (FNum 0)
   | VInt k n \<Rightarrow> k \<in> {KInt, KInt64, KUint, KUint64} \<and> n \<noteq> 0
   | VStr s \<Rightarrow> equal_fold (trim_space s) ''true'' \<or> trim_space s = ''1'' \<or> equal_fold (trim_space s) ''yes'' \<or>
       equal_fold (trim_space s) ''on''
   | _ \<Rightarrow> False)"

definition messageFlag :: "golib \<Rightarrow> StandardMessage \<Rightarrow> string \<Rightarrow> bool" where
  "messageFlag lb msg k = (case messageValue lb msg k of Some v \<Rightarrow> truthy v | None \<Rightarrow> False)"

definition token_char :: "char \<Rightarrow> bool" where
  "token_char c \<longleftrightarrow> is_upper c \<or> is_digit c \<or> c = CHR ''_'' \<or> c = CHR ''.''"

definition normalizeAlarmToken :: "golib \<Rightarrow> gval \<Rightarrow> string" where
  "normalizeAlarmToken lb v =
     (if v = VNil then []
      else let s = to_upper (trim_space (sprint lb v)) in
        if s = [] \<or> s = ''<NIL>'' \<or> s = ''TRUE'' \<or> s = ''FALSE'' then []
        else take 64 (trim_by (\<lambda>c. c = CHR ''_'' \<or> c = CHR ''.'')
               (filter token_char (map (\<lambda>c. if c = CHR '' '' \<or> c = CHR ''-'' then CHR ''_'' else c) s))))"

definition maxAlarmContent :: nat where "maxAlarmContent = 500"

definition content_keys :: "string list" where
  "content_keys = [''content'', ''alarmContent'', ''alarm_content'', ''description'', ''alarmDesc'', ''alarm_desc'']"

fun reported_content :: "golib \<Rightarrow> StandardMessage \<Rightarrow> string list \<Rightarrow> string option" where
  "reported_content lb msg [] = None"
| "reported_content lb msg (k # ks) = (case messageValue lb msg k of
     Some (VStr s) \<Rightarrow> if trim_space s \<noteq> [] then Some (trim_space s) else reported_content lb msg ks
   | _ \<Rightarrow> reported_content lb msg ks)"

definition alarmContent :: "golib \<Rightarrow> StandardMessage \<Rightarrow> string list \<Rightarrow> string" where
  "alarmContent lb msg fallbacks =
     (case reported_content lb msg content_keys of
        Some s \<Rightarrow> truncateRunes s maxAlarmContent
      | None \<Rightarrow> (case find (\<lambda>s. s \<noteq> []) (map trim_space fallbacks) of
          Some s \<Rightarrow> truncateRunes s maxAlarmContent | None \<Rightarrow> []))"

definition directAlarmRulePrefix :: string where "directAlarmRulePrefix = ''device-report:''"

definition directAlarmRuleID :: "string \<Rightarrow> string" where
  "directAlarmRuleID alarmType = directAlarmRulePrefix @ alarmType"

definition directAlarmMetadata :: "golib \<Rightarrow> StandardMessage \<Rightarrow> string \<times> string" where
  "directAlarmMetadata lb msg =
     (let flag = messageFlag lb msg;
          alarmType = normalizeAlarmToken lb (firstMessageValue lb msg [''alarmType'', ''alarm_type'']);
          alarmType = (if alarmType \<noteq> [] then alarmType
            else if flag ''fireAlarm'' then ''FIRE''
            else if flag ''smoke'' \<or> flag ''smokeDetected'' then ''SMOKE_DETECTED''
            else if flag ''fault'' \<or> flag ''powerFault'' \<or> flag ''sensorFault'' then ''DEVICE_FAULT''
            else if flag ''offline'' then ''DEVICE_OFFLINE'' else ''MANUAL_ALARM'');
          level = normalizeAlarmToken lb (firstMessageValue lb msg [''alarmLevel'', ''alarm_level'', ''level'']);
          level = (if level \<in> {''CRITICAL'', ''HIGH'', ''MEDIUM'', ''LOW'', ''INFO''} then level else ''HIGH'')
      in (alarmType, level))"

text \<open>The flags of a list that are present: some is, and none is set.\<close>

fun cleared_flags :: "golib \<Rightarrow> StandardMessage \<Rightarrow> string list \<Rightarrow> bool \<Rightarrow> bool" where
  "cleared_flags lb msg [] found = found"
| "cleared_flags lb msg (k # ks) found = (case messageValue lb msg k of
     None \<Rightarrow> cleared_flags lb msg ks found
   | Some v \<Rightarrow> if truthy v then False else cleared_flags lb msg ks True)"

definition clear_keys :: "string list" where
  "clear_keys = [''alarm'', ''fireAlarm'', ''smoke'', ''smokeDetected'', ''fault'', ''offline'', ''powerFault'', ''openCircuit'',
     ''shortCircuit'', ''removed'', ''sensorFault'', ''upgradeFault'']"

definition directAlarmCleared :: "golib \<Rightarrow> StandardMessage \<Rightarrow> bool" where
  "directAlarmCleared lb msg =
     (if gm_get (sm_Event msg) ''type'' = Some (VStr ''COMPONENT_STATUS'') \<and> gm_get (sm_Event msg) ''objects'' \<noteq> None then False
      else if sm_MessageType msg \<noteq> PropertyReport \<and> sm_MessageType msg \<noteq> StateChange then False
      else cleared_flags lb msg clear_keys False)"

definition type_keys :: "string \<Rightarrow> string list" where
  "type_keys kind =
     (if kind = ''FIRE'' then [''fireAlarm'']
      else if kind = ''SMOKE_DETECTED'' then [''smoke'', ''smokeDetected'']
      else if kind = ''DEVICE_FAULT'' then [''fault'', ''powerFault'', ''openCircuit'', ''shortCircuit'', ''removed'', ''sensorFault'', ''upgradeFault'']
      else if kind = ''DEVICE_OFFLINE'' then [''offline'']
      else if kind = ''MANUAL_ALARM'' then [''alarm''] else [])"

definition directAlarmTypeCleared :: "golib \<Rightarrow> StandardMessage \<Rightarrow> string \<Rightarrow> bool" where
  "directAlarmTypeCleared lb msg kind = cleared_flags lb msg (type_keys kind) False"

definition tag :: "StandardMessage \<Rightarrow> string \<Rightarrow> string \<Rightarrow> string" where
  "tag m k fallback = (case gm_get (sm_Tags m) k of Some v \<Rightarrow> if v \<noteq> [] then v else fallback | None \<Rightarrow> fallback)"

subsection \<open>Cameras of a device (camera\_summary.go)\<close>

definition cameraSummary :: "VideoCameraMapping \<Rightarrow> CameraSummary" where
  "cameraSummary v = \<lparr>cs_CameraID = vm_CameraID v, cs_Brand = vm_Brand v, cs_CameraName = vm_CameraName v, cs_CameraPoint = vm_CameraPoint v,
     cs_DeviceID = vm_DeviceID v, cs_Building = vm_Building v, cs_Floor = vm_Floor v, cs_Room = vm_Room v, cs_Enabled = vm_Enabled v\<rparr>"

definition ListCameraSummaries :: "string \<Rightarrow> string \<Rightarrow> CameraSummary list eng" where
  "ListCameraSummaries tenant deviceID =
     (if trim_space tenant = [] \<or> trim_space deviceID = [] then eret []
      else ebind (repo_val (ListVideoCameraRelationsByTarget tenant ''device'' deviceID)) (\<lambda>relations.
        ebind (efold relations ([], []) (\<lambda>relation (out, seen).
          if vr_CameraID relation = [] \<or> vr_CameraID relation \<in> set seen then eret (out, seen)
          else ebind (repo_read (GetVideoCameraMapping tenant (vr_CameraID relation))) (\<lambda>mapping.
            eret (out @ [cameraSummary mapping], vr_CameraID relation # seen)))) (\<lambda>(out, _). eret out)))"

text \<open>A dropped error leaves the nil slice.\<close>

definition device_cameras :: "string \<Rightarrow> string \<Rightarrow> CameraSummary list eng" where
  "device_cameras tenant deviceID =
     ebind (etry (ListCameraSummaries tenant deviceID)) (\<lambda>res. eret (case res of Inl _ \<Rightarrow> [] | Inr cs \<Rightarrow> cs))"

subsection \<open>External events (external\_data.go)\<close>

definition tag_value :: "StandardMessage \<Rightarrow> string \<Rightarrow> string" where
  "tag_value msg k = tag msg k []"

definition externalAlarmEvent :: "StandardMessage \<Rightarrow> bool" where
  "externalAlarmEvent msg \<longleftrightarrow> sm_MessageType msg = AlarmReport \<and> tag_value msg ''externalEventKey'' \<noteq> []"

text \<open>The float literal \<^verbatim>\<open>0.6\<close>.\<close>

definition six_tenths :: f64 where "six_tenths = FNum (5404319552844595 / 9007199254740992)"

definition external_video :: "golib \<Rightarrow> StandardMessage \<Rightarrow> VideoAlarmEvent option" where
  "external_video lb msg =
     (let encoded = tag_value msg ''externalVideoEvent'' in if encoded = [] then None else lb_json_video lb encoded)"

definition externalAlarmIdentity :: "golib \<Rightarrow> StandardMessage \<Rightarrow> Alarm \<Rightarrow> Alarm" where
  "externalAlarmIdentity lb msg a =
     (if \<not> externalAlarmEvent msg then a
      else let eventKey = tag_value msg ''externalEventKey'';
          a = a\<lparr>al_ID := ''external_'' @ sha256_hex (eventKey @ nul # al_RuleID a),
                al_RuleID := al_RuleID a @ '':external:'' @ eventKey,
                al_FirstTriggeredAt := sm_Timestamp msg, al_LastTriggeredAt := sm_Timestamp msg,
                al_Content := (case gm_get (sm_Event msg) ''content'' of Some (VStr c) \<Rightarrow> if c \<noteq> [] then c else al_Content a | _ \<Rightarrow> al_Content a),
                al_Details := gm_put ''externalEventId'' (VStr (tag_value msg ''externalEventId''))
                   (gm_put ''externalSourceId'' (VStr (tag_value msg ''externalSourceId'')) (al_Details a))\<rparr>
        in case external_video lb msg of
             None \<Rightarrow> a
           | Some v \<Rightarrow> a\<lparr>al_Source := ''video'', al_DeviceType := ''video_ai'', al_Confidence := ve_Confidence v,
               al_Details := (let d = gm_put ''videoEvent'' (lb_video_value lb v) (al_Details a) in
                  if f64_lt (ve_Confidence v) six_tenths then gm_put ''requiresVerification'' (VBool True) d else d),
               al_Cameras := filter (\<lambda>c. cs_CameraID c = ve_CameraID v) (al_Cameras a)\<rparr>)"

text \<open>
  The filter above works on the backing array of the slice (\<^verbatim>\<open>a.Cameras[:0]\<close>): what a later reader of the same slice sees.
\<close>

definition cameras_after :: "golib \<Rightarrow> StandardMessage \<Rightarrow> CameraSummary list \<Rightarrow> CameraSummary list" where
  "cameras_after lb msg cameras =
     (if \<not> externalAlarmEvent msg then cameras
      else case external_video lb msg of
        None \<Rightarrow> cameras
      | Some v \<Rightarrow> (let kept = filter (\<lambda>c. cs_CameraID c = ve_CameraID v) cameras in kept @ drop (length kept) cameras))"

definition upsertReportedAlarm :: "golib \<Rightarrow> Alarm \<Rightarrow> StandardMessage \<Rightarrow> (Alarm \<times> bool \<times> bool) eng" where
  "upsertReportedAlarm lb a msg =
     (let a = externalAlarmIdentity lb msg a in
      if externalAlarmEvent msg then repo_try (UpsertExternalAlarm a)
      else ebind (repo_upd (UpsertAlarm a)) (\<lambda>(saved, created).
        eret (saved, created, created \<or> al_TriggerID saved \<noteq> sm_MessageID msg)))"

definition RecoverExternalAlarms :: "string \<Rightarrow> string list \<Rightarrow> string \<Rightarrow> unit eng" where
  "RecoverExternalAlarms tenant ids actor =
     efor ids (\<lambda>aid.
       ebind (repo_read (GetAlarm tenant aid)) (\<lambda>a.
       if \<not> contains_sub (al_RuleID a) '':external:'' then efail (ErrText ''not an external alarm'')
       else if al_Status a = ''CLOSED'' \<or> al_Status a = ''RECOVERED'' then eret ()
       else ebind (SetAlarmStatus tenant aid ''RECOVERED'' actor) (\<lambda>_. eret ())))"

definition component_actor :: string where
  "component_actor = map (\<lambda>n. char_of n) [0xe5 :: nat, 0xa4, 0x96, 0xe9, 0x83, 0xa8, 0xe9, 0x83, 0xa8, 0xe4, 0xbb, 0xb6, 0xe7, 0x8a, 0xb6, 0xe6, 0x80, 0x81]"

definition applyExternalComponentAlarm :: "golib \<Rightarrow> Alarm \<Rightarrow> StandardMessage \<Rightarrow> bool \<Rightarrow> (Alarm \<times> string) eng" where
  "applyExternalComponentAlarm lb a msg active =
     (if active then ebind (upsertReportedAlarm lb a msg) (\<lambda>(saved, created, _). eret (saved, if created then ''raised'' else []))
      else let a = externalAlarmIdentity lb msg a in
        ebind (etry (repo_read (GetAlarm (al_TenantID a) (al_ID a)))) (\<lambda>got.
        case got of
          Inl e \<Rightarrow> if e = ErrNotFound then eret (zero_Alarm, []) else efail e
        | Inr old \<Rightarrow> ethen (RecoverExternalAlarms (al_TenantID a) [al_ID a] component_actor) (eret (old, []))))"

definition isExternalMedia :: "string \<Rightarrow> bool" where
  "isExternalMedia url \<longleftrightarrow> has_prefix url ''http://'' \<or> has_prefix url ''https://''"

definition saveExternalDelivery :: "golib \<Rightarrow> StandardMessage \<Rightarrow> string list \<Rightarrow> unit eng" where
  "saveExternalDelivery lb msg ids =
     (if tag_value msg ''externalEventKey'' = [] then eret ()
      else let result = \<lparr>rs_DeviceID = sm_DeviceID msg, rs_CameraID = [], rs_MessageID = sm_RawMessageID msg,
                 rs_AlarmID = (case ids of [] \<Rightarrow> [] | i # _ \<Rightarrow> i), rs_AlarmIDs = ids\<rparr>;
               encoded = tag_value msg ''externalVideoEvent'' in
        ebind (if encoded = [] then eret result
               else case lb_json_video lb encoded of
                 None \<Rightarrow> efail (ErrText ''json'')
               | Some video \<Rightarrow>
                   let raw = ve_Raw video;
                       raw = (if isExternalMedia (ve_SnapshotURL video) \<or> isExternalMedia (ve_VideoClipURL video)
                              then gm_put ''mediaTransferStatus'' (VStr ''PENDING'') raw else raw);
                       raw = (case lb_media_error lb (video\<lparr>ve_Raw := raw\<rparr>) of None \<Rightarrow> raw
                              | Some e \<Rightarrow> gm_put ''mediaTransferError'' (VStr e) (gm_put ''mediaTransferStatus'' (VStr ''FAILED'') raw))
                   in ebind (repo_upd (SaveVideoEvent (video\<lparr>ve_Raw := raw\<rparr>))) (\<lambda>_. eret (result\<lparr>rs_CameraID := ve_CameraID video\<rparr>)))
          (\<lambda>result. ebind (etry (repo_op (\<lambda>now. Put_delivery now (sm_TenantID msg) (sm_RawMessageID msg) (tag_value msg ''externalSourceId'') result))) (\<lambda>res.
             case res of Inl e \<Rightarrow> if e = ErrText ''conflict'' then eret () else efail e | Inr _ \<Rightarrow> eret ())))"

subsection \<open>The rule cache (rule\_cache.go)\<close>

definition ruleCacheTTL :: int where "ruleCacheTTL = 2000"

definition tenantRules :: "string \<Rightarrow> AlarmRule list eng" where
  "tenantRules tenantID =
     ebind (easks (\<lambda>w. case gm_get (en_ruleCache w) tenantID of None \<Rightarrow> None
        | Some (rules, loadedAt) \<Rightarrow> if en_clock w - loadedAt < ruleCacheTTL then Some rules else None)) (\<lambda>hit.
     case hit of Some rules \<Rightarrow> eret rules
     | None \<Rightarrow> ebind (repo_val (ListRules tenantID)) (\<lambda>rules.
         ebind (\<lambda>w. (Inr (), w\<lparr>en_ruleCache := gm_put tenantID (rules, en_clock w) (en_ruleCache w)\<rparr>)) (\<lambda>_. eret rules)))"

definition RulesChanged :: "string \<Rightarrow> unit eng" where
  "RulesChanged tenantID = (\<lambda>w. (Inr (), w\<lparr>en_ruleCache := gm_del tenantID (en_ruleCache w)\<rparr>))"

definition RuleByID :: "string \<Rightarrow> string \<Rightarrow> AlarmRule option eng" where
  "RuleByID tenantID ruleID =
     ebind (etry (tenantRules tenantID)) (\<lambda>res. eret (case res of
       Inl _ \<Rightarrow> None | Inr rules \<Rightarrow> find (\<lambda>rule. ar_ID rule = ruleID) rules))"

subsection \<open>Alarms of rules (alarm\_rules.go)\<close>

definition clearDuration :: "AlarmRule \<Rightarrow> StandardMessage \<Rightarrow> unit eng" where
  "clearDuration rule msg =
     (if ar_DurationSeconds rule \<le> 0 then eret ()
      else repo_put (DeleteRulePending (ar_TenantID rule) (ar_ID rule) (sm_DeviceID msg)))"

definition durationSatisfied :: "AlarmRule \<Rightarrow> StandardMessage \<Rightarrow> bool eng" where
  "durationSatisfied rule msg =
     ebind enow (\<lambda>ms. let now = ms div 1000 in
     ebind (repo_val (GetRulePending (ar_TenantID rule) (ar_ID rule) (sm_DeviceID msg))) (\<lambda>pending.
     case pending of
       None \<Rightarrow> ethen (repo_put (SaveRulePending (ar_TenantID rule) (ar_ID rule) (sm_DeviceID msg) now)) (eret False)
     | Some first \<Rightarrow> eret (now - first \<ge> ar_DurationSeconds rule)))"

text \<open>A message as a dynamic value: the JSON object it is written as.\<close>

definition message_value :: "StandardMessage \<Rightarrow> gval" where
  "message_value msg = VMap [(''messageId'', VStr (sm_MessageID msg)), (''rawMessageId'', VStr (sm_RawMessageID msg)),
     (''tenantId'', VStr (sm_TenantID msg)), (''productId'', VStr (sm_ProductID msg)), (''deviceId'', VStr (sm_DeviceID msg)),
     (''messageType'', VStr (MessageType_text (sm_MessageType msg))), (''timestamp'', VInt KInt64 (sm_Timestamp msg)),
     (''properties'', VMap (sm_Properties msg)), (''event'', VMap (sm_Event msg)),
     (''tags'', VMap (map (\<lambda>(k, v). (k, VStr v)) (sm_Tags msg))), (''raw'', VMap (sm_Raw msg)),
     (''parser'', VStr (sm_Parser msg)), (''parserVersion'', VStr (sm_ParserVersion msg))]"

text \<open>The fields every new alarm of a message has in common.\<close>

definition message_alarm :: "StandardMessage \<Rightarrow> string \<Rightarrow> string \<Rightarrow> int \<Rightarrow> Alarm" where
  "message_alarm msg aid deviceName now = zero_Alarm\<lparr>al_ID := aid, al_TenantID := sm_TenantID msg, al_TriggerID := sm_MessageID msg,
     al_DeviceID := sm_DeviceID msg, al_DeviceName := deviceName, al_Status := ''ACTIVE'', al_Source := ''device'',
     al_CityCode := tag msg ''cityCode'' ''unknown'', al_DistrictCode := tag msg ''districtCode'' ''unknown'',
     al_BuildingID := tag msg ''buildingId'' ''unknown'', al_DeviceType := tag msg ''deviceType'' (sm_ProductID msg),
     al_AreaID := tag msg ''areaId'' [], al_FirstTriggeredAt := now, al_LastTriggeredAt := now, al_TriggerCount := 1\<rparr>"

definition rule_alarm :: "golib \<Rightarrow> AlarmRule \<Rightarrow> StandardMessage \<Rightarrow> string \<Rightarrow> string \<Rightarrow> int \<Rightarrow> Alarm" where
  "rule_alarm lb rule msg aid deviceName now = (message_alarm msg aid deviceName now)\<lparr>al_RuleID := ar_ID rule,
     al_AlarmType := ar_AlarmType rule, al_AlarmLevel := ar_Level rule,
     al_Content := alarmContent lb msg [ar_Description rule, ar_Name rule],
     al_Details := [(''message'', message_value msg), (''ruleName'', VStr (ar_Name rule))]\<rparr>"

definition ui_action :: "AlarmRule \<Rightarrow> StandardMessage \<Rightarrow> Alarm \<Rightarrow> int \<Rightarrow> RuleAction \<Rightarrow> unit eng" where
  "ui_action rule msg saved now action =
     ebind (new_id ''ui_action'') (\<lambda>uid.
       publishEvent TopicUIAction uid (''/iot/ui-action/'' @ sm_TenantID msg)
         (PUIAction \<lparr>ui_ID = uid, ui_TenantID = sm_TenantID msg, ui_RuleID = ar_ID rule, ui_AlarmID = al_ID saved,
            ui_DeviceID = sm_DeviceID msg, ui_Action = action, ui_TriggeredAt = now\<rparr>))"

definition raiseRuleAlarm :: "golib \<Rightarrow> AlarmRule \<Rightarrow> StandardMessage \<Rightarrow> (Alarm \<times> bool) eng" where
  "raiseRuleAlarm lb rule msg =
     ebind enow (\<lambda>now.
     ebind (new_id ''alarm'') (\<lambda>aid.
     ebind (alarmDeviceName (sm_TenantID msg) (sm_DeviceID msg)) (\<lambda>deviceName.
     ebind (device_cameras (sm_TenantID msg) (sm_DeviceID msg)) (\<lambda>cameras.
     ebind (alarmLocation (sm_TenantID msg) (sm_DeviceID msg) []) (\<lambda>location.
     ebind (upsertReportedAlarm lb ((rule_alarm lb rule msg aid deviceName now)\<lparr>al_Cameras := cameras, al_Location := location\<rparr>) msg)
       (\<lambda>(saved, created, reportChanged).
     ethen (if created then publishEvent TopicAlarmRaised (al_ID saved) (Alarm_MQTTTopic saved ''raised'') (PAlarm saved) else eret ())
     (ethen flushOutbox
     (ethen (if reportChanged then efor (ar_Actions rule) (ui_action rule msg saved now) else eret ())
       (eret (saved, created))))))))))"

text \<open>The recovery of an alarm that is still open.\<close>

definition recover_open :: "Alarm \<Rightarrow> (bool \<times> Alarm) eng" where
  "recover_open a =
     (if al_Status a \<noteq> ''ACTIVE'' \<and> al_Status a \<noteq> ''ACKED'' then eret (False, a)
      else ebind enow (\<lambda>now. eret (True, a\<lparr>al_Status := ''RECOVERED'', al_RecoveredAt := now\<rparr>)))"

definition recover_listed :: "Alarm \<Rightarrow> (Alarm \<times> bool) eng" where
  "recover_listed listed =
     ebind (mutateAlarm (al_TenantID listed) (al_ID listed) recover_open) (\<lambda>(a, written).
       ethen (if written then publishEvent TopicAlarmRecovered (al_ID a) (Alarm_MQTTTopic a ''recovered'') (PAlarm a) else eret ())
         (eret (a, written)))"

definition device_filter :: "StandardMessage \<Rightarrow> string \<Rightarrow> AlarmFilter" where
  "device_filter msg status = zero_AlarmFilter\<lparr>af_TenantID := sm_TenantID msg, af_DeviceID := sm_DeviceID msg, af_Status := status, af_Limit := 100\<rparr>"

definition recover_matching :: "StandardMessage \<Rightarrow> (Alarm \<Rightarrow> bool) \<Rightarrow> unit eng" where
  "recover_matching msg p =
     efor [''ACTIVE'', ''ACKED''] (\<lambda>status.
       ebind (repo_val (ListAlarms (device_filter msg status))) (\<lambda>alarms.
         efor alarms (\<lambda>listed. if \<not> p listed then eret () else ebind (recover_listed listed) (\<lambda>_. eret ()))))"

definition recoverRuleAlarm :: "AlarmRule \<Rightarrow> StandardMessage \<Rightarrow> unit eng" where
  "recoverRuleAlarm rule msg = recover_matching msg (\<lambda>listed. al_RuleID listed = ar_ID rule)"

text \<open>
  \<^verbatim>\<open>closeRuleAlarms\<close>: the pages of one status, from the start again after a page that changed something. The
  first argument bounds the number of pages. The affected devices are kept in the order they were met.
\<close>

definition closeBatch :: int where "closeBatch = 1000"

definition close_filter :: "string \<Rightarrow> string \<Rightarrow> int \<Rightarrow> AlarmFilter" where
  "close_filter tenant status offset = zero_AlarmFilter\<lparr>af_TenantID := tenant, af_Status := status, af_Limit := closeBatch, af_Offset := offset\<rparr>"

definition of_rule :: "string \<Rightarrow> Alarm \<Rightarrow> bool" where
  "of_rule ruleID listed \<longleftrightarrow> al_RuleID listed = ruleID \<or> has_prefix (al_RuleID listed) (ruleID @ '':external:'')"

definition close_page :: "string \<Rightarrow> Alarm list \<Rightarrow> string list \<Rightarrow> (string list \<times> bool) eng" where
  "close_page ruleID alarms affected =
     efold alarms (affected, False) (\<lambda>listed (affected, changed).
       if \<not> of_rule ruleID listed then eret (affected, changed)
       else ebind (recover_listed listed) (\<lambda>(alarm, written).
         eret (if written then (List.insert (al_DeviceID alarm) affected, True) else (affected, changed))))"

primrec close_pages :: "nat \<Rightarrow> string \<Rightarrow> string \<Rightarrow> string \<Rightarrow> int \<Rightarrow> string list \<Rightarrow> string list eng" where
  "close_pages 0 tenant ruleID status offset affected = efail (ErrText ''page budget exhausted'')"
| "close_pages (Suc n) tenant ruleID status offset affected =
     ebind (repo_val (ListAlarms (close_filter tenant status offset))) (\<lambda>alarms.
     if alarms = [] then eret affected
     else ebind (close_page ruleID alarms affected) (\<lambda>(affected, changed).
       close_pages n tenant ruleID status (if changed then 0 else offset + int (length alarms)) affected))"

definition closeRuleAlarms :: "nat \<Rightarrow> string \<Rightarrow> string \<Rightarrow> unit eng" where
  "closeRuleAlarms budget tenant ruleID =
     ebind (close_pages budget tenant ruleID ''ACTIVE'' 0 []) (\<lambda>affected.
     ebind (close_pages budget tenant ruleID ''ACKED'' 0 affected) (\<lambda>affected.
       efor affected (\<lambda>deviceID. syncDeviceBusinessStatus tenant [] deviceID)))"

definition DeleteRule :: "nat \<Rightarrow> string \<Rightarrow> string \<Rightarrow> unit eng" where
  "DeleteRule budget tenant ruleID =
     ebind (repo_val (ListRules tenant)) (\<lambda>rules.
     case find (\<lambda>r. ar_ID r = ruleID) rules of
       None \<Rightarrow> efail ErrNotFound
     | Some rule \<Rightarrow>
         ethen (if ar_Enabled rule then repo_put (SaveRule (rule\<lparr>ar_Enabled := False\<rparr>)) else eret ())
         (ethen (RulesChanged tenant)
         (ethen (closeRuleAlarms budget tenant ruleID)
         (ebind (etry (repo_try (Repo_DeleteRule tenant ruleID))) (\<lambda>res.
            ethen (RulesChanged tenant) (eresult res))))))"

definition DisableRule :: "nat \<Rightarrow> string \<Rightarrow> string \<Rightarrow> unit eng" where
  "DisableRule budget tenant ruleID =
     ebind (etry (ethen (repo_put (DeleteRulePendings tenant ruleID)) (closeRuleAlarms budget tenant ruleID))) (\<lambda>res.
       ethen (RulesChanged tenant) (eresult res))"

subsection \<open>Alarms reported by the device (alarm\_direct.go)\<close>

definition direct_alarm :: "golib \<Rightarrow> StandardMessage \<Rightarrow> string \<Rightarrow> string \<Rightarrow> int \<Rightarrow> Alarm" where
  "direct_alarm lb msg aid deviceName now = (case directAlarmMetadata lb msg of (alarmType, level) \<Rightarrow>
     (message_alarm msg aid deviceName now)\<lparr>al_RuleID := directAlarmRuleID alarmType, al_AlarmType := alarmType, al_AlarmLevel := level,
       al_Content := alarmContent lb msg [], al_Details := [(''message'', message_value msg), (''direct'', VBool True)]\<rparr>)"

definition raiseDirectAlarm :: "golib \<Rightarrow> StandardMessage \<Rightarrow> (Alarm \<times> bool) eng" where
  "raiseDirectAlarm lb msg =
     ebind enow (\<lambda>now.
     ebind (new_id ''alarm'') (\<lambda>aid.
     ebind (alarmDeviceName (sm_TenantID msg) (sm_DeviceID msg)) (\<lambda>deviceName.
     ebind (device_cameras (sm_TenantID msg) (sm_DeviceID msg)) (\<lambda>cameras.
     ebind (alarmLocation (sm_TenantID msg) (sm_DeviceID msg) []) (\<lambda>location.
     ebind (upsertReportedAlarm lb ((direct_alarm lb msg aid deviceName now)\<lparr>al_Cameras := cameras, al_Location := location\<rparr>) msg)
       (\<lambda>(saved, created, _).
     ethen (if created then publishEvent TopicAlarmRaised (al_ID saved) (Alarm_MQTTTopic saved ''raised'') (PAlarm saved) else eret ())
     (ethen flushOutbox (eret (saved, created)))))))))"

definition recoverDirectAlarms :: "golib \<Rightarrow> StandardMessage \<Rightarrow> unit eng" where
  "recoverDirectAlarms lb msg = recover_matching msg (\<lambda>listed.
     \<not> (al_ComponentID listed \<noteq> [] \<or> contains_sub (al_RuleID listed) '':external:'' \<or>
        \<not> has_prefix (al_RuleID listed) directAlarmRulePrefix \<or> \<not> directAlarmTypeCleared lb msg (al_AlarmType listed)))"

subsection \<open>Alarms of components (component.go)\<close>

definition open_paren :: string where "open_paren = map (\<lambda>n. char_of n) [0xef :: nat, 0xbc, 0x88]"
definition close_paren :: string where "close_paren = map (\<lambda>n. char_of n) [0xef :: nat, 0xbc, 0x89]"

definition componentAlarmContent :: "ComponentStatus \<Rightarrow> string" where
  "componentAlarmContent component =
     (let name = (if co_Name component = [] then co_ID component else co_Name component) in
      if co_Location component = [] then name else name @ open_paren @ co_Location component @ close_paren)"

definition component_value :: "ComponentStatus \<Rightarrow> gval" where
  "component_value c = VMap [(''id'', VStr (co_ID c)), (''name'', VStr (co_Name c)), (''location'', VStr (co_Location c)),
     (''timestamp'', VInt KInt64 (co_Timestamp c)), (''alarms'', VMap (map (\<lambda>(k, v). (k, VBool v)) (co_Alarms c)))]"

definition component_alarm :: "StandardMessage \<Rightarrow> ComponentStatus \<Rightarrow> string \<Rightarrow> string \<Rightarrow> string \<Rightarrow> int \<Rightarrow> Alarm" where
  "component_alarm msg component kind aid deviceName now = (message_alarm msg aid deviceName now)\<lparr>
     al_RuleID := directAlarmRulePrefix @ kind @ '':component:'' @ sha256_hex (co_ID component),
     al_ComponentID := co_ID component, al_ComponentName := co_Name component, al_ComponentLocation := co_Location component,
     al_Content := componentAlarmContent component, al_AlarmType := kind, al_AlarmLevel := ''HIGH'',
     al_Details := [(''message'', message_value msg), (''component'', component_value component), (''direct'', VBool True)]\<rparr>"

definition apply_kind :: "golib \<Rightarrow> StandardMessage \<Rightarrow> string \<Rightarrow> AlarmLocation option \<Rightarrow> ComponentStatus \<Rightarrow> string \<Rightarrow>
    (string list \<times> CameraSummary list) \<Rightarrow> (string list \<times> CameraSummary list) eng" where
  "apply_kind lb msg deviceName location component kind acc = (case acc of (ids, cameras) \<Rightarrow>
     (let active = (gm_get (co_Alarms component) kind = Some True) in
     ebind enow (\<lambda>now.
     ebind (new_id ''alarm'') (\<lambda>aid.
     let a = (component_alarm msg component kind aid deviceName now)\<lparr>al_Cameras := cameras, al_Location := location\<rparr> in
     ebind (if externalAlarmEvent msg then applyExternalComponentAlarm lb a msg active
            else repo_upd (ApplyComponentAlarm a \<lparr>ca_Timestamp = co_Timestamp component, ca_MessageID = sm_MessageID msg,
                   ca_Active = active, ca_AlarmID = [], ca_Event = []\<rparr>)) (\<lambda>(saved, event).
     ethen (if event = [] then eret ()
            else ethen (bus_publish (if event = ''recovered'' then TopicAlarmRecovered else TopicAlarmRaised) (al_ID saved) (PAlarm saved))
                   (rt_publish (Alarm_MQTTTopic saved event) (PAlarm saved) False))
       (eret (if al_ID saved \<noteq> [] then ids @ [al_ID saved] else ids, cameras_after lb msg cameras)))))))"

definition applyComponentAlarms :: "golib \<Rightarrow> StandardMessage \<Rightarrow> ComponentStatus list \<Rightarrow> string list eng" where
  "applyComponentAlarms lb msg components =
     (if components = [] then eret []
      else ebind (alarmDeviceName (sm_TenantID msg) (sm_DeviceID msg)) (\<lambda>deviceName.
        ebind (device_cameras (sm_TenantID msg) (sm_DeviceID msg)) (\<lambda>cameras.
        ebind (etry (efold components ([], cameras) (\<lambda>component acc.
          if co_Alarms component = [] then eret acc
          else ebind (alarmLocation (sm_TenantID msg) (sm_DeviceID msg) (co_ID component)) (\<lambda>location.
            efold (sort (map fst (co_Alarms component))) acc (apply_kind lb msg deviceName location component))))) (\<lambda>res.
        ethen flushOutbox (ebind (eresult res) (\<lambda>(ids, _). eret ids))))))"

end
