(* ===== verification/Processor.thy ===== *)
theory Processor
  imports Alarm_Reports
begin

text \<open>
  The processing of a standard message (\<^verbatim>\<open>handleStandard\<close> of \<^verbatim>\<open>engine.go\<close>): the component states it
  carries (\<^verbatim>\<open>model/component.go\<close>), the claim that gives one worker at a time the message
  (\<^verbatim>\<open>consistency.go\<close>), rules, component and direct alarms, and the completion that writes the device state
  and the processed mark together.
\<close>

subsection \<open>Components of a message (model/component.go)\<close>

text \<open>
  The components travel as a dynamic value that is written as JSON and read back strictly: objects with the known
  fields only (in any case), null leaves a field as it was, numbers must be 64-bit integers.
\<close>

definition json_string :: "string \<Rightarrow> gval \<Rightarrow> string option" where
  "json_string old v = (case v of VStr s \<Rightarrow> Some s | VNil \<Rightarrow> Some old | _ \<Rightarrow> None)"

definition int64_ok :: "int \<Rightarrow> bool" where
  "int64_ok n \<longleftrightarrow> - (2 ^ 63) \<le> n \<and> n < 2 ^ 63"

definition json_int64 :: "int \<Rightarrow> gval \<Rightarrow> int option" where
  "json_int64 old v = (case v of
     VNil \<Rightarrow> Some old
   | VInt _ n \<Rightarrow> if int64_ok n then Some n else None
   | VFloat (FNum q) \<Rightarrow> if q = of_int \<lfloor>q\<rfloor> \<and> int64_ok \<lfloor>q\<rfloor> then Some \<lfloor>q\<rfloor> else None
   | _ \<Rightarrow> None)"

fun json_bools :: "bool gomap \<Rightarrow> (string \<times> gval) list \<Rightarrow> bool gomap option" where
  "json_bools m [] = Some m"
| "json_bools m ((k, v) # rest) = (case v of
     VBool b \<Rightarrow> json_bools (gm_put k b m) rest
   | VNil \<Rightarrow> json_bools (gm_put k False m) rest
   | _ \<Rightarrow> None)"

definition json_alarms :: "bool gomap \<Rightarrow> gval \<Rightarrow> bool gomap option" where
  "json_alarms old v = (case v of VNil \<Rightarrow> Some [] | VMap entries \<Rightarrow> json_bools old entries | _ \<Rightarrow> None)"

definition zero_ComponentStatus :: ComponentStatus where
  "zero_ComponentStatus = \<lparr>co_ID = [], co_Name = [], co_Location = [], co_Timestamp = 0, co_Alarms = []\<rparr>"

definition component_field :: "string \<times> gval \<Rightarrow> ComponentStatus \<Rightarrow> ComponentStatus option" where
  "component_field kv c = (case kv of (k, v) \<Rightarrow>
     if equal_fold k ''id'' then map_option (\<lambda>s. c\<lparr>co_ID := s\<rparr>) (json_string (co_ID c) v)
     else if equal_fold k ''name'' then map_option (\<lambda>s. c\<lparr>co_Name := s\<rparr>) (json_string (co_Name c) v)
     else if equal_fold k ''location'' then map_option (\<lambda>s. c\<lparr>co_Location := s\<rparr>) (json_string (co_Location c) v)
     else if equal_fold k ''timestamp'' then map_option (\<lambda>n. c\<lparr>co_Timestamp := n\<rparr>) (json_int64 (co_Timestamp c) v)
     else if equal_fold k ''alarms'' then map_option (\<lambda>m. c\<lparr>co_Alarms := m\<rparr>) (json_alarms (co_Alarms c) v)
     else None)"

fun component_fields :: "(string \<times> gval) list \<Rightarrow> ComponentStatus \<Rightarrow> ComponentStatus option" where
  "component_fields [] c = Some c"
| "component_fields (kv # rest) c = (case component_field kv c of None \<Rightarrow> None | Some c' \<Rightarrow> component_fields rest c')"

definition json_component :: "gval \<Rightarrow> ComponentStatus option" where
  "json_component v = (case v of
     VNil \<Rightarrow> Some zero_ComponentStatus
   | VMap entries \<Rightarrow> component_fields (sort_key fst entries) zero_ComponentStatus
   | _ \<Rightarrow> None)"

fun json_components :: "gval list \<Rightarrow> ComponentStatus list option" where
  "json_components [] = Some []"
| "json_components (v # vs) = (case json_component v of None \<Rightarrow> None
     | Some c \<Rightarrow> map_option (\<lambda>cs. c # cs) (json_components vs))"

text \<open>The alarm states that were null in the text.\<close>

definition null_alarms :: "gval \<Rightarrow> string list" where
  "null_alarms v = (case v of
     VMap entries \<Rightarrow> concat (map (\<lambda>(k, x). if equal_fold k ''alarms''
        then (case x of VMap m \<Rightarrow> map fst (filter (\<lambda>(_, y). y = VNil) m) | _ \<Rightarrow> []) else []) entries)
   | _ \<Rightarrow> [])"

definition componentAlarmType :: "string \<Rightarrow> bool" where
  "componentAlarmType kind \<longleftrightarrow> kind \<noteq> [] \<and> length kind \<le> 64 \<and> is_upper (hd kind) \<and>
     list_all (\<lambda>c. is_upper c \<or> is_digit c \<or> c = CHR ''_'') (tl kind)"

definition component_identity_ok :: "string list \<Rightarrow> ComponentStatus \<Rightarrow> bool" where
  "component_identity_ok seen c \<longleftrightarrow> trim_space (co_ID c) = co_ID c \<and> co_ID c \<noteq> [] \<and> length (co_ID c) \<le> 128 \<and>
     nul \<notin> set (co_ID c) \<and> CHR 0x0D \<notin> set (co_ID c) \<and> CHR 0x0A \<notin> set (co_ID c) \<and> co_ID c \<notin> set seen \<and>
     length (co_Name c) \<le> 256 \<and> length (co_Location c) \<le> 512"

fun check_components :: "StandardMessage \<Rightarrow> string list \<Rightarrow> (ComponentStatus \<times> gval) list \<Rightarrow> string + ComponentStatus list" where
  "check_components msg seen [] = Inr []"
| "check_components msg seen ((c, v) # rest) =
     (if \<not> component_identity_ok seen c then Inl ''component identity is invalid or duplicated''
      else let c = (if co_Timestamp c = 0 then c\<lparr>co_Timestamp := sm_Timestamp msg\<rparr> else c) in
        if co_Timestamp c \<le> 0 \<or> co_Timestamp c > 253402300799999 \<or>
           (sm_Timestamp msg > 0 \<and> co_Timestamp c > sm_Timestamp msg + 300000) then Inl ''invalid component timestamp''
        else if co_Alarms c = [] \<or> length (co_Alarms c) > 32 then Inl ''component alarms must contain 1..32 explicit boolean states''
        else if \<not> list_all (\<lambda>kind. componentAlarmType kind \<and> kind \<notin> set (null_alarms v)) (map fst (co_Alarms c))
        then Inl ''invalid component alarm type or boolean''
        else map_sum id (\<lambda>cs. c # cs) (check_components msg (co_ID c # seen) rest))"

definition MessageComponents :: "StandardMessage \<Rightarrow> string + ComponentStatus list" where
  "MessageComponents msg = (case gm_get (sm_Event msg) ''components'' of
     None \<Rightarrow> Inr []
   | Some v \<Rightarrow>
       if sm_MessageType msg \<noteq> AlarmReport \<and> sm_MessageType msg \<noteq> StateChange \<and> sm_MessageType msg \<noteq> EventReport
       then Inl ''component status requires alarm, state or event message''
       else case (case v of VList vs \<Rightarrow> map_option (\<lambda>cs. (cs, vs)) (json_components vs) | VNil \<Rightarrow> Some ([], []) | _ \<Rightarrow> None) of
         None \<Rightarrow> Inl ''invalid components''
       | Some (cs, vs) \<Rightarrow>
           if cs = [] \<or> length cs > 256 then Inl ''components must contain 1..256 objects''
           else check_components msg [] (zip cs vs))"

subsection \<open>The claim (consistency.go)\<close>

definition processingLease :: int where "processingLease = 60000"

definition claim_call :: "StandardMessage \<Rightarrow> StandardClaim eng" where
  "claim_call msg = ebind (easks en_identity) (\<lambda>owner.
     repo_op (\<lambda>now r. case ClaimStandardMessage now msg owner processingLease r of (c, r') \<Rightarrow> (Inr c, r')))"

text \<open>
  The wait between two attempts is at least 50 ms, so the loop passes the deadline; time also passes in the other
  workers' turns.
\<close>

lemma clock_env_step: "en_clock w \<le> en_clock (snd (env_step w))"
  by (simp add: env_step_def split: list.splits)

lemma clock_repo_op: "en_clock w \<le> en_clock (snd (repo_op f w))"
  using clock_env_step [of w] by (auto simp: repo_op_def split: prod.splits)

lemma clock_claim_call: "claim_call msg w = (res, w') \<Longrightarrow> en_clock w \<le> en_clock w'"
proof -
  have "en_clock w \<le> en_clock (snd (claim_call msg w))"
    unfolding claim_call_def ebind_eq easks_def using clock_repo_op by simp
  then show "claim_call msg w = (res, w') \<Longrightarrow> en_clock w \<le> en_clock w'" by simp
qed

function claim_loop :: "int \<Rightarrow> StandardMessage \<Rightarrow> StandardClaim eng" where
  "claim_loop deadline msg w = (case claim_call msg w of
     (Inl e, w') \<Rightarrow> (Inl e, w')
   | (Inr claim, w') \<Rightarrow>
       if \<not> sc_Busy claim then (Inr claim, w')
       else if en_clock w' > deadline then (Inl (ErrText ''standard message is still claimed''), w')
       else claim_loop deadline msg (w'\<lparr>en_clock := en_clock w' + min (max (sc_RetryAfter claim) 50) 5000\<rparr>))"
  by pat_completeness auto
termination
proof (relation "measure (\<lambda>(deadline, _, w). nat (deadline + 1 - en_clock w))", simp, goal_cases)
  case (1 deadline msg w x w' claim)
  then have "claim_call msg w = (Inr claim, w')" by simp
  from clock_claim_call [OF this] have "en_clock w \<le> en_clock w'" .
  moreover have "en_clock w' \<le> deadline" using 1 by simp
  ultimately show ?case by simp
qed

declare claim_loop.simps [simp del]

definition claimStandard :: "StandardMessage \<Rightarrow> StandardClaim eng" where
  "claimStandard msg = ebind enow (\<lambda>now. claim_loop (now + processingLease + 10000) msg)"

subsection \<open>Completion\<close>

primrec complete_loop :: "nat \<Rightarrow> StandardMessage \<Rightarrow> int \<Rightarrow> unit eng" where
  "complete_loop 0 msg token = efail ErrConcurrentUpdate"
| "complete_loop (Suc n) msg token =
     ebind (repo_val (LoadDeviceStateWithAlarms (sm_TenantID msg) (sm_DeviceID msg))) (\<lambda>(got, isopen).
     ebind (case got of
         Inl e \<Rightarrow> if e \<noteq> ErrNotFound then efail e
           else ebind (deviceTiming (sm_TenantID msg) (sm_ProductID msg) (sm_DeviceID msg)) (\<lambda>(interval, tolerance).
             eret (zero_DeviceState, zero_DeviceState\<lparr>ds_ReportIntervalSec := interval, ds_OfflineToleranceSec := tolerance\<rparr>, False))
       | Inr current \<Rightarrow> eret (current, current, True)) (\<lambda>(current, state, found).
     case nextMessageState state found msg True isopen of (changed, nxt) \<Rightarrow>
     let nxt = nxt\<lparr>ds_TenantID := sm_TenantID msg, ds_DeviceID := sm_DeviceID msg, ds_Version := ds_Version current\<rparr>;
         write = (if changed then Some nxt else None)
     in ebind (repo_upd (CompleteStandardMessage write (sm_TenantID msg) (sm_MessageID msg) token)) (\<lambda>(ok, e).
     ethen (if ok \<and> changed then publishStateChange current (nxt\<lparr>ds_Version := ds_Version nxt + 1\<rparr>) else eret ())
       (if e = Some ErrStaleClaim then eret ()
        else case e of Some e' \<Rightarrow> efail e'
        | None \<Rightarrow> if ok then eret () else complete_loop n msg token))))"

definition completeStandard :: "StandardMessage \<Rightarrow> int \<Rightarrow> unit eng" where
  "completeStandard msg token = complete_loop casAttempts msg token"

subsection \<open>Processing\<close>

text \<open>One rule: the accumulator holds whether a rule alarm was raised and the identities of the alarms.\<close>

definition apply_rule :: "golib \<Rightarrow> StandardMessage \<Rightarrow> AlarmRule \<Rightarrow> bool \<times> string list \<Rightarrow> (bool \<times> string list) eng" where
  "apply_rule lb msg rule acc = (case acc of (handled, ids) \<Rightarrow>
     (if \<not> ruleCovers rule msg then eret (handled, ids)
      else if MatchRule lb rule msg then
        ebind (if ar_DurationSeconds rule > 0 then durationSatisfied rule msg else eret True) (\<lambda>satisfied.
        if \<not> satisfied then eret (handled, ids)
        else ebind (raiseRuleAlarm lb rule msg) (\<lambda>(alarm, _). eret (True, ids @ [al_ID alarm])))
      else if MatchConditions lb (ar_Recovery rule) msg then
        ethen (clearDuration rule msg) (ethen (recoverRuleAlarm rule msg) (eret (handled, ids)))
      else ethen (clearDuration rule msg) (eret (handled, ids))))"

definition complete_command :: "StandardMessage \<Rightarrow> unit eng" where
  "complete_command msg =
     (if sm_MessageType msg = CommandReply \<and> sm_Parser msg = StandardParserName then
        (case gm_get (sm_Event msg) ''commandId'' of
           Some (VStr cid) \<Rightarrow> ebind enow (\<lambda>now.
             repo_put (CompleteDeviceCommand (sm_TenantID msg) (sm_DeviceID msg) cid (sm_Event msg) now))
         | _ \<Rightarrow> eret ())
      else eret ())"

definition process_claimed :: "golib \<Rightarrow> StandardMessage \<Rightarrow> ComponentStatus list \<Rightarrow> string list eng" where
  "process_claimed lb msg components =
     ethen (complete_command msg)
     (ebind (tenantRules (sm_TenantID msg)) (\<lambda>rules.
     ebind (efold rules (False, []) (apply_rule lb msg)) (\<lambda>(handled, ids).
     ebind (if components \<noteq> [] then ebind (applyComponentAlarms lb msg components) (\<lambda>more. eret (ids @ more)) else eret ids) (\<lambda>ids.
     ebind (if components = [] \<and> sm_MessageType msg = AlarmReport \<and> \<not> handled
            then ebind (raiseDirectAlarm lb msg) (\<lambda>(alarm, _). eret (ids @ [al_ID alarm])) else eret ids) (\<lambda>ids.
     ethen (if components = [] \<and> sm_MessageType msg \<noteq> AlarmReport \<and> directAlarmCleared lb msg
            then recoverDirectAlarms lb msg else eret ())
       (eret ids))))))"

definition handleStandard :: "golib \<Rightarrow> StandardMessage option \<Rightarrow> unit eng" where
  "handleStandard lb parsed = (case parsed of
     None \<Rightarrow> efail (ErrPermanent ''json'')
   | Some msg \<Rightarrow> (case MessageComponents msg of
       Inl e \<Rightarrow> efail (ErrPermanent e)
     | Inr components \<Rightarrow>
         ebind (claimStandard msg) (\<lambda>claim.
         if \<not> sc_ShouldProcess claim then eret ()
         else ebind (process_claimed lb msg components) (\<lambda>ids.
           ethen (saveExternalDelivery lb msg ids)
             (completeStandard msg (sc_Token claim))))))"

subsection \<open>Accepted component lists\<close>

lemma check_components_accepted:
  "check_components msg seen ps = Inr cs \<Longrightarrow> length cs = length ps \<and> distinct (map co_ID cs) \<and> set (map co_ID cs) \<inter> set seen = {} \<and>
    (\<forall>c \<in> set cs. co_ID c \<noteq> [] \<and> length (co_ID c) \<le> 128 \<and> 0 < co_Timestamp c \<and> co_Alarms c \<noteq> [] \<and> length (co_Alarms c) \<le> 32)"
proof (induction msg seen ps arbitrary: cs rule: check_components.induct)
  case (2 msg seen c v rest)
  let ?c = "if co_Timestamp c = 0 then c\<lparr>co_Timestamp := sm_Timestamp msg\<rparr> else c"
  from 2(2) obtain tail where t: "check_components msg (co_ID ?c # seen) rest = Inr tail" "cs = ?c # tail"
    and c: "component_identity_ok seen c" "0 < co_Timestamp ?c" "co_Alarms ?c \<noteq> []" "length (co_Alarms ?c) \<le> 32"
    by (auto simp: Let_def map_sum_def split: if_splits sum.splits)
  have "\<not> \<not> component_identity_ok seen c" using c(1) by simp
  note IH = 2(1) [OF this refl]
  have "length tail = length rest \<and> distinct (map co_ID tail) \<and> set (map co_ID tail) \<inter> set (co_ID ?c # seen) = {} \<and>
    (\<forall>c \<in> set tail. co_ID c \<noteq> [] \<and> length (co_ID c) \<le> 128 \<and> 0 < co_Timestamp c \<and> co_Alarms c \<noteq> [] \<and> length (co_Alarms c) \<le> 32)"
    using IH [of tail] 2(2) t(1) by (auto simp: Let_def split: if_splits)
  then show ?case using t(2) c by (auto simp: component_identity_ok_def)
qed simp

text \<open>An accepted list names between 1 and 256 components with different identities of at most 128 bytes, each with a time and 1 to 32 alarm states.\<close>

lemma MessageComponents_bounds:
  assumes "MessageComponents msg = Inr cs" "gm_get (sm_Event msg) ''components'' = Some v"
  shows "1 \<le> length cs \<and> length cs \<le> 256 \<and> distinct (map co_ID cs) \<and>
    (\<forall>c \<in> set cs. co_ID c \<noteq> [] \<and> length (co_ID c) \<le> 128 \<and> 0 < co_Timestamp c \<and> co_Alarms c \<noteq> [] \<and> length (co_Alarms c) \<le> 32)"
proof -
  have same: "json_components vs = Some ds \<Longrightarrow> length ds = length vs" for vs ds
    by (induction vs arbitrary: ds) (auto split: option.splits)
  obtain ds vs where d: "check_components msg [] (zip ds vs) = Inr cs" "ds \<noteq> []" "length ds \<le> 256" "length ds = length vs"
    using assms by (auto simp: MessageComponents_def dest!: same split: if_splits gval.splits option.splits)
  from check_components_accepted [OF d(1)] d(2-4) show ?thesis by (cases ds) auto
qed

end
