(* ===== verification/Alarm_System.thy ===== *)
theory Alarm_System
  imports Processor
begin

text \<open>
  The alarm invariant of the whole engine. \<open>good w0 w\<close>: the stored alarms of \<open>w\<close> satisfy the invariant of the
  alarm store, every alarm of \<open>w0\<close> has moved along the status graph only, the other workers behave the same way, and the
  random identities this worker has not drawn yet are unused. Every handler keeps it, whatever the other workers do in between.
\<close>

subsection \<open>Identities\<close>

definition worker_alarm :: "(nat \<Rightarrow> string) \<Rightarrow> nat \<Rightarrow> string" where
  "worker_alarm rand n = ''alarm'' @ ''_'' @ rand n"

definition unused :: "repo \<Rightarrow> string \<Rightarrow> bool" where
  "unused r i \<longleftrightarrow> (\<forall>t. clean t \<longrightarrow> stored_alarm r t i = None)"

text \<open>The only identity a change of the repository may bring into use.\<close>

definition adds :: "string set \<Rightarrow> repo \<Rightarrow> repo \<Rightarrow> bool" where
  "adds I r r' \<longleftrightarrow> (\<forall>i. unused r i \<longrightarrow> i \<notin> I \<longrightarrow> unused r' i)"

lemma adds_refl [simp]: "adds I r r"
  by (simp add: adds_def)

lemma adds_same: "rp_alarms r' = rp_alarms r \<Longrightarrow> adds I r r'"
  by (simp add: adds_def unused_def stored_alarm_def)

lemma adds_put:
  assumes "clean (al_TenantID a)"
  shows "adds {al_ID a} r (put_alarm a r)"
  using assms by (auto simp: adds_def unused_def stored_alarm_def alarm_key_def key2_inject)

lemma adds_put_stored:
  "gm_get (rp_alarms r) k \<noteq> None \<Longrightarrow> adds I r (r\<lparr>rp_alarms := gm_put k a (rp_alarms r)\<rparr>)"
  by (auto simp: adds_def unused_def stored_alarm_def)

lemma adds_outbox [simp]: "adds I r (addOutbox v r') = adds I r r'"
  by (simp add: adds_def unused_def stored_alarm_def)

lemma adds_mono: "adds I r r' \<Longrightarrow> I \<subseteq> J \<Longrightarrow> adds J r r'"
  by (auto simp: adds_def)

lemma adds_trans: "adds I r r' \<Longrightarrow> adds I r' r'' \<Longrightarrow> adds I r r''"
  by (simp add: adds_def)

lemma adds_UpsertAlarm:
  assumes "alarm_inv r" "clean (al_TenantID v)"
  shows "adds {al_ID v} r (snd (UpsertAlarm v r))"
proof (cases "find (\<lambda>(k, a). same_open v a) (rp_alarms r)")
  case None
  then show ?thesis using adds_put [of "v\<lparr>al_Version := 1\<rparr>" r] assms by (simp add: UpsertAlarm_def Let_def)
next
  case (Some ka)
  obtain k a where ka: "ka = (k, a)" by fastforce
  then have "(k, a) \<in> set (rp_alarms r)" using Some find_Some_mem by fastforce
  from inv_mem(1) [OF assms(1) this] have "gm_get (rp_alarms r) k \<noteq> None" by simp
  then show ?thesis using Some ka by (auto simp: UpsertAlarm_def Let_def intro: adds_put_stored)
qed

lemma adds_UpdateAlarmIf: "adds I r (snd (UpdateAlarmIf v r))"
  by (auto simp: UpdateAlarmIf_def put_alarm_def split: option.splits intro: adds_put_stored)

lemma adds_UpsertExternalAlarm:
  assumes "clean (al_TenantID v)"
  shows "adds {al_ID v} r (snd (UpsertExternalAlarm v r))"
proof (cases "gm_get (rp_alarms r) (key [al_TenantID v, al_ID v])")
  case None
  have "adds {al_ID v} r (r\<lparr>rp_alarms := gm_put (key [al_TenantID v, al_ID v]) a (rp_alarms r)\<rparr>)" for a
    using assms by (auto simp: adds_def unused_def stored_alarm_def key2_inject)
  with None show ?thesis by (auto simp: UpsertExternalAlarm_def Let_def put_alarm_def)
next
  case (Some a)
  then show ?thesis by (auto simp: UpsertExternalAlarm_def Let_def intro: adds_put_stored)
qed

lemma adds_ApplyComponentAlarm:
  assumes inv: "alarm_inv r" and c: "clean (al_TenantID c)"
  shows "adds {al_ID c} r (snd (ApplyComponentAlarm c state r))"
proof -
  obtain a event where tr: "TransitionComponentAlarm c (previous_alarm r c) state = (a, event)" by fastforce
  have new_or_old: "a = c \<or> (alarm_key a = alarm_key (previous_alarm r c) \<and> al_ID a = al_ID (previous_alarm r c))"
    using tr by (auto simp: TransitionComponentAlarm_def Let_def alarm_key_def split: if_splits)
  define r' where "r' = (if (ca_MessageID state = ca_MessageID (previous_state r c) \<and> ca_Timestamp state = ca_Timestamp (previous_state r c)) \<or>
      \<not> Supersedes state (previous_state r c) then r else component_write c state a event r)"
  have "rp_alarms (snd (ApplyComponentAlarm c state r)) = rp_alarms r'"
    using ApplyComponentAlarm_snd [of r' state r c] tr by (simp add: r'_def)
  moreover have "adds {al_ID c} r (component_write c state a event r)"
  proof (cases "al_ID a = []")
    case True
    then show ?thesis by (simp add: component_write_def adds_same)
  next
    case False
    consider (new) "a = c" | (old) "alarm_key a = alarm_key (previous_alarm r c)" "al_ID (previous_alarm r c) \<noteq> []"
      using new_or_old False by auto
    then show ?thesis
    proof cases
      case new
      have "adds {al_ID c} r (r\<lparr>rp_alarms := gm_put (alarm_key c) b (rp_alarms r)\<rparr>)" for b
        using c by (auto simp: adds_def unused_def stored_alarm_def alarm_key_def key2_inject)
      then show ?thesis using new False by (simp add: component_write_def adds_def unused_def stored_alarm_def)
    next
      case old
      then have "gm_get (rp_alarms r) (alarm_key a) \<noteq> None" using previous_alarm_stored(1) [OF inv c] by simp
      then show ?thesis using False adds_put_stored [of r "alarm_key a" "{al_ID c}"]
        by (simp add: component_write_def adds_def unused_def stored_alarm_def)
    qed
  qed
  then have "adds {al_ID c} r r'" by (simp add: r'_def)
  ultimately show ?thesis using adds_trans adds_same by blast
qed

subsection \<open>Reads of the alarm path\<close>

context stable_world
begin

lemma keeps_alarmDeviceName [keep_rules]: "keeps P (alarmDeviceName t d)"
  unfolding alarmDeviceName_def by (intro keep_rules)

lemma keeps_alarmLocation [keep_rules]: "keeps P (alarmLocation t d c)"
  unfolding alarmLocation_def by (intro keep_rules)

lemma keeps_ListCameraSummaries [keep_rules]: "keeps P (ListCameraSummaries t d)"
  unfolding ListCameraSummaries_def by (intro keep_rules)

lemma keeps_device_cameras [keep_rules]: "keeps P (device_cameras t d)"
  unfolding device_cameras_def by (intro keep_rules)

lemma keeps_list_rules:
  assumes "\<And>rules w. P w \<Longrightarrow> rules = ListRules t (en_repo w) \<Longrightarrow> P (snd (f rules w))"
  shows "keeps P (ebind (repo_val (ListRules t)) f)"
proof (rule keepsI)
  fix w assume P: "P w"
  have "P (snd (env_step w))" using P by (rule env)
  then show "P (snd (ebind (repo_val (ListRules t)) f w))"
    using assms by (auto simp: ebind_eq repo_val_def repo_read_def repo_op_def split: prod.splits)
qed

lemma keeps_tenantRules [keep_rules]: "keeps P (tenantRules t)"
  unfolding tenantRules_def
  by (intro keep_rules keeps_list_rules) (simp add: ebind_eq eret_def rule_cache)

lemma keeps_RulesChanged [keep_rules]: "keeps P (RulesChanged t)"
  by (rule keepsI) (simp add: RulesChanged_def rule_cache)

lemma keeps_clearDuration [keep_rules]: "keeps P (clearDuration rule msg)"
  unfolding clearDuration_def by (intro keep_rules keeps_frame_put) (simp_all add: DeleteRulePending_def)

lemma keeps_durationSatisfied [keep_rules]: "keeps P (durationSatisfied rule msg)"
  unfolding durationSatisfied_def
  by (intro keep_rules keeps_frame_put) (simp_all add: SaveRulePending_def Let_def split: option.splits)

lemma keeps_ui_action [keep_rules]: "keeps P (ui_action rule msg a now action)"
  unfolding ui_action_def by (intro keep_rules)

lemma keeps_complete_command [keep_rules]: "keeps P (complete_command msg)"
  unfolding complete_command_def
  by (auto intro!: keep_rules keeps_frame_put split: option.splits gval.splits simp: CompleteDeviceCommand_def Let_def)

lemma keeps_saveExternalDelivery [keep_rules]: "keeps P (saveExternalDelivery lb msg ids)"
  unfolding saveExternalDelivery_def repo_upd_def
  by (intro keep_rules keeps_frame_op)
    (simp_all add: SaveVideoEvent_def Put_delivery_def Let_def split: option.splits prod.splits)

lemma keeps_claim_call [keep_rules]: "keeps P (claim_call msg)"
  unfolding claim_call_def
  by (intro keep_rules keeps_frame_op)
    (simp_all add: ClaimStandardMessage_def SaveStandardMessageIfAbsent_def Let_def split: option.splits prod.splits)

lemma keeps_claim_loop: "P w \<Longrightarrow> P (snd (claim_loop deadline msg w))"
proof (induction deadline msg w rule: claim_loop.induct)
  case (1 deadline msg w)
  have "P (snd (claim_call msg w))" using keepsD [OF keeps_claim_call 1(2)] .
  then show ?case using 1(1) caches(5) by (subst claim_loop.simps) (auto split: prod.splits sum.splits)
qed

lemma keeps_claimStandard [keep_rules]: "keeps P (claimStandard msg)"
  unfolding claimStandard_def by (intro keep_rules keepsI keeps_claim_loop)

end

subsection \<open>Good worlds\<close>

definition plain_rules :: "AlarmRule list \<Rightarrow> bool" where
  "plain_rules rules \<longleftrightarrow> (\<forall>rule \<in> set rules. \<not> component_rule (ar_ID rule))"

definition plain_repo :: "repo \<Rightarrow> bool" where
  "plain_repo r \<longleftrightarrow> plain_rules (gm_vals (rp_rules r))"

definition plain_cache :: "(AlarmRule list \<times> int) gomap \<Rightarrow> bool" where
  "plain_cache cache \<longleftrightarrow> (\<forall>(t, rules, n) \<in> set cache. plain_rules rules)"

definition polite :: "(nat \<Rightarrow> string) \<Rightarrow> sched_event \<Rightarrow> bool" where
  "polite rand ev \<longleftrightarrow> (\<forall>r. alarm_inv r \<longrightarrow> alarm_inv (ev_repo ev r) \<and> history r (ev_repo ev r) \<and>
     adds (- range (worker_alarm rand)) r (ev_repo ev r) \<and> (plain_repo r \<longrightarrow> plain_repo (ev_repo ev r)))"

definition good :: "engine \<Rightarrow> engine \<Rightarrow> bool" where
  "good w0 w \<longleftrightarrow> alarm_inv (en_repo w) \<and> history (en_repo w0) (en_repo w) \<and> inj (en_rand w) \<and> plain_repo (en_repo w) \<and> plain_cache (en_ruleCache w) \<and>
     (\<forall>ev \<in> set (en_sched w). polite (en_rand w) ev) \<and> (\<forall>n \<ge> en_drawn w. unused (en_repo w) (worker_alarm (en_rand w) n))"

definition reserved :: "string \<Rightarrow> engine \<Rightarrow> bool" where
  "reserved i w \<longleftrightarrow> (\<exists>n < en_drawn w. i = worker_alarm (en_rand w) n) \<and> unused (en_repo w) i"

definition holding :: "string \<Rightarrow> engine \<Rightarrow> engine \<Rightarrow> bool" where
  "holding i w0 w \<longleftrightarrow> good w0 w \<and> reserved i w"

lemma worker_alarm_inject: "inj rand \<Longrightarrow> worker_alarm rand m = worker_alarm rand n \<longleftrightarrow> m = n"
  by (simp add: worker_alarm_def inj_eq)

lemma good_self: "good w0 w \<Longrightarrow> good w w"
  by (simp add: good_def)

lemma good_trans: "good w0 w1 \<Longrightarrow> good w1 w2 \<Longrightarrow> good w0 w2"
  by (auto simp: good_def intro: history_trans)

text \<open>A change of the repository that keeps the world good.\<close>

lemma good_repo:
  assumes g: "good w0 w" and r: "alarm_inv r" "history (en_repo w) r" "adds I (en_repo w) r" and p: "plain_repo r"
    and I: "\<And>n. n \<ge> en_drawn w \<Longrightarrow> worker_alarm (en_rand w) n \<notin> I"
  shows "good w0 (w\<lparr>en_repo := r\<rparr>)"
  using g r p I history_trans [of "en_repo w0" "en_repo w" r] by (auto simp: good_def adds_def)

lemma good_env: "good w0 w \<Longrightarrow> good w0 (snd (env_step w))"
proof (cases "en_sched w")
  case (Cons ev evs)
  assume g: "good w0 w"
  then have p: "alarm_inv (ev_repo ev (en_repo w))" "history (en_repo w) (ev_repo ev (en_repo w))"
    "adds (- range (worker_alarm (en_rand w))) (en_repo w) (ev_repo ev (en_repo w))" "plain_repo (ev_repo ev (en_repo w))"
    using Cons by (auto simp: good_def polite_def)
  then have "good w0 (w\<lparr>en_repo := ev_repo ev (en_repo w)\<rparr>)" using good_repo [OF g p] by auto
  then show ?thesis using Cons by (simp add: env_step_def good_def)
qed (simp add: env_step_def)

lemma reserved_env: "good w0 w \<Longrightarrow> reserved i w \<Longrightarrow> reserved i (snd (env_step w))"
  by (cases "en_sched w") (auto simp: env_step_def reserved_def good_def polite_def adds_def)

lemma unused_same: "rp_alarms r' = rp_alarms r \<Longrightarrow> unused r' i = unused r i"
  by (simp add: unused_def stored_alarm_def)

lemma good_frame:
  assumes "good w0 w" "rp_alarms r = rp_alarms (en_repo w)" "rp_componentAlarms r = rp_componentAlarms (en_repo w)"
    "rp_rules r = rp_rules (en_repo w)"
  shows "good w0 (w\<lparr>en_repo := r\<rparr>)"
proof -
  have "history (en_repo w0) r" using assms by (simp add: good_def history_def)
  moreover have "plain_repo r" using assms by (simp add: good_def plain_repo_def)
  ultimately show ?thesis using assms alarm_inv_same [OF assms(2,3)] unused_same [OF assms(2)] by (simp add: good_def)
qed

lemma state_write_same:
  "rp_alarms (snd (UpsertDeviceStateIf v r)) = rp_alarms r" "rp_componentAlarms (snd (UpsertDeviceStateIf v r)) = rp_componentAlarms r"
  "rp_rules (snd (UpsertDeviceStateIf v r)) = rp_rules r"
  by (auto simp: UpsertDeviceStateIf_def Let_def split: option.splits)

lemma gm_put_subset: "x \<in> set (gm_put k v m) \<Longrightarrow> x = (k, v) \<or> x \<in> set m"
  unfolding gm_put_def by (induction m) (auto split: if_splits)

lemma gm_del_subset: "x \<in> set (gm_del k m) \<Longrightarrow> x \<in> set m"
  unfolding gm_del_def by (simp add: AList.delete_eq)

lemma plain_ListRules: "plain_repo r \<Longrightarrow> plain_rules (ListRules t r)"
  by (auto simp: plain_repo_def plain_rules_def ListRules_def)

lemma plain_cache_put: "plain_cache cache \<Longrightarrow> plain_rules rules \<Longrightarrow> plain_cache (gm_put t (rules, n) cache)"
  by (auto simp: plain_cache_def dest!: gm_put_subset)

lemma plain_cache_del: "plain_cache cache \<Longrightarrow> plain_cache (gm_del t cache)"
  by (auto simp: plain_cache_def dest!: gm_del_subset)

interpretation good: state_world "good w0" for w0
proof (unfold_locales, goal_cases)
  case (1 w) then show ?case by (rule good_env)
next
  case (6 w t n) then show ?case by (auto simp: good_def intro: plain_cache_put plain_ListRules)
next
  case (7 w t) then show ?case by (auto simp: good_def intro: plain_cache_del)
next
  case (14 w r) then show ?case by (intro good_frame)
next
  case (15 w v) then show ?case by (intro good_frame) (simp_all add: state_write_same)
qed (auto simp: good_def)

interpretation holding: state_world "holding i w0" for i w0
proof (unfold_locales, goal_cases)
  case (1 w) then show ?case by (auto simp: holding_def intro: good_env reserved_env)
next
  case (6 w t n) then show ?case using good.rule_cache(1) [of w0 w t n] by (auto simp: holding_def reserved_def)
next
  case (7 w t) then show ?case using good.rule_cache(2) [of w0 w t] by (auto simp: holding_def reserved_def)
next
  case (14 w r) then show ?case using good_frame [of w0 w r] unused_same [of r "en_repo w"] by (auto simp: holding_def reserved_def)
next
  case (15 w v)
  then show ?case using good_frame [of w0 w "snd (UpsertDeviceStateIf v (en_repo w))"] unused_same [OF state_write_same(1), of v "en_repo w"]
    by (auto simp: holding_def reserved_def state_write_same)
qed (auto simp: holding_def good_def reserved_def less_Suc_eq)

lemma rules_kept:
  "rp_rules (snd (UpdateAlarmIf v r)) = rp_rules r" "rp_rules (snd (UpsertAlarm v r)) = rp_rules r"
  "rp_rules (snd (UpsertExternalAlarm v r)) = rp_rules r" "rp_rules (snd (ApplyComponentAlarm v st r)) = rp_rules r"
  by (auto simp: UpdateAlarmIf_def UpsertAlarm_def UpsertExternalAlarm_def ApplyComponentAlarm_def Let_def put_alarm_def addOutbox_def
      split: option.splits prod.splits)

subsection \<open>Versioned changes of an alarm\<close>

definition change_ok :: "Alarm \<Rightarrow> Alarm \<Rightarrow> bool" where
  "change_ok a a' \<longleftrightarrow> (alarm_ok a \<longrightarrow> evolves a (a'\<lparr>al_Version := al_Version a + 1\<rparr>) \<and> alarm_ok a' \<and> (alarm_open a' \<longrightarrow> alarm_open a))"

definition changes :: "(Alarm \<Rightarrow> (bool \<times> Alarm) eng) \<Rightarrow> bool" where
  "changes fn \<longleftrightarrow> (\<forall>a w a' w'. fn a w = (Inr (True, a'), w') \<longrightarrow> change_ok a a')"

text \<open>A write on the version that was read either finds the alarm as it was read or changes nothing.\<close>

lemma good_alarm_write:
  assumes g: "good w0 w" and from_read: "history r1 (en_repo w)" and read: "gm_get (rp_alarms r1) (alarm_key a) = Some a" "alarm_ok a"
    and ch: "change_ok a a'"
  shows "good w0 (w\<lparr>en_repo := snd (UpdateAlarmIf (a'\<lparr>al_Version := al_Version a\<rparr>) (en_repo w))\<rparr>)"
proof -
  let ?v = "a'\<lparr>al_Version := al_Version a\<rparr>"
  have ev: "evolves a (a'\<lparr>al_Version := al_Version a + 1\<rparr>)" and ok: "alarm_ok a'" and op: "alarm_open a' \<Longrightarrow> alarm_open a"
    using ch read(2) by (auto simp: change_ok_def)
  have "a'\<lparr>al_Version := al_Version a + 1\<rparr> \<noteq> a" by (metis Alarm.select_convs(1) Alarm.surjective Alarm.update_convs(1) less_add_one order_less_irrefl)
  then have k: "alarm_key ?v = alarm_key a" using ev by (auto simp: evolves_def alarm_key_def)
  obtain b where b: "gm_get (rp_alarms (en_repo w)) (alarm_key a) = Some b" "evolves a b"
    using from_read read(1) by (auto simp: history_def)
  show ?thesis
  proof (cases "al_Version b = al_Version a")
    case True
    then have "b = a" using evolves_version [OF b(2)] by simp
    then have "alarm_inv (snd (UpdateAlarmIf ?v (en_repo w)))" "history (en_repo w) (snd (UpdateAlarmIf ?v (en_repo w)))"
      using UpdateAlarmIf_inv [of "en_repo w" ?v a] g b ev ok op k by (simp_all add: good_def)
    then show ?thesis
      using g by (intro good_repo [OF g, where I = "{}"]) (simp_all add: adds_UpdateAlarmIf rules_kept good_def plain_repo_def)
  next
    case False
    then have "snd (UpdateAlarmIf ?v (en_repo w)) = en_repo w" using UpdateAlarmIf_stale(1) [of "en_repo w" ?v b] b k by simp
    then show ?thesis using g by simp
  qed
qed

lemma stored_after_read:
  assumes "repo_read (GetAlarm t i) w = (Inr a, w')" "good w0 w"
  shows "good w0 w'" "gm_get (rp_alarms (en_repo w')) (alarm_key a) = Some a" "alarm_ok a"
proof -
  show g: "good w0 w'" using keepsD [OF good.keeps_repo_read assms(2), of "GetAlarm t i"] assms(1) by simp
  have "gm_get (rp_alarms (en_repo w')) (key [t, i]) = Some a"
    using assms(1) by (auto simp: repo_read_def repo_op_def GetAlarm_def stored_alarm_def split: prod.splits if_splits option.splits)
  then show "gm_get (rp_alarms (en_repo w')) (alarm_key a) = Some a" "alarm_ok a"
    using inv_stored [of "en_repo w'" "key [t, i]" a] g by (auto simp: good_def)
qed

lemma keeps_mutateAlarm_loop:
  assumes fn: "\<And>a w0. keeps (good w0) (fn a)" and ch: "changes fn"
  shows "keeps (good w0) (mutateAlarm_loop n t i fn)"
proof (induction n)
  case 0
  then show ?case by (simp add: keep_rules)
next
  case (Suc n)
  have body: "good w0 (snd ((ebind (fn a) (\<lambda>(write, nxt).
       if \<not> write then eret (a, False)
       else let nxt = nxt\<lparr>al_Version := al_Version a\<rparr> in
         ebind (repo_try (UpdateAlarmIf nxt)) (\<lambda>ok. if ok then eret (nxt\<lparr>al_Version := al_Version nxt + 1\<rparr>, True)
           else mutateAlarm_loop n t i fn))) w1))"
    if r: "repo_read (GetAlarm t i) w = (Inr a, w1)" and g: "good w0 w" for w w1 a
  proof -
    note rd = stored_after_read [OF r g]
    obtain res w2 where f: "fn a w1 = (res, w2)" by fastforce
    have g2: "good w1 w2" using keepsD [OF fn good_self [OF rd(1)]] f by (metis snd_conv)
    show ?thesis
    proof (cases res)
      case (Inl e)
      then show ?thesis using f good_trans [OF rd(1) g2] by (simp add: ebind_eq)
    next
      case (Inr p)
      obtain wr nxt where p: "p = (wr, nxt)" by fastforce
      let ?v = "nxt\<lparr>al_Version := al_Version a\<rparr>"
      have g3: "good w1 (snd (env_step w2))" using g2 by (rule good_env)
      have "good w0 (snd (repo_try (UpdateAlarmIf ?v) w2))" if wr
      proof -
        have c: "change_ok a nxt" using ch f Inr p that by (auto simp: changes_def)
        have h: "history (en_repo w1) (en_repo (snd (env_step w2)))" using g3 by (simp add: good_def)
        have "good w0 (snd (env_step w2))" using good_trans [OF rd(1) g3] .
        from good_alarm_write [OF this h rd(2,3) c] show ?thesis
          using \<open>good w0 (snd (env_step w2))\<close> by (auto simp: repo_try_def repo_op_def split: prod.splits)
      qed
      then show ?thesis using f Inr p good_trans [OF rd(1) g2] keepsD [OF Suc.IH]
        by (auto simp: ebind_eq Let_def eret_def split: sum.splits)
    qed
  qed
  show ?case
  proof (rule keepsI)
    fix w assume g: "good w0 w"
    obtain res w1 where r: "repo_read (GetAlarm t i) w = (res, w1)" by fastforce
    show "good w0 (snd (mutateAlarm_loop (Suc n) t i fn w))"
    proof (cases res)
      case (Inl e)
      then show ?thesis using r keepsD [OF good.keeps_repo_read g, of "GetAlarm t i"] by (simp add: ebind_eq)
    next
      case (Inr a)
      then show ?thesis using body [of w a w1] r g by (simp add: ebind_eq)
    qed
  qed
qed

lemma keeps_mutateAlarm:
  "(\<And>a w0. keeps (good w0) (fn a)) \<Longrightarrow> changes fn \<Longrightarrow> keeps (good w0) (mutateAlarm t i fn)"
  unfolding mutateAlarm_def by (rule keeps_mutateAlarm_loop)

lemma changes_eresult:
  "(\<And>a a'. f a = Inr a' \<Longrightarrow> change_ok a a') \<Longrightarrow> changes (\<lambda>a. eresult (map_sum id (\<lambda>a'. (True, a')) (f a)))"
  by (auto simp: changes_def eresult_def eret_def efail_def split: sum.splits) (metis map_sum.simps sum.exhaust Inr_inject Pair_inject Inl_Inr_False)

lemma change_okI:
  assumes "al_TenantID a' = al_TenantID a" "al_ID a' = al_ID a" "al_RuleID a' = al_RuleID a" "al_DeviceID a' = al_DeviceID a"
    "al_AlarmType a' = al_AlarmType a" "al_AlarmLevel a' = al_AlarmLevel a" "al_FirstTriggeredAt a' = al_FirstTriggeredAt a"
    "al_TriggerCount a' = al_TriggerCount a" "status_reach (al_Status a) (al_Status a')"
    "length (al_Attachments a) \<le> MaxAlarmAttachments \<Longrightarrow> length (al_Attachments a') \<le> MaxAlarmAttachments"
    "al_Status a = ''CLOSED'' \<Longrightarrow> al_Disposition a' = al_Disposition a \<and> al_Attachments a' = al_Attachments a"
    "al_Status a' = ''CLOSED'' \<Longrightarrow> al_Status a = ''CLOSED'' \<or> \<not> RequiresVerification a \<or> al_Disposition a' \<noteq> None"
  shows "change_ok a a'"
proof -
  have "RequiresVerification a' = RequiresVerification a" using assms by (simp add: RequiresVerification_def)
  moreover have "alarm_open a" if "alarm_open a'" using that assms(9) by (auto simp: alarm_open_def status_reach_def)
  ultimately show ?thesis using assms by (auto simp: change_ok_def evolves_def alarm_ok_def)
qed

lemma status_change_ok: "status_change now status a = Inr a' \<Longrightarrow> change_ok a a'"
proof (cases "status \<in> {''ACKED'', ''RECOVERED'', ''CLOSED'', ''SUPPRESSED''}")
  case False
  then show "status_change now status a = Inr a' \<Longrightarrow> change_ok a a'" by (simp add: status_change_def)
next
  case True
  assume *: "status_change now status a = Inr a'"
  from True consider "status = ''ACKED''" | "status = ''RECOVERED''" | "status = ''CLOSED''" | "status = ''SUPPRESSED''" by blast
  then show ?thesis
  proof cases
    case 1
    with * show ?thesis by (simp add: status_change_def split: if_splits) (rule change_okI; auto simp: status_reach_def)
  next
    case 2
    with * show ?thesis by (simp add: status_change_def split: if_splits) (rule change_okI; auto simp: status_reach_def)
  next
    case 3
    with * show ?thesis by (simp add: status_change_def split: if_splits) (rule change_okI; auto simp: status_reach_def)
  next
    case 4
    with * show ?thesis by (simp add: status_change_def split: if_splits) (rule change_okI; auto simp: status_reach_def)
  qed
qed

lemma verify_change_ok: "verify_change now d a = Inr a' \<Longrightarrow> change_ok a a'"
  unfolding verify_change_def by (auto split: if_splits intro!: change_okI)

lemma recover_open_ok: "changes recover_open"
  unfolding changes_def recover_open_def
  by (auto simp: ebind_eq enow_def eret_def status_reach_def split: if_splits intro!: change_okI)

lemma add_attachment_ok: "al_Status a \<noteq> ''CLOSED'' \<Longrightarrow> add_attachment att a = Inr a' \<Longrightarrow> change_ok a a'"
  unfolding add_attachment_def by (auto split: if_splits intro!: change_okI)

lemma length_remove_first: "length (remove_first p xs) \<le> length xs"
  by (induction xs) auto

lemma remove_attachment_ok: "al_Status a \<noteq> ''CLOSED'' \<Longrightarrow> change_ok a (remove_attachment i a)"
  using length_remove_first [of "\<lambda>v. at_ID v = i" "al_Attachments a"]
  by (intro change_okI) (auto simp: remove_attachment_def)

subsection \<open>The operator's handlers\<close>

lemma keeps_SetAlarmStatus [keep_rules]: "keeps (good w0) (SetAlarmStatus t i status actor)"
  unfolding SetAlarmStatus_def
  by (intro keep_rules keeps_mutateAlarm changes_eresult) (rule status_change_ok)

lemma keeps_latestAIAnalysis [keep_rules]: "keeps (good w0) (latestAIAnalysis t i)"
  unfolding latestAIAnalysis_def by (intro keep_rules)

lemma keeps_VerifyAlarm [keep_rules]: "keeps (good w0) (VerifyAlarm t i d actor)"
  unfolding VerifyAlarm_def
  by (intro keep_rules keeps_mutateAlarm changes_eresult) (rule verify_change_ok)

lemma keeps_changeAttachments:
  assumes "\<And>a w0. keeps (good w0) (change a)"
    and "\<And>a w a' w'. al_Status a \<noteq> ''CLOSED'' \<Longrightarrow> change a w = (Inr a', w') \<Longrightarrow> change_ok a a'"
  shows "keeps (good w0) (changeAttachments t i actor action att change)"
proof -
  have "changes (\<lambda>a. if al_Status a = ''CLOSED'' then efail ErrAlarmClosed else ebind (change a) (\<lambda>a'. eret (True, a')))"
    unfolding changes_def
  proof (intro allI impI)
    fix a w a' w'
    assume *: "(if al_Status a = ''CLOSED'' then efail ErrAlarmClosed else ebind (change a) (\<lambda>a'. eret (True, a'))) w = (Inr (True, a'), w')"
    show "change_ok a a'"
    proof (cases "change a w")
      case (Pair res w1)
      with * assms(2) [of a w] show ?thesis by (cases res) (auto simp: efail_def ebind_eq eret_def split: if_splits)
    qed
  qed
  then show ?thesis unfolding changeAttachments_def by (intro keep_rules keeps_mutateAlarm assms)
qed

lemma keeps_AddAlarmAttachment [keep_rules]: "keeps (good w0) (AddAlarmAttachment t i att actor)"
  unfolding AddAlarmAttachment_def
  by (intro keep_rules keeps_changeAttachments)
    (auto simp: eresult_def eret_def efail_def split: sum.splits intro: add_attachment_ok)

lemma keeps_set_removed [keep_rules]: "keeps (good w0) (set_removed att)"
  by (rule keepsI) (simp add: set_removed_def good_def)

lemma keeps_RemoveAlarmAttachment [keep_rules]: "keeps (good w0) (RemoveAlarmAttachment t i att actor)"
  unfolding RemoveAlarmAttachment_def
  by (intro keep_rules keeps_changeAttachments)
    (auto simp: ethen_eq set_removed_def eret_def efail_def split: option.splits intro: remove_attachment_ok)

lemma keeps_RecoverExternalAlarms [keep_rules]: "keeps (good w0) (RecoverExternalAlarms t ids actor)"
  unfolding RecoverExternalAlarms_def by (intro keep_rules)

lemma keeps_recover_listed [keep_rules]: "keeps (good w0) (recover_listed a)"
  unfolding recover_listed_def by (intro keep_rules keeps_mutateAlarm recover_open_ok) (simp add: recover_open_def keep_rules)

lemma keeps_recover_matching [keep_rules]: "keeps (good w0) (recover_matching msg p)"
  unfolding recover_matching_def by (intro keep_rules)

lemma keeps_close_page [keep_rules]: "keeps (good w0) (close_page rid alarms affected)"
  unfolding close_page_def by (intro keep_rules)

lemma keeps_close_pages [keep_rules]: "keeps (good w0) (close_pages n t rid st off affected)"
  by (induction n arbitrary: off affected) (auto intro!: keep_rules)

lemma keeps_closeRuleAlarms [keep_rules]: "keeps (good w0) (closeRuleAlarms n t rid)"
  unfolding closeRuleAlarms_def by (intro keep_rules)

lemma keeps_DisableRule [keep_rules]: "keeps (good w0) (DisableRule n t rid)"
  unfolding DisableRule_def
  by (intro keep_rules good.keeps_frame_put) (simp_all add: DeleteRulePendings_def drop_pendings_def)

lemma good_rules:
  assumes "good w0 w" "rp_alarms r = rp_alarms (en_repo w)" "rp_componentAlarms r = rp_componentAlarms (en_repo w)" "plain_repo r"
  shows "good w0 (w\<lparr>en_repo := r\<rparr>)"
  using assms alarm_inv_same [OF assms(2,3)] history_same [OF assms(2)] adds_same [OF assms(2), of "{}"]
  by (intro good_repo [where I = "{}"]) (simp_all add: good_def)

lemma keeps_SaveRule: "\<not> component_rule (ar_ID rule) \<Longrightarrow> keeps (good w0) (repo_put (SaveRule rule))"
  unfolding repo_put_def repo_upd_def
proof (rule good.keeps_repo_op)
  fix w :: engine and x :: "err + unit" and r
  assume p: "\<not> component_rule (ar_ID rule)" and g: "good w0 w" and r: "(case ((), SaveRule rule (en_repo w)) of (x, r') \<Rightarrow> (Inr x, r')) = (x, r)"
  then show "good w0 (w\<lparr>en_repo := r\<rparr>)"
    by (intro good_rules [OF g]) (auto simp: SaveRule_def good_def plain_repo_def plain_rules_def gm_vals_def dest!: gm_put_subset)
qed

lemma keeps_Repo_DeleteRule: "keeps (good w0) (repo_try (Repo_DeleteRule t rid))"
  unfolding repo_try_def
proof (rule good.keeps_repo_op)
  fix w :: engine and x :: "err + unit" and r
  assume g: "good w0 w" and r: "Repo_DeleteRule t rid (en_repo w) = (x, r)"
  then show "good w0 (w\<lparr>en_repo := r\<rparr>)"
    by (intro good_rules [OF g])
      (auto simp: Repo_DeleteRule_def drop_pendings_def Let_def good_def plain_repo_def plain_rules_def gm_vals_def
        split: option.splits dest!: gm_del_subset)
qed

lemma keeps_DeleteRule [keep_rules]: "keeps (good w0) (DeleteRule n t rid)"
  unfolding DeleteRule_def
proof (rule good.keeps_list_rules, goal_cases)
  case (1 rules w)
  show ?case
  proof (cases "find (\<lambda>r. ar_ID r = rid) rules")
    case None
    then show ?thesis using 1 by (simp add: efail_def)
  next
    case (Some rule)
    have "plain_repo (en_repo w)" using 1 by (simp add: good_def)
    then have p: "\<not> component_rule (ar_ID (rule\<lparr>ar_Enabled := False\<rparr>))"
      using plain_ListRules [of "en_repo w" t] find_Some_mem [OF Some] 1 by (auto simp: plain_rules_def)
    have "keeps (good w0) (ethen (if ar_Enabled rule then repo_put (SaveRule (rule\<lparr>ar_Enabled := False\<rparr>)) else eret ())
         (ethen (RulesChanged t) (ethen (closeRuleAlarms n t rid)
         (ebind (etry (repo_try (Repo_DeleteRule t rid))) (\<lambda>res. ethen (RulesChanged t) (eresult res))))))"
      by (intro keep_rules keeps_SaveRule [OF p] keeps_Repo_DeleteRule)
    then show ?thesis using 1 Some by (simp add: keepsD)
  qed
qed

subsection \<open>New alarms\<close>

text \<open>A computation that uses up the identity it holds.\<close>

definition settles :: "string \<Rightarrow> engine \<Rightarrow> 'a eng \<Rightarrow> bool" where
  "settles i w0 m \<longleftrightarrow> (\<forall>w. holding i w0 w \<longrightarrow> good w0 (snd (m w)))"

lemma settles_keeps: "keeps (good w0) m \<Longrightarrow> settles i w0 m"
  by (simp add: settles_def keeps_def holding_def)

lemma settles_before: "keeps (holding i w0) m \<Longrightarrow> (\<And>x. settles i w0 (f x)) \<Longrightarrow> settles i w0 (ebind m f)"
  by (fastforce simp: settles_def keeps_def ebind_eq holding_def split: sum.splits)

lemma settles_after: "settles i w0 m \<Longrightarrow> (\<And>x. keeps (good w0) (f x)) \<Longrightarrow> settles i w0 (ebind m f)"
  by (auto simp: settles_def keeps_def ebind_eq split: sum.splits)

lemma keeps_new_alarm: "(\<And>i. settles i w0 (f i)) \<Longrightarrow> keeps (good w0) (ebind (new_id ''alarm'') f)"
proof (rule keepsI)
  fix w assume f: "\<And>i. settles i w0 (f i)" and g: "good w0 w"
  let ?i = "worker_alarm (en_rand w) (en_drawn w)" and ?w = "w\<lparr>en_drawn := Suc (en_drawn w)\<rparr>"
  have "new_id ''alarm'' w = (Inr ?i, ?w)" by (simp add: new_id_def worker_alarm_def)
  moreover have "holding ?i w0 ?w" using g by (auto simp: holding_def reserved_def good_def)
  ultimately show "good w0 (snd (ebind (new_id ''alarm'') f w))" using f [of ?i] by (simp add: settles_def ebind_eq)
qed

text \<open>One call of the repository that stores a new alarm under the held identity, or under one of another kind.\<close>

lemma settles_repo_op:
  assumes "\<And>now r x r'. alarm_inv r \<Longrightarrow> unused r i \<Longrightarrow> f now r = (x, r') \<Longrightarrow> alarm_inv r' \<and> history r r' \<and> adds I r r' \<and> rp_rules r' = rp_rules r"
    and I: "I \<subseteq> {i} \<union> {x. \<not> has_prefix x ''alarm_''}"
  shows "settles i w0 (repo_op f)"
  unfolding settles_def
proof (intro allI impI)
  fix w assume "holding i w0 w"
  then have h: "holding i w0 (snd (env_step w))" by (rule holding.env)
  define w1 where "w1 = snd (env_step w)"
  have g1: "good w0 w1" and r1: "reserved i w1" using h by (simp_all add: holding_def w1_def)
  have fresh: "worker_alarm (en_rand w1) n \<notin> I" if "n \<ge> en_drawn w1" for n
  proof -
    obtain m where m: "m < en_drawn w1" "i = worker_alarm (en_rand w1) m" using r1 by (auto simp: reserved_def)
    have "inj (en_rand w1)" using g1 by (simp add: good_def)
    then have "worker_alarm (en_rand w1) n \<noteq> i" using m that by (simp add: worker_alarm_inject)
    moreover have "has_prefix (worker_alarm (en_rand w1) n) ''alarm_''" by (simp add: worker_alarm_def has_prefix_def)
    ultimately show ?thesis using I by auto
  qed
  obtain x r where fx: "f (en_clock w1) (en_repo w1) = (x, r)" by fastforce
  have "alarm_inv r \<and> history (en_repo w1) r \<and> adds I (en_repo w1) r \<and> plain_repo r"
    using assms(1) [OF _ _ fx] g1 r1 by (simp add: good_def reserved_def plain_repo_def)
  then have "good w0 (w1\<lparr>en_repo := r\<rparr>)" using good_repo [OF g1 _ _ _ _ fresh] by blast
  then show "good w0 (snd (repo_op f w))"
    using g1 fx by (auto simp: repo_op_def w1_def split: prod.splits)
qed

definition message_ok :: "StandardMessage \<Rightarrow> bool" where
  "message_ok msg \<longleftrightarrow> clean (sm_TenantID msg) \<and> clean (sm_DeviceID msg)"

lemma message_alarm_ok: "message_ok msg \<Longrightarrow> i \<noteq> [] \<Longrightarrow> alarm_ok (message_alarm msg i name now)"
  by (simp add: message_ok_def alarm_ok_def message_alarm_def zero_Alarm_def)

definition report_of :: "StandardMessage \<Rightarrow> string \<Rightarrow> Alarm \<Rightarrow> bool" where
  "report_of msg i a \<longleftrightarrow> alarm_ok a \<and> al_Status a = ''ACTIVE'' \<and> al_ID a = i"

lemma external_identity_ok:
  assumes "report_of msg i a" "externalAlarmEvent msg"
  shows "alarm_ok (externalAlarmIdentity lb msg a)" "al_Status (externalAlarmIdentity lb msg a) = ''ACTIVE''"
    "\<not> has_prefix (al_ID (externalAlarmIdentity lb msg a)) ''alarm_''"
  using assms by (auto simp: report_of_def externalAlarmIdentity_def Let_def alarm_ok_def has_prefix_def split: option.splits)

lemma settles_upsertReportedAlarm:
  assumes "report_of msg i a" "externalAlarmEvent msg \<or> \<not> component_rule (al_RuleID a)"
  shows "settles i w0 (upsertReportedAlarm lb a msg)"
proof (cases "externalAlarmEvent msg")
  case True
  let ?a = "externalAlarmIdentity lb msg a"
  note ok = external_identity_ok [OF assms(1) True, of lb]
  have "clean (al_TenantID ?a)" using ok(1) by (simp add: alarm_ok_def)
  then have "settles i w0 (repo_try (UpsertExternalAlarm ?a))"
    unfolding repo_try_def
  proof (intro settles_repo_op [where I = "{al_ID ?a}"])
    fix r x r' assume r: "alarm_inv r" "UpsertExternalAlarm ?a r = (x, r')" and cl: "clean (al_TenantID ?a)"
    then show "alarm_inv r' \<and> history r r' \<and> adds {al_ID ?a} r r' \<and> rp_rules r' = rp_rules r"
      using rules_kept(3) [of ?a r] UpsertExternalAlarm_inv [OF r(1) ok(1,2)] adds_UpsertExternalAlarm [OF cl, of r] by simp
  qed (use ok in auto)
  with True show ?thesis by (simp add: upsertReportedAlarm_def Let_def)
next
  case False
  then have a: "externalAlarmIdentity lb msg a = a" by (simp add: externalAlarmIdentity_def)
  have nu: "new_alarm r a" if "unused r i" for r
    using that assms(1) by (auto simp: new_alarm_def report_of_def unused_def alarm_ok_def)
  have cl: "clean (al_TenantID a)" using assms(1) by (simp add: report_of_def alarm_ok_def)
  have "settles i w0 (repo_upd (UpsertAlarm a))"
    unfolding repo_upd_def
  proof (rule settles_repo_op [where I = "{i}"])
    fix now :: int and r x r'
    assume r: "alarm_inv r" "unused r i" "(case UpsertAlarm a r of (x, r') \<Rightarrow> (Inr x, r')) = (x, r')"
    then have "r' = snd (UpsertAlarm a r)" by (auto split: prod.splits)
    moreover have "\<not> component_rule (al_RuleID a)" using assms(2) False by blast
    ultimately show "alarm_inv r' \<and> history r r' \<and> adds {i} r r' \<and> rp_rules r' = rp_rules r"
      using rules_kept(2) [of a r] UpsertAlarm_inv [OF r(1) nu [OF r(2)]] adds_UpsertAlarm [OF r(1) cl] assms(1) by (simp add: report_of_def)
  qed simp
  with False a show ?thesis by (simp add: upsertReportedAlarm_def Let_def settles_after keep_rules)
qed

subsection \<open>Rules of direct and component alarms\<close>

text \<open>The parts of a rule identity between its colons.\<close>

fun colon_parts :: "string \<Rightarrow> string list" where
  "colon_parts [] = [[]]"
| "colon_parts (c # s) = (if c = CHR '':'' then [] # colon_parts s else (case colon_parts s of p # ps \<Rightarrow> (c # p) # ps | [] \<Rightarrow> [[c]]))"

lemma colon_parts_nonempty: "colon_parts s \<noteq> []"
  by (cases s) (auto split: list.splits)

lemma colon_parts_plain: "CHR '':'' \<notin> set p \<Longrightarrow> colon_parts p = [p]"
  by (induction p) auto

lemma colon_parts_append: "CHR '':'' \<notin> set p \<Longrightarrow> colon_parts (p @ CHR '':'' # s) = p # colon_parts s"
  by (induction p) auto

lemma contains_sub_iff: "contains_sub s p \<longleftrightarrow> (\<exists>u v. s = u @ p @ v)"
proof (induction s)
  case (Cons c s)
  have "has_prefix (c # s) p \<longleftrightarrow> (\<exists>v. c # s = p @ v)"
    unfolding has_prefix_def by (metis append_eq_conv_conj append_take_drop_id)
  then show ?case using Cons by (auto simp: Cons_eq_append_conv)
qed auto

lemma contains_part:
  assumes "contains_sub s (CHR '':'' # p @ '':'')" "CHR '':'' \<notin> set p"
  shows "p \<in> set (tl (colon_parts s))"
proof -
  obtain u v where "s = u @ CHR '':'' # p @ CHR '':'' # v" using assms(1) by (auto simp: contains_sub_iff)
  moreover have "p \<in> set (tl (colon_parts (u @ CHR '':'' # p @ CHR '':'' # v)))"
  proof (induction u)
    case Nil
    then show ?case using assms(2) by (simp add: colon_parts_append)
  next
    case (Cons c u)
    then show ?case by (cases "colon_parts (u @ CHR '':'' # p @ CHR '':'' # v)") auto
  qed
  ultimately show ?thesis by simp
qed

lemma not_component_part: "''component'' \<notin> set (tl (colon_parts rid)) \<Longrightarrow> \<not> component_rule rid"
  using contains_part [of rid "''component''"] by (auto simp: component_rule_def)

lemma not_external_part: "''external'' \<notin> set (tl (colon_parts rid)) \<Longrightarrow> \<not> external_rule rid"
  using contains_part [of rid "''external''"] by (auto simp: external_rule_def)

lemma token_char_facts: "token_char c \<Longrightarrow> c \<noteq> CHR '':'' \<and> c \<noteq> CHR ''c'' \<and> c \<noteq> CHR ''e''"
  by (auto simp: token_char_def is_upper_def is_digit_def)

lemma trim_by_subset: "set (trim_by p s) \<subseteq> set s"
  by (auto simp: trim_by_def trim_left_def trim_right_def dest!: set_dropWhileD)

lemma normalizeAlarmToken_chars: "c \<in> set (normalizeAlarmToken lb v) \<Longrightarrow> token_char c"
  unfolding normalizeAlarmToken_def Let_def
  by (auto split: if_splits dest!: in_set_takeD subsetD [OF trim_by_subset])

lemma direct_type_cases:
  "fst (directAlarmMetadata lb msg) \<in> insert (normalizeAlarmToken lb (firstMessageValue lb msg [''alarmType'', ''alarm_type'']))
     {''FIRE'', ''SMOKE_DETECTED'', ''DEVICE_FAULT'', ''DEVICE_OFFLINE'', ''MANUAL_ALARM''}"
  by (simp add: directAlarmMetadata_def Let_def)

lemma direct_type_chars: "list_all token_char (fst (directAlarmMetadata lb msg))"
proof -
  have "list_all token_char (normalizeAlarmToken lb v)" for v
    using normalizeAlarmToken_chars by (simp add: list_all_iff)
  moreover have "\<forall>s \<in> {''FIRE'', ''SMOKE_DETECTED'', ''DEVICE_FAULT'', ''DEVICE_OFFLINE'', ''MANUAL_ALARM''}. list_all token_char s"
    by code_simp
  ultimately show ?thesis using direct_type_cases [of lb msg] by (metis (no_types, lifting) insertE)
qed

lemma direct_rule_plain: "\<not> component_rule (directAlarmRuleID (fst (directAlarmMetadata lb msg)))"
proof -
  let ?t = "fst (directAlarmMetadata lb msg)"
  have chars: "CHR '':'' \<notin> set ?t" "CHR ''c'' \<notin> set ?t"
    using direct_type_chars [of lb msg] token_char_facts by (auto simp: list_all_iff)
  then have nc: "CHR '':'' \<notin> set ?t" and "?t \<noteq> ''component''" by auto
  then have "colon_parts (directAlarmRuleID ?t) = [''device-report'', ?t]"
    using colon_parts_append [of "''device-report''" ?t] colon_parts_plain [OF nc]
    by (simp add: directAlarmRuleID_def directAlarmRulePrefix_def)
  with \<open>?t \<noteq> ''component''\<close> show ?thesis by (intro not_component_part) simp
qed

lemma hex_plain: "CHR '':'' \<notin> set (sha256_hex s)" "sha256_hex s \<noteq> ''external''"
proof -
  have "c \<noteq> CHR '':'' \<and> c \<noteq> CHR ''x''" if c: "c \<in> set (sha256_hex s)" for c
  proof -
    obtain n where n: "n < 16" "c = hex_digit n" using c hex_encode_chars unfolding sha256_hex_def by blast
    then show ?thesis using of_char_hex_digit [OF n(1)] by (auto split: if_splits)
  qed
  then have "CHR '':'' \<notin> set (sha256_hex s)" "CHR ''x'' \<notin> set (sha256_hex s)" by blast+
  then show "CHR '':'' \<notin> set (sha256_hex s)" "sha256_hex s \<noteq> ''external''" by auto
qed

lemma component_rule_id:
  assumes "componentAlarmType kind"
  shows "component_rule (directAlarmRulePrefix @ kind @ '':component:'' @ sha256_hex s)"
proof -
  let ?rid = "directAlarmRulePrefix @ kind @ '':component:'' @ sha256_hex s"
  have chars: "c \<noteq> CHR '':'' \<and> c \<noteq> CHR ''e''" if "c \<in> set kind" for c
    using that assms by (cases kind) (auto simp: componentAlarmType_def is_upper_def is_digit_def list_all_iff)
  have nc: "CHR '':'' \<notin> set kind" and "CHR ''e'' \<notin> set kind" using chars by blast+
  then have ne: "kind \<noteq> ''external''" by auto
  have "contains_sub ?rid '':component:''" unfolding contains_sub_iff by (intro exI [of _ "directAlarmRulePrefix @ kind"] exI [of _ "sha256_hex s"]) simp
  moreover have "colon_parts ?rid = [''device-report'', kind, ''component'', sha256_hex s]"
    using colon_parts_append [of "''device-report''" "kind @ '':component:'' @ sha256_hex s"]
      colon_parts_append [OF nc, of "''component:'' @ sha256_hex s"]
      colon_parts_append [of "''component''" "sha256_hex s"] colon_parts_plain [OF hex_plain(1) [of s]]
    by (simp add: directAlarmRulePrefix_def)
  then have "\<not> external_rule ?rid" using ne hex_plain(2) [of s] by (intro not_external_part) simp
  ultimately show ?thesis by (simp add: component_rule_def)
qed

subsection \<open>Raising alarms\<close>

lemma report_of_rule: "message_ok msg \<Longrightarrow> i \<noteq> [] \<Longrightarrow>
    report_of msg i ((rule_alarm lb rule msg i name now)\<lparr>al_Cameras := cs, al_Location := l\<rparr>)"
  by (simp add: report_of_def rule_alarm_def message_ok_def alarm_ok_def message_alarm_def zero_Alarm_def)

lemma report_of_direct: "message_ok msg \<Longrightarrow> i \<noteq> [] \<Longrightarrow>
    report_of msg i ((direct_alarm lb msg i name now)\<lparr>al_Cameras := cs, al_Location := l\<rparr>)"
  by (simp add: report_of_def direct_alarm_def message_ok_def alarm_ok_def message_alarm_def zero_Alarm_def split: prod.splits)

lemma report_of_component: "message_ok msg \<Longrightarrow> i \<noteq> [] \<Longrightarrow>
    report_of msg i ((component_alarm msg c kind i name now)\<lparr>al_Cameras := cs, al_Location := l\<rparr>)"
  by (simp add: report_of_def component_alarm_def message_ok_def alarm_ok_def message_alarm_def zero_Alarm_def)

lemma settles_nonempty: "(i \<noteq> [] \<Longrightarrow> settles i w0 m) \<Longrightarrow> settles i w0 m"
proof -
  have "\<not> holding [] w0 w" for w by (auto simp: holding_def reserved_def worker_alarm_def)
  then show "(i \<noteq> [] \<Longrightarrow> settles i w0 m) \<Longrightarrow> settles i w0 m" by (cases "i = []") (simp_all add: settles_def)
qed

lemma keeps_raiseRuleAlarm:
  assumes "message_ok msg" "\<not> component_rule (ar_ID rule)"
  shows "keeps (good w0) (raiseRuleAlarm lb rule msg)"
  unfolding raiseRuleAlarm_def
proof (rule keeps_ebind [OF keeps_enow], rule keeps_new_alarm, rule settles_nonempty, rule settles_before [OF holding.keeps_alarmDeviceName],
    rule settles_before [OF holding.keeps_device_cameras], rule settles_before [OF holding.keeps_alarmLocation])
  fix now :: int and i name :: string and cs l assume i: "i \<noteq> []"
  have rid: "al_RuleID ((rule_alarm lb rule msg i name now)\<lparr>al_Cameras := cs, al_Location := l\<rparr>) = ar_ID rule"
    by (simp add: rule_alarm_def)
  show "settles i w0 (ebind (upsertReportedAlarm lb ((rule_alarm lb rule msg i name now)\<lparr>al_Cameras := cs, al_Location := l\<rparr>) msg)
     (\<lambda>(saved, created, reportChanged).
       ethen (if created then publishEvent TopicAlarmRaised (al_ID saved) (Alarm_MQTTTopic saved ''raised'') (PAlarm saved) else eret ())
       (ethen flushOutbox
       (ethen (if reportChanged then efor (ar_Actions rule) (ui_action rule msg saved now) else eret ())
         (eret (saved, created))))))"
    by (intro settles_after settles_upsertReportedAlarm report_of_rule assms i keep_rules) (use assms rid in simp)
qed

lemma keeps_raiseDirectAlarm:
  assumes "message_ok msg"
  shows "keeps (good w0) (raiseDirectAlarm lb msg)"
  unfolding raiseDirectAlarm_def
proof (rule keeps_ebind [OF keeps_enow], rule keeps_new_alarm, rule settles_nonempty, rule settles_before [OF holding.keeps_alarmDeviceName],
    rule settles_before [OF holding.keeps_device_cameras], rule settles_before [OF holding.keeps_alarmLocation])
  fix now :: int and i name :: string and cs l assume i: "i \<noteq> []"
  have rid: "\<not> component_rule (al_RuleID ((direct_alarm lb msg i name now)\<lparr>al_Cameras := cs, al_Location := l\<rparr>))"
    using direct_rule_plain [of lb msg] by (simp add: direct_alarm_def case_prod_unfold)
  show "settles i w0 (ebind (upsertReportedAlarm lb ((direct_alarm lb msg i name now)\<lparr>al_Cameras := cs, al_Location := l\<rparr>) msg)
     (\<lambda>(saved, created, _).
       ethen (if created then publishEvent TopicAlarmRaised (al_ID saved) (Alarm_MQTTTopic saved ''raised'') (PAlarm saved) else eret ())
       (ethen flushOutbox (eret (saved, created)))))"
    by (intro settles_after settles_upsertReportedAlarm report_of_direct assms i keep_rules) (use rid in simp)
qed

lemma settles_ApplyComponentAlarm:
  assumes "report_of msg i a" "component_rule (al_RuleID a)"
  shows "settles i w0 (repo_upd (ApplyComponentAlarm a state))"
  unfolding repo_upd_def
proof (rule settles_repo_op [where I = "{i}"])
  fix now :: int and r x r'
  assume r: "alarm_inv r" "unused r i" "(case ApplyComponentAlarm a state r of (x, r') \<Rightarrow> (Inr x, r')) = (x, r')"
  then have r': "r' = snd (ApplyComponentAlarm a state r)" by (auto split: prod.splits)
  have "new_alarm r a" using r(2) assms(1) by (auto simp: new_alarm_def report_of_def unused_def alarm_ok_def)
  moreover have "clean (al_TenantID a)" using assms(1) by (simp add: report_of_def alarm_ok_def)
  ultimately show "alarm_inv r' \<and> history r r' \<and> adds {i} r r' \<and> rp_rules r' = rp_rules r"
    using rules_kept(4) [of a state r] ApplyComponentAlarm_inv [OF r(1) _ assms(2)] adds_ApplyComponentAlarm [OF r(1), of a state] assms(1) r' by (simp add: report_of_def)
qed simp

lemma settles_applyExternalComponentAlarm:
  assumes "report_of msg i a" "externalAlarmEvent msg"
  shows "settles i w0 (applyExternalComponentAlarm lb a msg active)"
proof (cases active)
  case True
  then show ?thesis
    by (auto simp: applyExternalComponentAlarm_def intro!: settles_after settles_upsertReportedAlarm assms keep_rules disjI1)
next
  case False
  then show ?thesis
    by (auto simp: applyExternalComponentAlarm_def Let_def intro!: settles_keeps keep_rules)
qed

lemma keeps_apply_kind:
  assumes "message_ok msg" "componentAlarmType kind"
  shows "keeps (good w0) (apply_kind lb msg name l c kind acc)"
proof -
  obtain ids cs where acc: "acc = (ids, cs)" by fastforce
  show ?thesis
    unfolding apply_kind_def acc prod.case Let_def
  proof (rule keeps_ebind [OF keeps_enow], rule keeps_new_alarm, rule settles_nonempty, rule settles_after)
    fix now :: int and i :: string assume i: "i \<noteq> []"
    let ?a = "(component_alarm msg c kind i name now)\<lparr>al_Cameras := cs, al_Location := l\<rparr>"
    have rep: "report_of msg i ?a" using report_of_component [OF assms(1) i] .
    have rid: "component_rule (al_RuleID ?a)" using component_rule_id [OF assms(2)] by (simp add: component_alarm_def)
    show "settles i w0 (if externalAlarmEvent msg then applyExternalComponentAlarm lb ?a msg (gm_get (co_Alarms c) kind = Some True)
        else repo_upd (ApplyComponentAlarm ?a \<lparr>ca_Timestamp = co_Timestamp c, ca_MessageID = sm_MessageID msg,
             ca_Active = (gm_get (co_Alarms c) kind = Some True), ca_AlarmID = [], ca_Event = []\<rparr>))"
      using settles_applyExternalComponentAlarm [OF rep] settles_ApplyComponentAlarm [OF rep rid] by simp
  qed (intro keep_rules)
qed

lemma keeps_efold_in: "(\<And>x acc. x \<in> set xs \<Longrightarrow> keeps P (f x acc)) \<Longrightarrow> keeps P (efold xs acc f)"
  by (induction xs arbitrary: acc) (auto intro!: keeps_ebind keeps_eret)

definition typed_components :: "ComponentStatus list \<Rightarrow> bool" where
  "typed_components cs \<longleftrightarrow> (\<forall>c \<in> set cs. \<forall>kind \<in> fst ` set (co_Alarms c). componentAlarmType kind)"

lemma check_components_typed: "check_components msg seen ps = Inr cs \<Longrightarrow> typed_components cs"
proof (induction msg seen ps arbitrary: cs rule: check_components.induct)
  case (2 msg seen c v rest)
  let ?c = "if co_Timestamp c = 0 then c\<lparr>co_Timestamp := sm_Timestamp msg\<rparr> else c"
  have split: "component_identity_ok seen c" "list_all (\<lambda>kind. componentAlarmType kind \<and> kind \<notin> set (null_alarms v)) (map fst (co_Alarms ?c))"
    "\<exists>tail. check_components msg (co_ID ?c # seen) rest = Inr tail \<and> cs = ?c # tail"
    using 2(2) by (auto simp: Let_def map_sum_def split: if_splits sum.splits)
  then obtain tail where tail: "check_components msg (co_ID ?c # seen) rest = Inr tail" "cs = ?c # tail" by blast
  have "typed_components tail"
    using 2(1) tail 2(2) by (auto simp: Let_def split: if_splits)
  then show ?case using split(2) tail(2) by (auto simp: typed_components_def list_all_iff)
qed (auto simp: typed_components_def)

lemma MessageComponents_typed: "MessageComponents msg = Inr cs \<Longrightarrow> typed_components cs"
  by (auto simp: MessageComponents_def typed_components_def [of "[]"] split: option.splits if_splits prod.splits
      dest!: check_components_typed)

lemma keeps_applyComponentAlarms:
  assumes "message_ok msg" "typed_components cs"
  shows "keeps (good w0) (applyComponentAlarms lb msg cs)"
  unfolding applyComponentAlarms_def
  by (intro keep_rules keeps_efold_in keeps_apply_kind assms) (use assms in \<open>auto simp: typed_components_def\<close>)

lemma keeps_apply_rule:
  assumes "message_ok msg" "\<not> component_rule (ar_ID rule)"
  shows "keeps (good w0) (apply_rule lb msg rule acc)"
  unfolding apply_rule_def recoverRuleAlarm_def by (intro keep_rules keeps_raiseRuleAlarm assms)

lemma tenantRules_plain:
  assumes "good w0 w" "tenantRules t w = (Inr rules, w')"
  shows "plain_rules rules" "good w0 w'"
proof -
  show "good w0 w'" using keepsD [OF good.keeps_tenantRules assms(1), of t] assms(2) by simp
  define hit where "hit = (case gm_get (en_ruleCache w) t of None \<Rightarrow> None
        | Some (rules, loadedAt) \<Rightarrow> if en_clock w - loadedAt < ruleCacheTTL then Some rules else None)"
  show "plain_rules rules"
  proof (cases hit)
    case None
    then have "rules = ListRules t (en_repo (snd (env_step w)))"
      using assms(2) by (auto simp: tenantRules_def ebind_eq easks_def hit_def [symmetric] eret_def repo_val_def repo_read_def repo_op_def
          split: prod.splits if_splits)
    moreover have "good w0 (snd (env_step w))" using assms(1) by (rule good_env)
    ultimately show ?thesis using plain_ListRules by (simp add: good_def)
  next
    case (Some rs)
    then obtain n where "gm_get (en_ruleCache w) t = Some (rs, n)" by (auto simp: hit_def split: option.splits if_splits)
    moreover have "rules = rs" using Some assms(2) by (simp add: tenantRules_def ebind_eq easks_def hit_def [symmetric] eret_def)
    ultimately show ?thesis using assms(1) by (auto simp: good_def plain_cache_def dest!: gm_get_mem)
  qed
qed

lemma keeps_tenantRules_bind:
  assumes "\<And>rules. plain_rules rules \<Longrightarrow> keeps (good w0) (f rules)"
  shows "keeps (good w0) (ebind (tenantRules t) f)"
proof (rule keepsI)
  fix w assume g: "good w0 w"
  obtain res w' where t: "tenantRules t w = (res, w')" by fastforce
  have g': "good w0 w'" using keepsD [OF good.keeps_tenantRules g, of t] t by simp
  show "good w0 (snd (ebind (tenantRules t) f w))"
  proof (cases res)
    case (Inl e) then show ?thesis using t g' by (simp add: ebind_eq)
  next
    case (Inr rules)
    then have "plain_rules rules" using tenantRules_plain(1) [OF g] t by blast
    then show ?thesis using t Inr g' keepsD [OF assms] by (simp add: ebind_eq)
  qed
qed

lemma keeps_process_claimed:
  assumes "message_ok msg" "typed_components cs"
  shows "keeps (good w0) (process_claimed lb msg cs)"
  unfolding process_claimed_def recoverDirectAlarms_def
  by (intro keeps_ethen good.keeps_complete_command keeps_tenantRules_bind keep_rules keeps_efold_in keeps_apply_rule
      keeps_applyComponentAlarms keeps_raiseDirectAlarm assms) (auto simp: plain_rules_def)

lemma complete_write_same:
  "rp_alarms (snd (CompleteStandardMessage s t m k r)) = rp_alarms r"
  "rp_componentAlarms (snd (CompleteStandardMessage s t m k r)) = rp_componentAlarms r"
  "rp_rules (snd (CompleteStandardMessage s t m k r)) = rp_rules r"
  by (auto simp: CompleteStandardMessage_def MarkStandardMessageProcessed_def Let_def UpsertDeviceStateIf_def split: option.splits prod.splits if_splits)

lemma keeps_complete_write [keep_rules]: "keeps (good w0) (repo_upd (CompleteStandardMessage s t m k))"
  unfolding repo_upd_def
proof (rule good.keeps_repo_op)
  fix w :: engine and x :: "err + bool \<times> err option" and r
  assume g: "good w0 w" and r: "(case CompleteStandardMessage s t m k (en_repo w) of (x, r') \<Rightarrow> (Inr x, r')) = (x, r)"
  then show "good w0 (w\<lparr>en_repo := r\<rparr>)"
    using complete_write_same [of s t m k "en_repo w"] by (intro good_frame [OF g]) (auto split: prod.splits)
qed

lemma keeps_completeStandard [keep_rules]: "keeps (good w0) (completeStandard msg token)"
proof -
  have "keeps (good w0) (complete_loop n msg token)" for n
    by (induction n) (auto intro!: keep_rules)
  then show ?thesis by (simp add: completeStandard_def)
qed

lemma keeps_handleStandard:
  assumes "\<And>msg. parsed = Some msg \<Longrightarrow> message_ok msg"
  shows "keeps (good w0) (handleStandard lb parsed)"
proof (cases parsed)
  case None
  then show ?thesis by (simp add: handleStandard_def keep_rules)
next
  case (Some msg)
  show ?thesis
  proof (cases "MessageComponents msg")
    case (Inl e)
    then show ?thesis using Some by (simp add: handleStandard_def keep_rules)
  next
    case (Inr cs)
    then show ?thesis using Some assms MessageComponents_typed [OF Inr]
      by (auto simp: handleStandard_def intro!: keep_rules keeps_process_claimed)
  qed
qed

subsection \<open>Runs of the engine\<close>

text \<open>The requests one worker of the engine serves, with the page budgets of the loops that need one.\<close>

datatype request =
    Standard "StandardMessage option"
  | State "DeviceState option" "StandardMessage option"
  | Connection string string string bool int
  | SetStatus string string string string
  | Verify string string AlarmDisposition string
  | Attach string string AlarmAttachment string
  | Detach string string string string
  | RecoverExternal string "string list" string
  | DeleteRuleOf nat string string
  | DisableRuleOf nat string string
  | OfflineScan nat
  | Timing string string string
  | RelayOutbox

definition discard :: "'a eng \<Rightarrow> unit eng" where
  "discard m = ebind m (\<lambda>_. eret ())"

primrec serve :: "golib \<Rightarrow> request \<Rightarrow> unit eng" where
  "serve lb (Standard parsed) = handleStandard lb parsed"
| "serve lb (State as_state as_message) = handleState as_state as_message"
| "serve lb (Connection t p d c i) = ReportConnection t p d c i"
| "serve lb (SetStatus t i status actor) = discard (SetAlarmStatus t i status actor)"
| "serve lb (Verify t i d actor) = discard (VerifyAlarm t i d actor)"
| "serve lb (Attach t i att actor) = discard (AddAlarmAttachment t i att actor)"
| "serve lb (Detach t i att actor) = discard (RemoveAlarmAttachment t i att actor)"
| "serve lb (RecoverExternal t ids actor) = RecoverExternalAlarms t ids actor"
| "serve lb (DeleteRuleOf n t rid) = DeleteRule n t rid"
| "serve lb (DisableRuleOf n t rid) = DisableRule n t rid"
| "serve lb (OfflineScan n) = ScanOffline n"
| "serve lb (Timing t p d) = discard (ApplyDeviceTiming t p d)"
| "serve lb RelayOutbox = flushOutbox"

definition request_ok :: "request \<Rightarrow> bool" where
  "request_ok q = (case q of Standard (Some msg) \<Rightarrow> message_ok msg | _ \<Rightarrow> True)"

inductive engine_run :: "golib \<Rightarrow> engine \<Rightarrow> engine \<Rightarrow> bool" for lb w0 where
  start: "engine_run lb w0 w0"
| serve: "engine_run lb w0 w \<Longrightarrow> request_ok q \<Longrightarrow> engine_run lb w0 (snd (serve lb q w))"

lemma keeps_serve: "request_ok q \<Longrightarrow> keeps (good w0) (serve lb q)"
proof (cases q)
  case (Standard parsed)
  assume "request_ok q"
  then show ?thesis using Standard by (auto simp: request_ok_def intro: keeps_handleStandard split: option.splits)
qed (auto simp: discard_def intro!: keep_rules)

lemma run_good: "engine_run lb w0 w \<Longrightarrow> good w0 w0 \<Longrightarrow> good w0 w"
  by (induction rule: engine_run.induct) (auto intro: keepsD [OF keeps_serve])

text \<open>A run can be continued.\<close>

lemma engine_run_trans: "engine_run lb w1 w2 \<Longrightarrow> engine_run lb w0 w1 \<Longrightarrow> engine_run lb w0 w2"
  by (induction rule: engine_run.induct) (auto intro: engine_run.serve)

lemma run_history: "engine_run lb w0 w \<Longrightarrow> good w0 w0 \<Longrightarrow> alarm_inv (en_repo w) \<and> history (en_repo w0) (en_repo w)"
  using run_good by (auto simp: good_def)

inductive_cases engine_runE: "engine_run lb w0 w"

end
