(* ===== verification/Fencing.thy ===== *)
theory Fencing
  imports Memory_Repo
begin

text \<open>
  Fencing tokens. The processing claim of a standard message and the execution lease of a resource follow one contract: a
  grant to another holder needs an expired term and raises the token, so that a holder whose token is still current has not
  been replaced, and work that presents an old token is refused. The contract is the locale \<open>token_fence\<close>; the claims
  and the leases of the repository are interpretations of it.
\<close>

subsection \<open>The contract\<close>

locale token_fence =
  fixes owner :: "'s \<Rightarrow> string" and token :: "'s \<Rightarrow> int" and until :: "'s \<Rightarrow> int"
    and grant :: "int \<Rightarrow> string \<Rightarrow> int \<Rightarrow> 's \<Rightarrow> 's option"
  assumes grant_owner: "grant now who ttl s = Some s' \<Longrightarrow> owner s' = who"
    and grant_until: "grant now who ttl s = Some s' \<Longrightarrow> until s' = now + ttl"
    and grant_token: "grant now who ttl s = Some s' \<Longrightarrow> token s \<le> token s'"
    and grant_raises: "grant now who ttl s = Some s' \<Longrightarrow> owner s \<noteq> who \<Longrightarrow> token s < token s'"
    and grant_expired: "grant now who ttl s = Some s' \<Longrightarrow> owner s \<noteq> who \<Longrightarrow> owner s \<noteq> [] \<Longrightarrow> until s \<le> now"
begin

text \<open>The states reached by any sequence of attempts, each by anyone at any time.\<close>

inductive attempts :: "'s \<Rightarrow> 's \<Rightarrow> bool" for s where
  none: "attempts s s"
| granted: "attempts s a \<Longrightarrow> grant now who ttl a = Some b \<Longrightarrow> attempts s b"

lemma attempts_token: "attempts s s' \<Longrightarrow> token s \<le> token s'"
  by (induction rule: attempts.induct) (auto dest: grant_token)

lemma attempts_trans: "attempts b c \<Longrightarrow> attempts a b \<Longrightarrow> attempts a c"
  by (induction rule: attempts.induct) (auto intro: attempts.granted)

text \<open>A token that is still current belongs to the same holder.\<close>

lemma current_token_same_owner: "attempts s s' \<Longrightarrow> token s' = token s \<Longrightarrow> owner s' = owner s"
proof (induction rule: attempts.induct)
  case (granted a now who ttl b)
  have "token s \<le> token a" "token a \<le> token b" using attempts_token [OF granted.hyps(1)] grant_token [OF granted.hyps(2)] .
  then have "token a = token s" "token b = token a" using granted.prems by auto
  moreover have "owner a = who" using grant_raises [OF granted.hyps(2)] calculation by force
  ultimately show ?case using granted.IH grant_owner [OF granted.hyps(2)] by simp
qed simp

lemma taken_over: "attempts s s' \<Longrightarrow> owner s' \<noteq> owner s \<Longrightarrow> token s < token s'"
  using attempts_token current_token_same_owner by fastforce

text \<open>Nobody else is granted before the term ends.\<close>

lemma exclusive_term:
  assumes "grant now who ttl s = Some a" "grant now' other ttl' a = Some b" "other \<noteq> who" "who \<noteq> []"
  shows "now + ttl \<le> now'"
  using grant_expired [OF assms(2)] grant_owner [OF assms(1)] grant_until [OF assms(1)] assms(3,4) by simp

end

subsection \<open>Claims of standard messages\<close>

definition claim_grant :: "int \<Rightarrow> string \<Rightarrow> int \<Rightarrow> memoryClaim \<Rightarrow> memoryClaim option" where
  "claim_grant now who lease c =
     (if mc_owner c \<noteq> [] \<and> mc_owner c \<noteq> who \<and> now < mc_expires c then None
      else Some \<lparr>mc_owner = who, mc_token = mc_token c + 1, mc_expires = now + lease\<rparr>)"

interpretation claim_fence: token_fence mc_owner mc_token mc_expires claim_grant
  by unfold_locales (auto simp: claim_grant_def split: if_splits)

lemma SaveStandardMessageIfAbsent_claims:
  "rp_claims (snd (SaveStandardMessageIfAbsent v r)) = rp_claims r"
  "processed (snd (SaveStandardMessageIfAbsent v r)) (key [sm_TenantID v, sm_MessageID v]) \<longleftrightarrow>
     gm_get (rp_standard r) (key [sm_TenantID v, sm_MessageID v]) \<noteq> None \<and> processed r (key [sm_TenantID v, sm_MessageID v])"
  by (auto simp: SaveStandardMessageIfAbsent_def processed_def Let_def split: option.splits)

text \<open>The claim call of the repository is the grant of the contract.\<close>

lemma ClaimStandardMessage_grant:
  assumes "ClaimStandardMessage now v who lease r = (res, r')"
  shows "sc_ShouldProcess res \<longleftrightarrow> \<not> processed (snd (SaveStandardMessageIfAbsent v r)) (key [sm_TenantID v, sm_MessageID v]) \<and>
      claim_grant now who lease (claim_of r (key [sm_TenantID v, sm_MessageID v])) \<noteq> None"
    and "sc_ShouldProcess res \<Longrightarrow> claim_grant now who lease (claim_of r (key [sm_TenantID v, sm_MessageID v])) =
      Some (claim_of r' (key [sm_TenantID v, sm_MessageID v])) \<and> sc_Token res = mc_token (claim_of r' (key [sm_TenantID v, sm_MessageID v]))"
    and "\<not> sc_ShouldProcess res \<Longrightarrow> rp_claims r' = rp_claims r"
  using assms SaveStandardMessageIfAbsent_claims(1) [of v r]
  by (auto simp: ClaimStandardMessage_def claim_grant_def claim_of_def zero_StandardClaim_def Let_def split: prod.splits if_splits)

text \<open>Everything other workers may do with claims and completions.\<close>

inductive claim_run :: "repo \<Rightarrow> repo \<Rightarrow> bool" for r where
  idle: "claim_run r r"
| claims: "claim_run r a \<Longrightarrow> claim_run r (snd (ClaimStandardMessage now v who lease a))"
| completes: "claim_run r a \<Longrightarrow> claim_run r (snd (CompleteStandardMessage st t m tok a))"

lemma claim_of_other:
  "k \<noteq> key [sm_TenantID v, sm_MessageID v] \<Longrightarrow> claim_of (snd (ClaimStandardMessage now v who lease a)) k = claim_of a k"
  using SaveStandardMessageIfAbsent_claims(1) [of v a]
  by (auto simp: ClaimStandardMessage_def claim_of_def Let_def split: prod.splits)

lemma claim_step_attempts:
  "claim_fence.attempts (claim_of a k) (claim_of (snd (ClaimStandardMessage now v who lease a)) k)"
proof (cases "k = key [sm_TenantID v, sm_MessageID v]")
  case True
  obtain res b where c: "ClaimStandardMessage now v who lease a = (res, b)" by fastforce
  note g = ClaimStandardMessage_grant(2,3) [OF c]
  show ?thesis
  proof (cases "sc_ShouldProcess res")
    case True
    with g(1) c \<open>k = _\<close> show ?thesis by (auto intro: claim_fence.attempts.granted claim_fence.attempts.none)
  next
    case False
    then have "claim_of b k = claim_of a k" using g(2) by (simp add: claim_of_def)
    then show ?thesis using c by (simp add: claim_fence.attempts.none)
  qed
qed (simp add: claim_of_other claim_fence.attempts.none)

lemma CompleteStandardMessage_claims: "rp_claims (snd (CompleteStandardMessage st t m tok a)) = rp_claims a"
  by (auto simp: CompleteStandardMessage_def MarkStandardMessageProcessed_def Let_def UpsertDeviceStateIf_def
      split: option.splits prod.splits if_splits)

lemma claim_run_attempts: "claim_run r r' \<Longrightarrow> claim_fence.attempts (claim_of r k) (claim_of r' k)"
proof (induction rule: claim_run.induct)
  case (claims a now v who lease)
  then show ?case using claim_fence.attempts_trans claim_step_attempts by blast
next
  case (completes a st t m tok)
  then show ?case by (simp add: claim_of_def CompleteStandardMessage_claims)
qed (rule claim_fence.attempts.none)

text \<open>A completion with a token that is not current changes nothing but, at most, the device state it was given.\<close>

lemma Mark_stale:
  "mc_token (claim_of r (key [t, m])) \<noteq> tok \<Longrightarrow> gm_get (rp_standard r) (key [t, m]) \<noteq> None \<Longrightarrow>
   MarkStandardMessageProcessed t m tok r = (Inl ErrStaleClaim, r)"
  by (auto simp: MarkStandardMessageProcessed_def Let_def)

lemma stale_completion:
  assumes c1: "ClaimStandardMessage now v a lease r = (g1, r1)" "sc_ShouldProcess g1"
    and run: "claim_run r1 r2"
    and other: "mc_owner (claim_of r2 (key [sm_TenantID v, sm_MessageID v])) \<noteq> a"
    and stored: "gm_get (rp_standard r2) (key [sm_TenantID v, sm_MessageID v]) \<noteq> None"
  shows "MarkStandardMessageProcessed (sm_TenantID v) (sm_MessageID v) (sc_Token g1) r2 = (Inl ErrStaleClaim, r2)"
proof -
  let ?k = "key [sm_TenantID v, sm_MessageID v]"
  note g = ClaimStandardMessage_grant(2) [OF c1]
  have "mc_owner (claim_of r1 ?k) = a" using claim_fence.grant_owner [OF conjunct1 [OF g]] .
  then have "mc_token (claim_of r1 ?k) < mc_token (claim_of r2 ?k)"
    using claim_fence.taken_over [OF claim_run_attempts [OF run]] other by blast
  then show ?thesis using g stored by (intro Mark_stale) auto
qed

subsection \<open>Execution leases\<close>

definition lease_grant :: "int \<Rightarrow> string \<Rightarrow> int \<Rightarrow> (string \<times> int \<times> int) option \<Rightarrow> (string \<times> int \<times> int) option option" where
  "lease_grant now who ttl s = (case s of
     None \<Rightarrow> Some (Some (who, 1, now + ttl))
   | Some (o', t, e) \<Rightarrow> if e > now \<and> o' \<noteq> who then None else Some (Some (who, if e \<le> now then t + 1 else t, now + ttl)))"

definition lease_view :: "repo \<Rightarrow> string \<Rightarrow> string \<Rightarrow> (string \<times> int \<times> int) option" where
  "lease_view r tenant resource = map_option (\<lambda>v. (el_Owner v, el_Token v, el_ExpiresAt v)) (gm_get (rp_leases r) (key [tenant, resource]))"

interpretation lease_fence: token_fence
  "\<lambda>s. case s of None \<Rightarrow> [] | Some (who, _, _) \<Rightarrow> who" "\<lambda>s. case s of None \<Rightarrow> 0 | Some (_, t, _) \<Rightarrow> t"
  "\<lambda>s. case s of None \<Rightarrow> 0 | Some (_, _, e) \<Rightarrow> e" lease_grant
  by unfold_locales (auto simp: lease_grant_def split: option.splits prod.splits if_splits)

text \<open>The abstract grant is what the call of the repository does.\<close>

lemma AcquireExecutionLease_grant:
  assumes "tenant \<noteq> []" "resource \<noteq> []" "who \<noteq> []" "1000 \<le> ttl" "ttl \<le> 60000"
  shows "\<exists>v held r'. AcquireExecutionLease now tenant resource who endpoint ttl r = (Inr (v, held), r') \<and>
    (held \<longleftrightarrow> lease_grant now who ttl (lease_view r tenant resource) \<noteq> None) \<and>
    (held \<longrightarrow> lease_grant now who ttl (lease_view r tenant resource) = Some (lease_view r' tenant resource) \<and>
       lease_view r' tenant resource = Some (who, el_Token v, el_ExpiresAt v)) \<and> (\<not> held \<longrightarrow> r' = r)"
  using assms by (auto simp: AcquireExecutionLease_def lease_grant_def lease_view_def Let_def split: option.splits)

end
