(* ===== verification/Engine_Progress.thy ===== *)
theory Engine_Progress
  imports Alarm_System Fencing
begin

text \<open>
  What the operations of the engine achieve when nobody interferes: an empty schedule, so that no call fails and no other
  worker runs in between. Updates succeed at their first attempt, the business status of a device follows its open
  alarms, the offline scan leaves no device due, the outbox relay publishes every event once and in order, and disabling a
  rule leaves none of its alarms open.
\<close>

definition quiet :: "engine \<Rightarrow> bool" where
  "quiet w \<longleftrightarrow> en_sched w = []"

text \<open>A map whose keys are computed from its values.\<close>

lemma keyed_vals:
  assumes "gm_ok m" "\<forall>(k, v) \<in> set m. k = f v"
  shows "distinct (map f (gm_vals m))" "v \<in> set (gm_vals m) \<longleftrightarrow> gm_get m (f v) = Some v"
proof -
  have "map f (gm_vals m) = map fst m" using assms(2) by (auto simp: gm_vals_def)
  with assms(1) show "distinct (map f (gm_vals m))" by (simp add: gm_ok_def)
  show "v \<in> set (gm_vals m) \<longleftrightarrow> gm_get m (f v) = Some v"
  proof
    assume "v \<in> set (gm_vals m)"
    then obtain k where k: "(k, v) \<in> set m" by (auto simp: gm_vals_def)
    with assms(2) have "k = f v" by blast
    with k assms(1) show "gm_get m (f v) = Some v" by (simp add: gm_mem_get)
  next
    assume "gm_get m (f v) = Some v"
    from gm_get_mem [OF this] show "v \<in> set (gm_vals m)" unfolding gm_vals_def by (metis imageI list.set_map snd_conv)
  qed
qed

definition states_ok :: "repo \<Rightarrow> bool" where
  "states_ok r \<longleftrightarrow> gm_ok (rp_states r) \<and> (\<forall>(k, s) \<in> set (rp_states r). k = key [ds_TenantID s, ds_DeviceID s] \<and> 0 < ds_Version s)"

lemma states_ok_stored: "states_ok r \<Longrightarrow> gm_get (rp_states r) k = Some s \<Longrightarrow> k = key [ds_TenantID s, ds_DeviceID s] \<and> 0 < ds_Version s"
  by (auto simp: states_ok_def dest: gm_get_mem)

lemma states_ok_put:
  "states_ok r \<Longrightarrow> 0 < ds_Version s \<Longrightarrow> k = key [ds_TenantID s, ds_DeviceID s] \<Longrightarrow> states_ok (r\<lparr>rp_states := gm_put k s (rp_states r)\<rparr>)"
  by (auto simp: states_ok_def dest!: gm_put_subset)

lemma states_ok_UpsertDeviceStateIf: "states_ok r \<Longrightarrow> 0 \<le> ds_Version v \<Longrightarrow> states_ok (snd (UpsertDeviceStateIf v r))"
  by (auto simp: UpsertDeviceStateIf_def Let_def intro!: states_ok_put)

subsection \<open>Updates at the first attempt\<close>

lemma mutateDeviceState_quiet:
  assumes q: "quiet w" and ok: "states_ok (en_repo w)"
    and s: "s = (case stored_state (en_repo w) t d of None \<Rightarrow> zero_DeviceState | Some s \<Rightarrow> s)"
    and fn: "fn s (stored_state (en_repo w) t d \<noteq> None) w = (Inr (True, nxt), w2)" "quiet w2" "rp_states (en_repo w2) = rp_states (en_repo w)"
    and a: "after = nxt\<lparr>ds_TenantID := t, ds_DeviceID := d, ds_Version := ds_Version s + 1\<rparr>"
  shows "mutateDeviceState t d fn w = (Inr (s, after, True), w2\<lparr>en_repo := (en_repo w2)\<lparr>rp_states := gm_put (key [t, d]) after (rp_states (en_repo w))\<rparr>\<rparr>)"
proof -
  have pos: "0 < ds_Version c" if "gm_get (rp_states (en_repo w)) (key [t, d]) = Some c" for c
    using states_ok_stored [OF ok that] by simp
  have up: "UpsertDeviceStateIf (nxt\<lparr>ds_TenantID := t, ds_DeviceID := d, ds_Version := ds_Version s\<rparr>) (en_repo w2) =
      (True, (en_repo w2)\<lparr>rp_states := gm_put (key [t, d]) after (rp_states (en_repo w))\<rparr>)"
    using s a fn(3) by (auto simp: UpsertDeviceStateIf_def Let_def stored_state_def zero_DeviceState_def dest: pos split: option.splits)
  show ?thesis
  proof (cases "stored_state (en_repo w) t d")
    case None
    then show ?thesis using q s fn up a
      by (simp add: mutateDeviceState_def casAttempts_def eval_nat_numeral ebind_eq etry_eq quiet_def quiet_calls GetDeviceStateFresh_def
          GetDeviceState_def attempt_step_def Let_def eret_def)
  next
    case (Some c)
    then show ?thesis using q s fn up a
      by (simp add: mutateDeviceState_def casAttempts_def eval_nat_numeral ebind_eq etry_eq quiet_def quiet_calls GetDeviceStateFresh_def
          GetDeviceState_def attempt_step_def Let_def eret_def)
  qed
qed

lemma mutateDeviceState_quiet_skip:
  assumes q: "quiet w"
    and s: "s = (case stored_state (en_repo w) t d of None \<Rightarrow> zero_DeviceState | Some s \<Rightarrow> s)"
    and fn: "fn s (stored_state (en_repo w) t d \<noteq> None) w = (Inr (False, nxt), v)"
  shows "mutateDeviceState t d fn w = (Inr (s, s, False), v)"
  using assms by (cases "stored_state (en_repo w) t d")
    (simp_all add: mutateDeviceState_def casAttempts_def eval_nat_numeral ebind_eq etry_eq quiet_def quiet_calls GetDeviceStateFresh_def
      GetDeviceState_def attempt_step_def eret_def)

text \<open>The record and the publication of a state change touch neither states nor alarms.\<close>

definition same_core :: "engine \<Rightarrow> engine \<Rightarrow> bool" where
  "same_core w w' \<longleftrightarrow> en_sched w' = en_sched w \<and> en_clock w' = en_clock w \<and> rp_states (en_repo w') = rp_states (en_repo w) \<and>
     rp_alarms (en_repo w') = rp_alarms (en_repo w) \<and> rp_componentAlarms (en_repo w') = rp_componentAlarms (en_repo w) \<and>
     rp_standardProcessed (en_repo w') = rp_standardProcessed (en_repo w) \<and> rp_outbox (en_repo w') = rp_outbox (en_repo w)"

lemma same_core_refl [simp]: "same_core w w"
  by (simp add: same_core_def)

lemma same_core_trans: "same_core a b \<Longrightarrow> same_core b c \<Longrightarrow> same_core a c"
  by (simp add: same_core_def)

lemma rt_publish_core: "same_core w (snd (rt_publish t p b w))"
  by (simp add: rt_publish_def Let_def same_core_def)

lemma bus_publish_core: "same_core w (snd (bus_publish t k p w))"
  by (simp add: bus_publish_def Let_def same_core_def)

lemma publishStateChange_quiet:
  assumes "quiet w"
  shows "fst (publishStateChange a b w) = Inr ()" "same_core w (snd (publishStateChange a b w))"
proof -
  have e: "\<exists>w1. repo_op (\<lambda>now r. (Inr (), SaveDeviceStateEvent now b r)) w = (Inr (), w1) \<and> same_core w w1"
    using assms by (auto simp: quiet_def quiet_repo_op SaveDeviceStateEvent_def same_core_def)
  show "fst (publishStateChange a b w) = Inr ()" "same_core w (snd (publishStateChange a b w))"
    using e by (auto simp: publishStateChange_def ethen_eq eignore_def ebind_eq etry_eq eret_def
        intro: same_core_trans [OF _ rt_publish_core])
qed

lemma publishEvent_core:
  "fst (publishEvent t k rt p w) = Inr ()" "same_core w (snd (publishEvent t k rt p w))"
  by (auto simp: publishEvent_def ethen_eq eignore_def ebind_eq etry_eq eret_def intro: bus_publish_core same_core_trans [OF bus_publish_core rt_publish_core])

lemma finish_state_quiet:
  assumes "m w = (Inr (a, b, wr), w1)" "quiet w1"
  shows "fst (finish_state m w) = Inr ()" "same_core w1 (snd (finish_state m w))"
  using assms publishStateChange_quiet [OF assms(2)] by (auto simp: finish_state_def ebind_eq eret_def)

subsection \<open>The business status follows the open alarms\<close>

lemma HasOpenAlarm_same: "rp_alarms r' = rp_alarms r \<Longrightarrow> HasOpenAlarm t d r' = HasOpenAlarm t d r"
  by (simp add: HasOpenAlarm_def)

lemma business_state_status:
  "ds_BusinessStatus (business_state p b s) = (if b then ''ALARM'' else ''ONLINE'')"
  by (simp add: business_state_def Let_def)

lemma sync_quiet:
  assumes q: "quiet w" and ok: "states_ok (en_repo w)" and s: "stored_state (en_repo w) t d = Some s"
  obtains w' where "syncDeviceBusinessStatus t p d w = (Inr (), w')" "quiet w'" "states_ok (en_repo w')"
    "stored_state (en_repo w') t d = Some ((business_state p (HasOpenAlarm t d (en_repo w)) s)\<lparr>ds_TenantID := t, ds_DeviceID := d, ds_Version := ds_Version s + 1\<rparr>)"
    "rp_alarms (en_repo w') = rp_alarms (en_repo w)"
proof -
  let ?fn = "\<lambda>state found. if \<not> found then eret (False, state)
       else ebind (repo_val (HasOpenAlarm t d)) (\<lambda>isopen. eret (True, business_state p isopen state))"
  let ?after = "(business_state p (HasOpenAlarm t d (en_repo w)) s)\<lparr>ds_TenantID := t, ds_DeviceID := d, ds_Version := ds_Version s + 1\<rparr>"
  let ?w1 = "w\<lparr>en_repo := (en_repo w)\<lparr>rp_states := gm_put (key [t, d]) ?after (rp_states (en_repo w))\<rparr>\<rparr>"
  have fn: "?fn s True w = (Inr (True, business_state p (HasOpenAlarm t d (en_repo w)) s), w)"
    using q by (simp add: ebind_eq quiet_def quiet_calls eret_def)
  have m: "mutateDeviceState t d ?fn w = (Inr (s, ?after, True), ?w1)"
    using mutateDeviceState_quiet [OF q ok _ _ q refl refl, of s t d ?fn] s fn by simp
  have q1: "quiet ?w1" using q by (simp add: quiet_def)
  note f = finish_state_quiet [where m = "mutateDeviceState t d ?fn", OF m q1]
  define w' where "w' = snd (syncDeviceBusinessStatus t p d w)"
  have c: "same_core ?w1 w'" using f(2) by (simp add: w'_def syncDeviceBusinessStatus_def)
  have st: "states_ok (en_repo ?w1)" using ok states_ok_stored [OF ok s [unfolded stored_state_def]]
    by (auto intro: states_ok_put)
  show thesis
  proof (rule that [of w'])
    show "syncDeviceBusinessStatus t p d w = (Inr (), w')" using f(1) by (simp add: w'_def syncDeviceBusinessStatus_def prod_eq_iff)
    show "quiet w'" "stored_state (en_repo w') t d = Some ?after" "rp_alarms (en_repo w') = rp_alarms (en_repo w)" "states_ok (en_repo w')"
      using c q st by (simp_all add: same_core_def quiet_def stored_state_def states_ok_def)
  qed
qed

subsection \<open>The outbox relay\<close>

definition outbox_event :: "OutboxEvent \<Rightarrow> bus_event" where
  "outbox_event v = \<lparr>be_Topic = ob_Topic v, be_Key = ob_Key v, be_Payload = PAlarm (ob_Payload v)\<rparr>"

lemma publish_batch_all:
  "en_bus_faults w = [] \<Longrightarrow> publish_batch vs sent w = (Inr (sent @ vs, None), w\<lparr>en_bus := en_bus w @ map outbox_event vs\<rparr>)"
proof (induction vs arbitrary: sent w)
  case (Cons v vs)
  then show ?case by (simp add: ebind_eq etry_eq bus_publish_def outbox_event_def)
qed (simp add: eret_def)

lemma outbox_remove_first:
  assumes "distinct (map ob_Seq (rp_outbox r))"
  shows "outbox_remove (take n (rp_outbox r)) r = r\<lparr>rp_outbox := drop n (rp_outbox r)\<rparr>"
proof -
  let ?p = "\<lambda>v. ob_Seq v \<notin> set (map ob_Seq (take n (rp_outbox r)))"
  have d: "distinct (map ob_Seq (take n (rp_outbox r) @ drop n (rp_outbox r)))" using assms by simp
  have "filter ?p (take n (rp_outbox r) @ drop n (rp_outbox r)) = drop n (rp_outbox r)"
    using d unfolding map_append distinct_append by (auto simp: filter_empty_conv filter_id_conv simp del: append_take_drop_id)
  then show ?thesis by (simp add: outbox_remove_def)
qed

lemma DrainOutbox_all:
  assumes "quiet w" "en_bus_faults w = []" "distinct (map ob_Seq (rp_outbox (en_repo w)))"
  shows "DrainOutbox n w = (Inr (min (length (rp_outbox (en_repo w))) n, None),
    w\<lparr>en_bus := en_bus w @ map outbox_event (take n (rp_outbox (en_repo w))), en_repo := (en_repo w)\<lparr>rp_outbox := drop n (rp_outbox (en_repo w))\<rparr>\<rparr>)"
proof -
  have "distinct (map ob_Seq (take n (rp_outbox (en_repo w))))" using assms(3) by (simp add: take_map [symmetric])
  then have "length (remdups (map ob_Seq (take n (rp_outbox (en_repo w))))) = min (length (rp_outbox (en_repo w))) n"
    by (simp add: distinct_remdups_id)
  with assms show ?thesis
    by (simp add: DrainOutbox_def ebind_eq ethen_eq quiet_def quiet_calls publish_batch_all outbox_batch_def outbox_remove_first eret_def)
qed

lemma flushOutbox_all:
  assumes "quiet w" "en_bus_faults w = []" "distinct (map ob_Seq (rp_outbox (en_repo w)))"
  shows "flushOutbox w = (Inr (),
    w\<lparr>en_bus := en_bus w @ map outbox_event (rp_outbox (en_repo w)), en_repo := (en_repo w)\<lparr>rp_outbox := []\<rparr>\<rparr>)"
  using assms
proof (induction "length (rp_outbox (en_repo w))" arbitrary: w rule: less_induct)
  case less
  let ?o = "rp_outbox (en_repo w)"
  note d = DrainOutbox_all [OF less.prems, of outboxBatch]
  show ?case
  proof (cases "length ?o < outboxBatch")
    case True
    then show ?thesis by (subst flushOutbox.simps) (simp add: d)
  next
    case False
    let ?w = "w\<lparr>en_bus := en_bus w @ map outbox_event (take outboxBatch ?o), en_repo := (en_repo w)\<lparr>rp_outbox := drop outboxBatch ?o\<rparr>\<rparr>"
    have "flushOutbox w = flushOutbox ?w" using False by (subst flushOutbox.simps) (simp add: d)
    also have "\<dots> = (Inr (), ?w\<lparr>en_bus := en_bus ?w @ map outbox_event (drop outboxBatch ?o), en_repo := (en_repo ?w)\<lparr>rp_outbox := []\<rparr>\<rparr>)"
      using less.hyps [of ?w] less.prems False by (simp add: outboxBatch_def quiet_def drop_map [symmetric])
    finally show ?thesis by (simp add: map_append [symmetric])
  qed
qed

subsection \<open>The offline scan\<close>

definition offline_due :: "int \<Rightarrow> DeviceState \<Rightarrow> bool" where
  "offline_due now s \<longleftrightarrow> 0 < OfflineCheckAt s \<and> OfflineCheckAt s < now"

definition scanned :: "int \<Rightarrow> DeviceState \<Rightarrow> DeviceState" where
  "scanned now s = (if offline_due now s then (mark_offline now s)\<lparr>ds_Version := ds_Version s + 1\<rparr> else s)"

lemma scanned_not_due [simp]: "\<not> offline_due now (scanned now s)"
proof (cases "offline_due now s")
  case True
  have "OfflineCheckAt ((mark_offline now s)\<lparr>ds_Version := v\<rparr>) = OfflineCheckAt (mark_offline now s)" for v
    by (simp add: OfflineCheckAt_def OfflineDeadline_def OfflineStatus_def)
  with True OfflineCheckAt_mark_offline show ?thesis by (simp add: scanned_def offline_due_def)
qed (simp add: scanned_def)

lemma scan_device_quiet:
  assumes q: "quiet w" and ok: "states_ok (en_repo w)" and s: "stored_state (en_repo w) (ds_TenantID s) (ds_DeviceID s) = Some s" and d: "offline_due now s"
  obtains w' where "scan_device now s w = (Inr (), w')" "quiet w'" "states_ok (en_repo w')"
    "\<And>k. gm_get (rp_states (en_repo w')) k = (if k = key [ds_TenantID s, ds_DeviceID s] then Some (scanned now s) else gm_get (rp_states (en_repo w)) k)"
proof -
  let ?fn = "\<lambda>s found. eret (if \<not> found \<or> OfflineCheckAt s = 0 \<or> OfflineCheckAt s \<ge> now then (False, s) else (True, mark_offline now s))"
  let ?w1 = "w\<lparr>en_repo := (en_repo w)\<lparr>rp_states := gm_put (key [ds_TenantID s, ds_DeviceID s]) (scanned now s) (rp_states (en_repo w))\<rparr>\<rparr>"
  have e: "(mark_offline now s)\<lparr>ds_TenantID := ds_TenantID s, ds_DeviceID := ds_DeviceID s, ds_Version := ds_Version s + 1\<rparr> = scanned now s"
    using d by (simp add: scanned_def mark_offline_def)
  have m: "mutateDeviceState (ds_TenantID s) (ds_DeviceID s) ?fn w = (Inr (s, scanned now s, True), ?w1)"
    using mutateDeviceState_quiet [OF q ok _ _ q refl refl, of s "ds_TenantID s" "ds_DeviceID s" ?fn] s d
    by (simp add: eret_def offline_due_def e)
  have q1: "quiet ?w1" using q by (simp add: quiet_def)
  have ok1: "states_ok (en_repo ?w1)" using ok states_ok_stored [OF ok s [unfolded stored_state_def]] d
    by (auto simp: scanned_def mark_offline_def intro: states_ok_put)
  have r: "scan_device now s w = publishStateChange s (scanned now s) ?w1" unfolding scan_device_def ebind_eq etry_eq m by simp
  note c = publishStateChange_quiet [OF q1, of s "scanned now s"]
  show thesis
  proof (rule that)
    show "scan_device now s w = (Inr (), snd (publishStateChange s (scanned now s) ?w1))" using r c(1) by (simp add: prod_eq_iff)
  qed (use c(2) q1 ok1 in \<open>simp_all add: same_core_def quiet_def states_ok_def\<close>)
qed

lemma scan_list_quiet:
  assumes "quiet w" "states_ok (en_repo w)" "distinct (map (\<lambda>s. key [ds_TenantID s, ds_DeviceID s]) ss)"
    "\<And>s. s \<in> set ss \<Longrightarrow> stored_state (en_repo w) (ds_TenantID s) (ds_DeviceID s) = Some s \<and> offline_due now s"
  obtains w' where "efor ss (scan_device now) w = (Inr (), w')" "quiet w'" "states_ok (en_repo w')"
    "\<And>k. gm_get (rp_states (en_repo w')) k = (if k \<in> (\<lambda>s. key [ds_TenantID s, ds_DeviceID s]) ` set ss
       then map_option (scanned now) (gm_get (rp_states (en_repo w)) k) else gm_get (rp_states (en_repo w)) k)"
  using assms
proof (induction ss arbitrary: w thesis)
  case Nil
  then show ?case by (simp add: eret_def)
next
  case (Cons s ss)
  from Cons.prems(5) have s: "stored_state (en_repo w) (ds_TenantID s) (ds_DeviceID s) = Some s" "offline_due now s" by simp_all
  obtain w1 where w1: "scan_device now s w = (Inr (), w1)" "quiet w1" "states_ok (en_repo w1)"
    "\<And>k. gm_get (rp_states (en_repo w1)) k = (if k = key [ds_TenantID s, ds_DeviceID s] then Some (scanned now s) else gm_get (rp_states (en_repo w)) k)"
    using scan_device_quiet [OF Cons.prems(2,3) s] by metis
  have rest: "stored_state (en_repo w1) (ds_TenantID x) (ds_DeviceID x) = Some x \<and> offline_due now x" if "x \<in> set ss" for x
  proof -
    have "key [ds_TenantID x, ds_DeviceID x] \<noteq> key [ds_TenantID s, ds_DeviceID s]" using Cons.prems(4) that by (auto simp: image_iff)
    then show ?thesis using Cons.prems(5) [of x] that by (simp add: stored_state_def w1(4))
  qed
  obtain w' where w': "efor ss (scan_device now) w1 = (Inr (), w')" "quiet w'" "states_ok (en_repo w')"
    "\<And>k. gm_get (rp_states (en_repo w')) k = (if k \<in> (\<lambda>s. key [ds_TenantID s, ds_DeviceID s]) ` set ss
       then map_option (scanned now) (gm_get (rp_states (en_repo w1)) k) else gm_get (rp_states (en_repo w1)) k)"
    using Cons.IH [OF _ w1(2,3) _ rest] Cons.prems(4) by (simp del: key.simps) blast
  show ?case
  proof (rule Cons.prems(1) [OF _ w'(2,3)])
    show "efor (s # ss) (scan_device now) w = (Inr (), w')" using w1(1) w'(1) by (simp add: ethen_eq)
    show "gm_get (rp_states (en_repo w')) k = (if k \<in> (\<lambda>s. key [ds_TenantID s, ds_DeviceID s]) ` set (s # ss)
       then map_option (scanned now) (gm_get (rp_states (en_repo w)) k) else gm_get (rp_states (en_repo w)) k)" for k
      using Cons.prems(4) s(1) by (auto simp: w'(4) w1(4) stored_state_def)
  qed
qed

definition due_keys :: "int \<Rightarrow> repo \<Rightarrow> string set" where
  "due_keys now r = {k. \<exists>s. gm_get (rp_states r) k = Some s \<and> offline_due now s}"

lemma due_listed:
  fixes now :: int
  assumes ok: "states_ok r"
  defines "ds \<equiv> filter (offline_due now) (gm_vals (rp_states r))"
  shows "distinct (map (\<lambda>s. key [ds_TenantID s, ds_DeviceID s]) ds)" "(\<lambda>s. key [ds_TenantID s, ds_DeviceID s]) ` set ds = due_keys now r"
    "s \<in> set ds \<Longrightarrow> stored_state r (ds_TenantID s) (ds_DeviceID s) = Some s \<and> offline_due now s" "length ds = card (due_keys now r)"
proof -
  let ?k = "\<lambda>s. key [ds_TenantID s, ds_DeviceID s]"
  note vals = keyed_vals [of "rp_states r" ?k]
  have ok': "gm_ok (rp_states r)" "\<forall>(k, s) \<in> set (rp_states r). k = ?k s" using ok by (auto simp: states_ok_def)
  show di: "distinct (map ?k ds)" using vals(1) [OF ok'] by (simp add: ds_def distinct_map_filter)
  have st: "gm_get (rp_states r) (?k s) = Some s \<and> offline_due now s \<longleftrightarrow> s \<in> set ds" for s
    using vals(2) [OF ok', of s] by (simp add: ds_def)
  then show "s \<in> set ds \<Longrightarrow> stored_state r (ds_TenantID s) (ds_DeviceID s) = Some s \<and> offline_due now s" by (simp add: stored_state_def)
  have "k \<in> due_keys now r \<longleftrightarrow> k \<in> ?k ` set ds" for k
  proof
    assume "k \<in> due_keys now r"
    then obtain s where s: "gm_get (rp_states r) k = Some s" "offline_due now s" by (auto simp: due_keys_def)
    moreover have "k = ?k s" using states_ok_stored [OF ok s(1)] by simp
    ultimately show "k \<in> ?k ` set ds" using st by blast
  qed (use st in \<open>auto simp: due_keys_def\<close>)
  then show im: "?k ` set ds = due_keys now r" by blast
  show "length ds = card (due_keys now r)" using distinct_card [OF di] by (simp add: im)
qed

text \<open>
  A budget above the number of due devices divided by the batch size is enough: every due device is marked, every other
  state is as before, and nothing is due any more.
\<close>

lemma scan_batches_quiet:
  assumes "quiet w" "states_ok (en_repo w)" "card (due_keys now (en_repo w)) < n * offlineScanBatch"
  obtains w' where "scan_batches n now w = (Inr (), w')" "quiet w'" "states_ok (en_repo w')"
    "\<And>k. gm_get (rp_states (en_repo w')) k = map_option (scanned now) (gm_get (rp_states (en_repo w)) k)"
  using assms
proof (induction n arbitrary: w thesis)
  case (Suc n)
  let ?k = "\<lambda>s. key [ds_TenantID s, ds_DeviceID s]"
  define ds where "ds = filter (offline_due now) (gm_vals (rp_states (en_repo w)))"
  define batch where "batch = take offlineScanBatch ds"
  note due = due_listed [where now = now, OF Suc.prems(3), folded ds_def]
  have L: "ListOfflineDue now offlineScanBatch (en_repo w) = batch"
    by (simp add: ListOfflineDue_def batch_def ds_def offline_due_def [abs_def])
  have di: "distinct (map ?k batch)" using due(1) by (simp add: batch_def take_map [symmetric])
  have sub: "set batch \<subseteq> set ds" by (simp add: batch_def set_take_subset)
  obtain w1 where w1: "efor batch (scan_device now) w = (Inr (), w1)" "quiet w1" "states_ok (en_repo w1)"
    "\<And>k. gm_get (rp_states (en_repo w1)) k = (if k \<in> ?k ` set batch
       then map_option (scanned now) (gm_get (rp_states (en_repo w)) k) else gm_get (rp_states (en_repo w)) k)"
    using scan_list_quiet [OF Suc.prems(2,3) di] due(3) sub by blast
  have dk: "due_keys now (en_repo w1) = due_keys now (en_repo w) - ?k ` set batch"
    by (auto simp: due_keys_def w1(4))
  have unchanged: "gm_get (rp_states (en_repo w)) k = map_option (scanned now) (gm_get (rp_states (en_repo w)) k)" if "k \<notin> due_keys now (en_repo w)" for k
    using that by (cases "gm_get (rp_states (en_repo w)) k") (auto simp: due_keys_def scanned_def)
  show ?case
  proof (cases "length batch < offlineScanBatch")
    case True
    then have "batch = ds" by (auto simp: batch_def)
    then have all: "gm_get (rp_states (en_repo w1)) k = map_option (scanned now) (gm_get (rp_states (en_repo w)) k)" for k
      using due(2) unchanged by (simp add: w1(4))
    show ?thesis
      by (rule Suc.prems(1) [OF _ w1(2,3) all]) (use True Suc.prems(2) w1(1) in \<open>simp add: ebind_eq ethen_eq quiet_def quiet_calls L eret_def\<close>)
  next
    case False
    have cb: "card (?k ` set batch) = offlineScanBatch"
      using distinct_card [OF di] False by (simp add: batch_def)
    have "?k ` set batch \<subseteq> due_keys now (en_repo w)" using sub due(2) by blast
    then have "card (due_keys now (en_repo w1)) = card (due_keys now (en_repo w)) - offlineScanBatch"
      using cb dk by (simp add: card_Diff_subset)
    then have "card (due_keys now (en_repo w1)) < n * offlineScanBatch"
      using Suc.prems(4) False due(4) by (cases n) (auto simp: batch_def offlineScanBatch_def)
    then obtain w' where w': "scan_batches n now w1 = (Inr (), w')" "quiet w'" "states_ok (en_repo w')"
      "\<And>k. gm_get (rp_states (en_repo w')) k = map_option (scanned now) (gm_get (rp_states (en_repo w1)) k)"
      using Suc.IH [OF _ w1(2,3)] by blast
    have all: "gm_get (rp_states (en_repo w')) k = map_option (scanned now) (gm_get (rp_states (en_repo w)) k)" for k
      by (cases "gm_get (rp_states (en_repo w)) k") (auto simp: w'(4) w1(4) scanned_def [of now "scanned now _"])
    show ?thesis
      by (rule Suc.prems(1) [OF _ w'(2,3) all]) (use False Suc.prems(2) w1(1) w'(1) in \<open>simp add: ebind_eq ethen_eq quiet_def quiet_calls L\<close>)
  qed
qed simp

subsection \<open>Completion of a message\<close>

lemma cachedProduct_quiet:
  assumes "quiet w"
  shows "quiet (snd (cachedProduct t p w))" "en_repo (snd (cachedProduct t p w)) = en_repo w"
proof -
  have e: "snd (eresult x v) = v" for x :: "err + Product" and v by (cases x) (simp_all add: eresult_def eret_def efail_def)
  show "quiet (snd (cachedProduct t p w))" "en_repo (snd (cachedProduct t p w)) = en_repo w"
    using assms by (simp_all add: cachedProduct_def quiet_def ebind_eq easks_def etry_eq quiet_calls ethen_eq set_tenant_protocols_def
      e split: option.splits)
qed

lemma deviceTiming_quiet:
  assumes "quiet w"
  obtains i tol w' where "deviceTiming t p d w = (Inr (i, tol), w')" "quiet w'" "en_repo w' = en_repo w"
  using cachedProduct_quiet [OF assms, of t p]
  by (simp add: deviceTiming_def ebind_eq etry_eq quiet_def quiet_calls eret_def) (metis prod.collapse)

lemma nextMessageState_completes:
  "nextMessageState s found m True isopen = (True, snd (nextMessageState s found m True isopen))"
  "ds_BusinessStatus (snd (nextMessageState s found m True isopen)) = ''ALARM'' \<longleftrightarrow> isopen"
  "sm_Timestamp m \<le> ds_LastSeenAt (snd (nextMessageState s found m True isopen))"
  by (auto simp: nextMessageState_def Let_def)

lemma CompleteStandardMessage_ok:
  assumes ok: "states_ok r" and stored: "gm_get (rp_standard r) (key [t, i]) \<noteq> None"
    and current: "mc_token (claim_of r (key [t, i])) = tok" and fresh: "\<not> processed r (key [t, i])"
    and v: "ds_Version s = (case stored_state r (ds_TenantID s) (ds_DeviceID s) of None \<Rightarrow> 0 | Some c \<Rightarrow> ds_Version c)"
  shows "CompleteStandardMessage (Some s) t i tok r = ((True, None),
    r\<lparr>rp_states := gm_put (key [ds_TenantID s, ds_DeviceID s]) (s\<lparr>ds_Version := ds_Version s + 1\<rparr>) (rp_states r),
      rp_standardProcessed := gm_put (key [t, i]) True (rp_standardProcessed r)\<rparr>)"
proof -
  have "UpsertDeviceStateIf s r = (True, r\<lparr>rp_states := gm_put (key [ds_TenantID s, ds_DeviceID s]) (s\<lparr>ds_Version := ds_Version s + 1\<rparr>) (rp_states r)\<rparr>)"
  proof (cases "gm_get (rp_states r) (key [ds_TenantID s, ds_DeviceID s])")
    case None
    then show ?thesis using v by (simp add: UpsertDeviceStateIf_def stored_state_def)
  next
    case (Some c)
    then show ?thesis using v states_ok_stored [OF ok Some] by (simp add: UpsertDeviceStateIf_def stored_state_def)
  qed
  moreover have "processed (r\<lparr>rp_states := x\<rparr>) k = processed r k" "claim_of (r\<lparr>rp_states := x\<rparr>) k = claim_of r k" for x k
    by (simp_all add: processed_def claim_of_def)
  ultimately show ?thesis using stored current fresh
    by (auto simp: CompleteStandardMessage_def MarkStandardMessageProcessed_def Let_def)
qed

text \<open>The holder of the current claim stores the state of the device, in agreement with its open alarms, and the completion.\<close>

lemma completeStandard_quiet:
  assumes q: "quiet w" and ok: "states_ok (en_repo w)" and stored: "gm_get (rp_standard (en_repo w)) (key [sm_TenantID m, sm_MessageID m]) \<noteq> None"
    and current: "mc_token (claim_of (en_repo w) (key [sm_TenantID m, sm_MessageID m])) = tok"
    and fresh: "\<not> processed (en_repo w) (key [sm_TenantID m, sm_MessageID m])"
  obtains w' s' where "completeStandard m tok w = (Inr (), w')" "quiet w'" "rp_alarms (en_repo w') = rp_alarms (en_repo w)"
    "processed (en_repo w') (key [sm_TenantID m, sm_MessageID m])"
    "stored_state (en_repo w') (sm_TenantID m) (sm_DeviceID m) = Some s'" "ds_BusinessStatus s' = ''ALARM'' \<longleftrightarrow> HasOpenAlarm (sm_TenantID m) (sm_DeviceID m) (en_repo w)"
    "sm_Timestamp m \<le> ds_LastSeenAt s'"
proof -
  let ?t = "sm_TenantID m" and ?d = "sm_DeviceID m" and ?k = "key [sm_TenantID m, sm_MessageID m]"
  let ?open = "HasOpenAlarm ?t ?d (en_repo w)"
  let ?found = "stored_state (en_repo w) ?t ?d \<noteq> None"
  define cur where "cur = (case stored_state (en_repo w) ?t ?d of None \<Rightarrow> zero_DeviceState | Some s \<Rightarrow> s)"
  define raw where "raw = (\<lambda>st. snd (nextMessageState st ?found m True ?open))"
  define nxt where "nxt = (\<lambda>st. (raw st)\<lparr>ds_TenantID := ?t, ds_DeviceID := ?d, ds_Version := ds_Version cur\<rparr>)"
  define fin where "fin = (\<lambda>st (w1 :: engine). w1\<lparr>en_repo := (en_repo w)\<lparr>rp_states := gm_put (key [?t, ?d]) ((nxt st)\<lparr>ds_Version := ds_Version cur + 1\<rparr>) (rp_states (en_repo w)),
      rp_standardProcessed := gm_put ?k True (rp_standardProcessed (en_repo w))\<rparr>\<rparr>)"
  have v0: "ds_Version zero_DeviceState = 0" by (simp add: zero_DeviceState_def)
  have c: "CompleteStandardMessage (Some (nxt st)) ?t (sm_MessageID m) tok (en_repo w) = ((True, None), en_repo (fin st w1))" for st w1
  proof -
    have "ds_Version (nxt st) = (case stored_state (en_repo w) ?t ?d of None \<Rightarrow> 0 | Some c \<Rightarrow> ds_Version c)"
      by (simp add: nxt_def cur_def v0 split: option.splits)
    then show ?thesis
      using CompleteStandardMessage_ok [OF ok stored current fresh, of "nxt st"] by (simp add: fin_def) (simp add: nxt_def)
  qed
  have nm: "nextMessageState st ?found m True ?open = (True, raw st)" for st
    unfolding raw_def by (rule nextMessageState_completes)
  note loop = completeStandard_def casAttempts_def eval_nat_numeral ebind_eq quiet_def quiet_calls LoadDeviceStateWithAlarms_def
    GetDeviceStateFresh_def GetDeviceState_def eret_def
  have "\<exists>st w1. quiet w1 \<and> completeStandard m tok w =
      ethen (publishStateChange cur ((nxt st)\<lparr>ds_Version := ds_Version cur + 1\<rparr>)) (eret ()) (fin st w1)"
  proof (cases "stored_state (en_repo w) ?t ?d")
    case None
    obtain i tol w1 where w1: "deviceTiming ?t (sm_ProductID m) ?d w = (Inr (i, tol), w1)" "quiet w1" "en_repo w1 = en_repo w"
      using deviceTiming_quiet [OF q] by metis
    let ?st = "zero_DeviceState\<lparr>ds_ReportIntervalSec := i, ds_OfflineToleranceSec := tol\<rparr>"
    have "completeStandard m tok w = ethen (publishStateChange cur ((nxt ?st)\<lparr>ds_Version := ds_Version cur + 1\<rparr>)) (eret ()) (fin ?st w1)"
      using q w1 None c [of ?st w1] nm [of ?st]
      by (simp add: loop cur_def nxt_def) (simp add: fin_def nxt_def cur_def Let_def ebind_eq quiet_calls eret_def)
    with w1 show ?thesis by blast
  next
    case (Some s)
    have "completeStandard m tok w = ethen (publishStateChange cur ((nxt s)\<lparr>ds_Version := ds_Version cur + 1\<rparr>)) (eret ()) (fin s w)"
      using q Some c [of s w] nm [of s]
      by (simp add: loop cur_def nxt_def) (simp add: fin_def nxt_def cur_def Let_def ebind_eq quiet_calls eret_def)
    with q show ?thesis by blast
  qed
  then obtain st w1 where w1: "quiet w1" "completeStandard m tok w = ethen (publishStateChange cur ((nxt st)\<lparr>ds_Version := ds_Version cur + 1\<rparr>)) (eret ()) (fin st w1)"
    by blast
  have "quiet (fin st w1)" using w1(1) by (simp add: fin_def quiet_def)
  note p = publishStateChange_quiet [OF this, of cur "(nxt st)\<lparr>ds_Version := ds_Version cur + 1\<rparr>"]
  define w' where "w' = snd (publishStateChange cur ((nxt st)\<lparr>ds_Version := ds_Version cur + 1\<rparr>) (fin st w1))"
  have same: "same_core (fin st w1) w'" using p(2) by (simp add: w'_def)
  show thesis
  proof (rule that [of w' "(nxt st)\<lparr>ds_Version := ds_Version cur + 1\<rparr>"])
    show "completeStandard m tok w = (Inr (), w')" using w1(2) p(1) by (simp add: ethen_eq eret_def w'_def)
    show "ds_BusinessStatus ((nxt st)\<lparr>ds_Version := ds_Version cur + 1\<rparr>) = ''ALARM'' \<longleftrightarrow> ?open" "sm_Timestamp m \<le> ds_LastSeenAt ((nxt st)\<lparr>ds_Version := ds_Version cur + 1\<rparr>)"
      using nextMessageState_completes(2,3) by (simp_all add: nxt_def raw_def)
  qed (use same w1(1) in \<open>simp_all add: same_core_def quiet_def processed_def stored_state_def fin_def\<close>)
qed

subsection \<open>Closing the alarms of a rule\<close>

definition alarms_keyed :: "repo \<Rightarrow> bool" where
  "alarms_keyed r \<longleftrightarrow> gm_ok (rp_alarms r) \<and> (\<forall>(k, a) \<in> set (rp_alarms r). k = alarm_key a)"

definition recovered :: "int \<Rightarrow> Alarm \<Rightarrow> Alarm" where
  "recovered now a = a\<lparr>al_Status := ''RECOVERED'', al_RecoveredAt := now, al_Version := al_Version a + 1\<rparr>"

lemma recovered_fields [simp]:
  "al_Status (recovered now a) = ''RECOVERED''" "al_TenantID (recovered now a) = al_TenantID a" "al_ID (recovered now a) = al_ID a"
  "alarm_key (recovered now a) = alarm_key a" "al_DeviceID (recovered now a) = al_DeviceID a"
  by (simp_all add: recovered_def alarm_key_def)

lemma alarms_keyed_get: "alarms_keyed r \<Longrightarrow> gm_get (rp_alarms r) k = Some a \<Longrightarrow> k = alarm_key a"
  by (auto simp: alarms_keyed_def dest: gm_get_mem)

lemma recover_listed_quiet:
  assumes q: "quiet w" and ok: "alarms_keyed (en_repo w)" and a: "gm_get (rp_alarms (en_repo w)) (alarm_key a) = Some a" "alarm_open a"
  obtains w' where "recover_listed a w = (Inr (recovered (en_clock w) a, True), w')" "quiet w'" "en_clock w' = en_clock w"
    "rp_states (en_repo w') = rp_states (en_repo w)"
    "rp_alarms (en_repo w') = gm_put (alarm_key a) (recovered (en_clock w) a) (rp_alarms (en_repo w))"
proof -
  let ?w1 = "w\<lparr>en_repo := (en_repo w)\<lparr>rp_alarms := gm_put (alarm_key a) (recovered (en_clock w) a) (rp_alarms (en_repo w))\<rparr>\<rparr>"
  have ro: "recover_open a w = (Inr (True, a\<lparr>al_Status := ''RECOVERED'', al_RecoveredAt := en_clock w\<rparr>), w)"
    using a(2) by (auto simp: recover_open_def ebind_eq enow_def eret_def alarm_open_def)
  have m: "mutateAlarm (al_TenantID a) (al_ID a) recover_open w = (Inr (recovered (en_clock w) a, True), ?w1)"
    using q a(1) ro unfolding mutateAlarm_def casAttempts_def
    by (simp add: eval_nat_numeral ebind_eq quiet_def quiet_calls GetAlarm_def stored_alarm_def alarm_key_def UpdateAlarmIf_def put_alarm_def
        eret_def recovered_def Let_def)
  have "quiet ?w1" using q by (simp add: quiet_def)
  note pub = publishEvent_core [where t = TopicAlarmRecovered and k = "al_ID a" and rt = "Alarm_MQTTTopic (recovered (en_clock w) a) ''recovered''"
      and p = "PAlarm (recovered (en_clock w) a)" and w = ?w1]
  define w' where "w' = snd (publishEvent TopicAlarmRecovered (al_ID a) (Alarm_MQTTTopic (recovered (en_clock w) a) ''recovered'') (PAlarm (recovered (en_clock w) a)) ?w1)"
  have same: "same_core ?w1 w'" using pub(2) by (simp add: w'_def)
  show thesis
  proof (rule that [of w'])
    show "recover_listed a w = (Inr (recovered (en_clock w) a, True), w')"
      using m pub(1) by (simp add: recover_listed_def ebind_eq ethen_eq eret_def w'_def)
  qed (use same q in \<open>simp_all add: same_core_def quiet_def\<close>)
qed

text \<open>One page: the alarms of the rule on it are recovered, the others stay as they are.\<close>

definition closed_on :: "Alarm set \<Rightarrow> engine \<Rightarrow> engine \<Rightarrow> bool" where
  "closed_on X w w' \<longleftrightarrow> quiet w' \<and> en_clock w' = en_clock w \<and> alarms_keyed (en_repo w') \<and>
     length (rp_alarms (en_repo w')) = length (rp_alarms (en_repo w)) \<and> rp_states (en_repo w') = rp_states (en_repo w) \<and>
     (X = {} \<longrightarrow> rp_alarms (en_repo w') = rp_alarms (en_repo w)) \<and>
     (\<forall>k. gm_get (rp_alarms (en_repo w')) k = (if k \<in> alarm_key ` X
       then map_option (recovered (en_clock w)) (gm_get (rp_alarms (en_repo w)) k) else gm_get (rp_alarms (en_repo w)) k))"

lemma closed_on_get:
  "closed_on X w w' \<Longrightarrow> gm_get (rp_alarms (en_repo w')) k = (if k \<in> alarm_key ` X
     then map_option (recovered (en_clock w)) (gm_get (rp_alarms (en_repo w)) k) else gm_get (rp_alarms (en_repo w)) k)"
  by (simp add: closed_on_def)

lemma closed_on_one:
  assumes q: "quiet w" and ok: "alarms_keyed (en_repo w)" and a: "gm_get (rp_alarms (en_repo w)) (alarm_key a) = Some a" "alarm_open a"
  obtains w' where "recover_listed a w = (Inr (recovered (en_clock w) a, True), w')" "closed_on {a} w w'"
proof -
  obtain w1 where w1: "recover_listed a w = (Inr (recovered (en_clock w) a, True), w1)" "quiet w1" "en_clock w1 = en_clock w"
    "rp_states (en_repo w1) = rp_states (en_repo w)"
    "rp_alarms (en_repo w1) = gm_put (alarm_key a) (recovered (en_clock w) a) (rp_alarms (en_repo w))"
    using recover_listed_quiet [OF assms] by metis
  have "alarms_keyed (en_repo w1)"
    using ok by (auto simp: alarms_keyed_def w1(5) gm_put_mem split: if_splits)
  with w1 ok a(1) have "closed_on {a} w w1" by (simp add: closed_on_def gm_length_put alarms_keyed_def)
  with w1(1) show thesis by (rule that)
qed

lemma closed_on_insert:
  assumes "closed_on {a} w w1" "closed_on X w1 w2" "alarm_key a \<notin> alarm_key ` X"
  shows "closed_on (insert a X) w w2"
  using assms unfolding closed_on_def by (auto simp: image_iff)

definition close_one :: "string \<Rightarrow> Alarm \<Rightarrow> string list \<times> bool \<Rightarrow> (string list \<times> bool) eng" where
  "close_one rid = (\<lambda>listed (affected, changed).
       if \<not> of_rule rid listed then eret (affected, changed)
       else ebind (recover_listed listed) (\<lambda>(alarm, written).
         eret (if written then (List.insert (al_DeviceID alarm) affected, True) else (affected, changed))))"

lemma close_page_alt: "close_page rid xs affected = efold xs (affected, False) (close_one rid)"
  by (simp add: close_page_def close_one_def)

lemma close_list_quiet:
  assumes "quiet w" "alarms_keyed (en_repo w)" "distinct (map alarm_key xs)"
    "\<forall>a \<in> set xs. gm_get (rp_alarms (en_repo w)) (alarm_key a) = Some a \<and> alarm_open a"
  shows "\<exists>ds w'. efold xs (affected, ch) (close_one rid) w = (Inr (ds, ch \<or> (\<exists>a \<in> set xs. of_rule rid a)), w') \<and>
    closed_on {a \<in> set xs. of_rule rid a} w w'"
  using assms
proof (induction xs arbitrary: affected ch w)
  case Nil
  then show ?case by (simp add: eret_def closed_on_def)
next
  case (Cons a xs)
  show ?case
  proof (cases "of_rule rid a")
    case False
    then have "{x \<in> set (a # xs). of_rule rid x} = {x \<in> set xs. of_rule rid x}" by auto
    moreover have "efold (a # xs) (affected, ch) (close_one rid) w = efold xs (affected, ch) (close_one rid) w"
      using False by (simp add: ebind_eq eret_def close_one_def)
    moreover have "(\<exists>x \<in> set (a # xs). of_rule rid x) = (\<exists>x \<in> set xs. of_rule rid x)" using False by simp
    ultimately show ?thesis using Cons.IH [OF Cons.prems(1,2), of affected ch] Cons.prems(3,4) by (simp only:) simp
  next
    case True
    obtain w1 where w1: "recover_listed a w = (Inr (recovered (en_clock w) a, True), w1)" "closed_on {a} w w1"
      using closed_on_one [OF Cons.prems(1,2), of a] Cons.prems(4) by auto
    have new: "alarm_key a \<notin> alarm_key ` set xs" using Cons.prems(3) by simp
    have "\<forall>x \<in> set xs. gm_get (rp_alarms (en_repo w1)) (alarm_key x) = Some x \<and> alarm_open x"
    proof
      fix x assume x: "x \<in> set xs"
      then have "alarm_key x \<noteq> alarm_key a" using new by (metis image_eqI)
      then show "gm_get (rp_alarms (en_repo w1)) (alarm_key x) = Some x \<and> alarm_open x"
        using closed_on_get [OF w1(2), of "alarm_key x"] Cons.prems(4) x by simp
    qed
    then obtain ds w' where w': "efold xs (List.insert (al_DeviceID a) affected, True) (close_one rid) w1 = (Inr (ds, True), w')"
      "closed_on {x \<in> set xs. of_rule rid x} w1 w'"
      using Cons.IH [of w1 "List.insert (al_DeviceID a) affected" True] Cons.prems(3) w1(2) by (auto simp: closed_on_def)
    have "{x \<in> set (a # xs). of_rule rid x} = insert a {x \<in> set xs. of_rule rid x}" using True by auto
    moreover have "closed_on (insert a {x \<in> set xs. of_rule rid x}) w w'"
      using closed_on_insert [OF w1(2) w'(2)] new by (auto simp: image_iff)
    moreover have "efold (a # xs) (affected, ch) (close_one rid) w = (Inr (ds, True), w')"
      using w1(1) w'(1) True by (simp add: ebind_eq eret_def close_one_def)
    ultimately show ?thesis using True by auto
  qed
qed

text \<open>The alarms of one status in the order of the listing, and what closing a rule does to an alarm.\<close>

definition status_list :: "string \<Rightarrow> string \<Rightarrow> repo \<Rightarrow> Alarm list" where
  "status_list t st r = sort_key (\<lambda>v. - al_LastTriggeredAt v) (filter (\<lambda>v. al_TenantID v = t \<and> al_Status v = st) (gm_vals (rp_alarms r)))"

definition closing :: "string \<Rightarrow> string \<Rightarrow> string set \<Rightarrow> int \<Rightarrow> Alarm \<Rightarrow> Alarm" where
  "closing t rid sts now a = (if al_TenantID a = t \<and> al_Status a \<in> sts \<and> of_rule rid a then recovered now a else a)"

definition closed_rule :: "string \<Rightarrow> string \<Rightarrow> string set \<Rightarrow> engine \<Rightarrow> engine \<Rightarrow> bool" where
  "closed_rule t rid sts w w' \<longleftrightarrow> quiet w' \<and> en_clock w' = en_clock w \<and> alarms_keyed (en_repo w') \<and>
     length (rp_alarms (en_repo w')) = length (rp_alarms (en_repo w)) \<and> rp_states (en_repo w') = rp_states (en_repo w) \<and>
     (\<forall>k. gm_get (rp_alarms (en_repo w')) k = map_option (closing t rid sts (en_clock w)) (gm_get (rp_alarms (en_repo w)) k))"

lemma ListAlarms_close:
  assumes "t \<noteq> []" "st \<noteq> []"
  shows "ListAlarms (close_filter t st (int i)) r = take 1000 (drop i (status_list t st r))"
proof -
  have "matchesAlarmFilter v (close_filter t st (int i)) \<longleftrightarrow> al_TenantID v = t \<and> al_Status v = st" for v
    using assms by (simp add: matchesAlarmFilter_def close_filter_def zero_AlarmFilter_def)
  then show ?thesis
    by (auto simp: ListAlarms_def close_filter_def zero_AlarmFilter_def page_def slice_def closeBatch_def Let_def status_list_def nat_add_distrib)
qed

lemma status_list_props:
  assumes ok: "alarms_keyed r"
  shows "distinct (map alarm_key (status_list t st r))"
    "a \<in> set (status_list t st r) \<longleftrightarrow> gm_get (rp_alarms r) (alarm_key a) = Some a \<and> al_TenantID a = t \<and> al_Status a = st"
    "length (status_list t st r) \<le> length (rp_alarms r)"
proof -
  note vals = keyed_vals [of "rp_alarms r" alarm_key]
  have ok': "gm_ok (rp_alarms r)" "\<forall>(k, a) \<in> set (rp_alarms r). k = alarm_key a" using ok by (auto simp: alarms_keyed_def)
  have "distinct (map alarm_key (filter (\<lambda>v. al_TenantID v = t \<and> al_Status v = st) (gm_vals (rp_alarms r))))"
    using vals(1) [OF ok'] by (rule distinct_map_filter)
  then show "distinct (map alarm_key (status_list t st r))" by (simp add: status_list_def distinct_map)
  show "a \<in> set (status_list t st r) \<longleftrightarrow> gm_get (rp_alarms r) (alarm_key a) = Some a \<and> al_TenantID a = t \<and> al_Status a = st"
    using vals(2) [OF ok', of a] by (auto simp: status_list_def)
  show "length (status_list t st r) \<le> length (rp_alarms r)" by (simp add: status_list_def gm_vals_def le_trans [OF length_filter_le])
qed

definition rule_alarms :: "string \<Rightarrow> string \<Rightarrow> string \<Rightarrow> repo \<Rightarrow> Alarm set" where
  "rule_alarms t rid st r = {a \<in> set (status_list t st r). of_rule rid a}"

lemma no_rule_alarms:
  assumes "alarms_keyed r" "rule_alarms t rid st r = {}"
  shows "map_option (closing t rid {st} now) (gm_get (rp_alarms r) k) = gm_get (rp_alarms r) k"
proof (cases "gm_get (rp_alarms r) k")
  case (Some a)
  with alarms_keyed_get [OF assms(1) Some] assms status_list_props(2) [OF assms(1), of a t st] show ?thesis
    by (auto simp: rule_alarms_def closing_def)
qed simp

text \<open>What is left after a page that closed some alarms.\<close>

lemma closed_page_rest:
  assumes ok: "alarms_keyed (en_repo w)" and X: "X \<subseteq> rule_alarms t rid st (en_repo w)" and c: "closed_on X w w1" and st: "st \<noteq> ''RECOVERED''"
  shows "rule_alarms t rid st (en_repo w1) = rule_alarms t rid st (en_repo w) - X"
    "map_option (closing t rid {st} now) (gm_get (rp_alarms (en_repo w1)) k) =
     (if k \<in> alarm_key ` X then map_option (recovered (en_clock w)) (gm_get (rp_alarms (en_repo w)) k)
      else map_option (closing t rid {st} now) (gm_get (rp_alarms (en_repo w)) k))"
proof -
  have ok1: "alarms_keyed (en_repo w1)" using c by (simp add: closed_on_def)
  have in_w: "gm_get (rp_alarms (en_repo w)) (alarm_key x) = Some x" if "x \<in> X" for x
    using X that status_list_props(2) [OF ok] by (auto simp: rule_alarms_def)
  have "a \<in> rule_alarms t rid st (en_repo w1) \<longleftrightarrow> a \<in> rule_alarms t rid st (en_repo w) - X" for a
  proof -
    have "gm_get (rp_alarms (en_repo w1)) (alarm_key a) = Some a \<and> al_Status a = st \<longleftrightarrow>
      gm_get (rp_alarms (en_repo w)) (alarm_key a) = Some a \<and> al_Status a = st \<and> a \<notin> X"
    proof (cases "alarm_key a \<in> alarm_key ` X")
      case True
      then obtain x where x: "x \<in> X" "alarm_key a = alarm_key x" by blast
      then have "gm_get (rp_alarms (en_repo w1)) (alarm_key a) = Some (recovered (en_clock w) x)" "gm_get (rp_alarms (en_repo w)) (alarm_key a) = Some x"
        using closed_on_get [OF c, of "alarm_key a"] in_w [OF x(1)] by simp_all
      with x(1) st show ?thesis by auto
    next
      case False
      then show ?thesis using closed_on_get [OF c, of "alarm_key a"] by auto
    qed
    then show ?thesis using status_list_props(2) [OF ok, of a t st] status_list_props(2) [OF ok1, of a t st]
      by (auto simp: rule_alarms_def)
  qed
  then show "rule_alarms t rid st (en_repo w1) = rule_alarms t rid st (en_repo w) - X" by blast
  have fix_rec: "map_option (closing t rid {st} now) (map_option (recovered i) x) = map_option (recovered i) x" for x i
    using st by (cases x) (simp_all add: closing_def)
  show "map_option (closing t rid {st} now) (gm_get (rp_alarms (en_repo w1)) k) =
     (if k \<in> alarm_key ` X then map_option (recovered (en_clock w)) (gm_get (rp_alarms (en_repo w)) k)
      else map_option (closing t rid {st} now) (gm_get (rp_alarms (en_repo w)) k))"
    using closed_on_get [OF c, of k] fix_rec by simp
qed

lemma finite_rule_alarms [simp]: "finite (rule_alarms t rid st r)"
  by (simp add: rule_alarms_def)

lemma closed_rule_refl:
  assumes "quiet w" "alarms_keyed (en_repo w)" "rule_alarms t rid st (en_repo w) = {}"
  shows "closed_rule t rid {st} w w"
  using assms no_rule_alarms [OF assms(2,3)] by (simp add: closed_rule_def)

lemma closed_rule_page:
  assumes ok: "alarms_keyed (en_repo w)" and X: "X \<subseteq> rule_alarms t rid st (en_repo w)" and c: "closed_on X w w1" and st: "st \<noteq> ''RECOVERED''"
    and r: "closed_rule t rid {st} w1 w'"
  shows "closed_rule t rid {st} w w'"
proof -
  have "gm_get (rp_alarms (en_repo w')) k = map_option (closing t rid {st} (en_clock w)) (gm_get (rp_alarms (en_repo w)) k)" for k
  proof -
    have "gm_get (rp_alarms (en_repo w')) k = map_option (closing t rid {st} (en_clock w)) (gm_get (rp_alarms (en_repo w1)) k)"
      using r c by (simp add: closed_rule_def closed_on_def)
    also have "\<dots> = map_option (closing t rid {st} (en_clock w)) (gm_get (rp_alarms (en_repo w)) k)"
    proof (cases "k \<in> alarm_key ` X")
      case True
      then obtain x where x: "x \<in> X" "k = alarm_key x" by blast
      then have "gm_get (rp_alarms (en_repo w)) k = Some x" "al_TenantID x = t" "al_Status x = st" "of_rule rid x"
        using X status_list_props(2) [OF ok, of x t st] by (auto simp: rule_alarms_def)
      with True closed_page_rest(2) [OF ok X c st, of "en_clock w" k] show ?thesis by (simp add: closing_def)
    next
      case False
      with closed_page_rest(2) [OF ok X c st, of "en_clock w" k] show ?thesis by simp
    qed
    finally show ?thesis .
  qed
  then show ?thesis using r c by (simp add: closed_rule_def closed_on_def)
qed

text \<open>
  The page loop ends and leaves no alarm of the rule in that status: a page that changed something removes an alarm of the
  rule from the listing, any other page moves the offset.
\<close>

lemma close_pages_quiet:
  assumes "t \<noteq> []" "st = ''ACTIVE'' \<or> st = ''ACKED''" "quiet w" "alarms_keyed (en_repo w)"
    "\<forall>a \<in> set (take i (status_list t st (en_repo w))). \<not> of_rule rid a"
    "card (rule_alarms t rid st (en_repo w)) * (length (rp_alarms (en_repo w)) + 1) + (length (rp_alarms (en_repo w)) - i) < n"
  shows "\<exists>ds w'. close_pages n t rid st (int i) affected w = (Inr ds, w') \<and> closed_rule t rid {st} w w'"
  using assms
proof (induction n arbitrary: w i affected)
  case 0
  then show ?case by simp
next
  case (Suc n)
  let ?L = "status_list t st (en_repo w)" and ?N = "length (rp_alarms (en_repo w))"
  define xs where "xs = take 1000 (drop i ?L)"
  define X where "X = {a \<in> set xs. of_rule rid a}"
  have ne: "st \<noteq> []" "st \<noteq> ''RECOVERED''" using Suc.prems(2) by auto
  have L: "repo_val (ListAlarms (close_filter t st (int i))) w = (Inr xs, w)"
    using Suc.prems(1,3) ne by (simp add: quiet_def quiet_calls ListAlarms_close xs_def)
  show ?case
  proof (cases "xs = []")
    case True
    then have "take i ?L = ?L" by (simp add: xs_def)
    with Suc.prems(5) have "rule_alarms t rid st (en_repo w) = {}" by (auto simp: rule_alarms_def)
    with Suc.prems(3,4) have "closed_rule t rid {st} w w" by (rule closed_rule_refl)
    with True L show ?thesis by (simp add: ebind_eq eret_def)
  next
    case False
    have sub: "set xs \<subseteq> set ?L" unfolding xs_def by (meson in_set_dropD in_set_takeD subsetI)
    have di: "distinct (map alarm_key xs)"
      using status_list_props(1) [OF Suc.prems(4), of t st] by (simp add: xs_def take_map [symmetric] drop_map [symmetric])
    have mem: "\<forall>a \<in> set xs. gm_get (rp_alarms (en_repo w)) (alarm_key a) = Some a \<and> alarm_open a"
      using sub status_list_props(2) [OF Suc.prems(4), of _ t st] Suc.prems(2) by (auto simp: alarm_open_def)
    obtain ds w1 where p: "close_page rid xs affected w = (Inr (ds, X \<noteq> {}), w1)" "closed_on X w w1"
    proof -
      have "(False \<or> (\<exists>a \<in> set xs. of_rule rid a)) = (X \<noteq> {})" by (auto simp: X_def)
      then have "\<exists>ds w'. close_page rid xs affected w = (Inr (ds, X \<noteq> {}), w') \<and> closed_on X w w'"
        using close_list_quiet [OF Suc.prems(3,4) di mem, of affected False rid] by (simp only: close_page_alt X_def [symmetric])
      then show thesis using that by blast
    qed
    have XR: "X \<subseteq> rule_alarms t rid st (en_repo w)" using sub by (auto simp: X_def rule_alarms_def)
    note rest = closed_page_rest [OF Suc.prems(4) XR p(2) ne(2)]
    have q1: "quiet w1" "alarms_keyed (en_repo w1)" "length (rp_alarms (en_repo w1)) = ?N" using p(2) by (simp_all add: closed_on_def)
    define j where "j = (if X \<noteq> {} then 0 else i + length xs)"
    have step: "close_pages (Suc n) t rid st (int i) affected w = close_pages n t rid st (int j) ds w1"
      using L False p(1) by (simp add: ebind_eq j_def)
    have "\<exists>ds' w'. close_pages n t rid st (int j) ds w1 = (Inr ds', w') \<and> closed_rule t rid {st} w1 w'"
    proof (rule Suc.IH [OF Suc.prems(1,2) q1(1,2)])
      show "\<forall>a \<in> set (take j (status_list t st (en_repo w1))). \<not> of_rule rid a"
      proof (cases "X = {}")
        case True
        then have "rp_alarms (en_repo w1) = rp_alarms (en_repo w)" using p(2) by (simp add: closed_on_def)
        then have "take j (status_list t st (en_repo w1)) = take i ?L @ take (length xs) (drop i ?L)"
          using True by (simp add: j_def status_list_def take_add)
        moreover have "take (length xs) (drop i ?L) = xs" by (cases "length ?L - i < 1000") (simp_all add: xs_def)
        ultimately show ?thesis using Suc.prems(5) True by (auto simp: X_def)
      qed (simp add: j_def)
      show "card (rule_alarms t rid st (en_repo w1)) * (length (rp_alarms (en_repo w1)) + 1) + (length (rp_alarms (en_repo w1)) - j) < n"
      proof (cases "X = {}")
        case True
        have "i < length ?L" "0 < length xs" using False by (auto simp: xs_def)
        then have "?N - (i + length xs) < ?N - i" using status_list_props(3) [OF Suc.prems(4), of t st] by linarith
        with True rest(1) Suc.prems(6) q1(3) show ?thesis by (simp only: j_def) simp
      next
        case ne: False
        have "card (rule_alarms t rid st (en_repo w1)) < card (rule_alarms t rid st (en_repo w))"
          using rest(1) XR ne by (auto intro!: psubset_card_mono)
        then have "(card (rule_alarms t rid st (en_repo w1)) + 1) * (?N + 1) \<le> card (rule_alarms t rid st (en_repo w)) * (?N + 1)"
          by (intro mult_le_mono1) simp
        with ne Suc.prems(6) q1(3) show ?thesis by (simp add: j_def)
      qed
    qed
    then show ?thesis using step closed_rule_page [OF Suc.prems(4) XR p(2) ne(2)] by metis
  qed
qed

lemma sync_any:
  assumes q: "quiet w" and ok: "states_ok (en_repo w)"
  obtains w' where "syncDeviceBusinessStatus t p d w = (Inr (), w')" "quiet w'" "states_ok (en_repo w')" "rp_alarms (en_repo w') = rp_alarms (en_repo w)"
proof (cases "stored_state (en_repo w) t d")
  case None
  let ?fn = "\<lambda>state found. if \<not> found then eret (False, state)
       else ebind (repo_val (HasOpenAlarm t d)) (\<lambda>isopen. eret (True, business_state p isopen state))"
  have "mutateDeviceState t d ?fn w = (Inr (zero_DeviceState, zero_DeviceState, False), w)"
    using mutateDeviceState_quiet_skip [where fn = ?fn and w = w and t = t and d = d and v = w and nxt = zero_DeviceState] None q by (simp add: eret_def)
  then have "syncDeviceBusinessStatus t p d w = (Inr (), w)" by (simp add: syncDeviceBusinessStatus_def finish_state_def ebind_eq eret_def)
  with that q ok show thesis by blast
next
  case (Some s)
  from sync_quiet [OF q ok Some] that show thesis by metis
qed

lemma sync_list_quiet:
  assumes "quiet w" "states_ok (en_repo w)"
  shows "\<exists>w'. efor ds (\<lambda>d. syncDeviceBusinessStatus t p d) w = (Inr (), w') \<and> quiet w' \<and> rp_alarms (en_repo w') = rp_alarms (en_repo w)"
  using assms
proof (induction ds arbitrary: w)
  case (Cons d ds)
  obtain w1 where w1: "syncDeviceBusinessStatus t p d w = (Inr (), w1)" "quiet w1" "states_ok (en_repo w1)" "rp_alarms (en_repo w1) = rp_alarms (en_repo w)"
    using sync_any [OF Cons.prems] by metis
  from Cons.IH [OF w1(2,3)] w1(1,4) show ?case by (auto simp: ethen_eq)
qed (simp add: eret_def)

lemma closed_rule_both:
  assumes a: "closed_rule t rid {''ACTIVE''} w w1" and b: "closed_rule t rid {''ACKED''} w1 w2"
  shows "closed_rule t rid {''ACTIVE'', ''ACKED''} w w2"
proof -
  have "closing t rid {''ACKED''} now (closing t rid {''ACTIVE''} now x) = closing t rid {''ACTIVE'', ''ACKED''} now x" for now x
    by (auto simp: closing_def)
  then have "map_option (closing t rid {''ACKED''} now) (map_option (closing t rid {''ACTIVE''} now) y) = map_option (closing t rid {''ACTIVE'', ''ACKED''} now) y" for now y
    by (cases y) simp_all
  then show ?thesis using a b by (simp add: closed_rule_def)
qed

lemma card_rule_alarms: "alarms_keyed r \<Longrightarrow> card (rule_alarms t rid st r) \<le> length (rp_alarms r)"
proof -
  assume "alarms_keyed r"
  from status_list_props(3) [OF this] have "card (set (status_list t st r)) \<le> length (rp_alarms r)" using card_length le_trans by blast
  moreover have "card (rule_alarms t rid st r) \<le> card (set (status_list t st r))" by (rule card_mono) (auto simp: rule_alarms_def)
  ultimately show ?thesis by simp
qed

lemma close_status_quiet:
  assumes "t \<noteq> []" "st = ''ACTIVE'' \<or> st = ''ACKED''" "quiet w" "alarms_keyed (en_repo w)" "(length (rp_alarms (en_repo w)) + 1)\<^sup>2 < n"
  shows "\<exists>ds w'. close_pages n t rid st 0 affected w = (Inr ds, w') \<and> closed_rule t rid {st} w w'"
proof -
  let ?N = "length (rp_alarms (en_repo w))"
  have "card (rule_alarms t rid st (en_repo w)) * (?N + 1) \<le> ?N * (?N + 1)" by (rule mult_le_mono1 [OF card_rule_alarms [OF assms(4)]])
  with assms(5) have "card (rule_alarms t rid st (en_repo w)) * (?N + 1) + (?N - 0) < n" by (simp add: power2_eq_square)
  then show ?thesis using close_pages_quiet [OF assms(1-4), of 0 rid n affected] by simp
qed

lemma closeRuleAlarms_quiet:
  assumes t: "t \<noteq> []" and q: "quiet w" and ok: "alarms_keyed (en_repo w)" "states_ok (en_repo w)" and n: "(length (rp_alarms (en_repo w)) + 1)\<^sup>2 < n"
  shows "\<exists>w'. closeRuleAlarms n t rid w = (Inr (), w') \<and> quiet w' \<and>
    (\<forall>k. gm_get (rp_alarms (en_repo w')) k = map_option (closing t rid {''ACTIVE'', ''ACKED''} (en_clock w)) (gm_get (rp_alarms (en_repo w)) k))"
proof -
  obtain d1 w1 where w1: "close_pages n t rid ''ACTIVE'' 0 [] w = (Inr d1, w1)" "closed_rule t rid {''ACTIVE''} w w1"
    using close_status_quiet [OF t _ q ok(1) n, of "''ACTIVE''" rid "[]"] by auto
  then have q1: "quiet w1" "alarms_keyed (en_repo w1)" "(length (rp_alarms (en_repo w1)) + 1)\<^sup>2 < n" using n by (simp_all add: closed_rule_def)
  obtain d2 w2 where w2: "close_pages n t rid ''ACKED'' 0 d1 w1 = (Inr d2, w2)" "closed_rule t rid {''ACKED''} w1 w2"
    using close_status_quiet [OF t _ q1, of "''ACKED''" rid d1] by auto
  note c = closed_rule_both [OF w1(2) w2(2)]
  then have "quiet w2" "states_ok (en_repo w2)" using ok(2) by (simp_all add: closed_rule_def states_ok_def)
  from sync_list_quiet [OF this, of d2 t "[]"] c w1(1) w2(1) show ?thesis
    by (auto simp: closeRuleAlarms_def ebind_eq closed_rule_def)
qed

text \<open>Disabling a rule: none of its alarms stays open, every other alarm is untouched, and the cached rules are dropped.\<close>

lemma DisableRule_quiet:
  assumes t: "t \<noteq> []" and q: "quiet w" and ok: "alarms_keyed (en_repo w)" "states_ok (en_repo w)" and n: "(length (rp_alarms (en_repo w)) + 1)\<^sup>2 < n"
  shows "\<exists>w'. DisableRule n t rid w = (Inr (), w') \<and> gm_get (en_ruleCache w') t = None \<and>
    (\<forall>k. gm_get (rp_alarms (en_repo w')) k = map_option (closing t rid {''ACTIVE'', ''ACKED''} (en_clock w)) (gm_get (rp_alarms (en_repo w)) k))"
proof -
  let ?w0 = "w\<lparr>en_repo := DeleteRulePendings t rid (en_repo w)\<rparr>"
  have r: "rp_alarms (en_repo ?w0) = rp_alarms (en_repo w)" "rp_states (en_repo ?w0) = rp_states (en_repo w)"
    by (simp_all add: DeleteRulePendings_def drop_pendings_def)
  obtain w' where w': "closeRuleAlarms n t rid ?w0 = (Inr (), w')"
    "\<forall>k. gm_get (rp_alarms (en_repo w')) k = map_option (closing t rid {''ACTIVE'', ''ACKED''} (en_clock w)) (gm_get (rp_alarms (en_repo w)) k)"
    using closeRuleAlarms_quiet [OF t, of ?w0 n rid] q ok n r by (auto simp: quiet_def alarms_keyed_def states_ok_def)
  have "DisableRule n t rid w = (Inr (), w'\<lparr>en_ruleCache := gm_del t (en_ruleCache w')\<rparr>)"
    using q w'(1) by (simp add: DisableRule_def ebind_eq etry_eq ethen_eq quiet_def quiet_calls RulesChanged_def eresult_def eret_def)
  with w'(2) show ?thesis by simp
qed

lemma closing_not_open:
  "alarm_open (closing t rid {''ACTIVE'', ''ACKED''} now a) \<longleftrightarrow> alarm_open a \<and> \<not> (al_TenantID a = t \<and> of_rule rid a)"
  by (auto simp: closing_def alarm_open_def)

subsection \<open>Waiting for a claim\<close>

lemma claim_call_quiet:
  assumes "quiet w"
  obtains c w' where "claim_call msg w = (Inr c, w')" "quiet w'" "en_clock w' = en_clock w"
proof -
  obtain c r where c: "ClaimStandardMessage (en_clock w) msg (en_identity w) processingLease (en_repo w) = (c, r)" by fastforce
  show thesis by (rule that [of c "w\<lparr>en_repo := r\<rparr>"])
    (use assms c in \<open>simp_all add: claim_call_def ebind_eq easks_def quiet_def quiet_repo_op\<close>)
qed

lemma claim_loop_quiet:
  assumes "quiet w"
  shows "en_clock (snd (claim_loop deadline msg w)) \<le> max (en_clock w) (deadline + 5000)"
    "case fst (claim_loop deadline msg w) of Inr c \<Rightarrow> \<not> sc_Busy c | Inl e \<Rightarrow> deadline < en_clock (snd (claim_loop deadline msg w))"
  using assms
proof (induction deadline msg w rule: claim_loop.induct)
  case (1 deadline msg w)
  {
    assume q: "quiet w"
    obtain c w' where c: "claim_call msg w = (Inr c, w')" "quiet w'" "en_clock w' = en_clock w" using claim_call_quiet [OF q] by metis
    let ?w = "w'\<lparr>en_clock := en_clock w' + min (max (sc_RetryAfter c) 50) 5000\<rparr>"
    have q': "quiet ?w" using c by (simp add: quiet_def)
    have "en_clock (snd (claim_loop deadline msg w)) \<le> max (en_clock w) (deadline + 5000) \<and>
      (case fst (claim_loop deadline msg w) of Inr c \<Rightarrow> \<not> sc_Busy c | Inl e \<Rightarrow> deadline < en_clock (snd (claim_loop deadline msg w)))"
    proof (cases "sc_Busy c \<and> en_clock w' \<le> deadline")
      case True
      then have r: "claim_loop deadline msg w = claim_loop deadline msg ?w" using c(1) by (subst claim_loop.simps) simp
      have "en_clock (snd (claim_loop deadline msg ?w)) \<le> max (en_clock ?w) (deadline + 5000)"
        using 1(1) [OF c(1) [symmetric] refl] True q' by simp
      moreover have "max (en_clock ?w) (deadline + 5000) = deadline + 5000" using True by (simp add: max_def min_def)
      moreover have "case fst (claim_loop deadline msg ?w) of Inr c \<Rightarrow> \<not> sc_Busy c | Inl e \<Rightarrow> deadline < en_clock (snd (claim_loop deadline msg ?w))"
        using 1(2) [OF c(1) [symmetric] refl] True q' by simp
      ultimately show ?thesis unfolding r by simp
    next
      case False
      then have r: "claim_loop deadline msg w = (if sc_Busy c then Inl (ErrText ''standard message is still claimed'') else Inr c, w')"
        using c(1) by (subst claim_loop.simps) auto
      show ?thesis unfolding r using False c(3) by auto
    qed
  }
  then show "quiet w \<Longrightarrow> en_clock (snd (claim_loop deadline msg w)) \<le> max (en_clock w) (deadline + 5000)"
    "quiet w \<Longrightarrow> case fst (claim_loop deadline msg w) of Inr c \<Rightarrow> \<not> sc_Busy c | Inl e \<Rightarrow> deadline < en_clock (snd (claim_loop deadline msg w))"
    by blast+
qed

lemma claimStandard_quiet:
  assumes "quiet w"
  shows "en_clock (snd (claimStandard msg w)) \<le> en_clock w + 75000"
    "case fst (claimStandard msg w) of Inr c \<Rightarrow> \<not> sc_Busy c | Inl e \<Rightarrow> en_clock w + 70000 < en_clock (snd (claimStandard msg w))"
proof -
  have c: "claimStandard msg w = claim_loop (en_clock w + 70000) msg w"
    by (simp add: claimStandard_def ebind_eq enow_def processingLease_def add.assoc)
  show "en_clock (snd (claimStandard msg w)) \<le> en_clock w + 75000"
    "case fst (claimStandard msg w) of Inr c \<Rightarrow> \<not> sc_Busy c | Inl e \<Rightarrow> en_clock w + 70000 < en_clock (snd (claimStandard msg w))"
    unfolding c using claim_loop_quiet [OF assms, of "en_clock w + 70000" msg] by simp_all
qed

end
