(* ===== verification/Samples.thy ===== *)
theory Samples
  imports Engine_Progress
begin

text \<open>
  Concrete values on which the properties are evaluated: a library for the parts outside the repository, a worker over an
  empty repository, and a message that reports an alarm.
\<close>

definition sample_lib :: golib where
  "sample_lib = \<lparr>lb_ftoa = (\<lambda>_. ''1''), lb_atof = (\<lambda>_. None), lb_json_map = (\<lambda>_. None), lb_json_video = (\<lambda>_. None),
     lb_video_value = (\<lambda>_. VNil), lb_media_error = (\<lambda>_. None), lb_compiles = (\<lambda>_. True), lb_gengine = (\<lambda>_ _ _. Some True)\<rparr>"

definition sample_message :: "string \<Rightarrow> MessageType \<Rightarrow> int \<Rightarrow> StandardMessage" where
  "sample_message i kind now = \<lparr>sm_MessageID = i, sm_RawMessageID = ''raw_'' @ i, sm_TenantID = ''t'', sm_ProductID = ''p'', sm_DeviceID = ''d'',
     sm_MessageType = kind, sm_Timestamp = now, sm_Properties = [], sm_Event = [], sm_Tags = [], sm_Raw = [], sm_Parser = ''x'',
     sm_ParserVersion = ''1''\<rparr>"

definition sample_worker :: "repo \<Rightarrow> engine" where
  "sample_worker r = \<lparr>en_repo = r, en_sched = [], en_clock = 1000, en_rand = nat_digits, en_drawn = 0, en_bus = [], en_bus_faults = [],
     en_rt = [], en_rt_faults = [], en_locator = None, en_identity = ''worker-1'', en_publishExternal = True, en_paused = False,
     en_ruleCache = [], en_protocols = [], en_removed = None, en_archive = None, en_archive_faults = []\<rparr>"

definition sample_state :: DeviceState where
  "sample_state = zero_DeviceState\<lparr>ds_TenantID := ''t'', ds_ProductID := ''p'', ds_DeviceID := ''d'', ds_LastSeenAt := 100, ds_DataStatus := ''ACTIVE'',
     ds_BusinessStatus := ''ONLINE'', ds_ConnectionStatus := ''UNKNOWN'', ds_ReportIntervalSec := 0, ds_OfflineToleranceSec := 0, ds_Version := 1\<rparr>"

definition sample_alarm :: "string \<Rightarrow> string \<Rightarrow> string \<Rightarrow> Alarm" where
  "sample_alarm i rid st = zero_Alarm\<lparr>al_ID := i, al_TenantID := ''t'', al_DeviceID := ''d'', al_RuleID := rid, al_Status := st,
     al_TriggerID := ''m0'', al_TriggerCount := 1, al_Version := 1\<rparr>"

definition sample_repo :: repo where
  "sample_repo = NewRepository\<lparr>rp_states := [(key [''t'', ''d''], sample_state)],
     rp_alarms := [(key [''t'', ''a1''], sample_alarm ''a1'' ''r1'' ''ACTIVE''), (key [''t'', ''a2''], sample_alarm ''a2'' ''r2'' ''CLOSED'')]\<rparr>"

lemma sample_repo_ok: "states_ok sample_repo" "alarms_keyed sample_repo"
  unfolding states_ok_def alarms_keyed_def gm_ok_def by code_simp+

lemma sample_alarm_inv: "alarm_inv sample_repo"
proof -
  have "alarms_wf sample_repo" unfolding alarms_wf_def gm_ok_def by code_simp
  moreover have "open_unique sample_repo" unfolding open_unique_def by code_simp
  moreover have "components_linked sample_repo"
  proof -
    have "list_all (\<lambda>(k, a). \<not> component_rule (al_RuleID a)) (rp_alarms sample_repo)" by code_simp
    then show ?thesis by (auto simp: components_linked_def list_all_iff)
  qed
  ultimately show ?thesis by (simp add: alarm_inv_def)
qed

lemma sample_worker_fields [simp]:
  "en_repo (sample_worker r) = r" "en_sched (sample_worker r) = []" "quiet (sample_worker r)" "en_bus_faults (sample_worker r) = []"
  "en_rand (sample_worker r) = nat_digits" "en_ruleCache (sample_worker r) = []" "en_clock (sample_worker r) = 1000"
  by (simp_all add: sample_worker_def quiet_def)

lemma sample_good: "good (sample_worker sample_repo) (sample_worker sample_repo)"
proof -
  have "unused sample_repo (worker_alarm nat_digits n)" for n
  proof -
    have "stored_alarm sample_repo t (worker_alarm nat_digits n) = None" if "clean t" for t
    proof -
      have "clean ''t''" by code_simp
      then show ?thesis using that by (simp add: stored_alarm_def sample_repo_def gm_get_def worker_alarm_def key2_inject)
    qed
    then show ?thesis by (simp add: unused_def)
  qed
  moreover have "inj nat_digits" by (rule injI) simp
  moreover have "plain_repo sample_repo" by (simp add: plain_repo_def plain_rules_def sample_repo_def NewRepository_def gm_vals_def)
  ultimately show ?thesis using sample_alarm_inv by (simp add: good_def plain_cache_def history_def)
qed

text \<open>A run that acknowledges the open alarm.\<close>

definition sample_run :: engine where
  "sample_run = snd (serve sample_lib (SetStatus ''t'' ''a1'' ''ACKED'' ''op'') (sample_worker sample_repo))"

lemma sample_run_reached: "engine_run sample_lib (sample_worker sample_repo) sample_run"
  unfolding sample_run_def by (intro engine_run.intros) (simp add: request_ok_def)

lemma sample_run_alarms:
  "map (\<lambda>(k, a). (k, al_Status a, al_RuleID a)) (rp_alarms (en_repo sample_run)) =
    [(key [''t'', ''a1''], ''ACKED'', ''r1''), (key [''t'', ''a2''], ''CLOSED'', ''r2'')]"
  by code_simp

lemma sample_run_first:
  obtains a where "(key [''t'', ''a1''], a) \<in> set (rp_alarms (en_repo sample_run))" "al_Status a = ''ACKED''" "al_RuleID a = ''r1''"
proof (cases "rp_alarms (en_repo sample_run)")
  case Nil
  then show thesis using sample_run_alarms by simp
next
  case (Cons x xs)
  then show thesis using sample_run_alarms that by (cases x) auto
qed

end
