(* ===== verification/Rate_Limit.thy ===== *)
theory Rate_Limit
  imports Go_Prelude
begin

text \<open>
  The fixed-window limiters of \<^verbatim>\<open>internal/ratelimit\<close>. Times are nanoseconds since the zero time of Go and the clock is an
  argument; \<^verbatim>\<open>Local\<close> is a map from budget names to windows, and an operation runs under its mutex. The shared limiter of
  \<^verbatim>\<open>Cluster\<close> is an interface of the source, kept here as a record of functions on the state of the shared store.
\<close>

definition tableLimit :: nat where "tableLimit = 100000"

definition second :: int where "second = 1000000000"

record window =
  wn_start :: int
  wn_end :: int
  wn_count :: int

definition zero_window :: window where
  "zero_window = \<lparr>wn_start = 0, wn_end = 0, wn_count = 0\<rparr>"

record Local =
  lo_keys :: "window gomap"
  lo_lastSweep :: int

definition NewLocal :: Local where
  "NewLocal = \<lparr>lo_keys = [], lo_lastSweep = 0\<rparr>"

text \<open>\<^verbatim>\<open>time.Truncate\<close>: down to a multiple of the window since the zero time.\<close>

definition truncate_time :: "int \<Rightarrow> int \<Rightarrow> int" where
  "truncate_time now d = (if d \<le> 0 then now else now - now mod d)"

definition current :: "string \<Rightarrow> int \<Rightarrow> int \<Rightarrow> Local \<Rightarrow> window" where
  "current k d now l =
     (let w = (case gm_get (lo_keys l) k of None \<Rightarrow> zero_window | Some w \<Rightarrow> w); start = truncate_time now d in
      if wn_start w \<noteq> start then \<lparr>wn_start = start, wn_end = start + d, wn_count = 0\<rparr> else w)"

definition sweep :: "int \<Rightarrow> Local \<Rightarrow> Local" where
  "sweep now l =
     (if now - lo_lastSweep l \<ge> second
      then l\<lparr>lo_keys := gm_filter (\<lambda>_ w. now < wn_end w) (lo_keys l), lo_lastSweep := now\<rparr> else l)"

definition Local_Allow :: "string \<Rightarrow> int \<Rightarrow> int \<Rightarrow> int \<Rightarrow> Local \<Rightarrow> bool \<times> Local" where
  "Local_Allow k limit d now l =
     (let w = current k d now l in
      if wn_count w \<ge> limit then (False, l)
      else let crowded = (gm_get (lo_keys l) k = None \<and> length (lo_keys l) \<ge> tableLimit);
               l1 = (if crowded then sweep now l else l)
           in if crowded \<and> length (lo_keys l1) \<ge> tableLimit then (False, l1)
              else (True, l1\<lparr>lo_keys := gm_put k (w\<lparr>wn_count := wn_count w + 1\<rparr>) (lo_keys l1)\<rparr>))"

definition Local_Hits :: "string \<Rightarrow> int \<Rightarrow> int \<Rightarrow> Local \<Rightarrow> int \<times> int" where
  "Local_Hits k d now l = (let w = current k d now l in (wn_count w, wn_start w + d - now))"

definition Local_Reset :: "string \<Rightarrow> Local \<Rightarrow> Local" where
  "Local_Reset k l = l\<lparr>lo_keys := gm_del k (lo_keys l)\<rparr>"

subsection \<open>The cluster limiter\<close>

text \<open>The interface \<^verbatim>\<open>Limiter\<close>: every call returns \<open>None\<close> when the store fails.\<close>

record 's Limiter =
  li_Allow :: "string \<Rightarrow> int \<Rightarrow> int \<Rightarrow> 's \<Rightarrow> bool option \<times> 's"
  li_Hits :: "string \<Rightarrow> int \<Rightarrow> 's \<Rightarrow> (int \<times> int) option \<times> 's"
  li_Reset :: "string \<Rightarrow> int \<Rightarrow> 's \<Rightarrow> bool \<times> 's"

record 's Cluster =
  cl_Shared :: "'s Limiter option"
  cl_Local :: Local
  cl_Instances :: int
  cl_errors :: int

definition NewCluster :: "'s Limiter option \<Rightarrow> int \<Rightarrow> 's Cluster" where
  "NewCluster shared instances = \<lparr>cl_Shared = shared, cl_Local = NewLocal, cl_Instances = (if instances < 1 then 1 else instances), cl_errors = 0\<rparr>"

text \<open>Go's integer division truncates towards zero.\<close>

definition quot :: "int \<Rightarrow> int \<Rightarrow> int" where
  "quot a b = (if (a < 0) = (b < 0) then \<bar>a\<bar> div \<bar>b\<bar> else - (\<bar>a\<bar> div \<bar>b\<bar>))"

definition share :: "'s Cluster \<Rightarrow> int \<Rightarrow> int" where
  "share c limit = (if cl_Shared c = None then limit else max 1 (quot limit (cl_Instances c)))"

definition local_allow :: "string \<Rightarrow> int \<Rightarrow> int \<Rightarrow> int \<Rightarrow> 's Cluster \<Rightarrow> bool \<times> 's Cluster" where
  "local_allow k limit d now c = (case Local_Allow k (share c limit) d now (cl_Local c) of (ok, l) \<Rightarrow> (ok, c\<lparr>cl_Local := l\<rparr>))"

definition Cluster_Allow :: "string \<Rightarrow> int \<Rightarrow> int \<Rightarrow> int \<Rightarrow> 's Cluster \<times> 's \<Rightarrow> bool \<times> 's Cluster \<times> 's" where
  "Cluster_Allow k limit d now cs = (case cs of (c, s) \<Rightarrow>
     case cl_Shared c of
       None \<Rightarrow> (case local_allow k limit d now c of (ok, c') \<Rightarrow> (ok, c', s))
     | Some sh \<Rightarrow> (case li_Allow sh k limit d s of
         (Some ok, s') \<Rightarrow> (ok, c, s')
       | (None, s') \<Rightarrow> (case local_allow k limit d now (c\<lparr>cl_errors := cl_errors c + 1\<rparr>) of (ok, c') \<Rightarrow> (ok, c', s'))))"

definition boolInt :: "bool \<Rightarrow> int" where
  "boolInt b = (if b then 1 else 0)"

definition local_hits :: "string \<Rightarrow> int \<Rightarrow> int \<Rightarrow> 's Cluster \<Rightarrow> int \<times> int" where
  "local_hits k d now c = (case Local_Hits k d now (cl_Local c) of (n, reset) \<Rightarrow>
     (n * max 1 (cl_Instances c * boolInt (cl_Shared c \<noteq> None)), reset))"

definition Cluster_Hits :: "string \<Rightarrow> int \<Rightarrow> int \<Rightarrow> 's Cluster \<times> 's \<Rightarrow> (int \<times> int) \<times> 's Cluster \<times> 's" where
  "Cluster_Hits k d now cs = (case cs of (c, s) \<Rightarrow>
     case cl_Shared c of
       None \<Rightarrow> (local_hits k d now c, c, s)
     | Some sh \<Rightarrow> (case li_Hits sh k d s of
         (Some r, s') \<Rightarrow> (r, c, s')
       | (None, s') \<Rightarrow> (local_hits k d now c, c\<lparr>cl_errors := cl_errors c + 1\<rparr>, s')))"

definition Cluster_Reset :: "string \<Rightarrow> int \<Rightarrow> 's Cluster \<times> 's \<Rightarrow> bool \<times> 's Cluster \<times> 's" where
  "Cluster_Reset k d cs = (case cs of (c, s) \<Rightarrow>
     let c = c\<lparr>cl_Local := Local_Reset k (cl_Local c)\<rparr> in
     case cl_Shared c of
       None \<Rightarrow> (True, c, s)
     | Some sh \<Rightarrow> (case li_Reset sh k d s of
         (True, s') \<Rightarrow> (True, c, s')
       | (False, s') \<Rightarrow> (False, c\<lparr>cl_errors := cl_errors c + 1\<rparr>, s')))"

subsection \<open>Budgets of one window\<close>

text \<open>The calls of a client in order, and how many of the calls it counts were granted.\<close>

primrec run_calls :: "('c \<Rightarrow> 's \<Rightarrow> bool \<times> 's) \<Rightarrow> ('c \<Rightarrow> bool) \<Rightarrow> 'c list \<Rightarrow> 's \<Rightarrow> nat \<times> 's" where
  "run_calls step mine [] s = (0, s)"
| "run_calls step mine (c # cs) s = (case step c s of (g, s') \<Rightarrow>
     case run_calls step mine cs s' of (n, s'') \<Rightarrow> ((if g \<and> mine c then n + 1 else n), s''))"

text \<open>
  What a limiter promises for one budget: a call on the budget is granted only below the limit and then uses one unit, a
  refused call and the calls on other budgets leave the use as it is. The times are those of one window.
\<close>

locale window_budget =
  fixes used :: "'s \<Rightarrow> int" and mine :: "'c \<Rightarrow> bool" and ok :: "'s \<Rightarrow> 'c \<Rightarrow> bool" and step :: "'c \<Rightarrow> 's \<Rightarrow> bool \<times> 's" and limit :: int
  assumes granted: "ok s c \<Longrightarrow> mine c \<Longrightarrow> step c s = (True, s') \<Longrightarrow> used s < limit \<and> used s' = used s + 1"
    and refused: "ok s c \<Longrightarrow> mine c \<Longrightarrow> step c s = (False, s') \<Longrightarrow> used s' = used s"
    and others: "ok s c \<Longrightarrow> \<not> mine c \<Longrightarrow> used (snd (step c s)) = used s"
    and ok_step: "ok s c \<Longrightarrow> ok s c' \<Longrightarrow> ok (snd (step c s)) c'"
begin

lemma run_calls_used:
  "(\<And>c. c \<in> set cs \<Longrightarrow> ok s c) \<Longrightarrow> run_calls step mine cs s = (n, s') \<Longrightarrow> used s' = used s + int n \<and> (used s \<le> limit \<longrightarrow> used s' \<le> limit)"
proof (induction cs arbitrary: s n s')
  case (Cons c cs)
  obtain g s1 where g: "step c s = (g, s1)" by fastforce
  obtain m s2 where m: "run_calls step mine cs s1 = (m, s2)" by fastforce
  have ok: "ok s c" using Cons.prems(1) by simp
  have "ok s1 x" if "x \<in> set cs" for x using ok_step [OF ok, of x] Cons.prems(1) that g by simp
  from Cons.IH [OF this m] have IH: "used s2 = used s1 + int m" "used s1 \<le> limit \<longrightarrow> used s2 \<le> limit" by auto
  have n: "n = (if g \<and> mine c then m + 1 else m)" "s' = s2" using Cons.prems(2) g m by auto
  show ?case
  proof (cases "mine c")
    case True
    then show ?thesis using granted [OF ok True] refused [OF ok True] g IH n by (cases g) auto
  next
    case False
    then show ?thesis using others [OF ok False] g IH n by simp
  qed
qed simp

text \<open>No more units are granted than the limit leaves.\<close>

lemma run_calls_bound:
  assumes "\<And>c. c \<in> set cs \<Longrightarrow> ok s c" "used s \<le> limit" "0 \<le> used s"
  shows "int (fst (run_calls step mine cs s)) \<le> limit"
proof -
  obtain n s' where r: "run_calls step mine cs s = (n, s')" by fastforce
  from run_calls_used [OF assms(1) r] r assms(2,3) show ?thesis by simp
qed

end

subsection \<open>The local limiter keeps its budget\<close>

type_synonym call = "string \<times> int \<times> int \<times> int"

definition local_step :: "call \<Rightarrow> Local \<Rightarrow> bool \<times> Local" where
  "local_step c l = (case c of (k, limit, d, now) \<Rightarrow> Local_Allow k limit d now l)"

definition used_in :: "string \<Rightarrow> int \<Rightarrow> Local \<Rightarrow> int" where
  "used_in k start l = (case gm_get (lo_keys l) k of None \<Rightarrow> 0 | Some w \<Rightarrow> if wn_start w = start then wn_count w else 0)"

text \<open>A call in the window of the budget that starts at \<open>start\<close>, on a table whose window of the budget has the right end.\<close>

definition in_window :: "string \<Rightarrow> int \<Rightarrow> int \<Rightarrow> int \<Rightarrow> Local \<Rightarrow> call \<Rightarrow> bool" where
  "in_window k limit d start l c = (case c of (k', limit', d', now) \<Rightarrow>
     0 < d \<and> 0 < start \<and> truncate_time now d = start \<and> (k' = k \<longrightarrow> limit' = limit \<and> d' = d) \<and> gm_ok (lo_keys l) \<and>
     (\<forall>w. gm_get (lo_keys l) k = Some w \<longrightarrow> wn_end w = wn_start w + d))"

lemma truncate_window: "0 < d \<Longrightarrow> truncate_time now d = start \<Longrightarrow> start \<le> now \<and> now < start + d"
  by (auto simp: truncate_time_def pos_mod_bound)

lemma sweep_keys:
  assumes "gm_ok (lo_keys l)"
  shows "gm_get (lo_keys (sweep now l)) k = (case gm_get (lo_keys l) k of None \<Rightarrow> None
    | Some w \<Rightarrow> if now - lo_lastSweep l \<ge> second \<and> \<not> now < wn_end w then None else Some w)" "gm_ok (lo_keys (sweep now l))"
  using assms by (auto simp: sweep_def gm_get_filter split: option.splits)

text \<open>A sweep in the window does not touch the budget's window.\<close>

lemma sweep_used:
  assumes "in_window k limit d start l (k', limit', d', now)"
  shows "used_in k start (sweep now l) = used_in k start l"
  using assms truncate_window [of d now start]
  by (auto simp: in_window_def used_in_def sweep_keys split: option.splits)

lemma current_count:
  assumes "in_window k limit d start l (k, limit', d', now)"
  shows "current k d now l = (case gm_get (lo_keys l) k of Some w \<Rightarrow> if wn_start w = start then w else \<lparr>wn_start = start, wn_end = start + d, wn_count = 0\<rparr>
     | None \<Rightarrow> \<lparr>wn_start = start, wn_end = start + d, wn_count = 0\<rparr>)" "wn_count (current k d now l) = used_in k start l"
  using assms by (auto simp: current_def used_in_def in_window_def zero_window_def Let_def split: option.splits)

lemma in_window_mine: "in_window k limit d start l (k, limit', d', now) \<Longrightarrow> limit' = limit \<and> d' = d"
  by (simp add: in_window_def)

lemma put_used [simp]: "used_in k start (l\<lparr>lo_keys := gm_put k' w m\<rparr>) =
    (if k = k' then if wn_start w = start then wn_count w else 0 else used_in k start (l\<lparr>lo_keys := m\<rparr>))"
  by (simp add: used_in_def)

interpretation local_budget: window_budget "used_in k start" "\<lambda>c. fst c = k" "in_window k limit d start" local_step limit for k start limit d
proof
  fix s s' :: Local and c :: call
  assume ok: "in_window k limit d start s c" and mine: "fst c = k"
  obtain now where c: "c = (k, limit, d, now)" using ok mine in_window_mine by (cases c) fastforce
  note ok' = ok [unfolded c]
  have st: "wn_start (current k d now s) = start" unfolding current_count(1) [OF ok'] by (simp split: option.splits)
  show "used_in k start s < limit \<and> used_in k start s' = used_in k start s + 1" if "local_step c s = (True, s')"
    using that current_count(2) [OF ok'] st by (auto simp: local_step_def c Local_Allow_def Let_def split: if_splits)
  show "used_in k start s' = used_in k start s" if "local_step c s = (False, s')"
    using that sweep_used [OF ok'] by (auto simp: local_step_def c Local_Allow_def Let_def split: if_splits)
next
  fix s :: Local and c :: call
  assume ok: "in_window k limit d start s c" and other: "fst c \<noteq> k"
  obtain k' limit' d' now where c: "c = (k', limit', d', now)" by (cases c)
  show "used_in k start (snd (local_step c s)) = used_in k start s"
    using other sweep_used [OF ok [unfolded c]] by (simp add: local_step_def c Local_Allow_def Let_def)
next
  fix s :: Local and c c' :: call
  assume ok: "in_window k limit d start s c" and ok2: "in_window k limit d start s c'"
  obtain k' limit' d' now where c: "c = (k', limit', d', now)" by (cases c)
  have keep: "in_window k limit d start l' c'" if "gm_ok (lo_keys l')" "\<And>w. gm_get (lo_keys l') k = Some w \<Longrightarrow> wn_end w = wn_start w + d" for l'
    using ok2 that by (auto simp: in_window_def)
  show "in_window k limit d start (snd (local_step c s)) c'"
  proof (rule keep)
    show "gm_ok (lo_keys (snd (local_step c s)))" using ok by (simp add: local_step_def c Local_Allow_def Let_def in_window_def sweep_keys)
    fix w assume w: "gm_get (lo_keys (snd (local_step c s))) k = Some w"
    show "wn_end w = wn_start w + d"
    proof (cases "k' = k")
      case True
      note ok' = ok [unfolded c True]
      have "wn_end (current k d now s) = wn_start (current k d now s) + d"
        using ok' unfolding current_count(1) [OF ok'] by (auto simp: in_window_def split: option.splits)
      moreover have "d' = d" using in_window_mine [OF ok'] by simp
      ultimately show ?thesis using w ok True
        by (auto simp: local_step_def c Local_Allow_def Let_def in_window_def sweep_keys split: if_splits option.splits)
    next
      case False
      then show ?thesis using w ok
        by (auto simp: local_step_def c Local_Allow_def Let_def in_window_def sweep_keys split: if_splits option.splits)
    qed
  qed
qed

subsection \<open>A cluster whose store fails\<close>

definition cluster_step :: "call \<Rightarrow> 's Cluster \<times> 's \<Rightarrow> bool \<times> 's Cluster \<times> 's" where
  "cluster_step c cs = (case c of (k, limit, d, now) \<Rightarrow> Cluster_Allow k limit d now cs)"

definition outage :: "'s Limiter \<Rightarrow> bool" where
  "outage sh \<longleftrightarrow> (\<forall>k limit d s. fst (li_Allow sh k limit d s) = None)"

text \<open>The call as the local limiter sees it.\<close>

definition scaled :: "int \<Rightarrow> call \<Rightarrow> call" where
  "scaled n c = (case c of (k, limit, d, now) \<Rightarrow> (k, max 1 (quot limit n), d, now))"

definition outage_window :: "'s Limiter \<Rightarrow> int \<Rightarrow> string \<Rightarrow> int \<Rightarrow> int \<Rightarrow> int \<Rightarrow> 's Cluster \<times> 's \<Rightarrow> call \<Rightarrow> bool" where
  "outage_window sh n k limit d start cs c \<longleftrightarrow> outage sh \<and> cl_Shared (fst cs) = Some sh \<and> cl_Instances (fst cs) = n \<and>
     in_window k (max 1 (quot limit n)) d start (cl_Local (fst cs)) (scaled n c)"

lemma outage_step:
  assumes "outage sh" "cl_Shared c = Some sh" "cl_Instances c = n"
  shows "\<exists>c' s'. cluster_step call (c, s) = (fst (local_step (scaled n call) (cl_Local c)), c', s') \<and>
    cl_Local c' = snd (local_step (scaled n call) (cl_Local c)) \<and> cl_Shared c' = Some sh \<and> cl_Instances c' = n"
proof -
  obtain k limit d now where call: "call = (k, limit, d, now)" by (cases call)
  obtain s' where s': "li_Allow sh k limit d s = (None, s')" using assms(1) unfolding outage_def by (metis prod.collapse)
  have "share (c\<lparr>cl_errors := e\<rparr>) limit = max 1 (quot limit n)" for e using assms(2,3) by (simp add: share_def)
  then show ?thesis using s' assms(2,3)
    by (simp add: cluster_step_def call Cluster_Allow_def local_allow_def local_step_def scaled_def split: prod.splits)
qed

interpretation outage_budget: window_budget "\<lambda>cs. used_in k start (cl_Local (fst cs))" "\<lambda>c. fst c = k"
  "outage_window sh n k limit d start" cluster_step "max 1 (quot limit n)" for sh :: "'s Limiter" and n k start limit d
proof
  fix s s' :: "'s Cluster \<times> 's" and c :: call
  assume ok: "outage_window sh n k limit d start s c" and mine: "fst c = k"
  have m: "fst (scaled n c) = k" using mine by (cases c) (simp add: scaled_def)
  note ok' = ok [unfolded outage_window_def]
  obtain c' t' where st: "cluster_step c s = (fst (local_step (scaled n c) (cl_Local (fst s))), c', t')"
    "cl_Local c' = snd (local_step (scaled n c) (cl_Local (fst s)))"
    using outage_step [of sh "fst s" n c "snd s"] ok' by auto
  obtain g l where g: "local_step (scaled n c) (cl_Local (fst s)) = (g, l)" by fastforce
  show "used_in k start (cl_Local (fst s)) < max 1 (quot limit n) \<and> used_in k start (cl_Local (fst s')) = used_in k start (cl_Local (fst s)) + 1"
    if "cluster_step c s = (True, s')"
    using that st g local_budget.granted [OF _ m, of "max 1 (quot limit n)" d start "cl_Local (fst s)" l] ok' by auto
  show "used_in k start (cl_Local (fst s')) = used_in k start (cl_Local (fst s))" if "cluster_step c s = (False, s')"
    using that st g local_budget.refused [OF _ m, of "max 1 (quot limit n)" d start "cl_Local (fst s)" l] ok' by auto
next
  fix s :: "'s Cluster \<times> 's" and c :: call
  assume ok: "outage_window sh n k limit d start s c" and other: "fst c \<noteq> k"
  have m: "fst (scaled n c) \<noteq> k" using other by (cases c) (simp add: scaled_def)
  note ok' = ok [unfolded outage_window_def]
  then show "used_in k start (cl_Local (fst (snd (cluster_step c s)))) = used_in k start (cl_Local (fst s))"
    using outage_step [of sh "fst s" n c "snd s"] local_budget.others [OF _ m, of "max 1 (quot limit n)" d start "cl_Local (fst s)"] by auto
next
  fix s :: "'s Cluster \<times> 's" and c c' :: call
  assume ok: "outage_window sh n k limit d start s c" "outage_window sh n k limit d start s c'"
  note ok' = ok [unfolded outage_window_def]
  show "outage_window sh n k limit d start (snd (cluster_step c s)) c'"
    using outage_step [of sh "fst s" n c "snd s"] local_budget.ok_step [of k "max 1 (quot limit n)" d start "cl_Local (fst s)" "scaled n c" "scaled n c'"] ok'
    by (auto simp: outage_window_def)
qed

text \<open>The shares of all instances together stay within a limit that is at least their number.\<close>

lemma quot_pos: "0 \<le> a \<Longrightarrow> 0 < b \<Longrightarrow> quot a b = a div b"
  by (auto simp: quot_def)

lemma shares_within: "0 < n \<Longrightarrow> n \<le> limit \<Longrightarrow> n * max 1 (quot limit n) \<le> limit"
proof -
  assume n: "0 < n" "n \<le> limit"
  have "1 \<le> limit div n" using n by (simp add: pos_imp_zdiv_pos_iff int_one_le_iff_zero_less)
  moreover have "n * (limit div n) \<le> limit" using n by (metis mult.commute div_mult_mod_eq add_increasing2 order_refl pos_mod_sign le_add_same_cancel1)
  ultimately show ?thesis using n by (simp add: quot_pos max_def)
qed

end
