(* ===== verification/Durable_Queue.thy ===== *)
theory Durable_Queue
  imports Memory_Repo
begin

text \<open>
  The file backed queue of the edge gateway (\<^verbatim>\<open>internal/durablequeue\<close>). The directory is a map from file names to files;
  every file operation takes the next flag of \<open>qw_faults\<close> and fails without effect when it is set, so that every error path
  of the code is a branch here. A write through \<^verbatim>\<open>atomicFile\<close> takes two flags: the first fails before the rename, the second
  flushes the directory after it. The directory lock makes the process the only writer; the mutex makes an operation atomic. The
  JSON encoding of a message is a parameter (\<open>codec\<close>): \<^verbatim>\<open>json.Marshal\<close> and \<^verbatim>\<open>json.Unmarshal\<close> of the standard library.
\<close>

datatype queue_error =
    QLimits | QInvalidEntry | QIdentity | QClosed | QQuarantined | QMarshal | QTooLarge | QConflict | QFull | QIO | QNotExist
  | QNotRegular | QCorruptExists | QEntryQuarantined string | QPredicate | QCancelled | QActiveExists

record qfile =
  qf_data :: string
  qf_time :: int
  qf_regular :: bool

record Queue =
  qu_maxBytes :: int
  qu_used :: int
  qu_maxItems :: int
  qu_items :: int
  qu_closed :: bool
  qu_order :: "string list"
  qu_active :: "string set"

record qworld =
  qw_queue :: Queue
  qw_files :: "qfile gomap"
  qw_faults :: "bool list"
  qw_clock :: int

type_synonym 'a qop = "qworld \<Rightarrow> (queue_error + 'a) \<times> qworld"

definition qret :: "'a \<Rightarrow> 'a qop" where
  "qret x = (\<lambda>w. (Inr x, w))"

definition qfail :: "queue_error \<Rightarrow> 'a qop" where
  "qfail e = (\<lambda>w. (Inl e, w))"

definition qbind :: "'a qop \<Rightarrow> ('a \<Rightarrow> 'b qop) \<Rightarrow> 'b qop" where
  "qbind m f = (\<lambda>w. case m w of (Inl e, w') \<Rightarrow> (Inl e, w') | (Inr x, w') \<Rightarrow> f x w')"

definition qtry :: "'a qop \<Rightarrow> (queue_error + 'a) qop" where
  "qtry m = (\<lambda>w. case m w of (r, w') \<Rightarrow> (Inr r, w'))"

definition on_queue :: "(Queue \<Rightarrow> Queue) \<Rightarrow> unit qop" where
  "on_queue f = (\<lambda>w. (Inr (), w\<lparr>qw_queue := f (qw_queue w)\<rparr>))"

subsection \<open>Files\<close>

text \<open>One call of the operating system.\<close>

definition syscall :: "queue_error \<Rightarrow> 'a qop \<Rightarrow> 'a qop" where
  "syscall e m = (\<lambda>w. case qw_faults w of
     [] \<Rightarrow> m w
   | b # bs \<Rightarrow> if b then (Inl e, w\<lparr>qw_faults := bs\<rparr>) else m (w\<lparr>qw_faults := bs\<rparr>))"

definition lstat :: "string \<Rightarrow> qfile option qop" where
  "lstat name = syscall QIO (\<lambda>w. (Inr (gm_get (qw_files w) name), w))"

definition readFile :: "string \<Rightarrow> string option qop" where
  "readFile name = qbind (lstat name) (\<lambda>f. case f of
     None \<Rightarrow> qret None
   | Some f \<Rightarrow> if qf_regular f then qret (Some (qf_data f)) else qfail QIO)"

definition rename_file :: "string \<Rightarrow> string \<Rightarrow> unit qop" where
  "rename_file a b = syscall QIO (\<lambda>w. case gm_get (qw_files w) a of
     None \<Rightarrow> (Inl QNotExist, w)
   | Some f \<Rightarrow> (Inr (), w\<lparr>qw_files := gm_put b f (gm_del a (qw_files w))\<rparr>))"

definition remove_file :: "string \<Rightarrow> unit qop" where
  "remove_file name = syscall QIO (\<lambda>w. (Inr (), w\<lparr>qw_files := gm_del name (qw_files w)\<rparr>))"

definition syncDirectory :: "unit qop" where
  "syncDirectory = syscall QIO (qret ())"

text \<open>The temporary file is written, flushed and renamed to its name, then the directory is flushed.\<close>

definition atomicFile :: "string \<Rightarrow> string \<Rightarrow> unit qop" where
  "atomicFile name b =
     qbind (syscall QIO (\<lambda>w. (Inr (), w\<lparr>qw_files := gm_put name \<lparr>qf_data = b, qf_time = qw_clock w, qf_regular = True\<rparr> (qw_files w)\<rparr>)))
       (\<lambda>_. syncDirectory)"

text \<open>\<^verbatim>\<open>os.ReadDir\<close> lists the names in order.\<close>

definition readDir :: "string list qop" where
  "readDir = syscall QIO (\<lambda>w. (Inr (sort (map fst (qw_files w))), w))"

subsection \<open>Names\<close>

definition queueEntry :: "string \<Rightarrow> bool" where
  "queueEntry name \<longleftrightarrow> has_suffix name ''.json'' \<or> has_suffix name ''.rejected'' \<or> has_suffix name ''.corrupt''"

definition queueName :: "RawMessage \<Rightarrow> string" where
  "queueName raw = sha256_hex (rm_TenantID raw @ nul # rm_MessageID raw) @ ''.json''"

subsection \<open>Opening\<close>

definition file_size :: "qfile \<Rightarrow> int" where
  "file_size f = int (length (qf_data f))"

text \<open>One directory entry of the loop of \<^verbatim>\<open>OpenQueue\<close>.\<close>

fun load_entries :: "string list \<Rightarrow> Queue \<Rightarrow> Queue qop" where
  "load_entries [] q = qret q"
| "load_entries (name # names) q =
     (if \<not> queueEntry name then load_entries names q
      else qbind (qtry (lstat name)) (\<lambda>r. case r of
        Inr (Some f) \<Rightarrow>
          if \<not> qf_regular f then qfail QInvalidEntry
          else let q = q\<lparr>qu_used := qu_used q + file_size f, qu_items := qu_items q + 1\<rparr> in
            load_entries names (if has_suffix name ''.json'' then q\<lparr>qu_order := qu_order q @ [name], qu_active := insert name (qu_active q)\<rparr> else q)
      | _ \<Rightarrow> qfail QInvalidEntry))"

definition written :: "qworld \<Rightarrow> string \<Rightarrow> int" where
  "written w name = (case gm_get (qw_files w) name of None \<Rightarrow> 0 | Some f \<Rightarrow> qf_time f)"

definition OpenQueue :: "int \<Rightarrow> int \<Rightarrow> unit qop" where
  "OpenQueue maxBytes maxItems =
     (if maxBytes < 1 \<or> maxItems < 1 then qfail QLimits
      else qbind readDir (\<lambda>names.
        qbind (load_entries names \<lparr>qu_maxBytes = maxBytes, qu_used = 0, qu_maxItems = maxItems, qu_items = 0, qu_closed = False,
            qu_order = [], qu_active = {}\<rparr>) (\<lambda>q w.
          (Inr (), w\<lparr>qw_queue := q\<lparr>qu_order := sort_key (\<lambda>name. (written w name, name)) (qu_order q)\<rparr>\<rparr>))))"

definition Close :: "unit qop" where
  "Close = on_queue (\<lambda>q. q\<lparr>qu_closed := True\<rparr>)"

subsection \<open>Storing\<close>

definition enqueue :: "string \<Rightarrow> Queue \<Rightarrow> Queue" where
  "enqueue name q = (if name \<in> qu_active q then q else q\<lparr>qu_active := insert name (qu_active q), qu_order := qu_order q @ [name]\<rparr>)"

definition guard_open :: "'a qop \<Rightarrow> 'a qop" where
  "guard_open m = (\<lambda>w. if qu_closed (qw_queue w) then (Inl QClosed, w) else m w)"

text \<open>The reception time of a stamped message: the stored one of an identical retransmission, or now.\<close>

definition stamped :: "codec \<Rightarrow> RawMessage \<Rightarrow> bool \<Rightarrow> RawMessage qop" where
  "stamped cd raw stamp =
     (if \<not> stamp then qret raw
      else qbind (readFile (queueName raw)) (\<lambda>old. case old of
        Some b \<Rightarrow> (case cd_unmarshal cd b of
          None \<Rightarrow> qfail QQuarantined
        | Some saved \<Rightarrow> qret (raw\<lparr>rm_ReceivedAt := rm_ReceivedAt saved\<rparr>))
      | None \<Rightarrow> (\<lambda>w. (Inr (raw\<lparr>rm_ReceivedAt := qw_clock w\<rparr>), w))))"

fun check_absent :: "string \<Rightarrow> string list \<Rightarrow> unit qop" where
  "check_absent target [] = qret ()"
| "check_absent target (s # ss) = qbind (lstat (target @ s)) (\<lambda>f. case f of
     Some _ \<Rightarrow> qfail QQuarantined | None \<Rightarrow> check_absent target ss)"

definition count_entry :: "int \<Rightarrow> string \<Rightarrow> unit qop" where
  "count_entry n name = on_queue (\<lambda>q. enqueue name (q\<lparr>qu_used := qu_used q + n, qu_items := qu_items q + 1\<rparr>))"

definition store_entry :: "string \<Rightarrow> string \<Rightarrow> unit qop" where
  "store_entry target b =
     qbind (qtry (atomicFile target b)) (\<lambda>r. case r of
       Inl e \<Rightarrow> qbind (qtry (lstat target)) (\<lambda>info. case info of
           Inr (Some f) \<Rightarrow> qbind (count_entry (file_size f) target) (\<lambda>_. qfail e)
         | _ \<Rightarrow> qfail e)
     | Inr _ \<Rightarrow> count_entry (int (length b)) target)"

definition put :: "codec \<Rightarrow> RawMessage \<Rightarrow> bool \<Rightarrow> unit qop" where
  "put cd raw stamp =
     (if rm_TenantID raw = [] \<or> rm_MessageID raw = [] then qfail QIdentity
      else guard_open (qbind (stamped cd raw stamp) (\<lambda>raw. case cd_marshal cd raw of
        None \<Rightarrow> qfail QMarshal
      | Some b \<Rightarrow>
          if length b > 1048576 then qfail QTooLarge
          else qbind (check_absent (queueName raw) [''.rejected'', ''.corrupt'']) (\<lambda>_.
            qbind (readFile (queueName raw)) (\<lambda>old. case old of
              Some old \<Rightarrow> if old \<noteq> b then qfail QConflict else syncDirectory
            | None \<Rightarrow> (\<lambda>w.
                if qu_items (qw_queue w) \<ge> qu_maxItems (qw_queue w) \<or> qu_used (qw_queue w) + int (length b) > qu_maxBytes (qw_queue w)
                then (Inl QFull, w) else store_entry (queueName raw) b w))))))"

definition Put :: "codec \<Rightarrow> RawMessage \<Rightarrow> unit qop" where
  "Put cd raw = put cd raw False"

definition PutReceived :: "codec \<Rightarrow> RawMessage \<Rightarrow> unit qop" where
  "PutReceived cd raw = put cd raw True"

subsection \<open>Serving\<close>

definition set_order :: "string list \<Rightarrow> qworld \<Rightarrow> qworld" where
  "set_order ns w = w\<lparr>qw_queue := (qw_queue w)\<lparr>qu_order := ns\<rparr>\<rparr>"

definition deactivate :: "string \<Rightarrow> Queue \<Rightarrow> Queue" where
  "deactivate name q = q\<lparr>qu_active := qu_active q - {name}\<rparr>"

text \<open>
  The loop of \<^verbatim>\<open>Next\<close> over the order, with \<^verbatim>\<open>head\<close>: names that are not active any more are dropped, an active name
  without a file is settled.
\<close>

fun next_entry :: "string list \<Rightarrow> (string \<times> qfile) option qop" where
  "next_entry [] w = (Inr None, set_order [] w)"
| "next_entry (name # names) w =
     (if name \<notin> qu_active (qw_queue w) then next_entry names w
      else case lstat name w of
        (Inl e, w') \<Rightarrow> (Inl e, set_order (name # names) w')
      | (Inr (Some f), w') \<Rightarrow> (Inr (Some (name, f)), set_order (name # names) w')
      | (Inr None, w') \<Rightarrow> next_entry names (w'\<lparr>qw_queue := deactivate name (qw_queue w')\<rparr>))"

definition defect :: "codec \<Rightarrow> string \<Rightarrow> string \<Rightarrow> string + RawMessage" where
  "defect cd name b =
     (if length b > 1048576 then Inl ''entry exceeds 1 MiB''
      else case cd_unmarshal cd b of
        None \<Rightarrow> Inl ''invalid JSON''
      | Some raw \<Rightarrow> if rm_TenantID raw = [] \<or> rm_MessageID raw = [] \<or> queueName raw \<noteq> name then Inl ''identity checksum mismatch'' else Inr raw)"

definition quarantine :: "string \<Rightarrow> string \<Rightarrow> RawMessage option qop" where
  "quarantine name reason =
     qbind (lstat (name @ ''.corrupt'')) (\<lambda>f. case f of
       Some _ \<Rightarrow> qfail QCorruptExists
     | None \<Rightarrow> qbind (rename_file name (name @ ''.corrupt'')) (\<lambda>_.
         qbind (on_queue (deactivate name)) (\<lambda>_.
         qbind syncDirectory (\<lambda>_. qfail (QEntryQuarantined reason)))))"

definition Next :: "codec \<Rightarrow> RawMessage option qop" where
  "Next cd = guard_open (\<lambda>w. qbind (next_entry (qu_order (qw_queue w))) (\<lambda>found. case found of
     None \<Rightarrow> qret None
   | Some (name, f) \<Rightarrow>
       if \<not> qf_regular f then qfail QNotRegular
       else syscall QIO (case defect cd name (qf_data f) of
         Inl reason \<Rightarrow> quarantine name reason
       | Inr raw \<Rightarrow> qret (Some raw))) w)"

subsection \<open>Settling\<close>

definition drop_entry :: "string \<Rightarrow> int \<Rightarrow> unit qop" where
  "drop_entry name n = on_queue (\<lambda>q. (deactivate name q)\<lparr>qu_used := qu_used q - n, qu_items := qu_items q - 1\<rparr>)"

definition Ack :: "RawMessage \<Rightarrow> unit qop" where
  "Ack raw = guard_open (qbind (lstat (queueName raw)) (\<lambda>f. case f of
     None \<Rightarrow> qret ()
   | Some f \<Rightarrow> qbind (remove_file (queueName raw)) (\<lambda>_.
       qbind (drop_entry (queueName raw) (file_size f)) (\<lambda>_. syncDirectory))))"

definition Reject :: "RawMessage \<Rightarrow> unit qop" where
  "Reject raw = guard_open (qbind (rename_file (queueName raw) (queueName raw @ ''.rejected'')) (\<lambda>_.
     qbind (on_queue (deactivate (queueName raw))) (\<lambda>_. syncDirectory)))"

fun retry_entries :: "string list \<Rightarrow> unit qop" where
  "retry_entries [] = syncDirectory"
| "retry_entries (name # names) =
     (if has_suffix name ''.json.rejected'' then
        qbind (qtry (lstat (trim_suffix name ''.rejected''))) (\<lambda>r. case r of
          Inr (Some _) \<Rightarrow> qfail QActiveExists
        | _ \<Rightarrow> qbind (rename_file name (trim_suffix name ''.rejected'')) (\<lambda>_.
            qbind (on_queue (enqueue (trim_suffix name ''.rejected''))) (\<lambda>_. retry_entries names)))
      else retry_entries names)"

definition RetryRejected :: "unit qop" where
  "RetryRejected = guard_open (qbind readDir retry_entries)"

text \<open>The clean-up of matching entries counts what it removed and what it kept, also when it stops with an error.\<close>

definition plain_name :: "string \<Rightarrow> string" where
  "plain_name name = trim_suffix (trim_suffix name ''.rejected'') ''.corrupt''"

definition discards :: "codec \<Rightarrow> (RawMessage \<Rightarrow> bool) \<Rightarrow> string \<Rightarrow> string \<Rightarrow> bool" where
  "discards cd match name b = (case cd_unmarshal cd b of
     None \<Rightarrow> False
   | Some raw \<Rightarrow> rm_TenantID raw \<noteq> [] \<and> rm_MessageID raw \<noteq> [] \<and> queueName raw = plain_name name \<and> match raw)"

fun discard_entries :: "codec \<Rightarrow> (RawMessage \<Rightarrow> bool) \<Rightarrow> string list \<Rightarrow> int \<Rightarrow> int \<Rightarrow> qworld \<Rightarrow> (int \<times> int \<times> queue_error option) \<times> qworld" where
  "discard_entries cd match [] removed skipped w = ((removed, skipped, None), w)"
| "discard_entries cd match (name # names) removed skipped w =
     (case syscall QCancelled (qret ()) w of
        (Inl e, w) \<Rightarrow> ((removed, skipped, Some e), w)
      | (Inr _, w) \<Rightarrow>
        if \<not> queueEntry name then discard_entries cd match names removed skipped w
        else case lstat name w of
          (Inl e, w) \<Rightarrow> ((removed, skipped, Some e), w)
        | (Inr None, w) \<Rightarrow> ((removed, skipped, Some QNotExist), w)
        | (Inr (Some f), w) \<Rightarrow>
          if \<not> qf_regular f \<or> file_size f > 1048576 then discard_entries cd match names removed (skipped + 1) w
          else case readFile name w of
            (Inl e, w) \<Rightarrow> ((removed, skipped, Some e), w)
          | (Inr None, w) \<Rightarrow> ((removed, skipped, Some QNotExist), w)
          | (Inr (Some b), w) \<Rightarrow>
            if \<not> discards cd match name b then discard_entries cd match names removed (skipped + 1) w
            else case qbind (remove_file name) (\<lambda>_. drop_entry name (file_size f)) w of
              (Inl e, w) \<Rightarrow> ((removed, skipped, Some e), w)
            | (Inr _, w) \<Rightarrow> (case syncDirectory w of
                (Inl e, w) \<Rightarrow> ((removed + 1, skipped, Some e), w)
              | (Inr _, w) \<Rightarrow> discard_entries cd match names (removed + 1) skipped w))"

definition DiscardMatching :: "codec \<Rightarrow> (RawMessage \<Rightarrow> bool) option \<Rightarrow> qworld \<Rightarrow> (int \<times> int \<times> queue_error option) \<times> qworld" where
  "DiscardMatching cd match w =
     (if qu_closed (qw_queue w) then ((0, 0, Some QClosed), w)
      else case match of
        None \<Rightarrow> ((0, 0, Some QPredicate), w)
      | Some match \<Rightarrow> (case readDir w of
          (Inl e, w) \<Rightarrow> ((0, 0, Some e), w)
        | (Inr names, w) \<Rightarrow> discard_entries cd match names 0 0 w))"

definition Depth :: "qworld \<Rightarrow> nat" where
  "Depth w = card (qu_active (qw_queue w))"

text \<open>The counts read the directory and take an error for an empty one.\<close>

definition count_suffix :: "string \<Rightarrow> qworld \<Rightarrow> int \<times> qworld" where
  "count_suffix suffix w = (case readDir w of
     (Inl _, w) \<Rightarrow> (0, w) | (Inr names, w) \<Rightarrow> (int (length (filter (\<lambda>n. has_suffix n suffix) names)), w))"

definition Rejected :: "qworld \<Rightarrow> int \<times> qworld" where
  "Rejected = count_suffix ''.rejected''"

definition Corrupt :: "qworld \<Rightarrow> int \<times> qworld" where
  "Corrupt = count_suffix ''.corrupt''"

end
