(* ===== verification/Queue_Invariant.thy ===== *)
theory Queue_Invariant
  imports Durable_Queue
begin

text \<open>
  What the operations of the edge queue keep: the counters are the ones of the directory and the active names are its pending
  entries, whatever single file operation fails; the capacity is never exceeded by a message that is accepted.
\<close>


subsection \<open>The invariant\<close>

text \<open>The entries of the directory, weighted: their number and their bytes.\<close>

definition weight :: "(qfile \<Rightarrow> int) \<Rightarrow> (string \<rightharpoonup> qfile) \<Rightarrow> int" where
  "weight g m = (\<Sum>k \<in> {k \<in> dom m. queueEntry k}. g (the (m k)))"

lemma weight_put: "finite (dom m) \<Longrightarrow> m k = None \<Longrightarrow> weight g (m(k \<mapsto> f)) = weight g m + (if queueEntry k then g f else 0)"
proof -
  assume a: "finite (dom m)" "m k = None"
  have s: "{x \<in> dom (m(k \<mapsto> f)). queueEntry x} = (if queueEntry k then insert k {x \<in> dom m. queueEntry x} else {x \<in> dom m. queueEntry x})" by auto
  have "(\<Sum>x \<in> {x \<in> dom m. queueEntry x}. g (the ((m(k \<mapsto> f)) x))) = weight g m"
    unfolding weight_def by (rule sum.cong) (use a in auto)
  moreover have "finite {x \<in> dom m. queueEntry x}" "k \<notin> {x \<in> dom m. queueEntry x}" using a by auto
  ultimately show ?thesis unfolding weight_def [of g "m(k \<mapsto> f)"] s by (cases "queueEntry k") (simp_all only: if_True if_False sum.insert, simp_all)
qed

lemma weight_del: "finite (dom m) \<Longrightarrow> m k = Some f \<Longrightarrow> weight g (m(k := None)) = weight g m - (if queueEntry k then g f else 0)"
proof -
  assume a: "finite (dom m)" "m k = Some f"
  have "m = (m(k := None))(k \<mapsto> f)" using a(2) by auto
  then have "weight g m = weight g (m(k := None)) + (if queueEntry k then g f else 0)"
    using weight_put [of "m(k := None)" k g f] a(1) by simp
  then show ?thesis by simp
qed

lemma gm_get_fun: "gm_get (gm_put k v m) = (gm_get m)(k \<mapsto> v)" "gm_get (gm_del k m) = (gm_get m)(k := None)"
  by (auto simp: fun_eq_iff)

lemma finite_gm [simp]: "finite (dom (gm_get m))"
  by (simp add: gm_get_def [abs_def] finite_dom_map_of)

definition json_name :: "string \<Rightarrow> bool" where
  "json_name n \<longleftrightarrow> has_suffix n ''.json''"

definition jsons :: "(string \<rightharpoonup> qfile) \<Rightarrow> string set" where
  "jsons m = {n \<in> dom m. json_name n}"

definition apart :: "(string \<rightharpoonup> qfile) \<Rightarrow> bool" where
  "apart m \<longleftrightarrow> (\<forall>n \<in> jsons m. m (n @ ''.rejected'') = None)"

text \<open>
  The counters are those of the directory, the active names are the entries that are neither rejected nor corrupt, all of them
  are in the order, and no entry is active and rejected at once.
\<close>

definition q_inv :: "qworld \<Rightarrow> bool" where
  "q_inv w \<longleftrightarrow> qu_used (qw_queue w) = weight file_size (gm_get (qw_files w)) \<and> qu_items (qw_queue w) = weight (\<lambda>_. 1) (gm_get (qw_files w)) \<and>
     qu_active (qw_queue w) = jsons (gm_get (qw_files w)) \<and> jsons (gm_get (qw_files w)) \<subseteq> set (qu_order (qw_queue w)) \<and>
     apart (gm_get (qw_files w))"

text \<open>No two file operations in a row fail.\<close>

fun isolated :: "bool list \<Rightarrow> bool" where
  "isolated (a # b # bs) \<longleftrightarrow> \<not> (a \<and> b) \<and> isolated (b # bs)"
| "isolated _ \<longleftrightarrow> True"

lemma isolated_tl [simp]: "isolated bs \<Longrightarrow> isolated (tl bs)"
  by (induction bs rule: isolated.induct) auto

text \<open>The queue is within its capacity. A directory may hold more when it is opened, so this is asked for where \<open>c\<close> is set.\<close>

definition in_capacity :: "Queue \<Rightarrow> bool" where
  "in_capacity q \<longleftrightarrow> qu_items q \<le> qu_maxItems q \<and> qu_used q \<le> qu_maxBytes q"

definition q_ok :: "bool \<Rightarrow> qworld \<Rightarrow> bool" where
  "q_ok c w \<longleftrightarrow> q_inv w \<and> isolated (qw_faults w) \<and> (c \<longrightarrow> in_capacity (qw_queue w))"

definition failing :: "qworld \<Rightarrow> bool" where
  "failing w \<longleftrightarrow> (case qw_faults w of [] \<Rightarrow> False | b # _ \<Rightarrow> b)"

definition next_call :: "qworld \<Rightarrow> qworld" where
  "next_call w = w\<lparr>qw_faults := tl (qw_faults w)\<rparr>"

lemma syscall_eq: "syscall e m w = (if failing w then (Inl e, next_call w) else m (next_call w))"
proof (cases "qw_faults w")
  case Nil
  then have "next_call w = w" by (cases w) (simp add: next_call_def)
  with Nil show ?thesis by (simp add: syscall_def failing_def)
qed (simp add: syscall_def failing_def next_call_def)

lemma next_call_fields [simp]:
  "qw_queue (next_call w) = qw_queue w" "qw_files (next_call w) = qw_files w" "qw_clock (next_call w) = qw_clock w"
  "q_inv (next_call w) = q_inv w"
  by (simp_all add: next_call_def q_inv_def)

lemma next_call_ok [simp]: "q_ok c w \<Longrightarrow> q_ok c (next_call w)"
  unfolding q_ok_def by (simp add: next_call_def [of w, THEN arg_cong [where f = qw_faults]])

lemma not_failing_twice: "isolated (qw_faults w) \<Longrightarrow> failing w \<Longrightarrow> \<not> failing (next_call w)"
  by (cases "qw_faults w" rule: isolated.cases) (auto simp: failing_def next_call_def)

lemma next_call_faults [simp]: "qw_faults (next_call w) = tl (qw_faults w)"
  by (simp add: next_call_def)

lemma q_inv_cong: "qw_queue w' = qw_queue w \<Longrightarrow> qw_files w' = qw_files w \<Longrightarrow> q_inv w' = q_inv w"
  by (simp add: q_inv_def)

subsection \<open>Names\<close>

lemma suffix_names [simp]:
  "json_name (n @ ''.json'')" "\<not> json_name (n @ ''.rejected'')" "\<not> json_name (n @ ''.corrupt'')"
  "queueEntry (n @ ''.rejected'')" "queueEntry (n @ ''.corrupt'')" "json_name n \<Longrightarrow> queueEntry n"
  by (auto simp: json_name_def queueEntry_def has_suffix_def)

lemma queueName_json [simp]: "json_name (queueName raw)"
  by (simp add: queueName_def)

subsection \<open>Steps of an operation\<close>

text \<open>
  \<open>triple c R m Q\<close>: from a state of the invariant in which \<open>R\<close> holds, the operation ends in a state of the invariant, with
  \<open>Q\<close> of its result unless it fails.
\<close>

definition triple :: "bool \<Rightarrow> (qworld \<Rightarrow> bool) \<Rightarrow> 'a qop \<Rightarrow> ('a \<Rightarrow> qworld \<Rightarrow> bool) \<Rightarrow> bool" where
  "triple c R m Q \<longleftrightarrow> (\<forall>w. q_ok c w \<and> R w \<longrightarrow> (case m w of (Inl e, w') \<Rightarrow> q_ok c w' | (Inr x, w') \<Rightarrow> q_ok c w' \<and> Q x w'))"

definition calm :: "(qworld \<Rightarrow> bool) \<Rightarrow> bool" where
  "calm R \<longleftrightarrow> (\<forall>w bs. R (w\<lparr>qw_faults := bs\<rparr>) = R w)"

lemma calm_next: "calm R \<Longrightarrow> R (next_call w) = R w"
  by (simp add: calm_def next_call_def)

lemma calm_rules [simp]:
  "calm (\<lambda>_. b)" "calm (\<lambda>w. P (qw_files w))" "calm R \<Longrightarrow> calm S \<Longrightarrow> calm (\<lambda>w. R w \<and> S w)"
  by (simp_all add: calm_def)

lemma tripleD:
  "triple c R m Q \<Longrightarrow> q_ok c w \<Longrightarrow> R w \<Longrightarrow> m w = (Inl e, w') \<Longrightarrow> q_ok c w'"
  "triple c R m Q \<Longrightarrow> q_ok c w \<Longrightarrow> R w \<Longrightarrow> m w = (Inr x, w') \<Longrightarrow> q_ok c w' \<and> Q x w'"
  by (auto simp: triple_def)

lemma tripleI:
  assumes fail: "\<And>w e w'. q_ok c w \<Longrightarrow> R w \<Longrightarrow> m w = (Inl e, w') \<Longrightarrow> q_ok c w'"
    and ok: "\<And>w x w'. q_ok c w \<Longrightarrow> R w \<Longrightarrow> m w = (Inr x, w') \<Longrightarrow> q_ok c w' \<and> Q x w'"
  shows "triple c R m Q"
  unfolding triple_def
proof (intro allI impI)
  fix w assume w: "q_ok c w \<and> R w"
  obtain r w' where r: "m w = (r, w')" by (cases "m w")
  show "case m w of (Inl e, w') \<Rightarrow> q_ok c w' | (Inr x, w') \<Rightarrow> q_ok c w' \<and> Q x w'"
  proof (cases r)
    case (Inl e)
    then show ?thesis using fail [of w e w'] w r by simp
  next
    case (Inr x)
    then show ?thesis using ok [of w x w'] w r by simp
  qed
qed

lemma triple_bind:
  assumes "triple c R m Q" "\<And>x. triple c (Q x) (f x) S"
  shows "triple c R (qbind m f) S"
proof (rule tripleI)
  fix w e w' assume w: "q_ok c w" "R w" and r: "qbind m f w = (Inl e, w')"
  obtain a w1 where a: "m w = (a, w1)" by (cases "m w")
  show "q_ok c w'"
  proof (cases a)
    case (Inl e')
    then show ?thesis using tripleD(1) [OF assms(1) w] a r by (simp add: qbind_def)
  next
    case (Inr x)
    then have "q_ok c w1" "Q x w1" using tripleD(2) [OF assms(1) w] a by auto
    then show ?thesis using tripleD(1) [OF assms(2)] Inr a r by (simp add: qbind_def)
  qed
next
  fix w y w' assume w: "q_ok c w" "R w" and r: "qbind m f w = (Inr y, w')"
  obtain x w1 where a: "m w = (Inr x, w1)" using r by (auto simp: qbind_def split: prod.splits sum.splits)
  then have "q_ok c w1" "Q x w1" using tripleD(2) [OF assms(1) w] by auto
  then show "q_ok c w' \<and> S y w'" using tripleD(2) [OF assms(2)] a r by (simp add: qbind_def)
qed

lemma triple_ret: "(\<And>w. R w \<Longrightarrow> Q x w) \<Longrightarrow> triple c R (qret x) Q"
  by (simp add: triple_def qret_def)

lemma triple_fail [simp]: "triple c R (qfail e) Q"
  by (simp add: triple_def qfail_def)

lemma triple_pre: "triple c R m Q \<Longrightarrow> (\<And>w. R' w \<Longrightarrow> R w) \<Longrightarrow> triple c R' m Q"
  by (simp add: triple_def)

lemma triple_post: "triple c R m Q \<Longrightarrow> (\<And>x w. Q x w \<Longrightarrow> Q' x w) \<Longrightarrow> triple c R m Q'"
  by (rule tripleI) (auto dest: tripleD)

lemma triple_syscall: "calm R \<Longrightarrow> triple c R m Q \<Longrightarrow> triple c R (syscall e m) Q"
  by (auto simp: triple_def syscall_eq calm_next)

lemma triple_sync [simp]: "triple c R syncDirectory (\<lambda>_ _. True)"
  by (auto simp: triple_def syncDirectory_def syscall_eq qret_def)

lemma triple_lstat: "calm R \<Longrightarrow> triple c R (lstat n) (\<lambda>f w. R w \<and> gm_get (qw_files w) n = f)"
  by (auto simp: triple_def lstat_def syscall_eq calm_next)

lemma triple_try_lstat: "calm R \<Longrightarrow> triple c R (qtry (lstat n)) (\<lambda>r w. R w \<and> (case r of Inl e \<Rightarrow> True | Inr f \<Rightarrow> gm_get (qw_files w) n = f))"
  by (auto simp: triple_def qtry_def lstat_def syscall_eq calm_next)

lemma triple_readFile: "calm R \<Longrightarrow> triple c R (readFile n) (\<lambda>b w. R w \<and> (b = None \<longrightarrow> gm_get (qw_files w) n = None))"
  unfolding readFile_def
  by (rule triple_bind [OF triple_lstat]) (auto simp: triple_def qret_def qfail_def split: option.splits)

lemma triple_readDir:
  assumes "calm R"
  shows "triple c R readDir (\<lambda>ns w. R w \<and> set ns = dom (gm_get (qw_files w)))"
proof -
  have "dom (gm_get m) = fst ` set m" for m :: "qfile gomap" unfolding gm_get_def [abs_def] by (rule dom_map_of_conv_image_fst)
  then show ?thesis using assms by (simp add: triple_def readDir_def syscall_eq calm_next)
qed

lemma triple_guard: "triple c R m Q \<Longrightarrow> triple c R (guard_open m) Q"
  by (auto simp: triple_def guard_open_def)

lemma q_okI: "q_inv w' \<Longrightarrow> qw_faults w' = qw_faults w \<Longrightarrow> qw_queue w' = qw_queue w \<Longrightarrow> q_ok c w \<Longrightarrow> q_ok c w'"
  by (simp add: q_ok_def)

subsection \<open>Changes of the directory\<close>

lemma in_capacity_simps [simp]:
  "in_capacity (deactivate n q) = in_capacity q" "in_capacity (enqueue n q) = in_capacity q"
  "in_capacity ((deactivate n q)\<lparr>qu_used := u, qu_items := i\<rparr>) = in_capacity (q\<lparr>qu_used := u, qu_items := i\<rparr>)"
  by (simp_all add: in_capacity_def deactivate_def enqueue_def)

lemma in_capacity_drop: "in_capacity q \<Longrightarrow> in_capacity (q\<lparr>qu_used := qu_used q - file_size f, qu_items := qu_items q - 1\<rparr>)"
  by (simp add: in_capacity_def file_size_def)

definition room :: "string \<Rightarrow> Queue \<Rightarrow> bool" where
  "room b q \<longleftrightarrow> qu_items q < qu_maxItems q \<and> qu_used q + int (length b) \<le> qu_maxBytes q"

lemma in_capacity_store: "room b q \<Longrightarrow> qf_data f = b \<Longrightarrow> in_capacity (q\<lparr>qu_used := qu_used q + file_size f, qu_items := qu_items q + 1\<rparr>)"
  by (simp add: in_capacity_def room_def file_size_def)

lemma jsons_simps:
  "jsons (m(n \<mapsto> f)) = (if json_name n then insert n (jsons m) else jsons m)" "jsons (m(n := None)) = jsons m - {n}"
  by (auto simp: jsons_def)

lemma not_rejected: "json_name n \<Longrightarrow> m @ ''.rejected'' \<noteq> n"
  using suffix_names(2) by metis

lemma apart_store: "apart m \<Longrightarrow> json_name n \<Longrightarrow> m (n @ ''.rejected'') = None \<Longrightarrow> apart (m(n \<mapsto> f))"
  by (auto simp: apart_def jsons_simps not_rejected)

lemma apart_del: "apart m \<Longrightarrow> apart (m(n := None))"
  by (auto simp: apart_def jsons_simps)

lemma apart_side: "apart m \<Longrightarrow> \<not> json_name b \<Longrightarrow> (\<And>x. b = x @ ''.rejected'' \<Longrightarrow> x \<notin> jsons m) \<Longrightarrow> apart (m(b \<mapsto> f))"
  by (auto simp: apart_def jsons_simps)

lemma inv_store:
  assumes "q_inv w" "gm_get (qw_files w) n = None" "gm_get (qw_files w) (n @ ''.rejected'') = None" "json_name n"
  shows "q_inv (w\<lparr>qw_files := gm_put n f (qw_files w),
    qw_queue := enqueue n ((qw_queue w)\<lparr>qu_used := qu_used (qw_queue w) + file_size f, qu_items := qu_items (qw_queue w) + 1\<rparr>)\<rparr>)"
proof -
  have "n \<notin> jsons (gm_get (qw_files w))" using assms(2) by (auto simp: jsons_def)
  then show ?thesis using assms
    by (auto simp: q_inv_def gm_get_fun enqueue_def weight_put jsons_simps apart_store simp del: gm_get_put)
qed

lemma inv_drop:
  assumes "q_inv w" "gm_get (qw_files w) n = Some f" "queueEntry n"
  shows "q_inv (w\<lparr>qw_files := gm_del n (qw_files w),
    qw_queue := (deactivate n (qw_queue w))\<lparr>qu_used := qu_used (qw_queue w) - file_size f, qu_items := qu_items (qw_queue w) - 1\<rparr>\<rparr>)"
  using assms by (auto simp: q_inv_def gm_get_fun deactivate_def weight_del jsons_simps apart_del simp del: gm_get_del)

text \<open>A rename inside the directory moves an entry to a free name.\<close>

lemma weight_rename:
  assumes "gm_get m a = Some f" "gm_get m b = None" "queueEntry a" "queueEntry b"
  shows "weight g ((gm_get m)(a := None, b \<mapsto> f)) = weight g (gm_get m)"
proof -
  have "weight g ((gm_get m)(a := None)) = weight g (gm_get m) - g f" using weight_del [of "gm_get m" a f g] assms by simp
  moreover have "weight g (((gm_get m)(a := None))(b \<mapsto> f)) = weight g ((gm_get m)(a := None)) + g f"
    using weight_put [of "(gm_get m)(a := None)" b g f] assms by simp
  ultimately show ?thesis by simp
qed

lemma inv_settle:
  assumes inv: "q_inv w" and n: "gm_get (qw_files w) n = Some f" "json_name n" and b: "gm_get (qw_files w) b = None"
    and s: "b = n @ ''.rejected'' \<or> b = n @ ''.corrupt''"
  shows "q_inv (w\<lparr>qw_files := gm_put b f (gm_del n (qw_files w)), qw_queue := deactivate n (qw_queue w)\<rparr>)"
proof -
  have e: "\<not> json_name b" "queueEntry b" using s by auto
  have t: "weight g ((gm_get (qw_files w))(n := None, b \<mapsto> f)) = weight g (gm_get (qw_files w))" for g
    using n b e by (intro weight_rename) auto
  have "apart ((gm_get (qw_files w))(n := None, b \<mapsto> f))"
    using inv e s by (intro apart_side apart_del) (auto simp: q_inv_def jsons_simps)
  then show ?thesis using inv e by (auto simp: q_inv_def gm_get_fun t deactivate_def jsons_simps simp del: gm_get_put gm_get_del)
qed

lemma inv_retry:
  assumes inv: "q_inv w" and n: "gm_get (qw_files w) (n @ ''.rejected'') = Some f" "json_name n" "gm_get (qw_files w) n = None"
  shows "q_inv (w\<lparr>qw_files := gm_put n f (gm_del (n @ ''.rejected'') (qw_files w)), qw_queue := enqueue n (qw_queue w)\<rparr>)"
proof -
  have t: "weight g ((gm_get (qw_files w))(n @ ''.rejected'' := None, n \<mapsto> f)) = weight g (gm_get (qw_files w))" for g
    using n by (intro weight_rename) auto
  have a: "apart ((gm_get (qw_files w))(n @ ''.rejected'' := None, n \<mapsto> f))"
    using inv n(2) by (intro apart_store apart_del) (auto simp: q_inv_def)
  have "n \<notin> jsons (gm_get (qw_files w))" "n @ ''.rejected'' \<notin> jsons (gm_get (qw_files w))" using n(3) by (auto simp: jsons_def)
  then show ?thesis using inv a n(2)
    by (auto simp: q_inv_def gm_get_fun t enqueue_def jsons_simps simp del: gm_get_put gm_get_del)
qed

subsection \<open>Storing\<close>

lemma triple_stamped: "triple c (\<lambda>_. True) (stamped cd raw stamp) (\<lambda>_ _. True)"
proof (cases stamp)
  case True
  have "triple c (\<lambda>_. True) (qbind (readFile (queueName raw)) f) (\<lambda>_ _. True)" if "\<And>old. triple c (\<lambda>_. True) (f old) (\<lambda>_ _. True)" for f :: "string option \<Rightarrow> RawMessage qop"
    by (rule triple_bind [OF triple_readFile [OF calm_rules(1)]]) (rule triple_pre [OF that], simp)
  with True show ?thesis
    by (auto simp: stamped_def triple_def qret_def qfail_def split: option.splits)
qed (simp add: stamped_def triple_ret)

lemma triple_check_absent:
  "calm R \<Longrightarrow> triple c R (check_absent t ss) (\<lambda>_ w. R w \<and> (\<forall>s \<in> set ss. gm_get (qw_files w) (t @ s) = None))"
proof (induction ss arbitrary: R)
  case (Cons s ss)
  let ?R = "\<lambda>w. R w \<and> gm_get (qw_files w) (t @ s) = None"
  have "calm ?R" using Cons.prems by (simp add: calm_def)
  from Cons.IH [OF this] show ?case
    by (auto intro!: triple_bind [OF triple_lstat [OF Cons.prems]] elim!: triple_pre triple_post [OF triple_pre] split: option.splits)
qed (auto intro: triple_ret)

definition new_entry :: "string \<Rightarrow> string \<Rightarrow> qworld \<Rightarrow> qfile" where
  "new_entry t b w = \<lparr>qf_data = b, qf_time = qw_clock w, qf_regular = True\<rparr>"

lemma store_entry_cases:
  assumes "isolated (qw_faults w)" "gm_get (qw_files w) t = None" "store_entry t b w = (r, w')"
  shows "\<exists>n. qw_faults w' = (tl ^^ n) (qw_faults w) \<and>
    (qw_files w' = qw_files w \<and> qw_queue w' = qw_queue w \<or>
     qw_files w' = gm_put t (new_entry t b w) (qw_files w) \<and>
     qw_queue w' = enqueue t ((qw_queue w)\<lparr>qu_used := qu_used (qw_queue w) + file_size (new_entry t b w), qu_items := qu_items (qw_queue w) + 1\<rparr>))"
proof -
  let ?w1 = "next_call w" and ?w2 = "(next_call w)\<lparr>qw_files := gm_put t (new_entry t b w) (qw_files w)\<rparr>"
  note d = store_entry_def qbind_def qtry_def atomicFile_def syncDirectory_def lstat_def syscall_eq qret_def qfail_def count_entry_def on_queue_def new_entry_def file_size_def
  show ?thesis
  proof (cases "failing w")
    case True
    with not_failing_twice [OF assms(1)] have "\<not> failing ?w1" by simp
    with True assms(2,3) have "w' = next_call ?w1" by (auto simp: d)
    then show ?thesis by (intro exI [of _ 2]) (simp add: numeral_2_eq_2)
  next
    case False
    show ?thesis
    proof (cases "failing ?w2")
      case True
      have "isolated (qw_faults ?w2)" using assms(1) by simp
      with not_failing_twice True have "\<not> failing (next_call ?w2)" by simp
      with False True assms(2,3) show ?thesis by (intro exI [of _ 3]) (auto simp: d numeral_3_eq_3)
    next
      case False
      with \<open>\<not> failing w\<close> assms(3) show ?thesis by (intro exI [of _ 2]) (auto simp: d numeral_2_eq_2)
    qed
  qed
qed

lemma isolated_tls: "isolated bs \<Longrightarrow> isolated ((tl ^^ n) bs)"
  by (induction n) simp_all

lemma triple_store:
  assumes "json_name t"
  shows "triple c (\<lambda>w. gm_get (qw_files w) (t @ ''.rejected'') = None \<and> gm_get (qw_files w) t = None \<and> room b (qw_queue w)) (store_entry t b) (\<lambda>_ _. True)"
proof -
  have "q_ok c w'" if w: "q_ok c w" "gm_get (qw_files w) (t @ ''.rejected'') = None \<and> gm_get (qw_files w) t = None \<and> room b (qw_queue w)"
    and r: "store_entry t b w = (r, w')" for w r w'
  proof -
    have i: "q_inv w" "isolated (qw_faults w)" using w(1) by (auto simp: q_ok_def)
    let ?f = "new_entry t b w"
    have "q_inv (w\<lparr>qw_files := gm_put t ?f (qw_files w),
      qw_queue := enqueue t ((qw_queue w)\<lparr>qu_used := qu_used (qw_queue w) + file_size ?f, qu_items := qu_items (qw_queue w) + 1\<rparr>)\<rparr>)"
      using w(2) assms by (intro inv_store i(1)) auto
    moreover have "in_capacity ((qw_queue w)\<lparr>qu_used := qu_used (qw_queue w) + file_size ?f, qu_items := qu_items (qw_queue w) + 1\<rparr>)"
      using w(2) by (intro in_capacity_store [of b]) (simp_all add: new_entry_def)
    ultimately show ?thesis using w i store_entry_cases [OF i(2) _ r]
      by (fastforce simp: q_ok_def isolated_tls q_inv_def)
  qed
  then show ?thesis by (intro tripleI) auto
qed


lemma triple_put: "triple c (\<lambda>_. True) (put cd raw stamp) (\<lambda>_ _. True)"
proof (cases "rm_TenantID raw = [] \<or> rm_MessageID raw = []")
  case False
  have store: "triple c (\<lambda>w. gm_get (qw_files w) (queueName raw @ ''.rejected'') = None)
    (qbind (readFile (queueName raw)) (\<lambda>old. case old of
      Some old \<Rightarrow> if old \<noteq> b then qfail QConflict else syncDirectory
    | None \<Rightarrow> (\<lambda>w. if qu_items (qw_queue w) \<ge> qu_maxItems (qw_queue w) \<or> qu_used (qw_queue w) + int (length b) > qu_maxBytes (qw_queue w)
        then (Inl QFull, w) else store_entry (queueName raw) b w))) (\<lambda>_ _. True)" for raw b
  proof (rule triple_bind [OF triple_readFile], goal_cases)
    case (2 old)
    have "triple c R (\<lambda>w. if qu_items (qw_queue w) \<ge> qu_maxItems (qw_queue w) \<or> qu_used (qw_queue w) + int (length b) > qu_maxBytes (qw_queue w)
        then (Inl QFull, w) else m w) Q" if "triple c (\<lambda>w. R w \<and> room b (qw_queue w)) m Q" for R Q and m :: "unit qop"
      using that by (auto simp: triple_def room_def)
    from this [OF triple_pre [OF triple_store [OF queueName_json]]]
    show ?case by (cases old) (auto elim: triple_pre)
  qed (simp add: calm_def)
  have "triple c (\<lambda>_. True) (case cd_marshal cd raw of
        None \<Rightarrow> qfail QMarshal
      | Some b \<Rightarrow>
          if length b > 1048576 then qfail QTooLarge
          else qbind (check_absent (queueName raw) [''.rejected'', ''.corrupt'']) (\<lambda>_.
            qbind (readFile (queueName raw)) (\<lambda>old. case old of
              Some old \<Rightarrow> if old \<noteq> b then qfail QConflict else syncDirectory
            | None \<Rightarrow> (\<lambda>w.
                if qu_items (qw_queue w) \<ge> qu_maxItems (qw_queue w) \<or> qu_used (qw_queue w) + int (length b) > qu_maxBytes (qw_queue w)
                then (Inl QFull, w) else store_entry (queueName raw) b w)))) (\<lambda>_ _. True)" for raw
  proof (cases "cd_marshal cd raw")
    case (Some b)
    show ?thesis unfolding Some option.case
      by (cases "length b > 1048576") (simp_all only: if_True if_False triple_fail,
        intro triple_bind [OF triple_check_absent [OF calm_rules(1)]] triple_pre [OF store], simp)
  qed simp
  with False show ?thesis unfolding put_def if_not_P [OF False]
    by (intro triple_guard triple_bind [OF triple_stamped])
qed (simp add: put_def)

subsection \<open>Serving and settling\<close>

lemma triple_settle:
  assumes "json_name n" "b = n @ ''.rejected'' \<or> b = n @ ''.corrupt''"
  shows "triple c (\<lambda>w. b = n @ ''.corrupt'' \<longrightarrow> gm_get (qw_files w) b = None) (qbind (rename_file n b) (\<lambda>_. on_queue (deactivate n))) (\<lambda>_ _. True)"
proof -
  have "q_ok c w'" if w: "q_ok c w" "b = n @ ''.corrupt'' \<longrightarrow> gm_get (qw_files w) b = None"
    and r: "qbind (rename_file n b) (\<lambda>_. on_queue (deactivate n)) w = (r, w')" for w r w'
  proof (cases "failing w \<or> gm_get (qw_files w) n = None")
    case True
    then show ?thesis using r w by (auto simp: qbind_def rename_file_def syscall_eq split: option.splits if_splits)
  next
    case False
    then obtain f where f: "gm_get (qw_files w) n = Some f" by auto
    have inv: "q_inv (next_call w)" "apart (gm_get (qw_files w))" using w(1) by (auto simp: q_ok_def q_inv_def)
    have "gm_get (qw_files w) b = None"
      using assms w(2) inv(2) f by (auto simp: apart_def jsons_def)
    with inv_settle [OF inv(1), of n f b] f assms
    have "q_inv ((next_call w)\<lparr>qw_files := gm_put b f (gm_del n (qw_files w)), qw_queue := deactivate n (qw_queue w)\<rparr>)" by simp
    moreover have "w' = (next_call w)\<lparr>qw_files := gm_put b f (gm_del n (qw_files w)), qw_queue := deactivate n (qw_queue w)\<rparr>"
      using r f False by (auto simp: qbind_def rename_file_def syscall_eq on_queue_def)
    ultimately show ?thesis using w(1) by (simp add: q_ok_def)
  qed
  then show ?thesis by (intro tripleI) auto
qed

lemma qbind_assoc: "qbind (qbind m f) g = qbind m (\<lambda>x. qbind (f x) g)"
  by (auto simp: qbind_def fun_eq_iff split: prod.splits sum.splits)

lemma triple_Reject: "triple c (\<lambda>_. True) (Reject raw) (\<lambda>_ _. True)"
  unfolding Reject_def qbind_assoc [symmetric]
  by (intro triple_guard triple_bind [OF triple_pre [OF triple_settle]]) auto

lemma triple_quarantine:
  assumes "json_name n"
  shows "triple c (\<lambda>_. True) (quarantine n reason) (\<lambda>_ _. True)"
proof -
  have s: "triple c (\<lambda>w. gm_get (qw_files w) (n @ ''.corrupt'') = None) (qbind (rename_file n (n @ ''.corrupt'')) (\<lambda>_.
         qbind (on_queue (deactivate n)) (\<lambda>_. qbind syncDirectory (\<lambda>_. qfail (QEntryQuarantined reason))))) Q" for Q :: "RawMessage option \<Rightarrow> qworld \<Rightarrow> bool"
    unfolding qbind_assoc [symmetric]
    by (intro triple_bind [where Q = "\<lambda>_ _. True"] triple_pre [OF triple_settle [OF assms]]) (auto intro: triple_pre)
  show ?thesis unfolding quarantine_def
    by (rule triple_bind [OF triple_lstat [OF calm_rules(1)]]) (auto intro: triple_pre [OF s] split: option.splits)
qed

lemma triple_drop:
  assumes "queueEntry n"
  shows "triple c (\<lambda>w. gm_get (qw_files w) n = Some f) (qbind (remove_file n) (\<lambda>_. drop_entry n (file_size f))) (\<lambda>_ _. True)"
proof -
  have "q_ok c w'" if w: "q_ok c w" "gm_get (qw_files w) n = Some f"
    and r: "qbind (remove_file n) (\<lambda>_. drop_entry n (file_size f)) w = (r, w')" for w r w'
  proof (cases "failing w")
    case True
    then show ?thesis using r w by (auto simp: qbind_def remove_file_def syscall_eq)
  next
    case False
    have "q_inv (next_call w)" using w(1) by (simp add: q_ok_def)
    from inv_drop [OF this, of n f] w(2) assms
    have "q_inv ((next_call w)\<lparr>qw_files := gm_del n (qw_files w),
      qw_queue := (deactivate n (qw_queue w))\<lparr>qu_used := qu_used (qw_queue w) - file_size f, qu_items := qu_items (qw_queue w) - 1\<rparr>\<rparr>)" by simp
    moreover have "w' = (next_call w)\<lparr>qw_files := gm_del n (qw_files w),
      qw_queue := (deactivate n (qw_queue w))\<lparr>qu_used := qu_used (qw_queue w) - file_size f, qu_items := qu_items (qw_queue w) - 1\<rparr>\<rparr>"
      using r False by (auto simp: qbind_def remove_file_def syscall_eq on_queue_def drop_entry_def)
    ultimately show ?thesis using w(1) by (simp add: q_ok_def in_capacity_drop)
  qed
  then show ?thesis by (intro tripleI) auto
qed

lemma triple_Ack: "triple c (\<lambda>_. True) (Ack raw) (\<lambda>_ _. True)"
proof -
  have e: "queueEntry (queueName raw)" by (simp add: suffix_names(6))
  have s: "triple c (\<lambda>w. gm_get (qw_files w) (queueName raw) = Some f) (qbind (remove_file (queueName raw)) (\<lambda>_.
       qbind (drop_entry (queueName raw) (file_size f)) (\<lambda>_. syncDirectory))) (\<lambda>_ _. True)" for f
    unfolding qbind_assoc [symmetric] by (intro triple_bind [OF triple_drop [OF e]]) auto
  show ?thesis unfolding Ack_def
    by (intro triple_guard triple_bind [OF triple_lstat [OF calm_rules(1)]]) (auto intro: triple_ret triple_pre [OF s] split: option.splits)
qed


lemma set_order_simps [simp]:
  "qw_files (set_order ns w) = qw_files w" "qw_faults (set_order ns w) = qw_faults w" "set_order ns (next_call w) = next_call (set_order ns w)"
  "set_order (qu_order (qw_queue w)) w = w" "in_capacity (qw_queue (set_order ns w)) = in_capacity (qw_queue w)" "qu_active (qw_queue (set_order ns w)) = qu_active (qw_queue w)"
  by (simp_all add: set_order_def next_call_def in_capacity_def)

lemma set_order_inv: "q_inv (set_order ns w) \<longleftrightarrow> q_inv (set_order ns' w)"
  if "jsons (gm_get (qw_files w)) \<subseteq> set ns" "jsons (gm_get (qw_files w)) \<subseteq> set ns'" for ns ns'
  using that by (auto simp: q_inv_def set_order_def)

lemma next_entry_ok:
  "q_ok c (set_order ns w) \<Longrightarrow> next_entry ns w = (r, w') \<Longrightarrow>
    q_ok c w' \<and> (\<forall>n f. r = Inr (Some (n, f)) \<longrightarrow> json_name n \<and> gm_get (qw_files w') n = Some f)"
proof (induction ns arbitrary: w)
  case (Cons n ns)
  have act: "qu_active (qw_queue w) = jsons (gm_get (qw_files w))" "jsons (gm_get (qw_files w)) \<subseteq> set (n # ns)"
    using Cons.prems(1) by (auto simp: q_ok_def q_inv_def set_order_def)
  show ?case
  proof (cases "n \<in> qu_active (qw_queue w)")
    case False
    then have "q_ok c (set_order ns w)" using Cons.prems(1) act set_order_inv [of w "n # ns" ns] by (auto simp: q_ok_def)
    from Cons.IH [OF this] show ?thesis using Cons.prems(2) False by simp
  next
    case True
    then obtain f where f: "gm_get (qw_files w) n = Some f" "json_name n" using act(1) by (auto simp: jsons_def)
    show ?thesis using Cons.prems True f by (cases "failing w") (auto simp: lstat_def syscall_eq)
  qed
qed auto

lemma triple_next_entry:
  "triple c (\<lambda>w. True) (\<lambda>w. next_entry (qu_order (qw_queue w)) w) (\<lambda>r w. \<forall>n f. r = Some (n, f) \<longrightarrow> json_name n \<and> gm_get (qw_files w) n = Some f)"
proof -
  have "q_ok c w' \<and> (\<forall>x. r = Inr x \<longrightarrow> (\<forall>n f. x = Some (n, f) \<longrightarrow> json_name n \<and> gm_get (qw_files w') n = Some f))"
    if w: "q_ok c w" and r: "next_entry (qu_order (qw_queue w)) w = (r, w')" for w r w'
  proof -
    have "q_ok c (set_order (qu_order (qw_queue w)) w)" using w by simp
    from next_entry_ok [OF this r] show ?thesis by auto
  qed
  then show ?thesis by (intro tripleI) auto
qed

lemma triple_Next: "triple c (\<lambda>_. True) (Next cd) (\<lambda>_ _. True)"
proof -
  have eq: "(\<lambda>w. qbind (next_entry (qu_order (qw_queue w))) g w) = qbind (\<lambda>w. next_entry (qu_order (qw_queue w)) w) g" for g :: "(string \<times> qfile) option \<Rightarrow> RawMessage option qop"
    by (simp add: qbind_def)
  have q: "triple c (\<lambda>_. True) (syscall QIO (case defect cd n b of Inl reason \<Rightarrow> quarantine n reason | Inr raw \<Rightarrow> qret (Some raw))) (\<lambda>_ _. True)"
    if "json_name n" for n b
    using triple_quarantine [OF that] by (intro triple_syscall) (auto intro: triple_ret split: sum.splits)
  show ?thesis unfolding Next_def eq
  proof (intro triple_guard triple_bind [OF triple_next_entry], goal_cases)
    case (1 r)
    show ?case
    proof (cases r)
      case (Some e)
      obtain n f where e: "e = (n, f)" by (cases e)
      show ?thesis
      proof (cases "json_name n")
        case True
        show ?thesis unfolding Some e option.case prod.case
          by (cases "qf_regular f") (simp_all only: not_True_eq_False not_False_eq_True if_True if_False triple_fail, rule triple_pre [OF q [OF True]], simp)
      next
        case False
        then show ?thesis unfolding Some e by (simp add: triple_def)
      qed
    qed (simp add: triple_ret)
  qed
qed

lemma rejected_name: "has_suffix n ''.json.rejected'' \<Longrightarrow> \<exists>u. n = (u @ ''.json'') @ ''.rejected'' \<and> trim_suffix n ''.rejected'' = u @ ''.json''"
proof (elim has_suffixE)
  fix u assume "n = u @ ''.json.rejected''"
  then have "n = (u @ ''.json'') @ ''.rejected''" by simp
  with trim_suffix_append show ?thesis by blast
qed

lemma triple_requeue:
  assumes "json_name n"
  shows "triple c (\<lambda>_. True) (qbind (rename_file (n @ ''.rejected'') n) (\<lambda>_. on_queue (enqueue n))) (\<lambda>_ _. True)"
proof -
  have "q_ok c w'" if w: "q_ok c w" and r: "qbind (rename_file (n @ ''.rejected'') n) (\<lambda>_. on_queue (enqueue n)) w = (r, w')" for w r w'
  proof (cases "failing w \<or> gm_get (qw_files w) (n @ ''.rejected'') = None")
    case True
    then show ?thesis using r w by (auto simp: qbind_def rename_file_def syscall_eq split: option.splits if_splits)
  next
    case False
    then obtain f where f: "gm_get (qw_files w) (n @ ''.rejected'') = Some f" by auto
    have inv: "q_inv (next_call w)" "apart (gm_get (qw_files w))" using w(1) by (auto simp: q_ok_def q_inv_def)
    then have "gm_get (qw_files w) n = None" using f assms by (cases "gm_get (qw_files w) n") (auto simp: apart_def jsons_def)
    with inv_retry [OF inv(1), of n f] f assms
    have "q_inv ((next_call w)\<lparr>qw_files := gm_put n f (gm_del (n @ ''.rejected'') (qw_files w)), qw_queue := enqueue n (qw_queue w)\<rparr>)" by simp
    moreover have "w' = (next_call w)\<lparr>qw_files := gm_put n f (gm_del (n @ ''.rejected'') (qw_files w)), qw_queue := enqueue n (qw_queue w)\<rparr>"
      using r f False by (auto simp: qbind_def rename_file_def syscall_eq on_queue_def)
    ultimately show ?thesis using w(1) by (simp add: q_ok_def)
  qed
  then show ?thesis by (intro tripleI) auto
qed

lemma triple_retry_entries: "triple c (\<lambda>_. True) (retry_entries ns) (\<lambda>_ _. True)"
proof (induction ns)
  case (Cons n ns)
  show ?case
  proof (cases "has_suffix n ''.json.rejected''")
    case True
    from rejected_name [OF True] obtain u where u: "n = (u @ ''.json'') @ ''.rejected''" "trim_suffix n ''.rejected'' = u @ ''.json''" by blast
    have j: "json_name (u @ ''.json'')" by simp
    have "triple c (\<lambda>_. True) (qbind (rename_file n (u @ ''.json'')) (\<lambda>_. qbind (on_queue (enqueue (u @ ''.json''))) (\<lambda>_. retry_entries ns))) (\<lambda>_ _. True)"
      unfolding qbind_assoc [symmetric] u(1) by (intro triple_bind [OF triple_requeue [OF j]] Cons.IH)
    then show ?thesis using True u(2)
      by (auto intro!: triple_bind [OF triple_try_lstat [OF calm_rules(1)]] elim: triple_pre split: sum.splits option.splits)
  qed (simp add: Cons.IH)
qed simp

lemma triple_RetryRejected: "triple c (\<lambda>_. True) RetryRejected (\<lambda>_ _. True)"
  unfolding RetryRejected_def
  by (intro triple_guard triple_bind [OF triple_readDir [OF calm_rules(1)]] triple_pre [OF triple_retry_entries]) simp


lemma discard_entries_ok: "q_ok c w \<Longrightarrow> q_ok c (snd (discard_entries cd match ns removed skipped w))"
proof (induction ns arbitrary: removed skipped w)
  case (Cons n ns)
  obtain r1 w1 where 1: "syscall QCancelled (qret ()) w = (r1, w1)" by fastforce
  have ok1: "q_ok c w1" using 1 Cons.prems by (auto simp: syscall_eq qret_def split: if_splits)
  obtain r2 w2 where 2: "lstat n w1 = (r2, w2)" by fastforce
  have ok2: "q_ok c w2" using 2 ok1 by (auto simp: lstat_def syscall_eq split: if_splits)
  obtain r3 w3 where 3: "readFile n w2 = (r3, w3)" by fastforce
  have ok3: "q_ok c w3" "qw_files w3 = qw_files w2"
    using 3 ok2 by (auto simp: readFile_def qbind_def lstat_def syscall_eq qret_def qfail_def split: if_splits option.splits)
  show ?case
  proof (cases "\<exists>f b. queueEntry n \<and> r1 = Inr () \<and> r2 = Inr (Some f) \<and> qf_regular f \<and> \<not> file_size f > 1048576 \<and> r3 = Inr (Some b) \<and> discards cd match n b")
    case False
    then show ?thesis using Cons.IH ok1 ok2 ok3 1 2 3
      by (simp split: sum.splits option.splits) blast
  next
    case True
    then obtain f b where t: "queueEntry n" "r1 = Inr ()" "r2 = Inr (Some f)" "qf_regular f" "\<not> file_size f > 1048576"
      "r3 = Inr (Some b)" "discards cd match n b" by blast
    have f: "gm_get (qw_files w3) n = Some f" using 2 t(3) ok3(2) by (auto simp: lstat_def syscall_eq split: if_splits)
    obtain r4 w4 where 4: "qbind (remove_file n) (\<lambda>_. drop_entry n (file_size f)) w3 = (r4, w4)" by fastforce
    have ok4: "q_ok c w4" using tripleD [OF triple_drop [OF t(1), of c f] ok3(1) f] 4 by (cases r4) auto
    obtain r5 w5 where 5: "syncDirectory w4 = (r5, w5)" by fastforce
    have ok5: "q_ok c w5" using 5 ok4 by (auto simp: syncDirectory_def syscall_eq qret_def split: if_splits)
    show ?thesis using Cons.IH [OF ok5] ok4 ok5 1 2 3 4 5 t by (simp split: sum.splits)
  qed
qed simp

lemma DiscardMatching_ok:
  assumes "q_ok c w"
  shows "q_ok c (snd (DiscardMatching cd match w))"
proof -
  obtain r w1 where 1: "readDir w = (r, w1)" by fastforce
  have "q_ok c w1" using 1 assms by (auto simp: readDir_def syscall_eq split: if_splits)
  then show ?thesis using assms 1 by (auto simp: DiscardMatching_def discard_entries_ok split: option.splits sum.splits)
qed

subsection \<open>Opening\<close>

text \<open>What \<^verbatim>\<open>OpenQueue\<close> has counted when it has read all names.\<close>

lemma load_entries_result:
  "load_entries ns q w = (Inr q', w') \<Longrightarrow>
    qw_files w' = qw_files w \<and> (\<exists>n. qw_faults w' = (tl ^^ n) (qw_faults w)) \<and>
    qu_used q' = qu_used q + (\<Sum>n \<leftarrow> filter queueEntry ns. file_size (the (gm_get (qw_files w) n))) \<and>
    qu_items q' = qu_items q + (\<Sum>n \<leftarrow> filter queueEntry ns. 1) \<and>
    qu_order q' = qu_order q @ filter json_name ns \<and> qu_active q' = qu_active q \<union> set (filter json_name ns) \<and>
    qu_maxBytes q' = qu_maxBytes q \<and> qu_maxItems q' = qu_maxItems q \<and> qu_closed q' = qu_closed q"
proof (induction ns arbitrary: q w)
  case Nil
  then show ?case by (auto simp: qret_def intro: exI [of _ 0])
next
  case (Cons n ns)
  show ?case
  proof (cases "queueEntry n")
    case False
    moreover have "\<not> json_name n" using False by (auto simp: queueEntry_def json_name_def)
    ultimately show ?thesis using Cons by simp
  next
    case True
    have nf: "\<not> failing w" using Cons.prems True by (auto simp: qbind_def qtry_def lstat_def syscall_eq qfail_def)
    obtain f where f: "gm_get (qw_files w) n = Some f" "qf_regular f"
      using Cons.prems True nf by (cases "gm_get (qw_files w) n") (auto simp: qbind_def qtry_def lstat_def syscall_eq qfail_def split: if_splits)
    let ?q = "q\<lparr>qu_used := qu_used q + file_size f, qu_items := qu_items q + 1\<rparr>"
    let ?r = "if json_name n then ?q\<lparr>qu_order := qu_order ?q @ [n], qu_active := insert n (qu_active ?q)\<rparr> else ?q"
    have "load_entries ns ?r (next_call w) = (Inr q', w')"
      using Cons.prems True nf f by (simp add: qbind_def qtry_def lstat_def syscall_eq json_name_def Let_def)
    from Cons.IH [OF this] obtain k where "qw_faults w' = (tl ^^ k) (tl (qw_faults w))" "qw_files w' = qw_files w"
      "qu_used q' = qu_used ?r + (\<Sum>n \<leftarrow> filter queueEntry ns. file_size (the (gm_get (qw_files w) n)))"
      "qu_items q' = qu_items ?r + (\<Sum>n \<leftarrow> filter queueEntry ns. 1)"
      "qu_order q' = qu_order ?r @ filter json_name ns" "qu_active q' = qu_active ?r \<union> set (filter json_name ns)"
      "qu_maxBytes q' = qu_maxBytes ?r" "qu_maxItems q' = qu_maxItems ?r" "qu_closed q' = qu_closed ?r" by auto
    then show ?thesis using True f(1) by (auto simp: funpow_Suc_right simp del: funpow.simps intro!: exI [of _ "Suc k"])
  qed
qed

lemma weight_list:
  assumes "distinct ns" "set ns = dom m"
  shows "weight g m = (\<Sum>n \<leftarrow> filter queueEntry ns. g (the (m n)))"
proof -
  have "{k \<in> dom m. queueEntry k} = set (filter queueEntry ns)" using assms(2) by auto
  moreover have "distinct (filter queueEntry ns)" using assms(1) by simp
  ultimately show ?thesis unfolding weight_def by (simp only: sum_list_distinct_conv_sum_set)
qed

lemma OpenQueue_inv:
  assumes o: "OpenQueue b i w = (Inr (), w')" and ok: "gm_ok (qw_files w)" and a: "apart (gm_get (qw_files w))"
  shows "q_inv w' \<and> \<not> qu_closed (qw_queue w') \<and> distinct (qu_order (qw_queue w')) \<and> set (qu_order (qw_queue w')) = jsons (gm_get (qw_files w')) \<and>
    qw_files w' = qw_files w \<and> (isolated (qw_faults w) \<longrightarrow> isolated (qw_faults w'))"
proof -
  let ?ns = "sort (map fst (qw_files w))"
  let ?q0 = "\<lparr>qu_maxBytes = b, qu_used = 0, qu_maxItems = i, qu_items = 0, qu_closed = False, qu_order = [], qu_active = {}\<rparr>"
  have dm: "dom (gm_get (qw_files w)) = set ?ns" unfolding gm_get_def [abs_def] by (simp add: dom_map_of_conv_image_fst)
  have ds: "distinct ?ns" using ok by (simp add: gm_ok_def)
  have nf: "\<not> failing w" using o by (auto simp: OpenQueue_def qbind_def readDir_def syscall_eq qfail_def split: if_splits)
  obtain q w1 where l: "load_entries ?ns ?q0 (next_call w) = (Inr q, w1)"
    and w': "w' = w1\<lparr>qw_queue := q\<lparr>qu_order := sort_key (\<lambda>n. (written w1 n, n)) (qu_order q)\<rparr>\<rparr>"
    using o nf by (auto simp: OpenQueue_def qbind_def readDir_def syscall_eq qfail_def split: if_splits prod.splits sum.splits)
  note r = load_entries_result [OF l]
  have t: "weight g (gm_get (qw_files w)) = (\<Sum>n \<leftarrow> filter queueEntry ?ns. g (the (gm_get (qw_files w) n)))" for g
    using weight_list [OF ds] dm by simp
  have j: "set (filter json_name ?ns) = jsons (gm_get (qw_files w))" using dm by (auto simp: jsons_def)
  have d: "distinct (filter json_name ?ns)" using ds by simp
  from r have o': "qu_order q = filter json_name ?ns" "qu_active q = set (filter json_name ?ns)" by (simp_all only: Queue.simps append_Nil Un_empty_left)
  have "qu_used q = weight file_size (gm_get (qw_files w))" "qu_items q = weight (\<lambda>_. 1) (gm_get (qw_files w))"
    unfolding t using r by simp_all
  moreover have "qu_closed q = False" "qw_files w1 = qw_files w" using r by simp_all
  moreover have "isolated (qw_faults w) \<longrightarrow> isolated (qw_faults w1)" using r isolated_tls [of "tl (qw_faults w)"] by auto
  ultimately show ?thesis using a d j [simplified] unfolding w' q_inv_def by (simp add: o')
qed

subsection \<open>Every run of the queue\<close>

datatype qcall = CPut RawMessage | CPutReceived RawMessage | CNext | CAck RawMessage | CReject RawMessage | CRetryRejected
  | CDiscardMatching "RawMessage \<Rightarrow> bool" | CClose

primrec run_call :: "codec \<Rightarrow> qcall \<Rightarrow> qworld \<Rightarrow> qworld" where
  "run_call cd (CPut raw) w = snd (Put cd raw w)"
| "run_call cd (CPutReceived raw) w = snd (PutReceived cd raw w)"
| "run_call cd CNext w = snd (Next cd w)"
| "run_call cd (CAck raw) w = snd (Ack raw w)"
| "run_call cd (CReject raw) w = snd (Reject raw w)"
| "run_call cd CRetryRejected w = snd (RetryRejected w)"
| "run_call cd (CDiscardMatching match) w = snd (DiscardMatching cd (Some match) w)"
| "run_call cd CClose w = snd (Close w)"

lemma triple_snd: "triple c (\<lambda>_. True) m (\<lambda>_ _. True) \<Longrightarrow> q_ok c w \<Longrightarrow> q_ok c (snd (m w))"
  by (cases "m w"; cases "fst (m w)") (auto dest: tripleD)

lemma run_call_ok: "q_ok c w \<Longrightarrow> q_ok c (run_call cd call w)"
  by (cases call)
    (simp_all add: triple_snd triple_put triple_Next triple_Ack triple_Reject triple_RetryRejected DiscardMatching_ok Put_def PutReceived_def,
     auto simp: Close_def on_queue_def q_ok_def q_inv_def in_capacity_def)

text \<open>The states of a queue that was opened on a directory without doubled entries; between two calls the clock and the coming faults are free.\<close>

inductive edge_reach :: "codec \<Rightarrow> qworld \<Rightarrow> bool" for cd where
  opened: "gm_ok (qw_files w) \<Longrightarrow> apart (gm_get (qw_files w)) \<Longrightarrow> isolated (qw_faults w) \<Longrightarrow> OpenQueue b i w = (Inr (), w') \<Longrightarrow> edge_reach cd w'"
| called: "edge_reach cd w \<Longrightarrow> edge_reach cd (run_call cd call w)"
| passed: "edge_reach cd w \<Longrightarrow> isolated bs \<Longrightarrow> edge_reach cd (w\<lparr>qw_clock := t, qw_faults := bs\<rparr>)"

inductive_cases edge_reachE: "edge_reach cd w"

lemma edge_reach_ok: "edge_reach cd w \<Longrightarrow> q_ok False w"
proof (induction rule: edge_reach.induct)
  case (opened w b i w')
  then show ?case using OpenQueue_inv [of b i w w'] by (simp add: q_ok_def)
next
  case (called w call)
  then show ?case by (simp add: run_call_ok)
next
  case (passed w bs t)
  then show ?case by (simp add: q_ok_def q_inv_def)
qed

end
