(* ===== verification/Queue_Fifo.thy ===== *)
theory Queue_Fifo
  imports Queue_Invariant
begin

text \<open>
  The edge queue as a first in, first out queue: on a disk that does not fail, new messages are served in the order in which
  they were put, each until it is acknowledged. The contract is the locale \<open>fifo\<close>.
\<close>

subsection \<open>The contract\<close>

primrec drain :: "('s \<Rightarrow> 'a option \<times> 's) \<Rightarrow> ('a \<Rightarrow> 's \<Rightarrow> 's) \<Rightarrow> nat \<Rightarrow> 's \<Rightarrow> 'a list \<times> 's" where
  "drain next ack 0 s = ([], s)"
| "drain next ack (Suc n) s = (case next s of
     (None, s') \<Rightarrow> ([], s')
   | (Some x, s') \<Rightarrow> (case drain next ack n (ack x s') of (xs, s'') \<Rightarrow> (x # xs, s'')))"

locale fifo =
  fixes inv :: "'s \<Rightarrow> bool" and entries :: "'s \<Rightarrow> 'a list" and fits :: "'s \<Rightarrow> 'a list \<Rightarrow> bool"
    and put :: "'a \<Rightarrow> 's \<Rightarrow> 's" and serve :: "'s \<Rightarrow> 'a option \<times> 's" and ack :: "'a \<Rightarrow> 's \<Rightarrow> 's"
  assumes put_last: "inv s \<Longrightarrow> fits s (x # xs) \<Longrightarrow> inv (put x s) \<and> entries (put x s) = entries s @ [x] \<and> fits (put x s) xs"
    and serve_none: "inv s \<Longrightarrow> entries s = [] \<Longrightarrow> fst (serve s) = None \<and> entries (snd (serve s)) = []"
    and serve_head: "inv s \<Longrightarrow> entries s = x # xs \<Longrightarrow> fst (serve s) = Some x \<and> inv (snd (serve s)) \<and> entries (snd (serve s)) = x # xs"
    and ack_head: "inv s \<Longrightarrow> entries s = x # xs \<Longrightarrow> inv (ack x s) \<and> entries (ack x s) = xs"
begin

lemma put_all: "inv s \<Longrightarrow> fits s xs \<Longrightarrow> inv (fold put xs s) \<and> entries (fold put xs s) = entries s @ xs"
  by (induction xs arbitrary: s) (use put_last in fastforce)+

lemma drain_entries: "inv s \<Longrightarrow> fst (drain serve ack n s) = take n (entries s) \<and> entries (snd (drain serve ack n s)) = drop n (entries s)"
proof (induction n arbitrary: s)
  case (Suc n)
  obtain r s1 where r: "serve s = (r, s1)" by fastforce
  show ?case
  proof (cases "entries s")
    case Nil
    then show ?thesis using serve_none [OF Suc.prems Nil] r by simp
  next
    case (Cons x xs)
    from serve_head [OF Suc.prems Cons] r have 1: "r = Some x" "inv s1" "entries s1 = x # xs" by auto
    from ack_head [OF 1(2,3)] have "inv (ack x s1)" "entries (ack x s1) = xs" by auto
    with Suc.IH [of "ack x s1"] r 1(1) Cons show ?thesis by (auto split: prod.splits)
  qed
qed simp

text \<open>Everything that is put comes out once, in order, after what was there.\<close>

lemma first_in_first_out:
  assumes "inv s" "fits s xs"
  shows "fst (drain serve ack (length (entries s) + length xs) (fold put xs s)) = entries s @ xs"
    and "entries (snd (drain serve ack (length (entries s) + length xs) (fold put xs s))) = []"
  using put_all [OF assms] drain_entries [of "fold put xs s" "length (entries s) + length xs"] by auto

end

subsection \<open>The edge queue on a quiet disk\<close>

definition stored :: "codec \<Rightarrow> qworld \<Rightarrow> string \<Rightarrow> RawMessage option" where
  "stored cd w n = (case gm_get (qw_files w) n of
     None \<Rightarrow> None
   | Some f \<Rightarrow> if qf_regular f then (case defect cd n (qf_data f) of Inl _ \<Rightarrow> None | Inr raw \<Rightarrow> Some raw) else None)"

definition pending :: "qworld \<Rightarrow> string list" where
  "pending w = filter (\<lambda>n. n \<in> qu_active (qw_queue w)) (qu_order (qw_queue w))"

definition messages :: "codec \<Rightarrow> qworld \<Rightarrow> RawMessage list" where
  "messages cd w = map (\<lambda>n. the (stored cd w n)) (pending w)"

definition quiet_queue :: "codec \<Rightarrow> qworld \<Rightarrow> bool" where
  "quiet_queue cd w \<longleftrightarrow> q_inv w \<and> qw_faults w = [] \<and> \<not> qu_closed (qw_queue w) \<and> distinct (qu_order (qw_queue w)) \<and>
     (\<forall>n \<in> qu_active (qw_queue w). stored cd w n \<noteq> None)"

text \<open>A message that the JSON encoding brings back, and its size.\<close>

definition faithful :: "codec \<Rightarrow> RawMessage \<Rightarrow> bool" where
  "faithful cd raw \<longleftrightarrow> (case cd_marshal cd raw of None \<Rightarrow> False | Some b \<Rightarrow> cd_unmarshal cd b = Some raw \<and> length b \<le> 1048576)"

definition encoded :: "codec \<Rightarrow> RawMessage \<Rightarrow> int" where
  "encoded cd raw = (case cd_marshal cd raw of None \<Rightarrow> 0 | Some b \<Rightarrow> int (length b))"

definition new_message :: "codec \<Rightarrow> qworld \<Rightarrow> RawMessage \<Rightarrow> bool" where
  "new_message cd w raw \<longleftrightarrow> rm_TenantID raw \<noteq> [] \<and> rm_MessageID raw \<noteq> [] \<and> faithful cd raw \<and> queueName raw \<notin> set (qu_order (qw_queue w)) \<and>
     (\<forall>s \<in> {[], ''.rejected'', ''.corrupt''}. gm_get (qw_files w) (queueName raw @ s) = None)"

definition room_for :: "codec \<Rightarrow> qworld \<Rightarrow> RawMessage list \<Rightarrow> bool" where
  "room_for cd w raws \<longleftrightarrow> distinct (map queueName raws) \<and> (\<forall>raw \<in> set raws. new_message cd w raw) \<and>
     qu_items (qw_queue w) + int (length raws) \<le> qu_maxItems (qw_queue w) \<and>
     qu_used (qw_queue w) + sum_list (map (encoded cd) raws) \<le> qu_maxBytes (qw_queue w)"

lemma syscall_quiet [simp]: "qw_faults w = [] \<Longrightarrow> syscall e m w = m w"
  by (simp add: syscall_def)

lemma encoded_nonneg [simp]: "0 \<le> encoded cd raw"
  by (simp add: encoded_def split: option.splits)

definition put_world :: "string \<Rightarrow> string \<Rightarrow> qworld \<Rightarrow> qworld" where
  "put_world n b w = w\<lparr>qw_files := gm_put n \<lparr>qf_data = b, qf_time = qw_clock w, qf_regular = True\<rparr> (qw_files w),
     qw_queue := enqueue n ((qw_queue w)\<lparr>qu_used := qu_used (qw_queue w) + int (length b), qu_items := qu_items (qw_queue w) + 1\<rparr>)\<rparr>"

text \<open>A new message with room is stored under its name.\<close>

lemma Put_quiet:
  assumes "qw_faults w = []" "\<not> qu_closed (qw_queue w)" "rm_TenantID raw \<noteq> []" "rm_MessageID raw \<noteq> []" "cd_marshal cd raw = Some b" "length b \<le> 1048576"
    "gm_get (qw_files w) (queueName raw) = None" "gm_get (qw_files w) (queueName raw @ ''.rejected'') = None"
    "gm_get (qw_files w) (queueName raw @ ''.corrupt'') = None"
    "qu_items (qw_queue w) < qu_maxItems (qw_queue w)" "qu_used (qw_queue w) + int (length b) \<le> qu_maxBytes (qw_queue w)"
  shows "Put cd raw w = (Inr (), put_world (queueName raw) b w)"
  using assms
  by (simp add: Put_def put_def guard_open_def stamped_def qbind_def qret_def lstat_def readFile_def store_entry_def qtry_def atomicFile_def
    syncDirectory_def count_entry_def on_queue_def put_world_def)

lemma room_for_Cons:
  assumes "room_for cd w (raw # raws)"
  shows "\<exists>b. cd_marshal cd raw = Some b \<and> cd_unmarshal cd b = Some raw \<and> length b \<le> 1048576 \<and> qu_items (qw_queue w) < qu_maxItems (qw_queue w) \<and>
    qu_used (qw_queue w) + int (length b) \<le> qu_maxBytes (qw_queue w)"
proof -
  have "0 \<le> sum_list (map (encoded cd) raws)" by (rule sum_list_nonneg) auto
  then show ?thesis using assms
    by (auto simp: room_for_def new_message_def faithful_def encoded_def split: option.splits)
qed

text \<open>An entry under another name does not change what is stored.\<close>

lemma stored_put: "stored cd (put_world n b w) m = (if m = n then (case defect cd n b of Inl _ \<Rightarrow> None | Inr raw \<Rightarrow> Some raw) else stored cd w m)"
  by (simp add: stored_def put_world_def)

lemma defect_marshal:
  "cd_unmarshal cd b = Some raw \<Longrightarrow> length b \<le> 1048576 \<Longrightarrow> rm_TenantID raw \<noteq> [] \<Longrightarrow> rm_MessageID raw \<noteq> [] \<Longrightarrow> defect cd (queueName raw) b = Inr raw"
  by (simp add: defect_def)

lemma no_suffix_name [simp]: "queueName a \<noteq> queueName b @ ''.rejected''" "queueName a \<noteq> queueName b @ ''.corrupt''"
  "queueName b @ ''.rejected'' \<noteq> queueName a" "queueName b @ ''.corrupt'' \<noteq> queueName a"
  using suffix_names(2,3) queueName_json by metis+

lemma put_fifo:
  assumes q: "quiet_queue cd w" and r: "room_for cd w (raw # raws)"
  shows "Put cd raw w = (Inr (), snd (Put cd raw w))" "quiet_queue cd (snd (Put cd raw w))"
    "messages cd (snd (Put cd raw w)) = messages cd w @ [raw]" "room_for cd (snd (Put cd raw w)) raws"
proof -
  from room_for_Cons [OF r] obtain b where b: "cd_marshal cd raw = Some b" "cd_unmarshal cd b = Some raw" "length b \<le> 1048576"
    "qu_items (qw_queue w) < qu_maxItems (qw_queue w)" "qu_used (qw_queue w) + int (length b) \<le> qu_maxBytes (qw_queue w)" by blast
  have nm: "rm_TenantID raw \<noteq> []" "rm_MessageID raw \<noteq> []" "queueName raw \<notin> set (qu_order (qw_queue w))" "gm_get (qw_files w) (queueName raw) = None"
    "gm_get (qw_files w) (queueName raw @ ''.rejected'') = None" "gm_get (qw_files w) (queueName raw @ ''.corrupt'') = None"
    using r by (auto simp: room_for_def new_message_def)
  have q': "qw_faults w = []" "\<not> qu_closed (qw_queue w)" "q_inv w" "distinct (qu_order (qw_queue w))" using q by (simp_all add: quiet_queue_def)
  let ?w = "put_world (queueName raw) b w"
  have p: "Put cd raw w = (Inr (), ?w)" using Put_quiet q'(1,2) nm b by blast
  then show "Put cd raw w = (Inr (), snd (Put cd raw w))" by simp
  have na: "queueName raw \<notin> qu_active (qw_queue w)" using q'(3) nm(4) by (auto simp: q_inv_def jsons_def)
  have o: "qu_order (qw_queue ?w) = qu_order (qw_queue w) @ [queueName raw]" "qu_active (qw_queue ?w) = insert (queueName raw) (qu_active (qw_queue w))"
    "qw_faults ?w = []" "\<not> qu_closed (qw_queue ?w)" using na q' by (simp_all add: put_world_def enqueue_def)
  have i: "q_inv ?w" using inv_store [OF q'(3) nm(4,5) queueName_json, of "\<lparr>qf_data = b, qf_time = qw_clock w, qf_regular = True\<rparr>"]
    by (simp add: put_world_def file_size_def)
  note d = defect_marshal [OF b(2,3) nm(1,2)]
  have st: "stored cd ?w m = (if m = queueName raw then Some raw else stored cd w m)" for m by (simp add: stored_put d)
  show "quiet_queue cd (snd (Put cd raw w))" using p i o q' nm(3) q by (auto simp: quiet_queue_def st)
  have pd: "pending ?w = pending w @ [queueName raw]" unfolding pending_def o using nm(3)
    by (simp, intro filter_cong) auto
  have "queueName raw \<notin> set (pending w)" using nm(3) by (simp add: pending_def)
  then show "messages cd (snd (Put cd raw w)) = messages cd w @ [raw]" by (auto simp: p messages_def pd st)
  have "queueName x \<noteq> queueName raw" if "x \<in> set raws" for x using r that by (auto simp: room_for_def image_iff)
  then show "room_for cd (snd (Put cd raw w)) raws" using r b(1) na unfolding p
    by (auto simp: room_for_def new_message_def o) (auto simp: put_world_def enqueue_def encoded_def)
qed

text \<open>\<^verbatim>\<open>Next\<close> drops settled names from the order, which the pending ones do not show.\<close>

definition settled_prefix :: "qworld \<Rightarrow> string list" where
  "settled_prefix w = dropWhile (\<lambda>n. n \<notin> qu_active (qw_queue w)) (qu_order (qw_queue w))"

lemma next_entry_quiet:
  assumes "qw_faults w = []" "\<And>n. n \<in> qu_active (qw_queue w) \<Longrightarrow> gm_get (qw_files w) n \<noteq> None"
  shows "next_entry ns w = (Inr (case dropWhile (\<lambda>n. n \<notin> qu_active (qw_queue w)) ns of [] \<Rightarrow> None | n # _ \<Rightarrow> Some (n, the (gm_get (qw_files w) n))),
    set_order (dropWhile (\<lambda>n. n \<notin> qu_active (qw_queue w)) ns) w)"
proof (induction ns)
  case (Cons n ns)
  show ?case
  proof (cases "n \<in> qu_active (qw_queue w)")
    case True
    then obtain f where "gm_get (qw_files w) n = Some f" using assms(2) [of n] by blast
    then show ?thesis using True assms(1) by (simp add: lstat_def)
  qed (use Cons in simp)
qed simp

lemma filter_dropWhile: "filter P (dropWhile (\<lambda>x. \<not> P x) xs) = filter P xs"
  by (induction xs) auto

lemma filter_Nil_dropWhile: "filter P xs = [] \<Longrightarrow> dropWhile (\<lambda>x. \<not> P x) xs = []"
  by (induction xs) (auto split: if_splits)

lemma filter_Cons_dropWhile: "filter P xs = y # ys \<Longrightarrow> \<exists>zs. dropWhile (\<lambda>x. \<not> P x) xs = y # zs"
  by (induction xs) (auto split: if_splits)

lemma stored_set_order [simp]: "stored cd (set_order ns w) = stored cd w"
  by (simp add: stored_def fun_eq_iff)

lemma pending_set_order [simp]: "pending (set_order (settled_prefix w) w) = pending w"
  by (simp add: pending_def settled_prefix_def set_order_def filter_dropWhile)

lemma quiet_set_order: "quiet_queue cd w \<Longrightarrow> quiet_queue cd (set_order (settled_prefix w) w)"
proof -
  assume q: "quiet_queue cd w"
  have "set (filter (\<lambda>n. n \<in> qu_active (qw_queue w)) (settled_prefix w)) = set (filter (\<lambda>n. n \<in> qu_active (qw_queue w)) (qu_order (qw_queue w)))"
    unfolding settled_prefix_def filter_dropWhile ..
  then have "qu_active (qw_queue w) \<subseteq> set (settled_prefix w)" if "qu_active (qw_queue w) \<subseteq> set (qu_order (qw_queue w))"
    using that by auto
  then show ?thesis using q
    by (auto simp: quiet_queue_def q_inv_def stored_set_order [unfolded set_order_def] set_order_def settled_prefix_def distinct_dropWhile)
qed

lemma Next_quiet:
  assumes q: "quiet_queue cd w"
  shows "Next cd w = (Inr (case pending w of [] \<Rightarrow> None | n # _ \<Rightarrow> stored cd w n), set_order (settled_prefix w) w)"
proof -
  have q': "qw_faults w = []" "\<not> qu_closed (qw_queue w)" "\<And>n. n \<in> qu_active (qw_queue w) \<Longrightarrow> stored cd w n \<noteq> None"
    using q by (auto simp: quiet_queue_def)
  have ex: "\<exists>f. gm_get (qw_files w) n = Some f \<and> qf_regular f \<and> (\<exists>raw. defect cd n (qf_data f) = Inr raw)" if "n \<in> qu_active (qw_queue w)" for n
    using q'(3) [OF that] by (auto simp: stored_def split: option.splits if_splits sum.splits)
  have ne: "next_entry (qu_order (qw_queue w)) w = (Inr (case settled_prefix w of [] \<Rightarrow> None | n # _ \<Rightarrow> Some (n, the (gm_get (qw_files w) n))),
    set_order (settled_prefix w) w)" unfolding settled_prefix_def using q'(1) ex by (intro next_entry_quiet) fastforce+
  show ?thesis
  proof (cases "pending w")
    case Nil
    then have "settled_prefix w = []" unfolding settled_prefix_def pending_def by (rule filter_Nil_dropWhile)
    then show ?thesis using ne q' Nil by (simp add: Next_def guard_open_def qbind_def qret_def)
  next
    case (Cons n ns)
    then obtain zs where s: "settled_prefix w = n # zs" unfolding settled_prefix_def pending_def using filter_Cons_dropWhile [of "\<lambda>n. n \<in> qu_active (qw_queue w)"] by blast
    have "n \<in> set (pending w)" using Cons by simp
    then obtain f raw where f: "gm_get (qw_files w) n = Some f" "qf_regular f" "defect cd n (qf_data f) = Inr raw"
      using ex [of n] unfolding pending_def by auto
    have "next_entry (qu_order (qw_queue w)) w = (Inr (Some (n, f)), set_order (settled_prefix w) w)" unfolding ne s by (simp add: f)
    then show ?thesis using q' f Cons by (simp add: Next_def guard_open_def qbind_def qret_def stored_def)
  qed
qed

lemma next_fifo:
  assumes q: "quiet_queue cd w"
  shows "Next cd w = (Inr (case messages cd w of [] \<Rightarrow> None | raw # _ \<Rightarrow> Some raw), snd (Next cd w))"
    "quiet_queue cd (snd (Next cd w))" "messages cd (snd (Next cd w)) = messages cd w"
proof -
  have "stored cd w n \<noteq> None" if "pending w = n # ns" for n ns
  proof -
    have "n \<in> set (pending w)" using that by simp
    then show ?thesis using q by (simp add: pending_def quiet_queue_def)
  qed
  then show "Next cd w = (Inr (case messages cd w of [] \<Rightarrow> None | raw # _ \<Rightarrow> Some raw), snd (Next cd w))"
    unfolding Next_quiet [OF q] messages_def by (auto split: list.splits)
  show "quiet_queue cd (snd (Next cd w))" "messages cd (snd (Next cd w)) = messages cd w"
    unfolding Next_quiet [OF q] by (simp_all add: quiet_set_order q messages_def)
qed


text \<open>\<^verbatim>\<open>Ack\<close> removes the message.\<close>

definition ack_world :: "string \<Rightarrow> int \<Rightarrow> qworld \<Rightarrow> qworld" where
  "ack_world n s w = w\<lparr>qw_files := gm_del n (qw_files w),
     qw_queue := (deactivate n (qw_queue w))\<lparr>qu_used := qu_used (qw_queue w) - s, qu_items := qu_items (qw_queue w) - 1\<rparr>\<rparr>"

lemma Ack_quiet:
  "qw_faults w = [] \<Longrightarrow> \<not> qu_closed (qw_queue w) \<Longrightarrow> gm_get (qw_files w) (queueName raw) = Some f \<Longrightarrow>
    Ack raw w = (Inr (), ack_world (queueName raw) (file_size f) w)"
  by (simp add: Ack_def guard_open_def qbind_def lstat_def remove_file_def drop_entry_def on_queue_def syncDirectory_def qret_def ack_world_def)

lemma stored_name: "stored cd w n = Some raw \<Longrightarrow> queueName raw = n \<and> (\<exists>f. gm_get (qw_files w) n = Some f \<and> qf_regular f \<and> defect cd n (qf_data f) = Inr raw)"
  by (auto simp: stored_def defect_def split: option.splits if_splits)

lemma messages_Cons:
  assumes q: "quiet_queue cd w" and m: "messages cd w = raw # raws"
  shows "\<exists>ns. pending w = queueName raw # ns \<and> raws = map (\<lambda>n. the (stored cd w n)) ns \<and> stored cd w (queueName raw) = Some raw"
proof -
  from m obtain n ns where p: "pending w = n # ns" "raw = the (stored cd w n)" "raws = map (\<lambda>n. the (stored cd w n)) ns"
    by (cases "pending w") (auto simp: messages_def)
  have "n \<in> set (pending w)" using p by simp
  then have "stored cd w n = Some raw" using q p(2) by (auto simp: pending_def quiet_queue_def)
  with stored_name p show ?thesis by metis
qed

lemma ack_fifo:
  assumes q: "quiet_queue cd w" and m: "messages cd w = raw # raws"
  shows "Ack raw w = (Inr (), snd (Ack raw w))" "quiet_queue cd (snd (Ack raw w))" "messages cd (snd (Ack raw w)) = raws"
proof -
  let ?n = "queueName raw"
  from messages_Cons [OF q m] obtain ns where p: "pending w = ?n # ns" "raws = map (\<lambda>n. the (stored cd w n)) ns" "stored cd w ?n = Some raw" by blast
  from stored_name [OF p(3)] obtain f where f: "gm_get (qw_files w) ?n = Some f" by blast
  have q': "qw_faults w = []" "\<not> qu_closed (qw_queue w)" "q_inv w" "distinct (qu_order (qw_queue w))" using q by (simp_all add: quiet_queue_def)
  let ?w = "ack_world ?n (file_size f) w"
  have a: "Ack raw w = (Inr (), ?w)" using Ack_quiet q'(1,2) f by blast
  then show "Ack raw w = (Inr (), snd (Ack raw w))" by simp
  have i: "q_inv ?w" using inv_drop [OF q'(3) f] by (simp add: ack_world_def)
  have st: "stored cd ?w m = (if m = ?n then None else stored cd w m)" for m by (simp add: stored_def ack_world_def)
  have act: "qu_active (qw_queue ?w) = qu_active (qw_queue w) - {?n}" "qu_order (qw_queue ?w) = qu_order (qw_queue w)"
    by (simp_all add: ack_world_def deactivate_def)
  show "quiet_queue cd (snd (Ack raw w))" using a i q q' by (auto simp: quiet_queue_def st act) (simp_all add: ack_world_def deactivate_def)
  have d: "distinct (pending w)" using q'(4) by (simp add: pending_def)
  have "pending ?w = filter (\<lambda>n. n \<noteq> ?n) (pending w)" by (simp add: pending_def act conj_commute)
  also have "\<dots> = ns" using d unfolding p(1) by (auto intro: filter_True)
  finally show "messages cd (snd (Ack raw w)) = raws" using d p(1) unfolding a by (auto simp: messages_def p(2) st)
qed

subsection \<open>The edge queue is first in, first out\<close>

definition put_step :: "codec \<Rightarrow> RawMessage \<Rightarrow> qworld \<Rightarrow> qworld" where
  "put_step cd raw w = snd (Put cd raw w)"

definition next_step :: "codec \<Rightarrow> qworld \<Rightarrow> RawMessage option \<times> qworld" where
  "next_step cd w = (case Next cd w of (Inl _, w') \<Rightarrow> (None, w') | (Inr r, w') \<Rightarrow> (r, w'))"

definition ack_step :: "RawMessage \<Rightarrow> qworld \<Rightarrow> qworld" where
  "ack_step raw w = snd (Ack raw w)"

lemma next_step_quiet:
  assumes "quiet_queue cd w"
  shows "next_step cd w = (case messages cd w of [] \<Rightarrow> None | raw # _ \<Rightarrow> Some raw, snd (Next cd w))"
  unfolding next_step_def by (subst next_fifo(1) [OF assms]) simp

interpretation edge: fifo "quiet_queue cd" "messages cd" "room_for cd" "put_step cd" "next_step cd" ack_step for cd
proof
  fix w raw raws
  assume q: "quiet_queue cd w"
  show "quiet_queue cd (put_step cd raw w) \<and> messages cd (put_step cd raw w) = messages cd w @ [raw] \<and> room_for cd (put_step cd raw w) raws"
    if "room_for cd w (raw # raws)"
    unfolding put_step_def using put_fifo(2-4) [OF q that] by blast
  show "fst (next_step cd w) = None \<and> messages cd (snd (next_step cd w)) = []" if "messages cd w = []"
    unfolding next_step_quiet [OF q] using next_fifo(3) [OF q] that by simp
  show "fst (next_step cd w) = Some raw \<and> quiet_queue cd (snd (next_step cd w)) \<and> messages cd (snd (next_step cd w)) = raw # raws"
    if "messages cd w = raw # raws"
    unfolding next_step_quiet [OF q] using next_fifo(2,3) [OF q] that by simp
  show "quiet_queue cd (ack_step raw w) \<and> messages cd (ack_step raw w) = raws" if "messages cd w = raw # raws"
    unfolding ack_step_def using ack_fifo(2,3) [OF q that] by blast
qed

text \<open>
  A name that is stored again while its settled occurrence is still in the order is served in the old place.
\<close>

lemma stale_order:
  assumes q: "quiet_queue cd w" and m: "messages cd w = raw # raws" and h: "qu_order (qw_queue w) = queueName raw # ns"
    and b: "cd_marshal cd raw = Some b" "gm_get (qw_files w) (queueName raw) = Some f" "qf_data f = b"
    and s: "gm_get (qw_files w) (queueName raw @ ''.corrupt'') = None"
    and c: "qu_items (qw_queue w) \<le> qu_maxItems (qw_queue w)" "qu_used (qw_queue w) \<le> qu_maxBytes (qw_queue w)"
  shows "fst (Next cd (put_step cd raw (ack_step raw w))) = Inr (Some raw)"
proof -
  let ?n = "queueName raw" and ?w1 = "ack_world (queueName raw) (file_size f) w"
  have q': "qw_faults w = []" "\<not> qu_closed (qw_queue w)" "q_inv w" "distinct (qu_order (qw_queue w))" using q by (simp_all add: quiet_queue_def)
  from messages_Cons [OF q m] have st: "stored cd w ?n = Some raw" by blast
  with stored_name [OF st] b have d: "defect cd ?n b = Inr raw" "qf_regular f" by auto
  then have l: "length b \<le> 1048576" "rm_TenantID raw \<noteq> []" "rm_MessageID raw \<noteq> []" by (auto simp: defect_def split: if_splits option.splits)
  have rj: "gm_get (qw_files w) (?n @ ''.rejected'') = None" using q'(3) b(2) by (auto simp: q_inv_def apart_def jsons_def)
  have w1: "ack_step raw w = ?w1" using Ack_quiet q'(1,2) b(2) by (simp add: ack_step_def)
  have "Put cd raw ?w1 = (Inr (), put_world ?n b ?w1)"
    by (rule Put_quiet) (use q' l b rj s c in \<open>simp_all add: ack_world_def deactivate_def file_size_def\<close>)
  then have w2: "put_step cd raw (ack_step raw w) = put_world ?n b ?w1" by (simp add: put_step_def w1)
  let ?w2 = "put_world ?n b ?w1"
  have o: "qu_order (qw_queue ?w2) = ?n # ns @ [?n]" "?n \<in> qu_active (qw_queue ?w2)" "\<not> qu_closed (qw_queue ?w2)" "qw_faults ?w2 = []"
    "gm_get (qw_files ?w2) ?n = Some \<lparr>qf_data = b, qf_time = qw_clock w, qf_regular = True\<rparr>"
    using q' h by (simp_all add: put_world_def ack_world_def enqueue_def deactivate_def)
  then show ?thesis unfolding w2 using d by (simp add: Next_def guard_open_def qbind_def lstat_def qret_def set_order_def)
qed

subsection \<open>A queue to evaluate\<close>

definition sample_codec :: codec where
  "sample_codec = \<lparr>cd_marshal = (\<lambda>raw. Some (rm_MessageID raw)),
     cd_unmarshal = (\<lambda>b. Some (zero_RawMessage\<lparr>rm_TenantID := ''t'', rm_MessageID := b\<rparr>))\<rparr>"

definition queued_raw :: "string \<Rightarrow> RawMessage" where
  "queued_raw i = zero_RawMessage\<lparr>rm_TenantID := ''t'', rm_MessageID := i\<rparr>"

definition sample_disk :: qworld where
  "sample_disk = \<lparr>qw_queue = \<lparr>qu_maxBytes = 100, qu_used = 0, qu_maxItems = 10, qu_items = 0, qu_closed = False, qu_order = [], qu_active = {}\<rparr>,
     qw_files = [], qw_faults = [], qw_clock = 7\<rparr>"

end
