(* ===== verification/Raw_Archive.thy ===== *)
theory Raw_Archive
  imports Engine_Base Go_Time
begin

text \<open>
  The archive of raw messages in files (\<^verbatim>\<open>internal/adapters/local/archive.go\<close>): object keys, storing and reading
  a message. A file holds the JSON text of its message; compression is left out. A write that is cut off leaves its file, as the code does.
\<close>

subsection \<open>Object keys\<close>

fun replace_dots :: "string \<Rightarrow> string" where
  "replace_dots (a # b # s) = (if a = CHR ''.'' \<and> b = CHR ''.'' then CHR ''_'' # replace_dots s else a # replace_dots (b # s))"
| "replace_dots s = s"

definition safe :: "string \<Rightarrow> string" where
  "safe v = map (\<lambda>c. if c = CHR 0x5C then CHR ''_'' else c) (map (\<lambda>c. if c = CHR ''/'' then CHR ''_'' else c) (replace_dots v))"

text \<open>\<^verbatim>\<open>%02d\<close> and \<^verbatim>\<open>%04d\<close>.\<close>

definition padded :: "nat \<Rightarrow> int \<Rightarrow> string" where
  "padded n i = (let d = int_digits i in replicate (n - length d) (CHR ''0'') @ d)"

definition month_of :: "int \<Rightarrow> int \<Rightarrow> int" where
  "month_of y d = int (length (filter (\<lambda>m. days_before_month y m \<le> d) [1, 2, 3, 4, 5, 6, 7, 8, 9, 10, 11, 12]))"

text \<open>The UTC hour and minute of a time in milliseconds, as the path of the object.\<close>

definition hour_path :: "int \<Rightarrow> string" where
  "hour_path ms =
     (let t = ms div 1000 + unix_epoch; y = time_Year t; d = t div 86400 - days_before_year y; mo = month_of y d;
          sec = t mod 86400
      in padded 4 y @ ''/'' @ padded 2 mo @ ''/'' @ padded 2 (d - days_before_month y mo + 1) @ ''/'' @ padded 2 (sec div 3600) @
         ''/raw-'' @ padded 2 (sec mod 3600 div 60) @ ''-'')"

definition raw_bucket :: string where "raw_bucket = ''iot-raw-archive''"

definition raw_key :: "RawMessage \<Rightarrow> string" where
  "raw_key m = safe (rm_TenantID m) @ ''/'' @ safe (rm_ProductID m) @ ''/'' @ safe (rm_DeviceID m) @ ''/'' @ hour_path (rm_ReceivedAt m) @
     safe (rm_MessageID m) @ ''.jsonl.gz''"

definition object_path :: "string \<Rightarrow> string \<Rightarrow> string" where
  "object_path bucket k = bucket @ ''/'' @ k"

subsection \<open>Storing and reading\<close>

definition archive_index :: "int \<Rightarrow> RawMessage \<Rightarrow> string \<Rightarrow> string \<Rightarrow> RawArchiveIndex" where
  "archive_index now m bucket k = \<lparr>ri_MessageID = rm_MessageID m, ri_TenantID = rm_TenantID m, ri_ProductID = rm_ProductID m,
     ri_DeviceID = rm_DeviceID m, ri_Protocol = rm_Protocol m, ri_PayloadFormat = rm_PayloadFormat m, ri_ObjectBucket = bucket,
     ri_ObjectKey = k, ri_ObjectOffset = 0, ri_PayloadHash = PayloadHash m, ri_PayloadSize = int (length (rm_Payload m)),
     ri_ReceivedAt = rm_ReceivedAt m, ri_ArchivedAt = now, ri_PublishedAt = 0, ri_PublishAttempts = 0, ri_LastPublishError = [],
     ri_ParseAttemptedAt = 0, ri_ParseError = []\<rparr>"

definition next_fault :: "engine \<Rightarrow> archive_fault" where
  "next_fault w = (case en_archive_faults w of [] \<Rightarrow> ArchiveOk | f # _ \<Rightarrow> f)"

definition after_fault :: "engine \<Rightarrow> engine" where
  "after_fault w = w\<lparr>en_archive_faults := tl (en_archive_faults w)\<rparr>"

definition archive_files :: "engine \<Rightarrow> string gomap" where
  "archive_files w = (case en_archive w of None \<Rightarrow> [] | Some files \<Rightarrow> files)"

definition write_file :: "string \<Rightarrow> string \<Rightarrow> engine \<Rightarrow> engine" where
  "write_file path content w = w\<lparr>en_archive := Some (gm_put path content (archive_files w))\<rparr>"

text \<open>The file is created exclusively: an existing one counts as this message. A message that has no JSON text leaves an empty file.\<close>

definition PutRaw :: "codec \<Rightarrow> RawMessage \<Rightarrow> RawArchiveIndex eng" where
  "PutRaw cd m w =
     (let k = raw_key m; path = object_path raw_bucket k; idx = archive_index (en_clock w) m raw_bucket k; w1 = after_fault w in
      case next_fault w of
        ArchiveRefused \<Rightarrow> (Inl (ErrText ''archive''), w1)
      | ArchiveTorn n \<Rightarrow>
          if gm_get (archive_files w) path \<noteq> None then (Inr idx, w1)
          else (Inl (ErrText ''archive''), write_file path (case cd_marshal cd m of None \<Rightarrow> [] | Some b \<Rightarrow> take n b) w1)
      | ArchiveOk \<Rightarrow>
          if gm_get (archive_files w) path \<noteq> None then (Inr idx, w1)
          else case cd_marshal cd m of
            None \<Rightarrow> (Inl (ErrText ''archive''), write_file path [] w1)
          | Some b \<Rightarrow> (Inr idx, write_file path b w1))"

definition Archive_GetRaw :: "codec \<Rightarrow> RawArchiveIndex \<Rightarrow> RawMessage eng" where
  "Archive_GetRaw cd idx w =
     (let w1 = after_fault w in
      if next_fault w \<noteq> ArchiveOk then (Inl (ErrText ''archive''), w1)
      else case gm_get (archive_files w) (object_path (ri_ObjectBucket idx) (ri_ObjectKey idx)) of
        None \<Rightarrow> (Inl (ErrText ''archive''), w1)
      | Some b \<Rightarrow> (case cd_unmarshal cd b of None \<Rightarrow> (Inl (ErrText ''archive''), w1) | Some m \<Rightarrow> (Inr m, w1)))"

subsection \<open>Two ways to lose a message\<close>

text \<open>A write that was cut off is taken for the message when it is stored again.\<close>

lemma torn_write_accepted:
  assumes "next_fault w = ArchiveTorn n" "gm_get (archive_files w) (object_path raw_bucket (raw_key m)) = None" "next_fault (after_fault w) = ArchiveOk"
    "cd_marshal cd m = Some b"
  shows "case PutRaw cd m w of (r, w1) \<Rightarrow> isl r \<and> (case PutRaw cd m w1 of (r2, w2) \<Rightarrow> \<not> isl r2 \<and>
    gm_get (archive_files w2) (object_path raw_bucket (raw_key m)) = Some (take n b))"
  using assms by (simp add: PutRaw_def Let_def write_file_def after_fault_def next_fault_def archive_files_def)

text \<open>Names that differ only in a slash share an object.\<close>

lemma shared_object:
  assumes "rm_MessageID m = ''a/b''" "m' = m\<lparr>rm_MessageID := ''a_b''\<rparr>"
  shows "raw_key m = raw_key m'"
proof -
  have "safe ''a/b'' = safe ''a_b''" by code_simp
  then show ?thesis using assms by (simp add: raw_key_def)
qed

end
