(* ===== verification/Ingest.thy ===== *)
theory Ingest
  imports Raw_Archive Processor Rule_Checks
begin

text \<open>
  The way of a raw message into the platform (\<^verbatim>\<open>internal/core/engine.go\<close>, \<^verbatim>\<open>mqtt_receipt.go\<close> and \<^verbatim>\<open>internal/parser/parser.go\<close>):
  admission, the registration of the children of a gateway, reservation, archive, index and publication, the retry of
  publications that failed, and the parsing of published messages. A parser is a value of the interface \<^verbatim>\<open>Parser\<close>, a record
  of functions; the registry is the list of them. The clock counts milliseconds, so that the nanoseconds in the identity
  of an unnamed message end in zeros.
\<close>

subsection \<open>Messages\<close>

definition Normalize :: "int \<Rightarrow> RawMessage \<Rightarrow> RawMessage" where
  "Normalize now m =
     (let m = (if rm_MessageID m = []
               then m\<lparr>rm_MessageID := ''raw_'' @ take 24 (sha256_hex (rm_TenantID m @ '':'' @ rm_DeviceID m @ '':'' @ int_digits (now * 1000000) @ '':'' @ rm_Payload m))\<rparr>
               else m);
          m = (if rm_Source m = [] then m\<lparr>rm_Source := ''external-ingest''\<rparr> else m);
          m = (if rm_ReceivedAt m = 0 then m\<lparr>rm_ReceivedAt := now\<rparr> else m)
      in if rm_PayloadFormat m = [] then m\<lparr>rm_PayloadFormat := ''json''\<rparr> else m)"

text \<open>The names of the missing fields come in the order of a Go map, so only that one is missing is kept.\<close>

definition Validate_raw :: "RawMessage \<Rightarrow> err option" where
  "Validate_raw m =
     (if \<exists>v \<in> {rm_MessageID m, rm_TenantID m, rm_ProductID m, rm_DeviceID m}. trim_space v = [] then Some (ErrText ''missing required fields'')
      else if rm_Payload m = [] then Some (ErrText ''payload is required'') else None)"

subsection \<open>Children of a gateway\<close>

definition child_label :: string where
  "child_label = map char_of [0xE5, 0xAD, 0x90, 0xE8, 0xAE, 0xBE, 0xE5, 0xA4, 0x87, 0x20 :: nat]"

definition child_hint :: string where
  "child_hint = map char_of [0xE7, 0xBD, 0x91, 0xE5, 0x85, 0xB3, 0xE6, 0x89, 0x98, 0xE7, 0xAE, 0xA1 :: nat]"

definition new_child :: "RawMessage \<Rightarrow> string \<Rightarrow> string \<Rightarrow> string \<Rightarrow> int \<Rightarrow> ManagedDevice" where
  "new_child raw gateway secret access now = zero_ManagedDevice\<lparr>md_ID := rm_DeviceID raw, md_TenantID := rm_TenantID raw,
     md_ProductID := rm_ProductID raw, md_Name := (if rm_DeviceName raw = [] then child_label @ rm_DeviceID raw else rm_DeviceName raw),
     md_Status := ''ENABLED'', md_DeviceRole := ''CHILD'', md_GatewayID := gateway, md_RegistrationSource := ''GATEWAY_AUTO'',
     md_AutoRegistered := True, md_AccessKey := ''dk_'' @ trim_prefix access ''_'', md_SecretHash := sha256_hex secret,
     md_SecretHint := child_hint, md_CreatedAt := now, md_UpdatedAt := now\<rparr>"

definition child_audit :: "RawMessage \<Rightarrow> string \<Rightarrow> int \<Rightarrow> AuditLog" where
  "child_audit raw gateway now = \<lparr>au_ID = [], au_TenantID = rm_TenantID raw, au_Actor = ''gateway:'' @ gateway, au_Action = ''device.child.auto-register'',
     au_TargetType = ''device'', au_TargetID = rm_DeviceID raw,
     au_Details = [(''gatewayId'', VStr gateway), (''productId'', VStr (rm_ProductID raw))], au_CreatedAt = now\<rparr>"

definition register_child :: "RawMessage \<Rightarrow> string \<Rightarrow> unit eng" where
  "register_child raw gateway =
     ebind enow (\<lambda>now.
     ebind (new_id ''child_secret'') (\<lambda>secret.
     ebind (new_id []) (\<lambda>access.
     ebind (etry (repo_try (SaveManagedDevice (new_child raw gateway secret access now)))) (\<lambda>r. case r of
       Inl _ \<Rightarrow> efail (ErrText ''auto-register child device'')
     | Inr _ \<Rightarrow> RecordAudit (child_audit raw gateway now)))))"

definition ensureGatewayChild :: "RawMessage \<Rightarrow> unit eng" where
  "ensureGatewayChild raw =
     (if rm_GatewayID raw = [] \<or> rm_DeviceID raw = rm_GatewayID raw then eret ()
      else ebind (etry (repo_read (GetManagedDevice (rm_TenantID raw) (rm_GatewayID raw)))) (\<lambda>g. case g of
        Inl e \<Rightarrow> efail (if e = ErrNotFound then ErrPermanent ''gateway is not registered'' else ErrText ''load gateway'')
      | Inr gateway \<Rightarrow>
          if \<not> IsGateway gateway then efail (ErrPermanent ''device is not configured as a gateway'')
          else if rm_ProductID raw = [] then efail (ErrPermanent ''child productId is required'')
          else ebind (etry (repo_read (GetProduct (rm_TenantID raw) (rm_ProductID raw)))) (\<lambda>p.
            if isl p \<and> p \<noteq> Inl ErrNotFound then efail (ErrText ''load child product'')
            else if isl p \<or> pr_Status (projr p) \<noteq> ''ENABLED'' then efail (ErrPermanent ''child product is not enabled'')
            else ebind (etry (repo_read (GetManagedDevice (rm_TenantID raw) (rm_DeviceID raw)))) (\<lambda>c. case c of
              Inr child \<Rightarrow>
                if md_DeviceRole child \<noteq> ''CHILD'' \<or> md_GatewayID child \<noteq> md_ID gateway
                then efail (ErrPermanent ''device is already registered outside the gateway'')
                else if md_ProductID child \<noteq> rm_ProductID raw
                then efail (ErrPermanent ''child device product does not match its registration'')
                else eret ()
            | Inl e \<Rightarrow> if e = ErrNotFound then register_child raw (md_ID gateway) else efail (ErrText ''load child device'')))))"

subsection \<open>Archive and publication\<close>

definition GetRaw :: "codec \<Rightarrow> RawArchiveIndex \<Rightarrow> RawMessage eng" where
  "GetRaw cd index = ebind (easks en_archive) (\<lambda>store. case store of
     None \<Rightarrow> efail (ErrText ''raw message store is not configured'')
   | Some _ \<Rightarrow> Archive_GetRaw cd index)"

definition SetIngestPaused :: "bool \<Rightarrow> unit eng" where
  "SetIngestPaused paused = (\<lambda>w. (Inr (), w\<lparr>en_paused := paused\<rparr>))"

definition publishArchivedRaw :: "RawArchiveIndex \<Rightarrow> RawMessage \<Rightarrow> unit eng" where
  "publishArchivedRaw idx raw =
     ebind (etry (bus_publish TopicRaw (DeviceKey (rm_TenantID raw) (rm_DeviceID raw)) (PRaw raw))) (\<lambda>r. case r of
       Inl _ \<Rightarrow> ethen (eignore (repo_try (MarkRawPublished (ri_TenantID idx) (ri_MessageID idx) 0 ''publish'')))
                  (efail (ErrText ''publish archived raw''))
     | Inr _ \<Rightarrow> ebind enow (\<lambda>now.
         ebind (etry (repo_try (MarkRawPublished (ri_TenantID idx) (ri_MessageID idx) now []))) (\<lambda>m. case m of
           Inl _ \<Rightarrow> efail (ErrText ''mark raw published'')
         | Inr _ \<Rightarrow> eret ())))"

text \<open>The outcome of an admission: the index, whether the message is new, and the error.\<close>

type_synonym admission = "RawArchiveIndex \<times> bool \<times> err option"

definition no_index :: RawArchiveIndex where
  "no_index = \<lparr>ri_MessageID = [], ri_TenantID = [], ri_ProductID = [], ri_DeviceID = [], ri_Protocol = [], ri_PayloadFormat = [],
     ri_ObjectBucket = [], ri_ObjectKey = [], ri_ObjectOffset = 0, ri_PayloadHash = [], ri_PayloadSize = 0, ri_ReceivedAt = 0,
     ri_ArchivedAt = 0, ri_PublishedAt = 0, ri_PublishAttempts = 0, ri_LastPublishError = [], ri_ParseAttemptedAt = 0, ri_ParseError = []\<rparr>"

definition refused :: "err \<Rightarrow> admission eng" where
  "refused e = eret (no_index, False, Some e)"

definition with_protocol :: "RawMessage \<Rightarrow> RawMessage eng" where
  "with_protocol raw =
     (if rm_ProtocolID raw = [] \<or> rm_ProtocolVersion raw = [] then
        ebind (etry (productBinding (rm_TenantID raw) (rm_ProductID raw))) (\<lambda>b. case b of
          Inl _ \<Rightarrow> eret raw
        | Inr binding \<Rightarrow>
            let raw = raw\<lparr>rm_ProtocolID := pb_ProtocolID binding, rm_ProtocolVersion := pb_Version binding\<rparr> in
            ebind (etry (protocolRelease (rm_TenantID raw) (pb_ProtocolID binding) (pb_Version binding))) (\<lambda>l. case l of
              Inl _ \<Rightarrow> eret raw
            | Inr release \<Rightarrow> eret (raw\<lparr>rm_PointTableVersion := pl_PointTableVersion release\<rparr>)))
      else eret raw)"

definition different :: "RawArchiveIndex \<Rightarrow> RawMessage \<Rightarrow> bool" where
  "different existing raw \<longleftrightarrow> ri_PayloadHash existing \<noteq> PayloadHash raw \<or> ri_DeviceID existing \<noteq> rm_DeviceID raw \<or>
     ri_ProductID existing \<noteq> rm_ProductID raw"

text \<open>A message whose identity was reserved before and that has an index already.\<close>

definition known_raw :: "codec \<Rightarrow> RawArchiveIndex \<Rightarrow> RawMessage \<Rightarrow> admission eng" where
  "known_raw cd existing raw =
     (if different existing raw then eret (existing, False, Some ErrRawConflict)
      else if ri_PublishedAt existing = 0 then
        ebind (etry (GetRaw cd existing)) (\<lambda>s. case s of
          Inl _ \<Rightarrow> eret (existing, False, Some (ErrText ''read pending raw''))
        | Inr stored \<Rightarrow> ebind (etry (publishArchivedRaw existing stored)) (\<lambda>p. case p of
            Inl e \<Rightarrow> eret (existing, False, Some e)
          | Inr _ \<Rightarrow> eret (existing, False, None)))
      else eret (existing, False, None))"

definition archive_raw :: "codec \<Rightarrow> RawMessage \<Rightarrow> admission eng" where
  "archive_raw cd raw =
     ebind (easks en_archive) (\<lambda>store.
     if store = None then refused (ErrText ''raw message store is not configured'')
     else ebind (etry (PutRaw cd raw)) (\<lambda>a. case a of
       Inl _ \<Rightarrow> refused (ErrText ''archive raw'')
     | Inr idx \<Rightarrow> ebind (etry (repo_upd (SaveRawIndex idx))) (\<lambda>s. case s of
         Inl _ \<Rightarrow> eret (idx, False, Some (ErrText ''index raw''))
       | Inr created \<Rightarrow>
           if \<not> created then ebind (etry (repo_read (GetRawIndexAt (rm_TenantID raw) (rm_MessageID raw) (rm_ReceivedAt raw)))) (\<lambda>x. case x of
             Inl e \<Rightarrow> eret (idx, False, Some e)
           | Inr existing \<Rightarrow> eret (existing, False, if different existing raw then Some ErrRawConflict else None))
           else ebind (etry (publishArchivedRaw idx raw)) (\<lambda>p. case p of
             Inl e \<Rightarrow> eret (idx, True, Some e) | Inr _ \<Rightarrow> eret (idx, True, None)))))"

definition admit_raw :: "codec \<Rightarrow> (string \<Rightarrow> bool) \<Rightarrow> RawMessage \<Rightarrow> admission eng" where
  "admit_raw cd json_valid raw =
     ebind (etry (repo_try (ReserveRawMessage json_valid raw))) (\<lambda>res. case res of
       Inl e \<Rightarrow>
         if e = ErrRawConflict then ebind (etry (repo_read (GetRawIndex (rm_TenantID raw) (rm_MessageID raw)))) (\<lambda>x.
           eret (case x of Inl _ \<Rightarrow> no_index | Inr existing \<Rightarrow> existing, False, Some ErrRawConflict))
         else refused e
     | Inr (reserved, newReservation) \<Rightarrow>
         if newReservation then archive_raw cd reserved
         else ebind (etry (repo_read (GetRawIndexAt (rm_TenantID raw) (rm_MessageID raw) (rm_ReceivedAt reserved)))) (\<lambda>x. case x of
           Inr existing \<Rightarrow> known_raw cd existing raw
         | Inl e \<Rightarrow> if e = ErrNotFound then archive_raw cd reserved else refused (ErrText ''read reserved raw index'')))"

definition IngestRaw :: "codec \<Rightarrow> (string \<Rightarrow> bool) \<Rightarrow> RawMessage \<Rightarrow> admission eng" where
  "IngestRaw cd json_valid raw =
     ebind (easks en_paused) (\<lambda>paused.
     if paused then refused ErrBackpressure
     else ebind enow (\<lambda>now.
       ebind (with_protocol (Normalize now raw)) (\<lambda>raw. case Validate_raw raw of
         Some e \<Rightarrow> refused e
       | None \<Rightarrow> ebind (etry (ensureGatewayChild raw)) (\<lambda>g. case g of
           Inl e \<Rightarrow> refused e
         | Inr _ \<Rightarrow> admit_raw cd json_valid raw))))"

definition receipt_topic :: "RawMessage \<Rightarrow> string" where
  "receipt_topic raw = ''/iot/down/'' @ rm_TenantID raw @ ''/'' @ rm_ProductID raw @ ''/'' @ rm_DeviceID raw @ ''/receipt''"

definition client_id :: "RawMessage \<Rightarrow> string" where
  "client_id raw = (case gm_get (rm_Metadata raw) ''clientMessageId'' of
     Some (VStr i) \<Rightarrow> if i = [] then rm_MessageID raw else i | _ \<Rightarrow> rm_MessageID raw)"

definition receipt :: "RawMessage \<Rightarrow> RawArchiveIndex \<Rightarrow> gval gomap" where
  "receipt raw index = [(''id'', VStr (client_id raw)), (''rawMessageId'', VStr (ri_MessageID index)), (''payloadHash'', VStr (ri_PayloadHash index)),
     (''status'', VStr ''archived''), (''archivedAt'', VInt KInt64 (ri_ArchivedAt index))]"

definition IngestMQTT :: "codec \<Rightarrow> (string \<Rightarrow> bool) \<Rightarrow> RawMessage \<Rightarrow> unit eng" where
  "IngestMQTT cd json_valid raw =
     ebind (IngestRaw cd json_valid raw) (\<lambda>(index, _, e). case e of
       Some e \<Rightarrow> efail e
     | None \<Rightarrow> rt_publish (receipt_topic raw) (PObject (receipt raw index)) False)"

text \<open>One pass over the messages whose publication failed; the count of stalled messages only feeds a metric.\<close>

definition retry_raw :: "codec \<Rightarrow> RawArchiveIndex \<Rightarrow> unit eng" where
  "retry_raw cd idx =
     ebind (etry (GetRaw cd idx)) (\<lambda>r. case r of
       Inl _ \<Rightarrow> eignore (repo_try (MarkRawPublished (ri_TenantID idx) (ri_MessageID idx) 0 ''archive''))
     | Inr raw \<Rightarrow> eignore (publishArchivedRaw idx raw))"

definition retryPendingRawOnce :: "codec \<Rightarrow> unit eng" where
  "retryPendingRawOnce cd =
     ebind (etry (repo_val (ListPendingRawIndexes 200))) (\<lambda>l. case l of
       Inl _ \<Rightarrow> efail (ErrText ''list pending raw'')
     | Inr indexes \<Rightarrow> efor indexes (retry_raw cd))"

end
