(* ===== verification/Raw_Parsing.thy ===== *)
theory Raw_Parsing
  imports Ingest
begin

text \<open>
  The parsing of published raw messages: the registry of parsers (\<^verbatim>\<open>internal/parser/parser.go\<close>) and \<^verbatim>\<open>handleRaw\<close> of
  \<^verbatim>\<open>internal/core/engine.go\<close>. A parser is a value of the interface \<^verbatim>\<open>Parser\<close>; the optional interfaces of a parser that takes a configuration are
  one optional field. Error texts are kept without their arguments.
\<close>

subsection \<open>The registry\<close>

record Meta =
  mt_TenantID :: string
  mt_ProductID :: string
  mt_DeviceID :: string
  mt_Protocol :: string
  mt_PayloadFormat :: string

record Parser =
  pa_Name :: string
  pa_Version :: string
  pa_Match :: "Meta \<Rightarrow> bool"
  pa_Parse :: "RawMessage \<Rightarrow> string + StandardMessage"
  pa_Config :: "(RawMessage \<Rightarrow> gval gomap \<Rightarrow> string + StandardMessage) option"

record Registry =
  rg_parsers :: "Parser list"
  rg_automatic :: "Parser list"

definition NewRegistry :: "Parser list \<Rightarrow> Registry" where
  "NewRegistry parsers = \<lparr>rg_parsers = parsers, rg_automatic = parsers\<rparr>"

definition parsed_by :: "Parser \<Rightarrow> string + StandardMessage \<Rightarrow> string + StandardMessage" where
  "parsed_by p r = (case r of
     Inl e \<Rightarrow> Inl (pa_Name p @ ''@'' @ pa_Version p @ '': '' @ e)
   | Inr m \<Rightarrow> Inr (m\<lparr>sm_Parser := pa_Name p, sm_ParserVersion := pa_Version p\<rparr>))"

definition run_parser :: "Parser \<Rightarrow> gval gomap \<Rightarrow> RawMessage \<Rightarrow> string + StandardMessage" where
  "run_parser p config raw = parsed_by p (case pa_Config p of Some f \<Rightarrow> f raw config | None \<Rightarrow> pa_Parse p raw)"

definition ParseVersionWithConfig :: "Registry \<Rightarrow> string \<Rightarrow> string \<Rightarrow> gval gomap \<Rightarrow> RawMessage \<Rightarrow> string + StandardMessage" where
  "ParseVersionWithConfig reg name version config raw =
     (case find (\<lambda>p. pa_Name p = name \<and> (version = [] \<or> pa_Version p = version)) (rg_parsers reg) of
        Some p \<Rightarrow> run_parser p config raw
      | None \<Rightarrow> Inl (if version \<noteq> [] then ''parser version is not registered'' else ''parser is not registered''))"

definition ParseWithConfig :: "Registry \<Rightarrow> string \<Rightarrow> gval gomap \<Rightarrow> RawMessage \<Rightarrow> string + StandardMessage" where
  "ParseWithConfig reg name config raw = ParseVersionWithConfig reg name [] config raw"

definition ParseWith :: "Registry \<Rightarrow> string \<Rightarrow> RawMessage \<Rightarrow> string + StandardMessage" where
  "ParseWith reg name raw = ParseVersionWithConfig reg name [] [] raw"

definition raw_meta :: "RawMessage \<Rightarrow> Meta" where
  "raw_meta raw = \<lparr>mt_TenantID = rm_TenantID raw, mt_ProductID = rm_ProductID raw, mt_DeviceID = rm_DeviceID raw, mt_Protocol = rm_Protocol raw,
     mt_PayloadFormat = rm_PayloadFormat raw\<rparr>"

definition Parse :: "Registry \<Rightarrow> RawMessage \<Rightarrow> string + StandardMessage" where
  "Parse reg raw =
     (case find (\<lambda>p. pa_Match p (raw_meta raw)) (rg_automatic reg) of
        Some p \<Rightarrow> parsed_by p (pa_Parse p raw)
      | None \<Rightarrow> Inl ''no protocol binding'')"

definition ManagedParserTypes :: "string list" where
  "ManagedParserTypes = [''custom_json_parser'', ''configurable_json_parser'', ''configurable_hex_parser'', ''go_protocol_parser'']"

definition ManagedParserType :: "string \<Rightarrow> bool" where
  "ManagedParserType name \<longleftrightarrow> name \<in> set ManagedParserTypes"

subsection \<open>Two parsers of the registry\<close>

text \<open>The payload without its quotes and blanks, as bytes.\<close>

definition unquoted :: "RawMessage \<Rightarrow> string" where
  "unquoted raw = trim_by (\<lambda>c. c = CHR 0x22) (rm_Payload raw)"

definition hex_bytes :: "string \<Rightarrow> bytes option" where
  "hex_bytes s = hex_decode (remove_chars [CHR '' ''] s)"

definition hex_message :: "RawMessage \<Rightarrow> MessageType \<Rightarrow> gval gomap \<Rightarrow> StandardMessage" where
  "hex_message raw kind props = \<lparr>sm_MessageID = ''msg_'' @ trim_prefix (rm_MessageID raw) ''raw_'', sm_RawMessageID = rm_MessageID raw,
     sm_TenantID = rm_TenantID raw, sm_ProductID = rm_ProductID raw, sm_DeviceID = rm_DeviceID raw, sm_MessageType = kind,
     sm_Timestamp = rm_ReceivedAt raw, sm_Properties = props, sm_Event = [], sm_Tags = [],
     sm_Raw = [(''payloadFormat'', VStr ''hex''), (''payload'', VStr (unquoted raw))], sm_Parser = [], sm_ParserVersion = []\<rparr>"

text \<open>The registers of a Modbus response, two bytes each, the high one first.\<close>

fun registers :: "nat \<Rightarrow> bytes \<Rightarrow> gval gomap" where
  "registers i (hi # lo # bs) = (''register_'' @ nat_digits i, VInt KInt (int (unat (be16 [hi, lo])))) # registers (i + 1) bs"
| "registers i _ = []"

definition Parse_Modbus :: "RawMessage \<Rightarrow> string + StandardMessage" where
  "Parse_Modbus raw = (case hex_bytes (unquoted raw) of
     None \<Rightarrow> Inl ''encoding/hex''
   | Some data \<Rightarrow>
       if length data < 5 then Inl ''modbus payload too short''
       else let byteCount = unat (data ! 2) in
         if length data < 3 + byteCount then Inl ''modbus byte count exceeds payload''
         else Inr (hex_message raw PropertyReport (registers 0 (take byteCount (drop 3 data)))))"

subsection \<open>handleRaw\<close>

definition bound_protocol :: "RawMessage \<Rightarrow> (string \<times> string) eng" where
  "bound_protocol raw =
     (if rm_ProtocolID raw = [] \<or> rm_ProtocolVersion raw = [] then
        ebind (etry (productBinding (rm_TenantID raw) (rm_ProductID raw))) (\<lambda>b. case b of
          Inr binding \<Rightarrow> eret (pb_ProtocolID binding, pb_Version binding)
        | Inl e \<Rightarrow> if e \<noteq> ErrNotFound then efail (ErrText ''load protocol binding'') else eret (rm_ProtocolID raw, rm_ProtocolVersion raw))
      else eret (rm_ProtocolID raw, rm_ProtocolVersion raw))"

definition release_parse :: "Registry \<Rightarrow> RawMessage \<Rightarrow> string \<times> string \<Rightarrow> (string + StandardMessage) option eng" where
  "release_parse reg raw pv = (case pv of (protocolID, version) \<Rightarrow>
     if protocolID \<noteq> [] \<and> version \<noteq> [] then
       ebind (etry (protocolRelease (rm_TenantID raw) protocolID version)) (\<lambda>l. case l of
         Inl e \<Rightarrow> if e \<noteq> ErrNotFound then efail (ErrText ''load protocol release'') else eret (Some (Inl ''protocol release not found''))
       | Inr release \<Rightarrow>
           if pl_Status release = ''REVOKED'' then eret (Some (Inl ''protocol release is revoked''))
           else eret (Some (ParseWithConfig reg (pl_ParserType release) (pl_Config release)
             (raw\<lparr>rm_ProtocolID := protocolID, rm_ProtocolVersion := version,
                  rm_PointTableVersion := (if rm_PointTableVersion raw = [] then pl_PointTableVersion release else rm_PointTableVersion raw)\<rparr>))))
     else eret None)"

definition package_parse :: "Registry \<Rightarrow> RawMessage \<Rightarrow> Product option \<Rightarrow> (string + StandardMessage) option eng" where
  "package_parse reg raw product = (case product of
     None \<Rightarrow> eret None
   | Some p \<Rightarrow>
       if pr_ProtocolPackageID p = [] then eret None
       else ebind (etry (repo_read (GetProtocolPackage (rm_TenantID raw) (pr_ProtocolPackageID p)))) (\<lambda>g. case g of
         Inl e \<Rightarrow> if e \<noteq> ErrNotFound then efail (ErrText ''load protocol package'') else eret None
       | Inr pkg \<Rightarrow>
           if pp_Status pkg = ''PUBLISHED''
           then eret (Some (ParseVersionWithConfig reg (pp_ParserType pkg) (rm_ParserVersion raw) (pp_Config pkg) raw))
           else eret None))"

text \<open>The product of the message; a repository failure is an error, a missing product is none.\<close>

definition product_of :: "RawMessage \<Rightarrow> Product option eng" where
  "product_of raw = ebind (etry (cachedProduct (rm_TenantID raw) (rm_ProductID raw))) (\<lambda>p. case p of
     Inr product \<Rightarrow> eret (Some product)
   | Inl e \<Rightarrow> if e \<noteq> ErrNotFound then efail (ErrText ''load product'') else eret None)"

definition external_tags :: "RawMessage \<Rightarrow> string gomap \<Rightarrow> string gomap" where
  "external_tags raw tags = fold (\<lambda>name tags. case gm_get (rm_Metadata raw) name of Some (VStr v) \<Rightarrow> gm_put name v tags | _ \<Rightarrow> tags)
     [''externalEventKey'', ''externalSourceId'', ''externalEventId'', ''externalVideoEvent''] tags"

text \<open>The checks and marks of a parsed message.\<close>

definition finish_parse :: "RawMessage \<Rightarrow> Product option \<Rightarrow> StandardMessage \<Rightarrow> string + StandardMessage" where
  "finish_parse raw product msg = (case MessageComponents msg of
     Inl e \<Rightarrow> Inl e
   | Inr _ \<Rightarrow>
       let msg = (case product of None \<Rightarrow> msg | Some p \<Rightarrow> markThingQuality p msg)
       in Inr (if rm_Source raw = ''external-data'' then msg\<lparr>sm_Tags := external_tags raw (sm_Tags msg)\<rparr> else msg))"

definition parse_raw :: "Registry \<Rightarrow> RawMessage \<Rightarrow> (string + StandardMessage) eng" where
  "parse_raw reg raw =
     ebind (bound_protocol raw) (\<lambda>pv.
     ebind (release_parse reg raw pv) (\<lambda>released.
     ebind (product_of raw) (\<lambda>product.
     ebind (if released = None then package_parse reg raw product else eret released) (\<lambda>packaged.
       eret (case (case packaged of Some r \<Rightarrow> r | None \<Rightarrow> Parse reg raw) of
         Inl e \<Rightarrow> Inl e | Inr msg \<Rightarrow> finish_parse raw product msg)))))"

definition report_topic :: "MessageType \<Rightarrow> string" where
  "report_topic t = (case t of EventReport \<Rightarrow> TopicEventReport | AlarmReport \<Rightarrow> TopicEventReport | PropertyReport \<Rightarrow> TopicPropertyReport | _ \<Rightarrow> TopicParsed)"

definition forward :: "StandardMessage \<Rightarrow> unit eng" where
  "forward msg =
     (let k = DeviceKey (sm_TenantID msg) (sm_DeviceID msg) in
      ebind (etry (bus_publish TopicDeviceBusiness k (PStandard msg))) (\<lambda>b. case b of
        Inl _ \<Rightarrow> efail (ErrText ''publish parsed message to device business stream'')
      | Inr _ \<Rightarrow> ebind (easks en_publishExternal) (\<lambda>external.
          ebind (if external then etry (bus_publish (report_topic (sm_MessageType msg)) k (PStandard msg)) else eret (Inr ())) (\<lambda>t. case t of
            Inl _ \<Rightarrow> efail (ErrText ''publish parsed message to kafka topic'')
          | Inr _ \<Rightarrow> ebind (etry (rt_publish (StandardMessage_MQTTTopic msg) (PStandard msg) False)) (\<lambda>m. case m of
              Inl _ \<Rightarrow> efail (ErrText ''publish parsed message to mqtt'')
            | Inr _ \<Rightarrow> eret ())))))"

definition handleRaw :: "codec \<Rightarrow> Registry \<Rightarrow> string \<Rightarrow> unit eng" where
  "handleRaw cd reg b = (case cd_unmarshal cd b of
     None \<Rightarrow> efail (ErrPermanent ''invalid JSON'')
   | Some raw \<Rightarrow> ebind (parse_raw reg raw) (\<lambda>r.
       ebind enow (\<lambda>now.
       ethen (repo_put (MarkRawParseResult (rm_TenantID raw) (rm_MessageID raw) now (case r of Inl e \<Rightarrow> take 512 e | Inr _ \<Rightarrow> [])))
         (case r of Inl _ \<Rightarrow> eret () | Inr msg \<Rightarrow> forward msg))))"

end
