(* ===== verification/Ingest_Safety.thy ===== *)
theory Ingest_Safety
  imports Raw_Parsing Engine_Progress
begin

text \<open>
  What the admission of raw messages guarantees: an acknowledged message is indexed, readable from the archive and
  published; a repeated message changes nothing; the retry publishes what was left. No other worker interferes here, but the
  bus and the archive may fail at any call.
\<close>

subsection \<open>Object keys\<close>

lemma split_slash: "xs @ CHR ''/'' # ys = xs' @ CHR ''/'' # ys' \<Longrightarrow> CHR ''/'' \<notin> set xs \<Longrightarrow> CHR ''/'' \<notin> set xs' \<Longrightarrow> xs = xs' \<and> ys = ys'"
  by (induction xs arbitrary: xs') (auto simp: append_eq_Cons_conv Cons_eq_append_conv)

lemma safe_no_slash: "CHR ''/'' \<notin> set (safe v)"
  by (auto simp: safe_def)

lemma digits_no_slash: "CHR ''/'' \<notin> set (nat_digits n)"
proof (induction n rule: nat_digits.induct)
  case (1 n)
  have d: "digit_char k \<noteq> CHR ''/''" if "k < 10" for k
  proof -
    have "list_all (\<lambda>k. digit_char k \<noteq> CHR ''/'') [0..<10]" by code_simp
    then show ?thesis using that by (auto simp: list_all_iff)
  qed
  show ?case using 1 d [of n] d [of "n mod 10"] by (subst nat_digits.simps) auto
qed

lemma padded_no_slash: "CHR ''/'' \<notin> set (padded n i)"
  using digits_no_slash by (auto simp: padded_def int_digits_def Let_def)

lemma padded_two: "0 \<le> i \<Longrightarrow> i < 60 \<Longrightarrow> length (padded 2 i) = 2"
proof -
  assume i: "0 \<le> i" "i < 60"
  then obtain n where n: "i = int n" "n < 60" by (metis nonneg_int_cases of_nat_less_iff of_nat_numeral)
  have "list_all (\<lambda>n. length (padded 2 (int n)) = 2) [0..<60]" by code_simp
  then show ?thesis using n by (auto simp: list_all_iff)
qed

text \<open>The key of an object determines the cleaned tenant and message of the message it was made for.\<close>

lemma raw_key_inject:
  assumes "raw_key m = raw_key m'"
  shows "safe (rm_TenantID m) = safe (rm_TenantID m') \<and> safe (rm_MessageID m) = safe (rm_MessageID m')"
proof -
  have hp: "\<exists>y mo d h mi. hour_path ms = y @ ''/'' @ mo @ ''/'' @ d @ ''/'' @ h @ ''/'' @ (''raw-'' @ mi @ ''-'') \<and> length mi = 2 \<and>
      CHR ''/'' \<notin> set y \<and> CHR ''/'' \<notin> set mo \<and> CHR ''/'' \<notin> set d \<and> CHR ''/'' \<notin> set h" for ms
  proof -
    let ?t = "ms div 1000 + unix_epoch"
    let ?y = "time_Year ?t"
    let ?d = "?t div 86400 - days_before_year ?y"
    let ?mo = "month_of ?y ?d"
    have "0 \<le> ?t mod 86400 mod 3600 div 60" by (simp add: pos_imp_zdiv_nonneg_iff)
    moreover have "?t mod 86400 mod 3600 div 60 < 60"
    proof -
      have "?t mod 86400 mod 3600 < 3600" by simp
      then show ?thesis by linarith
    qed
    ultimately have "length (padded 2 (?t mod 86400 mod 3600 div 60)) = 2" by (rule padded_two)
    moreover have "hour_path ms = padded 4 ?y @ ''/'' @ padded 2 ?mo @ ''/'' @ padded 2 (?d - days_before_month ?y ?mo + 1) @ ''/'' @
        padded 2 (?t mod 86400 div 3600) @ ''/'' @ (''raw-'' @ padded 2 (?t mod 86400 mod 3600 div 60) @ ''-'')"
      unfolding hour_path_def Let_def by (simp only: append_assoc append.simps)
    ultimately show ?thesis using padded_no_slash by blast
  qed
  obtain y mo d h mi where 1: "hour_path (rm_ReceivedAt m) = y @ ''/'' @ mo @ ''/'' @ d @ ''/'' @ h @ ''/'' @ (''raw-'' @ mi @ ''-'')" "length mi = 2"
    "CHR ''/'' \<notin> set y" "CHR ''/'' \<notin> set mo" "CHR ''/'' \<notin> set d" "CHR ''/'' \<notin> set h" using hp by blast
  obtain y' mo' d' h' mi' where 2: "hour_path (rm_ReceivedAt m') = y' @ ''/'' @ mo' @ ''/'' @ d' @ ''/'' @ h' @ ''/'' @ (''raw-'' @ mi' @ ''-'')" "length mi' = 2"
    "CHR ''/'' \<notin> set y'" "CHR ''/'' \<notin> set mo'" "CHR ''/'' \<notin> set d'" "CHR ''/'' \<notin> set h'" using hp by blast
  have k: "raw_key x = safe (rm_TenantID x) @ CHR ''/'' # safe (rm_ProductID x) @ CHR ''/'' # safe (rm_DeviceID x) @ CHR ''/'' # z @ safe (rm_MessageID x) @ ''.jsonl.gz''"
    if "hour_path (rm_ReceivedAt x) = z" for x z using that by (simp add: raw_key_def)
  note e1 = split_slash [OF assms [unfolded k [OF 1(1)] k [OF 2(1)]] safe_no_slash safe_no_slash]
  note e2 = split_slash [OF conjunct2 [OF e1] safe_no_slash safe_no_slash]
  note e3 = conjunct2 [OF split_slash [OF conjunct2 [OF e2] safe_no_slash safe_no_slash]]
  have e4: "y @ CHR ''/'' # mo @ CHR ''/'' # d @ CHR ''/'' # h @ CHR ''/'' # ''raw-'' @ mi @ ''-'' @ safe (rm_MessageID m) @ ''.jsonl.gz'' =
      y' @ CHR ''/'' # mo' @ CHR ''/'' # d' @ CHR ''/'' # h' @ CHR ''/'' # ''raw-'' @ mi' @ ''-'' @ safe (rm_MessageID m') @ ''.jsonl.gz''"
    using e3 by (simp only: append_assoc append.simps)
  note e5 = conjunct2 [OF split_slash [OF e4 1(3) 2(3)]]
  note e6 = conjunct2 [OF split_slash [OF e5 1(4) 2(4)]]
  note e7 = conjunct2 [OF split_slash [OF e6 1(5) 2(5)]]
  note e8 = conjunct2 [OF split_slash [OF e7 1(6) 2(6)]]
  from e8 have "safe (rm_MessageID m) = safe (rm_MessageID m')" using 1(2) 2(2) by simp
  with e1 show ?thesis by blast
qed

subsection \<open>What the preparation of a message leaves alone\<close>

definition prepared :: "engine \<Rightarrow> engine \<Rightarrow> bool" where
  "prepared w w' \<longleftrightarrow> en_sched w' = [] \<and> rp_raw (en_repo w') = rp_raw (en_repo w) \<and> rp_rawReservations (en_repo w') = rp_rawReservations (en_repo w) \<and>
     en_archive w' = en_archive w \<and> en_archive_faults w' = en_archive_faults w \<and> en_bus w' = en_bus w \<and> en_bus_faults w' = en_bus_faults w \<and>
     en_clock w' = en_clock w \<and> en_rt w' = en_rt w \<and> en_rt_faults w' = en_rt_faults w \<and> en_publishExternal w' = en_publishExternal w"

lemma prepared_refl: "en_sched w = [] \<Longrightarrow> prepared w w"
  by (simp add: prepared_def)

lemma prepared_read: "keeps (prepared w) (repo_read f)"
  by (rule keepsI) (simp add: prepared_def quiet_calls)

lemma prepared_op:
  assumes "\<And>r. rp_raw (snd (f r)) = rp_raw r" "\<And>r. rp_rawReservations (snd (f r)) = rp_rawReservations r"
  shows "keeps (prepared w) (repo_try f)"
proof (rule keepsI)
  fix w1 assume p: "prepared w w1"
  then have "repo_try f w1 = (case f (en_repo w1) of (x, r) \<Rightarrow> (x, w1\<lparr>en_repo := r\<rparr>))" by (simp add: prepared_def quiet_calls)
  then show "prepared w (snd (repo_try f w1))" using p assms [of "en_repo w1"] by (simp add: prepared_def split: prod.splits)
qed

lemma prepared_put:
  assumes "\<And>r. rp_raw (f r) = rp_raw r" "\<And>r. rp_rawReservations (f r) = rp_rawReservations r"
  shows "keeps (prepared w) (repo_put f)"
  by (rule keepsI) (simp add: prepared_def quiet_calls assms)

lemma prepared_caches: "keeps (prepared w) (set_tenant_protocols t f)" "keeps (prepared w) (new_id p)" "keeps (prepared w) (eresult r)"
  by (rule keepsI, simp add: prepared_def set_tenant_protocols_def new_id_def eresult_def eret_def efail_def split: sum.splits)+

lemma prepared_binding: "keeps (prepared w) (productBinding t p)"
  unfolding productBinding_def by (intro keep_rules prepared_read prepared_caches)

lemma prepared_release: "keeps (prepared w) (protocolRelease t p v)"
  unfolding protocolRelease_def by (intro keep_rules prepared_read prepared_caches)

lemma prepared_product: "keeps (prepared w) (cachedProduct t p)"
  unfolding cachedProduct_def by (intro keep_rules prepared_read prepared_caches)

lemma prepared_protocol: "keeps (prepared w) (with_protocol raw)"
  unfolding with_protocol_def by (intro keep_rules prepared_binding prepared_release)

lemma prepared_child: "keeps (prepared w) (ensureGatewayChild raw)"
  unfolding ensureGatewayChild_def register_child_def RecordAudit_def
  by (intro keep_rules prepared_read prepared_caches prepared_op prepared_put) (simp_all add: SaveManagedDevice_def SaveAudit_def)

lemma with_protocol_value:
  "\<exists>i v t. fst (with_protocol raw w) = Inr (raw\<lparr>rm_ProtocolID := i, rm_ProtocolVersion := v, rm_PointTableVersion := t\<rparr>)"
proof -
  have same: "\<exists>i v t. raw = raw\<lparr>rm_ProtocolID := i, rm_ProtocolVersion := v, rm_PointTableVersion := t\<rparr>"
    by (intro exI [of _ "rm_ProtocolID raw"] exI [of _ "rm_ProtocolVersion raw"] exI [of _ "rm_PointTableVersion raw"]) simp
  have same1: "\<exists>i v t. raw\<lparr>rm_ProtocolID := a, rm_ProtocolVersion := b\<rparr> = raw\<lparr>rm_ProtocolID := i, rm_ProtocolVersion := v, rm_PointTableVersion := t\<rparr>" for a b
    by (intro exI [of _ a] exI [of _ b] exI [of _ "rm_PointTableVersion raw"]) simp
  show ?thesis
    using same same1 by (auto simp: with_protocol_def ebind_eq etry_eq eret_def Let_def split: sum.splits)
qed

subsection \<open>The invariant of archive, index and bus\<close>

text \<open>The archive returns the content of the index, and the bus has carried it.\<close>

definition matches :: "RawMessage \<Rightarrow> RawArchiveIndex \<Rightarrow> bool" where
  "matches m v \<longleftrightarrow> rm_TenantID m = ri_TenantID v \<and> rm_MessageID m = ri_MessageID v \<and> PayloadHash m = ri_PayloadHash v"

definition readable :: "codec \<Rightarrow> engine \<Rightarrow> RawArchiveIndex \<Rightarrow> bool" where
  "readable cd w v \<longleftrightarrow> (\<exists>b m. gm_get (archive_files w) (object_path (ri_ObjectBucket v) (ri_ObjectKey v)) = Some b \<and> cd_unmarshal cd b = Some m \<and> matches m v)"

definition on_bus :: "engine \<Rightarrow> RawArchiveIndex \<Rightarrow> bool" where
  "on_bus w v \<longleftrightarrow> (\<exists>e \<in> set (en_bus w). be_Topic e = TopicRaw \<and> (\<exists>m. be_Payload e = PRaw m \<and> matches m v))"

definition reserved_as :: "engine \<Rightarrow> string \<Rightarrow> string \<Rightarrow> bool" where
  "reserved_as w k h \<longleftrightarrow> (\<exists>res. gm_get (rp_rawReservations (en_repo w)) k = Some res \<and> rr_Hash res = h)"

definition index_ok :: "codec \<Rightarrow> engine \<Rightarrow> string \<Rightarrow> RawArchiveIndex \<Rightarrow> bool" where
  "index_ok cd w k v \<longleftrightarrow> k = key [ri_TenantID v, ri_MessageID v] \<and> clean (ri_TenantID v) \<and> reserved_as w k (ri_PayloadHash v) \<and> readable cd w v \<and>
     (ri_PublishedAt v \<noteq> 0 \<longrightarrow> on_bus w v)"

definition plain :: "string \<Rightarrow> bool" where
  "plain v \<longleftrightarrow> safe v = v"

definition file_ok :: "codec \<Rightarrow> engine \<Rightarrow> string \<Rightarrow> string \<Rightarrow> bool" where
  "file_ok cd w path b \<longleftrightarrow> (\<exists>m m'. path = object_path raw_bucket (raw_key m) \<and> plain (rm_TenantID m) \<and> plain (rm_MessageID m) \<and>
     cd_unmarshal cd b = Some m' \<and> rm_TenantID m' = rm_TenantID m \<and> rm_MessageID m' = rm_MessageID m \<and> rm_Payload m' = rm_Payload m \<and>
     reserved_as w (key [rm_TenantID m, rm_MessageID m]) (PayloadHash m))"

definition raw_inv :: "codec \<Rightarrow> engine \<Rightarrow> bool" where
  "raw_inv cd w \<longleftrightarrow> (\<forall>k v. gm_get (rp_raw (en_repo w)) k = Some v \<longrightarrow> index_ok cd w k v) \<and>
     (\<forall>p b. gm_get (archive_files w) p = Some b \<longrightarrow> file_ok cd w p b)"

text \<open>Reservations, files and publications are only added.\<close>

definition grows :: "engine \<Rightarrow> engine \<Rightarrow> bool" where
  "grows w w' \<longleftrightarrow> gm_get (rp_rawReservations (en_repo w)) \<subseteq>\<^sub>m gm_get (rp_rawReservations (en_repo w')) \<and>
     gm_get (archive_files w) \<subseteq>\<^sub>m gm_get (archive_files w') \<and> set (en_bus w) \<subseteq> set (en_bus w')"

lemma grows_reserved: "grows w w' \<Longrightarrow> reserved_as w k h \<Longrightarrow> reserved_as w' k h"
  unfolding grows_def reserved_as_def map_le_def by (metis domI)

lemma grows_index:
  assumes "grows w w'" "index_ok cd w k v"
  shows "index_ok cd w' k v"
proof -
  have "readable cd w' v" using assms unfolding index_ok_def readable_def grows_def map_le_def by (metis domI)
  moreover have "ri_PublishedAt v \<noteq> 0 \<longrightarrow> on_bus w' v" using assms unfolding index_ok_def on_bus_def grows_def by blast
  ultimately show ?thesis using assms grows_reserved unfolding index_ok_def by blast
qed

lemma grows_file: "grows w w' \<Longrightarrow> file_ok cd w p b \<Longrightarrow> file_ok cd w' p b"
  unfolding file_ok_def using grows_reserved by blast

text \<open>The invariant after a growth that adds sound files and indexes.\<close>

lemma raw_inv_grows:
  assumes "raw_inv cd w" "grows w w'"
    and "\<And>k v. gm_get (rp_raw (en_repo w')) k = Some v \<Longrightarrow> gm_get (rp_raw (en_repo w)) k = Some v \<or> index_ok cd w' k v"
    and "\<And>p b. gm_get (archive_files w') p = Some b \<Longrightarrow> gm_get (archive_files w) p = Some b \<or> file_ok cd w' p b"
  shows "raw_inv cd w'"
  using assms grows_index [OF assms(2)] grows_file [OF assms(2)] unfolding raw_inv_def by blast

lemma raw_inv_index: "raw_inv cd w \<Longrightarrow> gm_get (rp_raw (en_repo w)) k = Some v \<Longrightarrow> index_ok cd w k v"
  by (simp add: raw_inv_def)

lemma raw_inv_same:
  assumes "raw_inv cd w" "rp_raw (en_repo w') = rp_raw (en_repo w)" "rp_rawReservations (en_repo w') = rp_rawReservations (en_repo w)"
    "en_archive w' = en_archive w" "set (en_bus w) \<subseteq> set (en_bus w')"
  shows "raw_inv cd w'"
  using assms by (intro raw_inv_grows [OF assms(1)]) (auto simp: grows_def archive_files_def)

lemma raw_inv_prepared: "raw_inv cd w \<Longrightarrow> prepared w w' \<Longrightarrow> raw_inv cd w'"
  by (rule raw_inv_same) (auto simp: prepared_def)

subsection \<open>Publication\<close>

definition marked :: "int \<Rightarrow> string \<Rightarrow> RawArchiveIndex \<Rightarrow> RawArchiveIndex" where
  "marked now e v = (let v1 = v\<lparr>ri_PublishAttempts := ri_PublishAttempts v + 1, ri_LastPublishError := e\<rparr> in
     if e = [] then v1\<lparr>ri_PublishedAt := now\<rparr> else v1)"

lemma MarkRawPublished_eq: "gm_get (rp_raw r) (key [t, i]) = Some v \<Longrightarrow>
    MarkRawPublished t i now e r = (Inr (), r\<lparr>rp_raw := gm_put (key [t, i]) (marked now e v) (rp_raw r)\<rparr>)"
  by (simp add: MarkRawPublished_def marked_def Let_def)

lemma marked_fields [simp]:
  "ri_TenantID (marked now e v) = ri_TenantID v" "ri_MessageID (marked now e v) = ri_MessageID v" "ri_PayloadHash (marked now e v) = ri_PayloadHash v"
  "ri_ObjectBucket (marked now e v) = ri_ObjectBucket v" "ri_ObjectKey (marked now e v) = ri_ObjectKey v"
  "ri_DeviceID (marked now e v) = ri_DeviceID v" "ri_ProductID (marked now e v) = ri_ProductID v"
  "ri_PublishedAt (marked now e v) = (if e = [] then now else ri_PublishedAt v)"
  by (simp_all add: marked_def Let_def)

lemma matches_marked [simp]: "matches m (marked now e v) = matches m v"
  by (simp add: matches_def)

text \<open>The world after a publication of \<open>raw\<close> for the index \<open>v\<close>: with and without a failure of the bus.\<close>

definition published_world :: "RawArchiveIndex \<Rightarrow> RawMessage \<Rightarrow> engine \<Rightarrow> engine" where
  "published_world v raw w =
     (let fault = (case en_bus_faults w of [] \<Rightarrow> False | b # _ \<Rightarrow> b);
          k = key [ri_TenantID v, ri_MessageID v]; r = en_repo w;
          v' = (if fault then marked 0 ''publish'' v else marked (en_clock w) [] v);
          w1 = w\<lparr>en_bus_faults := tl (en_bus_faults w), en_repo := r\<lparr>rp_raw := gm_put k v' (rp_raw r)\<rparr>\<rparr>
      in if fault then w1 else w1\<lparr>en_bus := en_bus w @ [\<lparr>be_Topic = TopicRaw, be_Key = DeviceKey (rm_TenantID raw) (rm_DeviceID raw), be_Payload = PRaw raw\<rparr>]\<rparr>)"

lemma published_world_fields [simp]:
  "en_archive (published_world v raw w) = en_archive w" "en_archive_faults (published_world v raw w) = en_archive_faults w"
  "en_sched (published_world v raw w) = en_sched w" "en_clock (published_world v raw w) = en_clock w"
  "en_bus_faults (published_world v raw w) = tl (en_bus_faults w)" "archive_files (published_world v raw w) = archive_files w"
  "rp_rawReservations (en_repo (published_world v raw w)) = rp_rawReservations (en_repo w)"
  by (simp_all add: published_world_def Let_def archive_files_def)

definition bus_fails :: "engine \<Rightarrow> bool" where
  "bus_fails w \<longleftrightarrow> (case en_bus_faults w of [] \<Rightarrow> False | b # _ \<Rightarrow> b)"

lemma publish_eq:
  assumes "en_sched w = []" "gm_get (rp_raw (en_repo w)) (key [ri_TenantID v, ri_MessageID v]) = Some v"
    "ri_TenantID idx = ri_TenantID v" "ri_MessageID idx = ri_MessageID v"
  shows "publishArchivedRaw idx raw w = (if bus_fails w then Inl (ErrText ''publish archived raw'') else Inr (), published_world v raw w)"
  using assms
  by (simp add: publishArchivedRaw_def ebind_eq ethen_eq etry_eq eignore_def bus_publish_def Let_def quiet_calls MarkRawPublished_eq
      published_world_def bus_fails_def efail_def eret_def enow_def)

lemma published_inv:
  assumes inv: "raw_inv cd w" and v: "gm_get (rp_raw (en_repo w)) (key [ri_TenantID v, ri_MessageID v]) = Some v" and m: "matches raw v"
  shows "raw_inv cd (published_world v raw w)" "grows w (published_world v raw w)"
    "\<not> bus_fails w \<Longrightarrow> on_bus (published_world v raw w) v"
proof -
  let ?w = "published_world v raw w" and ?k = "key [ri_TenantID v, ri_MessageID v]"
  show g: "grows w ?w" by (auto simp: grows_def) (simp add: published_world_def Let_def)
  show ob: "on_bus ?w v" if "\<not> bus_fails w"
    using that m by (simp add: on_bus_def published_world_def Let_def bus_fails_def)
  have iv: "index_ok cd ?w ?k v" using grows_index [OF g] inv v unfolding raw_inv_def by blast
  have pa: "index_ok cd ?w ?k (if bus_fails w then marked 0 ''publish'' v else marked (en_clock w) [] v)"
    using iv ob by (auto simp: index_ok_def readable_def on_bus_def)
  show "raw_inv cd ?w"
  proof (rule raw_inv_grows [OF inv g])
    fix k x assume x: "gm_get (rp_raw (en_repo ?w)) k = Some x"
    then show "gm_get (rp_raw (en_repo w)) k = Some x \<or> index_ok cd ?w k x"
      using pa by (auto simp: published_world_def Let_def bus_fails_def split: if_splits)
  qed simp
qed


lemma published_index: "gm_get (rp_raw (en_repo (published_world v raw w))) k =
    (if k = key [ri_TenantID v, ri_MessageID v] then Some (if bus_fails w then marked 0 ''publish'' v else marked (en_clock w) [] v)
     else gm_get (rp_raw (en_repo w)) k)"
  by (simp add: published_world_def Let_def bus_fails_def)

subsection \<open>Archiving\<close>

text \<open>The JSON text of the message brings back its identity and its payload.\<close>

definition encodable :: "codec \<Rightarrow> RawMessage \<Rightarrow> bool" where
  "encodable cd m \<longleftrightarrow> (\<exists>b m'. cd_marshal cd m = Some b \<and> cd_unmarshal cd b = Some m' \<and> rm_TenantID m' = rm_TenantID m \<and>
     rm_MessageID m' = rm_MessageID m \<and> rm_Payload m' = rm_Payload m)"

definition no_torn :: "engine \<Rightarrow> bool" where
  "no_torn w \<longleftrightarrow> (\<forall>n. ArchiveTorn n \<notin> set (en_archive_faults w))"

lemma no_torn_tl [simp]: "no_torn w \<Longrightarrow> no_torn (after_fault w)"
  by (cases "en_archive_faults w") (auto simp: no_torn_def after_fault_def)

lemma after_fault_fields [simp]:
  "en_repo (after_fault w) = en_repo w" "en_bus (after_fault w) = en_bus w" "en_sched (after_fault w) = en_sched w"
  "archive_files (after_fault w) = archive_files w" "en_clock (after_fault w) = en_clock w" "en_archive (after_fault w) = en_archive w"
  "en_bus_faults (after_fault w) = en_bus_faults w"
  by (simp_all add: after_fault_def archive_files_def)

lemma write_file_fields [simp]:
  "en_repo (write_file p b w) = en_repo w" "en_bus (write_file p b w) = en_bus w" "en_sched (write_file p b w) = en_sched w"
  "archive_files (write_file p b w) = gm_put p b (archive_files w)" "en_clock (write_file p b w) = en_clock w"
  "en_archive_faults (write_file p b w) = en_archive_faults w" "en_bus_faults (write_file p b w) = en_bus_faults w"
  "en_archive (write_file p b w) = Some (gm_put p b (archive_files w))"
  by (simp_all add: write_file_def archive_files_def)

lemma PutRaw_ok:
  assumes inv: "raw_inv cd w" and nt: "no_torn w" and e: "encodable cd raw" and pl: "plain (rm_TenantID raw)" "plain (rm_MessageID raw)"
    and rs: "reserved_as w (key [rm_TenantID raw, rm_MessageID raw]) (PayloadHash raw)" and p: "PutRaw cd raw w = (r, w')"
  shows "raw_inv cd w' \<and> grows w w' \<and> en_repo w' = en_repo w \<and> en_bus w' = en_bus w \<and> en_bus_faults w' = en_bus_faults w \<and> en_sched w' = en_sched w \<and>
    en_clock w' = en_clock w \<and> no_torn w' \<and>
    (\<forall>idx. r = Inr idx \<longrightarrow> idx = archive_index (en_clock w) raw raw_bucket (raw_key raw) \<and> readable cd w' idx)"
proof -
  let ?p = "object_path raw_bucket (raw_key raw)" and ?i = "archive_index (en_clock w) raw raw_bucket (raw_key raw)"
  obtain b m' where b: "cd_marshal cd raw = Some b" "cd_unmarshal cd b = Some m'" "rm_TenantID m' = rm_TenantID raw" "rm_MessageID m' = rm_MessageID raw"
    "rm_Payload m' = rm_Payload raw" using e unfolding encodable_def by blast
  have mt: "matches x ?i" if "rm_TenantID x = rm_TenantID raw" "rm_MessageID x = rm_MessageID raw" "PayloadHash x = PayloadHash raw" for x
    using that by (simp add: matches_def archive_index_def)
  have ii: "ri_ObjectBucket ?i = raw_bucket" "ri_ObjectKey ?i = raw_key raw" by (simp_all add: archive_index_def)
  have nf: "next_fault w \<noteq> ArchiveTorn n" for n using nt by (cases "en_archive_faults w") (auto simp: next_fault_def no_torn_def)
  have ia: "raw_inv cd (after_fault w)" by (rule raw_inv_same [OF inv]) auto
  have ga: "grows w (after_fault w)" by (simp add: grows_def)
  consider (refused) "next_fault w = ArchiveRefused" | (old) f where "next_fault w = ArchiveOk" "gm_get (archive_files w) ?p = Some f"
    | (new) "next_fault w = ArchiveOk" "gm_get (archive_files w) ?p = None" using nf by (cases "next_fault w") auto
  then show ?thesis
  proof cases
    case refused
    then show ?thesis using p ia ga nt by (auto simp: PutRaw_def Let_def)
  next
    case old
    from inv old(2) have "file_ok cd w ?p f" unfolding raw_inv_def by blast
    then obtain x x' where x: "?p = object_path raw_bucket (raw_key x)" "plain (rm_TenantID x)" "plain (rm_MessageID x)" "cd_unmarshal cd f = Some x'"
      "rm_TenantID x' = rm_TenantID x" "rm_MessageID x' = rm_MessageID x" "rm_Payload x' = rm_Payload x"
      "reserved_as w (key [rm_TenantID x, rm_MessageID x]) (PayloadHash x)" unfolding file_ok_def by blast
    from x(1) have "raw_key raw = raw_key x" by (simp add: object_path_def)
    from raw_key_inject [OF this] pl x(2,3) have same: "rm_TenantID x = rm_TenantID raw" "rm_MessageID x = rm_MessageID raw" by (simp_all add: plain_def)
    with x(8) rs have "PayloadHash x = PayloadHash raw" by (auto simp: reserved_as_def)
    then have "PayloadHash x' = PayloadHash raw" using x(7) by (simp add: PayloadHash_def)
    then have "matches x' ?i" using mt [of x'] x(5,6) same by simp
    then have rd: "readable cd (after_fault w) ?i" using old(2) x(4) unfolding readable_def ii by auto
    have w': "r = Inr ?i" "w' = after_fault w" using p old by (simp_all add: PutRaw_def Let_def)
    show ?thesis unfolding w' using ia ga nt rd by simp
  next
    case new
    let ?w = "write_file ?p b (after_fault w)"
    have w': "r = Inr ?i" "w' = ?w" using p new b(1) by (simp_all add: PutRaw_def Let_def)
    have g: "grows w ?w" using new(2) by (auto simp: grows_def map_le_def)
    have "PayloadHash m' = PayloadHash raw" using b(5) by (simp add: PayloadHash_def)
    then have "readable cd ?w ?i" using b mt unfolding readable_def ii by auto
    moreover have "raw_inv cd ?w"
    proof (rule raw_inv_grows [OF inv g])
      fix q c assume f: "gm_get (archive_files ?w) q = Some c"
      show "gm_get (archive_files w) q = Some c \<or> file_ok cd ?w q c"
      proof (cases "q = ?p")
        case True
        have "file_ok cd w ?p b" unfolding file_ok_def using b pl rs by blast
        moreover have "c = b" using f True by simp
        ultimately show ?thesis using True grows_file [OF g] by blast
      next
        case False
        then have "gm_get (archive_files w) q = Some c" using f by simp
        then show ?thesis ..
      qed
    qed simp
    ultimately show ?thesis using w' g nt by (simp add: no_torn_def after_fault_def) (metis list.set_sel(2) tl_Nil)
  qed
qed


subsection \<open>Admission\<close>

text \<open>What an acknowledgement says.\<close>

definition acknowledged :: "codec \<Rightarrow> engine \<Rightarrow> string \<Rightarrow> string \<Rightarrow> string \<Rightarrow> bool" where
  "acknowledged cd w t i h \<longleftrightarrow> (\<exists>v. gm_get (rp_raw (en_repo w)) (key [t, i]) = Some v \<and> ri_TenantID v = t \<and> ri_MessageID v = i \<and>
     ri_PayloadHash v = h \<and> ri_PublishedAt v \<noteq> 0 \<and> readable cd w v \<and> on_bus w v)"

lemma acknowledgedI:
  assumes "raw_inv cd w" "gm_get (rp_raw (en_repo w)) (key [t, i]) = Some v" "ri_TenantID v = t" "ri_MessageID v = i" "ri_PayloadHash v = h" "ri_PublishedAt v \<noteq> 0"
  shows "acknowledged cd w t i h"
  using assms unfolding acknowledged_def raw_inv_def index_ok_def by blast

text \<open>A publication for a stored index leaves the message acknowledged unless the bus fails.\<close>

lemma publish_acknowledges:
  assumes inv: "raw_inv cd w" and q: "en_sched w = []" "en_clock w \<noteq> 0" and v: "gm_get (rp_raw (en_repo w)) (key [ri_TenantID v, ri_MessageID v]) = Some v"
    and m: "matches raw v" and p: "publishArchivedRaw v raw w = (r, w')"
  shows "raw_inv cd w' \<and> (r = Inr () \<longrightarrow> acknowledged cd w' (ri_TenantID v) (ri_MessageID v) (ri_PayloadHash v))"
proof -
  have r: "r = (if bus_fails w then Inl (ErrText ''publish archived raw'') else Inr ())" "w' = published_world v raw w"
    using p publish_eq [OF q(1) v refl refl] by auto
  note i = published_inv [OF inv v m]
  have "acknowledged cd w' (ri_TenantID v) (ri_MessageID v) (ri_PayloadHash v)" if "\<not> bus_fails w"
    by (rule acknowledgedI [where v = "marked (en_clock w) [] v"]) (use i r that q in \<open>simp_all add: published_index\<close>)
  then show ?thesis using i r by auto
qed

lemma archive_raw_ok:
  assumes inv: "raw_inv cd w" and q: "en_sched w = []" "en_clock w \<noteq> 0" "no_torn w" and e: "encodable cd raw" and pl: "plain (rm_TenantID raw)" "plain (rm_MessageID raw)"
    and rs: "reserved_as w (key [rm_TenantID raw, rm_MessageID raw]) (PayloadHash raw)"
    and cl: "clean (rm_TenantID raw)" and n: "gm_get (rp_raw (en_repo w)) (key [rm_TenantID raw, rm_MessageID raw]) = None"
    and a: "archive_raw cd raw w = (r, w')"
  shows "raw_inv cd w' \<and> (\<exists>idx c e. r = Inr (idx, c, e) \<and> (e = None \<longrightarrow> acknowledged cd w' (rm_TenantID raw) (rm_MessageID raw) (PayloadHash raw)))"
proof (cases "en_archive w = None")
  case True
  then show ?thesis using a inv by (auto simp: archive_raw_def ebind_eq easks_def refused_def eret_def)
next
  case False
  obtain x w1 where x: "PutRaw cd raw w = (x, w1)" by fastforce
  note p = PutRaw_ok [OF inv q(3) e pl rs x]
  show ?thesis
  proof (cases x)
    case (Inl y)
    then show ?thesis using a x p False by (auto simp: archive_raw_def ebind_eq easks_def etry_eq refused_def eret_def)
  next
    case (Inr idx)
    have idx: "idx = archive_index (en_clock w) raw raw_bucket (raw_key raw)" "readable cd w1 idx" using p Inr by auto
    have w1: "en_repo w1 = en_repo w" "en_sched w1 = []" "en_clock w1 \<noteq> 0" "raw_inv cd w1" "grows w w1" using p q by auto
    let ?k = "key [rm_TenantID raw, rm_MessageID raw]"
    let ?w2 = "w1\<lparr>en_repo := (en_repo w)\<lparr>rp_raw := gm_put ?k idx (rp_raw (en_repo w))\<rparr>\<rparr>"
    have ids: "ri_TenantID idx = rm_TenantID raw" "ri_MessageID idx = rm_MessageID raw" "ri_PayloadHash idx = PayloadHash raw" "ri_PublishedAt idx = 0"
      by (simp_all add: idx archive_index_def)
    have s: "repo_upd (SaveRawIndex idx) w1 = (Inr True, ?w2)" using n w1 ids by (simp add: quiet_calls SaveRawIndex_def)
    have g2: "grows w1 ?w2" using w1(1) by (simp add: grows_def archive_files_def)
    have "index_ok cd ?w2 ?k idx"
      using grows_reserved [OF w1(5) rs] idx(2) w1(1) cl by (simp add: index_ok_def ids reserved_as_def readable_def archive_files_def)
    then have inv2: "raw_inv cd ?w2" by (intro raw_inv_grows [OF w1(4) g2]) (auto simp: archive_files_def w1(1) split: if_splits)
    obtain z w3 where z: "publishArchivedRaw idx raw ?w2 = (z, w3)" by fastforce
    have "raw_inv cd w3 \<and> (z = Inr () \<longrightarrow> acknowledged cd w3 (ri_TenantID idx) (ri_MessageID idx) (ri_PayloadHash idx))"
      by (rule publish_acknowledges [OF inv2 _ _ _ _ z]) (use w1 in \<open>simp_all add: ids matches_def\<close>)
    moreover have "w' = w3 \<and> r = Inr (idx, True, case z of Inl e \<Rightarrow> Some e | Inr _ \<Rightarrow> None)"
      using a x Inr False s z by (auto simp: archive_raw_def ebind_eq easks_def etry_eq eret_def split: sum.splits)
    ultimately show ?thesis using ids by (auto split: sum.splits)
  qed
qed

lemma GetRaw_ok:
  assumes inv: "raw_inv cd w" and v: "gm_get (rp_raw (en_repo w)) k = Some v" and g: "GetRaw cd v w = (r, w')"
  shows "raw_inv cd w' \<and> en_repo w' = en_repo w \<and> en_sched w' = en_sched w \<and> en_clock w' = en_clock w \<and> en_bus_faults w' = en_bus_faults w \<and>
    (\<forall>m. r = Inr m \<longrightarrow> matches m v)"
proof -
  have ia: "raw_inv cd (after_fault w)" by (rule raw_inv_same [OF inv]) auto
  from inv v obtain b m where b: "gm_get (archive_files w) (object_path (ri_ObjectBucket v) (ri_ObjectKey v)) = Some b" "cd_unmarshal cd b = Some m" "matches m v"
    unfolding raw_inv_def index_ok_def readable_def by blast
  then show ?thesis using g ia inv
    by (auto simp: GetRaw_def ebind_eq easks_def efail_def Archive_GetRaw_def Let_def split: option.splits if_splits)
qed

lemma known_raw_ok:
  assumes inv: "raw_inv cd w" and q: "en_sched w = []" "en_clock w \<noteq> 0"
    and v: "gm_get (rp_raw (en_repo w)) (key [rm_TenantID raw, rm_MessageID raw]) = Some v" and ids: "ri_TenantID v = rm_TenantID raw" "ri_MessageID v = rm_MessageID raw"
    and a: "known_raw cd v raw w = (r, w')"
  shows "raw_inv cd w' \<and> (\<exists>idx c e. r = Inr (idx, c, e) \<and> (e = None \<longrightarrow> acknowledged cd w' (rm_TenantID raw) (rm_MessageID raw) (PayloadHash raw)))"
proof (cases "different v raw \<or> ri_PublishedAt v \<noteq> 0")
  case True
  have "acknowledged cd w (rm_TenantID raw) (rm_MessageID raw) (PayloadHash raw)" if "\<not> different v raw"
    using acknowledgedI [OF inv v] ids that True by (auto simp: different_def)
  then show ?thesis using True a inv by (auto simp: known_raw_def eret_def split: if_splits)
next
  case False
  obtain x w1 where x: "GetRaw cd v w = (x, w1)" by fastforce
  note g = GetRaw_ok [OF inv v x]
  show ?thesis
  proof (cases x)
    case (Inl y)
    then show ?thesis using a x g False by (auto simp: known_raw_def ebind_eq etry_eq eret_def)
  next
    case (Inr m)
    obtain z w2 where z: "publishArchivedRaw v m w1 = (z, w2)" by fastforce
    have "raw_inv cd w2 \<and> (z = Inr () \<longrightarrow> acknowledged cd w2 (ri_TenantID v) (ri_MessageID v) (ri_PayloadHash v))"
      by (rule publish_acknowledges [OF _ _ _ _ _ z]) (use g q v ids Inr in auto)
    moreover have "w' = w2 \<and> r = Inr (v, False, case z of Inl e \<Rightarrow> Some e | Inr _ \<Rightarrow> None)"
      using a x Inr False z by (auto simp: known_raw_def ebind_eq etry_eq eret_def split: sum.splits)
    ultimately show ?thesis using ids False by (auto simp: different_def split: sum.splits)
  qed
qed


text \<open>
  A reservation keeps the message under its own key. The exception is a message whose payload is no JSON: its
  reservation has no product, and no later message of its identity is accepted.
\<close>

definition res_ok :: "string \<Rightarrow> rawReservation \<Rightarrow> bool" where
  "res_ok k res \<longleftrightarrow> rm_ProductID (rr_Metadata res) = [] \<or>
     k = key [rm_TenantID (rr_Metadata res), rm_MessageID (rr_Metadata res)] \<and> clean (rm_TenantID (rr_Metadata res))"

definition ingest_inv :: "codec \<Rightarrow> engine \<Rightarrow> bool" where
  "ingest_inv cd w \<longleftrightarrow> raw_inv cd w \<and> (\<forall>k res. gm_get (rp_rawReservations (en_repo w)) k = Some res \<longrightarrow> res_ok k res)"

definition admissible :: "codec \<Rightarrow> RawMessage \<Rightarrow> bool" where
  "admissible cd raw \<longleftrightarrow> plain (rm_TenantID raw) \<and> plain (rm_MessageID raw) \<and> clean (rm_TenantID raw) \<and>
     (\<forall>m. rm_TenantID m = rm_TenantID raw \<and> rm_MessageID m = rm_MessageID raw \<and> rm_Payload m = rm_Payload raw \<longrightarrow> encodable cd m)"

text \<open>What archiving and publishing leave of the reservations.\<close>

lemma publish_reservations: "en_sched w = [] \<Longrightarrow> rp_rawReservations (en_repo (snd (publishArchivedRaw v raw w))) = rp_rawReservations (en_repo w)"
  by (simp add: publishArchivedRaw_def ebind_eq ethen_eq etry_eq eignore_def bus_publish_def Let_def quiet_calls efail_def eret_def enow_def MarkRawPublished_def
      split: option.splits sum.splits)

lemma GetRaw_world: "en_repo (snd (GetRaw cd v w)) = en_repo w \<and> en_sched (snd (GetRaw cd v w)) = en_sched w"
  by (auto simp: GetRaw_def ebind_eq easks_def efail_def Archive_GetRaw_def Let_def split: option.splits)

lemma PutRaw_world: "en_repo (snd (PutRaw cd v w)) = en_repo w \<and> en_sched (snd (PutRaw cd v w)) = en_sched w"
  by (auto simp: PutRaw_def Let_def split: option.splits archive_fault.splits)

lemma known_reservations: "en_sched w = [] \<Longrightarrow> rp_rawReservations (en_repo (snd (known_raw cd v raw w))) = rp_rawReservations (en_repo w)"
  using GetRaw_world [of cd v w] by (auto simp: known_raw_def ebind_eq etry_eq eret_def publish_reservations split: sum.splits)

lemma archive_reservations:
  assumes "en_sched w = []"
  shows "rp_rawReservations (en_repo (snd (archive_raw cd raw w))) = rp_rawReservations (en_repo w)"
proof -
  obtain x w1 where x: "PutRaw cd raw w = (x, w1)" by fastforce
  have w1: "en_repo w1 = en_repo w" "en_sched w1 = []" using PutRaw_world [of cd raw w] x assms by auto
  show ?thesis
  proof (cases x)
    case (Inl e)
    then show ?thesis using x w1 by (simp add: archive_raw_def ebind_eq easks_def etry_eq refused_def eret_def)
  next
    case (Inr idx)
    obtain c r where c: "SaveRawIndex idx (en_repo w) = (c, r)" by fastforce
    have r: "rp_rawReservations r = rp_rawReservations (en_repo w)" using c by (auto simp: SaveRawIndex_def Let_def split: option.splits)
    show ?thesis using x Inr w1 c r
      by (auto simp: archive_raw_def ebind_eq easks_def etry_eq refused_def eret_def quiet_calls publish_reservations split: sum.splits)
  qed
qed

text \<open>The outcome of an admission: the invariant, and an acknowledgement where there is no error.\<close>

definition admitted :: "codec \<Rightarrow> RawMessage \<Rightarrow> (err + admission) \<times> engine \<Rightarrow> bool" where
  "admitted cd raw res \<longleftrightarrow> ingest_inv cd (snd res) \<and> (\<exists>idx c e. fst res = Inr (idx, c, e) \<and>
     (e = None \<longrightarrow> acknowledged cd (snd res) (rm_TenantID raw) (rm_MessageID raw) (PayloadHash raw)))"

lemma admittedI:
  assumes "raw_inv cd w' \<and> (\<exists>idx c e. r = Inr (idx, c, e) \<and> (e = None \<longrightarrow> acknowledged cd w' (rm_TenantID raw) (rm_MessageID raw) (PayloadHash raw)))"
    and "\<And>k res. gm_get (rp_rawReservations (en_repo w')) k = Some res \<Longrightarrow> res_ok k res"
  shows "admitted cd raw (r, w')"
  using assms by (auto simp: admitted_def ingest_inv_def)

lemma admitted_error: "ingest_inv cd w \<Longrightarrow> admitted cd raw (Inr (idx, c, Some e), w)"
  by (auto simp: admitted_def)

lemma admit_new:
  assumes inv: "ingest_inv cd w" and q: "en_sched w = []" "en_clock w \<noteq> 0" "no_torn w" and ad: "admissible cd raw"
    and new: "gm_get (rp_rawReservations (en_repo w)) (key [rm_TenantID raw, rm_MessageID raw]) = None"
  shows "admitted cd raw (admit_raw cd json_valid raw w)"
proof -
  let ?k = "key [rm_TenantID raw, rm_MessageID raw]"
  let ?res = "\<lparr>rr_Metadata = (clone_raw json_valid raw)\<lparr>rm_Payload := []\<rparr>, rr_Hash = PayloadHash raw\<rparr>"
  let ?w1 = "w\<lparr>en_repo := (en_repo w)\<lparr>rp_rawReservations := gm_put ?k ?res (rp_rawReservations (en_repo w))\<rparr>\<rparr>"
  have ri: "raw_inv cd w" and ro: "\<And>k res. gm_get (rp_rawReservations (en_repo w)) k = Some res \<Longrightarrow> res_ok k res" using inv by (auto simp: ingest_inv_def)
  have pl: "plain (rm_TenantID raw)" "plain (rm_MessageID raw)" "clean (rm_TenantID raw)" "encodable cd raw" using ad by (auto simp: admissible_def)
  have g: "grows w ?w1" using new by (auto simp: grows_def archive_files_def map_le_def)
  have i1: "raw_inv cd ?w1" by (rule raw_inv_grows [OF ri g]) (auto simp: archive_files_def)
  have n: "gm_get (rp_raw (en_repo w)) ?k = None"
    using ri new unfolding raw_inv_def index_ok_def reserved_as_def by (metis not_None_eq option.distinct(1))
  obtain r w' where a: "archive_raw cd raw ?w1 = (r, w')" by fastforce
  have e: "admit_raw cd json_valid raw w = (r, w')"
    using new q(1) a by (simp add: admit_raw_def ebind_eq etry_eq quiet_calls ReserveRawMessage_def Let_def)
  have rs: "reserved_as ?w1 ?k (PayloadHash raw)" by (simp add: reserved_as_def)
  have nt: "no_torn ?w1" using q(3) by (simp add: no_torn_def)
  have "rp_rawReservations (en_repo w') = gm_put ?k ?res (rp_rawReservations (en_repo w))"
    using archive_reservations [of ?w1 cd raw] a q(1) by simp
  moreover have "res_ok ?k ?res" using pl(3) by (simp add: res_ok_def clone_raw_def zero_RawMessage_def)
  ultimately have "res_ok k res" if "gm_get (rp_rawReservations (en_repo w')) k = Some res" for k res using that ro by (auto split: if_splits)
  then show ?thesis unfolding e
    by (intro admittedI archive_raw_ok [OF i1 _ _ nt pl(4,1,2) rs pl(3) _ a]) (use q n in simp_all)
qed

lemma admit_repeat:
  assumes inv: "ingest_inv cd w" and q: "en_sched w = []" "en_clock w \<noteq> 0" "no_torn w" and ad: "admissible cd raw" and pr: "rm_ProductID raw \<noteq> []"
    and old: "gm_get (rp_rawReservations (en_repo w)) (key [rm_TenantID raw, rm_MessageID raw]) = Some old"
    and same: "rr_Hash old = PayloadHash raw" "rm_ProductID (rr_Metadata old) = rm_ProductID raw" "rm_DeviceID (rr_Metadata old) = rm_DeviceID raw"
  shows "admitted cd raw (admit_raw cd json_valid raw w)"
proof -
  let ?k = "key [rm_TenantID raw, rm_MessageID raw]" and ?m = "(rr_Metadata old)\<lparr>rm_Payload := rm_Payload raw\<rparr>"
  have ri: "raw_inv cd w" and ro: "\<And>k res. gm_get (rp_rawReservations (en_repo w)) k = Some res \<Longrightarrow> res_ok k res" using inv by (auto simp: ingest_inv_def)
  have pl: "plain (rm_TenantID raw)" "plain (rm_MessageID raw)" "clean (rm_TenantID raw)" using ad by (auto simp: admissible_def)
  have m: "rm_TenantID ?m = rm_TenantID raw" "rm_MessageID ?m = rm_MessageID raw" "PayloadHash ?m = PayloadHash raw"
    using ro [OF old] same pr pl(3) by (auto simp: res_ok_def key2_inject PayloadHash_def)
  have en: "encodable cd ?m" using ad m by (simp add: admissible_def)
  have step: "admit_raw cd json_valid raw w = (case gm_get (rp_raw (en_repo w)) ?k of None \<Rightarrow> archive_raw cd ?m w | Some v \<Rightarrow> known_raw cd v raw w)"
    using old same q(1)
    by (simp add: admit_raw_def ebind_eq etry_eq quiet_calls ReserveRawMessage_def Let_def GetRawIndexAt_def GetRawIndex_def split: option.splits)
  obtain r w' where a: "admit_raw cd json_valid raw w = (r, w')" by fastforce
  show ?thesis
  proof (cases "gm_get (rp_raw (en_repo w)) ?k")
    case None
    then have e: "archive_raw cd ?m w = (r, w')" using a step by simp
    have rs: "reserved_as w (key [rm_TenantID ?m, rm_MessageID ?m]) (PayloadHash ?m)" using old same(1) m by (simp add: reserved_as_def)
    have "raw_inv cd w' \<and> (\<exists>idx c e. r = Inr (idx, c, e) \<and> (e = None \<longrightarrow> acknowledged cd w' (rm_TenantID ?m) (rm_MessageID ?m) (PayloadHash ?m)))"
      by (rule archive_raw_ok [OF ri q en _ _ rs _ _ e]) (use None m pl in simp_all)
    then show ?thesis using archive_reservations [OF q(1), of cd ?m] e ro unfolding a m by (intro admittedI) simp_all
  next
    case (Some v)
    then have e: "known_raw cd v raw w = (r, w')" using a step by simp
    have ids: "ri_TenantID v = rm_TenantID raw" "ri_MessageID v = rm_MessageID raw" using raw_inv_index [OF ri Some] pl(3) by (auto simp: index_ok_def key2_inject)
    show ?thesis using known_raw_ok [OF ri q(1,2) Some ids e] known_reservations [OF q(1), of cd v raw] e ro unfolding a by (intro admittedI) simp_all
  qed
qed

lemma admit_conflict:
  assumes "en_sched w = []" "gm_get (rp_rawReservations (en_repo w)) (key [rm_TenantID raw, rm_MessageID raw]) = Some old"
    "rr_Hash old \<noteq> PayloadHash raw \<or> rm_ProductID (rr_Metadata old) \<noteq> rm_ProductID raw \<or> rm_DeviceID (rr_Metadata old) \<noteq> rm_DeviceID raw"
  shows "\<exists>idx. admit_raw cd json_valid raw w = (Inr (idx, False, Some ErrRawConflict), w)"
  using assms by (simp add: admit_raw_def ebind_eq etry_eq quiet_calls ReserveRawMessage_def Let_def eret_def)

lemma admit_raw_ok:
  assumes inv: "ingest_inv cd w" and q: "en_sched w = []" "en_clock w \<noteq> 0" "no_torn w" and ad: "admissible cd raw" "rm_ProductID raw \<noteq> []"
  shows "admitted cd raw (admit_raw cd json_valid raw w)"
proof (cases "gm_get (rp_rawReservations (en_repo w)) (key [rm_TenantID raw, rm_MessageID raw])")
  case None
  from admit_new [OF inv q ad(1) this] show ?thesis .
next
  case (Some old)
  show ?thesis
  proof (cases "rr_Hash old = PayloadHash raw \<and> rm_ProductID (rr_Metadata old) = rm_ProductID raw \<and> rm_DeviceID (rr_Metadata old) = rm_DeviceID raw")
    case True
    then show ?thesis using admit_repeat [OF inv q ad Some] by blast
  next
    case False
    then obtain idx where "admit_raw cd json_valid raw w = (Inr (idx, False, Some ErrRawConflict), w)" using admit_conflict [OF q(1) Some] by blast
    then show ?thesis using admitted_error [OF inv] by simp
  qed
qed

subsection \<open>IngestRaw\<close>

definition named :: "RawMessage \<Rightarrow> bool" where
  "named raw \<longleftrightarrow> rm_MessageID raw \<noteq> []"

text \<open>Preparation keeps the identity and the payload of a message.\<close>

definition same_raw :: "RawMessage \<Rightarrow> RawMessage \<Rightarrow> bool" where
  "same_raw m raw \<longleftrightarrow> rm_TenantID m = rm_TenantID raw \<and> rm_MessageID m = rm_MessageID raw \<and> rm_Payload m = rm_Payload raw \<and>
     rm_ProductID m = rm_ProductID raw \<and> rm_DeviceID m = rm_DeviceID raw \<and> rm_GatewayID m = rm_GatewayID raw"

lemma Normalize_same: "named raw \<Longrightarrow> same_raw (Normalize now raw) raw"
  by (simp add: Normalize_def same_raw_def named_def Let_def)

lemma prepare_same:
  assumes "named raw"
  shows "\<exists>m. fst (with_protocol (Normalize now raw) w) = Inr m \<and> same_raw m raw"
proof -
  from with_protocol_value [of "Normalize now raw" w] obtain i v t
    where "fst (with_protocol (Normalize now raw) w) = Inr ((Normalize now raw)\<lparr>rm_ProtocolID := i, rm_ProtocolVersion := v, rm_PointTableVersion := t\<rparr>)" by blast
  with Normalize_same [OF assms, of now] show ?thesis by (simp add: same_raw_def)
qed

lemma admissible_same: "admissible cd raw \<Longrightarrow> same_raw m raw \<Longrightarrow> admissible cd m"
  by (simp add: admissible_def same_raw_def)

lemma admitted_same: "same_raw m raw \<Longrightarrow> admitted cd m r = admitted cd raw r"
  by (simp add: admitted_def same_raw_def PayloadHash_def)

lemma refused_admitted: "ingest_inv cd w \<Longrightarrow> admitted cd raw (refused e w)"
  by (simp add: admitted_error refused_def eret_def)

lemma trim_Nil [simp]: "trim_space [] = []"
  by (simp add: trim_space_def trim_by_def trim_left_def trim_right_def)

lemma Ingest_ok:
  assumes inv: "ingest_inv cd w" and q: "en_sched w = []" "en_clock w \<noteq> 0" "no_torn w" and n: "named raw" and ad: "admissible cd raw"
  shows "admitted cd raw (IngestRaw cd json_valid raw w)"
proof (cases "en_paused w")
  case True
  then show ?thesis using refused_admitted [OF inv] by (simp add: IngestRaw_def ebind_eq easks_def)
next
  case False
  obtain x w1 where x: "with_protocol (Normalize (en_clock w) raw) w = (x, w1)" by fastforce
  obtain m where m: "x = Inr m" "same_raw m raw" using prepare_same [OF n, of "en_clock w" w] x by auto
  have p1: "prepared w w1" using keepsD [OF prepared_protocol prepared_refl [OF q(1)]] x by (metis snd_conv)
  obtain g w2 where g: "ensureGatewayChild m w1 = (g, w2)" by fastforce
  have p2: "prepared w w2" using keepsD [OF prepared_child p1, of m] g by simp
  have i: "ingest_inv cd w1" "ingest_inv cd w2" using inv raw_inv_prepared p1 p2 by (auto simp: ingest_inv_def prepared_def)
  have q2: "en_sched w2 = []" "en_clock w2 \<noteq> 0" "no_torn w2" using p2 q by (simp_all add: prepared_def no_torn_def)
  have e: "IngestRaw cd json_valid raw w = (case Validate_raw m of Some e \<Rightarrow> refused e w1 | None \<Rightarrow>
      (case g of Inl e \<Rightarrow> refused e w2 | Inr _ \<Rightarrow> admit_raw cd json_valid m w2))"
    using False x m(1) g by (simp add: IngestRaw_def ebind_eq easks_def enow_def etry_eq split: option.splits sum.splits)
  show ?thesis
  proof (cases "Validate_raw m")
    case None
    then have "rm_ProductID m \<noteq> []" by (auto simp: Validate_raw_def split: if_splits)
    from admit_raw_ok [OF i(2) q2 admissible_same [OF ad m(2)] this] show ?thesis
      unfolding e using None refused_admitted [OF i(2)] admitted_same [OF m(2)] by (auto split: sum.splits)
  qed (use e refused_admitted [OF i(1)] in simp)
qed

text \<open>A message that was acknowledged is answered from its index and changes nothing.\<close>

lemma Ingest_again:
  assumes inv: "ingest_inv cd w" and q: "en_sched w = []" "\<not> en_paused w" and n: "named raw" "clean (rm_TenantID raw)" and g: "rm_GatewayID raw = []"
    and ok: "Validate_raw raw = None" and r: "gm_get (rp_rawReservations (en_repo w)) (key [rm_TenantID raw, rm_MessageID raw]) = Some old"
    and v: "gm_get (rp_raw (en_repo w)) (key [rm_TenantID raw, rm_MessageID raw]) = Some v" "ri_PublishedAt v \<noteq> 0"
    and same: "rr_Hash old = PayloadHash raw" "rm_ProductID (rr_Metadata old) = rm_ProductID raw" "rm_DeviceID (rr_Metadata old) = rm_DeviceID raw"
      "ri_DeviceID v = rm_DeviceID raw" "ri_ProductID v = rm_ProductID raw"
  shows "\<exists>w'. IngestRaw cd json_valid raw w = (Inr (v, False, None), w') \<and> prepared w w'"
proof -
  obtain x w1 where x: "with_protocol (Normalize (en_clock w) raw) w = (x, w1)" by fastforce
  obtain m where m: "x = Inr m" "same_raw m raw" using prepare_same [OF n(1), of "en_clock w" w] x by auto
  have p1: "prepared w w1" using keepsD [OF prepared_protocol prepared_refl [OF q(1)]] x by (metis snd_conv)
  then have w1: "rp_raw (en_repo w1) = rp_raw (en_repo w)" "rp_rawReservations (en_repo w1) = rp_rawReservations (en_repo w)" "en_sched w1 = []"
    by (simp_all add: prepared_def)
  have "Validate_raw m = Validate_raw raw" using m(2) by (simp add: Validate_raw_def same_raw_def)
  then have vm: "Validate_raw m = None" using ok by simp
  have c: "ensureGatewayChild m w1 = (Inr (), w1)" using g m(2) by (simp add: ensureGatewayChild_def same_raw_def eret_def)
  have h: "PayloadHash m = PayloadHash raw" using m(2) by (simp add: PayloadHash_def same_raw_def)
  have hv: "ri_PayloadHash v = PayloadHash raw"
    using raw_inv_index [OF conjunct1 [OF inv [unfolded ingest_inv_def]] v(1)] r same(1) by (auto simp: index_ok_def reserved_as_def)
  have "admit_raw cd json_valid m w1 = (Inr (v, False, None), w1)"
    using m(2) w1 r v same h hv
    by (simp add: same_raw_def admit_raw_def ebind_eq etry_eq quiet_calls ReserveRawMessage_def Let_def GetRawIndexAt_def GetRawIndex_def known_raw_def different_def eret_def)
  then show ?thesis using q(2) x m(1) vm c p1 by (simp add: IngestRaw_def ebind_eq easks_def enow_def etry_eq)
qed

subsection \<open>The retry\<close>

definition calm_world :: "codec \<Rightarrow> engine \<Rightarrow> bool" where
  "calm_world cd w \<longleftrightarrow> raw_inv cd w \<and> en_sched w = [] \<and> en_clock w \<noteq> 0 \<and> en_bus_faults w = [] \<and> en_archive_faults w = [] \<and> en_archive w \<noteq> None"

lemma retry_raw_ok:
  assumes c: "calm_world cd w" and v: "gm_get (rp_raw (en_repo w)) (key [ri_TenantID v, ri_MessageID v]) = Some v"
  shows "\<exists>w'. retry_raw cd v w = (Inr (), w') \<and> calm_world cd w' \<and> en_clock w' = en_clock w \<and>
    (\<forall>k. gm_get (rp_raw (en_repo w')) k = (if k = key [ri_TenantID v, ri_MessageID v] then Some (marked (en_clock w) [] v) else gm_get (rp_raw (en_repo w)) k))"
proof -
  have w: "raw_inv cd w" "en_sched w = []" "en_bus_faults w = []" "en_archive_faults w = []" "en_archive w \<noteq> None" "en_clock w \<noteq> 0" using c by (simp_all add: calm_world_def)
  have same: "after_fault w = w" using w(4) by (cases w) (simp add: after_fault_def)
  from raw_inv_index [OF w(1) v] obtain b m where b: "gm_get (archive_files w) (object_path (ri_ObjectBucket v) (ri_ObjectKey v)) = Some b" "cd_unmarshal cd b = Some m" "matches m v"
    unfolding index_ok_def readable_def by blast
  have g: "GetRaw cd v w = (Inr m, w)" using b w(4,5) same
    by (auto simp: GetRaw_def ebind_eq easks_def Archive_GetRaw_def Let_def next_fault_def)
  let ?w = "published_world v m w"
  have bf: "\<not> bus_fails w" using w(3) by (simp add: bus_fails_def)
  have "retry_raw cd v w = (Inr (), ?w)"
    using g publish_eq [OF w(2) v refl refl, of m] bf by (simp add: retry_raw_def ebind_eq etry_eq eignore_def eret_def)
  moreover have "calm_world cd ?w" using published_inv(1) [OF w(1) v b(3)] w by (simp add: calm_world_def)
  ultimately show ?thesis using bf by (simp add: published_index)
qed

lemma retry_list:
  assumes "calm_world cd w" "distinct (map (\<lambda>v. key [ri_TenantID v, ri_MessageID v]) vs)"
    "\<And>v. v \<in> set vs \<Longrightarrow> gm_get (rp_raw (en_repo w)) (key [ri_TenantID v, ri_MessageID v]) = Some v"
  shows "\<exists>w'. efor vs (retry_raw cd) w = (Inr (), w') \<and> calm_world cd w' \<and>
    (\<forall>v \<in> set vs. gm_get (rp_raw (en_repo w')) (key [ri_TenantID v, ri_MessageID v]) = Some (marked (en_clock w) [] v)) \<and>
    (\<forall>k. k \<notin> (\<lambda>v. key [ri_TenantID v, ri_MessageID v]) ` set vs \<longrightarrow> gm_get (rp_raw (en_repo w')) k = gm_get (rp_raw (en_repo w)) k)"
  using assms
proof (induction vs arbitrary: w)
  case (Cons v vs)
  let ?key = "\<lambda>v. key [ri_TenantID v, ri_MessageID v]"
  have "gm_get (rp_raw (en_repo w)) (?key v) = Some v" using Cons.prems(3) [of v] by simp
  from retry_raw_ok [OF Cons.prems(1) this] obtain w1 where w1: "retry_raw cd v w = (Inr (), w1)" "calm_world cd w1" "en_clock w1 = en_clock w"
    "\<And>k. gm_get (rp_raw (en_repo w1)) k = (if k = ?key v then Some (marked (en_clock w) [] v) else gm_get (rp_raw (en_repo w)) k)" by blast
  have d: "distinct (map ?key vs)" "?key v \<notin> ?key ` set vs" using Cons.prems(2) by auto
  have other: "?key x \<noteq> ?key v" if "x \<in> set vs" for x
  proof
    assume "?key x = ?key v"
    then have "?key v \<in> ?key ` set vs" using imageI [OF that, of ?key] by (simp only:)
    with d(2) show False ..
  qed
  have "gm_get (rp_raw (en_repo w1)) (?key x) = Some x" if "x \<in> set vs" for x using Cons.prems(3) [of x] other [OF that] that by (simp add: w1(4))
  from Cons.IH [OF w1(2) d(1) this] obtain w' where w': "efor vs (retry_raw cd) w1 = (Inr (), w')" "calm_world cd w'"
    "\<forall>v \<in> set vs. gm_get (rp_raw (en_repo w')) (?key v) = Some (marked (en_clock w1) [] v)"
    "\<forall>k. k \<notin> ?key ` set vs \<longrightarrow> gm_get (rp_raw (en_repo w')) k = gm_get (rp_raw (en_repo w1)) k" by blast
  have "gm_get (rp_raw (en_repo w')) (?key v) = Some (marked (en_clock w) [] v)" using w'(4) d(2) by (simp add: w1(4))
  with w' w1 show ?case by (intro exI [of _ w']) (simp add: ethen_eq)
qed (simp add: eret_def)


lemma page_start: "0 < n \<Longrightarrow> page xs 0 n = take (nat n) xs"
  by (auto simp: page_def Let_def slice_def)

lemma pending_listed:
  assumes inv: "raw_inv cd w" and ok: "gm_ok (rp_raw (en_repo w))" and vs: "vs = ListPendingRawIndexes n (en_repo w)" "0 < n"
  shows "distinct (map (\<lambda>v. key [ri_TenantID v, ri_MessageID v]) vs)"
    "\<And>v. v \<in> set vs \<Longrightarrow> gm_get (rp_raw (en_repo w)) (key [ri_TenantID v, ri_MessageID v]) = Some v"
    "\<And>k v. length (filter raw_pending (gm_vals (rp_raw (en_repo w)))) \<le> nat n \<Longrightarrow> gm_get (rp_raw (en_repo w)) k = Some v \<Longrightarrow> raw_pending v \<Longrightarrow> v \<in> set vs"
proof -
  let ?key = "\<lambda>v. key [ri_TenantID v, ri_MessageID v]" and ?xs = "filter raw_pending (gm_vals (rp_raw (en_repo w)))"
  have "gm_get (rp_raw (en_repo w)) k = Some v" if "(k, v) \<in> set (rp_raw (en_repo w))" for k v
    using ok that by (simp add: gm_mem_get)
  then have "\<forall>(k, v) \<in> set (rp_raw (en_repo w)). k = ?key v" using raw_inv_index [OF inv] by (auto simp: index_ok_def)
  note kv = keyed_vals [OF ok this]
  have l: "vs = take (nat n) (sort_key (\<lambda>v. (ri_PublishAttempts v, ri_ArchivedAt v)) ?xs)" unfolding vs(1) ListPendingRawIndexes_def by (rule page_start [OF vs(2)])
  have "distinct (map ?key ?xs)" using kv(1) by (rule distinct_map_filter)
  then have "distinct (map ?key (sort_key (\<lambda>v. (ri_PublishAttempts v, ri_ArchivedAt v)) ?xs))" by (simp add: distinct_map)
  then show "distinct (map ?key vs)" unfolding l by (simp add: take_map [symmetric])
  show "gm_get (rp_raw (en_repo w)) (?key v) = Some v" if "v \<in> set vs" for v
  proof -
    have "v \<in> set (gm_vals (rp_raw (en_repo w)))" using that in_set_takeD unfolding l by fastforce
    then show ?thesis using kv(2) by simp
  qed
  show "v \<in> set vs" if "length ?xs \<le> nat n" "gm_get (rp_raw (en_repo w)) k = Some v" "raw_pending v" for k v
  proof -
    have "k = ?key v" using raw_inv_index [OF inv that(2)] by (simp add: index_ok_def)
    then have "v \<in> set ?xs" using kv(2) that by simp
    then show ?thesis unfolding l using that(1) by simp
  qed
qed

text \<open>One pass publishes all it lists; when the pending messages fit into one pass, none is left.\<close>

lemma retry_publishes:
  assumes c: "calm_world cd w" and ok: "gm_ok (rp_raw (en_repo w))"
  shows "\<exists>w'. retryPendingRawOnce cd w = (Inr (), w') \<and> calm_world cd w' \<and>
    (\<forall>v \<in> set (ListPendingRawIndexes 200 (en_repo w)). acknowledged cd w' (ri_TenantID v) (ri_MessageID v) (ri_PayloadHash v)) \<and>
    (length (filter raw_pending (gm_vals (rp_raw (en_repo w)))) \<le> 200 \<longrightarrow> (\<forall>k v. gm_get (rp_raw (en_repo w')) k = Some v \<longrightarrow> \<not> raw_pending v))"
proof -
  let ?vs = "ListPendingRawIndexes 200 (en_repo w)" and ?key = "\<lambda>v. key [ri_TenantID v, ri_MessageID v]"
  have w: "raw_inv cd w" "en_sched w = []" "en_clock w \<noteq> 0" using c by (simp_all add: calm_world_def)
  note l = pending_listed [OF w(1) ok refl, of 200, simplified]
  from retry_list [OF c l(1,2)] obtain w' where w': "efor ?vs (retry_raw cd) w = (Inr (), w')" "calm_world cd w'"
    "\<forall>v \<in> set ?vs. gm_get (rp_raw (en_repo w')) (?key v) = Some (marked (en_clock w) [] v)"
    "\<forall>k. k \<notin> ?key ` set ?vs \<longrightarrow> gm_get (rp_raw (en_repo w')) k = gm_get (rp_raw (en_repo w)) k" by blast
  have r: "retryPendingRawOnce cd w = (Inr (), w')" using w(2) w'(1) by (simp add: retryPendingRawOnce_def ebind_eq etry_eq quiet_calls)
  have i': "raw_inv cd w'" using w'(2) by (simp add: calm_world_def)
  have ack: "acknowledged cd w' (ri_TenantID v) (ri_MessageID v) (ri_PayloadHash v)" if "v \<in> set ?vs" for v
    using w'(3) that w(3) by (intro acknowledgedI [OF i', where v = "marked (en_clock w) [] v"]) simp_all
  have none: "\<not> raw_pending v" if few: "length (filter raw_pending (gm_vals (rp_raw (en_repo w)))) \<le> 200" and v: "gm_get (rp_raw (en_repo w')) k = Some v" for k v
  proof (cases "k \<in> ?key ` set ?vs")
    case True
    then obtain x where "x \<in> set ?vs" "k = ?key x" by blast
    then have "v = marked (en_clock w) [] x" using w'(3) v by simp
    then show ?thesis using w(3) by (simp add: raw_pending_def)
  next
    case False
    then have "gm_get (rp_raw (en_repo w)) k = Some v" using w'(4) v by simp
    then show ?thesis using l(3) [OF few] raw_inv_index [OF w(1)] False unfolding index_ok_def by blast
  qed
  show ?thesis using r w'(2) ack none by blast
qed

subsection \<open>A new message on a working archive and bus\<close>

lemma archive_raw_succeeds:
  assumes w: "en_sched w = []" "en_bus_faults w = []" "en_archive_faults w = []" "en_archive w \<noteq> None" and e: "encodable cd raw"
    and n: "gm_get (rp_raw (en_repo w)) (key [rm_TenantID raw, rm_MessageID raw]) = None"
  shows "\<exists>idx w'. archive_raw cd raw w = (Inr (idx, True, None), w')"
proof -
  let ?idx = "archive_index (en_clock w) raw raw_bucket (raw_key raw)"
  obtain b where b: "cd_marshal cd raw = Some b" using e by (auto simp: encodable_def)
  have "fst (PutRaw cd raw w) = Inr ?idx" using w(3) b by (simp add: PutRaw_def Let_def next_fault_def)
  then obtain w1 where p: "PutRaw cd raw w = (Inr ?idx, w1)" by (cases "PutRaw cd raw w") auto
  have "en_bus_faults w1 = en_bus_faults w" using p w(3) b by (auto simp: PutRaw_def Let_def next_fault_def split: if_splits)
  then have w1: "en_repo w1 = en_repo w" "en_sched w1 = []" "en_bus_faults w1 = []" using PutRaw_world [of cd raw w] p w by auto
  have ids: "ri_TenantID ?idx = rm_TenantID raw" "ri_MessageID ?idx = rm_MessageID raw" by (simp_all add: archive_index_def)
  let ?k = "key [rm_TenantID raw, rm_MessageID raw]"
  let ?w2 = "w1\<lparr>en_repo := (en_repo w)\<lparr>rp_raw := gm_put ?k ?idx (rp_raw (en_repo w))\<rparr>\<rparr>"
  have s: "repo_upd (SaveRawIndex ?idx) w1 = (Inr True, ?w2)" using n w1 ids by (simp add: quiet_calls SaveRawIndex_def)
  have "publishArchivedRaw ?idx raw ?w2 = (Inr (), published_world ?idx raw ?w2)"
    using publish_eq [of ?w2 ?idx ?idx raw] w1 ids by (simp add: bus_fails_def)
  then show ?thesis using w(4) p s by (auto simp: archive_raw_def ebind_eq easks_def etry_eq eret_def)
qed

lemma Ingest_succeeds:
  assumes c: "calm_world cd w" "\<not> en_paused w" and n: "named raw" "Validate_raw raw = None" "rm_GatewayID raw = []" and ad: "admissible cd raw"
    and r: "gm_get (rp_rawReservations (en_repo w)) (key [rm_TenantID raw, rm_MessageID raw]) = None"
  shows "\<exists>idx w'. IngestRaw cd json_valid raw w = (Inr (idx, True, None), w')"
proof -
  have w: "raw_inv cd w" "en_sched w = []" "en_bus_faults w = []" "en_archive_faults w = []" "en_archive w \<noteq> None" using c(1) by (simp_all add: calm_world_def)
  obtain x w1 where x: "with_protocol (Normalize (en_clock w) raw) w = (x, w1)" by fastforce
  obtain m where m: "x = Inr m" "same_raw m raw" using prepare_same [OF n(1), of "en_clock w" w] x by auto
  have p1: "prepared w w1" using keepsD [OF prepared_protocol prepared_refl [OF w(2)]] x by (metis snd_conv)
  let ?k = "key [rm_TenantID raw, rm_MessageID raw]"
  have i: "gm_get (rp_raw (en_repo w)) ?k = None"
    using raw_inv_index [OF w(1)] r unfolding index_ok_def reserved_as_def by (metis not_None_eq option.distinct(1))
  have "Validate_raw m = Validate_raw raw" using m(2) by (simp add: Validate_raw_def same_raw_def)
  then have vm: "Validate_raw m = None" using n(2) by simp
  have g: "ensureGatewayChild m w1 = (Inr (), w1)" using n(3) m(2) by (simp add: ensureGatewayChild_def same_raw_def eret_def)
  let ?w2 = "w1\<lparr>en_repo := (en_repo w1)\<lparr>rp_rawReservations := gm_put ?k \<lparr>rr_Metadata = (clone_raw json_valid m)\<lparr>rm_Payload := []\<rparr>, rr_Hash = PayloadHash m\<rparr> (rp_rawReservations (en_repo w))\<rparr>\<rparr>"
  have a: "admit_raw cd json_valid m w1 = archive_raw cd m ?w2"
    using r p1 m(2) by (simp add: admit_raw_def ebind_eq etry_eq quiet_calls ReserveRawMessage_def Let_def prepared_def same_raw_def)
  have "encodable cd m" using ad m(2) by (simp add: admissible_def same_raw_def)
  then have "\<exists>idx w'. archive_raw cd m ?w2 = (Inr (idx, True, None), w')"
    using p1 w i m(2) by (intro archive_raw_succeeds) (simp_all add: prepared_def same_raw_def)
  then show ?thesis using c(2) x m(1) vm g a by (simp add: IngestRaw_def ebind_eq easks_def enow_def etry_eq)
qed

subsection \<open>Children of a gateway\<close>

lemma register_devices:
  assumes q: "en_sched w = []" and new: "gm_get (rp_devices (en_repo w)) (key [rm_TenantID raw, rm_DeviceID raw]) = None" and r: "register_child raw g w = (x, w')"
  shows "gm_get (rp_devices (en_repo w)) k = Some d \<Longrightarrow> gm_get (rp_devices (en_repo w')) k = Some d"
    and "x = Inr () \<Longrightarrow> \<exists>d. gm_get (rp_devices (en_repo w')) (key [rm_TenantID raw, rm_DeviceID raw]) = Some d \<and> md_DeviceRole d = ''CHILD'' \<and>
      md_GatewayID d = g \<and> md_ProductID d = rm_ProductID raw \<and> md_AutoRegistered d"
proof -
  let ?s = "''child_secret_'' @ en_rand w (en_drawn w)" and ?a = "''_'' @ en_rand w (Suc (en_drawn w))"
  let ?d = "new_child raw g ?s ?a (en_clock w)"
  obtain y r1 where y: "SaveManagedDevice ?d (en_repo w) = (y, r1)" by fastforce
  have d: "md_TenantID ?d = rm_TenantID raw" "md_ID ?d = rm_DeviceID raw" "md_DeviceRole ?d = ''CHILD''" "md_GatewayID ?d = g" "md_ProductID ?d = rm_ProductID raw" "md_AutoRegistered ?d"
    by (simp_all add: new_child_def)
  have dv: "rp_devices (en_repo (snd (RecordAudit en w1))) = rp_devices (en_repo w1)" "fst (RecordAudit en w1) = Inr ()" if "en_sched w1 = []" for en w1
    using that by (auto simp: RecordAudit_def ebind_eq eignore_def etry_eq eret_def new_id_def quiet_calls SaveAudit_def)
  have reg: "register_child raw g w = (case y of Inl _ \<Rightarrow> (Inl (ErrText ''auto-register child device''), w\<lparr>en_drawn := Suc (Suc (en_drawn w)), en_repo := r1\<rparr>)
      | Inr _ \<Rightarrow> RecordAudit (child_audit raw g (en_clock w)) (w\<lparr>en_drawn := Suc (Suc (en_drawn w)), en_repo := r1\<rparr>))"
    using q y by (auto simp: register_child_def ebind_eq enow_def new_id_def etry_eq quiet_calls efail_def split: sum.splits)
  have w': "rp_devices (en_repo w') = rp_devices r1" "x = Inr () \<Longrightarrow> y = Inr ()"
    using r reg dv [of "w\<lparr>en_drawn := Suc (Suc (en_drawn w)), en_repo := r1\<rparr>" "child_audit raw g (en_clock w)"] q
    by (auto split: sum.splits)
  have r1: "rp_devices r1 = rp_devices (en_repo w) \<and> isl y \<or> rp_devices r1 = gm_put (key [rm_TenantID raw, rm_DeviceID raw]) ?d (rp_devices (en_repo w))"
    using y d by (auto simp: SaveManagedDevice_def split: if_splits)
  show "gm_get (rp_devices (en_repo w)) k = Some d \<Longrightarrow> gm_get (rp_devices (en_repo w')) k = Some d" using r1 w'(1) new by auto
  show "x = Inr () \<Longrightarrow> \<exists>d. gm_get (rp_devices (en_repo w')) (key [rm_TenantID raw, rm_DeviceID raw]) = Some d \<and> md_DeviceRole d = ''CHILD'' \<and>
      md_GatewayID d = g \<and> md_ProductID d = rm_ProductID raw \<and> md_AutoRegistered d"
    using r1 w' d by auto
qed


text \<open>
  A message through a gateway either leaves the registry as it is or adds its device as a child of the gateway; a registered device
  is never changed, and the message is accepted only if the device is a child of this gateway with the product of the message.
\<close>

lemma ensureGatewayChild_quiet:
  assumes "en_sched w = []" "rm_GatewayID raw \<noteq> []" "rm_DeviceID raw \<noteq> rm_GatewayID raw"
  shows "ensureGatewayChild raw w =
    (case gm_get (rp_devices (en_repo w)) (key [rm_TenantID raw, rm_GatewayID raw]) of
       None \<Rightarrow> (Inl (ErrPermanent ''gateway is not registered''), w)
     | Some gateway \<Rightarrow>
         if \<not> IsGateway gateway then (Inl (ErrPermanent ''device is not configured as a gateway''), w)
         else if rm_ProductID raw = [] then (Inl (ErrPermanent ''child productId is required''), w)
         else if (case gm_get (rp_products (en_repo w)) (key [rm_TenantID raw, rm_ProductID raw]) of None \<Rightarrow> True | Some p \<Rightarrow> pr_Status p \<noteq> ''ENABLED'')
         then (Inl (ErrPermanent ''child product is not enabled''), w)
         else case gm_get (rp_devices (en_repo w)) (key [rm_TenantID raw, rm_DeviceID raw]) of
           None \<Rightarrow> register_child raw (md_ID gateway) w
         | Some child \<Rightarrow>
             if md_DeviceRole child \<noteq> ''CHILD'' \<or> md_GatewayID child \<noteq> md_ID gateway
             then (Inl (ErrPermanent ''device is already registered outside the gateway''), w)
             else if md_ProductID child \<noteq> rm_ProductID raw
             then (Inl (ErrPermanent ''child device product does not match its registration''), w)
             else (Inr (), w))"
  using assms
  by (auto simp: ensureGatewayChild_def ebind_eq etry_eq quiet_calls GetManagedDevice_def GetProduct_def efail_def eret_def split: option.splits)

lemma gateway_children:
  assumes q: "en_sched w = []" and r: "ensureGatewayChild raw w = (x, w')"
  shows "gm_get (rp_devices (en_repo w)) k = Some d \<Longrightarrow> gm_get (rp_devices (en_repo w')) k = Some d"
    and "x = Inr () \<Longrightarrow> rm_GatewayID raw \<noteq> [] \<Longrightarrow> rm_DeviceID raw \<noteq> rm_GatewayID raw \<Longrightarrow>
      \<exists>g d. gm_get (rp_devices (en_repo w)) (key [rm_TenantID raw, rm_GatewayID raw]) = Some g \<and> IsGateway g \<and>
        gm_get (rp_devices (en_repo w')) (key [rm_TenantID raw, rm_DeviceID raw]) = Some d \<and> md_DeviceRole d = ''CHILD'' \<and>
        md_GatewayID d = md_ID g \<and> md_ProductID d = rm_ProductID raw"
proof -
  note reg = register_devices [OF q]
  show "gm_get (rp_devices (en_repo w)) k = Some d \<Longrightarrow> gm_get (rp_devices (en_repo w')) k = Some d"
  proof (cases "rm_GatewayID raw = [] \<or> rm_DeviceID raw = rm_GatewayID raw")
    case True
    then show "gm_get (rp_devices (en_repo w)) k = Some d \<Longrightarrow> ?thesis" using r by (auto simp: ensureGatewayChild_def eret_def)
  next
    case False
    then show "gm_get (rp_devices (en_repo w)) k = Some d \<Longrightarrow> ?thesis"
      using r reg(1) ensureGatewayChild_quiet [OF q, of raw] by (auto split: option.splits if_splits)
  qed
  show "x = Inr () \<Longrightarrow> rm_GatewayID raw \<noteq> [] \<Longrightarrow> rm_DeviceID raw \<noteq> rm_GatewayID raw \<Longrightarrow>
      \<exists>g d. gm_get (rp_devices (en_repo w)) (key [rm_TenantID raw, rm_GatewayID raw]) = Some g \<and> IsGateway g \<and>
        gm_get (rp_devices (en_repo w')) (key [rm_TenantID raw, rm_DeviceID raw]) = Some d \<and> md_DeviceRole d = ''CHILD'' \<and>
        md_GatewayID d = md_ID g \<and> md_ProductID d = rm_ProductID raw"
  proof -
    assume x: "x = Inr ()" and g: "rm_GatewayID raw \<noteq> []" "rm_DeviceID raw \<noteq> rm_GatewayID raw"
    note e = ensureGatewayChild_quiet [OF q g]
    obtain gw where gw: "gm_get (rp_devices (en_repo w)) (key [rm_TenantID raw, rm_GatewayID raw]) = Some gw" "IsGateway gw"
      using r x e by (auto split: option.splits if_splits)
    show ?thesis
    proof (cases "gm_get (rp_devices (en_repo w)) (key [rm_TenantID raw, rm_DeviceID raw])")
      case None
      then have "register_child raw (md_ID gw) w = (x, w')" using r x e gw by (auto split: if_splits option.splits)
      from reg(2) [OF None this x] gw show ?thesis by blast
    next
      case (Some d)
      then have "w' = w \<and> md_DeviceRole d = ''CHILD'' \<and> md_GatewayID d = md_ID gw \<and> md_ProductID d = rm_ProductID raw"
        using r x e gw by (auto split: if_splits option.splits)
      with Some gw show ?thesis by blast
    qed
  qed
qed

subsection \<open>Parsing\<close>

lemma run_parser_name: "run_parser p c raw = Inr m \<Longrightarrow> sm_Parser m = pa_Name p \<and> sm_ParserVersion m = pa_Version p"
  by (auto simp: run_parser_def parsed_by_def split: sum.splits option.splits)

lemma registered_parser:
  "ParseVersionWithConfig reg n v c raw = Inr m \<Longrightarrow> \<exists>p \<in> set (rg_parsers reg). sm_Parser m = pa_Name p \<and> sm_ParserVersion m = pa_Version p"
  "Parse reg raw = Inr m \<Longrightarrow> \<exists>p \<in> set (rg_automatic reg). sm_Parser m = pa_Name p \<and> sm_ParserVersion m = pa_Version p"
  by (auto simp: ParseVersionWithConfig_def Parse_def parsed_by_def find_Some_iff dest!: run_parser_name split: option.splits sum.splits)

definition registered :: "Registry \<Rightarrow> StandardMessage \<Rightarrow> bool" where
  "registered reg m \<longleftrightarrow> (\<exists>p \<in> set (rg_parsers reg) \<union> set (rg_automatic reg). sm_Parser m = pa_Name p \<and> sm_ParserVersion m = pa_Version p)"

lemma MessageComponents_tags: "MessageComponents (m\<lparr>sm_Tags := t\<rparr>) = MessageComponents m"
proof -
  have c: "check_components (m\<lparr>sm_Tags := t\<rparr>) seen cs = check_components m seen cs" for seen cs
  proof (induction cs arbitrary: seen)
    case (Cons c cs)
    have "sm_Timestamp (m\<lparr>sm_Tags := t\<rparr>) = sm_Timestamp m" by simp
    with Cons show ?case by (cases c) (simp only: check_components.simps)
  qed simp
  have f: "sm_Event (m\<lparr>sm_Tags := t\<rparr>) = sm_Event m" "sm_MessageType (m\<lparr>sm_Tags := t\<rparr>) = sm_MessageType m" by simp_all
  show ?thesis unfolding MessageComponents_def c f ..
qed

lemma markThingQuality_tags: "\<exists>t. markThingQuality p m = m\<lparr>sm_Tags := t\<rparr>"
proof (cases "thingModelIssues (pr_ThingModel p) m = []")
  case True
  then show ?thesis by (intro exI [of _ "sm_Tags m"]) (simp add: markThingQuality_def)
qed (auto simp: markThingQuality_def Let_def)

lemma finish_parse_ok:
  assumes "finish_parse raw p m = Inr m'"
  shows "sm_Parser m' = sm_Parser m \<and> sm_ParserVersion m' = sm_ParserVersion m \<and> \<not> isl (MessageComponents m')"
proof -
  obtain cs where cs: "MessageComponents m = Inr cs" using assms by (auto simp: finish_parse_def split: sum.splits)
  obtain t where "m' = m\<lparr>sm_Tags := t\<rparr>"
  proof -
    let ?m = "case p of None \<Rightarrow> m | Some p \<Rightarrow> markThingQuality p m"
    have "\<exists>t. ?m = m\<lparr>sm_Tags := t\<rparr>" using markThingQuality_tags [of _ m] by (cases p) (auto intro: exI [of _ "sm_Tags m"])
    then obtain t where t: "?m = m\<lparr>sm_Tags := t\<rparr>" ..
    have "m' = (if rm_Source raw = ''external-data'' then ?m\<lparr>sm_Tags := external_tags raw (sm_Tags ?m)\<rparr> else ?m)"
      using assms cs by (simp add: finish_parse_def Let_def)
    then show ?thesis unfolding t by (cases "rm_Source raw = ''external-data''") (simp_all add: that)
  qed
  then show ?thesis using cs by (simp add: MessageComponents_tags)
qed

lemma parse_raw_ok:
  assumes "parse_raw reg raw w = (Inr (Inr m), w')"
  shows "registered reg m \<and> \<not> isl (MessageComponents m)"
proof -
  have rel: "registered reg x" if "fst (release_parse reg raw pv w1) = Inr (Some (Inr x))" for pv w1 x
    using that registered_parser(1) unfolding registered_def
    by (fastforce simp: release_parse_def ebind_eq etry_eq eret_def efail_def ParseWithConfig_def split: prod.splits sum.splits if_splits)
  have pkg: "registered reg x" if "fst (package_parse reg raw product w1) = Inr (Some (Inr x))" for product w1 x
    using that registered_parser(1) unfolding registered_def
    by (fastforce simp: package_parse_def ebind_eq etry_eq eret_def efail_def split: option.splits sum.splits if_splits)
  have aut: "registered reg x" if "Parse reg raw = Inr x" for x using registered_parser(2) [OF that] unfolding registered_def by blast
  obtain pv w1 where 1: "bound_protocol raw w = (Inr pv, w1)" using assms by (cases "bound_protocol raw w"; cases "fst (bound_protocol raw w)") (auto simp: parse_raw_def ebind_eq)
  obtain rl w2 where 2: "release_parse reg raw pv w1 = (Inr rl, w2)"
    using assms 1 by (cases "release_parse reg raw pv w1"; cases "fst (release_parse reg raw pv w1)") (auto simp: parse_raw_def ebind_eq)
  obtain pd w3 where 3: "product_of raw w2 = (Inr pd, w3)"
    using assms 1 2 by (cases "product_of raw w2"; cases "fst (product_of raw w2)") (auto simp: parse_raw_def ebind_eq)
  let ?m = "if rl = None then package_parse reg raw pd else eret rl"
  obtain pk w4 where 4: "?m w3 = (Inr pk, w4)"
    using assms 1 2 3 by (cases "?m w3"; cases "fst (?m w3)") (auto simp: parse_raw_def ebind_eq)
  have f: "(case (case pk of Some r \<Rightarrow> r | None \<Rightarrow> Parse reg raw) of Inl e \<Rightarrow> Inl e | Inr msg \<Rightarrow> finish_parse raw pd msg) = Inr m"
    using assms 1 2 3 4 by (simp add: parse_raw_def ebind_eq eret_def)
  then obtain x where x: "(case pk of Some r \<Rightarrow> r | None \<Rightarrow> Parse reg raw) = Inr x" "finish_parse raw pd x = Inr m" by (auto split: sum.splits)
  have "registered reg x"
  proof (cases pk)
    case None
    then show ?thesis using x(1) aut by simp
  next
    case (Some r)
    then have "r = Inr x" using x(1) by simp
    then show ?thesis using rel [of pv w1 x] pkg [of pd w3 x] 2 4 Some by (cases "rl = None") (auto simp: eret_def)
  qed
  with finish_parse_ok [OF x(2)] show ?thesis by (simp add: registered_def)
qed


lemma prepared_parse: "keeps (prepared w) (parse_raw reg raw)"
  unfolding parse_raw_def bound_protocol_def release_parse_def product_of_def package_parse_def
  by (intro keep_rules prepared_binding prepared_release prepared_product prepared_read)

text \<open>What \<^verbatim>\<open>forward\<close> publishes when nothing fails.\<close>

definition forwarded_topics :: "bool \<Rightarrow> MessageType \<Rightarrow> string list" where
  "forwarded_topics external t = TopicDeviceBusiness # (if external then [report_topic t] else [])"

lemma forward_quiet:
  assumes "en_bus_faults w = []" "en_rt_faults w = []"
  shows "\<exists>w'. forward m w = (Inr (), w') \<and> en_repo w' = en_repo w \<and>
    en_bus w' = en_bus w @ map (\<lambda>t. \<lparr>be_Topic = t, be_Key = DeviceKey (sm_TenantID m) (sm_DeviceID m), be_Payload = PStandard m\<rparr>) (forwarded_topics (en_publishExternal w) (sm_MessageType m)) \<and>
    en_rt w' = en_rt w @ [\<lparr>rt_Topic = StandardMessage_MQTTTopic m, rt_Payload = PStandard m, rt_Retain = False\<rparr>]"
  using assms by (simp add: forward_def Let_def ebind_eq etry_eq bus_publish_def rt_publish_def easks_def eret_def forwarded_topics_def)

lemma handleRaw_quiet:
  assumes q: "en_sched w = []" "en_bus_faults w = []" "en_rt_faults w = []" and u: "cd_unmarshal cd b = Some raw" and p: "parse_raw reg raw w = (Inr res, w1)"
  shows "\<exists>w'. handleRaw cd reg b w = (Inr (), w') \<and>
    rp_raw (en_repo w') = rp_raw (MarkRawParseResult (rm_TenantID raw) (rm_MessageID raw) (en_clock w) (case res of Inl e \<Rightarrow> take 512 e | Inr _ \<Rightarrow> []) (en_repo w)) \<and>
    (case res of
       Inl e \<Rightarrow> en_bus w' = en_bus w \<and> en_rt w' = en_rt w
     | Inr m \<Rightarrow> en_bus w' = en_bus w @ map (\<lambda>t. \<lparr>be_Topic = t, be_Key = DeviceKey (sm_TenantID m) (sm_DeviceID m), be_Payload = PStandard m\<rparr>)
           (forwarded_topics (en_publishExternal w) (sm_MessageType m)) \<and>
         en_rt w' = en_rt w @ [\<lparr>rt_Topic = StandardMessage_MQTTTopic m, rt_Payload = PStandard m, rt_Retain = False\<rparr>])"
proof -
  have "prepared w w1" using keepsD [OF prepared_parse prepared_refl [OF q(1)]] p by (metis snd_conv)
  then have w1: "en_sched w1 = []" "en_clock w1 = en_clock w" "en_bus w1 = en_bus w" "en_rt w1 = en_rt w" "en_bus_faults w1 = []" "en_rt_faults w1 = []"
    "rp_raw (en_repo w1) = rp_raw (en_repo w)" "en_publishExternal w1 = en_publishExternal w" using q by (simp_all add: prepared_def)
  let ?f = "MarkRawParseResult (rm_TenantID raw) (rm_MessageID raw) (en_clock w) (case res of Inl e \<Rightarrow> take 512 e | Inr _ \<Rightarrow> [])"
  let ?w2 = "w1\<lparr>en_repo := ?f (en_repo w1)\<rparr>"
  have f: "rp_raw (?f (en_repo w1)) = rp_raw (?f (en_repo w))" using w1(7) by (simp add: MarkRawParseResult_def Let_def split: option.splits)
  have h: "handleRaw cd reg b w = (case res of Inl _ \<Rightarrow> (Inr (), ?w2) | Inr m \<Rightarrow> forward m ?w2)"
    using u p w1(1,2) by (simp add: handleRaw_def ebind_eq ethen_eq enow_def quiet_calls eret_def split: sum.splits)
  show ?thesis
  proof (cases res)
    case (Inl e)
    then show ?thesis using h f w1 by simp
  next
    case (Inr m)
    from forward_quiet [of ?w2 m] w1 Inr h f show ?thesis by auto
  qed
qed

end
