(* ===== verification/Ingest_Samples.thy ===== *)
theory Ingest_Samples
  imports Ingest_Safety Samples
begin

text \<open>Concrete values for the ingest path: a codec, workers with an archive, a message that waits for its publication, a gateway and a parser.\<close>

definition archive_codec :: codec where
  "archive_codec = \<lparr>cd_marshal = (\<lambda>m. Some (rm_MessageID m)),
     cd_unmarshal = (\<lambda>b. Some (zero_RawMessage\<lparr>rm_TenantID := ''t'', rm_MessageID := b, rm_DeviceID := ''d'', rm_ProductID := ''p'', rm_Payload := ''1''\<rparr>))\<rparr>"

definition reported :: RawMessage where
  "reported = zero_RawMessage\<lparr>rm_TenantID := ''t'', rm_MessageID := ''m1'', rm_DeviceID := ''d'', rm_ProductID := ''p'', rm_Payload := ''1''\<rparr>"

definition fresh_worker :: engine where
  "fresh_worker = (sample_worker NewRepository)\<lparr>en_archive := Some []\<rparr>"

definition archived_index :: "int \<Rightarrow> RawArchiveIndex" where
  "archived_index published = (archive_index 900 reported raw_bucket (raw_key reported))\<lparr>ri_PublishedAt := published\<rparr>"

text \<open>A worker whose archive holds the message: still to be published at 0, published otherwise.\<close>

definition archived_worker :: "int \<Rightarrow> bus_event list \<Rightarrow> engine" where
  "archived_worker published events = (sample_worker (NewRepository\<lparr>rp_raw := [(key [''t'', ''m1''], archived_index published)],
       rp_rawReservations := [(key [''t'', ''m1''], \<lparr>rr_Metadata = reported\<lparr>rm_Payload := []\<rparr>, rr_Hash = PayloadHash reported\<rparr>)]\<rparr>))
     \<lparr>en_archive := Some [(object_path raw_bucket (raw_key reported), ''m1'')], en_bus := events\<rparr>"

definition waiting_worker :: engine where
  "waiting_worker = archived_worker 0 []"

definition known_worker :: engine where
  "known_worker = archived_worker 950 [\<lparr>be_Topic = TopicRaw, be_Key = DeviceKey ''t'' ''d'', be_Payload = PRaw reported\<rparr>]"

definition child_of_gateway :: RawMessage where
  "child_of_gateway = reported\<lparr>rm_GatewayID := ''g''\<rparr>"

definition enabled_product :: Product where
  "enabled_product = \<lparr>pr_ThingModel = None, pr_ID = ''p'', pr_TenantID = ''t'', pr_Name = [], pr_ProtocolPackageID = [], pr_Status = ''ENABLED'',
     pr_Metadata = [], pr_ReportIntervalSec = 0, pr_OfflineToleranceSec = 0, pr_CreatedAt = 0, pr_UpdatedAt = 0\<rparr>"

definition gateway_device :: ManagedDevice where
  "gateway_device = zero_ManagedDevice\<lparr>md_ID := ''g'', md_TenantID := ''t'', md_DeviceRole := ''GATEWAY''\<rparr>"

definition child_device :: ManagedDevice where
  "child_device = zero_ManagedDevice\<lparr>md_ID := ''d'', md_TenantID := ''t'', md_ProductID := ''p'', md_DeviceRole := ''CHILD'', md_GatewayID := ''g''\<rparr>"

definition gateway_worker :: engine where
  "gateway_worker = sample_worker (NewRepository\<lparr>rp_products := [(key [''t'', ''p''], enabled_product)],
     rp_devices := [(key [''t'', ''g''], gateway_device), (key [''t'', ''d''], child_device)]\<rparr>)"

definition plain_parser :: Parser where
  "plain_parser = \<lparr>pa_Name = ''plain'', pa_Version = ''1'', pa_Match = (\<lambda>_. True), pa_Parse = (\<lambda>raw. Inr (hex_message raw PropertyReport [])), pa_Config = None\<rparr>"

lemma plain_names: "plain ''t''" "plain ''m1''" "clean ''t''"
  unfolding plain_def clean_def by code_simp+

lemma reported_fields [simp]:
  "rm_TenantID reported = ''t''" "rm_MessageID reported = ''m1''" "rm_Payload reported = ''1''" "rm_GatewayID reported = []" "rm_ProductID reported = ''p''"
  "rm_DeviceID reported = ''d''"
  by (simp_all add: reported_def zero_RawMessage_def)

lemma reported_admissible: "admissible archive_codec reported"
  by (simp add: admissible_def plain_names encodable_def archive_codec_def zero_RawMessage_def)

lemma reported_valid: "Validate_raw reported = None"
  unfolding Validate_raw_def reported_fields by code_simp

lemma fresh_worker_fields [simp]:
  "en_sched fresh_worker = []" "en_clock fresh_worker = 1000" "en_archive_faults fresh_worker = []" "en_bus_faults fresh_worker = []" "\<not> en_paused fresh_worker"
  "en_repo fresh_worker = NewRepository" "en_archive fresh_worker = Some []"
  by (simp_all add: fresh_worker_def sample_worker_def)

lemma fresh_worker_inv: "ingest_inv cd fresh_worker"
  by (simp add: ingest_inv_def raw_inv_def NewRepository_def archive_files_def gm_get_def)

lemma fresh_worker_calm: "calm_world cd fresh_worker"
  using fresh_worker_inv [of cd] by (simp add: calm_world_def ingest_inv_def)

lemma archived_worker_fields [simp]:
  "en_sched (archived_worker p es) = []" "en_clock (archived_worker p es) = 1000" "en_archive_faults (archived_worker p es) = []"
  "en_bus_faults (archived_worker p es) = []" "\<not> en_paused (archived_worker p es)" "en_bus (archived_worker p es) = es"
  "rp_raw (en_repo (archived_worker p es)) = [(key [''t'', ''m1''], archived_index p)]"
  "rp_rawReservations (en_repo (archived_worker p es)) =
     [(key [''t'', ''m1''], \<lparr>rr_Metadata = reported\<lparr>rm_Payload := []\<rparr>, rr_Hash = PayloadHash reported\<rparr>)]"
  "archive_files (archived_worker p es) = [(object_path raw_bucket (raw_key reported), ''m1'')]" "en_archive (archived_worker p es) \<noteq> None"
  by (simp_all add: archived_worker_def sample_worker_def archive_files_def)

lemma archived_index_fields [simp]:
  "ri_TenantID (archived_index p) = ''t''" "ri_MessageID (archived_index p) = ''m1''" "ri_PayloadHash (archived_index p) = PayloadHash reported"
  "ri_PublishedAt (archived_index p) = p" "ri_ObjectBucket (archived_index p) = raw_bucket" "ri_ObjectKey (archived_index p) = raw_key reported"
  "ri_PublishAttempts (archived_index p) = 0" "ri_DeviceID (archived_index p) = ''d''" "ri_ProductID (archived_index p) = ''p''"
  by (simp_all add: archived_index_def archive_index_def)

lemma archived_worker_inv:
  assumes "p \<noteq> 0 \<Longrightarrow> on_bus (archived_worker p es) (archived_index p)"
  shows "ingest_inv archive_codec (archived_worker p es)"
proof -
  let ?w = "archived_worker p es"
  have u: "cd_unmarshal archive_codec ''m1'' = Some reported" by (simp add: archive_codec_def reported_def)
  have r: "reserved_as ?w (key [''t'', ''m1'']) (PayloadHash reported)" by (simp add: reserved_as_def gm_get_def)
  have "readable archive_codec ?w (archived_index p)" using u by (simp add: readable_def gm_get_def matches_def)
  then have "index_ok archive_codec ?w (key [''t'', ''m1'']) (archived_index p)" using r assms by (simp add: index_ok_def plain_names)
  moreover have "file_ok archive_codec ?w (object_path raw_bucket (raw_key reported)) ''m1''"
    unfolding file_ok_def using u r plain_names by (intro exI [of _ reported]) simp
  ultimately have "raw_inv archive_codec ?w" by (auto simp: raw_inv_def gm_get_def split: if_splits)
  then show ?thesis by (auto simp: ingest_inv_def res_ok_def gm_get_def plain_names split: if_splits)
qed

lemma waiting_worker_calm: "calm_world archive_codec waiting_worker"
  using archived_worker_inv [of 0 "[]"] by (simp add: calm_world_def waiting_worker_def ingest_inv_def)

lemma known_worker_inv: "ingest_inv archive_codec known_worker"
  unfolding known_worker_def by (rule archived_worker_inv) (simp add: on_bus_def matches_def)

lemma gateway_devices:
  "IsGateway gateway_device" "md_ID gateway_device = ''g''" "md_DeviceRole child_device = ''CHILD''" "md_GatewayID child_device = ''g''" "md_ProductID child_device = ''p''"
  by code_simp+

lemma gateway_worker_fields:
  "en_sched gateway_worker = []"
  "gm_get (rp_products (en_repo gateway_worker)) (key [''t'', ''p'']) = Some enabled_product"
  "gm_get (rp_devices (en_repo gateway_worker)) (key [''t'', ''g'']) = Some gateway_device"
  "gm_get (rp_devices (en_repo gateway_worker)) (key [''t'', ''d'']) = Some child_device"
proof -
  have "key [''t'', ''d''] \<noteq> key [''t'', ''g'']" by code_simp
  then show "en_sched gateway_worker = []"
    "gm_get (rp_products (en_repo gateway_worker)) (key [''t'', ''p'']) = Some enabled_product"
    "gm_get (rp_devices (en_repo gateway_worker)) (key [''t'', ''g'']) = Some gateway_device"
    "gm_get (rp_devices (en_repo gateway_worker)) (key [''t'', ''d'']) = Some child_device"
    by (simp_all add: gateway_worker_def sample_worker_def gm_get_def)
qed

lemma child_admitted: "ensureGatewayChild child_of_gateway gateway_worker = (Inr (), gateway_worker)"
  by (subst ensureGatewayChild_quiet) (simp_all add: gateway_worker_fields gateway_devices child_of_gateway_def enabled_product_def)

end
