(* ===== verification/Go_Numbers.thy ===== *)
theory Go_Numbers
  imports Rules
begin

text \<open>
  Numbers and texts of the Go standard library that the Modbus components use: IEEE 754 values with their rounding,
  \<^verbatim>\<open>strconv.Atoi\<close>, and the decoding of a JSON string (\<^verbatim>\<open>json.Unmarshal\<close> into a \<^verbatim>\<open>string\<close>). A float
  is its exact rational value, so the two zeros are one. Go may contract a product and a sum into one fused operation; whether it
  does is an argument of the operations that use both.
\<close>

subsection \<open>Floats\<close>

definition pow2 :: "int \<Rightarrow> rat" where
  "pow2 e = (if e \<ge> 0 then 2 ^ nat e else 1 / 2 ^ nat (- e))"

text \<open>The exponent of the leading bit of a positive rational.\<close>

definition lead :: "rat \<Rightarrow> int" where
  "lead a = (case quotient_of a of (n, d) \<Rightarrow>
     let k = int (bit_length (nat n)) - int (bit_length (nat d)) in if pow2 k \<le> a then k else k - 1)"

definition half_even :: "rat \<Rightarrow> int" where
  "half_even q = (let f = \<lfloor>q\<rfloor>; r = q - of_int f in if r > 1 / 2 \<or> r = 1 / 2 \<and> odd f then f + 1 else f)"

text \<open>Rounding to the nearest value of binary64, ties to even, with gradual underflow and overflow to infinity.\<close>

definition f64_round :: "rat \<Rightarrow> f64" where
  "f64_round x =
     (if x = 0 then FNum 0
      else let p = max (lead \<bar>x\<bar> - 52) (- 1074); r = of_int (half_even (\<bar>x\<bar> * pow2 (- p))) * pow2 p
        in if r \<ge> pow2 1024 then FInf (x < 0) else FNum (if x < 0 then - r else r))"

fun f64_mul :: "f64 \<Rightarrow> f64 \<Rightarrow> f64" where
  "f64_mul (FNum a) (FNum b) = f64_round (a * b)"
| "f64_mul (FInf s) (FNum b) = (if b = 0 then FNaN else FInf (s \<noteq> (b < 0)))"
| "f64_mul (FNum a) (FInf s) = (if a = 0 then FNaN else FInf (s \<noteq> (a < 0)))"
| "f64_mul (FInf s) (FInf t) = FInf (s \<noteq> t)"
| "f64_mul _ _ = FNaN"

fun f64_add :: "f64 \<Rightarrow> f64 \<Rightarrow> f64" where
  "f64_add (FNum a) (FNum b) = f64_round (a + b)"
| "f64_add (FInf s) (FNum _) = FInf s"
| "f64_add (FNum _) (FInf s) = FInf s"
| "f64_add (FInf s) (FInf t) = (if s = t then FInf s else FNaN)"
| "f64_add _ _ = FNaN"

text \<open>\<^verbatim>\<open>x*y + z\<close>, rounded once when the two operations are fused.\<close>

fun f64_muladd :: "bool \<Rightarrow> f64 \<Rightarrow> f64 \<Rightarrow> f64 \<Rightarrow> f64" where
  "f64_muladd True (FNum a) (FNum b) (FNum c) = f64_round (a * b + c)"
| "f64_muladd _ x y z = f64_add (f64_mul x y) z"

text \<open>A value from its bits: sign, \<open>eb\<close> bits of exponent and \<open>mb\<close> bits of mantissa.\<close>

definition float_bits :: "nat \<Rightarrow> nat \<Rightarrow> nat \<Rightarrow> f64" where
  "float_bits eb mb n =
     (let neg = odd (n div 2 ^ (eb + mb)); e = n div 2 ^ mb mod 2 ^ eb; m = n mod 2 ^ mb; bias = 2 ^ (eb - 1) - 1;
          v = (if e = 0 then of_nat m * pow2 (1 - bias - int mb) else of_nat (2 ^ mb + m) * pow2 (int e - bias - int mb))
      in if e = 2 ^ eb - 1 then (if m = 0 then FInf neg else FNaN) else FNum (if neg then - v else v))"

definition Float32frombits :: "32 word \<Rightarrow> f64" where
  "Float32frombits w = float_bits 8 23 (unat w)"

definition Float64frombits :: "64 word \<Rightarrow> f64" where
  "Float64frombits w = float_bits 11 52 (unat w)"

subsection \<open>Integers from text\<close>

fun digits_value :: "nat \<Rightarrow> string \<Rightarrow> nat option" where
  "digits_value a [] = Some a"
| "digits_value a (c # cs) = (let n = (of_char c :: nat) in if 48 \<le> n \<and> n \<le> 57 then digits_value (10 * a + (n - 48)) cs else None)"

text \<open>\<^verbatim>\<open>strconv.Atoi\<close>: the value and whether there is no error; a value out of range is the nearest 64-bit one.\<close>

definition Atoi :: "string \<Rightarrow> int \<times> bool" where
  "Atoi s =
     (let neg = (s \<noteq> [] \<and> hd s = CHR ''-''); ds = (if s \<noteq> [] \<and> (hd s = CHR ''-'' \<or> hd s = CHR ''+'') then tl s else s)
      in if ds = [] then (0, False)
         else case digits_value 0 ds of
           None \<Rightarrow> (0, False)
         | Some n \<Rightarrow>
             if neg then (if int n > 2 ^ 63 then (- (2 ^ 63), False) else (- int n, True))
             else if int n \<ge> 2 ^ 63 then (2 ^ 63 - 1, False) else (int n, True))"

subsection \<open>JSON strings\<close>

definition utf8 :: "nat \<Rightarrow> string" where
  "utf8 n = map char_of
     (if n < 0x80 then [n]
      else if n < 0x800 then [0xC0 + n div 64, 0x80 + n mod 64]
      else if n < 0x10000 then [0xE0 + n div 4096, 0x80 + n div 64 mod 64, 0x80 + n mod 64]
      else [0xF0 + n div 262144, 0x80 + n div 4096 mod 64, 0x80 + n div 64 mod 64, 0x80 + n mod 64])"

definition hex4 :: "char \<Rightarrow> char \<Rightarrow> char \<Rightarrow> char \<Rightarrow> nat option" where
  "hex4 a b c d = (case (hex_value a, hex_value b, hex_value c, hex_value d) of
     (Some w, Some x, Some y, Some z) \<Rightarrow> Some (((w * 16 + x) * 16 + y) * 16 + z) | _ \<Rightarrow> None)"

definition surrogate :: "nat \<Rightarrow> bool" where
  "surrogate n \<longleftrightarrow> 0xD800 \<le> n \<and> n < 0xE000"

definition escape_char :: "char \<Rightarrow> char option" where
  "escape_char c = map_of [(CHR 0x22, CHR 0x22), (CHR 0x5C, CHR 0x5C), (CHR ''/'', CHR ''/''), (CHR ''b'', CHR 0x08), (CHR ''f'', CHR 0x0C),
     (CHR ''n'', CHR 0x0A), (CHR ''r'', CHR 0x0D), (CHR ''t'', CHR 0x09)] c"

text \<open>The low surrogate that an escape after the high surrogate \<open>n\<close> gives.\<close>

definition low_surrogate :: "nat \<Rightarrow> string \<Rightarrow> nat option" where
  "low_surrogate n rest = (case rest of
     x # y # e # f # g # h # _ \<Rightarrow>
       if x = CHR 0x5C \<and> y = CHR ''u'' \<and> 0xD800 \<le> n \<and> n < 0xDC00
       then (case hex4 e f g h of Some m \<Rightarrow> if 0xDC00 \<le> m \<and> m < 0xE000 then Some m else None | None \<Rightarrow> None)
       else None
   | _ \<Rightarrow> None)"

text \<open>
  The content of a string literal. A high surrogate escape combines with a low one that follows it; any other surrogate becomes the
  replacement character. Bytes above the ASCII range are taken as well-formed UTF-8.
\<close>

fun json_chars :: "string \<Rightarrow> string option" where
  "json_chars [] = Some []"
| "json_chars (c # cs) =
     (if c = CHR 0x22 \<or> (of_char c :: nat) < 32 then None
      else if c \<noteq> CHR 0x5C then map_option (Cons c) (json_chars cs)
      else case cs of
        [] \<Rightarrow> None
      | x # cs1 \<Rightarrow>
          if x = CHR ''u'' then
            (case cs1 of
               p # q # r # t # rest \<Rightarrow>
                 (case hex4 p q r t of
                    None \<Rightarrow> None
                  | Some n \<Rightarrow>
                      (case low_surrogate n rest of
                         Some m \<Rightarrow> map_option (\<lambda>u. utf8 (0x10000 + (n - 0xD800) * 0x400 + (m - 0xDC00)) @ u) (json_chars (drop 6 rest))
                       | None \<Rightarrow> map_option (\<lambda>u. utf8 (if surrogate n then 0xFFFD else n) @ u) (json_chars rest)))
             | _ \<Rightarrow> None)
          else (case escape_char x of None \<Rightarrow> None | Some y \<Rightarrow> map_option (Cons y) (json_chars cs1)))"

definition json_space :: "char \<Rightarrow> bool" where
  "json_space c \<longleftrightarrow> c = CHR '' '' \<or> c = CHR 0x09 \<or> c = CHR 0x0A \<or> c = CHR 0x0D"

text \<open>\<^verbatim>\<open>json.Unmarshal\<close> into an empty string variable; \<^verbatim>\<open>null\<close> leaves it empty.\<close>

definition json_string :: "string \<Rightarrow> string option" where
  "json_string s = (let t = trim_by json_space s in
     if t = ''null'' then Some []
     else if length t < 2 \<or> hd t \<noteq> CHR 0x22 \<or> last t \<noteq> CHR 0x22 then None
     else json_chars (butlast (tl t)))"

subsection \<open>Exact results\<close>

lemma pow2_pos [simp]: "0 < pow2 e"
  by (simp add: pow2_def)

lemma pow2_powi: "pow2 e = 2 powi e"
  by (simp add: pow2_def power_int_def inverse_eq_divide power_one_over)

lemma pow2_add: "pow2 (a + b) = pow2 a * pow2 b"
  by (simp add: pow2_powi power_int_add)

lemma pow2_mono: "a \<le> b \<Longrightarrow> pow2 a \<le> pow2 b"
  unfolding pow2_powi by (rule power_int_increasing) simp_all

lemma pow2_less_iff: "pow2 a < pow2 b \<longleftrightarrow> a < b"
proof -
  have "pow2 a < pow2 b" if "a < b" for a b
    unfolding pow2_powi by (rule power_int_strict_increasing) (use that in simp_all)
  then show ?thesis using pow2_mono [of b a] by (metis linorder_not_less)
qed

lemma pow2_nat: "0 \<le> e \<Longrightarrow> pow2 e = of_int (2 ^ nat e)"
  by (simp add: pow2_def)

lemma bit_length_bounds: "0 < n \<Longrightarrow> 2 ^ (bit_length n - 1) \<le> n \<and> n < 2 ^ bit_length n \<and> 0 < bit_length n"
proof (induction n rule: bit_length.induct)
  case (1 n)
  show ?case
  proof (cases "n = 1")
    case True
    then show ?thesis by (simp add: bit_length.simps [of "Suc 0"] bit_length.simps [of 0])
  next
    case False
    with 1 have d: "0 < n div 2" and b: "bit_length n = Suc (bit_length (n div 2))" by (auto simp: bit_length.simps [of n])
    have ih: "2 ^ (bit_length (n div 2) - 1) \<le> n div 2" "n div 2 < 2 ^ bit_length (n div 2)" "0 < bit_length (n div 2)"
      using 1 d by auto
    have "2 * 2 ^ (bit_length (n div 2) - 1) = (2 :: nat) ^ bit_length (n div 2)" using ih(3) by (cases "bit_length (n div 2)") auto
    then have "2 ^ bit_length (n div 2) \<le> n" using ih(1) by linarith
    moreover have "n < 2 * 2 ^ bit_length (n div 2)" using ih(2) by linarith
    ultimately show ?thesis by (simp add: b)
  qed
qed

lemma lead_le:
  assumes "0 < a"
  shows "pow2 (lead a) \<le> a"
proof -
  obtain n d where q: "quotient_of a = (n, d)" by fastforce
  have d: "0 < d" and a: "a = of_int n / of_int d" using q quotient_of_denom_pos quotient_of_div by auto
  have n: "0 < n" using assms d a by (simp add: zero_less_divide_iff)
  define bn bd where "bn = bit_length (nat n)" and "bd = bit_length (nat d)"
  have bn: "2 ^ (bn - 1) \<le> nat n" "0 < bn" and bd: "nat d < 2 ^ bd" "0 < bd"
    using bit_length_bounds [of "nat n"] bit_length_bounds [of "nat d"] n d by (auto simp: bn_def bd_def)
  have rn: "(2 :: rat) ^ (bn - 1) \<le> of_int n"
  proof -
    have "int (2 ^ (bn - 1)) \<le> int (nat n)" using bn(1) by (simp only: of_nat_le_iff)
    then have "(2 :: int) ^ (bn - 1) \<le> n" using n by simp
    then show ?thesis by (metis of_int_le_iff of_int_numeral of_int_power)
  qed
  have rd: "of_int d \<le> (2 :: rat) ^ bd"
  proof -
    have "int (nat d) < int (2 ^ bd)" using bd(1) by (simp only: of_nat_less_iff)
    then have "d \<le> (2 :: int) ^ bd" using d by simp
    then show ?thesis by (metis of_int_le_iff of_int_numeral of_int_power)
  qed
  have "pow2 (int bn - int bd - 1) = 2 ^ (bn - 1) / 2 ^ bd"
  proof -
    have "pow2 (int bn - int bd - 1) = pow2 (int (bn - 1) + (- int bd))" using bn(2) by (intro arg_cong [of _ _ pow2]) simp
    also have "\<dots> = pow2 (int (bn - 1)) * pow2 (- int bd)" by (rule pow2_add)
    also have "\<dots> = 2 ^ (bn - 1) / 2 ^ bd" using bd(2) unfolding pow2_def by simp
    finally show ?thesis .
  qed
  also have "\<dots> \<le> of_int n / of_int d" using rn rd d n by (intro frac_le) auto
  finally have "pow2 (int bn - int bd - 1) \<le> a" using a by simp
  then show ?thesis by (simp add: lead_def q Let_def bn_def bd_def)
qed

lemma half_even_int [simp]: "half_even (of_int n) = n"
  by (simp add: half_even_def)

text \<open>Values with at most 53 significant bits in range are exact.\<close>

lemma f64_round_exact:
  assumes x: "x = of_int m * pow2 e" and m: "\<bar>m\<bar> < 2 ^ 53" and e: "- 1074 \<le> e" "e \<le> 971"
  shows "f64_round x = FNum x"
proof (cases "x = 0")
  case False
  define p where "p = max (lead \<bar>x\<bar> - 52) (- 1074)"
  have ax: "\<bar>x\<bar> = of_int \<bar>m\<bar> * pow2 e" by (simp add: x abs_mult abs_of_pos)
  have "of_int \<bar>m\<bar> < (pow2 53 :: rat)"
  proof -
    have "(of_int \<bar>m\<bar> :: rat) < of_int (2 ^ 53)" using m by (simp only: of_int_less_iff)
    then show ?thesis by (simp add: pow2_def)
  qed
  then have "\<bar>x\<bar> < pow2 53 * pow2 e" unfolding ax by (rule mult_strict_right_mono) simp
  then have up: "\<bar>x\<bar> < pow2 (53 + e)" by (simp only: pow2_add)
  have "pow2 (lead \<bar>x\<bar>) < pow2 (53 + e)" using lead_le [of "\<bar>x\<bar>"] False up by linarith
  then have "p \<le> e" using e by (simp add: pow2_less_iff p_def)
  then have "\<bar>x\<bar> * pow2 (- p) = of_int (\<bar>m\<bar> * 2 ^ nat (e - p))"
  proof -
    have "\<bar>x\<bar> * pow2 (- p) = of_int \<bar>m\<bar> * pow2 (e + - p)" by (simp only: ax pow2_add mult.assoc)
    then show ?thesis using \<open>p \<le> e\<close> by (simp add: pow2_def)
  qed
  then have "of_int (half_even (\<bar>x\<bar> * pow2 (- p))) * pow2 p = \<bar>x\<bar>"
    using pow2_add [of "- p" p] by (simp only: half_even_int) (metis add.left_inverse mult.assoc mult.right_neutral pow2_def nat_zero_as_int order_refl power_0)
  moreover have "\<bar>x\<bar> < pow2 1024" using up pow2_mono [of "53 + e" 1024] e by simp
  ultimately show ?thesis using False by (auto simp: f64_round_def Let_def p_def)
qed (simp add: f64_round_def)

corollary f64_round_int:
  assumes "\<bar>n\<bar> < 2 ^ 53"
  shows "f64_round (of_int n) = FNum (of_int n)"
  using assms by (intro f64_round_exact [of _ n 0]) (simp_all add: pow2_def)

text \<open>A small integer passes through a scaling by one without an offset.\<close>

lemma muladd_identity:
  assumes "\<bar>n\<bar> < 2 ^ 53"
  shows "f64_muladd fused (FNum (of_int n)) (FNum 1) (FNum 0) = FNum (of_int n)"
  using f64_round_int [OF assms] by (cases fused) simp_all

lemma f64_of_small: "\<bar>n\<bar> \<le> 2 ^ 53 \<Longrightarrow> f64_of_int n = FNum (of_int n)"
  by (auto simp: f64_of_int_def round53_def nat_le_iff)

subsection \<open>Quoted text\<close>

lemma json_chars_plain: "\<forall>c \<in> set s. c \<noteq> CHR 0x22 \<and> c \<noteq> CHR 0x5C \<and> 32 \<le> (of_char c :: nat) \<Longrightarrow> json_chars s = Some s"
  by (induction s) auto

lemma trim_by_ends: "s \<noteq> [] \<Longrightarrow> \<not> p (hd s) \<Longrightarrow> \<not> p (last s) \<Longrightarrow> trim_by p s = s"
proof -
  assume a: "s \<noteq> []" "\<not> p (hd s)" "\<not> p (last s)"
  then have "dropWhile p s = s" by (cases s) auto
  moreover have "dropWhile p (rev s) = rev s" using a by (cases s rule: rev_cases) auto
  ultimately show ?thesis by (simp add: trim_by_def trim_left_def trim_right_def)
qed

lemma json_string_plain:
  assumes "\<forall>c \<in> set s. c \<noteq> CHR 0x22 \<and> c \<noteq> CHR 0x5C \<and> 32 \<le> (of_char c :: nat)"
  shows "json_string (CHR 0x22 # s @ [CHR 0x22]) = Some s"
proof -
  have "trim_by json_space (CHR 0x22 # s @ [CHR 0x22]) = CHR 0x22 # s @ [CHR 0x22]"
    by (rule trim_by_ends) (simp_all add: json_space_def)
  then show ?thesis using json_chars_plain [OF assms] by (simp add: json_string_def)
qed

end
