(* ===== verification/Point_Table.thy ===== *)
theory Point_Table
  imports Go_Numbers "HOL-Library.Multiset"
begin

text \<open>
  \<^verbatim>\<open>internal/core/point_table.go\<close>: the rows of an uploaded Modbus point table become points with zero based addresses, and the
  points are compiled into the blocks that the runtime reads. The rows are an argument: the readers of CSV and spreadsheet files are outside.
  Error texts are kept without their arguments; non-ASCII literals are written by their UTF-8 bytes.

  The compilation sorts the points of a group by address with \<^verbatim>\<open>sort.Slice\<close>, which leaves the order of equal addresses open. The
  sorting function is therefore an argument \<open>srt\<close>, and the theorems hold for every function that sorts.
\<close>

subsection \<open>Results\<close>

definition rbind :: "'e + 'a \<Rightarrow> ('a \<Rightarrow> 'e + 'b) \<Rightarrow> 'e + 'b" where
  "rbind r f = (case r of Inl e \<Rightarrow> Inl e | Inr x \<Rightarrow> f x)"

definition require :: "bool \<Rightarrow> 'e \<Rightarrow> 'e + unit" where
  "require c e = (if c then Inr () else Inl e)"

lemma rbind_simps [simp]: "rbind (Inl e) f = Inl e" "rbind (Inr x) f = f x"
  by (simp_all add: rbind_def)

lemma rbind_Inr [simp]: "rbind r f = Inr y \<longleftrightarrow> (\<exists>x. r = Inr x \<and> f x = Inr y)"
  by (cases r) (auto simp: rbind_def)

lemma require_Inr [simp]: "require c e = Inr u \<longleftrightarrow> c"
  by (auto simp: require_def)

subsection \<open>Points and blocks\<close>

record ModbusPoint =
  mp_Identifier :: string
  mp_Name :: string
  mp_FunctionCode :: int
  mp_Address :: int
  mp_AddressNotation :: string
  mp_DataType :: string
  mp_RegisterCount :: int
  mp_ByteOrder :: string
  mp_WordOrder :: string
  mp_Bit :: "int option"
  mp_Scale :: f64
  mp_Offset :: f64
  mp_Unit :: string
  mp_Access :: string
  mp_PollIntervalSec :: int
  mp_Deadband :: f64
  mp_AlarmMapping :: "gval gomap"
  mp_Description :: string

record ModbusReadBlock =
  mb_ID :: string
  mb_FunctionCode :: int
  mb_StartAddress :: int
  mb_Quantity :: int
  mb_PollIntervalSec :: int

subsection \<open>Cells\<close>

definition pointCell :: "string list \<Rightarrow> nat gomap \<Rightarrow> string \<Rightarrow> string" where
  "pointCell row columns name = (case gm_get columns name of
     None \<Rightarrow> [] | Some i \<Rightarrow> if i < length row then trim_space (row ! i) else [])"

definition normalizedPointHeader :: "string \<Rightarrow> string" where
  "normalizedPointHeader v = to_lower (filter (\<lambda>c. \<not> (is_space c \<or> c = CHR ''_'' \<or> c = CHR ''-'' \<or> c = CHR ''/'')) (trim_space v))"

definition parsePointInt :: "string \<Rightarrow> int \<times> bool" where
  "parsePointInt v = (let v = trim_space (trim_prefix (to_upper v) ''FC'') in if v = [] then (0, True) else Atoi v)"

definition optionalPointInt :: "string \<Rightarrow> int option \<times> bool" where
  "optionalPointInt v = (if trim_space v = [] then (None, True) else case Atoi (trim_space v) of (n, ok) \<Rightarrow> (Some n, ok))"

definition parseModbusAddress :: "string \<Rightarrow> string \<Rightarrow> int \<Rightarrow> string + (int \<times> string \<times> int)" where
  "parseModbusAddress str notation fc =
     (let clean = trim_left (\<lambda>c. c = CHR '' '') (fold (\<lambda>p s. trim_prefix s p) [''HR'', ''IR'', ''COIL'', ''DI''] (trim_space (to_upper str)));
          n = fst (Atoi clean); ok = snd (Atoi clean); given = trim_space notation; name = to_lower given;
          notation' = (if name = [] then ''zero_based'' else name)
      in if \<not> ok \<or> n < 0 then Inl ''invalid Modbus address''
         else if equal_fold given ''zero_based'' then
           (if fc = 0 then Inl ''functionCode is required for zero/one based addresses''
            else if n > 65535 then Inl ''Modbus address must not exceed 65535''
            else Inr (n, ''zero_based'', fc))
         else if 40001 \<le> n \<and> n \<le> 49999 then
           (if fc \<noteq> 0 \<and> fc \<noteq> 3 then Inl ''4xxxx address conflicts with functionCode'' else Inr (n - 40001, ''4xxxx'', 3))
         else if 30001 \<le> n \<and> n \<le> 39999 then
           (if fc \<noteq> 0 \<and> fc \<noteq> 4 then Inl ''3xxxx address conflicts with functionCode'' else Inr (n - 30001, ''3xxxx'', 4))
         else if 10001 \<le> n \<and> n \<le> 19999 then
           (if fc \<noteq> 0 \<and> fc \<noteq> 2 then Inl ''1xxxx address conflicts with functionCode'' else Inr (n - 10001, ''1xxxx'', 2))
         else if notation' = ''one_based'' \<and> n = 0 then Inl ''one_based address must start at 1''
         else if notation' \<noteq> ''one_based'' \<and> notation' \<noteq> ''zero_based'' then Inl ''unsupported addressNotation''
         else if fc = 0 then Inl ''functionCode is required for zero/one based addresses''
         else Inr (if notation' = ''one_based'' then n - 1 else n, notation', fc))"

definition PointRegisterCount :: "string \<Rightarrow> string \<Rightarrow> string + int" where
  "PointRegisterCount dataType str =
     (if str \<noteq> [] then (case Atoi str of (n, ok) \<Rightarrow> if \<not> ok \<or> n \<le> 0 then Inl ''registerCount must be positive'' else Inr n)
      else if dataType \<in> {''bool'', ''uint16'', ''int16'', ''bits''} then Inr 1
      else if dataType \<in> {''uint32'', ''int32'', ''float32''} then Inr 2
      else if dataType \<in> {''uint64'', ''int64'', ''float64''} then Inr 4
      else if dataType = ''string'' then Inl ''string requires registerCount''
      else Inl ''unsupported dataType'')"

definition pointWidth :: "ModbusPoint \<Rightarrow> int" where
  "pointWidth p = (if mp_FunctionCode p \<le> 2 then 1 else if mp_RegisterCount p > 0 then mp_RegisterCount p else 1)"

definition identifier_char :: "char \<Rightarrow> bool" where
  "identifier_char c \<longleftrightarrow> (let n = (of_char c :: nat) in 97 \<le> n \<and> n \<le> 122 \<or> 48 \<le> n \<and> n \<le> 57 \<or> n = 95)"

fun identifier_text :: "string \<Rightarrow> string \<Rightarrow> string" where
  "identifier_text b [] = b"
| "identifier_text b (c # cs) =
     identifier_text (if identifier_char c then b @ [c] else if b \<noteq> [] \<and> last b \<noteq> CHR ''_'' then b @ ''_'' else b) cs"

text \<open>\<^verbatim>\<open>%02d\<close>\<close>

definition two_digits :: "int \<Rightarrow> string" where
  "two_digits n = (if 0 \<le> n \<and> n < 10 then CHR ''0'' # int_digits n else int_digits n)"

definition GeneratedPointIdentifier :: "string \<Rightarrow> int \<Rightarrow> int \<Rightarrow> string" where
  "GeneratedPointIdentifier name fc address =
     (let v = trim_by (\<lambda>c. c = CHR ''_'') (identifier_text [] (to_lower name))
      in if v = [] then ''fc'' @ two_digits fc @ ''_'' @ int_digits address else v)"

definition validWordOrder :: "string \<Rightarrow> int \<Rightarrow> bool" where
  "validWordOrder value n =
     (if n \<le> 2 then value = ''ABCD'' \<or> value = ''AB''
      else if n = 4 then value \<in> {''ABCD'', ''CDAB'', ''BADC'', ''DCBA''}
      else if n = 8 then value \<in> {''ABCDEFGH'', ''GHEFCDAB'', ''BADCFEHG'', ''HGFEDCBA''}
      else False)"

text \<open>\<^verbatim>\<open>strings.FieldsFunc\<close> with the ASCII and the full width semicolon and comma; the full width ones are three bytes.\<close>

fun alarm_items :: "string \<Rightarrow> string \<Rightarrow> string list" where
  "alarm_items cur [] = (if cur = [] then [] else [cur])"
| "alarm_items cur (c # cs) =
     (if c = CHR '';'' \<or> c = CHR '','' then (if cur = [] then [] else [cur]) @ alarm_items [] cs
      else if c = CHR 0xEF \<and> (take 2 cs = [CHR 0xBC, CHR 0x9B] \<or> take 2 cs = [CHR 0xBC, CHR 0x8C])
      then (if cur = [] then [] else [cur]) @ alarm_items [] (drop 2 cs)
      else alarm_items (cur @ [c]) cs)"

definition alarm_entry :: "string \<Rightarrow> (string \<times> string) option" where
  "alarm_entry item = (let t = trim_space item; k = takeWhile (\<lambda>c. c \<noteq> CHR ''='') t; r = dropWhile (\<lambda>c. c \<noteq> CHR ''='') t
     in if r = [] \<or> trim_space k = [] \<or> trim_space (tl r) = [] then None else Some (trim_space k, trim_space (tl r)))"

fun alarm_entries :: "gval gomap \<Rightarrow> string list \<Rightarrow> string + gval gomap" where
  "alarm_entries m [] = Inr m"
| "alarm_entries m (i # is) = (case alarm_entry i of
     None \<Rightarrow> Inl ''alarmMapping must use value=alarmType'' | Some (k, v) \<Rightarrow> alarm_entries (gm_put k (VStr v) m) is)"

definition parseAlarmMapping :: "string \<Rightarrow> string + gval gomap" where
  "parseAlarmMapping value = (if trim_space value = [] then Inr [] else alarm_entries [] (alarm_items [] (trim_space value)))"

subsection \<open>Rows\<close>

definition point_aliases :: "string gomap" where
  "point_aliases =
     [(''identifier'', ''identifier''),
      ([CHR 0xE6, CHR 0xA0, CHR 0x87, CHR 0xE8, CHR 0xAF, CHR 0x86], ''identifier''),
      ([CHR 0xE5, CHR 0xB1, CHR 0x9E, CHR 0xE6, CHR 0x80, CHR 0xA7, CHR 0xE6, CHR 0xA0, CHR 0x87, CHR 0xE8, CHR 0xAF, CHR 0x86], ''identifier''),
      ([CHR 0xE5, CHR 0x8F, CHR 0x98, CHR 0xE9, CHR 0x87, CHR 0x8F, CHR 0xE6, CHR 0xA0, CHR 0x87, CHR 0xE8, CHR 0xAF, CHR 0x86], ''identifier''),
      (''name'', ''name''),
      ([CHR 0xE5, CHR 0x90, CHR 0x8D, CHR 0xE7, CHR 0xA7, CHR 0xB0], ''name''),
      ([CHR 0xE5, CHR 0x8F, CHR 0x98, CHR 0xE9, CHR 0x87, CHR 0x8F, CHR 0xE5, CHR 0x90, CHR 0x8D, CHR 0xE7, CHR 0xA7, CHR 0xB0], ''name''),
      ([CHR 0xE7, CHR 0x82, CHR 0xB9, CHR 0xE4, CHR 0xBD, CHR 0x8D, CHR 0xE5, CHR 0x90, CHR 0x8D, CHR 0xE7, CHR 0xA7, CHR 0xB0], ''name''),
      (''functioncode'', ''functionCode''),
      ([CHR 0xE5, CHR 0x8A, CHR 0x9F, CHR 0xE8, CHR 0x83, CHR 0xBD, CHR 0xE7, CHR 0xA0, CHR 0x81], ''functionCode''),
      (''fc'', ''functionCode''),
      (''address'', ''address''),
      ([CHR 0xE5, CHR 0x9C, CHR 0xB0, CHR 0xE5, CHR 0x9D, CHR 0x80], ''address''),
      (''modbus'' @ [CHR 0xE5, CHR 0x9C, CHR 0xB0, CHR 0xE5, CHR 0x9D, CHR 0x80], ''address''),
      ([CHR 0xE5, CHR 0xAF, CHR 0x84, CHR 0xE5, CHR 0xAD, CHR 0x98, CHR 0xE5, CHR 0x99, CHR 0xA8, CHR 0xE5, CHR 0x9C, CHR 0xB0, CHR 0xE5, CHR 0x9D, CHR 0x80], ''address''),
      (''plc'' @ [CHR 0xE7, CHR 0xBA, CHR 0xBF, CHR 0xE5, CHR 0x9C, CHR 0x88, CHR 0xE5, CHR 0x9C, CHR 0xB0, CHR 0xE5, CHR 0x9D, CHR 0x80], ''address''),
      (''addressnotation'', ''addressNotation''),
      ([CHR 0xE5, CHR 0x9C, CHR 0xB0, CHR 0xE5, CHR 0x9D, CHR 0x80, CHR 0xE6, CHR 0xA0, CHR 0xBC, CHR 0xE5, CHR 0xBC, CHR 0x8F], ''addressNotation''),
      ([CHR 0xE5, CHR 0x9C, CHR 0xB0, CHR 0xE5, CHR 0x9D, CHR 0x80, CHR 0xE5, CHR 0x9F, CHR 0xBA, CHR 0xE5, CHR 0x87, CHR 0x86], ''addressNotation''),
      (''datatype'', ''dataType''),
      ([CHR 0xE6, CHR 0x95, CHR 0xB0, CHR 0xE6, CHR 0x8D, CHR 0xAE, CHR 0xE7, CHR 0xB1, CHR 0xBB, CHR 0xE5, CHR 0x9E, CHR 0x8B], ''dataType''),
      ([CHR 0xE7, CHR 0xB1, CHR 0xBB, CHR 0xE5, CHR 0x9E, CHR 0x8B], ''dataType''),
      (''registercount'', ''registerCount''),
      ([CHR 0xE5, CHR 0xAF, CHR 0x84, CHR 0xE5, CHR 0xAD, CHR 0x98, CHR 0xE5, CHR 0x99, CHR 0xA8, CHR 0xE6, CHR 0x95, CHR 0xB0, CHR 0xE9, CHR 0x87, CHR 0x8F], ''registerCount''),
      ([CHR 0xE9, CHR 0x95, CHR 0xBF, CHR 0xE5, CHR 0xBA, CHR 0xA6], ''registerCount''),
      (''byteorder'', ''byteOrder''),
      ([CHR 0xE5, CHR 0xAD, CHR 0x97, CHR 0xE8, CHR 0x8A, CHR 0x82, CHR 0xE5, CHR 0xBA, CHR 0x8F], ''byteOrder''),
      ([CHR 0xE7, CHR 0xAB, CHR 0xAF, CHR 0xE5, CHR 0xBA, CHR 0x8F], ''byteOrder''),
      (''wordorder'', ''wordOrder''),
      ([CHR 0xE5, CHR 0xAD, CHR 0x97, CHR 0xE5, CHR 0xBA, CHR 0x8F], ''wordOrder''),
      (''bit'', ''bit''),
      ([CHR 0xE4, CHR 0xBD, CHR 0x8D], ''bit''),
      ([CHR 0xE4, CHR 0xBD, CHR 0x8D, CHR 0xE7, CHR 0xB4, CHR 0xA2, CHR 0xE5, CHR 0xBC, CHR 0x95], ''bit''),
      (''scale'', ''scale''),
      ([CHR 0xE5, CHR 0x80, CHR 0x8D, CHR 0xE7, CHR 0x8E, CHR 0x87], ''scale''),
      ([CHR 0xE7, CHR 0xBC, CHR 0xA9, CHR 0xE6, CHR 0x94, CHR 0xBE], ''scale''),
      (''offset'', ''offset''),
      ([CHR 0xE5, CHR 0x81, CHR 0x8F, CHR 0xE7, CHR 0xA7, CHR 0xBB], ''offset''),
      (''unit'', ''unit''),
      ([CHR 0xE5, CHR 0x8D, CHR 0x95, CHR 0xE4, CHR 0xBD, CHR 0x8D], ''unit''),
      (''access'', ''access''),
      ([CHR 0xE8, CHR 0xAF, CHR 0xBB, CHR 0xE5, CHR 0x86, CHR 0x99], ''access''),
      ([CHR 0xE8, CHR 0xAE, CHR 0xBF, CHR 0xE9, CHR 0x97, CHR 0xAE, CHR 0xE6, CHR 0x96, CHR 0xB9, CHR 0xE5, CHR 0xBC, CHR 0x8F], ''access''),
      (''pollintervalsec'', ''pollIntervalSec''),
      ([CHR 0xE8, CHR 0xBD, CHR 0xAE, CHR 0xE8, CHR 0xAF, CHR 0xA2, CHR 0xE5, CHR 0x91, CHR 0xA8, CHR 0xE6, CHR 0x9C, CHR 0x9F], ''pollIntervalSec''),
      ([CHR 0xE9, CHR 0x87, CHR 0x87, CHR 0xE9, CHR 0x9B, CHR 0x86, CHR 0xE5, CHR 0x91, CHR 0xA8, CHR 0xE6, CHR 0x9C, CHR 0x9F], ''pollIntervalSec''),
      (''deadband'', ''deadband''),
      ([CHR 0xE6, CHR 0xAD, CHR 0xBB, CHR 0xE5, CHR 0x8C, CHR 0xBA], ''deadband''),
      (''alarmmapping'', ''alarmMapping''),
      ([CHR 0xE5, CHR 0x91, CHR 0x8A, CHR 0xE8, CHR 0xAD, CHR 0xA6, CHR 0xE6, CHR 0x98, CHR 0xA0, CHR 0xE5, CHR 0xB0, CHR 0x84], ''alarmMapping''),
      ([CHR 0xE6, CHR 0x8A, CHR 0xA5, CHR 0xE8, CHR 0xAD, CHR 0xA6, CHR 0xE6, CHR 0x98, CHR 0xA0, CHR 0xE5, CHR 0xB0, CHR 0x84], ''alarmMapping''),
      (''description'', ''description''),
      ([CHR 0xE8, CHR 0xAF, CHR 0xB4, CHR 0xE6, CHR 0x98, CHR 0x8E], ''description''),
      ([CHR 0xE5, CHR 0xA4, CHR 0x87, CHR 0xE6, CHR 0xB3, CHR 0xA8], ''description'')]"

definition header_columns :: "string list \<Rightarrow> nat gomap" where
  "header_columns row = fold (\<lambda>(column, cell) m. case gm_get point_aliases (normalizedPointHeader cell) of
     None \<Rightarrow> m | Some canonical \<Rightarrow> gm_put canonical column m) (enumerate 0 row) []"

definition header_ok :: "nat gomap \<Rightarrow> bool" where
  "header_ok columns \<longleftrightarrow> gm_get columns ''address'' \<noteq> None \<and> gm_get columns ''name'' \<noteq> None"

text \<open>The header row, the number of the row after it and the rows after it.\<close>

fun find_header :: "nat \<Rightarrow> string list list \<Rightarrow> (nat gomap \<times> nat \<times> string list list) option" where
  "find_header i [] = None"
| "find_header i (row # rows) = (if header_ok (header_columns row) then Some (header_columns row, i + 2, rows) else find_header (i + 1) rows)"

definition float_cell :: "golib \<Rightarrow> string \<Rightarrow> f64 \<Rightarrow> string \<Rightarrow> string + f64" where
  "float_cell lb str d e = (if str = [] then Inr d else case lb_atof lb str of None \<Rightarrow> Inl e | Some x \<Rightarrow> Inr x)"

definition poll_cell :: "string \<Rightarrow> int \<Rightarrow> string + int" where
  "poll_cell str d = (if str = [] then Inr d else case Atoi str of (n, ok) \<Rightarrow>
     if \<not> ok \<or> n \<le> 0 then Inl ''pollIntervalSec must be positive'' else Inr n)"

definition default_type :: "string \<Rightarrow> int \<Rightarrow> string" where
  "default_type str fc = (if str \<noteq> [] then str else if fc = 1 \<or> fc = 2 then ''bool'' else ''uint16'')"

definition or_default :: "string \<Rightarrow> string \<Rightarrow> string" where
  "or_default str d = (if str = [] then d else str)"

text \<open>A row up to its word order, with the identifiers of the rows before it.\<close>

definition row_head :: "golib \<Rightarrow> (string \<Rightarrow> string) \<Rightarrow> int \<Rightarrow> string list \<Rightarrow> string + ModbusPoint" where
  "row_head lb cell defaultPoll seen =
     rbind (require (cell ''name'' \<noteq> [] \<and> cell ''address'' \<noteq> []) ''name and address are required'') (\<lambda>_.
     let fc0 = fst (parsePointInt (cell ''functionCode'')) in
     rbind (parseModbusAddress (cell ''address'') (cell ''addressNotation'') fc0) (\<lambda>(address, notation, inferred).
     let fc = (if fc0 = 0 then inferred else fc0) in
     rbind (require (1 \<le> fc \<and> fc \<le> 4) ''functionCode must be 01, 02, 03 or 04'') (\<lambda>_.
     let dataType = default_type (to_lower (trim_space (cell ''dataType''))) fc in
     rbind (PointRegisterCount dataType (cell ''registerCount'')) (\<lambda>registerCount.
     let bit = fst (optionalPointInt (cell ''bit'')); ok = snd (optionalPointInt (cell ''bit'')) in
     rbind (require (ok \<and> (case bit of None \<Rightarrow> True | Some b \<Rightarrow> 0 \<le> b \<and> b \<le> 15)) ''bit must be between 0 and 15'') (\<lambda>_.
     rbind (float_cell lb (cell ''scale'') (FNum 1) ''invalid scale'') (\<lambda>scale.
     rbind (float_cell lb (cell ''offset'') (FNum 0) ''invalid offset'') (\<lambda>offset.
     rbind (poll_cell (cell ''pollIntervalSec'') defaultPoll) (\<lambda>poll.
     let identifier = or_default (trim_space (cell ''identifier'')) (GeneratedPointIdentifier (cell ''name'') fc address) in
     rbind (require (identifier \<notin> set seen) ''duplicate identifier'') (\<lambda>_.
     let byteOrder = or_default (to_lower (trim_space (cell ''byteOrder''))) ''big'' in
     rbind (require (byteOrder = ''big'' \<or> byteOrder = ''little'') ''byteOrder must be big or little'') (\<lambda>_.
     Inr \<lparr>mp_Identifier = identifier, mp_Name = cell ''name'', mp_FunctionCode = fc, mp_Address = address, mp_AddressNotation = notation,
       mp_DataType = dataType, mp_RegisterCount = registerCount, mp_ByteOrder = byteOrder,
       mp_WordOrder = or_default (to_upper (trim_space (cell ''wordOrder''))) ''ABCD'', mp_Bit = bit, mp_Scale = scale, mp_Offset = offset,
       mp_Unit = cell ''unit'', mp_Access = [], mp_PollIntervalSec = poll, mp_Deadband = FNum 0, mp_AlarmMapping = [],
       mp_Description = cell ''description''\<rparr>))))))))))"

text \<open>The rest of the row: the checks of the word order and the access, the deadband and the alarms.\<close>

definition row_tail :: "golib \<Rightarrow> (string \<Rightarrow> string) \<Rightarrow> ModbusPoint \<Rightarrow> string + ModbusPoint" where
  "row_tail lb cell p =
     rbind (require (mp_DataType p = ''string'' \<or> validWordOrder (mp_WordOrder p) (mp_RegisterCount p * 2)) ''wordOrder does not match'') (\<lambda>_.
     let access = or_default (to_lower (trim_space (cell ''access''))) ''read'' in
     rbind (require (access = ''read'' \<or> access = ''read_write'') ''access must be read or read_write'') (\<lambda>_.
     rbind (float_cell lb (cell ''deadband'') (FNum 0) ''invalid deadband'') (\<lambda>deadband.
     rbind (require (\<not> f64_lt deadband (FNum 0)) ''invalid deadband'') (\<lambda>_.
     rbind (parseAlarmMapping (cell ''alarmMapping'')) (\<lambda>alarms.
     Inr (p\<lparr>mp_Access := access, mp_Deadband := deadband, mp_AlarmMapping := alarms\<rparr>))))))"

definition order_warning :: "nat \<Rightarrow> string \<Rightarrow> string" where
  "order_warning line name = [CHR 0xE7, CHR 0xAC, CHR 0xAC] @ '' '' @ nat_digits line @ '' '' @ [CHR 0xE8, CHR 0xA1, CHR 0x8C] @ '' '' @ name @ '' '' @ [CHR 0xE6, CHR 0x9C, CHR 0xAA, CHR 0xE5, CHR 0xA1, CHR 0xAB, CHR 0xE5, CHR 0x86, CHR 0x99, CHR 0xE5, CHR 0xAD, CHR 0x97, CHR 0xE5, CHR 0xBA, CHR 0x8F, CHR 0xEF, CHR 0xBC, CHR 0x8C, CHR 0xE6, CHR 0x9A, CHR 0x82, CHR 0xE6, CHR 0x8C, CHR 0x89] @ '' ABCD''"

definition row_error :: "nat \<Rightarrow> string \<Rightarrow> string" where
  "row_error line e = ''row '' @ nat_digits line @ '': '' @ e"

fun normalize_rows :: "golib \<Rightarrow> nat gomap \<Rightarrow> int \<Rightarrow> nat \<Rightarrow> string list \<Rightarrow> string list list \<Rightarrow> (string + ModbusPoint list) \<times> string list" where
  "normalize_rows lb columns poll line seen [] = (Inr [], [])"
| "normalize_rows lb columns poll line seen (row # rows) =
     (let cell = pointCell row columns in
      if cell ''name'' = [] \<and> cell ''address'' = [] then normalize_rows lb columns poll (line + 1) seen rows
      else case row_head lb cell poll seen of
        Inl e \<Rightarrow> (Inl (row_error line e), [])
      | Inr p \<Rightarrow>
          let w = (if mp_RegisterCount p > 1 \<and> cell ''wordOrder'' = [] then [order_warning line (mp_Name p)] else []) in
          (case row_tail lb cell p of
             Inl e \<Rightarrow> (Inl (row_error line e), w)
           | Inr q \<Rightarrow>
               (case normalize_rows lb columns poll (line + 1) (mp_Identifier q # seen) rows of
                  (r, ws) \<Rightarrow> (map_sum id (Cons q) r, w @ ws))))"

definition normalizeModbusRows :: "golib \<Rightarrow> string list list \<Rightarrow> int \<Rightarrow> (string + ModbusPoint list) \<times> string list" where
  "normalizeModbusRows lb rows defaultPoll = (case find_header 0 rows of
     None \<Rightarrow> (Inl ''point table header must contain name and address'', [])
   | Some (columns, line, data) \<Rightarrow>
       (case normalize_rows lb columns defaultPoll line [] data of
          (Inr [], ws) \<Rightarrow> (Inl ''point table does not contain any data rows'', ws)
        | r \<Rightarrow> r))"

subsection \<open>Blocks\<close>

definition poll_interval :: "ModbusPoint \<Rightarrow> int" where
  "poll_interval p = (if mp_PollIntervalSec p \<le> 0 then 10 else mp_PollIntervalSec p)"

definition group_key :: "ModbusPoint \<Rightarrow> string" where
  "group_key p = int_digits (mp_FunctionCode p) @ ''/'' @ int_digits (poll_interval p)"

definition read_limit :: "int \<Rightarrow> int" where
  "read_limit fc = (if fc \<le> 2 then 2000 else 125)"

definition read_block :: "int \<Rightarrow> int \<Rightarrow> int \<Rightarrow> int \<Rightarrow> ModbusReadBlock" where
  "read_block fc interval start stop = \<lparr>mb_ID = ''fc'' @ two_digits fc @ ''_'' @ int_digits start @ ''_'' @ int_digits (stop - start),
     mb_FunctionCode = fc, mb_StartAddress = start, mb_Quantity = stop - start, mb_PollIntervalSec = interval\<rparr>"

fun merge_points :: "int \<Rightarrow> int \<Rightarrow> int \<Rightarrow> int \<Rightarrow> ModbusPoint list \<Rightarrow> ModbusReadBlock list" where
  "merge_points fc interval start stop [] = [read_block fc interval start stop]"
| "merge_points fc interval start stop (p # ps) =
     (let pEnd = mp_Address p + pointWidth p in
      if mp_Address p > stop \<or> pEnd - start > read_limit fc
      then read_block fc interval start stop # merge_points fc interval (mp_Address p) pEnd ps
      else merge_points fc interval start (if pEnd > stop then pEnd else stop) ps)"

definition group_blocks :: "ModbusPoint list \<Rightarrow> ModbusReadBlock list" where
  "group_blocks ps = (case ps of
     [] \<Rightarrow> []
   | p # rest \<Rightarrow> merge_points (mp_FunctionCode p) (poll_interval p) (mp_Address p) (mp_Address p + pointWidth p) rest)"

definition CompileModbusReadBlocks :: "(ModbusPoint list \<Rightarrow> ModbusPoint list) \<Rightarrow> ModbusPoint list \<Rightarrow> string + ModbusReadBlock list" where
  "CompileModbusReadBlocks srt points =
     (if list_all (\<lambda>p. 1 \<le> mp_FunctionCode p \<and> mp_FunctionCode p \<le> 4) points
      then Inr (concat (map (\<lambda>k. group_blocks (srt (filter (\<lambda>p. group_key p = k) points))) (sort (remdups (map group_key points)))))
      else Inl ''point has unsupported function code'')"

subsection \<open>Accepted tables\<close>

text \<open>What every accepted point satisfies, whatever the table.\<close>

definition point_ok :: "ModbusPoint \<Rightarrow> bool" where
  "point_ok p \<longleftrightarrow> 1 \<le> mp_FunctionCode p \<and> mp_FunctionCode p \<le> 4 \<and> 0 \<le> mp_Address p \<and> 1 \<le> mp_RegisterCount p \<and>
     (case mp_Bit p of None \<Rightarrow> True | Some b \<Rightarrow> 0 \<le> b \<and> b \<le> 15) \<and> (mp_ByteOrder p = ''big'' \<or> mp_ByteOrder p = ''little'') \<and>
     (mp_DataType p = ''string'' \<or> validWordOrder (mp_WordOrder p) (mp_RegisterCount p * 2)) \<and>
     (mp_Access p = ''read'' \<or> mp_Access p = ''read_write'')"

lemma parseModbusAddress_nonneg: "parseModbusAddress s notation fc = Inr (a, n, i) \<Longrightarrow> 0 \<le> a"
  by (auto simp: parseModbusAddress_def Let_def split: if_splits)

lemma PointRegisterCount_pos: "PointRegisterCount d s = Inr n \<Longrightarrow> 1 \<le> n"
  by (auto simp: PointRegisterCount_def split: if_splits prod.splits)

lemma poll_cell_pos: "poll_cell s d = Inr n \<Longrightarrow> 0 < d \<Longrightarrow> 0 < n"
  by (auto simp: poll_cell_def split: if_splits prod.splits)

lemma row_head_ok:
  assumes "row_head lb cell poll seen = Inr p"
  shows "1 \<le> mp_FunctionCode p \<and> mp_FunctionCode p \<le> 4" "0 \<le> mp_Address p" "1 \<le> mp_RegisterCount p"
    "case mp_Bit p of None \<Rightarrow> True | Some b \<Rightarrow> 0 \<le> b \<and> b \<le> 15" "mp_ByteOrder p = ''big'' \<or> mp_ByteOrder p = ''little''"
    "mp_Identifier p \<notin> set seen" "0 < poll \<Longrightarrow> 0 < mp_PollIntervalSec p"
proof -
  note u = assms [unfolded row_head_def Let_def, simplified]
  obtain a n i where a: "parseModbusAddress (cell ''address'') (cell ''addressNotation'') (fst (parsePointInt (cell ''functionCode''))) = Inr (a, n, i)"
    using u by auto
  show "1 \<le> mp_FunctionCode p \<and> mp_FunctionCode p \<le> 4" "mp_ByteOrder p = ''big'' \<or> mp_ByteOrder p = ''little''" "mp_Identifier p \<notin> set seen"
    "case mp_Bit p of None \<Rightarrow> True | Some b \<Rightarrow> 0 \<le> b \<and> b \<le> 15"
    using u a by auto
  show "0 \<le> mp_Address p" using u a parseModbusAddress_nonneg by auto
  show "1 \<le> mp_RegisterCount p" using u a PointRegisterCount_pos by auto
  show "0 < mp_PollIntervalSec p" if "0 < poll" using u a poll_cell_pos that by auto
qed

lemma row_tail_ok:
  assumes "row_tail lb cell p = Inr q"
  shows "mp_DataType q = ''string'' \<or> validWordOrder (mp_WordOrder q) (mp_RegisterCount q * 2)" "mp_Access q = ''read'' \<or> mp_Access q = ''read_write''"
    "mp_FunctionCode q = mp_FunctionCode p" "mp_Address q = mp_Address p" "mp_RegisterCount q = mp_RegisterCount p" "mp_Bit q = mp_Bit p"
    "mp_ByteOrder q = mp_ByteOrder p" "mp_Identifier q = mp_Identifier p" "mp_PollIntervalSec q = mp_PollIntervalSec p"
  using assms by (auto simp: row_tail_def Let_def)

lemma row_ok:
  assumes "row_head lb cell poll seen = Inr p" "row_tail lb cell p = Inr q"
  shows "point_ok q \<and> mp_Identifier q \<notin> set seen \<and> (0 < poll \<longrightarrow> 0 < mp_PollIntervalSec q)"
  using row_head_ok [OF assms(1)] row_tail_ok [OF assms(2)] unfolding point_ok_def by simp

lemma map_sum_Inr: "map_sum id f r = Inr y \<longleftrightarrow> (\<exists>x. r = Inr x \<and> y = f x)"
  by (cases r) auto

lemma normalize_rows_ok:
  assumes "normalize_rows lb columns poll line seen rows = (Inr ps, ws)"
  shows "(\<forall>p \<in> set ps. point_ok p \<and> (0 < poll \<longrightarrow> 0 < mp_PollIntervalSec p)) \<and> distinct (map mp_Identifier ps) \<and>
    (\<forall>p \<in> set ps. mp_Identifier p \<notin> set seen)"
  using assms
proof (induction rows arbitrary: line seen ps ws)
  case (Cons row rows)
  let ?cell = "pointCell row columns"
  show ?case
  proof (cases "?cell ''name'' = [] \<and> ?cell ''address'' = []")
    case True
    then show ?thesis using Cons by simp
  next
    case False
    then obtain p q qs ws' where r: "row_head lb ?cell poll seen = Inr p" "row_tail lb ?cell p = Inr q"
      "normalize_rows lb columns poll (line + 1) (mp_Identifier q # seen) rows = (Inr qs, ws')" "ps = q # qs"
      using Cons.prems by (auto simp: Let_def map_sum_Inr split: sum.splits prod.splits)
    show ?thesis using row_ok [OF r(1,2)] Cons.IH [OF r(3)] r(4) by auto
  qed
qed simp

lemma normalizeModbusRows_ok:
  assumes "normalizeModbusRows lb rows poll = (Inr ps, ws)"
  shows "ps \<noteq> [] \<and> (\<forall>p \<in> set ps. point_ok p \<and> (0 < poll \<longrightarrow> 0 < mp_PollIntervalSec p)) \<and> distinct (map mp_Identifier ps)"
proof -
  obtain columns line data where h: "find_header 0 rows = Some (columns, line, data)"
    "normalize_rows lb columns poll line [] data = (Inr ps, ws)" "ps \<noteq> []"
    using assms by (auto simp: normalizeModbusRows_def split: option.splits prod.splits sum.splits list.splits)
  show ?thesis using normalize_rows_ok [OF h(2)] h(3) by blast
qed

subsection \<open>Compiled blocks\<close>

definition block_end :: "ModbusReadBlock \<Rightarrow> int" where
  "block_end b = mb_StartAddress b + mb_Quantity b"

definition point_end :: "ModbusPoint \<Rightarrow> int" where
  "point_end p = mp_Address p + pointWidth p"

text \<open>A block reads a point whole.\<close>

definition covers :: "ModbusReadBlock \<Rightarrow> ModbusPoint \<Rightarrow> bool" where
  "covers b p \<longleftrightarrow> mb_FunctionCode b = mp_FunctionCode p \<and> mb_PollIntervalSec b = poll_interval p \<and>
     mb_StartAddress b \<le> mp_Address p \<and> point_end p \<le> block_end b"

text \<open>Every address from \<open>start\<close> up to \<open>stop\<close> belongs to a point of \<open>P\<close>.\<close>

definition tiled :: "ModbusPoint set \<Rightarrow> int \<Rightarrow> int \<Rightarrow> bool" where
  "tiled P start stop \<longleftrightarrow> (\<forall>a. start \<le> a \<and> a < stop \<longrightarrow> (\<exists>p \<in> P. mp_Address p \<le> a \<and> a < point_end p))"

lemma pointWidth_pos [simp]: "1 \<le> pointWidth p" "0 < pointWidth p"
  by (simp_all add: pointWidth_def)

lemma read_block_fields [simp]:
  "mb_FunctionCode (read_block fc i s e) = fc" "mb_StartAddress (read_block fc i s e) = s" "mb_Quantity (read_block fc i s e) = e - s"
  "mb_PollIntervalSec (read_block fc i s e) = i" "block_end (read_block fc i s e) = e"
  by (simp_all add: read_block_def block_end_def)

lemma tiled_point: "p \<in> P \<Longrightarrow> tiled P (mp_Address p) (point_end p)"
  by (auto simp: tiled_def)

lemma tiled_extend: "tiled P s e \<Longrightarrow> p \<in> P \<Longrightarrow> mp_Address p \<le> e \<Longrightarrow> tiled P s (max e (point_end p))"
  unfolding tiled_def by (metis less_max_iff_disj linorder_not_le order_trans)

text \<open>The first block begins where the merge began and reads at least what was merged before.\<close>

lemma merge_first: "\<exists>b \<in> set (merge_points fc i s e ps). mb_FunctionCode b = fc \<and> mb_PollIntervalSec b = i \<and> mb_StartAddress b = s \<and> e \<le> block_end b"
proof (induction ps arbitrary: s e)
  case (Cons p ps)
  show ?case
  proof (cases "mp_Address p > e \<or> mp_Address p + pointWidth p - s > read_limit fc")
    case False
    then show ?thesis using Cons.IH [of s "if mp_Address p + pointWidth p > e then mp_Address p + pointWidth p else e"] by (auto simp: Let_def split: if_splits)
  qed (auto simp: Let_def)
qed simp

lemma merge_covers:
  assumes "p \<in> set ps" "sorted (map mp_Address ps)" "\<forall>q \<in> set ps. s \<le> mp_Address q"
    and "mp_FunctionCode p = fc" "poll_interval p = i"
  shows "\<exists>b \<in> set (merge_points fc i s e ps). covers b p"
  using assms
proof (induction ps arbitrary: s e)
  case (Cons q ps)
  let ?stop = "mp_Address q + pointWidth q"
  have sorted: "sorted (map mp_Address ps)" "\<forall>x \<in> set ps. mp_Address q \<le> mp_Address x" "s \<le> mp_Address q" "\<forall>x \<in> set ps. s \<le> mp_Address x"
    using Cons.prems by auto
  show ?case
  proof (cases "mp_Address q > e \<or> ?stop - s > read_limit fc")
    case True
    then have m: "merge_points fc i s e (q # ps) = read_block fc i s e # merge_points fc i (mp_Address q) ?stop ps" by (simp add: Let_def)
    show ?thesis
    proof (cases "p = q")
      case True
      then show ?thesis using merge_first [of fc i "mp_Address q" ?stop ps] Cons.prems(4,5) m by (auto simp: covers_def point_end_def)
    next
      case False
      then show ?thesis using Cons.IH [of "mp_Address q" ?stop] Cons.prems sorted m by auto
    qed
  next
    case False
    let ?e = "if ?stop > e then ?stop else e"
    have m: "merge_points fc i s e (q # ps) = merge_points fc i s ?e ps" using False by (simp add: Let_def)
    show ?thesis
    proof (cases "p = q")
      case True
      then show ?thesis using merge_first [of fc i s ?e ps] Cons.prems(4,5) sorted(3) m by (auto simp: covers_def point_end_def split: if_splits)
    next
      case False
      then show ?thesis using Cons.IH [of s ?e] Cons.prems sorted m by auto
    qed
  qed
qed simp

lemma merge_blocks:
  assumes "b \<in> set (merge_points fc i s e ps)" "set ps \<subseteq> P" "tiled P s e" "s < e" "e - s \<le> read_limit fc" "\<forall>p \<in> set ps. pointWidth p \<le> read_limit fc"
  shows "mb_FunctionCode b = fc \<and> 0 < mb_Quantity b \<and> mb_Quantity b \<le> read_limit fc \<and> tiled P (mb_StartAddress b) (block_end b)"
  using assms
proof (induction ps arbitrary: s e)
  case (Cons p ps)
  let ?stop = "mp_Address p + pointWidth p"
  have p: "p \<in> P" "pointWidth p \<le> read_limit fc" using Cons.prems by auto
  show ?case
  proof (cases "mp_Address p > e \<or> ?stop - s > read_limit fc")
    case True
    then consider "b = read_block fc i s e" | "b \<in> set (merge_points fc i (mp_Address p) ?stop ps)" using Cons.prems(1) by (auto simp: Let_def)
    then show ?thesis
    proof cases
      case 1
      then show ?thesis using Cons.prems by simp
    next
      case 2
      then show ?thesis using Cons.IH [OF 2] Cons.prems p tiled_point [OF p(1)] by (simp add: point_end_def)
    qed
  next
    case False
    have "tiled P s (max e ?stop)" using tiled_extend [OF Cons.prems(3) p(1)] False by (simp add: point_end_def)
    moreover have "(if ?stop > e then ?stop else e) = max e ?stop" by (simp add: max_def)
    ultimately show ?thesis using Cons.IH [of s "max e ?stop"] Cons.prems False by (simp add: Let_def max_def split: if_splits)
  qed
qed simp

lemma merge_function: "b \<in> set (merge_points fc i s e ps) \<Longrightarrow> mb_FunctionCode b = fc"
  by (induction ps arbitrary: s e) (auto simp: Let_def split: if_splits)

text \<open>The documented contract of the sort.\<close>

definition sorts :: "(ModbusPoint list \<Rightarrow> ModbusPoint list) \<Rightarrow> bool" where
  "sorts srt \<longleftrightarrow> (\<forall>ps. mset (srt ps) = mset ps \<and> sorted (map mp_Address (srt ps)))"

text \<open>A point that the protocol can address in one request.\<close>

definition addressable :: "ModbusPoint \<Rightarrow> bool" where
  "addressable p \<longleftrightarrow> 1 \<le> mp_FunctionCode p \<and> mp_FunctionCode p \<le> 4 \<and> 0 \<le> mp_Address p \<and> point_end p \<le> 65536 \<and> pointWidth p \<le> read_limit (mp_FunctionCode p)"

lemma int_digits_inject: "int_digits a @ CHR ''/'' # s = int_digits b @ CHR ''/'' # t \<Longrightarrow> 1 \<le> a \<Longrightarrow> 1 \<le> b \<Longrightarrow> a = b \<and> s = t"
proof -
  assume eq: "int_digits a @ CHR ''/'' # s = int_digits b @ CHR ''/'' # t" and pos: "1 \<le> a" "1 \<le> b"
  have d: "CHR ''/'' \<notin> set (nat_digits n)" for n using nat_digits_all_digit [of "CHR ''/''" n] by auto
  have "nat_digits (nat a) @ CHR ''/'' # s = nat_digits (nat b) @ CHR ''/'' # t" using eq pos by (simp add: int_digits_def)
  note e = this
  have tw: "takeWhile (\<lambda>c. c \<noteq> CHR ''/'') (nat_digits n @ CHR ''/'' # u) = nat_digits n" for n u
    using d [of n] by (subst takeWhile_append2) auto
  have "nat_digits (nat a) = nat_digits (nat b)" using arg_cong [OF e, of "takeWhile (\<lambda>c. c \<noteq> CHR ''/'')"] unfolding tw .
  with e have "nat_digits (nat a) = nat_digits (nat b) \<and> s = t" by simp
  then have "nat a = nat b" "s = t" by simp_all
  moreover from this have "a = b" using pos by linarith
  ultimately show ?thesis by simp
qed

lemma poll_interval_pos: "1 \<le> poll_interval p"
  by (simp add: poll_interval_def)

lemma group_key_inject:
  assumes "group_key p = group_key q" "1 \<le> mp_FunctionCode p" "1 \<le> mp_FunctionCode q"
  shows "mp_FunctionCode p = mp_FunctionCode q \<and> poll_interval p = poll_interval q"
proof -
  have "mp_FunctionCode p = mp_FunctionCode q \<and> int_digits (poll_interval p) = int_digits (poll_interval q)"
    using assms int_digits_inject [of "mp_FunctionCode p" _ "mp_FunctionCode q"] by (simp add: group_key_def)
  then have "mp_FunctionCode p = mp_FunctionCode q \<and> nat (poll_interval p) = nat (poll_interval q)"
    using poll_interval_pos [of p] poll_interval_pos [of q] by (simp add: int_digits_def)
  then show ?thesis using poll_interval_pos [of p] poll_interval_pos [of q] by linarith
qed

definition point_group :: "(ModbusPoint list \<Rightarrow> ModbusPoint list) \<Rightarrow> ModbusPoint list \<Rightarrow> string \<Rightarrow> ModbusPoint list" where
  "point_group srt points k = srt (filter (\<lambda>p. group_key p = k) points)"

lemma group_set: "sorts srt \<Longrightarrow> set (point_group srt points k) = {p \<in> set points. group_key p = k}"
  unfolding sorts_def point_group_def by (metis set_filter set_mset_mset)

lemma Compile_blocks:
  "CompileModbusReadBlocks srt points = Inr bs \<Longrightarrow> set bs = (\<Union>k \<in> set (map group_key points). set (group_blocks (point_group srt points k)))"
  by (auto simp: CompileModbusReadBlocks_def point_group_def split: if_splits)

lemma compile_covers:
  assumes c: "CompileModbusReadBlocks srt points = Inr bs" and s: "sorts srt" and p: "p \<in> set points"
  shows "\<exists>b \<in> set bs. covers b p"
proof -
  let ?g = "point_group srt points (group_key p)"
  have fc: "\<forall>q \<in> set points. 1 \<le> mp_FunctionCode q" using c by (auto simp: CompileModbusReadBlocks_def list_all_iff split: if_splits)
  have pg: "p \<in> set ?g" using p group_set [OF s] by auto
  then obtain q qs where g: "?g = q # qs" by (cases ?g) auto
  have "q \<in> set points" "group_key q = group_key p" using g group_set [OF s, of points "group_key p"] by (auto simp: set_eq_iff)
  then have k: "mp_FunctionCode q = mp_FunctionCode p" "poll_interval q = poll_interval p" using group_key_inject fc p by metis+
  have so: "sorted (map mp_Address ?g)" using s by (simp add: sorts_def point_group_def)
  let ?bs = "merge_points (mp_FunctionCode q) (poll_interval q) (mp_Address q) (mp_Address q + pointWidth q) qs"
  have "\<exists>b \<in> set ?bs. covers b p"
  proof (cases "p = q")
    case True
    then show ?thesis using merge_first [of "mp_FunctionCode q" "poll_interval q" "mp_Address q" "mp_Address q + pointWidth q" qs]
      by (auto simp: covers_def point_end_def)
  next
    case False
    then show ?thesis using pg g so k by (intro merge_covers) auto
  qed
  then have "\<exists>b \<in> set (group_blocks ?g). covers b p" by (simp add: group_blocks_def g)
  then show ?thesis unfolding Compile_blocks [OF c] using p by auto
qed

lemma compile_in_limits:
  assumes c: "CompileModbusReadBlocks srt points = Inr bs" and s: "sorts srt" and a: "\<forall>p \<in> set points. addressable p" and b: "b \<in> set bs"
  shows "1 \<le> mb_FunctionCode b \<and> mb_FunctionCode b \<le> 4 \<and> 0 < mb_Quantity b \<and> mb_Quantity b \<le> read_limit (mb_FunctionCode b) \<and>
    tiled {p \<in> set points. mp_FunctionCode p = mb_FunctionCode b} (mb_StartAddress b) (block_end b)"
proof -
  obtain k where k: "b \<in> set (group_blocks (point_group srt points k))" using b Compile_blocks [OF c] by auto
  then obtain q qs where g: "point_group srt points k = q # qs" by (cases "point_group srt points k") (auto simp: group_blocks_def)
  have gs: "set (q # qs) = {p \<in> set points. group_key p = k}" using group_set [OF s, of points k] g by simp
  have "q \<in> set (q # qs)" by simp
  then have q1: "q \<in> set points" "group_key q = k" unfolding gs by auto
  have "\<forall>p \<in> set qs. p \<in> set (q # qs)" by simp
  then have "\<forall>p \<in> set qs. p \<in> set points \<and> group_key p = k" unfolding gs by auto
  with q1 a have q: "q \<in> set points" "addressable q" "\<forall>p \<in> set qs. p \<in> set points \<and> group_key p = group_key q" by auto
  let ?fc = "mp_FunctionCode q"
  let ?P = "{p \<in> set points. mp_FunctionCode p = ?fc}"
  have same: "mp_FunctionCode p = ?fc" if "p \<in> set qs" for p using group_key_inject [of p q] q that a by (auto simp: addressable_def)
  have "b \<in> set (merge_points ?fc (poll_interval q) (mp_Address q) (point_end q) qs)" using k g by (simp add: group_blocks_def point_end_def)
  moreover have "set qs \<subseteq> ?P" using q same by auto
  moreover have "tiled ?P (mp_Address q) (point_end q)" using q by (intro tiled_point) simp
  moreover have "\<forall>p \<in> set qs. pointWidth p \<le> read_limit ?fc" using q(3) a by (metis addressable_def same)
  ultimately have "mb_FunctionCode b = ?fc \<and> 0 < mb_Quantity b \<and> mb_Quantity b \<le> read_limit ?fc \<and> tiled ?P (mb_StartAddress b) (block_end b)"
    using q(2) by (intro merge_blocks) (auto simp: addressable_def point_end_def)
  then show ?thesis using q(2) by (auto simp: addressable_def)
qed

end
