(* ===== verification/Modbus_Points.thy ===== *)
theory Modbus_Points
  imports Raw_Parsing Point_Table Modbus_Frame
begin

text \<open>
  The parsers of Modbus responses that a point table or a coil map describes: \<^verbatim>\<open>internal/parser/modbus_tcp.go\<close>,
  \<^verbatim>\<open>modbus_rtu.go\<close> and \<^verbatim>\<open>modbus_coil.go\<close>. The points of a configuration pass through JSON; their decoding is the argument
  \<open>points_of\<close>. A read beyond the end of a slice panics in Go, which is a result of its own.
\<close>

datatype modbus_error = ModbusPanic | ModbusError string

subsection \<open>Values of a configuration\<close>

definition firstConfig :: "golib \<Rightarrow> gval gomap \<Rightarrow> string \<Rightarrow> string" where
  "firstConfig lb config k = (case gm_get config k of None \<Rightarrow> [] | Some v \<Rightarrow> if v = VNil then [] else trim_space (sprint lb v))"

text \<open>\<^verbatim>\<open>int(x)\<close> of a float: cut towards zero. Values that do not fit are left to the platform; they are 0 here.\<close>

definition int_of_f64 :: "f64 \<Rightarrow> int" where
  "int_of_f64 x = (case x of FNum q \<Rightarrow> (let n = (if q < 0 then - \<lfloor>- q\<rfloor> else \<lfloor>q\<rfloor>) in if - (2 ^ 63) \<le> n \<and> n < 2 ^ 63 then n else 0) | _ \<Rightarrow> 0)"

definition whole :: "f64 \<Rightarrow> bool" where
  "whole x \<longleftrightarrow> f64_eq x (f64_of_int (int_of_f64 x))"

definition configInt :: "golib \<Rightarrow> gval gomap \<Rightarrow> string \<Rightarrow> int \<Rightarrow> int" where
  "configInt lb config k fallback = (case gm_get config k of
     None \<Rightarrow> fallback
   | Some (VFloat x) \<Rightarrow> int_of_f64 x
   | Some v \<Rightarrow> (case Atoi (sprint lb v) of (n, ok) \<Rightarrow> if ok then n else fallback))"

definition metadataInt :: "gval gomap \<Rightarrow> string \<Rightarrow> int option" where
  "metadataInt metadata k = (case gm_get metadata k of
     Some (VInt kind n) \<Rightarrow> if kind = KInt \<or> kind = KInt64 then Some n else None
   | Some (VFloat x) \<Rightarrow> if whole x then Some (int_of_f64 x) else None
   | Some (VStr s) \<Rightarrow> (case Atoi (trim_space s) of (n, ok) \<Rightarrow> if ok then Some n else None)
   | _ \<Rightarrow> None)"

text \<open>The payload as bytes: a JSON string, or the text without its quotes, without blanks and line breaks.\<close>

definition decodeHexPayload :: "string \<Rightarrow> bytes option" where
  "decodeHexPayload payload =
     (let str = (case json_string payload of Some t \<Rightarrow> t | None \<Rightarrow> trim_by (\<lambda>c. c = CHR 0x22) payload)
      in hex_decode (remove_chars [CHR '' '', CHR 0x0D, CHR 0x0A, CHR 0x09] (trim_space str)))"

subsection \<open>Register values\<close>

definition be_value :: "bytes \<Rightarrow> nat" where
  "be_value bs = foldl (\<lambda>a b. 256 * a + unat b) 0 bs"

definition signed_value :: "nat \<Rightarrow> nat \<Rightarrow> int" where
  "signed_value n v = (if v < 2 ^ (n - 1) then int v else int v - 2 ^ n)"

text \<open>The first \<open>n\<close> bytes as a big endian number, which panics when there are fewer.\<close>

definition take_number :: "nat \<Rightarrow> bytes \<Rightarrow> modbus_error + nat" where
  "take_number n data = (if length data < n then Inl ModbusPanic else Inr (be_value (take n data)))"

fun swap_pairs :: "bytes \<Rightarrow> bytes" where
  "swap_pairs (a # b # bs) = b # a # swap_pairs bs"
| "swap_pairs bs = bs"

definition reorderModbusWords :: "bytes \<Rightarrow> string \<Rightarrow> bytes" where
  "reorderModbusWords data order =
     (if length data = 4 then
        (if order = ''CDAB'' then [data ! 2, data ! 3, data ! 0, data ! 1]
         else if order = ''BADC'' then [data ! 1, data ! 0, data ! 3, data ! 2]
         else if order = ''DCBA'' then [data ! 3, data ! 2, data ! 1, data ! 0]
         else data)
      else if length data = 8 then
        (if order = ''GHEFCDAB'' then [data ! 6, data ! 7, data ! 4, data ! 5, data ! 2, data ! 3, data ! 0, data ! 1]
         else if order = ''BADCFEHG'' then [data ! 1, data ! 0, data ! 3, data ! 2, data ! 5, data ! 4, data ! 7, data ! 6]
         else if order = ''HGFEDCBA'' then [data ! 7, data ! 6, data ! 5, data ! 4, data ! 3, data ! 2, data ! 1, data ! 0]
         else data)
      else data)"

definition numericUint64 :: "gval \<Rightarrow> int option" where
  "numericUint64 v = (case v of VInt KUint64 n \<Rightarrow> Some n | VInt KInt64 n \<Rightarrow> if n \<ge> 0 then Some n else None | _ \<Rightarrow> None)"

definition numericFloat64 :: "gval \<Rightarrow> f64 option" where
  "numericFloat64 v = (case v of VInt KUint64 n \<Rightarrow> Some (f64_of_int n) | VInt KInt64 n \<Rightarrow> Some (f64_of_int n) | VFloat x \<Rightarrow> Some x | _ \<Rightarrow> None)"

definition register_bytes :: "bytes \<Rightarrow> ModbusPoint \<Rightarrow> bytes" where
  "register_bytes data p = reorderModbusWords (if equal_fold (mp_ByteOrder p) ''little'' then swap_pairs data else data) (to_upper (trim_space (mp_WordOrder p)))"

text \<open>The value before bit selection and scaling. A point is never decoded from less than one register.\<close>

definition typed_value :: "string \<Rightarrow> bytes \<Rightarrow> modbus_error + gval" where
  "typed_value kind ordered =
     (if kind = ''bool'' then map_sum id (\<lambda>n. VBool (n \<noteq> 0)) (take_number 2 ordered)
      else if kind = ''bits'' \<or> kind = ''uint16'' then map_sum id (\<lambda>n. VInt KUint64 (int n)) (take_number 2 ordered)
      else if kind = ''int16'' then map_sum id (\<lambda>n. VInt KInt64 (signed_value 16 n)) (take_number 2 ordered)
      else if kind = ''uint32'' then map_sum id (\<lambda>n. VInt KUint64 (int n)) (take_number 4 ordered)
      else if kind = ''int32'' then map_sum id (\<lambda>n. VInt KInt64 (signed_value 32 n)) (take_number 4 ordered)
      else if kind = ''float32'' then map_sum id (\<lambda>n. VFloat (Float32frombits (of_nat n))) (take_number 4 ordered)
      else if kind = ''uint64'' then map_sum id (\<lambda>n. VInt KUint64 (int n)) (take_number 8 ordered)
      else if kind = ''int64'' then map_sum id (\<lambda>n. VInt KInt64 (signed_value 64 n)) (take_number 8 ordered)
      else if kind = ''float64'' then map_sum id (\<lambda>n. VFloat (Float64frombits (of_nat n))) (take_number 8 ordered)
      else if kind = ''string'' then Inr (VStr (trim_right (\<lambda>c. c = CHR 0x00 \<or> c = CHR '' '') (map (\<lambda>b. char_of (unat b)) ordered)))
      else Inl (ModbusError ''unsupported dataType''))"

definition decodeModbusRegisterValue :: "bool \<Rightarrow> bytes \<Rightarrow> ModbusPoint \<Rightarrow> modbus_error + gval" where
  "decodeModbusRegisterValue fused data p =
     rbind (typed_value (to_lower (mp_DataType p)) (register_bytes data p)) (\<lambda>value.
     case mp_Bit p of
       Some b \<Rightarrow>
         (case numericUint64 value of
            None \<Rightarrow> Inl (ModbusError ''bit extraction requires an integer data type'')
          | Some n \<Rightarrow> Inr (VBool (0 \<le> b \<and> b < 64 \<and> bit n (nat b))))
     | None \<Rightarrow>
         (case numericFloat64 value of
            Some x \<Rightarrow> Inr (VFloat (f64_muladd fused x (if f64_eq (mp_Scale p) (FNum 0) then FNum 1 else mp_Scale p) (mp_Offset p)))
          | None \<Rightarrow> Inr value))"

definition modbusAlarm :: "golib \<Rightarrow> gval gomap \<Rightarrow> gval \<Rightarrow> string option" where
  "modbusAlarm lb mapping value =
     (let keys = sprint lb value # (case value of VBool b \<Rightarrow> [if b then ''1'' else ''0''] | _ \<Rightarrow> [])
      in case List.map_filter (gm_get mapping) keys of [] \<Rightarrow> None | alarm # _ \<Rightarrow> Some (sprint lb alarm))"

subsection \<open>Modbus TCP\<close>

text \<open>The value of a point in a response that begins at \<open>start\<close>: \<open>None\<close> when the point is not in it.\<close>

definition point_value :: "bool \<Rightarrow> bytes \<Rightarrow> int \<Rightarrow> int \<Rightarrow> ModbusPoint \<Rightarrow> (modbus_error + gval) option" where
  "point_value fused data fc start p =
     (let width = (if fc \<le> 2 then 1 else if mp_RegisterCount p \<le> 0 then 1 else mp_RegisterCount p); offset = mp_Address p - start
      in if mp_FunctionCode p \<noteq> fc \<or> offset < 0 then None
         else if fc \<le> 2 then
           (if offset \<ge> int (length data) * 8 then None else Some (Inr (VBool (bit (data ! (nat offset div 8)) (nat offset mod 8)))))
         else if offset * 2 + width * 2 > int (length data) then None
         else Some (decodeModbusRegisterValue fused (slice data (nat (offset * 2)) (nat (offset * 2 + width * 2))) p))"

fun point_values :: "golib \<Rightarrow> bool \<Rightarrow> bytes \<Rightarrow> int \<Rightarrow> int \<Rightarrow> gval gomap \<times> gval gomap \<times> MessageType \<Rightarrow> ModbusPoint list \<Rightarrow>
    modbus_error + gval gomap \<times> gval gomap \<times> MessageType" where
  "point_values lb fused data fc start acc [] = Inr acc"
| "point_values lb fused data fc start (properties, event, kind) (p # ps) =
     (case point_value fused data fc start p of
        None \<Rightarrow> point_values lb fused data fc start (properties, event, kind) ps
      | Some (Inl e) \<Rightarrow> Inl e
      | Some (Inr v) \<Rightarrow>
          point_values lb fused data fc start
            (case modbusAlarm lb (mp_AlarmMapping p) v of
               None \<Rightarrow> (gm_put (mp_Identifier p) v properties, event, kind)
             | Some alarm \<Rightarrow> (gm_put (mp_Identifier p) v properties,
                 gm_put ''value'' v (gm_put ''point'' (VStr (mp_Identifier p)) (gm_put ''alarmType'' (VStr alarm) event)), AlarmReport)) ps)"

text \<open>The checks of the frame: the function code and the data bytes.\<close>

definition tcp_data :: "bytes \<Rightarrow> string + int \<times> bytes" where
  "tcp_data frame =
     (if length frame < 9 then Inl ''Modbus TCP response requires at least 9 bytes''
      else if be_value (slice frame 2 4) \<noteq> 0 then Inl ''invalid Modbus TCP protocol id''
      else if be_value (slice frame 4 6) \<noteq> length frame - 6 then Inl ''Modbus TCP length''
      else let fc = unat (frame ! 7); byteCount = unat (frame ! 8) in
        if 128 \<le> fc then Inl ''Modbus exception code''
        else if fc < 1 \<or> fc > 4 then Inl ''unsupported Modbus function code''
        else if byteCount = 0 \<or> 9 + byteCount \<noteq> length frame then Inl ''Modbus byte bc does not match response''
        else Inr (int fc, drop 9 frame))"

definition tcp_message :: "RawMessage \<Rightarrow> gval gomap \<times> gval gomap \<times> MessageType \<Rightarrow> StandardMessage" where
  "tcp_message raw r = (case r of (properties, event, kind) \<Rightarrow>
     (hex_message raw kind properties)\<lparr>sm_Event := event,
       sm_Tags := [(''protocolId'', rm_ProtocolID raw), (''protocolVersion'', rm_ProtocolVersion raw), (''pointTableVersion'', rm_PointTableVersion raw)],
       sm_Raw := [(''payloadFormat'', VStr ''hex''), (''payload'', VStr (to_upper (unquoted raw))), (''metadata'', VMap (rm_Metadata raw))]\<rparr>)"

definition modbusTCPPoints :: "(gval option \<Rightarrow> string + ModbusPoint list) \<Rightarrow> gval option \<Rightarrow> string + ModbusPoint list" where
  "modbusTCPPoints points_of value = rbind (points_of value) (\<lambda>points. if points = [] then Inl ''modbus tcp parser requires points'' else Inr points)"

definition lift_error :: "string + 'a \<Rightarrow> modbus_error + 'a" where
  "lift_error r = map_sum ModbusError id r"

definition ParseModbusTCP :: "golib \<Rightarrow> bool \<Rightarrow> (gval option \<Rightarrow> string + ModbusPoint list) \<Rightarrow> RawMessage \<Rightarrow> gval gomap \<Rightarrow> modbus_error + StandardMessage" where
  "ParseModbusTCP lb fused points_of raw config =
     rbind (lift_error (modbusTCPPoints points_of (gm_get config ''points''))) (\<lambda>points.
     rbind (case decodeHexPayload (rm_Payload raw) of None \<Rightarrow> Inl (ModbusError ''invalid hex payload'') | Some frame \<Rightarrow> Inr frame) (\<lambda>frame.
     rbind (lift_error (tcp_data frame)) (\<lambda>(fc, data).
     let start = (case metadataInt (rm_Metadata raw) ''startAddress'' of Some n \<Rightarrow> n | None \<Rightarrow> configInt lb config ''startAddress'' (- 1)) in
     if start < 0 then Inl (ModbusError ''raw metadata.startAddress is required'')
     else rbind (point_values lb fused data fc start ([], [], PropertyReport) points) (\<lambda>r.
     if fst r = [] then Inl (ModbusError ''no points matched'') else Inr (tcp_message raw r)))))"

subsection \<open>Modbus RTU\<close>

definition quoted :: "string \<Rightarrow> string" where
  "quoted s = CHR 0x22 # s @ [CHR 0x22]"

definition ParseModbusRTU :: "golib \<Rightarrow> bool \<Rightarrow> (gval option \<Rightarrow> string + ModbusPoint list) \<Rightarrow> RawMessage \<Rightarrow> gval gomap \<Rightarrow> modbus_error + StandardMessage" where
  "ParseModbusRTU lb fused points_of raw config = (case decodeHexPayload (rm_Payload raw) of
     None \<Rightarrow> Inl (ModbusError ''invalid hex payload'')
   | Some frame \<Rightarrow>
       (case Validate frame of
          Inl _ \<Rightarrow> Inl (ModbusError ''invalid RTU frame'')
        | Inr _ \<Rightarrow>
            let pdu = take (length frame - 2) frame; header = [0, 0, 0, 0] @ put_be16 (of_nat (length frame - 2))
            in map_sum id (\<lambda>m. m\<lparr>sm_Raw := gm_put ''transport'' (VStr ''MODBUS_RTU'') (gm_put ''payload'' (VStr (rm_Payload raw)) (sm_Raw m))\<rparr>)
                 (ParseModbusTCP lb fused points_of (raw\<lparr>rm_Payload := quoted (hex_encode (header @ pdu))\<rparr>) config)))"

subsection \<open>Modbus coils\<close>

definition fieldName :: "golib \<Rightarrow> gval gomap \<Rightarrow> string" where
  "fieldName lb field = trim_space (sprint lb (case gm_get field ''name'' of None \<Rightarrow> VNil | Some v \<Rightarrow> v))"

definition is_letter :: "char \<Rightarrow> bool" where
  "is_letter c \<longleftrightarrow> (let n = (of_char c :: nat) in 65 \<le> n \<and> n \<le> 90 \<or> 97 \<le> n \<and> n \<le> 122)"

text \<open>\<^verbatim>\<open>(?i)^[A-Z]*\s*(\d+)$\<close>: the digits after letters and blanks; \<^verbatim>\<open>\s\<close> has no vertical tab.\<close>

definition coil_digits :: "string \<Rightarrow> string option" where
  "coil_digits str = (let ds = dropWhile (\<lambda>c. is_space c \<and> c \<noteq> CHR 0x0B) (dropWhile is_letter str)
     in if ds \<noteq> [] \<and> digits_value 0 ds \<noteq> None then Some ds else None)"

text \<open>The address a value gives, unless the next name is to be tried.\<close>

definition address_in :: "golib \<Rightarrow> gval \<Rightarrow> (int \<times> bool) option" where
  "address_in lb v = (case v of
     VNil \<Rightarrow> None
   | VFloat x \<Rightarrow> Some (int_of_f64 x, f64_le (FNum 0) x \<and> whole x)
   | VInt KInt n \<Rightarrow> Some (n, n \<ge> 0)
   | _ \<Rightarrow> map_option (\<lambda>ds. case Atoi ds of (n, ok) \<Rightarrow> (n, ok \<and> n \<ge> 0)) (coil_digits (trim_space (sprint lb v))))"

fun coil_address :: "golib \<Rightarrow> gval gomap \<Rightarrow> string list \<Rightarrow> int \<times> bool" where
  "coil_address lb field [] = (0, False)"
| "coil_address lb field (k # ks) = (case Option.bind (gm_get field k) (address_in lb) of None \<Rightarrow> coil_address lb field ks | Some a \<Rightarrow> a)"

definition parseCoilAddress :: "golib \<Rightarrow> gval gomap \<Rightarrow> int \<times> bool" where
  "parseCoilAddress lb field = coil_address lb field [''coilAddress'', ''address'', ''modbusAddress'']"

definition validModbusMessageType :: "MessageType \<Rightarrow> bool" where
  "validModbusMessageType t \<longleftrightarrow> (case t of OtherType _ \<Rightarrow> False | _ \<Rightarrow> True)"

fun as_objects :: "gval list \<Rightarrow> string + gval gomap list" where
  "as_objects [] = Inr []"
| "as_objects (VMap m # vs) = rbind (as_objects vs) (\<lambda>ms. Inr (m # ms))"
| "as_objects (_ # vs) = Inl ''fields must be objects''"

definition modbusCoilFields :: "gval option \<Rightarrow> string + gval gomap list" where
  "modbusCoilFields v = (case v of Some (VList vs) \<Rightarrow> as_objects vs | _ \<Rightarrow> Inl ''modbus coil parser requires a fields array'')"

fun check_coil_fields :: "golib \<Rightarrow> int \<Rightarrow> string list \<Rightarrow> gval gomap list \<Rightarrow> string + unit" where
  "check_coil_fields lb start seen [] = Inr ()"
| "check_coil_fields lb start seen (f # fs) =
     (let name = fieldName lb f; a = parseCoilAddress lb f in
      if name = [] then Inl ''name is required''
      else if name \<in> set seen then Inl ''duplicate Modbus coil field''
      else if \<not> snd a \<or> fst a < start then Inl ''coilAddress is invalid''
      else check_coil_fields lb start (name # seen) fs)"

definition coil_frame :: "golib \<Rightarrow> gval gomap \<Rightarrow> string" where
  "coil_frame lb config = to_lower (trim_space (firstConfig lb config ''frame''))"

text \<open>A configuration that is absent is \<open>None\<close>.\<close>

definition validateModbusCoilConfig :: "golib \<Rightarrow> gval gomap option \<Rightarrow> string + gval gomap list" where
  "validateModbusCoilConfig lb config = (case config of
     None \<Rightarrow> Inl ''modbus coil parser configuration is required''
   | Some config \<Rightarrow>
       let kind = to_upper (firstConfig lb config ''messageType''); frame = coil_frame lb config; start = configInt lb config ''startAddress'' 0 in
       if kind \<noteq> [] \<and> \<not> validModbusMessageType (MessageType_of kind) then Inl ''unsupported messageType''
       else if frame \<notin> {[], ''auto'', ''tcp'', ''rtu''} then Inl ''unsupported Modbus frame''
       else if start < 0 then Inl ''modbus coil parser startAddress must not be negative''
       else rbind (modbusCoilFields (gm_get config ''fields'')) (\<lambda>fields.
            rbind (check_coil_fields lb start [] fields) (\<lambda>_. Inr fields)))"

text \<open>Where the data begin and where the byte bc and the function code are.\<close>

definition modbusCoilFrame :: "bytes \<Rightarrow> string \<Rightarrow> string + nat \<times> nat \<times> nat" where
  "modbusCoilFrame data frame =
     (let frame = (if frame = ''auto'' then (if length data \<ge> 9 \<and> data ! 2 = 0 \<and> data ! 3 = 0 \<and> data ! 7 \<noteq> 0 then ''tcp'' else ''rtu'') else frame)
      in if frame = ''tcp'' then (if length data < 9 then Inl ''Modbus TCP coil response requires at least 9 bytes'' else Inr (9, 8, 7))
         else if frame = ''rtu'' then (if length data < 4 then Inl ''Modbus RTU coil response requires at least 4 bytes'' else Inr (3, 2, 1))
         else Inl ''unsupported Modbus frame'')"

fun coil_values :: "golib \<Rightarrow> bytes \<Rightarrow> nat \<Rightarrow> nat \<Rightarrow> int \<Rightarrow> gval gomap \<Rightarrow> gval gomap list \<Rightarrow> string + gval gomap" where
  "coil_values lb data offset bc start props [] = Inr props"
| "coil_values lb data offset bc start props (f # fs) =
     (let off = fst (parseCoilAddress lb f) - start in
      if off < 0 then Inl ''field address is before startAddress''
      else if off div 8 \<ge> int bc then Inl ''field address is outside the response''
      else coil_values lb data offset bc start
             (gm_put (fieldName lb f) (VBool (bit (data ! (offset + nat off div 8)) (nat off mod 8))) props) fs)"

definition ParseModbusCoil :: "golib \<Rightarrow> RawMessage \<Rightarrow> gval gomap \<Rightarrow> string + StandardMessage" where
  "ParseModbusCoil lb raw config =
     rbind (validateModbusCoilConfig lb (Some config)) (\<lambda>fields.
     rbind (case decodeHexPayload (rm_Payload raw) of None \<Rightarrow> Inl ''invalid hex payload'' | Some data \<Rightarrow> Inr data) (\<lambda>data.
     rbind (modbusCoilFrame data (or_default (coil_frame lb config) ''auto'')) (\<lambda>(offset, countAt, functionAt).
     let fc = configInt lb config ''functionCode'' 1; bc = unat (data ! countAt); kind = to_upper (firstConfig lb config ''messageType'') in
     if fc \<le> 0 \<or> fc > 255 then Inl ''modbus coil parser functionCode must be between 1 and 255''
     else if 128 \<le> unat (data ! functionAt) then Inl ''modbus exception response''
     else if int (unat (data ! functionAt)) \<noteq> fc then Inl ''unexpected Modbus function code''
     else if bc = 0 \<or> offset + bc > length data then Inl ''modbus coil byte bc exceeds payload''
     else rbind (coil_values lb data offset bc (configInt lb config ''startAddress'' 0) [] fields) (\<lambda>props.
     Inr ((hex_message raw (if kind = [] then PropertyReport else MessageType_of kind) props)\<lparr>
       sm_Raw := [(''payloadFormat'', VStr ''hex''), (''payload'', VStr (to_upper (unquoted raw))), (''mappingConfig'', VMap config)]\<rparr>)))))"

end
