(* ===== verification/Modbus_Poll.thy ===== *)
theory Modbus_Poll
  imports Modbus_Points
begin

text \<open>
  The active collection of Modbus devices: \<^verbatim>\<open>internal/protocolruntime/modbus.go\<close> and \<^verbatim>\<open>rtu_tcp.go\<close>, with the access
  profiles of the in-memory repository that the runtime reads and writes. The network is an oracle: every attempt says whether the dial, the
  deadline and the write succeed, which bytes arrive, and when the context ends. A connection is the bytes that have arrived on it and are still
  unread. Name resolution, the fingerprint of a profile and the JSON form of the blocks are arguments.
\<close>

subsection \<open>Frames on the wire\<close>

definition buildReadRequest :: "16 word \<Rightarrow> byte \<Rightarrow> ModbusReadBlock \<Rightarrow> string + bytes" where
  "buildReadRequest transaction unit block =
     (let fc = mb_FunctionCode block; start = mb_StartAddress block; quantity = mb_Quantity block in
      if fc < 1 \<or> fc > 4 then Inl ''read functionCode must be 01, 02, 03 or 04''
      else if start < 0 \<or> start > 65535 \<or> quantity \<le> 0 \<or> quantity > (if fc \<le> 2 then 2000 else 125) \<or> start + quantity > 65536
      then Inl ''Modbus read block is outside protocol limits''
      else Inr (put_be16 transaction @ [0, 0, 0, 6, unit, of_int fc] @ put_be16 (of_int start) @ put_be16 (of_int quantity)))"

datatype read_error = ReadIO | ReadMismatch string | ReadException byte

text \<open>\<^verbatim>\<open>io.ReadFull\<close>: the wanted bytes and what is left unread.\<close>

definition read_full :: "nat \<Rightarrow> bytes \<Rightarrow> (bytes \<times> bytes) option" where
  "read_full n stream = (if n \<le> length stream then Some (take n stream, drop n stream) else None)"

text \<open>The result of a read: the error, the response that is kept as evidence, and the unread bytes.\<close>

type_synonym read_result = "read_error option \<times> bytes \<times> bytes"

definition readResponse :: "bytes \<Rightarrow> 16 word \<Rightarrow> byte \<Rightarrow> byte \<Rightarrow> read_result" where
  "readResponse stream transaction unit function = (case read_full 7 stream of
     None \<Rightarrow> (Some ReadIO, [], [])
   | Some (header, rest) \<Rightarrow>
       let len = unat (be16 (slice header 4 6)) in
       if be16 (slice header 0 2) \<noteq> transaction then (Some (ReadMismatch ''Modbus transaction id mismatch''), [], rest)
       else if be16 (slice header 2 4) \<noteq> 0 then (Some (ReadMismatch ''Modbus protocol id is not zero''), [], rest)
       else if len < 3 \<or> len > 254 then (Some (ReadMismatch ''invalid Modbus response length''), [], rest)
       else if header ! 6 \<noteq> unit then (Some (ReadMismatch ''Modbus unit id mismatch''), [], rest)
       else (case read_full (len - 1) rest of
          None \<Rightarrow> (Some ReadIO, [], [])
        | Some (pdu, rest) \<Rightarrow>
            if 128 \<le> unat (pdu ! 0) then (Some (ReadException (pdu ! 1)), header @ pdu, rest)
            else if pdu ! 0 \<noteq> function then (Some (ReadMismatch ''Modbus function code mismatch''), [], rest)
            else (None, header @ pdu, rest)))"

definition readRTUResponse :: "bytes \<Rightarrow> byte \<Rightarrow> byte \<Rightarrow> read_result" where
  "readRTUResponse stream unit function = (case read_full 3 stream of
     None \<Rightarrow> (Some ReadIO, take 3 (stream @ [0, 0, 0]), [])
   | Some (head, rest) \<Rightarrow>
       let n = (if 128 \<le> unat (head ! 1) then 2 else unat (head ! 2) + 2) in
       if head ! 0 \<noteq> unit \<or> (head ! 1 \<noteq> function \<and> head ! 1 \<noteq> function OR 0x80)
       then (Some (ReadMismatch ''Modbus RTU address or function mismatch''), head, rest)
       else if n > 252 then (Some (ReadMismatch ''Modbus RTU response too large''), head, rest)
       else (case read_full n rest of
          None \<Rightarrow> (Some ReadIO, head @ rest, [])
        | Some (tail, rest) \<Rightarrow>
            let frame = head @ tail in
            (case Validate frame of
               Inl _ \<Rightarrow> (Some (ReadMismatch ''invalid RTU frame''), frame, rest)
             | Inr _ \<Rightarrow> if 128 \<le> unat (head ! 1) then (Some (ReadException (head ! 2)), frame, rest) else (None, frame, rest))))"

definition expected_bytes :: "ModbusReadBlock \<Rightarrow> int" where
  "expected_bytes block = (if mb_FunctionCode block \<le> 2 then (mb_Quantity block + 7) div 8 else mb_Quantity block * 2)"

definition validateReadByteCount :: "bytes \<Rightarrow> ModbusReadBlock \<Rightarrow> bool \<Rightarrow> string + unit" where
  "validateReadByteCount frame block rtu =
     (let offset = (if rtu then 2 else 8) in
      if length frame \<le> offset \<or> int (unat (frame ! offset)) \<noteq> expected_bytes block then Inl ''Modbus response byte count does not match query''
      else if int (length frame) \<noteq> int offset + 1 + expected_bytes block + (if rtu then 2 else 0) then Inl ''Modbus response length does not match query''
      else Inr ())"

subsection \<open>Attempts\<close>

record attempt =
  at_ended :: bool
  at_dial :: bool
  at_deadline :: bool
  at_write :: bool
  at_reply :: bytes
  at_stopped :: bool

definition no_network :: attempt where
  "no_network = \<lparr>at_ended = False, at_dial = False, at_deadline = False, at_write = False, at_reply = [], at_stopped = False\<rparr>"

definition next_attempt :: "attempt list \<Rightarrow> attempt \<times> attempt list" where
  "next_attempt xs = (case xs of [] \<Rightarrow> (no_network, []) | x # rest \<Rightarrow> (x, rest))"

datatype block_result = Answered bytes | Ended | Failed read_error bytes

record exchange =
  ex_rtu :: bool
  ex_transaction :: "16 word"
  ex_unit :: byte
  ex_function :: byte

definition receive :: "exchange \<Rightarrow> bytes \<Rightarrow> read_result" where
  "receive x stream = (if ex_rtu x then readRTUResponse stream (ex_unit x) (ex_function x)
     else readResponse stream (ex_transaction x) (ex_unit x) (ex_function x))"

text \<open>The attempts for one block; a failed attempt closes the connection.\<close>

fun attempts :: "exchange \<Rightarrow> nat \<Rightarrow> read_error \<times> bytes \<Rightarrow> bytes option \<Rightarrow> attempt list \<Rightarrow> block_result \<times> bytes option \<times> attempt list" where
  "attempts x 0 (e, response) conn oracle = (Failed e response, conn, oracle)"
| "attempts x (Suc n) (e, response) conn oracle =
     (let (a, oracle) = next_attempt oracle; conn = (if conn = None \<and> at_dial a then Some [] else conn) in
      if at_ended a then (Ended, conn, oracle)
      else case conn of
        None \<Rightarrow> attempts x n (ReadIO, response) None oracle
      | Some unread \<Rightarrow>
          if \<not> at_deadline a then attempts x n (ReadIO, response) None oracle
          else let (failure, response', unread') = (if at_write a then receive x (unread @ at_reply a) else (Some ReadIO, response, unread)) in
            if at_stopped a then (Ended, Some unread', oracle)
            else (case failure of
                None \<Rightarrow> (Answered response', Some unread', oracle)
              | Some e \<Rightarrow> attempts x n (e, response') None oracle))"

subsection \<open>Access profiles\<close>

text \<open>The connection of a device. The query lists and child products of listener profiles are not part of the collection.\<close>

record DeviceAccessProfile =
  ap_ConnectionMode :: string
  ap_WireFormat :: string
  ap_CredentialRef :: string
  ap_EndpointPath :: string
  ap_SerialPort :: string
  ap_BaudRate :: int
  ap_Parity :: string
  ap_StopBits :: int
  ap_EdgeNodeID :: string
  ap_Mode :: string
  ap_Network :: string
  ap_AutoRegister :: bool
  ap_ID :: string
  ap_TenantID :: string
  ap_DeviceID :: string
  ap_ProductID :: string
  ap_ProtocolID :: string
  ap_ProtocolVersion :: string
  ap_PointTableVersion :: string
  ap_CollectorID :: string
  ap_Host :: string
  ap_PublicHost :: string
  ap_Port :: int
  ap_UnitID :: int
  ap_TimeoutMs :: int
  ap_Retries :: int
  ap_Enabled :: bool
  ap_RuntimeStatus :: string
  ap_LastSuccessAt :: int
  ap_LastErrorAt :: int
  ap_LastError :: string
  ap_CreatedAt :: int
  ap_UpdatedAt :: int

text \<open>The configuration without the runtime observations; its JSON text is left out, since only equality is used.\<close>

definition Configuration :: "DeviceAccessProfile \<Rightarrow> DeviceAccessProfile" where
  "Configuration p = p\<lparr>ap_RuntimeStatus := [], ap_LastError := [], ap_LastSuccessAt := 0, ap_LastErrorAt := 0\<rparr>"

definition ListDeviceAccessProfiles :: "string \<Rightarrow> DeviceAccessProfile gomap \<Rightarrow> DeviceAccessProfile list" where
  "ListDeviceAccessProfiles tenant profiles =
     sort_key (\<lambda>p. (- ap_UpdatedAt p, ap_ID p)) (filter (\<lambda>p. tenant = [] \<or> ap_TenantID p = tenant) (gm_vals profiles))"

definition UpdateDeviceAccessStatus :: "DeviceAccessProfile \<Rightarrow> string \<Rightarrow> string \<Rightarrow> int \<Rightarrow> DeviceAccessProfile gomap \<Rightarrow> bool \<times> DeviceAccessProfile gomap" where
  "UpdateDeviceAccessStatus expected status message time profiles =
     (let k = key [ap_TenantID expected, ap_ID expected] in
      case gm_get profiles k of
        None \<Rightarrow> (False, profiles)
      | Some current \<Rightarrow>
          if Configuration current \<noteq> Configuration expected then (False, profiles)
          else let v = current\<lparr>ap_RuntimeStatus := status, ap_LastError := message\<rparr>;
                   v = (if status = ''ONLINE'' \<or> status = ''LISTENING'' \<and> time > 0 then v\<lparr>ap_LastSuccessAt := time\<rparr>
                        else if status = ''ERROR'' then v\<lparr>ap_LastErrorAt := time\<rparr> else v)
            in (True, gm_put k v profiles))"

subsection \<open>Reading the blocks of a device\<close>

record poll_env =
  pe_ended :: bool
  pe_slot :: bool
  pe_resolve :: "string \<Rightarrow> string + string"
  pe_bus :: bool
  pe_attempts :: "attempt list"
  pe_nanos :: "nat \<Rightarrow> int"
  pe_latency :: "nat \<Rightarrow> int"
  pe_fingerprint :: "DeviceAccessProfile \<Rightarrow> string"

datatype poll_error = PollRefused string | PollEnded | PollRead bytes bytes read_error | PollResponse bytes bytes string

definition poll_raw :: "poll_env \<Rightarrow> DeviceAccessProfile \<Rightarrow> ProtocolRelease \<Rightarrow> bool \<Rightarrow> nat \<Rightarrow> ModbusReadBlock \<Rightarrow> bytes \<Rightarrow> bytes \<Rightarrow> RawMessage" where
  "poll_raw env profile release rtu transaction block request response =
     (let address = ap_Host profile @ '':'' @ int_digits (ap_Port profile) in
      zero_RawMessage\<lparr>rm_MessageID := ''raw_modbus_'' @ int_digits (pe_nanos env transaction) @ ''_'' @ nat_digits (transaction mod 65536),
        rm_Source := ''modbus-tcp-collector'', rm_TenantID := ap_TenantID profile, rm_ProductID := ap_ProductID profile,
        rm_DeviceID := ap_DeviceID profile, rm_Protocol := ''modbus-tcp'', rm_Transport := (if rtu then ''MODBUS_RTU_TCP'' else ''MODBUS_TCP''),
        rm_ReceivedAt := pe_nanos env transaction div 1000000, rm_PayloadFormat := ''hex'', rm_Payload := quoted (to_upper (hex_encode response)),
        rm_RemoteAddress := address, rm_ProtocolID := pl_ProtocolID release, rm_ProtocolVersion := pl_Version release,
        rm_PointTableVersion := pl_PointTableVersion release, rm_CollectorID := ap_CollectorID profile,
        rm_Metadata := [(''profileId'', VStr (ap_ID profile)), (''profileFingerprint'', VStr (pe_fingerprint env profile)), (''blockId'', VStr (mb_ID block)),
          (''functionCode'', VInt KInt (mb_FunctionCode block)), (''startAddress'', VInt KInt (mb_StartAddress block)),
          (''quantity'', VInt KInt (mb_Quantity block)), (''transactionId'', VInt KUint16 (int (transaction mod 65536))),
          (''requestHex'', VStr (to_upper (hex_encode request))), (''latencyMs'', VInt KInt64 (pe_latency env transaction)),
          (''wireFormat'', VStr (ap_WireFormat profile))]\<rparr>)"

definition read_attempts :: "DeviceAccessProfile \<Rightarrow> nat" where
  "read_attempts profile = nat (max 1 (ap_Retries profile + 1))"

fun read_blocks :: "poll_env \<Rightarrow> DeviceAccessProfile \<Rightarrow> ProtocolRelease \<Rightarrow> bool \<Rightarrow> nat \<Rightarrow> bytes option \<Rightarrow> attempt list \<Rightarrow> ModbusReadBlock list \<Rightarrow>
    poll_error + RawMessage list" where
  "read_blocks env profile release rtu t conn oracle [] = Inr []"
| "read_blocks env profile release rtu t conn oracle (block # blocks) =
     (let t = t + 1; unit = of_int (ap_UnitID profile) in
      case buildReadRequest (of_nat t) unit block of
        Inl e \<Rightarrow> Inl (PollRefused e)
      | Inr request \<Rightarrow>
          let request = (if rtu then AppendCRC (drop 6 request) else request);
              x = \<lparr>ex_rtu = rtu, ex_transaction = of_nat t, ex_unit = unit, ex_function = of_int (mb_FunctionCode block)\<rparr>
          in case attempts x (read_attempts profile) (ReadIO, []) conn oracle of
            (Ended, _) \<Rightarrow> Inl PollEnded
          | (Failed e response, _) \<Rightarrow> Inl (PollRead request response e)
          | (Answered response, conn, oracle) \<Rightarrow>
              (case validateReadByteCount response block rtu of
                 Inl e \<Rightarrow> Inl (PollResponse request response e)
               | Inr _ \<Rightarrow> rbind (read_blocks env profile release rtu t conn oracle blocks) (\<lambda>raws.
                   Inr (poll_raw env profile release rtu t block request response # raws))))"

definition ReadModbusTCPWithPolicy :: "poll_env \<Rightarrow> DeviceAccessProfile \<Rightarrow> ProtocolRelease \<Rightarrow> ModbusReadBlock list \<Rightarrow> poll_error + RawMessage list" where
  "ReadModbusTCPWithPolicy env profile release blocks =
     (let rtu = (ap_WireFormat profile = ''rtu_over_tcp'') in
      if ap_EdgeNodeID profile \<noteq> [] \<or> (ap_Network profile \<noteq> [] \<and> ap_Network profile \<noteq> ''tcp'')
      then Inl (PollRefused ''remote Edge execution is not supported by the central runtime'')
      else if pe_ended env then Inl PollEnded
      else if \<not> pe_slot env then Inl (PollRefused ''Modbus read concurrency limit reached'')
      else if \<not> equal_fold (pl_Transport release) (if rtu then ''MODBUS_RTU'' else ''MODBUS_TCP'') then Inl (PollRefused ''transport is not MODBUS_TCP'')
      else if trim_space (ap_Host profile) = [] then Inl (PollRefused ''device host is required'')
      else if ap_Port profile \<le> 0 \<or> ap_Port profile > 65535 then Inl (PollRefused ''device port is invalid'')
      else if ap_UnitID profile < 0 \<or> ap_UnitID profile > 255 then Inl (PollRefused ''unitId must be between 0 and 255'')
      else case pe_resolve env (ap_Host profile) of
        Inl e \<Rightarrow> Inl (PollRefused e)
      | Inr _ \<Rightarrow> if \<not> pe_bus env then Inl PollEnded else read_blocks env profile release rtu 0 None (pe_attempts env) blocks)"

subsection \<open>The schedule\<close>

record Runtime =
  rn_last :: "int gomap"
  rn_running :: "unit gomap"
  rn_profiles :: "DeviceAccessProfile gomap"

definition pollingRelease :: "repo \<Rightarrow> DeviceAccessProfile \<Rightarrow> err + ProtocolRelease" where
  "pollingRelease r profile =
     rbind (case GetProductProtocolBinding (ap_TenantID profile) (ap_ProductID profile) r of
        Inr binding \<Rightarrow> Inr (pb_ProtocolID binding, pb_Version binding)
      | Inl e \<Rightarrow> if e = ErrNotFound then Inr (ap_ProtocolID profile, ap_ProtocolVersion profile) else Inl (ErrText ''load polling template binding'')) (\<lambda>(pid, version).
     rbind (GetProtocolRelease (ap_TenantID profile) pid version r) (\<lambda>release.
     if pl_Status release \<noteq> ''PUBLISHED'' then Inl (ErrText ''polling protocol release is not published'') else Inr release))"

definition releaseBlocks :: "(gval option \<Rightarrow> string + ModbusReadBlock list) \<Rightarrow> ProtocolRelease \<Rightarrow> err + ModbusReadBlock list" where
  "releaseBlocks blocks_of release =
     (if pl_Transport release \<noteq> ''MODBUS_TCP'' \<and> pl_Transport release \<noteq> ''MODBUS_RTU'' then Inl (ErrText ''only Modbus TCP is polled'')
      else case blocks_of (gm_get (pl_Config release) ''blocks'') of
        Inl e \<Rightarrow> Inl (ErrText ''decode collection blocks'')
      | Inr [] \<Rightarrow> Inl (ErrText ''protocol release has no collection blocks'')
      | Inr blocks \<Rightarrow> Inr blocks)"

definition profile_key :: "DeviceAccessProfile \<Rightarrow> string" where
  "profile_key p = ap_TenantID p @ nul # ap_ID p"

definition block_key :: "DeviceAccessProfile \<Rightarrow> ModbusReadBlock \<Rightarrow> string" where
  "block_key p b = profile_key p @ nul # mb_ID b"

definition block_interval :: "ModbusReadBlock \<Rightarrow> int" where
  "block_interval b = (if mb_PollIntervalSec b \<le> 0 then 10000 else mb_PollIntervalSec b * 1000)"

definition block_due :: "int \<Rightarrow> Runtime \<Rightarrow> DeviceAccessProfile \<Rightarrow> ModbusReadBlock \<Rightarrow> bool" where
  "block_due now st p b \<longleftrightarrow> (case gm_get (rn_last st) (block_key p b) of None \<Rightarrow> True | Some previous \<Rightarrow> now - previous \<ge> block_interval b)"

definition limitError :: "string \<Rightarrow> nat \<Rightarrow> string" where
  "limitError value n = take n value"

definition set_status :: "DeviceAccessProfile \<Rightarrow> string \<Rightarrow> string \<Rightarrow> int \<Rightarrow> Runtime \<Rightarrow> Runtime" where
  "set_status p status message time st = st\<lparr>rn_profiles := snd (UpdateDeviceAccessStatus p status message time (rn_profiles st))\<rparr>"

definition updateFailure :: "DeviceAccessProfile \<Rightarrow> string \<Rightarrow> int \<Rightarrow> Runtime \<Rightarrow> Runtime" where
  "updateFailure p message time = set_status p ''ERROR'' (limitError message 512) time"

text \<open>The due blocks of a profile start when it is not running and fewer than 32 profiles are.\<close>

definition start_due :: "int \<Rightarrow> DeviceAccessProfile \<Rightarrow> ModbusReadBlock list \<Rightarrow> Runtime \<Rightarrow> ModbusReadBlock list \<times> Runtime" where
  "start_due now p blocks st =
     (let due = filter (block_due now st p) blocks in
      if due \<noteq> [] \<and> gm_get (rn_running st) (profile_key p) = None \<and> length (rn_running st) < 32
      then (due, st\<lparr>rn_running := gm_put (profile_key p) () (rn_running st), rn_last := fold (\<lambda>b. gm_put (block_key p b) now) due (rn_last st)\<rparr>)
      else ([], st))"

text \<open>One profile of a scan: the collection that is started, if any. \<open>owned\<close> is the answer of the coordinator.\<close>

definition scan_profile :: "repo \<Rightarrow> (gval option \<Rightarrow> string + ModbusReadBlock list) \<Rightarrow> (DeviceAccessProfile \<Rightarrow> bool) \<Rightarrow> (err \<Rightarrow> string) \<Rightarrow> int \<Rightarrow>
    DeviceAccessProfile \<Rightarrow> Runtime \<Rightarrow> (DeviceAccessProfile \<times> ProtocolRelease \<times> ModbusReadBlock list) option \<times> Runtime" where
  "scan_profile r blocks_of owned err_text now p st =
     (if \<not> ap_Enabled p \<or> ap_Mode p = ''listener'' \<or> ap_EdgeNodeID p \<noteq> [] \<or> \<not> owned p then (None, st)
      else case rbind (pollingRelease r p) (\<lambda>release. rbind (releaseBlocks blocks_of release) (\<lambda>blocks. Inr (release, blocks))) of
        Inl e \<Rightarrow> (None, updateFailure p (err_text e) now st)
      | Inr (release, blocks) \<Rightarrow>
          (case start_due now p blocks st of (due, st') \<Rightarrow> (if due = [] then None else Some (p, release, due), st')))"

fun scan_profiles :: "repo \<Rightarrow> (gval option \<Rightarrow> string + ModbusReadBlock list) \<Rightarrow> (DeviceAccessProfile \<Rightarrow> bool) \<Rightarrow> (err \<Rightarrow> string) \<Rightarrow> int \<Rightarrow>
    DeviceAccessProfile list \<Rightarrow> Runtime \<Rightarrow> (DeviceAccessProfile \<times> ProtocolRelease \<times> ModbusReadBlock list) list \<times> Runtime" where
  "scan_profiles r blocks_of owned err_text now [] st = ([], st)"
| "scan_profiles r blocks_of owned err_text now (p # ps) st =
     (case scan_profile r blocks_of owned err_text now p st of (started, st) \<Rightarrow>
      case scan_profiles r blocks_of owned err_text now ps st of (rest, st) \<Rightarrow> ((case started of None \<Rightarrow> [] | Some s \<Rightarrow> [s]) @ rest, st))"

definition scan :: "repo \<Rightarrow> (gval option \<Rightarrow> string + ModbusReadBlock list) \<Rightarrow> (DeviceAccessProfile \<Rightarrow> bool) \<Rightarrow> (err \<Rightarrow> string) \<Rightarrow> int \<Rightarrow>
    Runtime \<Rightarrow> (DeviceAccessProfile \<times> ProtocolRelease \<times> ModbusReadBlock list) list \<times> Runtime" where
  "scan r blocks_of owned err_text now st = scan_profiles r blocks_of owned err_text now (ListDeviceAccessProfiles [] (rn_profiles st)) st"

text \<open>
  The end of a collection: its messages are handed to \<open>ingest\<close> in order until one fails, after \<open>valid\<close> has confirmed the
  ownership for each, and the profile stops running whatever happened.
\<close>

fun hand_over :: "(nat \<Rightarrow> string option) \<Rightarrow> (nat \<Rightarrow> string option) \<Rightarrow> nat \<Rightarrow> RawMessage list \<Rightarrow> RawMessage list \<times> string option" where
  "hand_over valid ingest i [] = ([], None)"
| "hand_over valid ingest i (raw # raws) = (case valid i of
     Some e \<Rightarrow> ([], Some e)
   | None \<Rightarrow> (case ingest i of
       Some e \<Rightarrow> ([raw], Some e)
     | None \<Rightarrow> (case hand_over valid ingest (i + 1) raws of (passed, e) \<Rightarrow> (raw # passed, e))))"

definition collect :: "(poll_error \<Rightarrow> string) \<Rightarrow> (nat \<Rightarrow> string option) \<Rightarrow> (nat \<Rightarrow> string option) \<Rightarrow> poll_env \<Rightarrow> int \<Rightarrow>
    DeviceAccessProfile \<times> ProtocolRelease \<times> ModbusReadBlock list \<Rightarrow> Runtime \<Rightarrow> RawMessage list \<times> Runtime" where
  "collect poll_text valid ingest env now job st = (case job of (p, release, blocks) \<Rightarrow>
     let finish = (\<lambda>st. st\<lparr>rn_running := gm_del (profile_key p) (rn_running st)\<rparr>) in
     (case ReadModbusTCPWithPolicy env p release blocks of
        Inl e \<Rightarrow> ([], finish (updateFailure p (poll_text e) now st))
      | Inr raws \<Rightarrow>
          (case hand_over valid ingest 0 raws of
             (passed, Some e) \<Rightarrow> (passed, finish (updateFailure p e now st))
           | (passed, None) \<Rightarrow> (passed, finish (set_status p ''ONLINE'' [] now st)))))"

end
