(* ===== verification/Modbus_Device.thy ===== *)
theory Modbus_Device
  imports Modbus_Poll
begin

text \<open>
  What the collection and the parser of Modbus points give for a device that answers as the protocol specifies. A device is the specification
  here: its coils and registers, and the answer to a read request over TCP and over RTU. The lemmas follow a block from the request over the
  answer to the properties of the parsed message.
\<close>

subsection \<open>A device and its answers\<close>

record device =
  dv_register :: "int \<Rightarrow> int \<Rightarrow> 16 word"
  dv_coil :: "int \<Rightarrow> int \<Rightarrow> bool"

definition register_data :: "device \<Rightarrow> int \<Rightarrow> int \<Rightarrow> nat \<Rightarrow> bytes" where
  "register_data dv fc start n = concat (map (\<lambda>i. put_be16 (dv_register dv fc (start + int i))) [0..<n])"

definition coil_byte :: "device \<Rightarrow> int \<Rightarrow> int \<Rightarrow> nat \<Rightarrow> nat \<Rightarrow> byte" where
  "coil_byte dv fc start n j = horner_sum of_bool 2 (map (\<lambda>k. 8 * j + k < n \<and> dv_coil dv fc (start + int (8 * j + k))) [0..<8])"

definition coil_data :: "device \<Rightarrow> int \<Rightarrow> int \<Rightarrow> nat \<Rightarrow> bytes" where
  "coil_data dv fc start n = map (coil_byte dv fc start n) [0..<(n + 7) div 8]"

definition answer_data :: "device \<Rightarrow> ModbusReadBlock \<Rightarrow> bytes" where
  "answer_data dv b = (if mb_FunctionCode b \<le> 2 then coil_data dv (mb_FunctionCode b) (mb_StartAddress b) (nat (mb_Quantity b))
     else register_data dv (mb_FunctionCode b) (mb_StartAddress b) (nat (mb_Quantity b)))"

definition answer_pdu :: "device \<Rightarrow> byte \<Rightarrow> ModbusReadBlock \<Rightarrow> bytes" where
  "answer_pdu dv unit b = [unit, of_int (mb_FunctionCode b), of_nat (length (answer_data dv b))] @ answer_data dv b"

definition tcp_answer :: "device \<Rightarrow> 16 word \<Rightarrow> byte \<Rightarrow> ModbusReadBlock \<Rightarrow> bytes" where
  "tcp_answer dv transaction unit b = put_be16 transaction @ [0, 0] @ put_be16 (of_nat (length (answer_pdu dv unit b))) @ answer_pdu dv unit b"

definition rtu_answer :: "device \<Rightarrow> byte \<Rightarrow> ModbusReadBlock \<Rightarrow> bytes" where
  "rtu_answer dv unit b = AppendCRC (answer_pdu dv unit b)"

definition answer :: "device \<Rightarrow> bool \<Rightarrow> 16 word \<Rightarrow> byte \<Rightarrow> ModbusReadBlock \<Rightarrow> bytes" where
  "answer dv rtu transaction unit b = (if rtu then rtu_answer dv unit b else tcp_answer dv transaction unit b)"

text \<open>A block within the limits of the protocol.\<close>

definition block_ok :: "ModbusReadBlock \<Rightarrow> bool" where
  "block_ok b \<longleftrightarrow> 1 \<le> mb_FunctionCode b \<and> mb_FunctionCode b \<le> 4 \<and> 0 \<le> mb_StartAddress b \<and> 0 < mb_Quantity b \<and>
     mb_Quantity b \<le> read_limit (mb_FunctionCode b) \<and> block_end b \<le> 65536"

lemma request_accepted: "(\<exists>r. buildReadRequest t u b = Inr r) \<longleftrightarrow> block_ok b"
  by (auto simp: buildReadRequest_def block_ok_def read_limit_def block_end_def Let_def)

lemma compiled_block_ok:
  assumes "CompileModbusReadBlocks srt points = Inr bs" "sorts srt" "\<forall>p \<in> set points. addressable p" "b \<in> set bs"
  shows "block_ok b"
proof -
  note l = compile_in_limits [OF assms]
  have t: "\<And>a. mb_StartAddress b \<le> a \<Longrightarrow> a < block_end b \<Longrightarrow> \<exists>p \<in> set points. mp_Address p \<le> a \<and> a < point_end p"
    using l by (auto simp: tiled_def)
  have "0 \<le> mb_StartAddress b"
    using t [of "mb_StartAddress b"] l assms(3) by (fastforce simp: block_end_def addressable_def)
  moreover have "block_end b \<le> 65536"
    using t [of "block_end b - 1"] l assms(3) by (fastforce simp: block_end_def addressable_def)
  ultimately show ?thesis using l by (simp add: block_ok_def)
qed

lemma length_register_data [simp]: "length (register_data dv fc s n) = 2 * n"
  by (induction n) (simp_all add: register_data_def)

lemma length_coil_data [simp]: "length (coil_data dv fc s n) = (n + 7) div 8"
  by (simp add: coil_data_def)

lemma answer_length:
  assumes "block_ok b"
  shows "int (length (answer_data dv b)) = expected_bytes b" "0 < length (answer_data dv b)" "length (answer_data dv b) \<le> 250"
proof -
  have q: "0 < mb_Quantity b" "mb_Quantity b \<le> (if mb_FunctionCode b \<le> 2 then 2000 else 125)"
    using assms by (simp_all add: block_ok_def read_limit_def)
  then obtain n where n: "mb_Quantity b = int n" "0 < n" by (metis of_nat_0_less_iff zero_less_imp_eq_int)
  show "int (length (answer_data dv b)) = expected_bytes b" using q n by (simp add: answer_data_def expected_bytes_def zdiv_int)
  have "0 < (n + 7) div 8" using n by simp
  then show "0 < length (answer_data dv b)" using n by (simp only: answer_data_def) (simp del: length_greater_0_conv)
  show "length (answer_data dv b) \<le> 250" using q n by (auto simp: answer_data_def split: if_splits)
qed

lemma unat_small: "n < 256 \<Longrightarrow> unat (of_nat n :: byte) = n"
  by (simp add: unat_of_nat)

lemma function_byte:
  assumes "1 \<le> fc" "fc \<le> 4"
  shows "unat (of_int fc :: byte) = nat fc"
proof -
  obtain n where "fc = int n" "n \<le> 4" using assms by (metis nat_0_le nat_le_iff of_nat_numeral order_trans zero_le_one int_nat_eq zle_int)
  then show ?thesis by (simp add: unat_of_nat)
qed

lemma function_small: "block_ok b \<Longrightarrow> unat (of_int (mb_FunctionCode b) :: byte) < 128"
  using function_byte [of "mb_FunctionCode b"] unfolding block_ok_def by linarith

subsection \<open>Reading an answer\<close>

lemma be16_pair: "be16 [ucast (drop_bit 8 w), ucast w] = w"
  using be16_put [of w] by (simp add: put_be16_def)

lemma readResponse_answer:
  assumes "block_ok b"
  shows "readResponse (tcp_answer dv t u b @ rest) t u (of_int (mb_FunctionCode b)) = (None, tcp_answer dv t u b, rest)"
proof -
  let ?d = "answer_data dv b" and ?f = "of_int (mb_FunctionCode b) :: byte"
  have len: "length ?d \<le> 250" "0 < length ?d" using answer_length [OF assms] by auto
  let ?l = "of_nat (length (answer_pdu dv u b)) :: 16 word"
  have "length (answer_pdu dv u b) = length ?d + 3" by (simp add: answer_pdu_def)
  then have l: "unat ?l = length ?d + 3" using len by (simp only: unat_of_nat) simp
  have f: "unat ?f < 128" by (rule function_small [OF assms])
  let ?h = "put_be16 t @ [0, 0] @ put_be16 ?l @ [u]" and ?p = "?f # of_nat (length ?d) # ?d"
  have h: "length ?h = 7" by simp
  have r7: "read_full 7 ((?h @ ?p) @ rest) = Some (?h, ?p @ rest)" using h by (simp add: read_full_def)
  have rp: "read_full (length ?d + 2) (?p @ rest) = Some (?p, rest)" by (simp add: read_full_def)
  have z: "be16 [0, 0] = 0" by (simp add: be16_def)
  have hs: "be16 (slice ?h 4 6) = ?l" "be16 (slice ?h 0 2) = t" "be16 (slice ?h 2 4) = 0" "?h ! 6 = u"
    using z by (simp_all add: slice_def put_be16_def be16_pair nth_append)
  have split: "tcp_answer dv t u b = ?h @ ?p" by (simp add: tcp_answer_def answer_pdu_def)
  show ?thesis unfolding split readResponse_def r7 option.case prod.case Let_def hs l
    using rp len f by simp
qed

lemma readRTU_answer:
  assumes "block_ok b"
  shows "readRTUResponse (rtu_answer dv u b @ rest) u (of_int (mb_FunctionCode b)) = (None, rtu_answer dv u b, rest)"
proof -
  let ?d = "answer_data dv b" and ?f = "of_int (mb_FunctionCode b) :: byte"
  have len: "length ?d \<le> 250" "0 < length ?d" using answer_length [OF assms] by auto
  have f: "unat ?f < 128" by (rule function_small [OF assms])
  let ?head = "[u, ?f, of_nat (length ?d)]"
  obtain c where c: "rtu_answer dv u b = ?head @ ?d @ c" "length c = 2"
    by (simp add: rtu_answer_def AppendCRC_def answer_pdu_def Let_def)
  have n: "unat (of_nat (length ?d) :: byte) = length ?d" using len by (intro unat_small) simp
  have v: "Validate (?head @ ?d @ c) = Inr ()"
    using len Validate_AppendCRC_iff [of "answer_pdu dv u b"] c(1) by (simp add: rtu_answer_def answer_pdu_def)
  have r3: "read_full 3 ((?head @ ?d @ c) @ rest) = Some (?head, ?d @ c @ rest)" by (simp add: read_full_def)
  have rt: "read_full (length ?d + 2) (?d @ c @ rest) = Some (?d @ c, rest)" using c(2) by (simp add: read_full_def)
  show ?thesis unfolding c(1) readRTUResponse_def r3 option.case prod.case Let_def using rt f n v len by simp
qed

lemma receive_answer:
  assumes "block_ok b"
  shows "receive \<lparr>ex_rtu = rtu, ex_transaction = t, ex_unit = u, ex_function = of_int (mb_FunctionCode b)\<rparr> (answer dv rtu t u b @ rest) =
    (None, answer dv rtu t u b, rest)"
  using readRTU_answer [OF assms] readResponse_answer [OF assms] by (simp add: receive_def answer_def)

lemma answer_validated:
  assumes "block_ok b"
  shows "validateReadByteCount (answer dv rtu t u b) b rtu = Inr ()"
proof -
  have len: "int (length (answer_data dv b)) = expected_bytes b" "length (answer_data dv b) \<le> 250" using answer_length [OF assms] by auto
  then have n: "int (unat (of_nat (length (answer_data dv b)) :: byte)) = expected_bytes b" using unat_small [of "length (answer_data dv b)"] by simp
  have at8: "tcp_answer dv t u b ! 8 = of_nat (length (answer_data dv b))" by (simp add: tcp_answer_def answer_pdu_def put_be16_def)
  have at2: "rtu_answer dv u b ! 2 = of_nat (length (answer_data dv b))" by (simp add: rtu_answer_def answer_pdu_def AppendCRC_def Let_def)
  have lt: "length (tcp_answer dv t u b) = 9 + length (answer_data dv b)" by (simp add: tcp_answer_def answer_pdu_def)
  have lr: "length (rtu_answer dv u b) = 5 + length (answer_data dv b)" by (simp add: rtu_answer_def answer_pdu_def)
  show ?thesis using len n at8 at2 lt lr by (cases rtu) (simp_all add: validateReadByteCount_def answer_def Let_def)
qed

subsection \<open>Collecting the blocks\<close>

text \<open>An attempt that fails before anything is read, and one that brings an answer.\<close>

definition faulty :: "attempt \<Rightarrow> bool" where
  "faulty a \<longleftrightarrow> \<not> at_ended a \<and> \<not> at_stopped a \<and> (\<not> at_deadline a \<or> \<not> at_write a)"

definition answering :: "bytes \<Rightarrow> attempt" where
  "answering reply = \<lparr>at_ended = False, at_dial = True, at_deadline = True, at_write = True, at_reply = reply, at_stopped = False\<rparr>"

lemma attempts_faulty:
  assumes "faulty a"
  shows "\<exists>e r. attempts x (Suc n) f conn (a # oracle) = attempts x n (e, r) None oracle"
  using assms by (cases f) (auto simp: faulty_def next_attempt_def split: option.splits)

lemma attempts_answer:
  assumes "receive x reply = (None, reply, [])" "length faults < n" "\<forall>a \<in> set faults. faulty a" "conn = None \<or> conn = Some []"
  shows "attempts x n f conn (faults @ answering reply # oracle) = (Answered reply, Some [], oracle)"
  using assms(2-4)
proof (induction faults arbitrary: n f conn)
  case Nil
  then obtain m where "n = Suc m" by (cases n) auto
  then show ?case using Nil assms(1) by (cases f) (auto simp: next_attempt_def answering_def)
next
  case (Cons a faults)
  then obtain m where m: "n = Suc m" "length faults < m" by (cases n) auto
  obtain e r where "attempts x (Suc m) f conn (a # faults @ answering reply # oracle) = attempts x m (e, r) None (faults @ answering reply # oracle)"
    using attempts_faulty Cons.prems by (metis list.set_intros(1))
  then show ?case using Cons.IH [of m None "(e, r)"] Cons.prems m by simp
qed

text \<open>
  The device behind a network: every block is answered after some faulty attempts, the transactions counted from \<open>t\<close>.
\<close>

fun network :: "device \<Rightarrow> bool \<Rightarrow> byte \<Rightarrow> nat \<Rightarrow> (attempt list \<times> ModbusReadBlock) list \<Rightarrow> attempt list" where
  "network dv rtu u t [] = []"
| "network dv rtu u t ((faults, b) # bs) = faults @ answering (answer dv rtu (of_nat (t + 1)) u b) # network dv rtu u (t + 1) bs"

definition request :: "bool \<Rightarrow> nat \<Rightarrow> byte \<Rightarrow> ModbusReadBlock \<Rightarrow> bytes" where
  "request rtu t u b = (let r = projr (buildReadRequest (of_nat t) u b) in if rtu then AppendCRC (drop 6 r) else r)"

fun collected :: "poll_env \<Rightarrow> DeviceAccessProfile \<Rightarrow> ProtocolRelease \<Rightarrow> device \<Rightarrow> bool \<Rightarrow> nat \<Rightarrow> ModbusReadBlock list \<Rightarrow> RawMessage list" where
  "collected env p release dv rtu t [] = []"
| "collected env p release dv rtu t (b # bs) =
     (let u = of_int (ap_UnitID p) in
      poll_raw env p release rtu (t + 1) b (request rtu (t + 1) u b) (answer dv rtu (of_nat (t + 1)) u b) # collected env p release dv rtu (t + 1) bs)"

lemma read_blocks_collected:
  assumes "\<forall>(faults, b) \<in> set bs. block_ok b \<and> length faults < read_attempts p \<and> (\<forall>a \<in> set faults. faulty a)" "conn = None \<or> conn = Some []"
  shows "read_blocks env p release rtu t conn (network dv rtu (of_int (ap_UnitID p)) t bs) (map snd bs) = Inr (collected env p release dv rtu t (map snd bs))"
  using assms
proof (induction bs arbitrary: t conn)
  case (Cons fb bs)
  obtain faults b where fb: "fb = (faults, b)" by fastforce
  let ?u = "of_int (ap_UnitID p) :: byte" and ?t = "of_nat (t + 1) :: 16 word"
  have ok: "block_ok b" "length faults < read_attempts p" "\<forall>a \<in> set faults. faulty a" using Cons.prems(1) fb by auto
  obtain r where r: "buildReadRequest ?t ?u b = Inr r" using request_accepted ok(1) by blast
  let ?x = "\<lparr>ex_rtu = rtu, ex_transaction = ?t, ex_unit = ?u, ex_function = of_int (mb_FunctionCode b)\<rparr>"
  have rec: "receive ?x (answer dv rtu ?t ?u b) = (None, answer dv rtu ?t ?u b, [])" using receive_answer [OF ok(1), where rest = "[]"] by simp
  have a: "attempts ?x (read_attempts p) (ReadIO, []) conn (network dv rtu ?u t (fb # bs)) =
      (Answered (answer dv rtu ?t ?u b), Some [], network dv rtu ?u (t + 1) bs)"
    unfolding fb network.simps by (rule attempts_answer [OF rec ok(2,3) Cons.prems(2)])
  have v: "validateReadByteCount (answer dv rtu ?t ?u b) b rtu = Inr ()" by (rule answer_validated [OF ok(1)])
  have ih: "read_blocks env p release rtu (t + 1) (Some []) (network dv rtu ?u (t + 1) bs) (map snd bs) = Inr (collected env p release dv rtu (t + 1) (map snd bs))"
    by (rule Cons.IH) (use Cons.prems(1) in auto)
  have b: "map snd (fb # bs) = b # map snd bs" by (simp add: fb)
  show ?case unfolding b read_blocks.simps Let_def r sum.case a prod.case block_result.case v ih rbind_simps collected.simps request_def
    by simp
qed simp

end
