(* ===== verification/Modbus_Readings.thy ===== *)
theory Modbus_Readings
  imports Modbus_Device
begin

text \<open>
  From the answer of a device to the properties of the parsed message: what the parser reports for the points of a block, for points outside it, and
  which points it can decode at all.
\<close>

subsection \<open>The payload\<close>

lemma upper_hex_char:
  assumes "c \<in> set (to_upper (hex_encode bs))"
  shows "\<exists>n < 16. c = ascii_upper (hex_digit n)"
  using assms hex_encode_chars by (force simp: to_upper_def)

lemma plain_hex_char:
  assumes "n < 16" "c = ascii_upper (hex_digit n) \<or> c = hex_digit n"
  shows "48 \<le> (of_char c :: nat)" "(of_char c :: nat) \<noteq> 92"
  using assms of_char_upper_hex_digit [of n] of_char_hex_digit [of n] by (auto split: if_splits)

lemma trim_by_plain: "\<forall>c \<in> set s. \<not> p c \<Longrightarrow> trim_by p s = s"
  by (cases "s = []") (simp_all add: trim_by_ends, simp add: trim_by_def trim_left_def trim_right_def)

lemma decodeHex_plain:
  assumes "\<forall>c \<in> set s. 48 \<le> (of_char c :: nat) \<and> (of_char c :: nat) \<noteq> 92"
  shows "decodeHexPayload (quoted s) = hex_decode s"
proof -
  have c: "c \<noteq> CHR 0x22 \<and> c \<noteq> CHR 0x5C \<and> 32 \<le> (of_char c :: nat)" "\<not> is_space c" "c \<notin> {CHR '' '', CHR 0x0D, CHR 0x0A, CHR 0x09}" if "c \<in> set s" for c
    using assms that by (auto simp: is_space_def Let_def)
  have "json_string (quoted s) = Some s" unfolding quoted_def by (rule json_string_plain) (use c in blast)
  moreover have "trim_space s = s" unfolding trim_space_def by (rule trim_by_plain) (use c in blast)
  moreover have "remove_chars [CHR '' '', CHR 0x0D, CHR 0x0A, CHR 0x09] s = s"
    unfolding remove_chars_def by (rule filter_True) (use c(3) in auto)
  ultimately show ?thesis by (simp add: decodeHexPayload_def)
qed

lemma decodeHex_upper [simp]: "decodeHexPayload (quoted (to_upper (hex_encode bs))) = Some bs"
proof -
  have "\<forall>c \<in> set (to_upper (hex_encode bs)). 48 \<le> (of_char c :: nat) \<and> (of_char c :: nat) \<noteq> 92"
    using upper_hex_char plain_hex_char by blast
  then show ?thesis by (simp add: decodeHex_plain)
qed

lemma decodeHex_lower [simp]: "decodeHexPayload (quoted (hex_encode bs)) = Some bs"
proof -
  have "\<forall>c \<in> set (hex_encode bs). 48 \<le> (of_char c :: nat) \<and> (of_char c :: nat) \<noteq> 92"
    using hex_encode_chars plain_hex_char by blast
  then show ?thesis by (simp add: decodeHex_plain)
qed

subsection \<open>The frame\<close>

lemma be_value_put16 [simp]: "be_value (put_be16 w) = unat w"
proof -
  have "unat (ucast (drop_bit 8 w) :: byte) = unat w div 256"
  proof -
    have "unat w < 65536" using unsigned_less [of w, where 'a = nat] by simp
    then show ?thesis by (simp add: unsigned_ucast_eq take_bit_eq_mod unsigned_drop_bit_eq drop_bit_eq_div unat_div)
  qed
  moreover have "unat (ucast w :: byte) = unat w mod 256" by (simp add: unsigned_ucast_eq take_bit_eq_mod)
  ultimately show ?thesis by (simp add: be_value_def put_be16_def)
qed

lemma tcp_data_answer:
  assumes "block_ok b"
  shows "tcp_data (tcp_answer dv t u b) = Inr (mb_FunctionCode b, answer_data dv b)"
proof -
  let ?d = "answer_data dv b" and ?f = "of_int (mb_FunctionCode b) :: byte"
  have len: "length ?d \<le> 250" "0 < length ?d" using answer_length [OF assms] by auto
  have n: "unat (of_nat (length ?d) :: byte) = length ?d" using len by (intro unat_small) simp
  have fc: "1 \<le> mb_FunctionCode b" "mb_FunctionCode b \<le> 4" using assms by (simp_all add: block_ok_def)
  have f: "unat ?f = nat (mb_FunctionCode b)" by (rule function_byte [OF fc])
  let ?l = "of_nat (length (answer_pdu dv u b)) :: 16 word"
  have "length (answer_pdu dv u b) = length ?d + 3" by (simp add: answer_pdu_def)
  then have l: "unat ?l = length ?d + 3" using len by (simp only: unat_of_nat) simp
  have e: "tcp_answer dv t u b = put_be16 t @ [0, 0] @ put_be16 ?l @ [u, ?f, of_nat (length ?d)] @ ?d"
    by (simp add: tcp_answer_def answer_pdu_def)
  have s: "slice (tcp_answer dv t u b) 2 4 = [0, 0]" "slice (tcp_answer dv t u b) 4 6 = put_be16 ?l" "tcp_answer dv t u b ! 7 = ?f"
    "tcp_answer dv t u b ! 8 = of_nat (length ?d)" "drop 9 (tcp_answer dv t u b) = ?d" "length (tcp_answer dv t u b) = 9 + length ?d"
    unfolding e by (simp_all add: slice_def put_be16_def)
  have z: "be_value [0, 0] = 0" by (simp add: be_value_def)
  show ?thesis unfolding tcp_data_def s be_value_put16 l z Let_def f n using len fc by simp
qed

subsection \<open>Values of points\<close>

definition inside :: "ModbusReadBlock \<Rightarrow> ModbusPoint \<Rightarrow> bool" where
  "inside b p \<longleftrightarrow> mp_FunctionCode p = mb_FunctionCode b \<and> mb_StartAddress b \<le> mp_Address p \<and> point_end p \<le> block_end b"

text \<open>What the device holds at a point.\<close>

definition reading :: "bool \<Rightarrow> device \<Rightarrow> ModbusPoint \<Rightarrow> modbus_error + gval" where
  "reading fused dv p = (if mp_FunctionCode p \<le> 2 then Inr (VBool (dv_coil dv (mp_FunctionCode p) (mp_Address p)))
     else decodeModbusRegisterValue fused (register_data dv (mp_FunctionCode p) (mp_Address p) (nat (pointWidth p))) p)"

lemma drop_pairs: "\<forall>x \<in> set xs. length x = 2 \<Longrightarrow> drop (2 * i) (concat xs) = concat (drop i xs)"
proof (induction xs arbitrary: i)
  case (Cons x xs)
  then show ?case by (cases i) simp_all
qed simp

lemma take_pairs: "\<forall>x \<in> set xs. length x = 2 \<Longrightarrow> take (2 * i) (concat xs) = concat (take i xs)"
proof (induction xs arbitrary: i)
  case (Cons x xs)
  then show ?case by (cases i) simp_all
qed simp

lemma register_slice:
  assumes "i + w \<le> n"
  shows "slice (register_data dv fc s n) (2 * i) (2 * i + 2 * w) = register_data dv fc (s + int i) w"
proof -
  let ?f = "\<lambda>i. put_be16 (dv_register dv fc (s + int i))"
  have "slice (register_data dv fc s n) (2 * i) (2 * i + 2 * w) = take (2 * w) (concat (drop i (map ?f [0..<n])))"
    unfolding slice_def register_data_def by (subst drop_pairs) auto
  also have "\<dots> = concat (take w (drop i (map ?f [0..<n])))"
    by (rule take_pairs) (auto simp: drop_map dest: in_set_dropD)
  also have "take w (drop i (map ?f [0..<n])) = map ?f [i..<i + w]" using assms by (simp add: drop_map take_map)
  also have "\<dots> = map (\<lambda>j. put_be16 (dv_register dv fc (s + int i + int j))) [0..<w]"
    by (rule nth_equalityI) (simp_all add: add.assoc)
  finally show ?thesis by (simp add: register_data_def)
qed

lemma coil_byte_bit: "k < 8 \<Longrightarrow> bit (coil_byte dv fc s n j) k \<longleftrightarrow> 8 * j + k < n \<and> dv_coil dv fc (s + int (8 * j + k))"
  by (simp add: coil_byte_def bit_horner_sum_bit_word_iff)

lemma coil_bit:
  assumes "i < 8 * ((n + 7) div 8)"
  shows "bit (coil_data dv fc s n ! (i div 8)) (i mod 8) \<longleftrightarrow> i < n \<and> dv_coil dv fc (s + int i)"
proof -
  have d: "i div 8 < (n + 7) div 8" using assms by (simp add: less_mult_imp_div_less mult.commute)
  have m: "i mod 8 < 8" by simp
  have i: "8 * (i div 8) + i mod 8 = i" by simp
  have "bit (coil_byte dv fc s n (i div 8)) (i mod 8) \<longleftrightarrow> 8 * (i div 8) + i mod 8 < n \<and> dv_coil dv fc (s + int (8 * (i div 8) + i mod 8))"
    by (rule coil_byte_bit [OF m])
  then show ?thesis using d unfolding i by (simp add: coil_data_def)
qed

lemma block_nat:
  assumes "block_ok b"
  obtains q where "mb_Quantity b = int q" "0 < q" "block_end b = mb_StartAddress b + int q"
  using assms unfolding block_ok_def block_end_def by (metis zero_less_imp_eq_int)

lemma address_offset:
  assumes "s \<le> a"
  obtains n where "a = s + int n"
  using assms by (metis zle_iff_zadd)

lemma point_inside:
  assumes ok: "block_ok b" and i: "inside b p"
  shows "point_value fused (answer_data dv b) (mb_FunctionCode b) (mb_StartAddress b) p = Some (reading fused dv p)"
proof -
  obtain q where q: "mb_Quantity b = int q" "0 < q" "block_end b = mb_StartAddress b + int q" using block_nat [OF ok] .
  obtain o' where o: "mp_Address p = mb_StartAddress b + int o'" using i address_offset by (auto simp: inside_def)
  have fc: "mp_FunctionCode p = mb_FunctionCode b" using i by (simp add: inside_def)
  show ?thesis
  proof (cases "mb_FunctionCode b \<le> 2")
    case True
    then have "pointWidth p = 1" using fc by (simp add: pointWidth_def)
    then have "o' < q" using i q o by (simp add: inside_def point_end_def)
    then have "o' < 8 * ((q + 7) div 8)" by linarith
    then show ?thesis using True fc o q coil_bit [of o' q dv "mb_FunctionCode b" "mb_StartAddress b"] \<open>o' < q\<close>
      by (simp add: point_value_def Let_def answer_data_def reading_def)
  next
    case False
    obtain w where w: "pointWidth p = int w" by (metis less_imp_le nonneg_int_cases pointWidth_pos(2))
    have le: "o' + w \<le> q" using i q o w by (simp add: inside_def point_end_def)
    have width: "(if mp_RegisterCount p \<le> 0 then 1 else mp_RegisterCount p) = int w" using False fc w by (simp add: pointWidth_def split: if_splits)
    have s: "slice (register_data dv (mb_FunctionCode b) (mb_StartAddress b) q) (2 * o') (2 * o' + 2 * w) =
        register_data dv (mb_FunctionCode b) (mp_Address p) w" using register_slice [OF le] o by simp
    have n: "nat (int o' * 2) = 2 * o'" "nat (int o' * 2 + int w * 2) = 2 * o' + 2 * w" by linarith+
    show ?thesis using False fc o q s le n w
      by (simp add: point_value_def Let_def answer_data_def reading_def width)
  qed
qed

text \<open>In an answer with registers the parser finds only the points that the block reads whole.\<close>

lemma point_register:
  assumes ok: "block_ok b" and fc: "2 < mb_FunctionCode b" and v: "point_value fused (answer_data dv b) (mb_FunctionCode b) (mb_StartAddress b) p = Some r"
  shows "inside b p"
proof -
  obtain q where q: "mb_Quantity b = int q" "0 < q" "block_end b = mb_StartAddress b + int q" using block_nat [OF ok] .
  have w: "(if mp_RegisterCount p \<le> 0 then 1 else mp_RegisterCount p) = pointWidth p" if "mp_FunctionCode p = mb_FunctionCode b"
    using fc that by (simp add: pointWidth_def)
  show ?thesis using v fc q w by (auto simp: point_value_def Let_def answer_data_def inside_def point_end_def split: if_splits)
qed

text \<open>In an answer with coils it also finds the points behind the block, up to the end of the last byte; the device fills these bits with zeros.\<close>

lemma point_padding:
  assumes ok: "block_ok b" and fc: "mb_FunctionCode b \<le> 2" "mp_FunctionCode p = mb_FunctionCode b"
    and a: "block_end b \<le> mp_Address p" "mp_Address p < mb_StartAddress b + 8 * ((mb_Quantity b + 7) div 8)"
  shows "point_value fused (answer_data dv b) (mb_FunctionCode b) (mb_StartAddress b) p = Some (Inr (VBool False))"
proof -
  obtain q where q: "mb_Quantity b = int q" "0 < q" "block_end b = mb_StartAddress b + int q" using block_nat [OF ok] .
  obtain o' where o: "mp_Address p = mb_StartAddress b + int o'" using address_offset [of "mb_StartAddress b" "mp_Address p"] a q by auto
  have qo: "q \<le> o'" using a o q by simp
  have "int o' < 8 * ((int q + 7) div 8)" using a o q by simp
  also have "\<dots> = int (8 * ((q + 7) div 8))" by (simp add: zdiv_int)
  finally have "o' < 8 * ((q + 7) div 8)" by linarith
  then show ?thesis using fc o q qo coil_bit [of o' q dv "mb_FunctionCode b" "mb_StartAddress b"]
    by (simp add: point_value_def Let_def answer_data_def)
qed

subsection \<open>The properties of a message\<close>

lemma point_values_ok:
  assumes "\<forall>p \<in> set ps. \<forall>e. point_value fused data fc start p \<noteq> Some (Inl e)" "distinct (map mp_Identifier ps)"
  shows "\<exists>r. point_values lb fused data fc start acc ps = Inr r \<and>
    (\<forall>i. gm_get (fst r) i = (case find (\<lambda>p. mp_Identifier p = i \<and> point_value fused data fc start p \<noteq> None) ps of
       None \<Rightarrow> gm_get (fst acc) i | Some p \<Rightarrow> Some (projr (the (point_value fused data fc start p)))))"
  using assms
proof (induction ps arbitrary: acc)
  case Nil
  then show ?case by simp
next
  case (Cons p ps)
  obtain props ev kind where acc: "acc = (props, ev, kind)" by (cases acc) auto
  have d: "distinct (map mp_Identifier ps)" "\<forall>q \<in> set ps. mp_Identifier q \<noteq> mp_Identifier p" using Cons.prems(2) by (auto simp: image_iff)
  show ?case
  proof (cases "point_value fused data fc start p")
    case None
    then show ?thesis using Cons.IH [of acc] Cons.prems d acc by simp
  next
    case (Some x)
    then obtain v where v: "point_value fused data fc start p = Some (Inr v)" using Cons.prems(1) by (cases x) auto
    define acc' where "acc' = (case modbusAlarm lb (mp_AlarmMapping p) v of
               None \<Rightarrow> (gm_put (mp_Identifier p) v props, ev, kind)
             | Some alarm \<Rightarrow> (gm_put (mp_Identifier p) v props,
                 gm_put ''value'' v (gm_put ''point'' (VStr (mp_Identifier p)) (gm_put ''alarmType'' (VStr alarm) ev)), AlarmReport))"
    have f: "fst acc' = gm_put (mp_Identifier p) v props" by (simp add: acc'_def split: option.splits)
    have e: "point_values lb fused data fc start acc (p # ps) = point_values lb fused data fc start acc' ps"
      by (simp add: acc v acc'_def)
    obtain r where r: "point_values lb fused data fc start acc' ps = Inr r"
      "\<forall>i. gm_get (fst r) i = (case find (\<lambda>p. mp_Identifier p = i \<and> point_value fused data fc start p \<noteq> None) ps of
         None \<Rightarrow> gm_get (fst acc') i | Some p \<Rightarrow> Some (projr (the (point_value fused data fc start p))))"
      using Cons.IH [of acc'] Cons.prems d by auto
    have none: "find (\<lambda>q. mp_Identifier q = mp_Identifier p \<and> point_value fused data fc start q \<noteq> None) ps = None"
      using d(2) unfolding find_None_iff by blast
    show ?thesis using r none v unfolding e f by (intro exI [of _ r]) (auto simp: acc split: option.splits)
  qed
qed

text \<open>Which points an answer cannot fail on: those whose registers hold their type, with bits taken from unsigned values only.\<close>

definition type_table :: "int gomap" where
  "type_table = [(''bool'', 1), (''uint16'', 1), (''int16'', 1), (''bits'', 1), (''uint32'', 2), (''int32'', 2), (''float32'', 2), (''uint64'', 4), (''int64'', 4), (''float64'', 4), (''string'', 1)]"

definition type_words :: "string \<Rightarrow> int option" where
  "type_words kind = map_of type_table kind"

definition sized :: "ModbusPoint \<Rightarrow> bool" where
  "sized p \<longleftrightarrow> (case type_words (to_lower (mp_DataType p)) of None \<Rightarrow> False | Some n \<Rightarrow> n \<le> pointWidth p) \<and>
     (mp_Bit p = None \<or> to_lower (mp_DataType p) \<in> {''uint16'', ''bits'', ''uint32'', ''uint64''})"

lemma length_swap_pairs [simp]: "length (swap_pairs bs) = length bs"
  by (induction bs rule: swap_pairs.induct) simp_all

lemma length_register_bytes [simp]: "length (register_bytes data p) = length data"
  by (simp add: register_bytes_def reorderModbusWords_def)

definition typed_well :: "string \<Rightarrow> bytes \<Rightarrow> bool" where
  "typed_well kind data \<longleftrightarrow> (\<exists>v. typed_value kind data = Inr v \<and> (kind \<in> {''uint16'', ''bits'', ''uint32'', ''uint64''} \<longrightarrow> (\<exists>k. v = VInt KUint64 k)))"

lemma typed_table: "list_all (\<lambda>(kind, n). \<forall>data. 2 * nat n \<le> length data \<longrightarrow> typed_well kind data) type_table"
  by (simp add: type_table_def typed_well_def typed_value_def take_number_def)

lemma typed_value_ok: "type_words kind = Some n \<Longrightarrow> 2 * nat n \<le> length data \<Longrightarrow> typed_well kind data"
  using typed_table map_of_SomeD unfolding type_words_def list_all_iff by fastforce

lemma sized_decodes:
  assumes "sized p" "length data = 2 * nat (pointWidth p)"
  shows "\<exists>v. decodeModbusRegisterValue fused data p = Inr v"
proof -
  let ?k = "to_lower (mp_DataType p)"
  obtain n where n: "type_words ?k = Some n" "n \<le> pointWidth p" using assms(1) by (auto simp: sized_def split: option.splits)
  have "2 * nat n \<le> length (register_bytes data p)" using n(2) assms(2) by (simp add: nat_mono)
  then obtain v where v: "typed_value ?k (register_bytes data p) = Inr v"
    "?k \<in> {''uint16'', ''bits'', ''uint32'', ''uint64''} \<longrightarrow> (\<exists>k. v = VInt KUint64 k)"
    using typed_value_ok [OF n(1)] unfolding typed_well_def by blast
  show ?thesis
  proof (cases "mp_Bit p")
    case None
    then show ?thesis using v by (auto simp: decodeModbusRegisterValue_def split: option.splits)
  next
    case (Some b)
    then have "?k \<in> {''uint16'', ''bits'', ''uint32'', ''uint64''}" using assms(1) by (simp add: sized_def)
    then obtain k where "v = VInt KUint64 k" using v by blast
    then show ?thesis using v Some by (simp add: decodeModbusRegisterValue_def numericUint64_def)
  qed
qed

lemma sized_reads:
  assumes "block_ok b" "mp_FunctionCode p = mb_FunctionCode b \<Longrightarrow> 2 < mb_FunctionCode b \<Longrightarrow> sized p"
  shows "point_value fused (answer_data dv b) (mb_FunctionCode b) (mb_StartAddress b) p \<noteq> Some (Inl e)"
proof
  assume v: "point_value fused (answer_data dv b) (mb_FunctionCode b) (mb_StartAddress b) p = Some (Inl e)"
  show False
  proof (cases "mb_FunctionCode b \<le> 2")
    case True
    then show ?thesis using v by (simp add: point_value_def Let_def split: if_splits)
  next
    case False
    then have i: "inside b p" using point_register [OF assms(1) _ v] by simp
    then have r: "reading fused dv p = Inl e" using point_inside [OF assms(1) i] v by simp
    have fc: "mp_FunctionCode p = mb_FunctionCode b" using i by (simp add: inside_def)
    have "sized p" using assms(2) [OF fc] False by simp
    then show ?thesis using r sized_decodes [of p "register_data dv (mp_FunctionCode p) (mp_Address p) (nat (pointWidth p))" fused] False fc
      by (auto simp: reading_def)
  qed
qed

subsection \<open>Messages\<close>

definition parse_collected :: "bool \<Rightarrow> golib \<Rightarrow> bool \<Rightarrow> (gval option \<Rightarrow> string + ModbusPoint list) \<Rightarrow> RawMessage \<Rightarrow> gval gomap \<Rightarrow> modbus_error + StandardMessage" where
  "parse_collected rtu = (if rtu then ParseModbusRTU else ParseModbusTCP)"

lemma parse_tcp_answer:
  assumes ok: "block_ok b" and pts: "points_of (gm_get config ''points'') = Inr points" "distinct (map mp_Identifier points)"
    and sz: "\<forall>p \<in> set points. mp_FunctionCode p = mb_FunctionCode b \<and> 2 < mb_FunctionCode b \<longrightarrow> sized p"
    and some: "p0 \<in> set points" "inside b p0"
    and raw: "decodeHexPayload (rm_Payload raw) = Some (tcp_answer dv t u b)" "metadataInt (rm_Metadata raw) ''startAddress'' = Some (mb_StartAddress b)"
  shows "\<exists>m. ParseModbusTCP lb fused points_of raw config = Inr m \<and> sm_DeviceID m = rm_DeviceID raw \<and>
    (\<forall>p \<in> set points. \<forall>v. point_value fused (answer_data dv b) (mb_FunctionCode b) (mb_StartAddress b) p = Some (Inr v) \<longrightarrow>
       gm_get (sm_Properties m) (mp_Identifier p) = Some v) \<and>
    (\<forall>i v. gm_get (sm_Properties m) i = Some v \<longrightarrow> (\<exists>p \<in> set points. mp_Identifier p = i \<and>
       point_value fused (answer_data dv b) (mb_FunctionCode b) (mb_StartAddress b) p = Some (Inr v)))"
proof -
  let ?pv = "point_value fused (answer_data dv b) (mb_FunctionCode b) (mb_StartAddress b)"
  have noerr: "\<forall>p \<in> set points. \<forall>e. ?pv p \<noteq> Some (Inl e)" using sized_reads [OF ok] sz by blast
  obtain r where r: "point_values lb fused (answer_data dv b) (mb_FunctionCode b) (mb_StartAddress b) ([], [], PropertyReport) points = Inr r"
    "\<forall>i. gm_get (fst r) i = (case find (\<lambda>p. mp_Identifier p = i \<and> ?pv p \<noteq> None) points of None \<Rightarrow> None | Some p \<Rightarrow> Some (projr (the (?pv p))))"
    using point_values_ok [OF noerr pts(2), of lb "([], [], PropertyReport)", unfolded fst_conv gm_get_Nil] by blast
  have got: "gm_get (fst r) (mp_Identifier p) = Some v" if p: "p \<in> set points" "?pv p = Some (Inr v)" for p v
  proof -
    obtain q where q: "find (\<lambda>q. mp_Identifier q = mp_Identifier p \<and> ?pv q \<noteq> None) points = Some q"
      using p by (cases "find (\<lambda>q. mp_Identifier q = mp_Identifier p \<and> ?pv q \<noteq> None) points") (auto simp: find_None_iff)
    then have "q \<in> set points" "mp_Identifier q = mp_Identifier p" by (auto simp: find_Some_iff)
    then have "q = p" using pts(2) p(1) by (auto simp: distinct_map inj_on_def)
    then show ?thesis using q r(2) p(2) by simp
  qed
  have only: "\<exists>p \<in> set points. mp_Identifier p = i \<and> ?pv p = Some (Inr v)" if v: "gm_get (fst r) i = Some v" for i v
  proof -
    obtain q where q: "find (\<lambda>q. mp_Identifier q = i \<and> ?pv q \<noteq> None) points = Some q" "v = projr (the (?pv q))"
      using v r(2) by (auto split: option.splits)
    then have m: "q \<in> set points" "mp_Identifier q = i" "?pv q \<noteq> None" by (auto simp: find_Some_iff)
    then obtain x where "?pv q = Some (Inr x)" using noerr by (metis option.exhaust sum.exhaust)
    then show ?thesis using m q(2) by auto
  qed
  obtain v0 where "?pv p0 = Some (Inr v0)" using point_inside [OF ok some(2)] noerr some(1) by (cases "reading fused dv p0") auto
  then have ne: "fst r \<noteq> []" using got [OF some(1)] by auto
  have pe: "points \<noteq> []" using some by auto
  have td: "tcp_data (tcp_answer dv t u b) = Inr (mb_FunctionCode b, answer_data dv b)" by (rule tcp_data_answer [OF ok])
  have st: "\<not> mb_StartAddress b < 0" using ok by (simp add: block_ok_def)
  have "ParseModbusTCP lb fused points_of raw config = Inr (tcp_message raw r)"
    using pts(1) pe raw td st r(1) ne by (simp add: ParseModbusTCP_def modbusTCPPoints_def lift_error_def Let_def)
  moreover have "sm_Properties (tcp_message raw r) = fst r" "sm_DeviceID (tcp_message raw r) = rm_DeviceID raw"
    by (cases r, simp add: tcp_message_def hex_message_def)+
  ultimately show ?thesis using got only by auto
qed

text \<open>What a message reports of a device: every point of the block with the value of the device, and for registers nothing else.\<close>

definition reports :: "bool \<Rightarrow> device \<Rightarrow> ModbusReadBlock \<Rightarrow> ModbusPoint list \<Rightarrow> StandardMessage \<Rightarrow> bool" where
  "reports fused dv b points m \<longleftrightarrow>
     (\<forall>p \<in> set points. inside b p \<longrightarrow> gm_get (sm_Properties m) (mp_Identifier p) = Some (projr (reading fused dv p))) \<and>
     (2 < mb_FunctionCode b \<longrightarrow> (\<forall>i v. gm_get (sm_Properties m) i = Some v \<longrightarrow> (\<exists>p \<in> set points. mp_Identifier p = i \<and> inside b p \<and> reading fused dv p = Inr v)))"

lemma parse_tcp_reports:
  assumes "block_ok b" "points_of (gm_get config ''points'') = Inr points" "distinct (map mp_Identifier points)"
    and "\<forall>p \<in> set points. mp_FunctionCode p = mb_FunctionCode b \<and> 2 < mb_FunctionCode b \<longrightarrow> sized p"
    and "p0 \<in> set points" "inside b p0"
    and "decodeHexPayload (rm_Payload raw) = Some (tcp_answer dv t u b)" "metadataInt (rm_Metadata raw) ''startAddress'' = Some (mb_StartAddress b)"
  shows "\<exists>m. ParseModbusTCP lb fused points_of raw config = Inr m \<and> sm_DeviceID m = rm_DeviceID raw \<and> reports fused dv b points m"
proof -
  obtain m where m: "ParseModbusTCP lb fused points_of raw config = Inr m" "sm_DeviceID m = rm_DeviceID raw"
    "\<forall>p \<in> set points. \<forall>v. point_value fused (answer_data dv b) (mb_FunctionCode b) (mb_StartAddress b) p = Some (Inr v) \<longrightarrow>
       gm_get (sm_Properties m) (mp_Identifier p) = Some v"
    "\<forall>i v. gm_get (sm_Properties m) i = Some v \<longrightarrow> (\<exists>p \<in> set points. mp_Identifier p = i \<and>
       point_value fused (answer_data dv b) (mb_FunctionCode b) (mb_StartAddress b) p = Some (Inr v))"
    using parse_tcp_answer [where points_of = points_of and config = config, OF assms] by blast
  have "\<exists>p \<in> set points. mp_Identifier p = i \<and> inside b p \<and> reading fused dv p = Inr v"
    if fc: "2 < mb_FunctionCode b" and v: "gm_get (sm_Properties m) i = Some v" for i v
  proof -
    obtain p where p: "p \<in> set points" "mp_Identifier p = i"
      "point_value fused (answer_data dv b) (mb_FunctionCode b) (mb_StartAddress b) p = Some (Inr v)" using m(4) v by blast
    have "inside b p" by (rule point_register [OF assms(1) fc p(3)])
    then show ?thesis using p point_inside [OF assms(1)] by auto
  qed
  moreover have "gm_get (sm_Properties m) (mp_Identifier p) = Some (projr (reading fused dv p))" if p: "p \<in> set points" "inside b p" for p
  proof -
    have pv: "point_value fused (answer_data dv b) (mb_FunctionCode b) (mb_StartAddress b) p = Some (reading fused dv p)" by (rule point_inside [OF assms(1) p(2)])
    then have "\<forall>e. reading fused dv p \<noteq> Inl e" using sized_reads [OF assms(1), of p] assms(4) p(1) by auto
    then obtain v where "reading fused dv p = Inr v" by (cases "reading fused dv p") auto
    then show ?thesis using m(3) p(1) pv by simp
  qed
  ultimately show ?thesis using m by (auto simp: reports_def)
qed

lemma poll_raw_fields:
  "decodeHexPayload (rm_Payload (poll_raw env p release rtu t b req resp)) = Some resp"
  "metadataInt (rm_Metadata (poll_raw env p release rtu t b req resp)) ''startAddress'' = Some (mb_StartAddress b)"
  "rm_DeviceID (poll_raw env p release rtu t b req resp) = ap_DeviceID p"
  by (simp_all add: poll_raw_def Let_def metadataInt_def gm_get_def)

lemma rtu_as_tcp:
  assumes "block_ok b"
  shows "Validate (rtu_answer dv u b) = Inr ()"
    "[0, 0, 0, 0] @ put_be16 (of_nat (length (rtu_answer dv u b) - 2)) @ take (length (rtu_answer dv u b) - 2) (rtu_answer dv u b) = tcp_answer dv 0 u b"
proof -
  have len: "length (answer_data dv b) \<le> 250" "0 < length (answer_data dv b)" using answer_length [OF assms] by auto
  show "Validate (rtu_answer dv u b) = Inr ()" using len Validate_AppendCRC_iff [of "answer_pdu dv u b"] by (simp add: rtu_answer_def answer_pdu_def)
  have "put_be16 0 = [0, 0]" by (simp add: put_be16_def)
  then show "[0, 0, 0, 0] @ put_be16 (of_nat (length (rtu_answer dv u b) - 2)) @ take (length (rtu_answer dv u b) - 2) (rtu_answer dv u b) = tcp_answer dv 0 u b"
    by (simp add: rtu_answer_def tcp_answer_def AppendCRC_def Let_def)
qed

lemma parse_collected_reports:
  assumes "block_ok b" "points_of (gm_get config ''points'') = Inr points" "distinct (map mp_Identifier points)"
    and "\<forall>p \<in> set points. mp_FunctionCode p = mb_FunctionCode b \<and> 2 < mb_FunctionCode b \<longrightarrow> sized p"
    and "p0 \<in> set points" "inside b p0"
  shows "\<exists>m. parse_collected rtu lb fused points_of (poll_raw env p release rtu t b req (answer dv rtu tr u b)) config = Inr m \<and>
    sm_DeviceID m = ap_DeviceID p \<and> reports fused dv b points m"
proof (cases rtu)
  case False
  then show ?thesis using parse_tcp_reports [where points_of = points_of and config = config, OF assms, of "poll_raw env p release rtu t b req (answer dv rtu tr u b)"] poll_raw_fields
    by (simp add: parse_collected_def answer_def)
next
  case True
  let ?raw = "poll_raw env p release True t b req (rtu_answer dv u b)"
  let ?copy = "?raw\<lparr>rm_Payload := quoted (hex_encode (tcp_answer dv 0 u b))\<rparr>"
  have d: "decodeHexPayload (rm_Payload ?copy) = Some (tcp_answer dv 0 u b)" "metadataInt (rm_Metadata ?copy) ''startAddress'' = Some (mb_StartAddress b)"
    "rm_DeviceID ?copy = ap_DeviceID p" using poll_raw_fields by simp_all
  obtain m where m: "ParseModbusTCP lb fused points_of ?copy config = Inr m" "sm_DeviceID m = ap_DeviceID p" "reports fused dv b points m"
    using parse_tcp_reports [where points_of = points_of and config = config, OF assms d(1,2)] d(3) by auto
  have "ParseModbusRTU lb fused points_of ?raw config =
      map_sum id (\<lambda>m. m\<lparr>sm_Raw := gm_put ''transport'' (VStr ''MODBUS_RTU'') (gm_put ''payload'' (VStr (rm_Payload ?raw)) (sm_Raw m))\<rparr>)
        (ParseModbusTCP lb fused points_of ?copy config)"
    unfolding ParseModbusRTU_def poll_raw_fields(1) option.case rtu_as_tcp(1) [OF assms(1)] sum.case Let_def append_assoc rtu_as_tcp(2) [OF assms(1)] ..
  then show ?thesis using m True by (simp add: parse_collected_def answer_def reports_def)
qed

text \<open>Every compiled block reads some point whole, so no answer is empty of points.\<close>

lemma merge_has_point:
  assumes "b \<in> set (merge_points fc i s e ps)" "set ps \<subseteq> P" "\<exists>p \<in> P. mp_Address p = s \<and> point_end p \<le> e"
  shows "\<exists>p \<in> P. mp_Address p = mb_StartAddress b \<and> point_end p \<le> block_end b"
  using assms
proof (induction ps arbitrary: s e)
  case (Cons p ps)
  let ?stop = "mp_Address p + pointWidth p"
  show ?case
  proof (cases "mp_Address p > e \<or> ?stop - s > read_limit fc")
    case True
    then consider "b = read_block fc i s e" | "b \<in> set (merge_points fc i (mp_Address p) ?stop ps)" using Cons.prems(1) by (auto simp: Let_def)
    then show ?thesis
    proof cases
      case 2
      have "\<exists>q \<in> P. mp_Address q = mp_Address p \<and> point_end q \<le> ?stop" using Cons.prems(2) by (auto simp: point_end_def)
      then show ?thesis using Cons.IH [OF 2] Cons.prems(2) by simp
    qed (use Cons.prems(3) in auto)
  next
    case False
    have "\<exists>q \<in> P. mp_Address q = s \<and> point_end q \<le> (if ?stop > e then ?stop else e)" using Cons.prems(3) by (auto split: if_splits)
    then show ?thesis using Cons.IH [of s "if ?stop > e then ?stop else e"] Cons.prems False by (simp add: Let_def)
  qed
qed auto

lemma compiled_has_point:
  assumes c: "CompileModbusReadBlocks srt points = Inr bs" and s: "sorts srt" and a: "\<forall>p \<in> set points. addressable p" and b: "b \<in> set bs"
  shows "\<exists>p \<in> set points. inside b p"
proof -
  have fc: "\<And>q. q \<in> set points \<Longrightarrow> 1 \<le> mp_FunctionCode q" using a by (auto simp: addressable_def)
  obtain k where k: "b \<in> set (group_blocks (point_group srt points k))" using b Compile_blocks [OF c] by auto
  then obtain q qs where g: "point_group srt points k = q # qs" by (cases "point_group srt points k") (auto simp: group_blocks_def)
  let ?P = "{p \<in> set points. group_key p = k}"
  have gs: "set (q # qs) = ?P" using group_set [OF s, of points k] g by simp
  have q: "q \<in> ?P" "set qs \<subseteq> ?P" using gs by auto
  have m: "b \<in> set (merge_points (mp_FunctionCode q) (poll_interval q) (mp_Address q) (point_end q) qs)" using k g by (simp add: group_blocks_def point_end_def)
  obtain p where p: "p \<in> ?P" "mp_Address p = mb_StartAddress b" "point_end p \<le> block_end b" using merge_has_point [OF m q(2)] q(1) by blast
  have "mp_FunctionCode p = mp_FunctionCode q" using group_key_inject [of p q] p(1) q(1) fc by auto
  moreover have "mb_FunctionCode b = mp_FunctionCode q" by (rule merge_function [OF m])
  ultimately show ?thesis using p by (auto simp: inside_def)
qed

lemma nth_collected:
  "i < length bs \<Longrightarrow> collected env p release dv rtu t bs ! i =
     poll_raw env p release rtu (t + i + 1) (bs ! i) (request rtu (t + i + 1) (of_int (ap_UnitID p)) (bs ! i)) (answer dv rtu (of_nat (t + i + 1)) (of_int (ap_UnitID p)) (bs ! i))"
proof (induction bs arbitrary: i t)
  case (Cons b bs)
  then show ?case by (cases i) (simp_all add: Let_def)
qed simp

lemma length_collected [simp]: "length (collected env p release dv rtu t bs) = length bs"
  by (induction bs arbitrary: t) (simp_all add: Let_def)

text \<open>The profile and the environment pass the checks before the first block.\<close>

definition pollable :: "poll_env \<Rightarrow> DeviceAccessProfile \<Rightarrow> ProtocolRelease \<Rightarrow> bool" where
  "pollable env p release \<longleftrightarrow> ap_EdgeNodeID p = [] \<and> (ap_Network p = [] \<or> ap_Network p = ''tcp'') \<and> \<not> pe_ended env \<and> pe_slot env \<and> pe_bus env \<and>
     equal_fold (pl_Transport release) (if ap_WireFormat p = ''rtu_over_tcp'' then ''MODBUS_RTU'' else ''MODBUS_TCP'') \<and>
     trim_space (ap_Host p) \<noteq> [] \<and> 0 < ap_Port p \<and> ap_Port p \<le> 65535 \<and> 0 \<le> ap_UnitID p \<and> ap_UnitID p \<le> 255 \<and> \<not> isl (pe_resolve env (ap_Host p))"

lemma read_pollable:
  assumes "pollable env p release"
  shows "ReadModbusTCPWithPolicy env p release blocks = read_blocks env p release (ap_WireFormat p = ''rtu_over_tcp'') 0 None (pe_attempts env) blocks"
  using assms unfolding pollable_def ReadModbusTCPWithPolicy_def Let_def by (auto split: sum.splits)

subsection \<open>The schedule\<close>

type_synonym poll_job = "DeviceAccessProfile \<times> ProtocolRelease \<times> ModbusReadBlock list"

text \<open>A runtime and the collections in flight: a scan starts some, and any one of them ends.\<close>

inductive poll_step :: "Runtime \<times> poll_job list \<Rightarrow> Runtime \<times> poll_job list \<Rightarrow> bool" where
  scan_step: "scan r blocks_of owned err_text now st = (started, st') \<Longrightarrow> poll_step (st, jobs) (st', jobs @ started)"
| collect_step: "collect poll_text valid ingest env now job st = (passed, st') \<Longrightarrow> poll_step (st, before @ job # after) (st', before @ after)"

inductive_cases poll_stepE: "poll_step s s'"

definition polls_ok :: "Runtime \<times> poll_job list \<Rightarrow> bool" where
  "polls_ok s \<longleftrightarrow> gm_ok (rn_running (fst s)) \<and> length (rn_running (fst s)) \<le> 32 \<and>
     mset (map fst (rn_running (fst s))) = mset (map (profile_key \<circ> fst) (snd s))"

lemma set_status_running [simp]: "rn_running (set_status p status message time st) = rn_running st"
  by (simp add: set_status_def)

lemma gm_put_new: "gm_get m k = None \<Longrightarrow> gm_put k v m = m @ [(k, v)]"
  unfolding gm_get_def gm_put_def by (induction m) (auto split: if_splits)

lemma start_due_cases:
  assumes "start_due now p blocks st = (due, st')"
  shows "due = [] \<and> st' = st \<or>
    due \<noteq> [] \<and> gm_get (rn_running st) (profile_key p) = None \<and> length (rn_running st) < 32 \<and> rn_running st' = rn_running st @ [(profile_key p, ())]"
  using assms by (auto simp: start_due_def Let_def gm_put_new split: if_splits)

lemma scan_profile_ok:
  assumes "polls_ok (st, jobs)" "scan_profile r blocks_of owned err_text now p st = (x, st')"
  shows "polls_ok (st', jobs @ (case x of None \<Rightarrow> [] | Some s \<Rightarrow> [s]))"
proof -
  have ok: "gm_ok (rn_running st)" "length (rn_running st) \<le> 32" "mset (map fst (rn_running st)) = mset (map (profile_key \<circ> fst) jobs)"
    using assms(1) by (simp_all add: polls_ok_def)
  let ?r = "rbind (pollingRelease r p) (\<lambda>release. rbind (releaseBlocks blocks_of release) (\<lambda>blocks. Inr (release, blocks)))"
  consider "x = None" "rn_running st' = rn_running st"
    | release due where "x = Some (p, release, due)" "gm_get (rn_running st) (profile_key p) = None" "length (rn_running st) < 32"
        "rn_running st' = rn_running st @ [(profile_key p, ())]"
  proof (cases "\<not> ap_Enabled p \<or> ap_Mode p = ''listener'' \<or> ap_EdgeNodeID p \<noteq> [] \<or> \<not> owned p")
    case True
    then show ?thesis using that(1) assms(2) unfolding scan_profile_def by auto
  next
    case guard: False
    show ?thesis
    proof (cases ?r)
      case (Inl e)
      then show ?thesis using that(1) assms(2) guard unfolding scan_profile_def by (auto simp: updateFailure_def)
    next
      case (Inr rb)
      obtain release blocks where rb: "rb = (release, blocks)" by fastforce
      obtain due st1 where due: "start_due now p blocks st = (due, st1)" by fastforce
      have "x = (if due = [] then None else Some (p, release, due))" "st' = st1"
        using assms(2) guard Inr rb due unfolding scan_profile_def by auto
      then show ?thesis using start_due_cases [OF due] that by (cases "due = []") auto
    qed
  qed
  then show ?thesis
  proof cases
    case 1
    then show ?thesis using ok by (simp add: polls_ok_def)
  next
    case 2
    then have "gm_ok (rn_running st')" using ok(1) gm_ok_put [OF ok(1), of "profile_key p" "()"] gm_put_new [OF 2(2), of "()"] by simp
    then show ?thesis using 2 ok by (simp add: polls_ok_def)
  qed
qed

lemma scan_profiles_ok:
  assumes "polls_ok (st, jobs)" "scan_profiles r blocks_of owned err_text now ps st = (started, st')"
  shows "polls_ok (st', jobs @ started)"
  using assms
proof (induction ps arbitrary: st jobs started)
  case (Cons p ps)
  obtain x st1 where x: "scan_profile r blocks_of owned err_text now p st = (x, st1)" by fastforce
  obtain rest st2 where y: "scan_profiles r blocks_of owned err_text now ps st1 = (rest, st2)" by fastforce
  have s: "started = (case x of None \<Rightarrow> [] | Some s \<Rightarrow> [s]) @ rest" "st' = st2" using Cons.prems(2) x y by simp_all
  show ?case using Cons.IH [OF scan_profile_ok [OF Cons.prems(1) x]] y s by (simp only: append_assoc)
qed simp

lemma collect_running: "rn_running (snd (collect poll_text valid ingest env now (p, release, blocks) st)) = gm_del (profile_key p) (rn_running st)"
  by (auto simp: collect_def updateFailure_def Let_def split: sum.splits prod.splits option.splits)

lemma gm_del_keys:
  assumes "gm_ok m"
  shows "mset (map fst (gm_del k m)) = mset (map fst m) - {#k#}" "length (gm_del k m) \<le> length m"
proof -
  have "map fst (gm_del k m) = removeAll k (map fst m)" unfolding gm_del_def by (simp add: delete_keys)
  then show "mset (map fst (gm_del k m)) = mset (map fst m) - {#k#}"
    using assms unfolding gm_ok_def by (metis distinct_remove1_removeAll mset_remove1)
  show "length (gm_del k m) \<le> length m" unfolding gm_del_def by (induction m) auto
qed

lemma poll_step_ok: "poll_step s s' \<Longrightarrow> polls_ok s \<Longrightarrow> polls_ok s'"
proof (induction rule: poll_step.induct)
  case (scan_step r blocks_of owned err_text now st started st' jobs)
  then show ?case using scan_profiles_ok by (simp add: scan_def)
next
  case (collect_step poll_text valid ingest env now job st passed st' before after)
  obtain p release blocks where job: "job = (p, release, blocks)" by (cases job) auto
  have run: "rn_running st' = gm_del (profile_key p) (rn_running st)"
    using collect_running [of poll_text valid ingest env now p release blocks st] collect_step(1) job by simp
  have ok: "gm_ok (rn_running st)" "length (rn_running st) \<le> 32"
    "mset (map fst (rn_running st)) = mset (map (profile_key \<circ> fst) (before @ job # after))" using collect_step(2) by (simp_all add: polls_ok_def)
  show ?case using gm_del_keys [OF ok(1), of "profile_key p"] ok run job by (simp add: polls_ok_def)
qed

lemma polls_reach: "poll_step\<^sup>*\<^sup>* s s' \<Longrightarrow> polls_ok s \<Longrightarrow> polls_ok s'"
  by (induction rule: rtranclp_induct) (auto intro: poll_step_ok)

lemma polls_distinct:
  assumes "polls_ok (st, jobs)"
  shows "distinct (map (profile_key \<circ> fst) jobs) \<and> length jobs \<le> 32"
proof -
  have m: "mset (map (profile_key \<circ> fst) jobs) = mset (map fst (rn_running st))" using assms by (simp add: polls_ok_def)
  then have "distinct (map (profile_key \<circ> fst) jobs)" using assms mset_eq_imp_distinct_iff by (metis fst_conv gm_ok_def polls_ok_def)
  moreover have "length jobs = length (rn_running st)" using arg_cong [OF m, of size] by simp
  ultimately show ?thesis using assms by (simp add: polls_ok_def)
qed

end
