(* ===== verification/Modbus_Samples.thy ===== *)
theory Modbus_Samples
  imports Modbus_Readings Samples
begin

text \<open>A meter with two values in holding registers, a pump with two coils, a table with a register count that is too small, and a network with one fault.\<close>

definition sample_point :: "string \<Rightarrow> int \<Rightarrow> int \<Rightarrow> string \<Rightarrow> int \<Rightarrow> ModbusPoint" where
  "sample_point i fc address kind n = \<lparr>mp_Identifier = i, mp_Name = i, mp_FunctionCode = fc, mp_Address = address, mp_AddressNotation = ''zero_based'',
     mp_DataType = kind, mp_RegisterCount = n, mp_ByteOrder = ''big'', mp_WordOrder = ''ABCD'', mp_Bit = None, mp_Scale = FNum 1, mp_Offset = FNum 0,
     mp_Unit = [], mp_Access = ''read'', mp_PollIntervalSec = 10, mp_Deadband = FNum 0, mp_AlarmMapping = [], mp_Description = []\<rparr>"

definition meter_points :: "ModbusPoint list" where
  "meter_points = [sample_point ''flow'' 3 11 ''uint32'' 2, sample_point ''temp'' 3 10 ''uint16'' 1]"

definition meter_block :: ModbusReadBlock where
  "meter_block = read_block 3 10 10 13"

definition meter :: device where
  "meter = \<lparr>dv_register = (\<lambda>_ a. if a = 10 then 215 else if a = 11 then 0 else 70), dv_coil = (\<lambda>_ _. False)\<rparr>"

definition pump_points :: "ModbusPoint list" where
  "pump_points = [sample_point ''run'' 1 0 ''bool'' 1, sample_point ''fault'' 1 5 ''bool'' 1]"

definition pump_block :: ModbusReadBlock where
  "pump_block = read_block 1 10 0 1"

definition pump :: device where
  "pump = \<lparr>dv_register = (\<lambda>_ _. 0), dv_coil = (\<lambda>_ _. True)\<rparr>"

definition meter_profile :: DeviceAccessProfile where
  "meter_profile = \<lparr>ap_ConnectionMode = [], ap_WireFormat = [], ap_CredentialRef = [], ap_EndpointPath = [], ap_SerialPort = [], ap_BaudRate = 0, ap_Parity = [],
     ap_StopBits = 0, ap_EdgeNodeID = [], ap_Mode = [], ap_Network = ''tcp'', ap_AutoRegister = False, ap_ID = ''p1'', ap_TenantID = ''t'',
     ap_DeviceID = ''d'', ap_ProductID = ''p'', ap_ProtocolID = ''m'', ap_ProtocolVersion = ''1'', ap_PointTableVersion = ''1'', ap_CollectorID = [],
     ap_Host = ''10.0.0.7'', ap_PublicHost = [], ap_Port = 502, ap_UnitID = 1, ap_TimeoutMs = 0, ap_Retries = 1, ap_Enabled = True, ap_RuntimeStatus = [],
     ap_LastSuccessAt = 0, ap_LastErrorAt = 0, ap_LastError = [], ap_CreatedAt = 0, ap_UpdatedAt = 0\<rparr>"

definition meter_release :: ProtocolRelease where
  "meter_release = \<lparr>pl_TenantID = ''t'', pl_ProtocolID = ''m'', pl_Version = ''1'', pl_Transport = ''MODBUS_TCP'', pl_PayloadFormat = ''hex'',
     pl_ParserType = [], pl_Status = ''PUBLISHED'', pl_PointTableVersion = ''1'', pl_Capabilities = [], pl_Config = [], pl_Artifact = [], pl_CreatedAt = 0, pl_PublishedAt = 0\<rparr>"

definition broken_write :: attempt where
  "broken_write = \<lparr>at_ended = False, at_dial = True, at_deadline = True, at_write = False, at_reply = [], at_stopped = False\<rparr>"

definition meter_env :: poll_env where
  "meter_env = \<lparr>pe_ended = False, pe_slot = True, pe_resolve = (\<lambda>h. Inr h), pe_bus = True,
     pe_attempts = network meter False 1 0 [([broken_write], meter_block)], pe_nanos = (\<lambda>_. 1000000000), pe_latency = (\<lambda>_. 5), pe_fingerprint = (\<lambda>_. [])\<rparr>"

text \<open>The rows of a table with a 32-bit value in one register.\<close>

definition short_table :: "string list list" where
  "short_table = [[''name'', ''address'', ''functionCode'', ''dataType'', ''registerCount''], [''total'', ''7'', ''3'', ''uint32'', ''1'']]"

lemma sort_key_sorts: "sorts (sort_key mp_Address)"
  by (simp add: sorts_def)

lemma meter_compiled: "CompileModbusReadBlocks (sort_key mp_Address) meter_points = Inr [meter_block]"
  by code_simp

lemma meter_points_ok: "\<forall>p \<in> set meter_points. addressable p" "\<forall>p \<in> set meter_points. 2 < mp_FunctionCode p \<longrightarrow> sized p" "distinct (map mp_Identifier meter_points)"
proof -
  have "type_words (to_lower ''uint32'') = Some 2" "type_words (to_lower ''uint16'') = Some 1" by code_simp+
  then show "\<forall>p \<in> set meter_points. 2 < mp_FunctionCode p \<longrightarrow> sized p" by (simp add: meter_points_def sample_point_def sized_def pointWidth_def)
  show "\<forall>p \<in> set meter_points. addressable p"
    by (simp add: meter_points_def sample_point_def addressable_def point_end_def pointWidth_def read_limit_def)
  show "distinct (map mp_Identifier meter_points)" by (simp add: meter_points_def sample_point_def)
qed

lemma meter_pollable: "pollable meter_env meter_profile meter_release"
proof -
  have "trim_space ''10.0.0.7'' \<noteq> []" "equal_fold ''MODBUS_TCP'' ''MODBUS_TCP''" by code_simp+
  then show ?thesis by (simp add: pollable_def meter_env_def meter_profile_def meter_release_def)
qed

lemma pump_compiled: "CompileModbusReadBlocks (sort_key mp_Address) pump_points = Inr [pump_block, read_block 1 10 5 6]"
  by code_simp

lemma pump_block_ok: "block_ok pump_block"
  by code_simp

definition short_point :: ModbusPoint where
  "short_point = (sample_point ''total'' 3 7 ''uint32'' 1)"

lemma short_table_accepted: "normalizeModbusRows sample_lib short_table 10 = (Inr [short_point], [])"
  by code_simp

end
