(* ===== verification/Config_Parsers.thy ===== *)
theory Config_Parsers
  imports Modbus_Points GB26875
begin

text \<open>
  The parsers of JSON and hex payloads: \<^verbatim>\<open>internal/parser/configurable.go\<close>, whose mappings and fields are data of a protocol package, the plain
  parsers of \<^verbatim>\<open>parser.go\<close> and the platform's own format (\<^verbatim>\<open>standard.go\<close>). The JSON decoders and the RFC 3339 parser of the standard library are
  arguments; error texts are kept without their arguments.
\<close>

subsection \<open>Values\<close>

text \<open>What the parsers take of the standard library beside \<open>golib\<close>: \<^verbatim>\<open>json.Unmarshal\<close> into an \<^verbatim>\<open>any\<close>, \<^verbatim>\<open>time.Parse(time.RFC3339, _)\<close> in milliseconds,
and the value that \<^verbatim>\<open>strconv.ParseFloat\<close> returns, also next to an error.\<close>

record textlib =
  tx_json :: "string \<Rightarrow> gval option"
  tx_rfc3339 :: "string \<Rightarrow> int option"
  tx_float :: "string \<Rightarrow> f64"

definition number :: "golib \<Rightarrow> gval \<Rightarrow> f64 option" where
  "number lb v = (case v of
     VFloat x \<Rightarrow> Some x
   | VInt k n \<Rightarrow> if k = KInt \<or> k = KInt64 \<or> k = KUint64 then Some (f64_of_int n) else None
   | VStr s \<Rightarrow> lb_atof lb s
   | _ \<Rightarrow> None)"

definition value_at :: "gval gomap \<Rightarrow> string \<Rightarrow> gval" where
  "value_at m k = (case gm_get m k of None \<Rightarrow> VNil | Some v \<Rightarrow> v)"

definition intFrom :: "golib \<Rightarrow> gval \<Rightarrow> int" where
  "intFrom lb v = (case v of VFloat x \<Rightarrow> int_of_f64 x | _ \<Rightarrow> fst (Atoi (sprint lb v)))"

definition floatFrom :: "golib \<Rightarrow> textlib \<Rightarrow> gval \<Rightarrow> f64" where
  "floatFrom lb tx v = (case v of VFloat x \<Rightarrow> x | _ \<Rightarrow> tx_float tx (sprint lb v))"

definition configMap :: "gval gomap \<Rightarrow> string list \<Rightarrow> gval gomap option" where
  "configMap config keys = (case List.map_filter (\<lambda>k. case gm_get config k of Some (VMap m) \<Rightarrow> Some m | _ \<Rightarrow> None) keys of [] \<Rightarrow> None | m # _ \<Rightarrow> Some m)"

definition parse_bool :: "string \<Rightarrow> bool option" where
  "parse_bool s = (if s \<in> {''1'', ''t'', ''T'', ''TRUE'', ''true'', ''True''} then Some True
     else if s \<in> {''0'', ''f'', ''F'', ''FALSE'', ''false'', ''False''} then Some False else None)"

subsection \<open>Paths\<close>

definition path_stop :: "char \<Rightarrow> bool" where
  "path_stop c \<longleftrightarrow> c = CHR ''.'' \<or> c = CHR ''[''"

definition item :: "gval \<Rightarrow> int \<Rightarrow> gval option" where
  "item v n = (case v of VList vs \<Rightarrow> if 0 \<le> n \<and> n < int (length vs) then Some (vs ! nat n) else None | _ \<Rightarrow> None)"

definition field :: "gval \<Rightarrow> string \<Rightarrow> gval option" where
  "field v k = (case v of VMap m \<Rightarrow> gm_get m k | _ \<Rightarrow> None)"

function look :: "gval \<Rightarrow> string \<Rightarrow> gval option" where
  "look v path =
     (if path = [] then Some v
      else let part = takeWhile (\<lambda>c. \<not> path_stop c) path; rest = dropWhile (\<lambda>c. \<not> path_stop c) path in
        case (if part = [] then Some v else field v part) of
          None \<Rightarrow> None
        | Some v \<Rightarrow>
            if rest = [] then Some v
            else if hd rest = CHR ''.'' then look v (tl rest)
            else let inner = takeWhile (\<lambda>c. c \<noteq> CHR '']'') (tl rest); after = dropWhile (\<lambda>c. c \<noteq> CHR '']'') (tl rest) in
              if after = [] \<or> \<not> snd (Atoi inner) then None
              else case item v (fst (Atoi inner)) of None \<Rightarrow> None | Some w \<Rightarrow> look w (trim_prefix (tl after) ''.''))"
  by pat_completeness auto

lemma length_trim_prefix_le: "length (trim_prefix s p) \<le> length s"
  by (simp add: trim_prefix_def)

termination look
proof (relation "measure (\<lambda>(v, path). length path)", goal_cases)
  case (2 v path part rest x2)
  then have "length rest \<le> length path" "rest \<noteq> []" by (auto simp: length_dropWhile_le)
  then show ?case by (cases rest) auto
next
  case (3 v path part rest x2 inner after w)
  have "length rest \<le> length path" "rest \<noteq> []" using 3 by (auto simp: length_dropWhile_le)
  moreover have "length after \<le> length (tl rest)" unfolding 3(8) by (rule length_dropWhile_le)
  moreover have "length (trim_prefix (tl after) ''.'') \<le> length (tl after)" by (rule length_trim_prefix_le)
  ultimately show ?case by (cases rest) auto
qed simp

declare look.simps [simp del]

definition lookupPath :: "gval \<Rightarrow> string \<Rightarrow> gval option" where
  "lookupPath base path =
     (let path = trim_space path in
      if path = [] \<or> path = ''$'' then Some base
      else look base (trim_prefix (if has_prefix path ''$.'' then tl path else path) ''.''))"

subsection \<open>Mappings\<close>

definition convertValue :: "golib \<Rightarrow> gval \<Rightarrow> string \<Rightarrow> string + gval" where
  "convertValue lb v kind =
     (if kind = [] \<or> kind = ''json'' then Inr v
      else if kind = ''number'' then (case number lb v of Some x \<Rightarrow> Inr (VFloat x) | None \<Rightarrow> Inl ''cannot convert'')
      else if kind = ''integer'' then (case number lb v of Some x \<Rightarrow> Inr (VInt KInt64 (int_of_f64 x)) | None \<Rightarrow> Inl ''cannot convert'')
      else if kind = ''boolean'' then
        (case v of
           VBool b \<Rightarrow> Inr (VBool b)
         | _ \<Rightarrow> (case parse_bool (sprint lb v) of Some b \<Rightarrow> Inr (VBool b) | None \<Rightarrow> Inl ''cannot convert''))
      else if kind = ''string'' then Inr (VStr (sprint lb v))
      else Inl ''unsupported mapping type'')"

text \<open>Path, type, scale and default of a mapping.\<close>

definition mapping_parts :: "golib \<Rightarrow> textlib \<Rightarrow> gval \<Rightarrow> (string \<times> string \<times> f64 \<times> gval option) option" where
  "mapping_parts lb tx spec = (case spec of
     VStr path \<Rightarrow> Some (path, [], FNum 1, None)
   | VMap m \<Rightarrow> Some (sprint lb (value_at m ''path''), to_lower (sprint lb (value_at m ''type'')),
       (case gm_get m ''scale'' of None \<Rightarrow> FNum 1 | Some v \<Rightarrow> floatFrom lb tx v), gm_get m ''default'')
   | _ \<Rightarrow> None)"

text \<open>A value, if the path or a default gives one.\<close>

definition resolveMapping :: "golib \<Rightarrow> textlib \<Rightarrow> gval \<Rightarrow> gval \<Rightarrow> string + gval option" where
  "resolveMapping lb tx base spec = (case mapping_parts lb tx spec of
     None \<Rightarrow> Inl ''mapping must be a JSON path or object''
   | Some (path, kind, scale, fallback) \<Rightarrow>
       (case lookupPath base path of
          None \<Rightarrow> Inr fallback
        | Some v \<Rightarrow> rbind (convertValue lb v kind) (\<lambda>c.
            Inr (Some (if f64_eq scale (FNum 1) then c else case number lb c of Some x \<Rightarrow> VFloat (f64_mul x scale) | None \<Rightarrow> c)))))"

fun resolve_all :: "golib \<Rightarrow> textlib \<Rightarrow> gval \<Rightarrow> gval gomap \<Rightarrow> gval gomap \<Rightarrow> string + gval gomap" where
  "resolve_all lb tx base out [] = Inr out"
| "resolve_all lb tx base out ((name, spec) # ms) =
     rbind (resolveMapping lb tx base spec) (\<lambda>v. resolve_all lb tx base (case v of None \<Rightarrow> out | Some v \<Rightarrow> gm_put name v out) ms)"

definition plain_property :: "string \<Rightarrow> bool" where
  "plain_property k \<longleftrightarrow> k \<notin> {''messageType'', ''event'', ''tags'', ''timestamp'', ''alarm''}"

definition other_properties :: "gval gomap \<Rightarrow> gval gomap" where
  "other_properties base = filter (\<lambda>(k, v). plain_property k) base"

definition text_tags :: "golib \<Rightarrow> gval gomap \<Rightarrow> string gomap" where
  "text_tags lb m = map (\<lambda>(k, v). (k, sprint lb v)) m"

definition configuredTimestamp :: "golib \<Rightarrow> textlib \<Rightarrow> gval \<Rightarrow> string \<Rightarrow> int \<Rightarrow> int" where
  "configuredTimestamp lb tx v unit fallback = (case number lb v of
     Some x \<Rightarrow> int_of_f64 (if equal_fold unit ''s'' \<or> equal_fold unit ''second'' \<or> equal_fold unit ''seconds'' then f64_mul x (FNum 1000) else x)
   | None \<Rightarrow> (case v of VStr t \<Rightarrow> (case tx_rfc3339 tx t of Some ms \<Rightarrow> ms | None \<Rightarrow> fallback) | _ \<Rightarrow> fallback))"

definition config_type :: "golib \<Rightarrow> gval \<Rightarrow> gval gomap \<Rightarrow> gval gomap \<Rightarrow> gval gomap \<Rightarrow> MessageType" where
  "config_type lb body base event config =
     (let fixed = firstConfig lb config ''messageType''; path = firstConfig lb config ''messageTypePath'' in
      if fixed \<noteq> [] then MessageType_of (to_upper fixed)
      else if path \<noteq> [] then (case lookupPath body path of Some v \<Rightarrow> MessageType_of (to_upper (sprint lb v)) | None \<Rightarrow> PropertyReport)
      else case gm_get base ''messageType'' of
        Some (VStr t) \<Rightarrow> MessageType_of (to_upper t)
      | _ \<Rightarrow> if event \<noteq> [] then EventReport else if gm_get base ''alarm'' = Some (VBool True) then AlarmReport else PropertyReport)"

definition config_time :: "golib \<Rightarrow> textlib \<Rightarrow> gval \<Rightarrow> gval gomap \<Rightarrow> gval gomap \<Rightarrow> int \<Rightarrow> int" where
  "config_time lb tx body base config received =
     (let path = firstConfig lb config ''timestampPath''; unit = firstConfig lb config ''timestampUnit'' in
      if path \<noteq> [] then (case lookupPath body path of Some v \<Rightarrow> configuredTimestamp lb tx v unit received | None \<Rightarrow> received)
      else case gm_get base ''timestamp'' of Some v \<Rightarrow> configuredTimestamp lb tx v unit received | None \<Rightarrow> received)"

text \<open>The mappings under one of two names, or else what the object itself holds.\<close>

definition mapped :: "golib \<Rightarrow> textlib \<Rightarrow> gval \<Rightarrow> gval gomap \<Rightarrow> string list \<Rightarrow> gval gomap \<Rightarrow> string + gval gomap" where
  "mapped lb tx body config keys otherwise = (case configMap config keys of
     Some ms \<Rightarrow> if ms = [] then Inr otherwise else resolve_all lb tx body [] ms
   | None \<Rightarrow> Inr otherwise)"

definition object_at :: "gval gomap \<Rightarrow> string \<Rightarrow> gval gomap option" where
  "object_at base k = (case gm_get base k of Some (VMap m) \<Rightarrow> Some m | _ \<Rightarrow> None)"

definition ParseConfigurableJSON :: "golib \<Rightarrow> textlib \<Rightarrow> RawMessage \<Rightarrow> gval gomap \<Rightarrow> string + StandardMessage" where
  "ParseConfigurableJSON lb tx raw config = (case tx_json tx (rm_Payload raw) of
     None \<Rightarrow> Inl ''json''
   | Some (VMap base) \<Rightarrow>
       let body = VMap base in
       rbind (mapped lb tx body config [''properties'', ''propertyMappings''] (case object_at base ''properties'' of Some m \<Rightarrow> m | None \<Rightarrow> other_properties base)) (\<lambda>properties.
       rbind (mapped lb tx body config [''tags'', ''tagMappings''] (case object_at base ''tags'' of Some m \<Rightarrow> m | None \<Rightarrow> [])) (\<lambda>tags.
       rbind (mapped lb tx body config [''event'', ''eventMappings''] (case object_at base ''event'' of Some m \<Rightarrow> m | None \<Rightarrow> [])) (\<lambda>event.
       Inr ((hex_message raw (config_type lb body base event config) properties)\<lparr>sm_Timestamp := config_time lb tx body base config (rm_ReceivedAt raw),
         sm_Event := event, sm_Tags := text_tags lb tags,
         sm_Raw := [(''payloadFormat'', VStr ''json''), (''payload'', VBytes (rm_Payload raw)), (''mappingConfig'', VMap config)]\<rparr>))))
   | Some _ \<Rightarrow> Inl ''configurable JSON parser expects an object payload'')"

subsection \<open>Fixed hex layouts\<close>

definition hex_field_number :: "string \<Rightarrow> bool \<Rightarrow> bytes \<Rightarrow> string + gval" where
  "hex_field_number kind big data =
     (let n = be_value (if big then data else rev data) in
      if kind = ''uint8'' then (if length data \<noteq> 1 then Inl ''uint8 requires length 1'' else Inr (VInt KUint64 (int n)))
      else if kind = ''int8'' then (if length data \<noteq> 1 then Inl ''int8 requires length 1'' else Inr (VInt KInt64 (signed_value 8 n)))
      else if kind = ''uint16'' then (if length data \<noteq> 2 then Inl ''uint16 requires length 2'' else Inr (VInt KUint64 (int n)))
      else if kind = ''int16'' then (if length data \<noteq> 2 then Inl ''int16 requires length 2'' else Inr (VInt KInt64 (signed_value 16 n)))
      else if kind = ''uint32'' then (if length data \<noteq> 4 then Inl ''uint32 requires length 4'' else Inr (VInt KUint64 (int n)))
      else if kind = ''int32'' then (if length data \<noteq> 4 then Inl ''int32 requires length 4'' else Inr (VInt KInt64 (signed_value 32 n)))
      else if kind = ''float32'' then (if length data \<noteq> 4 then Inl ''float32 requires length 4'' else Inr (VFloat (Float32frombits (of_nat n))))
      else if kind = ''ascii'' then Inr (VStr (trim_right (\<lambda>c. c = CHR 0x00 \<or> c = CHR '' '') (map (\<lambda>b. char_of (unat b)) data)))
      else if kind = ''hex'' then Inr (VStr (to_upper (hex_encode data)))
      else Inl ''unsupported field type'')"

definition decodeHexField :: "golib \<Rightarrow> textlib \<Rightarrow> bytes \<Rightarrow> gval gomap \<Rightarrow> string + gval" where
  "decodeHexField lb tx data spec =
     (let kind = to_lower (sprint lb (value_at spec ''type'')); big = equal_fold (sprint lb (value_at spec ''endian'')) ''big''; scale = floatFrom lb tx (value_at spec ''scale'') in
      rbind (hex_field_number (if kind = [] then ''uint16'' else kind) big data) (\<lambda>v.
      Inr (if f64_eq scale (FNum 0) \<or> f64_eq scale (FNum 1) then v else case number lb v of Some x \<Rightarrow> VFloat (f64_mul x scale) | None \<Rightarrow> v)))"

definition hex_marker :: "string \<Rightarrow> bytes option" where
  "hex_marker s = hex_decode (remove_chars [CHR '' ''] s)"

definition check_start :: "string \<Rightarrow> bytes \<Rightarrow> bool" where
  "check_start marker data \<longleftrightarrow> marker = [] \<or> (case hex_marker marker of None \<Rightarrow> False | Some m \<Rightarrow> length m \<le> length data \<and> take (length m) data = m)"

definition check_end :: "string \<Rightarrow> bytes \<Rightarrow> bool" where
  "check_end marker data \<longleftrightarrow> marker = [] \<or> (case hex_marker marker of None \<Rightarrow> False | Some m \<Rightarrow> length m \<le> length data \<and> drop (length data - length m) data = m)"

definition sum8 :: "bytes \<Rightarrow> byte" where
  "sum8 bs = foldl (+) 0 bs"

definition checksum_at :: "string \<Rightarrow> bytes \<Rightarrow> int" where
  "checksum_at marker data = int (length data) - int (length (if marker = [] then [] else case hex_marker marker of Some m \<Rightarrow> m | None \<Rightarrow> [])) - 1"

definition check_sum8 :: "golib \<Rightarrow> gval gomap \<Rightarrow> bytes \<Rightarrow> string + unit" where
  "check_sum8 lb config data =
     (let pos = checksum_at (firstConfig lb config ''endHex'') data;
          start = (if firstConfig lb config ''checksumStartOffset'' \<noteq> [] then configInt lb config ''checksumStartOffset'' 0 else 0) in
      if pos < 0 then Inl ''hex checksum position is invalid''
      else if start < 0 \<or> start > pos then Inl ''hex checksum start offset is invalid''
      else if data ! nat pos \<noteq> sum8 (slice data (nat start) (nat pos)) then Inl ''hex checksum mismatch''
      else Inr ())"

fun hex_fields :: "golib \<Rightarrow> textlib \<Rightarrow> bytes \<Rightarrow> gval gomap \<Rightarrow> gval list \<Rightarrow> string + gval gomap" where
  "hex_fields lb tx data props [] = Inr props"
| "hex_fields lb tx data props (f # fs) = (case f of
     VMap spec \<Rightarrow>
       (let name = sprint lb (value_at spec ''name''); offset = intFrom lb (value_at spec ''offset''); len = intFrom lb (value_at spec ''length'') in
        if name = [] \<or> offset < 0 \<or> len \<le> 0 \<or> len > int (length data) \<or> offset > int (length data) - len then Inl ''invalid name, offset or length''
        else rbind (decodeHexField lb tx (slice data (nat offset) (nat (offset + len))) spec) (\<lambda>v. hex_fields lb tx data (gm_put name v props) fs))
   | _ \<Rightarrow> Inl ''fields must be objects'')"

definition ParseConfigurableHex :: "golib \<Rightarrow> textlib \<Rightarrow> RawMessage \<Rightarrow> gval gomap \<Rightarrow> string + StandardMessage" where
  "ParseConfigurableHex lb tx raw config =
     (let str = remove_chars [CHR 0x22, CHR '' '', CHR 0x0D, CHR 0x0A, CHR 0x09] (rm_Payload raw); checksum = to_lower (trim_space (firstConfig lb config ''checksum''));
          kind = firstConfig lb config ''messageType'' in
      rbind (case hex_decode str of None \<Rightarrow> Inl ''invalid hex payload'' | Some data \<Rightarrow> Inr data) (\<lambda>data.
      rbind (require (check_start (firstConfig lb config ''startHex'') data) ''hex payload does not match configured startHex'') (\<lambda>_.
      rbind (require (check_end (firstConfig lb config ''endHex'') data) ''hex payload does not match configured endHex'') (\<lambda>_.
      rbind (require (checksum = [] \<or> checksum = ''sum8'') ''unsupported HEX checksum'') (\<lambda>_.
      rbind (if checksum = ''sum8'' then check_sum8 lb config data else Inr ()) (\<lambda>_.
      rbind (case gm_get config ''fields'' of Some (VList fs) \<Rightarrow> Inr fs | _ \<Rightarrow> Inl ''configurable hex parser requires a fields array'') (\<lambda>fields.
      rbind (hex_fields lb tx data [] fields) (\<lambda>properties.
      Inr ((hex_message raw (if kind \<noteq> [] then MessageType_of (to_upper kind) else PropertyReport) properties)\<lparr>
        sm_Raw := [(''payloadFormat'', VStr ''hex''), (''payload'', VStr (to_upper str)), (''mappingConfig'', VMap config)]\<rparr>)))))))))"

subsection \<open>Plain JSON and the smoke detector\<close>

definition json_type :: "gval gomap \<Rightarrow> MessageType" where
  "json_type body = (case gm_get body ''messageType'' of
     Some (VStr t) \<Rightarrow> MessageType_of (to_upper t)
   | _ \<Rightarrow> if gm_get body ''event'' \<noteq> None then EventReport else if gm_get body ''businessStatus'' \<noteq> None then StateChange
          else if gm_get body ''alarm'' = Some (VBool True) then AlarmReport else PropertyReport)"

definition ParseJSON :: "golib \<Rightarrow> RawMessage \<Rightarrow> string + StandardMessage" where
  "ParseJSON lb raw = (case lb_json_map lb (rm_Payload raw) of
     None \<Rightarrow> Inl ''json''
   | Some body \<Rightarrow>
       Inr ((hex_message raw (json_type body) (case object_at body ''properties'' of Some m \<Rightarrow> m | None \<Rightarrow> other_properties body))\<lparr>
         sm_Timestamp := (case gm_get body ''timestamp'' of None \<Rightarrow> rm_ReceivedAt raw
           | Some v \<Rightarrow> (case number lb v of Some x \<Rightarrow> int_of_f64 x | None \<Rightarrow> rm_ReceivedAt raw)),
         sm_Event := (case object_at body ''event'' of Some m \<Rightarrow> m | None \<Rightarrow> []),
         sm_Tags := text_tags lb (case object_at body ''tags'' of Some m \<Rightarrow> m | None \<Rightarrow> []),
         sm_Raw := [(''payloadFormat'', VStr (rm_PayloadFormat raw)), (''payload'', VBytes (rm_Payload raw))]\<rparr>))"

text \<open>A quotient by ten, rounded as the division of floats is.\<close>

definition tenth :: "int \<Rightarrow> f64" where
  "tenth n = f64_round (of_int n / 10)"

definition ParseFireSmoke :: "RawMessage \<Rightarrow> string + StandardMessage" where
  "ParseFireSmoke raw = (case hex_bytes (unquoted raw) of
     None \<Rightarrow> Inl ''encoding/hex''
   | Some data \<Rightarrow>
       if length data < 4 then Inl ''smoke payload requires at least 4 bytes''
       else let smoke = odd (unat (data ! 0)) in
         Inr (hex_message raw (if smoke then AlarmReport else PropertyReport)
           [(''smoke'', VBool smoke), (''temperature'', VFloat (tenth (signed_value 16 (be_value [data ! 1, data ! 2])))),
            (''battery'', VInt KInt (int (unat (data ! 3))))]))"

subsection \<open>The parsers of the registry\<close>

definition ConfigurableJSONParser :: "golib \<Rightarrow> textlib \<Rightarrow> Parser" where
  "ConfigurableJSONParser lb tx = \<lparr>pa_Name = ''configurable_json_parser'', pa_Version = ''1.0.0'',
     pa_Match = (\<lambda>m. equal_fold (mt_Protocol m) ''config-json'' \<and> equal_fold (mt_PayloadFormat m) ''json''),
     pa_Parse = (\<lambda>raw. ParseConfigurableJSON lb tx raw []), pa_Config = Some (ParseConfigurableJSON lb tx)\<rparr>"

definition ConfigurableHexParser :: "golib \<Rightarrow> textlib \<Rightarrow> Parser" where
  "ConfigurableHexParser lb tx = \<lparr>pa_Name = ''configurable_hex_parser'', pa_Version = ''1.0.0'',
     pa_Match = (\<lambda>m. equal_fold (mt_Protocol m) ''config-hex'' \<and> equal_fold (mt_PayloadFormat m) ''hex''),
     pa_Parse = (\<lambda>raw. ParseConfigurableHex lb tx raw []), pa_Config = Some (ParseConfigurableHex lb tx)\<rparr>"

definition JSONParser :: "golib \<Rightarrow> Parser" where
  "JSONParser lb = \<lparr>pa_Name = ''custom_json_parser'', pa_Version = ''1.0.0'',
     pa_Match = (\<lambda>m. equal_fold (mt_PayloadFormat m) ''json'' \<or> equal_fold (mt_Protocol m) ''json'' \<or> contains_sub (mt_ProductID m) ''json''),
     pa_Parse = ParseJSON lb, pa_Config = None\<rparr>"

definition FireSmokeHexParser :: Parser where
  "FireSmokeHexParser = \<lparr>pa_Name = ''fire_smoke_parser'', pa_Version = ''1.0.0'',
     pa_Match = (\<lambda>m. contains_sub (to_lower (mt_ProductID m)) ''smoke'' \<and> equal_fold (mt_PayloadFormat m) ''hex''),
     pa_Parse = ParseFireSmoke, pa_Config = None\<rparr>"

definition ModbusParser :: Parser where
  "ModbusParser = \<lparr>pa_Name = ''modbus_parser'', pa_Version = ''1.0.0'',
     pa_Match = (\<lambda>m. contains_sub (to_lower (mt_Protocol m)) ''modbus'' \<and> equal_fold (mt_PayloadFormat m) ''hex''),
     pa_Parse = Parse_Modbus, pa_Config = None\<rparr>"

subsection \<open>Paths walk the value\<close>

text \<open>The reference: a path is a list of steps, each into a member of an object or to an element of an array.\<close>

datatype path_step = Member string | Element nat

fun render_path :: "path_step list \<Rightarrow> string" where
  "render_path [] = []"
| "render_path (Member k # ss) = ''.'' @ k @ render_path ss"
| "render_path (Element i # ss) = ''['' @ nat_digits i @ '']'' @ render_path ss"

fun walk :: "gval \<Rightarrow> path_step list \<Rightarrow> gval option" where
  "walk v [] = Some v"
| "walk v (Member k # ss) = Option.bind (field v k) (\<lambda>w. walk w ss)"
| "walk v (Element i # ss) = Option.bind (item v (int i)) (\<lambda>w. walk w ss)"

definition name_char :: "char \<Rightarrow> bool" where
  "name_char c \<longleftrightarrow> \<not> path_stop c \<and> \<not> is_space c"

fun plain_step :: "path_step \<Rightarrow> bool" where
  "plain_step (Member k) \<longleftrightarrow> k \<noteq> [] \<and> list_all name_char k"
| "plain_step (Element i) \<longleftrightarrow> i < 2 ^ 63"

lemma digits_value_append: "digits_value a (xs @ ys) = Option.bind (digits_value a xs) (\<lambda>b. digits_value b ys)"
  by (induction xs arbitrary: a) (auto simp: Let_def)

lemma digits_value_digits: "digits_value 0 (nat_digits n) = Some n"
proof (induction n rule: nat_digits.induct)
  case (1 n)
  have d: "(of_char (digit_char (m mod 10)) :: nat) = 48 + m mod 10" for m by (simp add: digit_char_def)
  show ?case
  proof (cases "n < 10")
    case True
    then show ?thesis using d [of n] by (simp add: nat_digits.simps [of n])
  next
    case False
    then show ?thesis using 1 d [of n] by (simp add: nat_digits.simps [of n] digits_value_append)
  qed
qed

lemma digit_not:
  assumes "\<not> (48 \<le> (of_char c :: nat) \<and> (of_char c :: nat) \<le> 57)"
  shows "c \<notin> set (nat_digits n)"
  using assms nat_digits_all_digit by blast

lemma Atoi_digits: "n < 2 ^ 63 \<Longrightarrow> Atoi (nat_digits n) = (int n, True)"
proof -
  assume n: "n < 2 ^ 63"
  have "hd (nat_digits n) \<in> set (nat_digits n)" by (rule hd_in_set) simp
  moreover have "CHR ''-'' \<notin> set (nat_digits n)" "CHR ''+'' \<notin> set (nat_digits n)" by (rule digit_not, simp)+
  ultimately have "hd (nat_digits n) \<noteq> CHR ''-''" "hd (nat_digits n) \<noteq> CHR ''+''" by metis+
  then show ?thesis using n by (simp add: Atoi_def digits_value_digits)
qed

lemma look_empty: "look v [] = Some v"
  by (simp add: look.simps)

lemma look_element:
  assumes "CHR '']'' \<notin> set ds"
  shows "look v (CHR ''['' # ds @ CHR '']'' # r) =
    (if snd (Atoi ds) then Option.bind (item v (fst (Atoi ds))) (\<lambda>w. look w (trim_prefix r ''.'')) else None)"
proof -
  have "takeWhile (\<lambda>c. c \<noteq> CHR '']'') (ds @ CHR '']'' # r) = ds" "dropWhile (\<lambda>c. c \<noteq> CHR '']'') (ds @ CHR '']'' # r) = CHR '']'' # r"
    using assms by (auto simp: takeWhile_append dropWhile_append)
  then show ?thesis
    by (subst look.simps) (simp add: path_stop_def Let_def split: option.split)
qed

lemma look_member:
  assumes "k \<noteq> []" "\<forall>c \<in> set k. \<not> path_stop c" "r = [] \<or> path_stop (hd r)"
  shows "look v (k @ r) = Option.bind (field v k) (\<lambda>w. look w (trim_prefix r ''.''))"
proof -
  have s: "takeWhile (\<lambda>c. \<not> path_stop c) (k @ r) = k" "dropWhile (\<lambda>c. \<not> path_stop c) (k @ r) = r"
    using assms by (cases r; auto simp: takeWhile_append dropWhile_append)+
  consider "r = []" | r' where "r = CHR ''.'' # r'" | r' where "r = CHR ''['' # r'"
    using assms(3) by (cases r) (auto simp: path_stop_def)
  then show ?thesis
  proof cases
    case 1
    then show ?thesis using s assms(1)
      by (subst look.simps) (simp add: Let_def look_empty trim_prefix_def del: takeWhile_eq_all_conv dropWhile_eq_Nil_conv split: option.split)
  next
    case (2 r')
    then show ?thesis using s assms(1)
      by (subst look.simps) (simp add: Let_def trim_prefix_def has_prefix_def split: option.split)
  next
    case (3 r')
    have "look w r = (let inner = takeWhile (\<lambda>c. c \<noteq> CHR '']'') r'; after = dropWhile (\<lambda>c. c \<noteq> CHR '']'') r' in
        if after = [] \<or> \<not> snd (Atoi inner) then None
        else case item w (fst (Atoi inner)) of None \<Rightarrow> None | Some w \<Rightarrow> look w (trim_prefix (tl after) ''.''))" for w
      unfolding 3 by (subst look.simps) (simp add: path_stop_def Let_def)
    moreover have "trim_prefix r ''.'' = r" unfolding 3 by (simp add: trim_prefix_def has_prefix_def)
    ultimately show ?thesis using s assms(1) 3 by (subst look.simps) (simp add: Let_def split: option.split)
  qed
qed

lemma render_path_head: "render_path ss = [] \<or> path_stop (hd (render_path ss))"
  by (cases ss rule: render_path.cases) (auto simp: path_stop_def)

lemma look_walks:
  assumes "list_all plain_step ss"
  shows "look v (trim_prefix (render_path ss) ''.'') = walk v ss"
  using assms
proof (induction ss arbitrary: v rule: render_path.induct)
  case 1
  then show ?case by (simp add: look_empty trim_prefix_def)
next
  case (2 k ss)
  have "\<forall>c \<in> set k. \<not> path_stop c" using 2(2) by (auto simp: list_all_iff name_char_def)
  then have "look v (k @ render_path ss) = Option.bind (field v k) (\<lambda>w. look w (trim_prefix (render_path ss) ''.''))"
    using 2(2) by (intro look_member) (auto simp: render_path_head)
  then show ?case using 2 by (simp add: trim_prefix_def has_prefix_def cong: Option.bind_cong)
next
  case (3 i ss)
  have "CHR '']'' \<notin> set (nat_digits i)" by (rule digit_not) simp
  from look_element [OF this, of v "render_path ss"] show ?case
    using 3 by (simp add: Atoi_digits trim_prefix_def has_prefix_def cong: Option.bind_cong)
qed

lemma render_path_no_space: "list_all plain_step ss \<Longrightarrow> c \<in> set (render_path ss) \<Longrightarrow> \<not> is_space c"
proof (induction ss rule: render_path.induct)
  case (3 i ss)
  have "\<not> is_space d" if "d \<in> set (nat_digits i)" for d
    using nat_digits_all_digit [OF that] by (auto simp: is_space_def Let_def)
  then show ?case using 3 by (auto simp: is_space_def)
qed (auto simp: name_char_def list_all_iff is_space_def)

lemma lookupPath_walks:
  assumes "list_all plain_step (Member k # ss)"
  shows "lookupPath base (''$'' @ render_path (Member k # ss)) = walk base (Member k # ss)"
proof -
  let ?p = "render_path (Member k # ss)"
  have "trim_space (''$'' @ ?p) = ''$'' @ ?p"
    unfolding trim_space_def by (rule trim_by_none) (use render_path_no_space [OF assms] in \<open>auto simp: is_space_def\<close>)
  moreover have "has_prefix (''$'' @ ?p) ''$.''" "?p \<noteq> []" by (simp_all add: has_prefix_def)
  ultimately show ?thesis using look_walks [OF assms, of base] by (simp add: lookupPath_def Let_def del: render_path.simps)
qed

subsection \<open>Mapped values\<close>

lemma resolve_path:
  assumes "list_all plain_step (Member k # ss)"
  shows "resolveMapping lb tx base (VStr (''$'' @ render_path (Member k # ss))) = Inr (walk base (Member k # ss))"
proof (cases "walk base (Member k # ss)")
  case None
  then show ?thesis using lookupPath_walks [OF assms, of base] by (simp add: resolveMapping_def mapping_parts_def del: render_path.simps walk.simps)
next
  case (Some v)
  then show ?thesis using lookupPath_walks [OF assms, of base]
    by (simp add: resolveMapping_def mapping_parts_def convertValue_def del: render_path.simps walk.simps)
qed

lemma resolve_all_keeps: "resolve_all lb tx base out ms = Inr res \<Longrightarrow> k \<notin> fst ` set ms \<Longrightarrow> gm_get res k = gm_get out k"
proof (induction ms arbitrary: out)
  case (Cons m ms)
  obtain name spec where m: "m = (name, spec)" by (cases m)
  obtain v where "resolve_all lb tx base (case v of None \<Rightarrow> out | Some v \<Rightarrow> gm_put name v out) ms = Inr res" using Cons(2) by (auto simp: m)
  from Cons(1) [OF this] Cons(3) show ?case by (auto simp: m split: option.splits)
qed simp

lemma resolve_all_value:
  assumes "resolve_all lb tx base out ms = Inr res" "gm_ok ms" "(name, spec) \<in> set ms" "gm_get out name = None"
  shows "\<exists>r. resolveMapping lb tx base spec = Inr r \<and> gm_get res name = r"
  using assms
proof (induction ms arbitrary: out)
  case (Cons m ms)
  obtain n sp where m: "m = (n, sp)" by (cases m)
  obtain v where v: "resolveMapping lb tx base sp = Inr v" and r: "resolve_all lb tx base (case v of None \<Rightarrow> out | Some v \<Rightarrow> gm_put n v out) ms = Inr res"
    using Cons(2) by (auto simp: m)
  have d: "n \<notin> fst ` set ms" "gm_ok ms" using Cons(3) by (auto simp: m gm_ok_def)
  show ?case
  proof (cases "n = name")
    case True
    then have "spec = sp" using Cons(4) d(1) by (auto simp: m image_iff)
    moreover have "gm_get res n = v" using resolve_all_keeps [OF r d(1)] Cons(5) True by (auto split: option.splits)
    ultimately show ?thesis using v True by blast
  next
    case False
    have "(name, spec) \<in> set ms" using False Cons(4) by (auto simp: m)
    moreover have "gm_get (case v of None \<Rightarrow> out | Some v \<Rightarrow> gm_put n v out) name = None" using Cons(5) False by (auto split: option.splits)
    ultimately show ?thesis using Cons(1) [OF r d(2)] by blast
  qed
qed simp

lemma configured_properties:
  assumes "ParseConfigurableJSON lb tx raw config = Inr m" "gm_get config ''properties'' = Some (VMap ms)" "ms \<noteq> []"
  obtains body where "tx_json tx (rm_Payload raw) = Some (VMap body)" "resolve_all lb tx (VMap body) [] ms = Inr (sm_Properties m)"
proof -
  have "configMap config [''properties'', ''propertyMappings''] = Some ms"
    using assms(2) by (simp add: configMap_def List.map_filter_simps)
  then have p: "mapped lb tx b config [''properties'', ''propertyMappings''] d = resolve_all lb tx b [] ms" for b d
    using assms(3) by (simp add: mapped_def)
  obtain body where body: "tx_json tx (rm_Payload raw) = Some (VMap body)"
    using assms(1) by (auto simp: ParseConfigurableJSON_def split: option.splits gval.splits)
  have "resolve_all lb tx (VMap body) [] ms = Inr (sm_Properties m)"
    using assms(1) by (auto simp: ParseConfigurableJSON_def body p hex_message_def Let_def)
  then show thesis using that body by blast
qed

subsection \<open>Mappings without a type\<close>

text \<open>\<^verbatim>\<open>fmt.Sprint(nil)\<close> is the text \<^verbatim>\<open><nil>\<close>, so the cases for an absent type are never taken.\<close>

lemma untyped_mapping_refused:
  assumes "gm_get m ''type'' = None" "lookupPath base (sprint lb (value_at m ''path'')) = Some v"
  shows "resolveMapping lb tx base (VMap m) = Inl ''unsupported mapping type''"
proof -
  have "to_lower (sprint lb (value_at m ''type'')) = ''<nil>''" using assms(1) by (simp add: value_at_def) code_simp
  then show ?thesis using assms(2) by (simp add: resolveMapping_def mapping_parts_def convertValue_def rbind_def)
qed

lemma untyped_field_refused:
  assumes "gm_get m ''type'' = None"
  shows "decodeHexField lb tx data m = Inl ''unsupported field type''"
proof -
  have "to_lower (sprint lb (value_at m ''type'')) = ''<nil>''" using assms(1) by (simp add: value_at_def) code_simp
  then show ?thesis by (simp add: decodeHexField_def hex_field_number_def Let_def rbind_def)
qed

subsection \<open>What an accepted hex frame guarantees\<close>

definition sum_start :: "golib \<Rightarrow> gval gomap \<Rightarrow> int" where
  "sum_start lb config = (if firstConfig lb config ''checksumStartOffset'' \<noteq> [] then configInt lb config ''checksumStartOffset'' 0 else 0)"

lemma check_sum8_accepts:
  "check_sum8 lb config data = Inr () \<longleftrightarrow>
     (let pos = checksum_at (firstConfig lb config ''endHex'') data in
      0 \<le> sum_start lb config \<and> sum_start lb config \<le> pos \<and> data ! nat pos = sum8 (slice data (nat (sum_start lb config)) (nat pos)))"
  by (auto simp: check_sum8_def sum_start_def Let_def)

lemma sum8_one_byte: "i < length bs \<Longrightarrow> c \<noteq> bs ! i \<Longrightarrow> sum8 (bs[i := c]) \<noteq> sum8 bs"
  unfolding sum8_def by (rule gb.check_one_byte)

lemma check_sum8_detects:
  assumes "check_sum8 lb config data = Inr ()" "sum_start lb config \<le> int i" "int i \<le> checksum_at (firstConfig lb config ''endHex'') data" "b \<noteq> data ! i"
  shows "check_sum8 lb config (data[i := b]) = Inl ''hex checksum mismatch''"
proof -
  define s where "s = nat (sum_start lb config)"
  define p where "p = nat (checksum_at (firstConfig lb config ''endHex'') data)"
  have a: "0 \<le> sum_start lb config" "data ! p = sum8 (slice data s p)"
    using assms(1) by (simp_all add: check_sum8_accepts Let_def s_def p_def)
  have p: "p < length data" using assms(2,3) a(1) by (auto simp: p_def checksum_at_def split: if_splits)
  have i: "s \<le> i" "i \<le> p" using assms(2,3) by (auto simp: s_def p_def)
  have same: "checksum_at (firstConfig lb config ''endHex'') (data[i := b]) = checksum_at (firstConfig lb config ''endHex'') data"
    by (simp add: checksum_at_def)
  have "data[i := b] ! p \<noteq> sum8 (slice (data[i := b]) s p)"
  proof (cases "i = p")
    case True
    then show ?thesis using a(2) p assms(4) by (simp add: slice_update_out)
  next
    case False
    have "slice data s p ! (i - s) = data ! i" using i False p by (simp add: nth_slice)
    then have "sum8 ((slice data s p)[i - s := b]) \<noteq> sum8 (slice data s p)"
      using i False p assms(4) by (intro sum8_one_byte) auto
    then show ?thesis using a(2) i False by (simp add: slice_update_in)
  qed
  then show ?thesis using assms(2,3) a(1)
    by (simp add: check_sum8_def Let_def same sum_start_def [symmetric] s_def [symmetric] p_def [symmetric])
qed

definition field_name :: "golib \<Rightarrow> gval \<Rightarrow> string" where
  "field_name lb f = (case f of VMap spec \<Rightarrow> sprint lb (value_at spec ''name'') | _ \<Rightarrow> [])"

text \<open>The bytes that a field names.\<close>

definition field_bytes :: "golib \<Rightarrow> bytes \<Rightarrow> gval gomap \<Rightarrow> bytes" where
  "field_bytes lb data spec = slice data (nat (intFrom lb (value_at spec ''offset''))) (nat (intFrom lb (value_at spec ''offset'') + intFrom lb (value_at spec ''length'')))"

lemma hex_fields_Cons:
  assumes "hex_fields lb tx data props (f # fs) = Inr out"
  obtains spec v where "f = VMap spec" "decodeHexField lb tx (field_bytes lb data spec) spec = Inr v"
    "length (field_bytes lb data spec) = nat (intFrom lb (value_at spec ''length''))" "0 < intFrom lb (value_at spec ''length'')"
    "hex_fields lb tx data (gm_put (field_name lb f) v props) fs = Inr out"
proof -
  obtain spec where f: "f = VMap spec" using assms by (cases f) auto
  define n where "n = sprint lb (value_at spec ''name'')"
  define off where "off = intFrom lb (value_at spec ''offset'')"
  define len where "len = intFrom lb (value_at spec ''length'')"
  have ok: "\<not> (n = [] \<or> off < 0 \<or> len \<le> 0 \<or> len > int (length data) \<or> off > int (length data) - len)"
    and r: "rbind (decodeHexField lb tx (slice data (nat off) (nat (off + len))) spec) (\<lambda>v. hex_fields lb tx data (gm_put n v props) fs) = Inr out"
    using assms unfolding f hex_fields.simps gval.case Let_def n_def [symmetric] off_def [symmetric] len_def [symmetric] by (auto split: if_splits)
  obtain v where "decodeHexField lb tx (slice data (nat off) (nat (off + len))) spec = Inr v" "hex_fields lb tx data (gm_put n v props) fs = Inr out"
    using r by (cases "decodeHexField lb tx (slice data (nat off) (nat (off + len))) spec") (auto simp: rbind_def)
  moreover have "length (slice data (nat off) (nat (off + len))) = nat len"
  proof -
    have "nat (off + len) \<le> length data" "nat (off + len) - nat off = nat len" using ok by linarith+
    then show ?thesis by simp
  qed
  ultimately show thesis using that [OF f] ok by (simp add: field_bytes_def off_def len_def n_def field_name_def f)
qed

lemma hex_fields_keeps:
  "hex_fields lb tx data props fs = Inr out \<Longrightarrow> k \<notin> set (map (field_name lb) fs) \<Longrightarrow> gm_get out k = gm_get props k"
proof (induction fs arbitrary: props)
  case (Cons f fs)
  obtain v where "hex_fields lb tx data (gm_put (field_name lb f) v props) fs = Inr out" by (rule hex_fields_Cons [OF Cons(2)]) blast
  then show ?case using Cons(1) [of "gm_put (field_name lb f) v props"] Cons(3) by simp
qed simp

lemma hex_fields_values:
  assumes "hex_fields lb tx data props fs = Inr out" "distinct (map (field_name lb) fs)" "f \<in> set fs"
  shows "\<exists>spec v. f = VMap spec \<and> decodeHexField lb tx (field_bytes lb data spec) spec = Inr v \<and>
    length (field_bytes lb data spec) = nat (intFrom lb (value_at spec ''length'')) \<and> gm_get out (field_name lb f) = Some v"
  using assms
proof (induction fs arbitrary: props)
  case (Cons g fs)
  obtain spec v where g: "g = VMap spec" "decodeHexField lb tx (field_bytes lb data spec) spec = Inr v"
    "length (field_bytes lb data spec) = nat (intFrom lb (value_at spec ''length''))"
    and r: "hex_fields lb tx data (gm_put (field_name lb g) v props) fs = Inr out"
    by (rule hex_fields_Cons [OF Cons(2)]) blast
  show ?case
  proof (cases "f = g")
    case True
    have "gm_get out (field_name lb g) = Some v" using hex_fields_keeps [OF r, of "field_name lb g"] Cons(3) by simp
    then show ?thesis using g True by blast
  next
    case False
    then show ?thesis using Cons(1) [OF r] Cons(3,4) by simp
  qed
qed simp

end
