(* ===== verification/Standard_Parser.thy ===== *)
theory Standard_Parser
  imports Raw_Parsing Point_Table
begin

text \<open>
  The platform's own message format, \<^verbatim>\<open>internal/parser/standard.go\<close>. The tokenizer and the decoders of \<^verbatim>\<open>encoding/json\<close> are arguments:
  the tokens of a text up to its end or to the first error, the envelope, and the text as a map.
\<close>

subsection \<open>The check of the tokens\<close>

text \<open>Brackets are told apart; a colon or comma is no token. Numbers, booleans and null are atoms.\<close>

datatype jtoken = OpenObject | CloseObject | OpenArray | CloseArray | StringToken string | AtomToken gval

definition no_more :: "jtoken list \<Rightarrow> bool" where
  "no_more ts \<longleftrightarrow> ts = [] \<or> hd ts = CloseObject \<or> hd ts = CloseArray"

text \<open>\<^verbatim>\<open>d.Token()\<close> after the last element: the tokenizer only gives the bracket that closes.\<close>

definition close_token :: "jtoken list \<Rightarrow> string + jtoken list" where
  "close_token ts = (case ts of [] \<Rightarrow> Inl ''token'' | t # r \<Rightarrow> Inr r)"

datatype scan_point = Value | Members "string list" | Elements

text \<open>The closure \<^verbatim>\<open>value\<close> with its two loops: what is left after a value, or after the rest of an object (whose keys so far are given) or of an array.\<close>

function scan_tokens :: "scan_point \<Rightarrow> nat \<Rightarrow> jtoken list \<Rightarrow> string + jtoken list" where
  "scan_tokens Value depth ts =
     (if depth > 16 then Inl ''JSON nesting exceeds 16 levels''
      else case ts of
        [] \<Rightarrow> Inl ''token''
      | t # r \<Rightarrow> (case t of
          StringToken _ \<Rightarrow> Inr r
        | AtomToken _ \<Rightarrow> Inr r
        | OpenObject \<Rightarrow> scan_tokens (Members []) depth r
        | OpenArray \<Rightarrow> scan_tokens Elements depth r
        | _ \<Rightarrow> Inl ''invalid JSON delimiter''))"
| "scan_tokens (Members keys) depth ts =
     (if no_more ts then close_token ts
      else case hd ts of
        StringToken name \<Rightarrow>
          if name \<in> set keys then Inl ''duplicate or invalid JSON key''
          else (case scan_tokens Value (depth + 1) (tl ts) of
            Inl e \<Rightarrow> Inl e
          | Inr r \<Rightarrow> scan_tokens (Members (name # keys)) depth r)
      | _ \<Rightarrow> Inl ''duplicate or invalid JSON key'')"
| "scan_tokens Elements depth ts =
     (if no_more ts then close_token ts
      else case scan_tokens Value (depth + 1) ts of
        Inl e \<Rightarrow> Inl e
      | Inr r \<Rightarrow> scan_tokens Elements depth r)"
  by pat_completeness auto

lemma scan_shortens_dom:
  "scan_tokens_dom (p, d, ts) \<Longrightarrow> scan_tokens p d ts = Inr r \<Longrightarrow> length r < length ts"
proof (induction p d ts arbitrary: r rule: scan_tokens.pinduct)
  case (1 depth ts)
  then show ?case
    by (auto simp: scan_tokens.psimps split: if_splits list.splits jtoken.splits dest: less_SucI)
next
  case (2 keys depth ts)
  show ?case
  proof (cases "no_more ts")
    case True
    then show ?thesis using 2(1,4) by (auto simp: scan_tokens.psimps close_token_def split: list.splits)
  next
    case False
    then obtain name r' where n: "hd ts = StringToken name" "name \<notin> set keys" "scan_tokens Value (depth + 1) (tl ts) = Inr r'"
        "scan_tokens (Members (name # keys)) depth r' = Inr r"
      using 2(1,4) by (auto simp: scan_tokens.psimps split: jtoken.splits if_splits sum.splits)
    have "length r' < length (tl ts)" using 2(2) [OF False n(1,2) n(3)] .
    moreover have "length r < length r'" using 2(3) [OF False n(1,2) n(3,4)] .
    ultimately show ?thesis by simp
  qed
next
  case (3 depth ts)
  show ?case
  proof (cases "no_more ts")
    case True
    then show ?thesis using 3(1,4) by (auto simp: scan_tokens.psimps close_token_def split: list.splits)
  next
    case False
    then obtain r' where n: "scan_tokens Value (depth + 1) ts = Inr r'" "scan_tokens Elements depth r' = Inr r"
      using 3(1,4) by (auto simp: scan_tokens.psimps split: sum.splits)
    have "length r' < length ts" using 3(2) [OF False n(1)] .
    moreover have "length r < length r'" using 3(3) [OF False n(1,2)] .
    ultimately show ?thesis by simp
  qed
qed

text \<open>Every call takes a token, or goes from a loop to the value in front of it.\<close>

fun scan_rank :: "scan_point \<Rightarrow> nat" where
  "scan_rank Value = 0"
| "scan_rank (Members _) = 1"
| "scan_rank Elements = 1"

termination scan_tokens
proof (relation "measures [\<lambda>(p, d, ts). length ts, \<lambda>(p, d, ts). scan_rank p]", goal_cases)
  case (4 keys depth ts name)
  then show ?case by (cases ts) (auto simp: no_more_def)
next
  case (5 keys depth ts name r)
  have "length r < length (tl ts)" using scan_shortens_dom 5 by blast
  then show ?case by simp
next
  case (7 depth ts r)
  have "length r < length ts" using scan_shortens_dom 7 by blast
  then show ?case by simp
qed auto

declare scan_tokens.simps [simp del]

text \<open>What the tree of a text has to be.\<close>

datatype jtree = Leaf gval | LeafText string | Branch "(string \<times> jtree) list" | Array "jtree list"

fun tokens_of :: "jtree \<Rightarrow> jtoken list" where
  "tokens_of (Leaf v) = [AtomToken v]"
| "tokens_of (LeafText s) = [StringToken s]"
| "tokens_of (Branch ms) = OpenObject # concat (map (\<lambda>(k, t). StringToken k # tokens_of t) ms) @ [CloseObject]"
| "tokens_of (Array ts) = OpenArray # concat (map tokens_of ts) @ [CloseArray]"

fun nesting :: "jtree \<Rightarrow> nat" where
  "nesting (Leaf _) = 0"
| "nesting (LeafText _) = 0"
| "nesting (Branch ms) = foldr max (map (\<lambda>(k, t). Suc (nesting t)) ms) 0"
| "nesting (Array ts) = foldr max (map (\<lambda>t. Suc (nesting t)) ts) 0"

fun unambiguous :: "jtree \<Rightarrow> bool" where
  "unambiguous (Branch ms) \<longleftrightarrow> distinct (map fst ms) \<and> list_all (\<lambda>(k, t). unambiguous t) ms"
| "unambiguous (Array ts) \<longleftrightarrow> list_all unambiguous ts"
| "unambiguous _ \<longleftrightarrow> True"

definition admitted_at :: "nat \<Rightarrow> jtree \<Rightarrow> bool" where
  "admitted_at d t \<longleftrightarrow> d + nesting t \<le> 16 \<and> unambiguous t"

text \<open>Exactly the admitted value in front is taken.\<close>

definition scans :: "jtree \<Rightarrow> bool" where
  "scans t \<longleftrightarrow> (\<forall>d r. if admitted_at d t then scan_tokens Value d (tokens_of t @ r) = Inr r else isl (scan_tokens Value d (tokens_of t @ r)))"

lemma scans_cases:
  assumes "scans t"
  obtains "admitted_at d t" "scan_tokens Value d (tokens_of t @ r) = Inr r"
    | e where "\<not> admitted_at d t" "scan_tokens Value d (tokens_of t @ r) = Inl e"
  using assms that by (auto simp: scans_def isl_def split: if_splits)

lemma tokens_not_closing: "\<not> no_more (tokens_of t @ r)"
  by (cases t) (auto simp: no_more_def)

lemma scan_elements:
  assumes "\<forall>t \<in> set ts. scans t"
  shows "if \<forall>t \<in> set ts. admitted_at (d + 1) t then scan_tokens Elements d (concat (map tokens_of ts) @ CloseArray # r) = Inr r
    else isl (scan_tokens Elements d (concat (map tokens_of ts) @ CloseArray # r))"
  using assms
proof (induction ts)
  case Nil
  then show ?case by (simp add: scan_tokens.simps no_more_def close_token_def)
next
  case (Cons t ts)
  let ?r = "concat (map tokens_of ts) @ CloseArray # r"
  have step: "scan_tokens Elements d (tokens_of t @ ?r) = (case scan_tokens Value (d + 1) (tokens_of t @ ?r) of Inl e \<Rightarrow> Inl e | Inr r \<Rightarrow> scan_tokens Elements d r)"
    by (subst scan_tokens.simps) (simp add: tokens_not_closing)
  have "scans t" using Cons(2) by simp
  then show ?case
  proof (cases rule: scans_cases [of _ "d + 1" ?r])
    case 1
    then show ?thesis using Cons step by auto
  next
    case (2 e)
    then show ?thesis using step by auto
  qed
qed

lemma scan_members:
  assumes "\<forall>(k, t) \<in> set ms. scans t"
  shows "if (\<forall>(k, t) \<in> set ms. admitted_at (d + 1) t) \<and> distinct (map fst ms) \<and> set (map fst ms) \<inter> set keys = {}
    then scan_tokens (Members keys) d (concat (map (\<lambda>(k, t). StringToken k # tokens_of t) ms) @ CloseObject # r) = Inr r
    else isl (scan_tokens (Members keys) d (concat (map (\<lambda>(k, t). StringToken k # tokens_of t) ms) @ CloseObject # r))"
  using assms
proof (induction ms arbitrary: keys)
  case Nil
  then show ?case by (simp add: scan_tokens.simps no_more_def close_token_def)
next
  case (Cons m ms)
  obtain k t where m: "m = (k, t)" by (cases m)
  let ?r = "concat (map (\<lambda>(k, t). StringToken k # tokens_of t) ms) @ CloseObject # r"
  have step: "scan_tokens (Members keys) d (StringToken k # tokens_of t @ ?r) =
      (if k \<in> set keys then Inl ''duplicate or invalid JSON key''
       else case scan_tokens Value (d + 1) (tokens_of t @ ?r) of Inl e \<Rightarrow> Inl e | Inr r \<Rightarrow> scan_tokens (Members (k # keys)) d r)"
    by (subst scan_tokens.simps) (simp add: no_more_def)
  have "scans t" using Cons(2) m by simp
  then show ?case
  proof (cases rule: scans_cases [of _ "d + 1" ?r])
    case 1
    then show ?thesis using Cons(1) [of "k # keys"] Cons(2) step m by (auto split: if_splits)
  next
    case (2 e)
    then show ?thesis using step m by auto
  qed
qed

lemma foldr_max_le: "foldr max ns 0 \<le> (b :: nat) \<longleftrightarrow> (\<forall>n \<in> set ns. n \<le> b)"
  by (induction ns) auto

lemma add_foldr_max_le: "d + foldr max ns 0 \<le> (16 :: nat) \<longleftrightarrow> d \<le> 16 \<and> (\<forall>n \<in> set ns. d + n \<le> 16)"
  using foldr_max_le [of ns "16 - d"] by (cases "d \<le> 16") (auto simp: le_diff_conv2 add.commute)

lemma admitted_Array: "admitted_at d (Array ts) \<longleftrightarrow> d \<le> 16 \<and> (\<forall>t \<in> set ts. admitted_at (d + 1) t)"
  by (auto simp: admitted_at_def list_all_iff add_foldr_max_le)

lemma admitted_Branch: "admitted_at d (Branch ms) \<longleftrightarrow> d \<le> 16 \<and> distinct (map fst ms) \<and> (\<forall>(k, t) \<in> set ms. admitted_at (d + 1) t)"
  by (auto simp: admitted_at_def list_all_iff add_foldr_max_le)

lemma tree_scans: "scans t"
proof (induction t)
  case (Branch ms)
  then have ms: "\<forall>(k, t) \<in> set ms. scans t" by force
  show ?case unfolding scans_def
  proof (intro allI)
    fix d r
    have "scan_tokens Value d (tokens_of (Branch ms) @ r) = (if d > 16 then Inl ''JSON nesting exceeds 16 levels''
        else scan_tokens (Members []) d (concat (map (\<lambda>(k, t). StringToken k # tokens_of t) ms) @ CloseObject # r))"
      by (subst scan_tokens.simps) simp
    then show "if admitted_at d (Branch ms) then scan_tokens Value d (tokens_of (Branch ms) @ r) = Inr r
        else isl (scan_tokens Value d (tokens_of (Branch ms) @ r))"
      using scan_members [OF ms, of d "[]" r] by (auto simp: admitted_Branch split: if_splits)
  qed
next
  case (Array ts)
  show ?case unfolding scans_def
  proof (intro allI)
    fix d r
    have "scan_tokens Value d (tokens_of (Array ts) @ r) = (if d > 16 then Inl ''JSON nesting exceeds 16 levels''
        else scan_tokens Elements d (concat (map tokens_of ts) @ CloseArray # r))"
      by (subst scan_tokens.simps) simp
    then show "if admitted_at d (Array ts) then scan_tokens Value d (tokens_of (Array ts) @ r) = Inr r
        else isl (scan_tokens Value d (tokens_of (Array ts) @ r))"
      using scan_elements [of ts d r] Array by (auto simp: admitted_Array split: if_splits)
  qed
qed (auto simp: scans_def admitted_at_def scan_tokens.simps)

subsection \<open>The parser\<close>

text \<open>The envelope; the pointers and the map may be nil.\<close>

record std_body =
  sb_Version :: string
  sb_Event :: string
  sb_Online :: "bool option"
  sb_CommandID :: string
  sb_Success :: "bool option"
  sb_ID :: string
  sb_Timestamp :: int
  sb_Data :: "gval gomap option"

text \<open>The tokens of a text with whether it ends there, and the two decoders.\<close>

record jsonlib =
  jl_tokens :: "string \<Rightarrow> jtoken list \<times> bool"
  jl_body :: "string \<Rightarrow> std_body option"
  jl_map :: "string \<Rightarrow> gval gomap option"

definition validateStandardJSON :: "jsonlib \<Rightarrow> string \<Rightarrow> string + unit" where
  "validateStandardJSON jl data =
     rbind (scan_tokens Value 0 (fst (jl_tokens jl data))) (\<lambda>r. require (r = [] \<and> snd (jl_tokens jl data)) ''unexpected trailing JSON'')"

definition message_kind :: "RawMessage \<Rightarrow> string" where
  "message_kind raw = (case gm_get (rm_Headers raw) ''messageKind'' of Some k \<Rightarrow> k | None \<Rightarrow> [])"

text \<open>Sets a value unless the data has another one under the key.\<close>

definition put_agreeing :: "string \<Rightarrow> gval \<Rightarrow> string \<Rightarrow> gval gomap \<Rightarrow> string + gval gomap" where
  "put_agreeing k v e data = (case gm_get data k of
     Some old \<Rightarrow> if old \<noteq> v then Inl e else Inr (gm_put k v data)
   | None \<Rightarrow> Inr (gm_put k v data))"

definition connection_text :: "bool \<Rightarrow> string" where
  "connection_text online = (if online then ''CONNECTED'' else ''DISCONNECTED'')"

text \<open>The first switch: what the envelope adds to the data.\<close>

definition merge_body :: "string \<Rightarrow> std_body \<Rightarrow> gval gomap \<Rightarrow> string + gval gomap" where
  "merge_body kind body data =
     (if kind = ''state'' then
        (case sb_Online body of
           None \<Rightarrow> Inr data
         | Some online \<Rightarrow> put_agreeing ''connectionStatus'' (VStr (connection_text online)) ''online conflicts with connectionStatus'' data)
      else if kind = ''event'' then
        rbind (require (\<not> (sb_Version body = ''1.0'' \<and> sb_Event body = [])) ''event identifier is required'') (\<lambda>_.
        Inr (if sb_Event body \<noteq> [] then gm_put ''event'' (VStr (sb_Event body)) data else data))
      else if kind = ''command-reply'' then
        rbind (if sb_CommandID body \<noteq> [] then put_agreeing ''commandId'' (VStr (sb_CommandID body)) ''conflicting commandId'' data else Inr data) (\<lambda>data.
        case sb_Success body of None \<Rightarrow> Inr data | Some ok \<Rightarrow> put_agreeing ''success'' (VBool ok) ''conflicting success'' data)
      else Inr data)"

definition std_message :: "RawMessage \<Rightarrow> int \<Rightarrow> StandardMessage" where
  "std_message raw ts = \<lparr>sm_MessageID = ''msg_'' @ rm_MessageID raw, sm_RawMessageID = rm_MessageID raw, sm_TenantID = rm_TenantID raw,
     sm_ProductID = rm_ProductID raw, sm_DeviceID = rm_DeviceID raw, sm_MessageType = OtherType [], sm_Timestamp = ts, sm_Properties = [], sm_Event = [],
     sm_Tags = [], sm_Raw = [], sm_Parser = ''iot_standard_parser'', sm_ParserVersion = ''1.0.0''\<rparr>"

definition reply_id :: "gval gomap \<Rightarrow> string" where
  "reply_id data = (case gm_get data ''commandId'' of Some (VStr i) \<Rightarrow> i | _ \<Rightarrow> [])"

definition reply_success :: "gval gomap \<Rightarrow> bool option" where
  "reply_success data = (case gm_get data ''success'' of Some (VBool b) \<Rightarrow> Some b | _ \<Rightarrow> None)"

definition known_connection :: "gval gomap \<Rightarrow> bool" where
  "known_connection data \<longleftrightarrow> (case gm_get data ''connectionStatus'' of
     None \<Rightarrow> True | Some v \<Rightarrow> v = VStr ''CONNECTED'' \<or> v = VStr ''DISCONNECTED'' \<or> v = VStr ''UNKNOWN'')"

text \<open>The second switch: the type and the place of the data.\<close>

definition place_data :: "string \<Rightarrow> gval gomap \<Rightarrow> StandardMessage \<Rightarrow> string + StandardMessage" where
  "place_data kind data m =
     (if kind = ''property'' then Inr (m\<lparr>sm_MessageType := PropertyReport, sm_Properties := data\<rparr>)
      else if kind = ''command-reply'' then
        rbind (require (reply_id data \<noteq> [] \<and> length (reply_id data) \<le> 128) ''commandId is required'') (\<lambda>_.
        rbind (require (reply_success data \<noteq> None) ''success must be boolean'') (\<lambda>_.
        Inr (m\<lparr>sm_MessageType := CommandReply, sm_Event := data\<rparr>)))
      else if kind = ''event'' then Inr (m\<lparr>sm_MessageType := EventReport, sm_Event := data\<rparr>)
      else if kind = ''alarm'' then Inr (m\<lparr>sm_MessageType := AlarmReport, sm_Event := data\<rparr>)
      else if kind = ''state'' then
        rbind (require (known_connection data) ''connectionStatus must be CONNECTED, DISCONNECTED or UNKNOWN'') (\<lambda>_.
        Inr (m\<lparr>sm_MessageType := StateChange, sm_Properties := data\<rparr>))
      else Inl ''message kind must be property, event, alarm, state or command-reply'')"

text \<open>The received time is a clock of the server, far from the end of the 64 bits.\<close>

definition ParseStandard :: "jsonlib \<Rightarrow> RawMessage \<Rightarrow> string + StandardMessage" where
  "ParseStandard jl raw =
     rbind (require (length (rm_Payload raw) \<le> 65536) ''payload exceeds 64 KiB'') (\<lambda>_.
     rbind (validateStandardJSON jl (rm_Payload raw)) (\<lambda>_.
     rbind (case jl_body jl (rm_Payload raw) of None \<Rightarrow> Inl ''json'' | Some b \<Rightarrow> Inr b) (\<lambda>body.
     rbind (require (sb_Version body = [] \<or> sb_Version body = ''1.0'') ''unsupported standard message version'') (\<lambda>_.
     rbind (require (\<not> (sb_ID body = [] \<or> length (sb_ID body) > 128 \<or> sb_Timestamp body \<le> 0 \<or> sb_Timestamp body > 253402300799999))
       ''id and valid positive millisecond timestamp are required'') (\<lambda>_.
     rbind (require (\<not> (rm_ReceivedAt raw > 0 \<and> sb_Timestamp body > rm_ReceivedAt raw + 300000)) ''device timestamp is more than 5 minutes in the future'') (\<lambda>_.
     rbind (merge_body (message_kind raw) body (case sb_Data body of None \<Rightarrow> [] | Some d \<Rightarrow> d)) (\<lambda>data.
     rbind (require (data \<noteq> []) ''non-empty data object is required'') (\<lambda>_.
     rbind (place_data (message_kind raw) data (std_message raw (sb_Timestamp body))) (\<lambda>m.
     rbind (case jl_map jl (rm_Payload raw) of None \<Rightarrow> Inl ''json'' | Some all \<Rightarrow>
       Inr (m\<lparr>sm_Raw := all, sm_Tags := [(''protocolId'', rm_ProtocolID raw), (''protocolVersion'', rm_ProtocolVersion raw)]\<rparr>)) (\<lambda>m.
     rbind (MessageComponents m) (\<lambda>_. Inr m)))))))))))"

subsection \<open>What an accepted message holds\<close>

lemma validate_admitted:
  assumes "fst (jl_tokens jl data) = tokens_of t"
  shows "validateStandardJSON jl data = Inr () \<longleftrightarrow> snd (jl_tokens jl data) \<and> nesting t \<le> 16 \<and> unambiguous t"
proof (cases rule: scans_cases [OF tree_scans, of 0 t "[]"])
  case 1
  then show ?thesis using assms by (simp add: validateStandardJSON_def admitted_at_def)
next
  case (2 e)
  then show ?thesis using assms by (auto simp: validateStandardJSON_def admitted_at_def)
qed

definition kind_of :: "string \<Rightarrow> MessageType option" where
  "kind_of k = map_of [(''property'', PropertyReport), (''command-reply'', CommandReply), (''event'', EventReport), (''alarm'', AlarmReport), (''state'', StateChange)] k"

lemma place_data_cases:
  assumes "place_data kind data m = Inr m'"
  obtains (Property) "kind = ''property''" "m' = m\<lparr>sm_MessageType := PropertyReport, sm_Properties := data\<rparr>"
    | (Reply) "kind = ''command-reply''" "m' = m\<lparr>sm_MessageType := CommandReply, sm_Event := data\<rparr>"
        "reply_id data \<noteq> []" "length (reply_id data) \<le> 128" "reply_success data \<noteq> None"
    | (Event) "kind = ''event''" "m' = m\<lparr>sm_MessageType := EventReport, sm_Event := data\<rparr>"
    | (Alarm) "kind = ''alarm''" "m' = m\<lparr>sm_MessageType := AlarmReport, sm_Event := data\<rparr>"
    | (State) "kind = ''state''" "m' = m\<lparr>sm_MessageType := StateChange, sm_Properties := data\<rparr>" "known_connection data"
  using assms that unfolding place_data_def by (simp split: if_splits)

lemma merged_online:
  assumes "merge_body ''state'' body data = Inr data'" "sb_Online body = Some on"
  shows "gm_get data' ''connectionStatus'' = Some (VStr (connection_text on))"
  using assms by (auto simp: merge_body_def put_agreeing_def split: option.splits if_splits)

lemma ParseStandard_accepts:
  assumes "ParseStandard jl raw = Inr m"
  obtains body data m0 all where "validateStandardJSON jl (rm_Payload raw) = Inr ()" "jl_body jl (rm_Payload raw) = Some body"
    "0 < sb_Timestamp body" "sb_Timestamp body \<le> 253402300799999" "rm_ReceivedAt raw \<le> 0 \<or> sb_Timestamp body \<le> rm_ReceivedAt raw + 300000"
    "merge_body (message_kind raw) body (case sb_Data body of None \<Rightarrow> [] | Some d \<Rightarrow> d) = Inr data" "data \<noteq> []"
    "place_data (message_kind raw) data (std_message raw (sb_Timestamp body)) = Inr m0"
    "m = m0\<lparr>sm_Raw := all, sm_Tags := [(''protocolId'', rm_ProtocolID raw), (''protocolVersion'', rm_ProtocolVersion raw)]\<rparr>" "\<not> isl (MessageComponents m)"
  using assms unfolding ParseStandard_def by (auto split: option.splits simp: not_less)

text \<open>The data of an accepted message, by its kind.\<close>

definition std_data :: "StandardMessage \<Rightarrow> gval gomap" where
  "std_data m = (if sm_MessageType m = PropertyReport \<or> sm_MessageType m = StateChange then sm_Properties m else sm_Event m)"

definition data_ok :: "StandardMessage \<Rightarrow> bool" where
  "data_ok m \<longleftrightarrow> std_data m \<noteq> [] \<and> (sm_MessageType m = StateChange \<longrightarrow> known_connection (std_data m)) \<and>
     (sm_MessageType m = CommandReply \<longrightarrow> reply_id (std_data m) \<noteq> [] \<and> length (reply_id (std_data m)) \<le> 128 \<and> reply_success (std_data m) \<noteq> None)"

lemma placed_message:
  assumes "place_data kind data (std_message raw ts) = Inr m0" "data \<noteq> []"
  shows "kind_of kind = Some (sm_MessageType m0)" "std_data m0 = data" "data_ok m0" "sm_Timestamp m0 = ts"
    "sm_TenantID m0 = rm_TenantID raw" "sm_ProductID m0 = rm_ProductID raw" "sm_DeviceID m0 = rm_DeviceID raw" "sm_RawMessageID m0 = rm_MessageID raw"
proof -
  show "kind_of kind = Some (sm_MessageType m0)" by (cases rule: place_data_cases [OF assms(1)]) (simp_all add: kind_of_def)
  show d: "std_data m0 = data" by (cases rule: place_data_cases [OF assms(1)]) (simp_all add: std_data_def)
  show "data_ok m0" unfolding data_ok_def d by (cases rule: place_data_cases [OF assms(1)]) (simp_all add: assms(2))
  show "sm_Timestamp m0 = ts" "sm_TenantID m0 = rm_TenantID raw" "sm_ProductID m0 = rm_ProductID raw" "sm_DeviceID m0 = rm_DeviceID raw"
    "sm_RawMessageID m0 = rm_MessageID raw"
    by (cases rule: place_data_cases [OF assms(1)]; simp add: std_message_def)+
qed

lemma ParseStandard_checked:
  assumes "ParseStandard jl raw = Inr m"
  shows "sm_TenantID m = rm_TenantID raw" "sm_ProductID m = rm_ProductID raw" "sm_DeviceID m = rm_DeviceID raw" "sm_RawMessageID m = rm_MessageID raw"
    and "kind_of (message_kind raw) = Some (sm_MessageType m)" "data_ok m" "\<not> isl (MessageComponents m)"
    and "0 < sm_Timestamp m" "sm_Timestamp m \<le> 253402300799999" "0 < rm_ReceivedAt raw \<Longrightarrow> sm_Timestamp m \<le> rm_ReceivedAt raw + 300000"
    and "validateStandardJSON jl (rm_Payload raw) = Inr ()"
proof -
  obtain body data m0 all where a: "validateStandardJSON jl (rm_Payload raw) = Inr ()" "jl_body jl (rm_Payload raw) = Some body"
      "0 < sb_Timestamp body" "sb_Timestamp body \<le> 253402300799999" "rm_ReceivedAt raw \<le> 0 \<or> sb_Timestamp body \<le> rm_ReceivedAt raw + 300000"
      "merge_body (message_kind raw) body (case sb_Data body of None \<Rightarrow> [] | Some d \<Rightarrow> d) = Inr data" "data \<noteq> []"
      "place_data (message_kind raw) data (std_message raw (sb_Timestamp body)) = Inr m0"
      and m: "m = m0\<lparr>sm_Raw := all, sm_Tags := [(''protocolId'', rm_ProtocolID raw), (''protocolVersion'', rm_ProtocolVersion raw)]\<rparr>" "\<not> isl (MessageComponents m)"
    by (rule ParseStandard_accepts [OF assms])
  note p = placed_message [OF a(8,7)]
  show "sm_TenantID m = rm_TenantID raw" "sm_ProductID m = rm_ProductID raw" "sm_DeviceID m = rm_DeviceID raw" "sm_RawMessageID m = rm_MessageID raw"
    "kind_of (message_kind raw) = Some (sm_MessageType m)" using p by (simp_all add: m(1))
  have "std_data m = std_data m0" "sm_MessageType m = sm_MessageType m0" by (simp_all add: m(1) std_data_def)
  then show "data_ok m" using p(3) by (simp add: data_ok_def)
  show "0 < sm_Timestamp m" "sm_Timestamp m \<le> 253402300799999" "0 < rm_ReceivedAt raw \<Longrightarrow> sm_Timestamp m \<le> rm_ReceivedAt raw + 300000"
    using a(3-5) by (auto simp: m(1) p)
  show "\<not> isl (MessageComponents m)" "validateStandardJSON jl (rm_Payload raw) = Inr ()" by (fact m(2), fact a(1))
qed

definition StandardParser :: "jsonlib \<Rightarrow> Parser" where
  "StandardParser jl = \<lparr>pa_Name = ''iot_standard_parser'', pa_Version = ''1.0.0'', pa_Match = (\<lambda>m. mt_Protocol m = ''iot-standard''), pa_Parse = ParseStandard jl, pa_Config = None\<rparr>"

text \<open>The registry of the platform: the other parsers run only when a release names them.\<close>

definition NewPlatformRegistry :: "jsonlib \<Rightarrow> Parser list \<Rightarrow> Registry" where
  "NewPlatformRegistry jl named = (NewRegistry [StandardParser jl])\<lparr>rg_parsers := StandardParser jl # named\<rparr>"

lemma platform_parses_standard_only:
  "Parse (NewPlatformRegistry jl named) raw =
     (if rm_Protocol raw = ''iot-standard'' then parsed_by (StandardParser jl) (ParseStandard jl raw) else Inl ''no protocol binding'')"
  by (simp add: Parse_def NewPlatformRegistry_def NewRegistry_def StandardParser_def raw_meta_def)

end
