(* ===== verification/Poll_Parser.thy ===== *)
theory Poll_Parser
  imports Modbus_Points
begin

text \<open>
  The answers of polled devices (OPC UA, SNMP, BACnet, ONVIF): \<^verbatim>\<open>internal/parser/poll.go\<close>. The JSON decoders of the answer and of the read points are arguments;
  error texts are kept without their arguments. Whether the compiler fuses a product and a sum is an argument.
\<close>

record PollPoint =
  pp_Identifier :: string
  pp_Address :: string
  pp_Scale :: f64
  pp_Offset :: f64

record PollValue =
  pv_Address :: string
  pv_Value :: gval
  pv_Quality :: string
  pv_Timestamp :: int

record PollResponse =
  pr_Transport :: string
  pr_Values :: "PollValue list"
  pr_Response :: gval

record polllib =
  ql_response :: "string \<Rightarrow> PollResponse option"
  ql_value :: "PollResponse \<Rightarrow> gval"
  ql_points :: "gval option \<Rightarrow> PollPoint list option"
  ql_fused :: bool

fun check_poll_points :: "string list \<Rightarrow> string list \<Rightarrow> PollPoint list \<Rightarrow> bool" where
  "check_poll_points seen addresses [] = True"
| "check_poll_points seen addresses (p # ps) =
     (if trim_space (pp_Identifier p) = [] \<or> length (pp_Identifier p) > 128 \<or> trim_space (pp_Address p) = [] \<or> length (pp_Address p) > 512 \<or>
         pp_Identifier p \<in> set seen \<or> pp_Address p \<in> set addresses then False
      else check_poll_points (pp_Identifier p # seen) (pp_Address p # addresses) ps)"

definition PollPoints :: "polllib \<Rightarrow> gval gomap \<Rightarrow> string + PollPoint list" where
  "PollPoints ql config = (case ql_points ql (gm_get config ''reads'') of
     None \<Rightarrow> Inl ''json''
   | Some points \<Rightarrow>
       rbind (require (1 \<le> length points \<and> length points \<le> 64) ''read mapping requires 1 to 64 points'') (\<lambda>_.
       rbind (require (check_poll_points [] [] points) ''invalid or duplicate read point'') (\<lambda>_. Inr points)))"

text \<open>The value of a point: a number is scaled and has to stay finite.\<close>

definition scaled_value :: "bool \<Rightarrow> PollPoint \<Rightarrow> gval \<Rightarrow> gval option" where
  "scaled_value fused p v = (case v of
     VFloat x \<Rightarrow>
       (case f64_muladd fused x (if f64_eq (pp_Scale p) (FNum 0) then FNum 1 else pp_Scale p) (pp_Offset p) of FNum y \<Rightarrow> Some (VFloat (FNum y)) | _ \<Rightarrow> None)
   | _ \<Rightarrow> Some v)"

fun take_values :: "bool \<Rightarrow> PollPoint \<Rightarrow> bool \<Rightarrow> gval gomap \<Rightarrow> PollValue list \<Rightarrow> string + bool \<times> gval gomap" where
  "take_values fused p found props [] = Inr (found, props)"
| "take_values fused p found props (x # xs) =
     (if pv_Address x \<noteq> pp_Address p then take_values fused p found props xs
      else if found then Inl ''duplicate protocol response address''
      else if pv_Quality x \<noteq> ''GOOD'' then Inl ''quality''
      else case scaled_value fused p (pv_Value x) of
        None \<Rightarrow> Inl ''invalid numeric response''
      | Some v \<Rightarrow> take_values fused p True (gm_put (pp_Identifier p) v props) xs)"

fun read_points :: "bool \<Rightarrow> PollValue list \<Rightarrow> gval gomap \<Rightarrow> PollPoint list \<Rightarrow> string + gval gomap" where
  "read_points fused xs props [] = Inr props"
| "read_points fused xs props (p # ps) =
     rbind (take_values fused p False props xs) (\<lambda>r. if \<not> fst r then Inl ''missing from response'' else read_points fused xs (snd r) ps)"

definition poll_transport :: "string \<Rightarrow> bool" where
  "poll_transport t \<longleftrightarrow> t = ''OPC_UA'' \<or> t = ''SNMP'' \<or> t = ''BACNET'' \<or> t = ''ONVIF''"

definition ParsePollResponse :: "polllib \<Rightarrow> RawMessage \<Rightarrow> gval gomap \<Rightarrow> string + StandardMessage" where
  "ParsePollResponse ql raw config = (case ql_response ql (rm_Payload raw) of
     None \<Rightarrow> Inl ''json''
   | Some response \<Rightarrow>
       rbind (require (pr_Transport response = rm_Transport raw \<and> poll_transport (rm_Transport raw)) ''protocol response transport mismatch'') (\<lambda>_.
       rbind (PollPoints ql config) (\<lambda>points.
       rbind (read_points (ql_fused ql) (pr_Values response) [] points) (\<lambda>properties.
       Inr ((hex_message raw PropertyReport properties)\<lparr>sm_Tags := [(''protocolId'', rm_ProtocolID raw), (''protocolVersion'', rm_ProtocolVersion raw)],
         sm_Raw := [(''response'', ql_value ql response)]\<rparr>)))))"

definition PollResponseParser :: "polllib \<Rightarrow> Parser" where
  "PollResponseParser ql = \<lparr>pa_Name = ''protocol_read_response_v1'', pa_Version = ''1.0.0'', pa_Match = (\<lambda>_. False),
     pa_Parse = (\<lambda>_. Inl ''protocol read response requires versioned point mapping''), pa_Config = Some (ParsePollResponse ql)\<rparr>"

subsection \<open>What an answer has to hold\<close>

text \<open>A point has a value when exactly one entry has its address, and that entry is good.\<close>

definition value_for :: "bool \<Rightarrow> PollValue list \<Rightarrow> PollPoint \<Rightarrow> gval option" where
  "value_for fused xs p = (case filter (\<lambda>x. pv_Address x = pp_Address p) xs of
     [x] \<Rightarrow> if pv_Quality x = ''GOOD'' then scaled_value fused p (pv_Value x) else None
   | _ \<Rightarrow> None)"

lemma value_for_Some:
  "value_for fused xs p = Some v \<Longrightarrow>
     \<exists>x. filter (\<lambda>x. pv_Address x = pp_Address p) xs = [x] \<and> pv_Quality x = ''GOOD'' \<and> scaled_value fused p (pv_Value x) = Some v"
  by (auto simp: value_for_def split: list.splits if_splits)

lemma take_values_found:
  "take_values fused p True props xs = (if filter (\<lambda>x. pv_Address x = pp_Address p) xs = [] then Inr (True, props) else Inl ''duplicate protocol response address'')"
  by (induction xs) auto

lemma take_values_value:
  "take_values fused p False props xs = Inr (True, out) \<longleftrightarrow> (\<exists>v. value_for fused xs p = Some v \<and> out = gm_put (pp_Identifier p) v props)"
  by (induction xs) (auto simp: value_for_def take_values_found split: option.splits list.splits)

lemma read_points_values:
  "read_points fused xs props ps = Inr out \<longleftrightarrow>
     (\<forall>p \<in> set ps. value_for fused xs p \<noteq> None) \<and> out = fold (\<lambda>p. gm_put (pp_Identifier p) (the (value_for fused xs p))) ps props"
proof (induction ps arbitrary: props)
  case (Cons p ps)
  have "read_points fused xs props (p # ps) = Inr out \<longleftrightarrow>
      (\<exists>v. value_for fused xs p = Some v \<and> read_points fused xs (gm_put (pp_Identifier p) v props) ps = Inr out)"
  proof (cases "take_values fused p False props xs")
    case (Inl e)
    then show ?thesis using take_values_value [of fused p props xs] by auto
  next
    case (Inr r)
    have "value_for fused xs p = None" if "\<not> fst r"
    proof (rule ccontr)
      assume "value_for fused xs p \<noteq> None"
      then obtain v where "take_values fused p False props xs = Inr (True, gm_put (pp_Identifier p) v props)" by (auto simp: take_values_value)
      then show False using Inr that by simp
    qed
    moreover have "\<exists>v. value_for fused xs p = Some v \<and> snd r = gm_put (pp_Identifier p) v props" if "fst r"
      using Inr that take_values_value [of fused p props xs "snd r"] by (cases r) simp
    ultimately show ?thesis using Inr by (cases "fst r") force+
  qed
  then show ?case unfolding Cons(1) by (cases "value_for fused xs p") simp_all
qed auto

lemma fold_put_get:
  assumes "distinct (map f ps)" "p \<in> set ps"
  shows "gm_get (fold (\<lambda>p. gm_put (f p) (g p)) ps m) (f p) = Some (g p)"
  using assms
proof (induction ps arbitrary: m)
  case (Cons q ps)
  have keep: "f q \<notin> set (map f qs) \<Longrightarrow> gm_get (fold (\<lambda>p. gm_put (f p) (g p)) qs m') (f q) = gm_get m' (f q)" for qs m'
    by (induction qs arbitrary: m') auto
  show ?case using Cons keep [of ps] by (cases "p = q") auto
qed simp

lemma fold_put_other:
  "k \<notin> set (map f ps) \<Longrightarrow> gm_get (fold (\<lambda>p. gm_put (f p) (g p)) ps m) k = gm_get m k"
  by (induction ps arbitrary: m) auto

lemma check_poll_points_distinct:
  "check_poll_points seen addresses ps \<Longrightarrow>
     distinct (map pp_Identifier ps) \<and> distinct (map pp_Address ps) \<and> set (map pp_Identifier ps) \<inter> set seen = {} \<and> set (map pp_Address ps) \<inter> set addresses = {}"
proof (induction ps arbitrary: seen addresses)
  case (Cons p ps)
  have "check_poll_points (pp_Identifier p # seen) (pp_Address p # addresses) ps" "pp_Identifier p \<notin> set seen" "pp_Address p \<notin> set addresses"
    using Cons(2) by (simp_all split: if_splits)
  with Cons(1) [OF this(1)] show ?case by auto
qed simp

lemma ParsePollResponse_values:
  assumes "ParsePollResponse ql raw config = Inr m"
  obtains response points where "ql_response ql (rm_Payload raw) = Some response" "ql_points ql (gm_get config ''reads'') = Some points"
    "pr_Transport response = rm_Transport raw" "1 \<le> length points" "length points \<le> 64"
    "\<forall>p \<in> set points. \<exists>v. value_for (ql_fused ql) (pr_Values response) p = Some v \<and> gm_get (sm_Properties m) (pp_Identifier p) = Some v"
    "\<forall>k. k \<notin> pp_Identifier ` set points \<longrightarrow> gm_get (sm_Properties m) k = None"
proof -
  obtain response points where r: "ql_response ql (rm_Payload raw) = Some response" "ql_points ql (gm_get config ''reads'') = Some points"
      "pr_Transport response = rm_Transport raw" "1 \<le> length points" "length points \<le> 64" "check_poll_points [] [] points"
      and out: "read_points (ql_fused ql) (pr_Values response) [] points = Inr (sm_Properties m)"
    using assms by (auto simp: ParsePollResponse_def PollPoints_def hex_message_def split: option.splits)
  have d: "distinct (map pp_Identifier points)" using check_poll_points_distinct [OF r(6)] by blast
  show thesis
  proof (rule that [OF r(1-5)]; intro ballI allI impI)
    fix p assume p: "p \<in> set points"
    then show "\<exists>v. value_for (ql_fused ql) (pr_Values response) p = Some v \<and> gm_get (sm_Properties m) (pp_Identifier p) = Some v"
      using out fold_put_get [OF d p, of "\<lambda>p. the (value_for (ql_fused ql) (pr_Values response) p)" "[]"] by (auto simp: read_points_values)
  next
    fix k assume "k \<notin> pp_Identifier ` set points"
    then show "gm_get (sm_Properties m) k = None" using out by (simp add: read_points_values fold_put_other)
  qed
qed

end
