(* ===== verification/Parser_Samples.thy ===== *)
theory Parser_Samples
  imports Config_Parsers Standard_Parser Poll_Parser Ingest_Samples
begin

text \<open>Concrete payloads for the witnesses on the parsers of JSON texts.\<close>

definition sensor_body :: "gval gomap" where
  "sensor_body = [(''data'', VMap [(''readings'', VList [VFloat (FNum 7), VFloat (FNum 21)])])]"

definition sensor_text :: textlib where
  "sensor_text = \<lparr>tx_json = (\<lambda>_. Some (VMap sensor_body)), tx_rfc3339 = (\<lambda>_. None), tx_float = (\<lambda>_. FNum 0)\<rparr>"

definition sensor_path :: "path_step list" where
  "sensor_path = [Member ''data'', Member ''readings'', Element 1]"

definition sensor_config :: "gval gomap" where
  "sensor_config = [(''properties'', VMap [(''temperature'', VStr (''$'' @ render_path sensor_path))])]"

definition sensor_raw :: RawMessage where
  "sensor_raw = zero_RawMessage\<lparr>rm_MessageID := ''raw_1'', rm_TenantID := ''t'', rm_DeviceID := ''d'', rm_Transport := ''SNMP'', rm_Headers := [(''messageKind'', ''state'')]\<rparr>"

definition state_tree :: jtree where
  "state_tree = Branch [(''id'', LeafText ''1''), (''timestamp'', Leaf (VFloat (FNum 900))), (''online'', Leaf (VBool True))]"

definition state_json :: jsonlib where
  "state_json = \<lparr>jl_tokens = (\<lambda>_. (tokens_of state_tree, True)),
     jl_body = (\<lambda>_. Some \<lparr>sb_Version = [], sb_Event = [], sb_Online = Some True, sb_CommandID = [], sb_Success = None, sb_ID = ''1'', sb_Timestamp = 900, sb_Data = None\<rparr>),
     jl_map = (\<lambda>_. Some [])\<rparr>"

definition snmp_lib :: polllib where
  "snmp_lib = \<lparr>ql_response = (\<lambda>_. Some \<lparr>pr_Transport = ''SNMP'', pr_Values = [\<lparr>pv_Address = ''1.3'', pv_Value = VStr ''up'', pv_Quality = ''GOOD'', pv_Timestamp = 0\<rparr>], pr_Response = VNil\<rparr>),
     ql_value = (\<lambda>_. VNil), ql_points = (\<lambda>_. Some [\<lparr>pp_Identifier = ''link'', pp_Address = ''1.3'', pp_Scale = FNum 0, pp_Offset = FNum 0\<rparr>]), ql_fused = False\<rparr>"

lemma sensor_parsed: "\<not> isl (ParseConfigurableJSON sample_lib sensor_text sensor_raw sensor_config)"
  by code_simp

lemma state_valid: "validateStandardJSON state_json data = Inr ()"
proof -
  have "fst (jl_tokens state_json data) = tokens_of state_tree" by (simp add: state_json_def)
  from validate_admitted [OF this] show ?thesis by (simp add: state_json_def state_tree_def)
qed

lemma state_merged: "merge_body ''state'' (the (jl_body state_json [])) [] = Inr [(''connectionStatus'', VStr ''CONNECTED'')]"
  by code_simp

lemma state_kind: "message_kind sensor_raw = ''state''" "known_connection [(''connectionStatus'', VStr ''CONNECTED'')]"
  by code_simp+

lemma state_parsed: "\<not> isl (ParseStandard state_json sensor_raw)"
  using state_merged state_kind
  by (simp add: ParseStandard_def state_valid place_data_def require_def MessageComponents_def std_message_def)
     (simp add: state_json_def sensor_raw_def zero_RawMessage_def)

lemma snmp_parsed: "\<not> isl (ParsePollResponse snmp_lib sensor_raw [])"
  by code_simp

end
