(* ===== verification/Repo_Queries.thy ===== *)
theory Repo_Queries
  imports Memory_Repo
begin

text \<open>
  The queries of the in-memory repository that the API and its device scope use, beside those of the engine: \<^verbatim>\<open>internal/adapters/memory\<close>
  (\<^verbatim>\<open>repository.go\<close>, \<^verbatim>\<open>batch.go\<close>, \<^verbatim>\<open>protocol_children.go\<close>, \<^verbatim>\<open>overview.go\<close>, \<^verbatim>\<open>raw_filter.go\<close>). A slice that may be nil is an option.
\<close>

subsection \<open>Devices\<close>

definition ListManagedDevicesPage :: "string \<Rightarrow> int \<Rightarrow> int \<Rightarrow> repo \<Rightarrow> ManagedDevice list \<times> nat" where
  "ListManagedDevicesPage tenant limit offset r =
     (let items = ListManagedDevices tenant r in
      (page items (snd (normalizePage limit offset)) (fst (normalizePage limit offset)), length items))"

definition wanted :: "string list option \<Rightarrow> string \<Rightarrow> bool" where
  "wanted ids x \<longleftrightarrow> (case ids of None \<Rightarrow> True | Some l \<Rightarrow> x \<in> set l)"

definition listChildren :: "string \<Rightarrow> string \<Rightarrow> string list option \<Rightarrow> int \<Rightarrow> int \<Rightarrow> repo \<Rightarrow> ManagedDevice list \<times> nat" where
  "listChildren tenant parent allowed limit offset r =
     (let items = sort_key md_ID (filter (\<lambda>d. md_TenantID d = tenant \<and> md_GatewayID d = parent \<and> wanted allowed (md_ID d)) (gm_vals (rp_devices r)));
          total = length items;
          offset = nat (max 0 (min offset (int total)));
          limit = nat (max 1 (min limit 100))
      in (slice items offset (min total (offset + limit)), total))"

definition ListManagedDeviceChildren :: "string \<Rightarrow> string \<Rightarrow> int \<Rightarrow> int \<Rightarrow> repo \<Rightarrow> ManagedDevice list \<times> nat" where
  "ListManagedDeviceChildren tenant parent limit offset r = listChildren tenant parent None limit offset r"

definition ListManagedDeviceChildrenForDevices :: "string \<Rightarrow> string \<Rightarrow> string list \<Rightarrow> int \<Rightarrow> int \<Rightarrow> repo \<Rightarrow> ManagedDevice list \<times> nat" where
  "ListManagedDeviceChildrenForDevices tenant parent ids limit offset r = listChildren tenant parent (Some ids) limit offset r"

definition bump :: "string \<Rightarrow> nat gomap \<Rightarrow> nat gomap" where
  "bump k m = gm_put k (Suc (case gm_get m k of None \<Rightarrow> 0 | Some n \<Rightarrow> n)) m"

definition CountManagedDeviceChildrenForDevices :: "string \<Rightarrow> string list \<Rightarrow> string list option \<Rightarrow> repo \<Rightarrow> nat gomap" where
  "CountManagedDeviceChildrenForDevices tenant ids children r =
     (if ids = [] then []
      else fold (\<lambda>d m. if md_TenantID d = tenant \<and> md_GatewayID d \<noteq> [] \<and> wanted children (md_ID d) \<and> md_GatewayID d \<in> set ids
         then bump (md_GatewayID d) m else m) (gm_vals (rp_devices r)) [])"

definition CountManagedDeviceChildren :: "string \<Rightarrow> string list \<Rightarrow> repo \<Rightarrow> nat gomap" where
  "CountManagedDeviceChildren tenant ids r = CountManagedDeviceChildrenForDevices tenant ids None r"

subsection \<open>Device states\<close>

text \<open>The copies are JSON round trips, which leave the version out.\<close>

definition GetDeviceStatesByIDs :: "string \<Rightarrow> string list \<Rightarrow> repo \<Rightarrow> DeviceState gomap" where
  "GetDeviceStatesByIDs tenant ids r =
     fold (\<lambda>i m. case gm_get (rp_states r) (key [tenant, i]) of None \<Rightarrow> m | Some v \<Rightarrow> gm_put i (v\<lparr>ds_Version := 0\<rparr>) m) ids []"

definition ListDeviceStatesPage :: "string \<Rightarrow> int \<Rightarrow> int \<Rightarrow> repo \<Rightarrow> DeviceState list \<times> nat" where
  "ListDeviceStatesPage tenant limit offset r =
     (let items = sort_key (\<lambda>v. - ds_LastSeenAt v) (ListDeviceStates tenant r) in (page items offset limit, length items))"

definition registered_ids :: "string \<Rightarrow> repo \<Rightarrow> string list" where
  "registered_ids tenant r = map md_ID (filter (\<lambda>d. md_TenantID d = tenant) (gm_vals (rp_devices r)))"

definition ListUnregisteredDeviceStatesPage :: "string \<Rightarrow> int \<Rightarrow> int \<Rightarrow> repo \<Rightarrow> DeviceState list \<times> nat" where
  "ListUnregisteredDeviceStatesPage tenant limit offset r =
     (let items = sort_key (\<lambda>v. - ds_LastSeenAt v) (filter (\<lambda>v. ds_DeviceID v \<notin> set (registered_ids tenant r)) (ListDeviceStates tenant r))
      in (page items offset limit, length items))"

definition is_online :: "DeviceState \<Rightarrow> bool" where
  "is_online s \<longleftrightarrow> ds_BusinessStatus s = ''ONLINE'' \<or> ds_BusinessStatus s = ''ALARM''"

definition CountDeviceStates :: "string \<Rightarrow> bool \<Rightarrow> repo \<Rightarrow> nat \<times> nat" where
  "CountDeviceStates tenant unregisteredOnly r =
     (let items = filter (\<lambda>s. ds_TenantID s = tenant \<and> \<not> (unregisteredOnly \<and> ds_DeviceID s \<in> set (registered_ids tenant r))) (gm_vals (rp_states r))
      in (length items, length (filter is_online items)))"

text \<open>In the order of the map: this listing is not sorted.\<close>

definition ListDeviceStatesForDevicesPage :: "string \<Rightarrow> string list option \<Rightarrow> int \<Rightarrow> int \<Rightarrow> repo \<Rightarrow> DeviceState list \<times> nat" where
  "ListDeviceStatesForDevicesPage tenant ids limit offset r =
     (let items = filter (\<lambda>v. wanted ids (ds_DeviceID v)) (ListDeviceStates tenant r) in (page items offset limit, length items))"

record DeviceOverview =
  do_Total :: nat
  do_ByStatus :: "nat gomap"
  do_ByRole :: "nat gomap"
  do_AutoRegistered :: nat
  do_Reported :: nat
  do_DiscoveredUnregistered :: nat
  do_ConnectionStatus :: "nat gomap"
  do_DataStatus :: "nat gomap"
  do_BusinessStatus :: "nat gomap"
  do_LatestSeenAt :: int

definition NewDeviceOverview :: DeviceOverview where
  "NewDeviceOverview = \<lparr>do_Total = 0, do_ByStatus = [], do_ByRole = [], do_AutoRegistered = 0, do_Reported = 0, do_DiscoveredUnregistered = 0,
     do_ConnectionStatus = [], do_DataStatus = [], do_BusinessStatus = [], do_LatestSeenAt = 0\<rparr>"

definition OverviewKey :: "string \<Rightarrow> string" where
  "OverviewKey v = (if trim_space v = [] then ''UNKNOWN'' else trim_space v)"

definition overview_device :: "ManagedDevice \<Rightarrow> DeviceOverview \<Rightarrow> DeviceOverview" where
  "overview_device d out = out\<lparr>do_Total := Suc (do_Total out), do_ByStatus := bump (OverviewKey (md_Status d)) (do_ByStatus out),
     do_ByRole := bump (OverviewKey (md_DeviceRole d)) (do_ByRole out),
     do_AutoRegistered := (if md_AutoRegistered d then Suc (do_AutoRegistered out) else do_AutoRegistered out)\<rparr>"

definition overview_state :: "string list \<Rightarrow> DeviceState \<Rightarrow> DeviceOverview \<Rightarrow> DeviceOverview" where
  "overview_state registered s out =
     (if ds_DeviceID s \<notin> set registered then out\<lparr>do_DiscoveredUnregistered := Suc (do_DiscoveredUnregistered out)\<rparr>
      else out\<lparr>do_Reported := Suc (do_Reported out), do_ConnectionStatus := bump (OverviewKey (ds_ConnectionStatus s)) (do_ConnectionStatus out),
        do_DataStatus := bump (OverviewKey (ds_DataStatus s)) (do_DataStatus out),
        do_BusinessStatus := bump (OverviewKey (ds_BusinessStatus s)) (do_BusinessStatus out),
        do_LatestSeenAt := max (do_LatestSeenAt out) (ds_LastSeenAt s)\<rparr>)"

definition DeviceOverviewCounts :: "string \<Rightarrow> bool \<Rightarrow> string list \<Rightarrow> repo \<Rightarrow> DeviceOverview" where
  "DeviceOverviewCounts tenant restrict ids r =
     (let allowed = (\<lambda>i. \<not> restrict \<or> i \<in> set ids);
          devices = filter (\<lambda>d. md_TenantID d = tenant \<and> allowed (md_ID d)) (gm_vals (rp_devices r));
          states = filter (\<lambda>s. ds_TenantID s = tenant \<and> allowed (ds_DeviceID s)) (gm_vals (rp_states r))
      in fold (overview_state (map md_ID devices)) states (fold overview_device devices NewDeviceOverview))"

subsection \<open>Messages\<close>

record RawCursor =
  rc_ReceivedAt :: int
  rc_MessageID :: string

record RawFilter =
  rf_TenantID :: string
  rf_ProductID :: string
  rf_DeviceID :: string
  rf_MessageID :: string
  rf_Protocol :: string
  rf_PayloadFormat :: string
  rf_ParseStatus :: string
  rf_MessageType :: string
  rf_Parser :: string
  rf_Start :: int
  rf_End :: int
  rf_Limit :: int
  rf_Offset :: int
  rf_DeviceIDs :: "string list option"
  rf_CountLimit :: int
  rf_After :: "RawCursor option"

text \<open>The latest standard message of every raw message, as far as the filter needs it.\<close>

definition later_message :: "StandardMessage \<Rightarrow> StandardMessage \<Rightarrow> bool" where
  "later_message m p \<longleftrightarrow> sm_Timestamp m > sm_Timestamp p \<or> sm_Timestamp m = sm_Timestamp p \<and> sm_MessageID m > sm_MessageID p"

definition rawFilterStandards :: "RawFilter \<Rightarrow> repo \<Rightarrow> StandardMessage gomap" where
  "rawFilterStandards f r =
     (if rf_ParseStatus f = [] \<and> rf_MessageType f = [] \<and> rf_Parser f = [] then []
      else fold (\<lambda>m out. if rf_TenantID f \<noteq> [] \<and> sm_TenantID m \<noteq> rf_TenantID f then out
        else let k = key [sm_TenantID m, sm_RawMessageID m] in
          if (case gm_get out k of None \<Rightarrow> True | Some p \<Rightarrow> later_message m p) then gm_put k m out else out) (gm_vals (rp_standard r)) [])"

definition parse_status :: "RawArchiveIndex \<Rightarrow> StandardMessage option \<Rightarrow> string" where
  "parse_status v m = (if (case m of None \<Rightarrow> False | Some m \<Rightarrow> sm_MessageID m \<noteq> []) then ''PARSED'' else if ri_ParseError v \<noteq> [] then ''FAILED'' else ''UNPARSED'')"

definition matchesRawFilter :: "RawArchiveIndex \<Rightarrow> StandardMessage option \<Rightarrow> RawFilter \<Rightarrow> bool" where
  "matchesRawFilter v m f \<longleftrightarrow>
     \<not> (rf_TenantID f \<noteq> [] \<and> ri_TenantID v \<noteq> rf_TenantID f \<or> rf_ProductID f \<noteq> [] \<and> ri_ProductID v \<noteq> rf_ProductID f \<or>
        rf_DeviceID f \<noteq> [] \<and> ri_DeviceID v \<noteq> rf_DeviceID f \<or> rf_MessageID f \<noteq> [] \<and> ri_MessageID v \<noteq> rf_MessageID f \<or>
        rf_Start f > 0 \<and> ri_ReceivedAt v < rf_Start f \<or> rf_End f > 0 \<and> ri_ReceivedAt v > rf_End f) \<and>
     wanted (rf_DeviceIDs f) (ri_DeviceID v) \<and>
     \<not> (rf_Protocol f \<noteq> [] \<and> \<not> equal_fold (ri_Protocol v) (rf_Protocol f) \<or> rf_PayloadFormat f \<noteq> [] \<and> \<not> equal_fold (ri_PayloadFormat v) (rf_PayloadFormat f)) \<and>
     (rf_ParseStatus f = [] \<or> rf_ParseStatus f = parse_status v m) \<and>
     (rf_MessageType f = [] \<or> rf_MessageType f = (case m of None \<Rightarrow> [] | Some m \<Rightarrow> MessageType_text (sm_MessageType m))) \<and>
     (rf_Parser f = [] \<or> rf_Parser f = (case m of None \<Rightarrow> [] | Some m \<Rightarrow> sm_Parser m))"

definition matching_raw :: "RawFilter \<Rightarrow> repo \<Rightarrow> RawArchiveIndex list" where
  "matching_raw f r = (let standards = rawFilterStandards f r in
     filter (\<lambda>v. matchesRawFilter v (gm_get standards (key [ri_TenantID v, ri_MessageID v])) f) (gm_vals (rp_raw r)))"

definition before_cursor :: "RawCursor \<Rightarrow> RawArchiveIndex \<Rightarrow> bool" where
  "before_cursor a v \<longleftrightarrow> ri_ReceivedAt v < rc_ReceivedAt a \<or> ri_ReceivedAt v = rc_ReceivedAt a \<and> ri_MessageID v < rc_MessageID a"

text \<open>Newest first; \<^verbatim>\<open>sort.Search\<close> on the sorted rows is the first row behind the cursor.\<close>

definition ListRawIndexes :: "RawFilter \<Rightarrow> repo \<Rightarrow> RawArchiveIndex list" where
  "ListRawIndexes f r =
     (let out = rev (sort_key (\<lambda>v. (ri_ReceivedAt v, ri_MessageID v)) (matching_raw f r)) in
      case rf_After f of
        Some a \<Rightarrow> page (dropWhile (\<lambda>v. \<not> before_cursor a v) out) 0 (rf_Limit f)
      | None \<Rightarrow> page out (rf_Offset f) (rf_Limit f))"

definition CountRawIndexes :: "RawFilter \<Rightarrow> repo \<Rightarrow> int" where
  "CountRawIndexes f r = (let n = int (length (matching_raw f r)) in if rf_CountLimit f > 0 then min n (rf_CountLimit f) else n)"

record history_item =
  hi_timestamp :: int
  hi_value :: gval
  hi_messageId :: string

definition PropertyHistory :: "string \<Rightarrow> string \<Rightarrow> string \<Rightarrow> int \<Rightarrow> int \<Rightarrow> int \<Rightarrow> repo \<Rightarrow> history_item list" where
  "PropertyHistory tenant device property start stop limit r =
     (let out = sort_key hi_timestamp (List.map_filter (\<lambda>v.
            if sm_TenantID v \<noteq> tenant \<or> sm_DeviceID v \<noteq> device \<or> sm_Timestamp v < start \<or> (stop > 0 \<and> sm_Timestamp v > stop) then None
            else map_option (\<lambda>x. \<lparr>hi_timestamp = sm_Timestamp v, hi_value = x, hi_messageId = sm_MessageID v\<rparr>) (gm_get (sm_Properties v) property))
          (gm_vals (rp_standard r)))
      in if limit > 0 \<and> int (length out) > limit then drop (length out - nat limit) out else out)"

definition PropertyHistoryPage :: "string \<Rightarrow> string \<Rightarrow> string \<Rightarrow> int \<Rightarrow> int \<Rightarrow> int \<Rightarrow> int \<Rightarrow> repo \<Rightarrow> history_item list \<times> nat" where
  "PropertyHistoryPage tenant device property start stop limit offset r =
     (let items = PropertyHistory tenant device property start stop 0 r; total = length items;
          limit = (if limit \<le> 0 then 20 else limit); offset = (if offset < 0 then 0 else offset); endIndex = int total - offset in
      if endIndex \<le> 0 then ([], total) else (slice items (nat (max 0 (endIndex - limit))) (nat endIndex), total))"

text \<open>The callback of \<^verbatim>\<open>EachAlarm\<close> sees these alarms in this order.\<close>

definition each_alarm :: "AlarmFilter \<Rightarrow> repo \<Rightarrow> Alarm list" where
  "each_alarm f r = ListAlarms (f\<lparr>af_Limit := 2147483647, af_Offset := 0\<rparr>) r"

record AlarmOverview =
  ao_Total :: nat
  ao_Active :: nat
  ao_HighRiskActive :: nat
  ao_Recent :: nat
  ao_ByStatus :: "nat gomap"
  ao_ByLevel :: "nat gomap"
  ao_BySource :: "nat gomap"

definition NewAlarmOverview :: AlarmOverview where
  "NewAlarmOverview = \<lparr>ao_Total = 0, ao_Active = 0, ao_HighRiskActive = 0, ao_Recent = 0, ao_ByStatus = [], ao_ByLevel = [], ao_BySource = []\<rparr>"

definition HighRiskAlarmLevels :: "string list" where
  "HighRiskAlarmLevels = [''HIGH'', ''CRITICAL'', ''EMERGENCY'']"

definition AddAlarm :: "int \<Rightarrow> Alarm \<Rightarrow> AlarmOverview \<Rightarrow> AlarmOverview" where
  "AddAlarm start a out =
     out\<lparr>ao_Total := Suc (ao_Total out), ao_ByStatus := bump (OverviewKey (al_Status a)) (ao_ByStatus out),
       ao_ByLevel := bump (OverviewKey (al_AlarmLevel a)) (ao_ByLevel out), ao_BySource := bump (OverviewKey (al_Source a)) (ao_BySource out),
       ao_Active := (if al_Status a = ''ACTIVE'' then Suc (ao_Active out) else ao_Active out),
       ao_HighRiskActive := (if al_Status a = ''ACTIVE'' then ao_HighRiskActive out + length (filter (\<lambda>l. al_AlarmLevel a = l) HighRiskAlarmLevels) else ao_HighRiskActive out),
       ao_Recent := (if al_LastTriggeredAt a \<ge> start then Suc (ao_Recent out) else ao_Recent out)\<rparr>"

definition AlarmOverviewCounts :: "AlarmFilter \<Rightarrow> int \<Rightarrow> repo \<Rightarrow> AlarmOverview" where
  "AlarmOverviewCounts f start r = fold (AddAlarm start) (filter (\<lambda>a. matchesAlarmFilter a f) (gm_vals (rp_alarms r))) NewAlarmOverview"

end
