(* ===== verification/Device_Scope.thy ===== *)
theory Device_Scope
  imports Repo_Queries Device_State
begin

text \<open>
  The device scope of a request, \<^verbatim>\<open>internal/devicescope\<close>: which devices a user is granted (\<^verbatim>\<open>scope.go\<close>, with \<^verbatim>\<open>sites.DeviceUnits\<close>), and the
  repository that applies the grant to every query and change (\<^verbatim>\<open>repository.go\<close>). The request context is the scope it carries, if any.
\<close>

subsection \<open>Grants\<close>

record SiteRecord =
  sr_ID :: string
  sr_Version :: int
  sr_CreatedAt :: int
  sr_UpdatedAt :: int
  sr_UpdatedBy :: string

record SitePoint =
  st_SiteRecord :: SiteRecord
  st_UnitID :: string
  st_BuildingID :: string
  st_FloorID :: string
  st_DeviceID :: string
  st_ComponentID :: string
  st_Name :: string
  st_X :: "f64 option"
  st_Y :: "f64 option"

definition DeviceUnits :: "SitePoint list \<Rightarrow> string gomap" where
  "DeviceUnits points = fold (\<lambda>p m. if st_ComponentID p = [] then gm_put (st_DeviceID p) (st_UnitID p) m else m) points []"

record UnitIndex =
  ui_unitOf :: "string gomap"
  ui_devices :: "string list gomap"

definition append_device :: "string \<times> string \<Rightarrow> string list gomap \<Rightarrow> string list gomap" where
  "append_device e m = gm_put (snd e) ((case gm_get m (snd e) of None \<Rightarrow> [] | Some l \<Rightarrow> l) @ [fst e]) m"

definition NewUnitIndex :: "SitePoint list \<Rightarrow> UnitIndex" where
  "NewUnitIndex points = (let units = DeviceUnits points in
     \<lparr>ui_unitOf = units, ui_devices = map (\<lambda>(u, l). (u, sort l)) (fold append_device units [])\<rparr>)"

record Scope =
  so_Tenant :: string
  so_All :: bool
  so_IDs :: "bool gomap"
  so_Units :: "bool gomap"
  so_Sites :: "UnitIndex option"

definition flag :: "bool gomap \<Rightarrow> string \<Rightarrow> bool" where
  "flag m k \<longleftrightarrow> (case gm_get m k of None \<Rightarrow> False | Some b \<Rightarrow> b)"

definition Has :: "Scope \<Rightarrow> string \<Rightarrow> bool" where
  "Has v i \<longleftrightarrow> so_All v \<or> flag (so_IDs v) i \<or>
     (case so_Sites v of
        None \<Rightarrow> False
      | Some x \<Rightarrow> so_Units v \<noteq> [] \<and> (case gm_get (ui_unitOf x) i of None \<Rightarrow> False | Some u \<Rightarrow> flag (so_Units v) u))"

definition unit_devices :: "UnitIndex \<Rightarrow> string \<Rightarrow> string list" where
  "unit_devices x u = (case gm_get (ui_devices x) u of None \<Rightarrow> [] | Some l \<Rightarrow> l)"

definition Scope_DeviceIDs :: "Scope \<Rightarrow> string list" where
  "Scope_DeviceIDs v = remdups_adj (sort (map fst (filter snd (so_IDs v)) @
     (case so_Sites v of None \<Rightarrow> [] | Some x \<Rightarrow> concat (map (\<lambda>e. unit_devices x (fst e)) (so_Units v)))))"

type_synonym ctx = "Scope option"

definition Allowed :: "ctx \<Rightarrow> string \<Rightarrow> string \<Rightarrow> bool" where
  "Allowed ctx tenant i \<longleftrightarrow> (case ctx of None \<Rightarrow> True | Some v \<Rightarrow> tenant = so_Tenant v \<and> Has v i)"

definition Limited :: "ctx \<Rightarrow> bool" where
  "Limited ctx \<longleftrightarrow> (case ctx of None \<Rightarrow> False | Some v \<Rightarrow> \<not> so_All v)"

definition GrantedIDs :: "ctx \<Rightarrow> string \<Rightarrow> string list" where
  "GrantedIDs ctx t = (case ctx of None \<Rightarrow> [] | Some v \<Rightarrow> if so_Tenant v \<noteq> t then [] else Scope_DeviceIDs v)"

definition ErrDenied :: err where
  "ErrDenied = ErrText ''denied''"

definition scopedIDs :: "ctx \<Rightarrow> string \<Rightarrow> string list \<Rightarrow> string list" where
  "scopedIDs ctx tenant ids = filter (Allowed ctx tenant) ids"

subsection \<open>Devices\<close>

text \<open>The gateway of a device is shown only if it is granted too.\<close>

definition hide_gateway :: "ctx \<Rightarrow> string \<Rightarrow> ManagedDevice \<Rightarrow> ManagedDevice" where
  "hide_gateway ctx t d = (if Allowed ctx t (md_GatewayID d) then d else d\<lparr>md_GatewayID := []\<rparr>)"

definition ListManagedDevicesFiltered_scoped :: "ctx \<Rightarrow> DeviceFilter \<Rightarrow> int \<Rightarrow> int \<Rightarrow> repo \<Rightarrow> ManagedDevice list \<times> nat" where
  "ListManagedDevicesFiltered_scoped ctx f l off r =
     (if \<not> Limited ctx then ListManagedDevicesFiltered f l off r
      else let f = f\<lparr>df_RestrictDevices := True, df_DeviceIDs := GrantedIDs ctx (df_TenantID f)\<rparr>;
               res = ListManagedDevicesFiltered f l off r
           in (map (hide_gateway ctx (df_TenantID f)) (fst res), snd res))"

definition zero_DeviceFilter :: DeviceFilter where
  "zero_DeviceFilter = \<lparr>df_TenantID = [], df_Role = [], df_RestrictProducts = False, df_ProductIDs = [], df_RestrictDevices = False, df_DeviceIDs = [],
     df_Query = [], df_Status = [], df_Runtime = []\<rparr>"

lemma filtered_page_short: "length (fst (ListManagedDevicesFiltered f l off r)) \<le> 100"
proof -
  have "0 < min (if l \<le> 0 then 20 else l) 100" by simp
  from length_page [OF this] have "int (length (page xs o' (min (if l \<le> 0 then 20 else l) 100))) \<le> 100" for xs :: "ManagedDevice list" and o'
    by (meson min.cobounded2 order_trans)
  then show ?thesis by (simp add: ListManagedDevicesFiltered_def normalizePage_def Let_def)
qed

lemma scoped_page_short: "Limited ctx \<Longrightarrow> length (fst (ListManagedDevicesFiltered_scoped ctx f l off r)) \<le> 100"
  by (simp add: ListManagedDevicesFiltered_scoped_def Let_def filtered_page_short)

text \<open>The loop over pages of 500: \<^verbatim>\<open>listPage\<close>. The store gives at most 100 rows, so the first page is taken for the last one.
Without a limit the loop is not entered.\<close>

function granted_pages :: "ctx \<Rightarrow> string \<Rightarrow> int \<Rightarrow> repo \<Rightarrow> ManagedDevice list" where
  "granted_pages ctx t off r =
     (if \<not> Limited ctx then []
      else let rows = fst (ListManagedDevicesFiltered_scoped ctx (zero_DeviceFilter\<lparr>df_TenantID := t\<rparr>) 500 off r)
           in if length rows < 500 then rows else rows @ granted_pages ctx t (off + 500) r)"
  by pat_completeness auto

termination granted_pages
proof (relation "{}", goal_cases)
  case (2 ctx t off r rows)
  then have "length rows \<le> 100" by (simp add: scoped_page_short)
  then show ?case using 2 by simp
qed simp

declare granted_pages.simps [simp del]

definition ListManagedDevices_scoped :: "ctx \<Rightarrow> string \<Rightarrow> repo \<Rightarrow> ManagedDevice list" where
  "ListManagedDevices_scoped ctx t r = (if \<not> Limited ctx then ListManagedDevices t r else granted_pages ctx t 0 r)"

definition ListManagedDevicesPage_scoped :: "ctx \<Rightarrow> string \<Rightarrow> int \<Rightarrow> int \<Rightarrow> repo \<Rightarrow> ManagedDevice list \<times> nat" where
  "ListManagedDevicesPage_scoped ctx t l off r =
     (if \<not> Limited ctx then ListManagedDevicesPage t l off r else ListManagedDevicesFiltered_scoped ctx (zero_DeviceFilter\<lparr>df_TenantID := t\<rparr>) l off r)"

definition ListManagedDeviceChildrenForDevices_scoped :: "ctx \<Rightarrow> string \<Rightarrow> string \<Rightarrow> string list \<Rightarrow> int \<Rightarrow> int \<Rightarrow> repo \<Rightarrow> err + ManagedDevice list \<times> nat" where
  "ListManagedDeviceChildrenForDevices_scoped ctx t i ids l off r =
     (if \<not> Allowed ctx t i then Inl ErrDenied
      else Inr (ListManagedDeviceChildrenForDevices t i (if Limited ctx then scopedIDs ctx t ids else ids) l off r))"

definition ListManagedDeviceChildren_scoped :: "ctx \<Rightarrow> string \<Rightarrow> string \<Rightarrow> int \<Rightarrow> int \<Rightarrow> repo \<Rightarrow> err + ManagedDevice list \<times> nat" where
  "ListManagedDeviceChildren_scoped ctx t i l off r =
     (if \<not> Allowed ctx t i then Inl ErrDenied
      else if \<not> Limited ctx then Inr (ListManagedDeviceChildren t i l off r)
      else Inr (ListManagedDeviceChildrenForDevices t i (GrantedIDs ctx t) l off r))"

definition CountManagedDeviceChildren_scoped :: "ctx \<Rightarrow> string \<Rightarrow> string list \<Rightarrow> repo \<Rightarrow> nat gomap" where
  "CountManagedDeviceChildren_scoped ctx t ids r =
     (if \<not> Limited ctx then CountManagedDeviceChildren t ids r
      else CountManagedDeviceChildrenForDevices t (scopedIDs ctx t ids) (Some (GrantedIDs ctx t)) r)"

definition scoped_option :: "ctx \<Rightarrow> string \<Rightarrow> string list option \<Rightarrow> string list option" where
  "scoped_option ctx t ids = (if Limited ctx then Some (case ids of None \<Rightarrow> GrantedIDs ctx t | Some l \<Rightarrow> scopedIDs ctx t l) else ids)"

definition CountManagedDeviceChildrenForDevices_scoped :: "ctx \<Rightarrow> string \<Rightarrow> string list \<Rightarrow> string list option \<Rightarrow> repo \<Rightarrow> nat gomap" where
  "CountManagedDeviceChildrenForDevices_scoped ctx t parents children r =
     CountManagedDeviceChildrenForDevices t (scopedIDs ctx t parents) (scoped_option ctx t children) r"

text \<open>A single row is read first and then checked.\<close>

definition checked :: "ctx \<Rightarrow> string \<Rightarrow> ('v \<Rightarrow> string) \<Rightarrow> err + 'v \<Rightarrow> err + 'v" where
  "checked ctx t device res = (case res of Inl e \<Rightarrow> Inl e | Inr v \<Rightarrow> if \<not> Allowed ctx t (device v) then Inl ErrDenied else Inr v)"

definition GetManagedDevice_scoped :: "ctx \<Rightarrow> string \<Rightarrow> string \<Rightarrow> repo \<Rightarrow> err + ManagedDevice" where
  "GetManagedDevice_scoped ctx t i r = checked ctx t md_ID (GetManagedDevice t i r)"

subsection \<open>States\<close>

definition GetDeviceStatesByIDs_scoped :: "ctx \<Rightarrow> string \<Rightarrow> string list \<Rightarrow> repo \<Rightarrow> DeviceState gomap" where
  "GetDeviceStatesByIDs_scoped ctx t ids r = GetDeviceStatesByIDs t (scopedIDs ctx t ids) r"

definition ListDeviceStates_scoped :: "ctx \<Rightarrow> string \<Rightarrow> repo \<Rightarrow> DeviceState list" where
  "ListDeviceStates_scoped ctx t r =
     (if \<not> Limited ctx then ListDeviceStates t r
      else sort_key (\<lambda>v. (- ds_LastSeenAt v, ds_DeviceID v)) (gm_vals (GetDeviceStatesByIDs t (GrantedIDs ctx t) r)))"

definition ListDeviceStatesPage_scoped :: "ctx \<Rightarrow> string \<Rightarrow> int \<Rightarrow> int \<Rightarrow> repo \<Rightarrow> DeviceState list \<times> nat" where
  "ListDeviceStatesPage_scoped ctx t l off r =
     (if \<not> Limited ctx then ListDeviceStatesPage t l off r else ListDeviceStatesForDevicesPage t (Some (GrantedIDs ctx t)) l off r)"

definition ListDeviceStatesForDevicesPage_scoped :: "ctx \<Rightarrow> string \<Rightarrow> string list option \<Rightarrow> int \<Rightarrow> int \<Rightarrow> repo \<Rightarrow> DeviceState list \<times> nat" where
  "ListDeviceStatesForDevicesPage_scoped ctx t ids l off r = ListDeviceStatesForDevicesPage t (scoped_option ctx t ids) l off r"

definition ListUnregisteredDeviceStatesPage_scoped :: "ctx \<Rightarrow> string \<Rightarrow> int \<Rightarrow> int \<Rightarrow> repo \<Rightarrow> DeviceState list \<times> nat" where
  "ListUnregisteredDeviceStatesPage_scoped ctx t l off r = (if \<not> Limited ctx then ListUnregisteredDeviceStatesPage t l off r else ([], 0))"

definition map_count :: "nat gomap \<Rightarrow> string \<Rightarrow> nat" where
  "map_count m k = (case gm_get m k of None \<Rightarrow> 0 | Some n \<Rightarrow> n)"

definition CountDeviceStates_scoped :: "ctx \<Rightarrow> string \<Rightarrow> bool \<Rightarrow> repo \<Rightarrow> nat \<times> nat" where
  "CountDeviceStates_scoped ctx t unregistered r =
     (if \<not> Limited ctx then CountDeviceStates t unregistered r
      else if unregistered then (0, 0)
      else let o' = DeviceOverviewCounts t True (GrantedIDs ctx t) r
           in (do_Reported o' + do_DiscoveredUnregistered o', map_count (do_BusinessStatus o') ''ONLINE'' + map_count (do_BusinessStatus o') ''ALARM''))"

definition DeviceOverviewCounts_scoped :: "ctx \<Rightarrow> string \<Rightarrow> bool \<Rightarrow> string list \<Rightarrow> repo \<Rightarrow> DeviceOverview" where
  "DeviceOverviewCounts_scoped ctx t restrict ids r =
     (if Limited ctx then DeviceOverviewCounts t True (if restrict then scopedIDs ctx t ids else GrantedIDs ctx t) r
      else DeviceOverviewCounts t restrict ids r)"

definition GetDeviceState_scoped :: "ctx \<Rightarrow> string \<Rightarrow> string \<Rightarrow> repo \<Rightarrow> err + DeviceState" where
  "GetDeviceState_scoped ctx t i r = checked ctx t ds_DeviceID (GetDeviceState t i r)"

definition GetDeviceStateFresh_scoped :: "ctx \<Rightarrow> string \<Rightarrow> string \<Rightarrow> repo \<Rightarrow> err + DeviceState" where
  "GetDeviceStateFresh_scoped ctx t i r = checked ctx t ds_DeviceID (GetDeviceStateFresh t i r)"

subsection \<open>Alarms and messages\<close>

text \<open>The granted devices of a list query, or nothing to match.\<close>

definition scopedDevices :: "ctx \<Rightarrow> string \<Rightarrow> string \<Rightarrow> string list option \<Rightarrow> string list option option" where
  "scopedDevices ctx tenant device ids =
     (if device \<noteq> [] \<and> \<not> Allowed ctx tenant device then None
      else if ids = None \<and> device \<noteq> [] then Some None
      else let ids = scopedIDs ctx tenant (case ids of None \<Rightarrow> (case ctx of None \<Rightarrow> [] | Some v \<Rightarrow> Scope_DeviceIDs v) | Some l \<Rightarrow> l)
           in if ids = [] then None else Some (Some ids))"

definition scoped_alarms :: "ctx \<Rightarrow> AlarmFilter \<Rightarrow> AlarmFilter option" where
  "scoped_alarms ctx f =
     (if Limited ctx then map_option (\<lambda>ids. f\<lparr>af_DeviceIDs := ids\<rparr>) (scopedDevices ctx (af_TenantID f) (af_DeviceID f) (af_DeviceIDs f)) else Some f)"

definition ListAlarms_scoped :: "ctx \<Rightarrow> AlarmFilter \<Rightarrow> repo \<Rightarrow> Alarm list" where
  "ListAlarms_scoped ctx f r = (case scoped_alarms ctx f of None \<Rightarrow> [] | Some f \<Rightarrow> ListAlarms f r)"

definition CountAlarms_scoped :: "ctx \<Rightarrow> AlarmFilter \<Rightarrow> repo \<Rightarrow> nat" where
  "CountAlarms_scoped ctx f r = (case scoped_alarms ctx f of None \<Rightarrow> 0 | Some f \<Rightarrow> CountAlarms f r)"

definition each_alarm_scoped :: "ctx \<Rightarrow> AlarmFilter \<Rightarrow> repo \<Rightarrow> Alarm list" where
  "each_alarm_scoped ctx f r = (case scoped_alarms ctx f of None \<Rightarrow> [] | Some f \<Rightarrow> each_alarm f r)"

definition AlarmOverviewCounts_scoped :: "ctx \<Rightarrow> AlarmFilter \<Rightarrow> int \<Rightarrow> repo \<Rightarrow> AlarmOverview" where
  "AlarmOverviewCounts_scoped ctx f start r = (case scoped_alarms ctx f of None \<Rightarrow> NewAlarmOverview | Some f \<Rightarrow> AlarmOverviewCounts f start r)"

definition GetAlarm_scoped :: "ctx \<Rightarrow> string \<Rightarrow> string \<Rightarrow> repo \<Rightarrow> err + Alarm" where
  "GetAlarm_scoped ctx t i r = checked ctx t al_DeviceID (GetAlarm t i r)"

definition HasOpenAlarm_scoped :: "ctx \<Rightarrow> string \<Rightarrow> string \<Rightarrow> repo \<Rightarrow> err + bool" where
  "HasOpenAlarm_scoped ctx t d r = (if \<not> Allowed ctx t d then Inl ErrDenied else Inr (HasOpenAlarm t d r))"

definition scoped_raw :: "ctx \<Rightarrow> RawFilter \<Rightarrow> RawFilter option" where
  "scoped_raw ctx f =
     (if Limited ctx then map_option (\<lambda>ids. f\<lparr>rf_DeviceIDs := ids\<rparr>) (scopedDevices ctx (rf_TenantID f) (rf_DeviceID f) (rf_DeviceIDs f)) else Some f)"

definition ListRawIndexes_scoped :: "ctx \<Rightarrow> RawFilter \<Rightarrow> repo \<Rightarrow> RawArchiveIndex list" where
  "ListRawIndexes_scoped ctx f r = (case scoped_raw ctx f of None \<Rightarrow> [] | Some f \<Rightarrow> ListRawIndexes f r)"

definition CountRawIndexes_scoped :: "ctx \<Rightarrow> RawFilter \<Rightarrow> repo \<Rightarrow> int" where
  "CountRawIndexes_scoped ctx f r = (case scoped_raw ctx f of None \<Rightarrow> 0 | Some f \<Rightarrow> CountRawIndexes f r)"

definition GetRawIndex_scoped :: "ctx \<Rightarrow> string \<Rightarrow> string \<Rightarrow> repo \<Rightarrow> err + RawArchiveIndex" where
  "GetRawIndex_scoped ctx t i r = checked ctx t ri_DeviceID (GetRawIndex t i r)"

definition GetRawIndexAt_scoped :: "ctx \<Rightarrow> string \<Rightarrow> string \<Rightarrow> int \<Rightarrow> repo \<Rightarrow> err + RawArchiveIndex" where
  "GetRawIndexAt_scoped ctx t i received r = checked ctx t ri_DeviceID (GetRawIndexAt t i received r)"

definition GetLatestMessage_scoped :: "ctx \<Rightarrow> string \<Rightarrow> string \<Rightarrow> repo \<Rightarrow> err + StandardMessage" where
  "GetLatestMessage_scoped ctx t i r = checked ctx t sm_DeviceID (GetLatestMessage t i r)"

definition GetStandardMessageByRaw_scoped :: "ctx \<Rightarrow> string \<Rightarrow> string \<Rightarrow> repo \<Rightarrow> err + StandardMessage" where
  "GetStandardMessageByRaw_scoped ctx t i r = checked ctx t sm_DeviceID (GetStandardMessageByRaw t i r)"

definition PropertyHistory_scoped :: "ctx \<Rightarrow> string \<Rightarrow> string \<Rightarrow> string \<Rightarrow> int \<Rightarrow> int \<Rightarrow> int \<Rightarrow> repo \<Rightarrow> err + history_item list" where
  "PropertyHistory_scoped ctx t d p start stop limit r = (if \<not> Allowed ctx t d then Inl ErrDenied else Inr (PropertyHistory t d p start stop limit r))"

definition PropertyHistoryPage_scoped :: "ctx \<Rightarrow> string \<Rightarrow> string \<Rightarrow> string \<Rightarrow> int \<Rightarrow> int \<Rightarrow> int \<Rightarrow> int \<Rightarrow> repo \<Rightarrow> err + history_item list \<times> nat" where
  "PropertyHistoryPage_scoped ctx t d p start stop l off r = (if \<not> Allowed ctx t d then Inl ErrDenied else Inr (PropertyHistoryPage t d p start stop l off r))"

definition ListVideoCameraMappings_scoped :: "ctx \<Rightarrow> string \<Rightarrow> repo \<Rightarrow> VideoCameraMapping list" where
  "ListVideoCameraMappings_scoped ctx t r = filter (\<lambda>v. Allowed ctx t (vm_DeviceID v)) (ListVideoCameraMappings t r)"

subsection \<open>Changes\<close>

definition SaveManagedDevice_scoped :: "ctx \<Rightarrow> ManagedDevice \<Rightarrow> repo \<Rightarrow> (err + unit) \<times> repo" where
  "SaveManagedDevice_scoped ctx v r = (if \<not> Allowed ctx (md_TenantID v) (md_ID v) then (Inl ErrDenied, r) else SaveManagedDevice v r)"

definition UpsertDeviceState_scoped :: "ctx \<Rightarrow> DeviceState \<Rightarrow> repo \<Rightarrow> (err + unit) \<times> repo" where
  "UpsertDeviceState_scoped ctx v r = (if \<not> Allowed ctx (ds_TenantID v) (ds_DeviceID v) then (Inl ErrDenied, r) else (Inr (), UpsertDeviceState v r))"

definition UpsertDeviceStateIf_scoped :: "ctx \<Rightarrow> DeviceState \<Rightarrow> repo \<Rightarrow> (err + bool) \<times> repo" where
  "UpsertDeviceStateIf_scoped ctx v r =
     (if \<not> Allowed ctx (ds_TenantID v) (ds_DeviceID v) then (Inl ErrDenied, r)
      else (Inr (fst (UpsertDeviceStateIf v r)), snd (UpsertDeviceStateIf v r)))"

definition UpdateAlarm_scoped :: "ctx \<Rightarrow> Alarm \<Rightarrow> repo \<Rightarrow> (err + unit) \<times> repo" where
  "UpdateAlarm_scoped ctx v r = (if \<not> Allowed ctx (al_TenantID v) (al_DeviceID v) then (Inl ErrDenied, r) else UpdateAlarm v r)"

definition UpdateAlarmIf_scoped :: "ctx \<Rightarrow> Alarm \<Rightarrow> repo \<Rightarrow> (err + bool) \<times> repo" where
  "UpdateAlarmIf_scoped ctx v r = (if \<not> Allowed ctx (al_TenantID v) (al_DeviceID v) then (Inl ErrDenied, r) else UpdateAlarmIf v r)"

definition UpsertExternalAlarm_scoped :: "ctx \<Rightarrow> Alarm \<Rightarrow> repo \<Rightarrow> (err + (Alarm \<times> bool \<times> bool)) \<times> repo" where
  "UpsertExternalAlarm_scoped ctx v r = (if \<not> Allowed ctx (al_TenantID v) (al_DeviceID v) then (Inl ErrDenied, r) else UpsertExternalAlarm v r)"

end
