(* ===== verification/Scope_Confinement.thy ===== *)
theory Scope_Confinement
  imports Device_Scope Alarm_Store
begin

text \<open>
  What the device scope guarantees: the listed grant is the grant that is checked; a limited user learns nothing about other devices from any query
  (two stores that agree on the granted devices give the same answers, up to which error is returned); changes leave other devices alone.
\<close>

subsection \<open>The grant\<close>

lemma DeviceUnits_ok: "gm_ok (DeviceUnits points)"
proof -
  have "gm_ok m \<Longrightarrow> gm_ok (fold (\<lambda>p m. if st_ComponentID p = [] then gm_put (st_DeviceID p) (st_UnitID p) m else m) ps m)" for ps :: "SitePoint list" and m
    by (induction ps arbitrary: m) auto
  then show ?thesis by (simp add: DeviceUnits_def)
qed

lemma append_device_get:
  "gm_get (fold append_device es m) u =
     (if \<exists>e \<in> set es. snd e = u then Some ((case gm_get m u of None \<Rightarrow> [] | Some l \<Rightarrow> l) @ map fst (filter (\<lambda>e. snd e = u) es)) else gm_get m u)"
  by (induction es arbitrary: m) (auto simp: append_device_def split: option.splits)

lemma gm_get_map_snd: "gm_get (map (\<lambda>(k, v). (k, f v)) m) k = map_option f (gm_get m k)"
  by (induction m) (auto simp: gm_get_def)

lemma unit_devices_index: "i \<in> set (unit_devices (NewUnitIndex points) u) \<longleftrightarrow> gm_get (ui_unitOf (NewUnitIndex points)) i = Some u"
proof -
  have "i \<in> set (unit_devices (NewUnitIndex points) u) \<longleftrightarrow> (i, u) \<in> set (DeviceUnits points)"
    by (auto simp: unit_devices_def NewUnitIndex_def Let_def gm_get_map_snd append_device_get image_iff)
  then show ?thesis using gm_mem_get [OF DeviceUnits_ok] by (simp add: NewUnitIndex_def Let_def)
qed

text \<open>How the access layer builds a scope: flags are only set, and the units come from the index of the sites.\<close>

definition scope_ok :: "Scope \<Rightarrow> bool" where
  "scope_ok v \<longleftrightarrow> so_Tenant v \<noteq> [] \<and> clean (so_Tenant v) \<and> gm_ok (so_IDs v) \<and> gm_ok (so_Units v) \<and> (\<forall>e \<in> set (so_Units v). snd e) \<and>
     (\<forall>x. so_Sites v = Some x \<longrightarrow> (\<exists>points. x = NewUnitIndex points))"

lemma flag_mem:
  assumes "gm_ok m"
  shows "i \<in> fst ` set (filter snd m) \<longleftrightarrow> flag m i"
proof -
  have "i \<in> fst ` set (filter snd m) \<longleftrightarrow> (i, True) \<in> set m" by force
  also have "\<dots> \<longleftrightarrow> flag m i" unfolding gm_mem_get [OF assms] by (simp add: flag_def split: option.split)
  finally show ?thesis .
qed

lemma Scope_DeviceIDs_set:
  assumes "scope_ok v" "\<not> so_All v"
  shows "i \<in> set (Scope_DeviceIDs v) \<longleftrightarrow> Has v i"
proof -
  have ids: "i \<in> fst ` set (filter snd (so_IDs v)) \<longleftrightarrow> flag (so_IDs v) i" using assms(1) by (intro flag_mem) (simp add: scope_ok_def)
  have "filter snd (so_Units v) = so_Units v" using assms(1) by (simp add: scope_ok_def filter_True)
  then have units: "u \<in> fst ` set (so_Units v) \<longleftrightarrow> flag (so_Units v) u" for u using flag_mem [of "so_Units v" u] assms(1) by (simp add: scope_ok_def)
  show ?thesis
  proof (cases "so_Sites v")
    case None
    then show ?thesis using ids assms(2) by (simp add: Scope_DeviceIDs_def Has_def)
  next
    case (Some x)
    then obtain points where x: "x = NewUnitIndex points" using assms(1) by (auto simp: scope_ok_def)
    have "(\<exists>e \<in> set (so_Units v). i \<in> set (unit_devices x (fst e))) \<longleftrightarrow> (\<exists>u. gm_get (ui_unitOf x) i = Some u \<and> u \<in> fst ` set (so_Units v))"
      unfolding x unit_devices_index by auto
    moreover have "so_Units v \<noteq> []" if "u \<in> fst ` set (so_Units v)" for u using that by auto
    ultimately show ?thesis using ids units Some assms(2)
      by (auto simp: Scope_DeviceIDs_def Has_def split: option.splits)
  qed
qed

definition context_ok :: "ctx \<Rightarrow> bool" where
  "context_ok ctx \<longleftrightarrow> (case ctx of None \<Rightarrow> True | Some v \<Rightarrow> scope_ok v)"

lemma granted_allowed:
  assumes "context_ok ctx" "Limited ctx"
  shows "i \<in> set (GrantedIDs ctx t) \<longleftrightarrow> Allowed ctx t i"
  using assms Scope_DeviceIDs_set by (cases ctx) (auto simp: context_ok_def Limited_def GrantedIDs_def Allowed_def)

lemma allowed_tenant: "context_ok ctx \<Longrightarrow> Limited ctx \<Longrightarrow> Allowed ctx t i \<Longrightarrow> t \<noteq> [] \<and> clean t"
  by (cases ctx) (auto simp: context_ok_def Limited_def Allowed_def scope_ok_def)

lemma set_scopedIDs [simp]: "set (scopedIDs ctx t ids) = {i \<in> set ids. Allowed ctx t i}"
  by (auto simp: scopedIDs_def)

subsection \<open>Stores that agree on the granted devices\<close>

definition seen :: "ctx \<Rightarrow> ('v \<Rightarrow> string) \<Rightarrow> ('v \<Rightarrow> string) \<Rightarrow> 'v gomap \<Rightarrow> 'v gomap" where
  "seen ctx tenant device m = gm_filter (\<lambda>k v. Allowed ctx (tenant v) (device v)) m"

definition rows_ok :: "('v \<Rightarrow> string) \<Rightarrow> ('v \<Rightarrow> string) \<Rightarrow> 'v gomap \<Rightarrow> bool" where
  "rows_ok tenant ident m \<longleftrightarrow> gm_ok m \<and> (\<forall>(k, v) \<in> set m. k = key [tenant v, ident v] \<and> clean (tenant v))"

definition store_ok :: "repo \<Rightarrow> bool" where
  "store_ok r \<longleftrightarrow> rows_ok md_TenantID md_ID (rp_devices r) \<and> rows_ok ds_TenantID ds_DeviceID (rp_states r) \<and>
     rows_ok al_TenantID al_ID (rp_alarms r) \<and> rows_ok ri_TenantID ri_MessageID (rp_raw r)"

text \<open>The messages parsed from a raw message.\<close>

definition parsed_from :: "repo \<Rightarrow> string \<Rightarrow> StandardMessage list" where
  "parsed_from r k = filter (\<lambda>m. key [sm_TenantID m, sm_RawMessageID m] = k) (gm_vals (rp_standard r))"

definition seen_messages :: "ctx \<Rightarrow> repo \<Rightarrow> StandardMessage list" where
  "seen_messages ctx r = filter (\<lambda>m. Allowed ctx (sm_TenantID m) (sm_DeviceID m)) (gm_vals (rp_standard r))"

definition agree :: "ctx \<Rightarrow> repo \<Rightarrow> repo \<Rightarrow> bool" where
  "agree ctx r1 r2 \<longleftrightarrow> seen ctx md_TenantID md_ID (rp_devices r1) = seen ctx md_TenantID md_ID (rp_devices r2) \<and>
     seen ctx ds_TenantID ds_DeviceID (rp_states r1) = seen ctx ds_TenantID ds_DeviceID (rp_states r2) \<and>
     seen ctx al_TenantID al_DeviceID (rp_alarms r1) = seen ctx al_TenantID al_DeviceID (rp_alarms r2) \<and>
     seen ctx ri_TenantID ri_DeviceID (rp_raw r1) = seen ctx ri_TenantID ri_DeviceID (rp_raw r2) \<and>
     seen ctx vm_TenantID vm_DeviceID (rp_videoMappings r1) = seen ctx vm_TenantID vm_DeviceID (rp_videoMappings r2) \<and>
     seen_messages ctx r1 = seen_messages ctx r2 \<and>
     (\<forall>v \<in> set (gm_vals (seen ctx ri_TenantID ri_DeviceID (rp_raw r1))). \<forall>k. k = key [ri_TenantID v, ri_MessageID v] \<longrightarrow> parsed_from r1 k = parsed_from r2 k)"

definition indist :: "ctx \<Rightarrow> repo \<Rightarrow> repo \<Rightarrow> bool" where
  "indist ctx r1 r2 \<longleftrightarrow> context_ok ctx \<and> Limited ctx \<and> store_ok r1 \<and> store_ok r2 \<and> agree ctx r1 r2"

lemma seen_vals: "gm_vals (seen ctx tenant device m) = filter (\<lambda>v. Allowed ctx (tenant v) (device v)) (gm_vals m)"
  by (induction m) (auto simp: gm_vals_def seen_def gm_filter_def)

text \<open>A condition that implies visibility selects the same rows of stores that agree.\<close>

lemma seen_filter:
  assumes "seen ctx tenant device m1 = seen ctx tenant device m2" "\<And>v. P v \<Longrightarrow> Allowed ctx (tenant v) (device v)"
  shows "filter P (gm_vals m1) = filter P (gm_vals m2)"
proof -
  have same: "filter P (gm_vals m) = filter P (gm_vals (seen ctx tenant device m))" for m
    unfolding seen_vals filter_filter by (rule filter_cong) (use assms(2) in auto)
  show ?thesis unfolding same [of m1] same [of m2] assms(1) ..
qed

lemma seen_messages_filter:
  assumes "agree ctx r1 r2" "\<And>m. P m \<Longrightarrow> Allowed ctx (sm_TenantID m) (sm_DeviceID m)"
  shows "filter P (gm_vals (rp_standard r1)) = filter P (gm_vals (rp_standard r2))"
proof -
  have "filter P (gm_vals (rp_standard r)) = filter P (seen_messages ctx r)" for r
    unfolding seen_messages_def filter_filter by (rule filter_cong) (use assms(2) in auto)
  then show ?thesis using assms(1) by (simp add: agree_def)
qed

definition hide :: "err + 'a \<Rightarrow> 'a option" where
  "hide res = (case res of Inl _ \<Rightarrow> None | Inr v \<Rightarrow> Some v)"

lemma hide_simps [simp]: "hide (Inl e) = None" "hide (Inr v) = Some v"
  by (simp_all add: hide_def)

text \<open>A row that is read by its key: tenant and identity are those of the key.\<close>

lemma rows_ok_get:
  assumes "rows_ok tenant ident m" "gm_get m (key [t, i]) = Some v" "clean t"
  shows "tenant v = t \<and> ident v = i"
proof -
  have "(key [t, i], v) \<in> set m" using assms(2) by (rule gm_get_mem)
  then have "key [t, i] = key [tenant v, ident v]" "clean (tenant v)" using assms(1) by (auto simp: rows_ok_def)
  then show ?thesis using key2_inject [OF assms(3), of "tenant v" i "ident v"] by simp
qed

lemma seen_checked:
  assumes "context_ok ctx" "Limited ctx" "rows_ok tenant ident m"
  shows "hide (checked ctx t device (case gm_get m (key [t, i]) of None \<Rightarrow> Inl e | Some v \<Rightarrow> Inr v)) =
    (if \<exists>d. Allowed ctx t d then gm_get (seen ctx tenant device m) (key [t, i]) else None)"
proof (cases "gm_get m (key [t, i])")
  case None
  then show ?thesis using assms(3) by (simp add: checked_def seen_def gm_get_filter rows_ok_def)
next
  case (Some v)
  show ?thesis
  proof (cases "\<exists>d. Allowed ctx t d")
    case True
    then have "clean t" using allowed_tenant [OF assms(1,2)] by blast
    then have "tenant v = t" using rows_ok_get [OF assms(3) Some] by simp
    then show ?thesis using Some assms(3) True by (simp add: checked_def seen_def gm_get_filter rows_ok_def)
  next
    case False
    then show ?thesis using Some by (simp add: checked_def)
  qed
qed

subsection \<open>Queries\<close>

lemma indistD:
  assumes "indist ctx r1 r2"
  shows "context_ok ctx" "Limited ctx" "agree ctx r1 r2"
    and "rows_ok md_TenantID md_ID (rp_devices r1)" "rows_ok md_TenantID md_ID (rp_devices r2)"
    and "rows_ok ds_TenantID ds_DeviceID (rp_states r1)" "rows_ok ds_TenantID ds_DeviceID (rp_states r2)"
    and "rows_ok al_TenantID al_ID (rp_alarms r1)" "rows_ok al_TenantID al_ID (rp_alarms r2)"
    and "rows_ok ri_TenantID ri_MessageID (rp_raw r1)" "rows_ok ri_TenantID ri_MessageID (rp_raw r2)"
  using assms by (simp_all add: indist_def store_ok_def)

lemma agreeD:
  assumes "agree ctx r1 r2"
  shows "seen ctx md_TenantID md_ID (rp_devices r1) = seen ctx md_TenantID md_ID (rp_devices r2)"
    and "seen ctx ds_TenantID ds_DeviceID (rp_states r1) = seen ctx ds_TenantID ds_DeviceID (rp_states r2)"
    and "seen ctx al_TenantID al_DeviceID (rp_alarms r1) = seen ctx al_TenantID al_DeviceID (rp_alarms r2)"
    and "seen ctx ri_TenantID ri_DeviceID (rp_raw r1) = seen ctx ri_TenantID ri_DeviceID (rp_raw r2)"
    and "seen ctx vm_TenantID vm_DeviceID (rp_videoMappings r1) = seen ctx vm_TenantID vm_DeviceID (rp_videoMappings r2)"
  using assms by (simp_all add: agree_def)

lemma single_rows:
  assumes "indist ctx r1 r2"
  shows "hide (GetManagedDevice_scoped ctx t i r1) = hide (GetManagedDevice_scoped ctx t i r2)"
    and "hide (GetDeviceState_scoped ctx t i r1) = hide (GetDeviceState_scoped ctx t i r2)"
    and "hide (GetAlarm_scoped ctx t i r1) = hide (GetAlarm_scoped ctx t i r2)"
    and "hide (GetRawIndex_scoped ctx t i r1) = hide (GetRawIndex_scoped ctx t i r2)"
proof -
  note d = indistD [OF assms] and a = agreeD [OF indistD(3) [OF assms]]
  show "hide (GetManagedDevice_scoped ctx t i r1) = hide (GetManagedDevice_scoped ctx t i r2)"
    unfolding GetManagedDevice_scoped_def GetManagedDevice_def seen_checked [OF d(1,2,4)] seen_checked [OF d(1,2,5)] a ..
  show "hide (GetDeviceState_scoped ctx t i r1) = hide (GetDeviceState_scoped ctx t i r2)"
    unfolding GetDeviceState_scoped_def GetDeviceState_def stored_state_def seen_checked [OF d(1,2,6)] seen_checked [OF d(1,2,7)] a ..
  show "hide (GetAlarm_scoped ctx t i r1) = hide (GetAlarm_scoped ctx t i r2)"
    unfolding GetAlarm_scoped_def GetAlarm_def stored_alarm_def seen_checked [OF d(1,2,8)] seen_checked [OF d(1,2,9)] a ..
  show "hide (GetRawIndex_scoped ctx t i r1) = hide (GetRawIndex_scoped ctx t i r2)"
    unfolding GetRawIndex_scoped_def GetRawIndex_def seen_checked [OF d(1,2,10)] seen_checked [OF d(1,2,11)] a ..
qed

text \<open>The state of a granted device.\<close>

lemma granted_state:
  assumes "indist ctx r1 r2" "Allowed ctx t i"
  shows "gm_get (rp_states r1) (key [t, i]) = gm_get (rp_states r2) (key [t, i])"
proof -
  note d = indistD [OF assms(1)] and a = agreeD [OF indistD(3) [OF assms(1)]]
  have c: "clean t" using allowed_tenant [OF d(1,2) assms(2)] by simp
  have "gm_get (seen ctx ds_TenantID ds_DeviceID (rp_states r)) (key [t, i]) = gm_get (rp_states r) (key [t, i])"
    if "rows_ok ds_TenantID ds_DeviceID (rp_states r)" for r
  proof (cases "gm_get (rp_states r) (key [t, i])")
    case (Some v)
    then show ?thesis using rows_ok_get [OF that Some c] that assms(2) by (simp add: seen_def gm_get_filter rows_ok_def)
  qed (use that in \<open>simp add: seen_def gm_get_filter rows_ok_def\<close>)
  then show ?thesis using a(2) d(6,7) by metis
qed

lemma granted_states_by_id:
  assumes "indist ctx r1 r2" "\<forall>i \<in> set ids. Allowed ctx t i"
  shows "GetDeviceStatesByIDs t ids r1 = GetDeviceStatesByIDs t ids r2"
  unfolding GetDeviceStatesByIDs_def by (rule fold_cong) (use granted_state [OF assms(1)] assms(2) in auto)

text \<open>Devices of a listing that names only granted ones.\<close>

lemma granted_devices:
  assumes "indist ctx r1 r2" "\<And>d. P d \<Longrightarrow> Allowed ctx (md_TenantID d) (md_ID d)"
  shows "filter P (gm_vals (rp_devices r1)) = filter P (gm_vals (rp_devices r2))"
  using seen_filter [OF agreeD(1) [OF indistD(3) [OF assms(1)]]] assms(2) by blast

lemma listed_devices:
  assumes "indist ctx r1 r2"
  shows "ListManagedDevicesFiltered_scoped ctx f l off r1 = ListManagedDevicesFiltered_scoped ctx f l off r2"
proof -
  note d = indistD [OF assms]
  define g where "g = f\<lparr>df_RestrictDevices := True, df_DeviceIDs := GrantedIDs ctx (df_TenantID f)\<rparr>"
  have m: "Allowed ctx (md_TenantID v) (md_ID v)" if "DeviceFilter_Matches g v s" for v s
  proof -
    have "md_ID v \<in> set (GrantedIDs ctx (df_TenantID f))" "df_TenantID f \<noteq> [] \<longrightarrow> md_TenantID v = df_TenantID f"
      using that by (auto simp: DeviceFilter_Matches_def g_def)
    then have "Allowed ctx (df_TenantID f) (md_ID v)" using granted_allowed [OF d(1,2)] by blast
    moreover have "md_TenantID v = df_TenantID f"
      using allowed_tenant [OF d(1,2) calculation] \<open>df_TenantID f \<noteq> [] \<longrightarrow> md_TenantID v = df_TenantID f\<close> by blast
    ultimately show ?thesis by simp
  qed
  let ?s = "\<lambda>r v. gm_get (rp_states r) (key [md_TenantID v, md_ID v])"
  have "filter (\<lambda>v. DeviceFilter_Matches g v (?s r1 v)) (gm_vals (rp_devices r1)) = filter (\<lambda>v. DeviceFilter_Matches g v (?s r1 v)) (gm_vals (rp_devices r2))"
    by (rule granted_devices [OF assms]) (rule m)
  also have "\<dots> = filter (\<lambda>v. DeviceFilter_Matches g v (?s r2 v)) (gm_vals (rp_devices r2))"
    by (rule filter_cong [OF refl]) (use granted_state [OF assms] m in metis)
  finally have "ListManagedDevicesFiltered g l off r1 = ListManagedDevicesFiltered g l off r2" by (simp add: ListManagedDevicesFiltered_def)
  then show ?thesis using d(2) by (simp add: ListManagedDevicesFiltered_scoped_def g_def)
qed

lemma listed_all_devices:
  assumes "indist ctx r1 r2"
  shows "granted_pages ctx t off r1 = granted_pages ctx t off r2"
  using indistD(2) [OF assms] scoped_page_short [of ctx "zero_DeviceFilter\<lparr>df_TenantID := t\<rparr>" 500 off r2] listed_devices [OF assms]
  by (simp add: granted_pages.simps [of ctx t off])

lemma children_listed:
  assumes "indist ctx r1 r2" "\<And>i. wanted ids i \<Longrightarrow> Allowed ctx t i"
  shows "listChildren t i ids l off r1 = listChildren t i ids l off r2" "CountManagedDeviceChildrenForDevices t ps ids r1 = CountManagedDeviceChildrenForDevices t ps ids r2"
proof -
  have "filter (\<lambda>d. md_TenantID d = t \<and> md_GatewayID d = i \<and> wanted ids (md_ID d)) (gm_vals (rp_devices r1)) =
      filter (\<lambda>d. md_TenantID d = t \<and> md_GatewayID d = i \<and> wanted ids (md_ID d)) (gm_vals (rp_devices r2))"
    by (rule granted_devices [OF assms(1)]) (use assms(2) in auto)
  then show "listChildren t i ids l off r1 = listChildren t i ids l off r2" by (simp add: listChildren_def)
  let ?P = "\<lambda>d. md_TenantID d = t \<and> md_GatewayID d \<noteq> [] \<and> wanted ids (md_ID d) \<and> md_GatewayID d \<in> set ps"
  have "filter ?P (gm_vals (rp_devices r1)) = filter ?P (gm_vals (rp_devices r2))"
    by (rule granted_devices [OF assms(1)]) (use assms(2) in auto)
  moreover have "fold (\<lambda>d m. if ?P d then bump (md_GatewayID d) m else m) xs m = fold (\<lambda>d. bump (md_GatewayID d)) (filter ?P xs) m" for xs :: "ManagedDevice list" and m
    by (induction xs arbitrary: m) auto
  ultimately show "CountManagedDeviceChildrenForDevices t ps ids r1 = CountManagedDeviceChildrenForDevices t ps ids r2"
    by (simp add: CountManagedDeviceChildrenForDevices_def)
qed

text \<open>Alarms of a filter that the scope has narrowed, and everything computed from them.\<close>

lemma scoped_devices_cases:
  assumes "context_ok ctx" "Limited ctx" "scopedDevices ctx t device ids = Some ids'" "device = [] \<or> d = device" "wanted ids' d"
  shows "Allowed ctx t d"
proof (cases "ids' = None")
  case True
  then show ?thesis using assms(3,4) by (auto simp: scopedDevices_def Let_def split: if_splits)
next
  case False
  then obtain l where "ids' = Some (scopedIDs ctx t l)" using assms(3) by (auto simp: scopedDevices_def Let_def split: if_splits)
  then show ?thesis using assms(5) by (simp add: wanted_def)
qed

lemma narrowed_alarms:
  assumes "indist ctx r1 r2" "scoped_alarms ctx f = Some g"
  shows "filter (\<lambda>a. matchesAlarmFilter a g) (gm_vals (rp_alarms r1)) = filter (\<lambda>a. matchesAlarmFilter a g) (gm_vals (rp_alarms r2))"
proof (rule seen_filter [OF agreeD(3) [OF indistD(3) [OF assms(1)]]])
  note d = indistD [OF assms(1)]
  fix a assume m: "matchesAlarmFilter a g"
  obtain ids where ids: "scopedDevices ctx (af_TenantID f) (af_DeviceID f) (af_DeviceIDs f) = Some ids" "g = f\<lparr>af_DeviceIDs := ids\<rparr>"
    using assms(2) d(2) by (auto simp: scoped_alarms_def)
  have "Allowed ctx (af_TenantID f) (al_DeviceID a)"
    by (rule scoped_devices_cases [OF d(1,2) ids(1)]) (use m in \<open>auto simp: matchesAlarmFilter_def ids(2) wanted_def\<close>)
  moreover have "af_TenantID f \<noteq> []" using allowed_tenant [OF d(1,2) calculation] by simp
  ultimately show "Allowed ctx (al_TenantID a) (al_DeviceID a)" using m by (simp add: matchesAlarmFilter_def ids(2))
qed

lemma matchesAlarmFilter_page: "matchesAlarmFilter a (f\<lparr>af_Limit := l, af_Offset := i\<rparr>) = matchesAlarmFilter a f"
  by (simp add: matchesAlarmFilter_def)

lemma alarm_queries:
  assumes "indist ctx r1 r2"
  shows "ListAlarms_scoped ctx f r1 = ListAlarms_scoped ctx f r2" "CountAlarms_scoped ctx f r1 = CountAlarms_scoped ctx f r2"
    "each_alarm_scoped ctx f r1 = each_alarm_scoped ctx f r2" "AlarmOverviewCounts_scoped ctx f start r1 = AlarmOverviewCounts_scoped ctx f start r2"
  using narrowed_alarms [OF assms]
  by (auto simp: ListAlarms_scoped_def CountAlarms_scoped_def each_alarm_scoped_def AlarmOverviewCounts_scoped_def ListAlarms_def CountAlarms_def
      each_alarm_def AlarmOverviewCounts_def matchesAlarmFilter_page split: option.splits)

lemma open_alarm_query:
  assumes "indist ctx r1 r2"
  shows "HasOpenAlarm_scoped ctx t i r1 = HasOpenAlarm_scoped ctx t i r2"
proof (cases "Allowed ctx t i")
  case True
  have "filter (\<lambda>v. al_TenantID v = t \<and> al_DeviceID v = i \<and> alarm_open v) (gm_vals (rp_alarms r1)) =
      filter (\<lambda>v. al_TenantID v = t \<and> al_DeviceID v = i \<and> alarm_open v) (gm_vals (rp_alarms r2))"
    by (rule seen_filter [OF agreeD(3) [OF indistD(3) [OF assms]]]) (use True in auto)
  moreover have "list_ex P xs \<longleftrightarrow> filter P xs \<noteq> []" for P :: "Alarm \<Rightarrow> bool" and xs by (induction xs) auto
  ultimately show ?thesis by (simp add: HasOpenAlarm_scoped_def HasOpenAlarm_def)
qed (simp add: HasOpenAlarm_scoped_def)

text \<open>States.\<close>

lemma granted_state_rows:
  assumes "indist ctx r1 r2" "\<And>s. P s \<Longrightarrow> Allowed ctx (ds_TenantID s) (ds_DeviceID s)"
  shows "filter P (gm_vals (rp_states r1)) = filter P (gm_vals (rp_states r2))"
  using seen_filter [OF agreeD(2) [OF indistD(3) [OF assms(1)]]] assms(2) by blast

lemma overview_query:
  assumes "indist ctx r1 r2" "\<forall>i \<in> set ids. Allowed ctx t i"
  shows "DeviceOverviewCounts t True ids r1 = DeviceOverviewCounts t True ids r2"
proof -
  have "filter (\<lambda>d. md_TenantID d = t \<and> md_ID d \<in> set ids) (gm_vals (rp_devices r1)) = filter (\<lambda>d. md_TenantID d = t \<and> md_ID d \<in> set ids) (gm_vals (rp_devices r2))"
    by (rule granted_devices [OF assms(1)]) (use assms(2) in auto)
  moreover have "filter (\<lambda>d. ds_TenantID d = t \<and> ds_DeviceID d \<in> set ids) (gm_vals (rp_states r1)) = filter (\<lambda>d. ds_TenantID d = t \<and> ds_DeviceID d \<in> set ids) (gm_vals (rp_states r2))"
    by (rule granted_state_rows [OF assms(1)]) (use assms(2) in auto)
  ultimately show ?thesis by (simp add: DeviceOverviewCounts_def)
qed

lemma states_page_query:
  assumes "indist ctx r1 r2" "\<forall>i \<in> set ids. Allowed ctx t i"
  shows "ListDeviceStatesForDevicesPage t (Some ids) l off r1 = ListDeviceStatesForDevicesPage t (Some ids) l off r2"
proof -
  have "filter (\<lambda>v. wanted (Some ids) (ds_DeviceID v) \<and> (t = [] \<or> ds_TenantID v = t)) (gm_vals (rp_states r1)) =
      filter (\<lambda>v. wanted (Some ids) (ds_DeviceID v) \<and> (t = [] \<or> ds_TenantID v = t)) (gm_vals (rp_states r2))"
  proof (rule granted_state_rows [OF assms(1)])
    fix s assume s: "wanted (Some ids) (ds_DeviceID s) \<and> (t = [] \<or> ds_TenantID s = t)"
    then have "Allowed ctx t (ds_DeviceID s)" using assms(2) by (simp add: wanted_def)
    then show "Allowed ctx (ds_TenantID s) (ds_DeviceID s)" using allowed_tenant [OF indistD(1,2) [OF assms(1)]] s by metis
  qed
  then show ?thesis by (simp add: ListDeviceStatesForDevicesPage_def ListDeviceStates_def conj_commute)
qed

lemma scoped_option_allowed:
  assumes "context_ok ctx" "Limited ctx"
  obtains l where "scoped_option ctx t ids = Some l" "\<forall>i \<in> set l. Allowed ctx t i"
  using assms granted_allowed [OF assms] by (cases ids) (auto simp: scoped_option_def)

text \<open>Raw messages: the parse state of a raw message comes from the messages parsed from it.\<close>

definition newest :: "RawFilter \<Rightarrow> StandardMessage \<Rightarrow> StandardMessage gomap \<Rightarrow> StandardMessage gomap" where
  "newest f m out = (if rf_TenantID f \<noteq> [] \<and> sm_TenantID m \<noteq> rf_TenantID f then out
     else let k = key [sm_TenantID m, sm_RawMessageID m] in if (case gm_get out k of None \<Rightarrow> True | Some p \<Rightarrow> later_message m p) then gm_put k m out else out)"

lemma newest_other: "key [sm_TenantID m, sm_RawMessageID m] \<noteq> k \<Longrightarrow> gm_get (newest f m out) k = gm_get out k"
  by (auto simp: newest_def Let_def)

lemma newest_same: "gm_get out1 k = gm_get out2 k \<Longrightarrow> gm_get (newest f m out1) k = gm_get (newest f m out2) k"
  by (cases "key [sm_TenantID m, sm_RawMessageID m] = k") (auto simp: newest_def Let_def split: option.splits)

lemma newest_fold:
  "gm_get out1 k = gm_get out2 k \<Longrightarrow>
     gm_get (fold (newest f) ms out1) k = gm_get (fold (newest f) (filter (\<lambda>m. key [sm_TenantID m, sm_RawMessageID m] = k) ms) out2) k"
proof (induction ms arbitrary: out1 out2)
  case (Cons m ms)
  show ?case
  proof (cases "key [sm_TenantID m, sm_RawMessageID m] = k")
    case True
    then show ?thesis using Cons(1) [OF newest_same [OF Cons(2)]] by simp
  next
    case False
    have "gm_get (newest f m out1) k = gm_get out2 k" using newest_other [OF False] Cons(2) by simp
    then show ?thesis using Cons(1) False by simp
  qed
qed simp

lemma rawFilterStandards_get:
  "gm_get (rawFilterStandards f r) k =
     (if rf_ParseStatus f = [] \<and> rf_MessageType f = [] \<and> rf_Parser f = [] then None else gm_get (fold (newest f) (parsed_from r k) []) k)"
proof -
  have "rawFilterStandards f r = (if rf_ParseStatus f = [] \<and> rf_MessageType f = [] \<and> rf_Parser f = [] then [] else fold (newest f) (gm_vals (rp_standard r)) [])"
    by (simp add: rawFilterStandards_def newest_def [abs_def])
  then show ?thesis using newest_fold [of "[]" k "[]" f "gm_vals (rp_standard r)"] by (simp add: parsed_from_def)
qed

lemma narrowed_raw:
  assumes "indist ctx r1 r2" "scoped_raw ctx f = Some g"
  shows "matching_raw g r1 = matching_raw g r2"
proof -
  note d = indistD [OF assms(1)] and a = agreeD [OF indistD(3) [OF assms(1)]]
  obtain ids where ids: "scopedDevices ctx (rf_TenantID f) (rf_DeviceID f) (rf_DeviceIDs f) = Some ids" "g = f\<lparr>rf_DeviceIDs := ids\<rparr>"
    using assms(2) d(2) by (auto simp: scoped_raw_def)
  have m: "Allowed ctx (ri_TenantID v) (ri_DeviceID v)" if "matchesRawFilter v s g" for v s
  proof -
    have "Allowed ctx (rf_TenantID f) (ri_DeviceID v)"
      by (rule scoped_devices_cases [OF d(1,2) ids(1)]) (use that in \<open>auto simp: matchesRawFilter_def ids(2)\<close>)
    moreover have "rf_TenantID f \<noteq> []" using allowed_tenant [OF d(1,2) calculation] by simp
    ultimately show ?thesis using that by (simp add: matchesRawFilter_def ids(2))
  qed
  let ?k = "\<lambda>v. key [ri_TenantID v, ri_MessageID v]"
  let ?P = "\<lambda>r v. matchesRawFilter v (gm_get (rawFilterStandards g r) (?k v)) g"
  have "filter (?P r1) (gm_vals (rp_raw r1)) = filter (?P r1) (gm_vals (rp_raw r2))" by (rule seen_filter [OF a(4)]) (rule m)
  also have "\<dots> = filter (?P r2) (gm_vals (rp_raw r2))"
  proof (rule filter_cong [OF refl])
    fix v assume v: "v \<in> set (gm_vals (rp_raw r2))"
    show "?P r1 v = ?P r2 v"
    proof (cases "Allowed ctx (ri_TenantID v) (ri_DeviceID v)")
      case True
      then have "v \<in> set (gm_vals (seen ctx ri_TenantID ri_DeviceID (rp_raw r1)))" unfolding a(4) using v by (simp add: seen_vals)
      then have "parsed_from r1 (?k v) = parsed_from r2 (?k v)" using d(3) by (auto simp: agree_def)
      then show ?thesis by (simp add: rawFilterStandards_get)
    next
      case False
      then show ?thesis using m by blast
    qed
  qed
  finally show ?thesis by (simp add: matching_raw_def)
qed

lemma raw_queries:
  assumes "indist ctx r1 r2"
  shows "ListRawIndexes_scoped ctx f r1 = ListRawIndexes_scoped ctx f r2" "CountRawIndexes_scoped ctx f r1 = CountRawIndexes_scoped ctx f r2"
  using narrowed_raw [OF assms]
  by (auto simp: ListRawIndexes_scoped_def CountRawIndexes_scoped_def ListRawIndexes_def CountRawIndexes_def Let_def split: option.splits)

text \<open>Messages of one device.\<close>

lemma latest_message_filter: "latest_message t i b xs = latest_message t i b (filter (\<lambda>m. sm_TenantID m = t \<and> sm_DeviceID m = i) xs)"
  by (induction xs arbitrary: b) auto

lemma latest_message_device:
  "latest_message t i b xs = Some v \<Longrightarrow> (\<And>u. b = Some u \<Longrightarrow> sm_DeviceID u = i) \<Longrightarrow> sm_DeviceID v = i"
  by (induction xs arbitrary: b) (auto split: if_splits)

lemma latest_query:
  assumes "indist ctx r1 r2"
  shows "hide (GetLatestMessage_scoped ctx t i r1) = hide (GetLatestMessage_scoped ctx t i r2)"
proof (cases "Allowed ctx t i")
  case True
  have "filter (\<lambda>m. sm_TenantID m = t \<and> sm_DeviceID m = i) (gm_vals (rp_standard r1)) = filter (\<lambda>m. sm_TenantID m = t \<and> sm_DeviceID m = i) (gm_vals (rp_standard r2))"
    by (rule seen_messages_filter [OF indistD(3) [OF assms]]) (use True in auto)
  then show ?thesis
    using latest_message_filter [of t i None "gm_vals (rp_standard r1)"] latest_message_filter [of t i None "gm_vals (rp_standard r2)"]
    by (simp add: GetLatestMessage_scoped_def GetLatestMessage_def)
next
  case False
  then have "hide (GetLatestMessage_scoped ctx t i r) = None" for r
    using latest_message_device [of t i None "gm_vals (rp_standard r)"]
    by (auto simp: GetLatestMessage_scoped_def GetLatestMessage_def checked_def split: option.splits)
  then show ?thesis by simp
qed

lemma map_filter_filter: "(\<And>x. f x \<noteq> None \<Longrightarrow> P x) \<Longrightarrow> List.map_filter f (filter P xs) = List.map_filter f xs"
  by (induction xs) (auto simp: List.map_filter_simps split: option.splits)

lemma history_query:
  assumes "indist ctx r1 r2" "Allowed ctx t i"
  shows "PropertyHistory t i p start stop l r1 = PropertyHistory t i p start stop l r2"
proof -
  let ?P = "\<lambda>m. sm_TenantID m = t \<and> sm_DeviceID m = i"
  let ?f = "\<lambda>v. if sm_TenantID v \<noteq> t \<or> sm_DeviceID v \<noteq> i \<or> sm_Timestamp v < start \<or> (stop > 0 \<and> sm_Timestamp v > stop) then None
            else map_option (\<lambda>x. \<lparr>hi_timestamp = sm_Timestamp v, hi_value = x, hi_messageId = sm_MessageID v\<rparr>) (gm_get (sm_Properties v) p)"
  have same: "filter ?P (gm_vals (rp_standard r1)) = filter ?P (gm_vals (rp_standard r2))"
    by (rule seen_messages_filter [OF indistD(3) [OF assms(1)]]) (use assms(2) in auto)
  have own: "List.map_filter ?f (filter ?P xs) = List.map_filter ?f xs" for xs by (rule map_filter_filter) (auto split: if_splits)
  have "List.map_filter ?f (gm_vals (rp_standard r1)) = List.map_filter ?f (filter ?P (gm_vals (rp_standard r1)))" by (rule own [symmetric])
  also have "\<dots> = List.map_filter ?f (gm_vals (rp_standard r2))" unfolding same by (rule own)
  finally show ?thesis unfolding PropertyHistory_def by simp
qed

lemma cameras_query:
  assumes "indist ctx r1 r2"
  shows "ListVideoCameraMappings_scoped ctx t r1 = ListVideoCameraMappings_scoped ctx t r2"
proof -
  have "filter (\<lambda>v. Allowed ctx t (vm_DeviceID v) \<and> vm_TenantID v = t) (gm_vals (rp_videoMappings r1)) =
      filter (\<lambda>v. Allowed ctx t (vm_DeviceID v) \<and> vm_TenantID v = t) (gm_vals (rp_videoMappings r2))"
    by (rule seen_filter [OF agreeD(5) [OF indistD(3) [OF assms]]]) auto
  then show ?thesis by (simp add: ListVideoCameraMappings_scoped_def ListVideoCameraMappings_def filter_sort conj_commute)
qed

text \<open>All queries of the scoped repository, with the answers that a user can tell apart.\<close>

datatype query =
    QDevice string string | QDevices string | QDevicesPage string int int | QFiltered DeviceFilter int int
  | QChildren string string int int | QChildrenFor string string "string list" int int | QChildCounts string "string list"
  | QChildCountsFor string "string list" "string list option"
  | QState string string | QStateFresh string string | QStatesByID string "string list" | QStates string | QStatesPage string int int
  | QStatesFor string "string list option" int int | QUnregistered string int int | QStateCounts string bool | QOverview string bool "string list"
  | QAlarm string string | QAlarms AlarmFilter | QAlarmCount AlarmFilter | QEachAlarm AlarmFilter | QAlarmOverview AlarmFilter int | QOpenAlarm string string
  | QRaw string string | QRawAt string string int | QRaws RawFilter | QRawCount RawFilter
  | QLatest string string | QHistory string string string int int int | QHistoryPage string string string int int int int | QCameras string

datatype answer =
    ADevice "ManagedDevice option" | ADevices "ManagedDevice list" | ADevicePage "(ManagedDevice list \<times> nat) option" | ACounts "nat gomap"
  | AState "DeviceState option" | AStateMap "DeviceState gomap" | AStates "DeviceState list" | AStatePage "DeviceState list \<times> nat" | ATotals "nat \<times> nat" | AOverview DeviceOverview
  | AAlarm "Alarm option" | AAlarms "Alarm list" | ANumber int | AAlarmOverview AlarmOverview | ABool "bool option"
  | ARaw "RawArchiveIndex option" | ARaws "RawArchiveIndex list" | AMessage "StandardMessage option"
  | AHistory "history_item list option" | AHistoryPage "(history_item list \<times> nat) option" | ACameras "VideoCameraMapping list"

fun ask :: "ctx \<Rightarrow> query \<Rightarrow> repo \<Rightarrow> answer" where
  "ask ctx (QDevice t i) r = ADevice (hide (GetManagedDevice_scoped ctx t i r))"
| "ask ctx (QDevices t) r = ADevices (ListManagedDevices_scoped ctx t r)"
| "ask ctx (QDevicesPage t l off) r = ADevicePage (Some (ListManagedDevicesPage_scoped ctx t l off r))"
| "ask ctx (QFiltered f l off) r = ADevicePage (Some (ListManagedDevicesFiltered_scoped ctx f l off r))"
| "ask ctx (QChildren t i l off) r = ADevicePage (hide (ListManagedDeviceChildren_scoped ctx t i l off r))"
| "ask ctx (QChildrenFor t i ids l off) r = ADevicePage (hide (ListManagedDeviceChildrenForDevices_scoped ctx t i ids l off r))"
| "ask ctx (QChildCounts t ids) r = ACounts (CountManagedDeviceChildren_scoped ctx t ids r)"
| "ask ctx (QChildCountsFor t ps ids) r = ACounts (CountManagedDeviceChildrenForDevices_scoped ctx t ps ids r)"
| "ask ctx (QState t i) r = AState (hide (GetDeviceState_scoped ctx t i r))"
| "ask ctx (QStateFresh t i) r = AState (hide (GetDeviceStateFresh_scoped ctx t i r))"
| "ask ctx (QStatesByID t ids) r = AStateMap (GetDeviceStatesByIDs_scoped ctx t ids r)"
| "ask ctx (QStates t) r = AStates (ListDeviceStates_scoped ctx t r)"
| "ask ctx (QStatesPage t l off) r = AStatePage (ListDeviceStatesPage_scoped ctx t l off r)"
| "ask ctx (QStatesFor t ids l off) r = AStatePage (ListDeviceStatesForDevicesPage_scoped ctx t ids l off r)"
| "ask ctx (QUnregistered t l off) r = AStatePage (ListUnregisteredDeviceStatesPage_scoped ctx t l off r)"
| "ask ctx (QStateCounts t b) r = ATotals (CountDeviceStates_scoped ctx t b r)"
| "ask ctx (QOverview t b ids) r = AOverview (DeviceOverviewCounts_scoped ctx t b ids r)"
| "ask ctx (QAlarm t i) r = AAlarm (hide (GetAlarm_scoped ctx t i r))"
| "ask ctx (QAlarms f) r = AAlarms (ListAlarms_scoped ctx f r)"
| "ask ctx (QAlarmCount f) r = ANumber (int (CountAlarms_scoped ctx f r))"
| "ask ctx (QEachAlarm f) r = AAlarms (each_alarm_scoped ctx f r)"
| "ask ctx (QAlarmOverview f n) r = AAlarmOverview (AlarmOverviewCounts_scoped ctx f n r)"
| "ask ctx (QOpenAlarm t i) r = ABool (hide (HasOpenAlarm_scoped ctx t i r))"
| "ask ctx (QRaw t i) r = ARaw (hide (GetRawIndex_scoped ctx t i r))"
| "ask ctx (QRawAt t i n) r = ARaw (hide (GetRawIndexAt_scoped ctx t i n r))"
| "ask ctx (QRaws f) r = ARaws (ListRawIndexes_scoped ctx f r)"
| "ask ctx (QRawCount f) r = ANumber (CountRawIndexes_scoped ctx f r)"
| "ask ctx (QLatest t i) r = AMessage (hide (GetLatestMessage_scoped ctx t i r))"
| "ask ctx (QHistory t i p a b l) r = AHistory (hide (PropertyHistory_scoped ctx t i p a b l r))"
| "ask ctx (QHistoryPage t i p a b l off) r = AHistoryPage (hide (PropertyHistoryPage_scoped ctx t i p a b l off r))"
| "ask ctx (QCameras t) r = ACameras (ListVideoCameraMappings_scoped ctx t r)"

lemma device_queries:
  assumes "indist ctx r1 r2"
  shows "ListManagedDevices_scoped ctx t r1 = ListManagedDevices_scoped ctx t r2"
    "ListManagedDevicesPage_scoped ctx t l off r1 = ListManagedDevicesPage_scoped ctx t l off r2"
    "ListManagedDeviceChildren_scoped ctx t i l off r1 = ListManagedDeviceChildren_scoped ctx t i l off r2"
    "ListManagedDeviceChildrenForDevices_scoped ctx t i ids l off r1 = ListManagedDeviceChildrenForDevices_scoped ctx t i ids l off r2"
    "CountManagedDeviceChildren_scoped ctx t ids r1 = CountManagedDeviceChildren_scoped ctx t ids r2"
    "CountManagedDeviceChildrenForDevices_scoped ctx t ps ido r1 = CountManagedDeviceChildrenForDevices_scoped ctx t ps ido r2"
proof -
  note d = indistD [OF assms]
  have granted: "Allowed ctx t j" if "wanted (Some (GrantedIDs ctx t)) j" for j using that granted_allowed [OF d(1,2)] by (simp add: wanted_def)
  have narrowed: "Allowed ctx t j" if "wanted (Some (scopedIDs ctx t ids)) j" for j using that by (simp add: wanted_def)
  have opt: "Allowed ctx t j" if "wanted (scoped_option ctx t ido) j" for j
    using that by (rule_tac scoped_option_allowed [OF d(1,2), of t ido]) (auto simp: wanted_def)
  show "ListManagedDevices_scoped ctx t r1 = ListManagedDevices_scoped ctx t r2" "ListManagedDevicesPage_scoped ctx t l off r1 = ListManagedDevicesPage_scoped ctx t l off r2"
    using d(2) listed_devices [OF assms] listed_all_devices [OF assms] by (simp_all add: ListManagedDevices_scoped_def ListManagedDevicesPage_scoped_def)
  show "ListManagedDeviceChildren_scoped ctx t i l off r1 = ListManagedDeviceChildren_scoped ctx t i l off r2"
    using d(2) children_listed(1) [OF assms granted] by (simp add: ListManagedDeviceChildren_scoped_def ListManagedDeviceChildrenForDevices_def)
  show "ListManagedDeviceChildrenForDevices_scoped ctx t i ids l off r1 = ListManagedDeviceChildrenForDevices_scoped ctx t i ids l off r2"
    using d(2) children_listed(1) [OF assms narrowed] by (simp add: ListManagedDeviceChildrenForDevices_scoped_def ListManagedDeviceChildrenForDevices_def)
  show "CountManagedDeviceChildren_scoped ctx t ids r1 = CountManagedDeviceChildren_scoped ctx t ids r2"
    using d(2) children_listed(2) [OF assms granted] by (simp add: CountManagedDeviceChildren_scoped_def)
  show "CountManagedDeviceChildrenForDevices_scoped ctx t ps ido r1 = CountManagedDeviceChildrenForDevices_scoped ctx t ps ido r2"
    using children_listed(2) [OF assms opt] by (simp add: CountManagedDeviceChildrenForDevices_scoped_def)
qed

lemma state_queries:
  assumes "indist ctx r1 r2"
  shows "GetDeviceStatesByIDs_scoped ctx t ids r1 = GetDeviceStatesByIDs_scoped ctx t ids r2"
    "ListDeviceStates_scoped ctx t r1 = ListDeviceStates_scoped ctx t r2"
    "ListDeviceStatesPage_scoped ctx t l off r1 = ListDeviceStatesPage_scoped ctx t l off r2"
    "ListDeviceStatesForDevicesPage_scoped ctx t ido l off r1 = ListDeviceStatesForDevicesPage_scoped ctx t ido l off r2"
    "ListUnregisteredDeviceStatesPage_scoped ctx t l off r1 = ListUnregisteredDeviceStatesPage_scoped ctx t l off r2"
    "CountDeviceStates_scoped ctx t b r1 = CountDeviceStates_scoped ctx t b r2"
    "DeviceOverviewCounts_scoped ctx t b ids r1 = DeviceOverviewCounts_scoped ctx t b ids r2"
proof -
  note d = indistD [OF assms]
  have granted: "\<forall>j \<in> set (GrantedIDs ctx t). Allowed ctx t j" and narrowed: "\<forall>j \<in> set (scopedIDs ctx t ids). Allowed ctx t j"
    using granted_allowed [OF d(1,2)] by auto
  obtain k where k: "scoped_option ctx t ido = Some k" "\<forall>j \<in> set k. Allowed ctx t j" by (rule scoped_option_allowed [OF d(1,2)])
  show "GetDeviceStatesByIDs_scoped ctx t ids r1 = GetDeviceStatesByIDs_scoped ctx t ids r2" "ListDeviceStates_scoped ctx t r1 = ListDeviceStates_scoped ctx t r2"
    using d(2) granted_states_by_id [OF assms granted] granted_states_by_id [OF assms narrowed]
    by (simp_all add: GetDeviceStatesByIDs_scoped_def ListDeviceStates_scoped_def)
  show "ListDeviceStatesPage_scoped ctx t l off r1 = ListDeviceStatesPage_scoped ctx t l off r2"
    "ListDeviceStatesForDevicesPage_scoped ctx t ido l off r1 = ListDeviceStatesForDevicesPage_scoped ctx t ido l off r2"
    using d(2) states_page_query [OF assms granted] states_page_query [OF assms k(2)]
    by (simp_all add: ListDeviceStatesPage_scoped_def ListDeviceStatesForDevicesPage_scoped_def k(1))
  show "ListUnregisteredDeviceStatesPage_scoped ctx t l off r1 = ListUnregisteredDeviceStatesPage_scoped ctx t l off r2"
    using d(2) by (simp add: ListUnregisteredDeviceStatesPage_scoped_def)
  show "CountDeviceStates_scoped ctx t b r1 = CountDeviceStates_scoped ctx t b r2" "DeviceOverviewCounts_scoped ctx t b ids r1 = DeviceOverviewCounts_scoped ctx t b ids r2"
    using d(2) overview_query [OF assms granted] overview_query [OF assms narrowed]
    by (simp_all add: CountDeviceStates_scoped_def DeviceOverviewCounts_scoped_def)
qed

lemma history_queries:
  assumes "indist ctx r1 r2"
  shows "PropertyHistory_scoped ctx t i p a b l r1 = PropertyHistory_scoped ctx t i p a b l r2"
    "PropertyHistoryPage_scoped ctx t i p a b l off r1 = PropertyHistoryPage_scoped ctx t i p a b l off r2"
  using history_query [OF assms] by (auto simp: PropertyHistory_scoped_def PropertyHistoryPage_scoped_def PropertyHistoryPage_def)

lemma queries_confined:
  assumes "indist ctx r1 r2"
  shows "ask ctx q r1 = ask ctx q r2"
proof -
  note single = single_rows [OF assms]
  have fresh: "hide (GetDeviceStateFresh_scoped ctx t i r1) = hide (GetDeviceStateFresh_scoped ctx t i r2)" for t i
    using single(2) by (simp add: GetDeviceStateFresh_scoped_def GetDeviceStateFresh_def GetDeviceState_scoped_def)
  have raw_at: "hide (GetRawIndexAt_scoped ctx t i n r1) = hide (GetRawIndexAt_scoped ctx t i n r2)" for t i n
    using single(4) by (simp add: GetRawIndexAt_scoped_def GetRawIndexAt_def GetRawIndex_scoped_def)
  show ?thesis
    using device_queries [OF assms] state_queries [OF assms] alarm_queries [OF assms] raw_queries [OF assms] history_queries [OF assms]
      listed_devices [OF assms] latest_query [OF assms] cameras_query [OF assms] open_alarm_query [OF assms] single fresh raw_at
    by (cases q) simp_all
qed

subsection \<open>Which error is returned\<close>

text \<open>The texts of the two errors differ, so the answer to a single read tells whether a device outside the scope exists.\<close>

lemma denied_reveals_device:
  assumes "\<not> Allowed ctx t i" "rows_ok md_TenantID md_ID (rp_devices r)" "clean t"
  shows "GetManagedDevice_scoped ctx t i r = Inl ErrDenied \<longleftrightarrow> gm_get (rp_devices r) (key [t, i]) \<noteq> None"
  using assms rows_ok_get [OF assms(2) _ assms(3)]
  by (auto simp: GetManagedDevice_scoped_def GetManagedDevice_def checked_def ErrDenied_def split: option.splits)

text \<open>A limited listing of all devices ends after one page.\<close>

lemma limited_listing_cut: "Limited ctx \<Longrightarrow> length (ListManagedDevices_scoped ctx t r) \<le> 100"
  using scoped_page_short [of ctx "zero_DeviceFilter\<lparr>df_TenantID := t\<rparr>" 500 0 r]
  by (simp add: ListManagedDevices_scoped_def granted_pages.simps [of ctx t 0])

subsection \<open>Changes\<close>

datatype change =
    ChangeDevice ManagedDevice | ChangeState DeviceState | ChangeStateIf DeviceState | ChangeAlarm Alarm | ChangeAlarmIf Alarm | ReportExternal Alarm

fun apply_change :: "ctx \<Rightarrow> change \<Rightarrow> repo \<Rightarrow> repo" where
  "apply_change ctx (ChangeDevice v) r = snd (SaveManagedDevice_scoped ctx v r)"
| "apply_change ctx (ChangeState v) r = snd (UpsertDeviceState_scoped ctx v r)"
| "apply_change ctx (ChangeStateIf v) r = snd (UpsertDeviceStateIf_scoped ctx v r)"
| "apply_change ctx (ChangeAlarm v) r = snd (UpdateAlarm_scoped ctx v r)"
| "apply_change ctx (ChangeAlarmIf v) r = snd (UpdateAlarmIf_scoped ctx v r)"
| "apply_change ctx (ReportExternal v) r = snd (UpsertExternalAlarm_scoped ctx v r)"

text \<open>The rows of other devices, with their keys and in their order.\<close>

definition others :: "ctx \<Rightarrow> ('v \<Rightarrow> string) \<Rightarrow> ('v \<Rightarrow> string) \<Rightarrow> 'v gomap \<Rightarrow> 'v gomap" where
  "others ctx tenant device m = gm_filter (\<lambda>k v. \<not> Allowed ctx (tenant v) (device v)) m"

definition same_others :: "ctx \<Rightarrow> repo \<Rightarrow> repo \<Rightarrow> bool" where
  "same_others ctx r r' \<longleftrightarrow> others ctx md_TenantID md_ID (rp_devices r') = others ctx md_TenantID md_ID (rp_devices r) \<and>
     others ctx ds_TenantID ds_DeviceID (rp_states r') = others ctx ds_TenantID ds_DeviceID (rp_states r) \<and>
     others ctx al_TenantID al_DeviceID (rp_alarms r') = others ctx al_TenantID al_DeviceID (rp_alarms r) \<and>
     rp_raw r' = rp_raw r \<and> rp_standard r' = rp_standard r"

text \<open>An update of an alarm keeps the device that the stored alarm has.\<close>

fun keeps_owner :: "change \<Rightarrow> repo \<Rightarrow> bool" where
  "keeps_owner (ChangeAlarm v) r \<longleftrightarrow> (\<forall>old. stored_alarm r (al_TenantID v) (al_ID v) = Some old \<longrightarrow> al_DeviceID old = al_DeviceID v)"
| "keeps_owner (ChangeAlarmIf v) r \<longleftrightarrow> (\<forall>old. stored_alarm r (al_TenantID v) (al_ID v) = Some old \<longrightarrow> al_DeviceID old = al_DeviceID v)"
| "keeps_owner _ r \<longleftrightarrow> True"

lemma others_put:
  assumes "Allowed ctx (tenant v) (device v)" "\<And>old. gm_get m k = Some old \<Longrightarrow> Allowed ctx (tenant old) (device old)"
  shows "others ctx tenant device (gm_put k v m) = others ctx tenant device m"
  using assms unfolding others_def gm_filter_def gm_put_def gm_get_def by (induction m) auto

text \<open>A row stored under the key of a granted one.\<close>

lemma others_put_row:
  assumes "context_ok ctx" "Limited ctx" "rows_ok tenant ident m" "Allowed ctx (tenant v) (device v)"
    and "\<And>old. gm_get m (key [tenant v, i]) = Some old \<Longrightarrow> device old = device v"
  shows "others ctx tenant device (gm_put (key [tenant v, i]) v m) = others ctx tenant device m"
proof (rule others_put [where tenant = tenant and device = device, OF assms(4)])
  fix old assume o: "gm_get m (key [tenant v, i]) = Some old"
  have "clean (tenant v)" using allowed_tenant [OF assms(1,2,4)] by simp
  then have "tenant old = tenant v" using rows_ok_get [OF assms(3) o] by simp
  then show "Allowed ctx (tenant old) (device old)" using assms(4,5) o by simp
qed

lemma same_others_refl [simp]: "same_others ctx r r"
  by (simp add: same_others_def)

lemma state_change_confined:
  assumes "context_ok ctx" "Limited ctx" "store_ok r" "Allowed ctx (ds_TenantID v) (ds_DeviceID v)"
  shows "same_others ctx r (r\<lparr>rp_states := gm_put (key [ds_TenantID v, ds_DeviceID v]) (v\<lparr>ds_Version := n\<rparr>) (rp_states r)\<rparr>)"
proof -
  let ?v = "v\<lparr>ds_Version := n\<rparr>"
  have rows: "rows_ok ds_TenantID ds_DeviceID (rp_states r)" using assms(3) by (simp add: store_ok_def)
  have "clean (ds_TenantID v)" using allowed_tenant [OF assms(1,2,4)] by simp
  then have "others ctx ds_TenantID ds_DeviceID (gm_put (key [ds_TenantID ?v, ds_DeviceID v]) ?v (rp_states r)) = others ctx ds_TenantID ds_DeviceID (rp_states r)"
    using assms(4) rows_ok_get [OF rows] by (intro others_put_row [OF assms(1,2) rows]) auto
  then show ?thesis by (simp add: same_others_def)
qed

lemma alarm_change_confined:
  assumes "context_ok ctx" "Limited ctx" "store_ok r" "Allowed ctx (al_TenantID v) (al_DeviceID v)" "\<And>old. stored_alarm r (al_TenantID v) (al_ID v) = Some old \<Longrightarrow> al_DeviceID old = al_DeviceID v"
  shows "same_others ctx r (put_alarm v r)"
proof -
  have "others ctx al_TenantID al_DeviceID (gm_put (key [al_TenantID v, al_ID v]) v (rp_alarms r)) = others ctx al_TenantID al_DeviceID (rp_alarms r)"
    using assms(3,5) by (intro others_put_row [where tenant = al_TenantID and device = al_DeviceID and ident = al_ID, OF assms(1,2) _ assms(4)]) (auto simp: store_ok_def stored_alarm_def)
  then show ?thesis by (simp add: same_others_def put_alarm_def)
qed

lemma same_others_outbox [simp]: "same_others ctx r (addOutbox e r') \<longleftrightarrow> same_others ctx r r'"
  by (simp add: same_others_def addOutbox_def)

lemma external_change_confined:
  assumes "context_ok ctx" "Limited ctx" "store_ok r" "Allowed ctx (al_TenantID v) (al_DeviceID v)"
  shows "same_others ctx r (snd (UpsertExternalAlarm v r))"
proof (cases "stored_alarm r (al_TenantID v) (al_ID v)")
  case None
  have "same_others ctx r (put_alarm (v\<lparr>al_TriggerCount := 1, al_Version := 1\<rparr>) r)"
    by (rule alarm_change_confined [OF assms(1-3)]) (use assms(4) None in simp_all)
  then show ?thesis using None by (simp add: UpsertExternalAlarm_def stored_alarm_def Let_def)
next
  case (Some old)
  have clean: "clean (al_TenantID v)" using allowed_tenant [OF assms(1,2,4)] by simp
  have rows: "rows_ok al_TenantID al_ID (rp_alarms r)" using assms(3) by (simp add: store_ok_def)
  have own: "al_TenantID old = al_TenantID v" "al_ID old = al_ID v" using rows_ok_get [OF rows _ clean] Some by (auto simp: stored_alarm_def)
  have "same_others ctx r (put_alarm (old\<lparr>al_Details := a, al_Content := b, al_LastTriggeredAt := c, al_AlarmLevel := d, al_Confidence := e, al_TriggerID := f,
      al_TriggerCount := g, al_Version := h\<rparr>) r)" if "al_DeviceID old = al_DeviceID v" for a b c d e f g h
    by (rule alarm_change_confined [OF assms(1-3)]) (use assms(4) Some own that in simp_all)
  then show ?thesis using Some own by (simp add: UpsertExternalAlarm_def stored_alarm_def put_alarm_def Let_def)
qed

lemma changes_confined:
  assumes "context_ok ctx" "Limited ctx" "store_ok r" "keeps_owner c r"
  shows "same_others ctx r (apply_change ctx c r)"
proof (cases c)
  case (ChangeDevice v)
  have rows: "rows_ok md_TenantID md_ID (rp_devices r)" using assms(3) by (simp add: store_ok_def)
  have "others ctx md_TenantID md_ID (gm_put (key [md_TenantID v, md_ID v]) v (rp_devices r)) = others ctx md_TenantID md_ID (rp_devices r)"
    if a: "Allowed ctx (md_TenantID v) (md_ID v)"
  proof -
    have "clean (md_TenantID v)" using allowed_tenant [OF assms(1,2) a] by simp
    then show ?thesis using rows_ok_get [OF rows] by (intro others_put_row [where tenant = md_TenantID and device = md_ID and ident = md_ID, OF assms(1,2) rows a]) auto
  qed
  then show ?thesis by (simp add: ChangeDevice SaveManagedDevice_scoped_def SaveManagedDevice_def same_others_def)
next
  case (ChangeState v)
  then show ?thesis using state_change_confined [OF assms(1-3)] by (simp add: UpsertDeviceState_scoped_def UpsertDeviceState_def Let_def)
next
  case (ChangeStateIf v)
  then show ?thesis using state_change_confined [OF assms(1-3)] by (simp add: UpsertDeviceStateIf_scoped_def UpsertDeviceStateIf_def Let_def)
next
  case (ChangeAlarm v)
  have "same_others ctx r (put_alarm (v\<lparr>al_Version := n\<rparr>) r)" if "Allowed ctx (al_TenantID v) (al_DeviceID v)" for n
    by (rule alarm_change_confined [OF assms(1-3)]) (use assms(4) ChangeAlarm that in simp_all)
  then show ?thesis by (simp add: ChangeAlarm UpdateAlarm_scoped_def UpdateAlarm_def split: option.split)
next
  case (ChangeAlarmIf v)
  have "same_others ctx r (put_alarm (v\<lparr>al_Version := n\<rparr>) r)" if "Allowed ctx (al_TenantID v) (al_DeviceID v)" for n
    by (rule alarm_change_confined [OF assms(1-3)]) (use assms(4) ChangeAlarmIf that in simp_all)
  then show ?thesis by (simp add: ChangeAlarmIf UpdateAlarmIf_scoped_def UpdateAlarmIf_def split: option.split)
next
  case (ReportExternal v)
  then show ?thesis using external_change_confined [OF assms(1-3)] by (simp add: UpsertExternalAlarm_scoped_def)
qed

text \<open>The check looks at the new value only: an alarm of another device is overwritten by one that names a granted device.\<close>

lemma moved_alarm_overwritten:
  assumes "stored_alarm r t i = Some old" "\<not> Allowed ctx t (al_DeviceID old)" "al_TenantID v = t" "al_ID v = i" "Allowed ctx t (al_DeviceID v)"
  shows "fst (UpdateAlarm_scoped ctx v r) = Inr () \<and> (\<exists>new. stored_alarm (snd (UpdateAlarm_scoped ctx v r)) t i = Some new \<and> al_DeviceID new = al_DeviceID v)"
  using assms by (auto simp: UpdateAlarm_scoped_def UpdateAlarm_def stored_alarm_def put_alarm_def)

end
