(* ===== verification/Scope_Samples.thy ===== *)
theory Scope_Samples
  imports Scope_Confinement Samples
begin

text \<open>A user who is granted one of two devices, for the witnesses on the device scope.\<close>

definition own_scope :: ctx where
  "own_scope = Some \<lparr>so_Tenant = ''t'', so_All = False, so_IDs = [(''d'', True)], so_Units = [], so_Sites = None\<rparr>"

definition scope_device :: "string \<Rightarrow> ManagedDevice" where
  "scope_device i = zero_ManagedDevice\<lparr>md_ID := i, md_TenantID := ''t''\<rparr>"

definition scope_alarm :: "string \<Rightarrow> string \<Rightarrow> Alarm" where
  "scope_alarm i d = zero_Alarm\<lparr>al_ID := i, al_TenantID := ''t'', al_DeviceID := d\<rparr>"

definition two_devices :: repo where
  "two_devices = NewRepository\<lparr>rp_devices := [(key [''t'', ''d''], scope_device ''d''), (key [''t'', ''e''], scope_device ''e'')],
     rp_alarms := [(key [''t'', ''a1''], scope_alarm ''a1'' ''d''), (key [''t'', ''a2''], scope_alarm ''a2'' ''e'')]\<rparr>"

definition one_device :: repo where
  "one_device = NewRepository\<lparr>rp_devices := [(key [''t'', ''d''], scope_device ''d'')], rp_alarms := [(key [''t'', ''a1''], scope_alarm ''a1'' ''d'')]\<rparr>"

definition all_alarms :: AlarmFilter where
  "all_alarms = zero_AlarmFilter\<lparr>af_TenantID := ''t''\<rparr>"

lemma clean_t: "clean ''t''"
  by code_simp

lemma own_scope_ok: "context_ok own_scope" "Limited own_scope"
  by (simp_all add: own_scope_def context_ok_def scope_ok_def Limited_def clean_t gm_ok_def)

lemma own_allowed: "Allowed own_scope t i \<longleftrightarrow> t = ''t'' \<and> i = ''d''"
  by (auto simp: own_scope_def Allowed_def Has_def flag_def gm_get_def)

lemma stores_ok: "store_ok two_devices" "store_ok one_device"
  by (simp_all add: store_ok_def rows_ok_def two_devices_def one_device_def NewRepository_def scope_device_def scope_alarm_def gm_ok_def key_two clean_t)

lemma two_one_agree: "agree own_scope two_devices one_device"
  by (simp add: agree_def two_devices_def one_device_def NewRepository_def seen_def gm_filter_def own_allowed scope_device_def scope_alarm_def
      seen_messages_def parsed_from_def gm_vals_def)

lemma two_one_indist: "indist own_scope two_devices one_device"
  using own_scope_ok stores_ok two_one_agree by (simp add: indist_def)

end
