(* ===== verification/Record_Lists.thy ===== *)
theory Record_Lists
  imports Go_Prelude
begin

text \<open>
  Records in a slice, found by their identity: the loops over the records of one kind that the site and the fire safety services share (find the record,
  append or overwrite it, cut it out), and what they do to the set of records and to their identities.
\<close>

fun find_id :: "('a \<Rightarrow> string) \<Rightarrow> string \<Rightarrow> 'a list \<Rightarrow> nat option" where
  "find_id ident i [] = None"
| "find_id ident i (v # vs) = (if ident v = i then Some 0 else map_option Suc (find_id ident i vs))"

definition put_at :: "nat option \<Rightarrow> 'a \<Rightarrow> 'a list \<Rightarrow> 'a list" where
  "put_at n v items = (case n of None \<Rightarrow> items @ [v] | Some n \<Rightarrow> items[n := v])"

definition remove_at :: "nat \<Rightarrow> 'a list \<Rightarrow> 'a list" where
  "remove_at n items = take n items @ drop (Suc n) items"

definition ids_ok :: "('a \<Rightarrow> string) \<Rightarrow> 'a list \<Rightarrow> bool" where
  "ids_ok ident items \<longleftrightarrow> distinct (map ident items) \<and> [] \<notin> ident ` set items"

definition alike :: "('a \<Rightarrow> string) \<Rightarrow> ('a \<Rightarrow> 'k) \<Rightarrow> 'a set \<Rightarrow> bool" where
  "alike ident k items \<longleftrightarrow> (\<forall>x \<in> items. \<forall>y \<in> items. k x = k y \<longrightarrow> ident x = ident y)"

subsection \<open>Lists of records\<close>

lemma find_id_Some: "find_id ident i items = Some n \<Longrightarrow> n < length items \<and> ident (items ! n) = i"
  by (induction items arbitrary: n) (auto split: if_splits)

lemma find_id_None: "find_id ident i items = None \<longleftrightarrow> i \<notin> ident ` set items"
  by (induction items) auto

lemma same_id:
  assumes "ids_ok ident items" "n < length items" "m < length items" "ident (items ! n) = ident (items ! m)"
  shows "n = m"
  using assms by (simp add: ids_ok_def distinct_conv_nth) metis

lemma set_update_id:
  assumes "ids_ok ident items" "n < length items" "ident (items ! n) = i"
  shows "set (items[n := v]) = insert v {x \<in> set items. ident x \<noteq> i}"
proof (rule set_eqI, rule iffI)
  fix x
  assume "x \<in> set (items[n := v])"
  then obtain m where m: "m < length items" "x = (if m = n then v else items ! m)" by (auto simp: in_set_conv_nth nth_list_update)
  then show "x \<in> insert v {x \<in> set items. ident x \<noteq> i}" using same_id [OF assms(1,2), of m] assms(3) by auto
next
  fix x
  assume "x \<in> insert v {x \<in> set items. ident x \<noteq> i}"
  then consider "x = v" | m where "m < length items" "x = items ! m" "ident x \<noteq> i" by (auto simp: in_set_conv_nth)
  then show "x \<in> set (items[n := v])"
  proof cases
    case 1
    then show ?thesis using assms(2) by (simp add: set_update_memI)
  next
    case 2
    then have "m \<noteq> n" using assms(3) by auto
    then have "items[n := v] ! m = x" using 2 by simp
    then show ?thesis using 2 by (metis length_list_update nth_mem)
  qed
qed

lemma set_remove_at:
  assumes "n < length items" "ident (items ! n) = i" "ids_ok ident items"
  shows "set (remove_at n items) = {x \<in> set items. ident x \<noteq> i}"
proof (rule set_eqI)
  fix x
  have "x \<in> set (remove_at n items) \<longleftrightarrow> (\<exists>m < length items. m \<noteq> n \<and> x = items ! m)"
  proof
    assume "x \<in> set (remove_at n items)"
    then consider m where "m < n" "x = items ! m" | m where "m < length items - Suc n" "x = items ! (Suc n + m)"
      using assms(1) by (auto simp: remove_at_def in_set_conv_nth)
    then show "\<exists>m < length items. m \<noteq> n \<and> x = items ! m"
    proof cases
      case (1 m)
      then show ?thesis using assms(1) by (intro exI [of _ m]) simp
    next
      case (2 m)
      then show ?thesis using assms(1) by (intro exI [of _ "Suc n + m"]) simp
    qed
  next
    assume "\<exists>m < length items. m \<noteq> n \<and> x = items ! m"
    then obtain m where m: "m < length items" "m \<noteq> n" "x = items ! m" by blast
    show "x \<in> set (remove_at n items)"
    proof (cases "m < n")
      case True
      then have "x = take n items ! m" "m < length (take n items)" using m by simp_all
      then have "x \<in> set (take n items)" using nth_mem by blast
      then show ?thesis by (simp add: remove_at_def)
    next
      case False
      then have "x = drop (Suc n) items ! (m - Suc n)" "m - Suc n < length (drop (Suc n) items)" using m by simp_all
      then have "x \<in> set (drop (Suc n) items)" using nth_mem by blast
      then show ?thesis by (simp add: remove_at_def)
    qed
  qed
  then show "x \<in> set (remove_at n items) \<longleftrightarrow> x \<in> {x \<in> set items. ident x \<noteq> i}"
    using same_id [OF assms(3,1)] assms(2) by (simp add: in_set_conv_nth) metis
qed

lemma ids_remove_at: "ids_ok ident items \<Longrightarrow> ids_ok ident (remove_at n items)"
proof -
  assume a: "ids_ok ident items"
  have "set (remove_at n items) \<subseteq> set items" by (auto simp: remove_at_def dest: in_set_takeD in_set_dropD)
  moreover have "distinct (map ident (remove_at n items))"
    using a set_take_disj_set_drop_if_distinct [of "map ident items" n "Suc n"]
    by (simp add: ids_ok_def remove_at_def flip: take_map drop_map set_map)
  ultimately show ?thesis using a by (auto simp: ids_ok_def)
qed

lemma ids_append: "ids_ok ident items \<Longrightarrow> ident v \<noteq> [] \<Longrightarrow> ident v \<notin> ident ` set items \<Longrightarrow> ids_ok ident (items @ [v])"
  by (auto simp: ids_ok_def)

lemma ids_update: "ids_ok ident items \<Longrightarrow> n < length items \<Longrightarrow> ident v = ident (items ! n) \<Longrightarrow> ids_ok ident (items[n := v])"
proof -
  assume a: "ids_ok ident items" "n < length items" "ident v = ident (items ! n)"
  have "map ident (items[n := v]) = map ident items" using a(2,3) by (simp add: map_update list_update_same_conv)
  then show ?thesis using a(1) unfolding ids_ok_def by (metis set_map)
qed

lemma alike_put: "alike ident k items \<Longrightarrow> (\<And>x. x \<in> items \<Longrightarrow> ident x \<noteq> i \<Longrightarrow> k x \<noteq> k v) \<Longrightarrow> alike ident k (insert v {x \<in> items. ident x \<noteq> i})"
proof -
  assume a: "alike ident k items" "\<And>x. x \<in> items \<Longrightarrow> ident x \<noteq> i \<Longrightarrow> k x \<noteq> k v"
  show ?thesis unfolding alike_def
  proof (intro ballI impI)
    fix x y
    assume "x \<in> insert v {x \<in> items. ident x \<noteq> i}" "y \<in> insert v {x \<in> items. ident x \<noteq> i}" "k x = k y"
    then have m: "x = v \<or> x \<in> items \<and> ident x \<noteq> i" "y = v \<or> y \<in> items \<and> ident y \<noteq> i" and k: "k x = k y" by blast+
    show "ident x = ident y"
    proof (cases "x = v \<or> y = v")
      case True
      then have "x = y" using m k a(2) [of x] a(2) [of y] by metis
      then show ?thesis by simp
    next
      case False
      then show ?thesis using a(1) m k by (simp add: alike_def)
    qed
  qed
qed

lemma alike_subset: "alike ident k items \<Longrightarrow> items' \<subseteq> items \<Longrightarrow> alike ident k items'"
  by (auto simp: alike_def)

lemma list_ex_no: "\<not> list_ex p xs \<Longrightarrow> x \<in> set xs \<Longrightarrow> \<not> p x"
  by (simp add: list_ex_iff)

end
