(* ===== verification/Site_Records.thy ===== *)
theory Site_Records
  imports Device_Scope Point_Table Alarm_Reports Record_Lists
begin

text \<open>
  Where devices are installed: the records of \<^verbatim>\<open>internal/model/sites.go\<close> and the changes of \<^verbatim>\<open>internal/sites/service.go\<close> to one tenant's state
  of units, buildings, floors and points. A change is the function that \<^verbatim>\<open>apply\<close> runs on a copy of the state: it takes what the closure has captured,
  the state, the time and the identities that \<^verbatim>\<open>uuid.NewString\<close> gives in this attempt, and returns what it leaves in the captured variable next to an
  error or the changed state with the result. Error texts are abbreviated to English phrases.
\<close>

subsection \<open>Records (model/sites.go)\<close>

record SiteUnit =
  su_SiteRecord :: SiteRecord
  su_Name :: string
  su_Code :: string
  su_Address :: string
  su_Contact :: string
  su_Phone :: string
  su_Notes :: string

record SiteBuilding =
  bu_SiteRecord :: SiteRecord
  bu_UnitID :: string
  bu_Name :: string
  bu_Address :: string
  bu_AboveFloors :: int
  bu_BelowFloors :: int
  bu_Notes :: string

record FloorPlan =
  fp_ContentType :: string
  fp_SHA256 :: string
  fp_Size :: int
  fp_Width :: int
  fp_Height :: int
  fp_UploadedAt :: int

record SiteFloor =
  sf_SiteRecord :: SiteRecord
  sf_BuildingID :: string
  sf_Name :: string
  sf_Level :: int
  sf_Plan :: "FloorPlan option"

record SiteState =
  ss_Revision :: int
  ss_Units :: "SiteUnit list"
  ss_Buildings :: "SiteBuilding list"
  ss_Floors :: "SiteFloor list"
  ss_Points :: "SitePoint list"

definition zero_SiteState :: SiteState where
  "zero_SiteState = \<lparr>ss_Revision = 0, ss_Units = [], ss_Buildings = [], ss_Floors = [], ss_Points = []\<rparr>"

definition unitID :: "SiteUnit \<Rightarrow> string" where
  "unitID v = sr_ID (su_SiteRecord v)"

definition buildingID :: "SiteBuilding \<Rightarrow> string" where
  "buildingID v = sr_ID (bu_SiteRecord v)"

definition floorID :: "SiteFloor \<Rightarrow> string" where
  "floorID v = sr_ID (sf_SiteRecord v)"

definition pointID :: "SitePoint \<Rightarrow> string" where
  "pointID v = sr_ID (st_SiteRecord v)"

subsection \<open>Helpers (service.go)\<close>

datatype site_error = SiteInvalid string | SiteMissing string | SiteConflict string | SiteStore

type_synonym ids = "nat \<Rightarrow> string"
type_synonym ('c, 'r) change = "'c \<Rightarrow> SiteState \<Rightarrow> int \<Rightarrow> ids \<Rightarrow> 'c \<times> (site_error + SiteState \<times> 'r)"

definition site_text :: "string \<Rightarrow> bool \<Rightarrow> nat \<Rightarrow> string \<Rightarrow> site_error + string" where
  "site_text label required limit s =
     (let v = trim_space s in
      if required \<and> v = [] then Inl (SiteInvalid (label @ '' is empty''))
      else if length (runes v) > limit then Inl (SiteInvalid (label @ '' is too long''))
      else Inr v)"

definition stamp :: "SiteRecord \<Rightarrow> SiteRecord option \<Rightarrow> string \<Rightarrow> int \<Rightarrow> string \<Rightarrow> site_error + SiteRecord" where
  "stamp record old actor now uuid = (case old of
     None \<Rightarrow> Inr \<lparr>sr_ID = uuid, sr_Version = 1, sr_CreatedAt = now, sr_UpdatedAt = now, sr_UpdatedBy = actor\<rparr>
   | Some old \<Rightarrow>
       if sr_Version record \<noteq> sr_Version old then Inl (SiteConflict ''record was updated'')
       else Inr (old\<lparr>sr_Version := sr_Version old + 1, sr_UpdatedAt := now, sr_UpdatedBy := actor\<rparr>))"

definition requireVersion :: "SiteRecord \<Rightarrow> int \<Rightarrow> site_error + unit" where
  "requireVersion record version = require (sr_Version record = version) (SiteConflict ''record was updated'')"

text \<open>The index of an edited record: none for a record without an identity, which is created.\<close>

definition edited :: "string \<Rightarrow> ('a \<Rightarrow> string) \<Rightarrow> string \<Rightarrow> 'a list \<Rightarrow> site_error + nat option" where
  "edited label ident i items =
     (if i = [] then Inr None else case find_id ident i items of None \<Rightarrow> Inl (SiteMissing label) | Some n \<Rightarrow> Inr (Some n))"

definition found :: "string \<Rightarrow> ('a \<Rightarrow> string) \<Rightarrow> string \<Rightarrow> 'a list \<Rightarrow> site_error + nat" where
  "found label ident i items = (case find_id ident i items of None \<Rightarrow> Inl (SiteMissing label) | Some n \<Rightarrow> Inr n)"

text \<open>A change that leaves the captured variable as it is.\<close>

definition uncaptured :: "(SiteState \<Rightarrow> int \<Rightarrow> ids \<Rightarrow> site_error + SiteState \<times> 'r) \<Rightarrow> ('c, 'r) change" where
  "uncaptured f c state now ids = (c, f state now ids)"

subsection \<open>Units\<close>

definition unit_text :: "SiteUnit \<Rightarrow> site_error + SiteUnit" where
  "unit_text v =
     rbind (site_text ''unit name'' True 100 (su_Name v)) (\<lambda>name.
     rbind (site_text ''unit code'' False 64 (su_Code v)) (\<lambda>code.
     rbind (site_text ''address'' False 200 (su_Address v)) (\<lambda>address.
     rbind (site_text ''contact'' False 50 (su_Contact v)) (\<lambda>contact.
     rbind (site_text ''phone'' False 32 (su_Phone v)) (\<lambda>phone.
     rbind (site_text ''notes'' False 500 (su_Notes v)) (\<lambda>notes.
     Inr (v\<lparr>su_Name := name, su_Code := code, su_Address := address, su_Contact := contact, su_Phone := phone, su_Notes := notes\<rparr>)))))))"

definition save_unit :: "string \<Rightarrow> SiteUnit \<Rightarrow> SiteState \<Rightarrow> int \<Rightarrow> ids \<Rightarrow> site_error + SiteState \<times> SiteUnit" where
  "save_unit actor v state now ids =
     rbind (edited ''unit'' unitID (unitID v) (ss_Units state)) (\<lambda>index.
     rbind (require (\<not> list_ex (\<lambda>other. unitID other \<noteq> unitID v \<and> (su_Name other = su_Name v \<or> (su_Code v \<noteq> [] \<and> su_Code other = su_Code v)))
         (ss_Units state)) (SiteConflict ''unit name or code exists'')) (\<lambda>_.
     rbind (stamp (su_SiteRecord v) (map_option (\<lambda>n. su_SiteRecord (ss_Units state ! n)) index) actor now (ids 0)) (\<lambda>record.
     let v = v\<lparr>su_SiteRecord := record\<rparr> in Inr (state\<lparr>ss_Units := put_at index v (ss_Units state)\<rparr>, v))))"

definition delete_unit :: "string \<Rightarrow> int \<Rightarrow> SiteState \<Rightarrow> int \<Rightarrow> ids \<Rightarrow> site_error + SiteState \<times> unit" where
  "delete_unit i version state now ids =
     rbind (found ''unit'' unitID i (ss_Units state)) (\<lambda>index.
     rbind (requireVersion (su_SiteRecord (ss_Units state ! index)) version) (\<lambda>_.
     rbind (require (\<not> list_ex (\<lambda>b. bu_UnitID b = i) (ss_Buildings state)) (SiteConflict ''unit has buildings'')) (\<lambda>_.
     rbind (require (\<not> list_ex (\<lambda>p. st_UnitID p = i) (ss_Points state)) (SiteConflict ''unit has points'')) (\<lambda>_.
     Inr (state\<lparr>ss_Units := remove_at index (ss_Units state)\<rparr>, ())))))"

subsection \<open>Buildings\<close>

definition building_text :: "SiteBuilding \<Rightarrow> site_error + SiteBuilding" where
  "building_text v =
     rbind (site_text ''building name'' True 100 (bu_Name v)) (\<lambda>name.
     rbind (site_text ''address'' False 200 (bu_Address v)) (\<lambda>address.
     rbind (site_text ''notes'' False 500 (bu_Notes v)) (\<lambda>notes.
     if bu_AboveFloors v < 0 \<or> bu_AboveFloors v > 300 \<or> bu_BelowFloors v < 0 \<or> bu_BelowFloors v > 20 then Inl (SiteInvalid ''floor counts'')
     else Inr (v\<lparr>bu_Name := name, bu_Address := address, bu_Notes := notes\<rparr>))))"

definition hasBuildingPoints :: "SiteState \<Rightarrow> string \<Rightarrow> bool" where
  "hasBuildingPoints state i \<longleftrightarrow> list_ex (\<lambda>p. st_BuildingID p = i) (ss_Points state)"

definition save_building :: "string \<Rightarrow> SiteBuilding \<Rightarrow> SiteState \<Rightarrow> int \<Rightarrow> ids \<Rightarrow> site_error + SiteState \<times> SiteBuilding" where
  "save_building actor v state now ids =
     rbind (found ''unit'' unitID (bu_UnitID v) (ss_Units state)) (\<lambda>_.
     rbind (edited ''building'' buildingID (buildingID v) (ss_Buildings state)) (\<lambda>index.
     rbind (require (case index of None \<Rightarrow> True | Some n \<Rightarrow> \<not> (bu_UnitID (ss_Buildings state ! n) \<noteq> bu_UnitID v \<and> hasBuildingPoints state (buildingID v)))
         (SiteConflict ''building has points'')) (\<lambda>_.
     rbind (require (\<not> list_ex (\<lambda>other. buildingID other \<noteq> buildingID v \<and> bu_UnitID other = bu_UnitID v \<and> bu_Name other = bu_Name v) (ss_Buildings state))
         (SiteConflict ''building name exists'')) (\<lambda>_.
     rbind (stamp (bu_SiteRecord v) (map_option (\<lambda>n. bu_SiteRecord (ss_Buildings state ! n)) index) actor now (ids 0)) (\<lambda>record.
     let v = v\<lparr>bu_SiteRecord := record\<rparr> in Inr (state\<lparr>ss_Buildings := put_at index v (ss_Buildings state)\<rparr>, v))))))"

definition delete_building :: "string \<Rightarrow> int \<Rightarrow> SiteState \<Rightarrow> int \<Rightarrow> ids \<Rightarrow> site_error + SiteState \<times> unit" where
  "delete_building i version state now ids =
     rbind (found ''building'' buildingID i (ss_Buildings state)) (\<lambda>index.
     rbind (requireVersion (bu_SiteRecord (ss_Buildings state ! index)) version) (\<lambda>_.
     rbind (require (\<not> list_ex (\<lambda>f. sf_BuildingID f = i) (ss_Floors state)) (SiteConflict ''building has floors'')) (\<lambda>_.
     rbind (require (\<not> hasBuildingPoints state i) (SiteConflict ''building has points'')) (\<lambda>_.
     Inr (state\<lparr>ss_Buildings := remove_at index (ss_Buildings state)\<rparr>, ())))))"

subsection \<open>Floors\<close>

definition floor_text :: "SiteFloor \<Rightarrow> site_error + SiteFloor" where
  "floor_text v =
     rbind (site_text ''floor name'' True 50 (sf_Name v)) (\<lambda>name.
     if sf_Level v < -20 \<or> sf_Level v > 300 then Inl (SiteInvalid ''floor level'') else Inr (v\<lparr>sf_Name := name\<rparr>))"

definition save_floor :: "string \<Rightarrow> SiteFloor \<Rightarrow> SiteState \<Rightarrow> int \<Rightarrow> ids \<Rightarrow> site_error + SiteState \<times> SiteFloor" where
  "save_floor actor v state now ids =
     rbind (found ''building'' buildingID (sf_BuildingID v) (ss_Buildings state)) (\<lambda>_.
     rbind (edited ''floor'' floorID (floorID v) (ss_Floors state)) (\<lambda>index.
     rbind (require (case index of None \<Rightarrow> True | Some n \<Rightarrow> sf_BuildingID (ss_Floors state ! n) = sf_BuildingID v) (SiteInvalid ''floor of another building'')) (\<lambda>_.
     let v = v\<lparr>sf_Plan := (case index of None \<Rightarrow> None | Some n \<Rightarrow> sf_Plan (ss_Floors state ! n))\<rparr> in
     rbind (require (\<not> list_ex (\<lambda>other. floorID other \<noteq> floorID v \<and> sf_BuildingID other = sf_BuildingID v \<and> sf_Name other = sf_Name v) (ss_Floors state))
         (SiteConflict ''floor name exists'')) (\<lambda>_.
     rbind (stamp (sf_SiteRecord v) (map_option (\<lambda>n. sf_SiteRecord (ss_Floors state ! n)) index) actor now (ids 0)) (\<lambda>record.
     let v = v\<lparr>sf_SiteRecord := record\<rparr> in Inr (state\<lparr>ss_Floors := put_at index v (ss_Floors state)\<rparr>, v))))))"

text \<open>The replaced plan and the removed records are left in captured variables.\<close>

definition set_floor_plan :: "string \<Rightarrow> string \<Rightarrow> int \<Rightarrow> FloorPlan \<Rightarrow> (FloorPlan option, SiteFloor) change" where
  "set_floor_plan actor i version plan previous state now ids =
     (case rbind (found ''floor'' floorID i (ss_Floors state)) (\<lambda>index.
        rbind (requireVersion (sf_SiteRecord (ss_Floors state ! index)) version) (\<lambda>_. Inr index)) of
        Inl e \<Rightarrow> (previous, Inl e)
      | Inr index \<Rightarrow>
          (let v = ss_Floors state ! index; record = sf_SiteRecord v;
               v' = v\<lparr>sf_Plan := Some (plan\<lparr>fp_UploadedAt := now\<rparr>),
                      sf_SiteRecord := record\<lparr>sr_Version := sr_Version record + 1, sr_UpdatedAt := now, sr_UpdatedBy := actor\<rparr>\<rparr> in
           (sf_Plan v, Inr (state\<lparr>ss_Floors := (ss_Floors state)[index := v']\<rparr>, v'))))"

definition delete_floor :: "string \<Rightarrow> int \<Rightarrow> (FloorPlan option, unit) change" where
  "delete_floor i version plan state now ids =
     (case rbind (found ''floor'' floorID i (ss_Floors state)) (\<lambda>index.
        rbind (requireVersion (sf_SiteRecord (ss_Floors state ! index)) version) (\<lambda>_.
        rbind (require (\<not> list_ex (\<lambda>p. st_FloorID p = i) (ss_Points state)) (SiteConflict ''floor has points'')) (\<lambda>_. Inr index))) of
        Inl e \<Rightarrow> (plan, Inl e)
      | Inr index \<Rightarrow> (sf_Plan (ss_Floors state ! index), Inr (state\<lparr>ss_Floors := remove_at index (ss_Floors state)\<rparr>, ())))"

subsection \<open>Points\<close>

definition validFraction :: "f64 option \<Rightarrow> bool" where
  "validFraction v \<longleftrightarrow> (case v of None \<Rightarrow> False | Some x \<Rightarrow> x \<noteq> FNaN \<and> f64_le (FNum 0) x \<and> f64_le x (FNum 1))"

definition place_floor :: "SiteState \<Rightarrow> SitePoint \<Rightarrow> site_error + SitePoint" where
  "place_floor state v =
     (if st_FloorID v = [] then Inr v
      else rbind (found ''floor'' floorID (st_FloorID v) (ss_Floors state)) (\<lambda>index.
        let floor = ss_Floors state ! index in
        if st_BuildingID v \<noteq> [] \<and> st_BuildingID v \<noteq> sf_BuildingID floor then Inl (SiteInvalid ''floor of another building'')
        else Inr (v\<lparr>st_BuildingID := sf_BuildingID floor\<rparr>)))"

definition place_building :: "SiteState \<Rightarrow> SitePoint \<Rightarrow> site_error + SitePoint" where
  "place_building state v =
     (if st_BuildingID v = [] then Inr v
      else rbind (found ''building'' buildingID (st_BuildingID v) (ss_Buildings state)) (\<lambda>index.
        let building = ss_Buildings state ! index in
        if st_UnitID v \<noteq> [] \<and> st_UnitID v \<noteq> bu_UnitID building then Inl (SiteInvalid ''building of another unit'')
        else Inr (v\<lparr>st_UnitID := bu_UnitID building\<rparr>)))"

definition place_mark :: "SiteState \<Rightarrow> SitePoint \<Rightarrow> site_error + unit" where
  "place_mark state v =
     (if (st_X v = None) \<noteq> (st_Y v = None) then Inl (SiteInvalid ''coordinates come in pairs'')
      else if st_X v = None then Inr ()
      else if \<not> validFraction (st_X v) \<or> \<not> validFraction (st_Y v) then Inl (SiteInvalid ''coordinates are fractions'')
      else case find_id floorID (st_FloorID v) (ss_Floors state) of
          None \<Rightarrow> Inl (SiteInvalid ''floor has no plan'')
        | Some index \<Rightarrow> if sf_Plan (ss_Floors state ! index) = None then Inl (SiteInvalid ''floor has no plan'') else Inr ())"

definition placePoint :: "SiteState \<Rightarrow> SitePoint \<Rightarrow> site_error + SitePoint" where
  "placePoint state v =
     rbind (place_floor state v) (\<lambda>v. rbind (place_building state v) (\<lambda>v.
     rbind (found ''unit'' unitID (st_UnitID v) (ss_Units state)) (\<lambda>_. rbind (place_mark state v) (\<lambda>_. Inr v))))"

definition point_text :: "SitePoint \<Rightarrow> site_error + SitePoint" where
  "point_text v =
     rbind (site_text ''device id'' True 128 (st_DeviceID v)) (\<lambda>device.
     rbind (site_text ''component id'' False 128 (st_ComponentID v)) (\<lambda>component.
     rbind (site_text ''point name'' False 100 (st_Name v)) (\<lambda>name.
     Inr (v\<lparr>st_DeviceID := device, st_ComponentID := component, st_Name := name\<rparr>))))"

definition save_point :: "string \<Rightarrow> SitePoint \<Rightarrow> SiteState \<Rightarrow> int \<Rightarrow> ids \<Rightarrow> site_error + SiteState \<times> SitePoint" where
  "save_point actor v state now ids =
     rbind (placePoint state v) (\<lambda>v.
     rbind (edited ''point'' pointID (pointID v) (ss_Points state)) (\<lambda>index.
     rbind (require (\<not> list_ex (\<lambda>other. pointID other \<noteq> pointID v \<and> st_DeviceID other = st_DeviceID v \<and> st_ComponentID other = st_ComponentID v)
         (ss_Points state)) (SiteConflict ''device or component is placed'')) (\<lambda>_.
     rbind (stamp (st_SiteRecord v) (map_option (\<lambda>n. st_SiteRecord (ss_Points state ! n)) index) actor now (ids 0)) (\<lambda>record.
     let v = v\<lparr>st_SiteRecord := record\<rparr> in Inr (state\<lparr>ss_Points := put_at index v (ss_Points state)\<rparr>, v)))))"

definition delete_point :: "string \<Rightarrow> int \<Rightarrow> (SitePoint option, unit) change" where
  "delete_point i version removed state now ids =
     (case rbind (found ''point'' pointID i (ss_Points state)) (\<lambda>index.
        rbind (requireVersion (st_SiteRecord (ss_Points state ! index)) version) (\<lambda>_. Inr index)) of
        Inl e \<Rightarrow> (removed, Inl e)
      | Inr index \<Rightarrow> (Some (ss_Points state ! index), Inr (state\<lparr>ss_Points := remove_at index (ss_Points state)\<rparr>, ())))"

subsection \<open>Lookups\<close>

definition name_of :: "('a \<Rightarrow> string) \<Rightarrow> ('a \<Rightarrow> string) \<Rightarrow> string \<Rightarrow> 'a list \<Rightarrow> string" where
  "name_of ident name i items = (case find_id ident i items of None \<Rightarrow> [] | Some n \<Rightarrow> name (items ! n))"

text \<open>The device's candidates in ascending order: the first with the component, otherwise the first for the whole device.\<close>

fun pick_point :: "SitePoint list \<Rightarrow> nat list \<Rightarrow> string \<Rightarrow> SitePoint option \<Rightarrow> SitePoint option" where
  "pick_point points [] component point = point"
| "pick_point points (i # is) component point =
     (let p = points ! i in
      if st_ComponentID p = component then Some p
      else pick_point points is component (if st_ComponentID p = [] \<and> point = None then Some p else point))"

definition located :: "SiteState \<Rightarrow> SitePoint \<Rightarrow> AlarmLocation" where
  "located state p =
     (let placed = st_FloorID p \<noteq> [] \<and> st_X p \<noteq> None \<and> st_Y p \<noteq> None in
      \<lparr>lo_UnitID = st_UnitID p, lo_UnitName = name_of unitID su_Name (st_UnitID p) (ss_Units state),
       lo_BuildingID = st_BuildingID p, lo_BuildingName = name_of buildingID bu_Name (st_BuildingID p) (ss_Buildings state),
       lo_FloorID = st_FloorID p, lo_FloorName = name_of floorID sf_Name (st_FloorID p) (ss_Floors state),
       lo_PointID = pointID p, lo_PointName = st_Name p, lo_X = (if placed then st_X p else None), lo_Y = (if placed then st_Y p else None),
       lo_Current = False\<rparr>)"

definition locate :: "SiteState \<Rightarrow> nat list \<Rightarrow> string \<Rightarrow> AlarmLocation option" where
  "locate state candidates component = map_option (located state) (pick_point (ss_Points state) candidates component None)"

definition Locate :: "SiteState \<Rightarrow> string \<Rightarrow> string \<Rightarrow> AlarmLocation option" where
  "Locate state device component = locate state (filter (\<lambda>i. st_DeviceID (ss_Points state ! i) = device) [0..<length (ss_Points state)]) component"

definition SortState :: "SiteState \<Rightarrow> SiteState" where
  "SortState state = state\<lparr>ss_Units := sort_key su_Name (ss_Units state), ss_Buildings := sort_key bu_Name (ss_Buildings state),
     ss_Floors := sort_key (\<lambda>f. - sf_Level f) (ss_Floors state), ss_Points := sort_key (\<lambda>p. (st_DeviceID p, st_ComponentID p)) (ss_Points state)\<rparr>"

definition maxNearbyDevices :: nat where
  "maxNearbyDevices = 500"

fun near :: "AlarmLocation \<Rightarrow> SitePoint list \<Rightarrow> string list \<Rightarrow> string list \<Rightarrow> string list" where
  "near loc [] seen out = out"
| "near loc (p # ps) seen out =
     (if st_BuildingID p \<noteq> lo_BuildingID loc \<or> (lo_FloorID loc \<noteq> [] \<and> st_FloorID p \<noteq> lo_FloorID loc) \<or> st_DeviceID p \<in> set seen then near loc ps seen out
      else let out = out @ [st_DeviceID p] in
        if length out = maxNearbyDevices then out else near loc ps (st_DeviceID p # seen) out)"

end
