(* ===== verification/Site_Service.thy ===== *)
theory Site_Service
  imports Site_Records
begin

text \<open>
  The site service of \<^verbatim>\<open>internal/sites/service.go\<close> over the store of \<^verbatim>\<open>internal/adapters/memory/sites.go\<close>: the snapshot cache, the optimistic
  \<^verbatim>\<open>apply\<close> with its eight attempts, and the operations that run on it. Other requests and other replicas run at the same time: before every step that
  takes a lock or calls the store, the world's script names what they did meanwhile (commits to the store, snapshots remembered in the cache) and
  whether the request was cancelled. A stored body is the state it decodes to; encoding fails on a coordinate that is no finite number.
\<close>

subsection \<open>The store (memory/sites.go)\<close>

definition site_of :: "SiteState gomap \<Rightarrow> string \<Rightarrow> SiteState" where
  "site_of store tenant = (case gm_get store tenant of None \<Rightarrow> zero_SiteState | Some s \<Rightarrow> s)"

definition finite_mark :: "f64 option \<Rightarrow> bool" where
  "finite_mark x \<longleftrightarrow> (case x of Some (FNum _) \<Rightarrow> True | None \<Rightarrow> True | _ \<Rightarrow> False)"

definition encodes :: "SiteState \<Rightarrow> bool" where
  "encodes state \<longleftrightarrow> list_all (\<lambda>p. finite_mark (st_X p) \<and> finite_mark (st_Y p)) (ss_Points state)"

subsection \<open>The service and what runs beside it\<close>

record pointIndex =
  pi_revision :: int
  pi_byDevice :: "nat list gomap"

definition index_points :: "SitePoint list \<Rightarrow> nat list gomap" where
  "index_points points = fold (\<lambda>(i, p) m. gm_put (st_DeviceID p) ((case gm_get m (st_DeviceID p) of None \<Rightarrow> [] | Some l \<Rightarrow> l) @ [i]) m) (enumerate 0 points) []"

definition new_index :: "SiteState \<Rightarrow> pointIndex" where
  "new_index state = \<lparr>pi_revision = ss_Revision state, pi_byDevice = index_points (ss_Points state)\<rparr>"

text \<open>
  What another request does: it commits a state, it remembers a state that it loaded now or earlier, or it indexes such a state. To name the states that
  were loaded earlier, the world carries every state that was committed; no operation reads it.
\<close>

datatype meanwhile = Committed string SiteState | Remembered string nat | Indexed string nat

record site_world =
  sw_store :: "SiteState gomap"
  sw_past :: "(string \<times> SiteState) list"
  sw_cache :: "SiteState gomap"
  sw_points :: "pointIndex gomap"
  sw_script :: "(bool \<times> meanwhile list) list"

definition past_of :: "string \<Rightarrow> nat \<Rightarrow> site_world \<Rightarrow> SiteState" where
  "past_of tenant n w = (let ps = filter (\<lambda>e. fst e = tenant) (sw_past w) in if n < length ps then snd (ps ! n) else zero_SiteState)"

definition commit :: "string \<Rightarrow> SiteState \<Rightarrow> SiteState gomap \<Rightarrow> SiteState gomap" where
  "commit tenant state store = gm_put tenant (state\<lparr>ss_Revision := ss_Revision (site_of store tenant) + 1\<rparr>) store"

definition committed :: "string \<Rightarrow> SiteState \<Rightarrow> site_world \<Rightarrow> site_world" where
  "committed tenant state w = (let store = commit tenant state (sw_store w) in
     w\<lparr>sw_store := store, sw_past := (tenant, site_of store tenant) # sw_past w\<rparr>)"

definition maxCachedTenants :: nat where
  "maxCachedTenants = 4096"

definition remember :: "string \<Rightarrow> SiteState \<Rightarrow> SiteState gomap \<Rightarrow> SiteState gomap" where
  "remember tenant state cache = (case gm_get cache tenant of
     None \<Rightarrow>
       if ss_Revision state = 0 then cache
       else gm_put tenant state (if length cache \<ge> maxCachedTenants then gm_del (fst (hd cache)) cache else cache)
   | Some previous \<Rightarrow> if ss_Revision previous \<le> ss_Revision state then gm_put tenant state cache else cache)"

fun happen :: "meanwhile \<Rightarrow> site_world \<Rightarrow> site_world" where
  "happen (Committed tenant state) w = committed tenant state w"
| "happen (Remembered tenant n) w = w\<lparr>sw_cache := remember tenant (past_of tenant n w) (sw_cache w)\<rparr>"
| "happen (Indexed tenant n) w = w\<lparr>sw_points := gm_put tenant (new_index (past_of tenant n w)) (sw_points w)\<rparr>"

definition turn :: "site_world \<Rightarrow> bool \<times> site_world" where
  "turn w = (case sw_script w of
     [] \<Rightarrow> (False, w)
   | (cancelled, events) # rest \<Rightarrow> (cancelled, fold happen events (w\<lparr>sw_script := rest\<rparr>)))"

subsection \<open>Calls\<close>

definition SiteRevision :: "string \<Rightarrow> site_world \<Rightarrow> (site_error + int) \<times> site_world" where
  "SiteRevision tenant w = (case turn w of (cancelled, w) \<Rightarrow>
     (if cancelled then Inl SiteStore else Inr (ss_Revision (site_of (sw_store w) tenant)), w))"

definition LoadSiteState :: "string \<Rightarrow> site_world \<Rightarrow> (site_error + SiteState) \<times> site_world" where
  "LoadSiteState tenant w = (case turn w of (cancelled, w) \<Rightarrow>
     (if cancelled then Inl SiteStore else Inr (site_of (sw_store w) tenant), w))"

definition SaveSiteState :: "string \<Rightarrow> SiteState \<Rightarrow> SiteState \<Rightarrow> site_world \<Rightarrow> (site_error + bool) \<times> site_world" where
  "SaveSiteState tenant base state w = (case turn w of (cancelled, w) \<Rightarrow>
     (if cancelled then (Inl SiteStore, w)
      else if ss_Revision (site_of (sw_store w) tenant) \<noteq> ss_Revision base then (Inr False, w)
      else if \<not> encodes state then (Inl SiteStore, w)
      else (Inr True, committed tenant state w)))"

definition cached :: "string \<Rightarrow> site_world \<Rightarrow> SiteState option \<times> site_world" where
  "cached tenant w = (let w = snd (turn w) in (gm_get (sw_cache w) tenant, w))"

definition remember_call :: "string \<Rightarrow> SiteState \<Rightarrow> site_world \<Rightarrow> site_world" where
  "remember_call tenant state w = (let w = snd (turn w) in w\<lparr>sw_cache := remember tenant state (sw_cache w)\<rparr>)"

definition load_snapshot :: "string \<Rightarrow> site_world \<Rightarrow> (site_error + SiteState) \<times> site_world" where
  "load_snapshot tenant w = (case LoadSiteState tenant w of
     (Inl e, w) \<Rightarrow> (Inl e, w)
   | (Inr state, w) \<Rightarrow> (Inr state, remember_call tenant state w))"

definition Snapshot :: "string \<Rightarrow> site_world \<Rightarrow> (site_error + SiteState) \<times> site_world" where
  "Snapshot tenant w = (case SiteRevision tenant w of
     (Inl e, w) \<Rightarrow> (Inl e, w)
   | (Inr revision, w) \<Rightarrow> (case cached tenant w of
       (None, w) \<Rightarrow> load_snapshot tenant w
     | (Some state, w) \<Rightarrow> if ss_Revision state = revision then (Inr state, w) else load_snapshot tenant w))"

text \<open>The loop of \<^verbatim>\<open>apply\<close>: \<open>k\<close> counts the attempts, and with it the readings of the clock and the supply of identities.\<close>

fun attempts_from :: "nat \<Rightarrow> nat \<Rightarrow> string \<Rightarrow> ('c, 'r) change \<Rightarrow> (nat \<Rightarrow> int) \<Rightarrow> (nat \<Rightarrow> ids) \<Rightarrow> 'c \<Rightarrow> site_world \<Rightarrow> ('c \<times> (site_error + 'r)) \<times> site_world" where
  "attempts_from 0 k tenant f clock uuid c w = ((c, Inl (SiteConflict ''concurrent updates'')), w)"
| "attempts_from (Suc n) k tenant f clock uuid c w = (case Snapshot tenant w of
     (Inl e, w) \<Rightarrow> ((c, Inl e), w)
   | (Inr base, w) \<Rightarrow> (case f c base (clock k) (uuid k) of
       (c, Inl e) \<Rightarrow> ((c, Inl e), w)
     | (c, Inr (state, r)) \<Rightarrow> (case SaveSiteState tenant base state w of
         (Inl e, w) \<Rightarrow> ((c, Inl e), w)
       | (Inr True, w) \<Rightarrow> ((c, Inr r), remember_call tenant (state\<lparr>ss_Revision := ss_Revision base + 1\<rparr>) w)
       | (Inr False, w) \<Rightarrow> attempts_from n (Suc k) tenant f clock uuid c w)))"

definition site_apply :: "string \<Rightarrow> ('c, 'r) change \<Rightarrow> (nat \<Rightarrow> int) \<Rightarrow> (nat \<Rightarrow> ids) \<Rightarrow> 'c \<Rightarrow> site_world \<Rightarrow> ('c \<times> (site_error + 'r)) \<times> site_world" where
  "site_apply tenant f clock uuid c w =
     (if trim_space tenant = [] then ((c, Inl (SiteInvalid ''tenant is empty'')), w)
      else attempts_from 8 0 tenant f clock uuid c w)"

subsection \<open>Operations\<close>

definition checked_save :: "string \<Rightarrow> (site_error + 'v) \<Rightarrow> ('v \<Rightarrow> SiteState \<Rightarrow> int \<Rightarrow> ids \<Rightarrow> site_error + SiteState \<times> 'v) \<Rightarrow> (nat \<Rightarrow> int) \<Rightarrow> (nat \<Rightarrow> ids) \<Rightarrow>
    site_world \<Rightarrow> (site_error + 'v) \<times> site_world" where
  "checked_save tenant input f clock uuid w = (case input of
     Inl e \<Rightarrow> (Inl e, w)
   | Inr v \<Rightarrow> (case site_apply tenant (uncaptured (f v)) clock uuid () w of ((_, r), w) \<Rightarrow> (r, w)))"

definition SaveUnit :: "string \<Rightarrow> string \<Rightarrow> SiteUnit \<Rightarrow> (nat \<Rightarrow> int) \<Rightarrow> (nat \<Rightarrow> ids) \<Rightarrow> site_world \<Rightarrow> (site_error + SiteUnit) \<times> site_world" where
  "SaveUnit tenant actor v = checked_save tenant (unit_text v) (save_unit actor)"

definition DeleteUnit :: "string \<Rightarrow> string \<Rightarrow> int \<Rightarrow> (nat \<Rightarrow> int) \<Rightarrow> (nat \<Rightarrow> ids) \<Rightarrow> site_world \<Rightarrow> (site_error + unit) \<times> site_world" where
  "DeleteUnit tenant i version clock uuid w = (case site_apply tenant (uncaptured (delete_unit i version)) clock uuid () w of ((_, r), w) \<Rightarrow> (r, w))"

definition SaveBuilding :: "string \<Rightarrow> string \<Rightarrow> SiteBuilding \<Rightarrow> (nat \<Rightarrow> int) \<Rightarrow> (nat \<Rightarrow> ids) \<Rightarrow> site_world \<Rightarrow> (site_error + SiteBuilding) \<times> site_world" where
  "SaveBuilding tenant actor v = checked_save tenant (building_text v) (save_building actor)"

definition DeleteBuilding :: "string \<Rightarrow> string \<Rightarrow> int \<Rightarrow> (nat \<Rightarrow> int) \<Rightarrow> (nat \<Rightarrow> ids) \<Rightarrow> site_world \<Rightarrow> (site_error + unit) \<times> site_world" where
  "DeleteBuilding tenant i version clock uuid w = (case site_apply tenant (uncaptured (delete_building i version)) clock uuid () w of ((_, r), w) \<Rightarrow> (r, w))"

definition SaveFloor :: "string \<Rightarrow> string \<Rightarrow> SiteFloor \<Rightarrow> (nat \<Rightarrow> int) \<Rightarrow> (nat \<Rightarrow> ids) \<Rightarrow> site_world \<Rightarrow> (site_error + SiteFloor) \<times> site_world" where
  "SaveFloor tenant actor v = checked_save tenant (floor_text v) (save_floor actor)"

definition SetFloorPlan :: "string \<Rightarrow> string \<Rightarrow> string \<Rightarrow> int \<Rightarrow> FloorPlan \<Rightarrow> (nat \<Rightarrow> int) \<Rightarrow> (nat \<Rightarrow> ids) \<Rightarrow> site_world \<Rightarrow>
    (site_error + SiteFloor \<times> FloorPlan option) \<times> site_world" where
  "SetFloorPlan tenant actor i version plan clock uuid w = (case site_apply tenant (set_floor_plan actor i version plan) clock uuid None w of
     ((previous, r), w) \<Rightarrow> (map_sum id (\<lambda>v. (v, previous)) r, w))"

definition DeleteFloor :: "string \<Rightarrow> string \<Rightarrow> int \<Rightarrow> (nat \<Rightarrow> int) \<Rightarrow> (nat \<Rightarrow> ids) \<Rightarrow> site_world \<Rightarrow> (FloorPlan option \<times> (site_error + unit)) \<times> site_world" where
  "DeleteFloor tenant i version clock uuid w = site_apply tenant (delete_floor i version) clock uuid None w"

definition SavePoint :: "string \<Rightarrow> string \<Rightarrow> SitePoint \<Rightarrow> (nat \<Rightarrow> int) \<Rightarrow> (nat \<Rightarrow> ids) \<Rightarrow> site_world \<Rightarrow> (site_error + SitePoint) \<times> site_world" where
  "SavePoint tenant actor v = checked_save tenant (point_text v) (save_point actor)"

definition DeletePoint :: "string \<Rightarrow> string \<Rightarrow> int \<Rightarrow> (nat \<Rightarrow> int) \<Rightarrow> (nat \<Rightarrow> ids) \<Rightarrow> site_world \<Rightarrow> (SitePoint option \<times> (site_error + unit)) \<times> site_world" where
  "DeletePoint tenant i version clock uuid w = site_apply tenant (delete_point i version) clock uuid None w"

subsection \<open>Alarm locations\<close>

definition current_index :: "string \<Rightarrow> SiteState \<Rightarrow> pointIndex gomap \<Rightarrow> pointIndex \<times> pointIndex gomap" where
  "current_index tenant state points = (case gm_get points tenant of
     None \<Rightarrow> (new_index state, gm_put tenant (new_index state) points)
   | Some index \<Rightarrow> if pi_revision index = ss_Revision state then (index, points) else (new_index state, gm_put tenant (new_index state) points))"

definition Service_AlarmLocation :: "string \<Rightarrow> string \<Rightarrow> string \<Rightarrow> site_world \<Rightarrow> AlarmLocation option \<times> site_world" where
  "Service_AlarmLocation tenant device component w = (case Snapshot tenant w of
     (Inl e, w) \<Rightarrow> (None, w)
   | (Inr state, w) \<Rightarrow>
       (let w = snd (turn w); (index, points) = current_index tenant state (sw_points w) in
        (locate state (case gm_get (pi_byDevice index) device of None \<Rightarrow> [] | Some l \<Rightarrow> l) component, w\<lparr>sw_points := points\<rparr>)))"

definition DevicesNear :: "string \<Rightarrow> AlarmLocation \<Rightarrow> string \<Rightarrow> site_world \<Rightarrow> string list \<times> site_world" where
  "DevicesNear tenant loc exclude w =
     (if lo_BuildingID loc = [] then ([], w)
      else case Snapshot tenant w of
        (Inl e, w) \<Rightarrow> ([], w)
      | (Inr state, w) \<Rightarrow> (near loc (ss_Points state) [exclude] [], w))"

end
