(* ===== verification/Site_History.thy ===== *)
theory Site_History
  imports Site_Service
begin

text \<open>
  What the site service shows to concurrent requests. Every snapshot, cached state and index belongs to the history of the store; from that follow that a
  change takes effect exactly once, on the state it was computed from, whatever other requests commit in between (\<open>apply_takes_effect_once\<close>), that a
  change fails for competition only after eight commits of others (\<open>conflict_needs_eight\<close>), and that the index finds the points the scan finds.
\<close>

subsection \<open>History\<close>

definition belongs :: "site_world \<Rightarrow> string \<Rightarrow> SiteState \<Rightarrow> bool" where
  "belongs w t s \<longleftrightarrow> s = zero_SiteState \<or> (t, s) \<in> set (sw_past w)"

definition dated :: "site_world \<Rightarrow> bool" where
  "dated w \<longleftrightarrow> (\<forall>t s. (t, s) \<in> set (sw_past w) \<longrightarrow> 1 \<le> ss_Revision s \<and> ss_Revision s \<le> ss_Revision (site_of (sw_store w) t)) \<and>
     (\<forall>t s s'. (t, s) \<in> set (sw_past w) \<longrightarrow> (t, s') \<in> set (sw_past w) \<longrightarrow> ss_Revision s = ss_Revision s' \<longrightarrow> s = s')"

definition traced :: "site_world \<Rightarrow> bool" where
  "traced w \<longleftrightarrow> dated w \<and> (\<forall>t. belongs w t (site_of (sw_store w) t)) \<and>
     (\<forall>t c. gm_get (sw_cache w) t = Some c \<longrightarrow> belongs w t c) \<and>
     (\<forall>t x. gm_get (sw_points w) t = Some x \<longrightarrow> (\<exists>s. belongs w t s \<and> x = new_index s))"

lemma belongs_unique:
  assumes "traced w" "belongs w t s" "belongs w t s'" "ss_Revision s = ss_Revision s'"
  shows "s = s'"
proof -
  have early: "1 \<le> ss_Revision s" if "(t, s) \<in> set (sw_past w)" for s
    using that assms(1) by (simp add: traced_def dated_def)
  have zero: "ss_Revision zero_SiteState = 0" by (simp add: zero_SiteState_def)
  have one: "s = s'" if "(t, s) \<in> set (sw_past w)" "(t, s') \<in> set (sw_past w)"
    using that assms(1,4) unfolding traced_def dated_def by blast
  show ?thesis
  proof (cases "s = zero_SiteState"; cases "s' = zero_SiteState")
    assume "s \<noteq> zero_SiteState" "s' \<noteq> zero_SiteState"
    then show ?thesis using assms(2,3) one by (simp add: belongs_def)
  qed (use assms(2-4) early [of s] early [of s'] zero in \<open>auto simp: belongs_def\<close>)
qed

lemma past_belongs: "belongs w t (past_of t n w)"
  by (auto simp: belongs_def past_of_def Let_def dest!: nth_mem) (metis prod.collapse)

lemma site_of_commit: "site_of (commit t s store) t' = (if t' = t then s\<lparr>ss_Revision := ss_Revision (site_of store t) + 1\<rparr> else site_of store t')"
  by (simp add: site_of_def commit_def)

lemma committed_simps [simp]:
  "sw_store (committed t s w) = commit t s (sw_store w)"
  "sw_past (committed t s w) = (t, site_of (commit t s (sw_store w)) t) # sw_past w"
  "sw_cache (committed t s w) = sw_cache w" "sw_points (committed t s w) = sw_points w" "sw_script (committed t s w) = sw_script w"
  by (simp_all add: committed_def Let_def)

lemma revision_nonneg: "traced w \<Longrightarrow> 0 \<le> ss_Revision (site_of (sw_store w) t)"
proof (cases "site_of (sw_store w) t = zero_SiteState")
  case False
  assume "traced w"
  then have "(t, site_of (sw_store w) t) \<in> set (sw_past w)" "dated w" using False by (auto simp: traced_def belongs_def)
  then show ?thesis unfolding dated_def by (meson order_trans zero_le_one)
qed (simp add: zero_SiteState_def)

lemma traced_committed:
  assumes "traced w"
  shows "traced (committed t s w)"
proof -
  have low: "ss_Revision s' \<le> ss_Revision (site_of (sw_store w) t)" if "(t, s') \<in> set (sw_past w)" for s'
    using that assms by (simp add: traced_def dated_def)
  have "dated (committed t s w)"
    using assms low revision_nonneg [OF assms, of t] by (fastforce simp: traced_def dated_def site_of_commit)
  moreover have "belongs w t' x \<Longrightarrow> belongs (committed t s w) t' x" for t' x by (auto simp: belongs_def)
  moreover have "belongs (committed t s w) t' (site_of (sw_store (committed t s w)) t')" for t'
    using assms by (auto simp: traced_def belongs_def site_of_commit)
  ultimately show ?thesis using assms unfolding traced_def by (metis committed_simps(3,4))
qed

lemma remember_get: "gm_get (remember t s cache) t' = Some c \<Longrightarrow> gm_get cache t' = Some c \<or> (t' = t \<and> c = s)"
  by (auto simp: remember_def split: option.splits if_splits)

lemma traced_remember: "traced w \<Longrightarrow> belongs w t s \<Longrightarrow> traced (w\<lparr>sw_cache := remember t s (sw_cache w)\<rparr>)"
  by (auto simp: traced_def belongs_def dated_def dest!: remember_get)

lemma traced_index: "traced w \<Longrightarrow> belongs w t s \<Longrightarrow> traced (w\<lparr>sw_points := gm_put t (new_index s) (sw_points w)\<rparr>)"
  by (fastforce simp: traced_def belongs_def dated_def)

lemma traced_script [simp]: "traced (w\<lparr>sw_script := x\<rparr>) = traced w"
  by (simp add: traced_def belongs_def dated_def)

subsection \<open>What happens meanwhile\<close>

definition meanwhile_of :: "site_world \<Rightarrow> meanwhile list" where
  "meanwhile_of w = concat (map snd (sw_script w))"

fun commit_event :: "meanwhile \<Rightarrow> SiteState gomap \<Rightarrow> SiteState gomap" where
  "commit_event (Committed t s) store = commit t s store"
| "commit_event (Remembered t n) store = store"
| "commit_event (Indexed t n) store = store"

definition commits :: "meanwhile list \<Rightarrow> SiteState gomap \<Rightarrow> SiteState gomap" where
  "commits es store = fold commit_event es store"

definition interrupted :: "site_world \<Rightarrow> bool" where
  "interrupted w \<longleftrightarrow> list_ex fst (sw_script w)"

definition passed :: "meanwhile list \<Rightarrow> site_world \<Rightarrow> site_world \<Rightarrow> bool" where
  "passed es w w' \<longleftrightarrow> meanwhile_of w = es @ meanwhile_of w' \<and> sw_store w' = commits es (sw_store w) \<and>
     (traced w \<longrightarrow> traced w') \<and> set (sw_past w) \<subseteq> set (sw_past w') \<and> (interrupted w' \<longrightarrow> interrupted w)"

lemma commits_simps [simp]: "commits [] store = store" "commits (e # es) store = commits es (commit_event e store)"
  "commits (es @ es') store = commits es' (commits es store)"
  by (simp_all add: commits_def)

lemma passed_refl [simp]: "passed [] w w"
  by (simp add: passed_def)

lemma passed_trans: "passed es w w1 \<Longrightarrow> passed es' w1 w2 \<Longrightarrow> passed (es @ es') w w2"
  by (auto simp: passed_def)

lemma passed_belongs: "passed es w w' \<Longrightarrow> belongs w t s \<Longrightarrow> belongs w' t s"
  by (auto simp: passed_def belongs_def)

lemma passed_traced: "passed es w w' \<Longrightarrow> traced w \<Longrightarrow> traced w'"
  by (simp add: passed_def)

lemma passed_interrupted: "passed es w w' \<Longrightarrow> interrupted w' \<Longrightarrow> interrupted w"
  by (simp add: passed_def)

lemma traced_happen: "traced w \<Longrightarrow> traced (happen e w)"
  by (cases e) (simp_all add: traced_committed traced_remember traced_index past_belongs)

lemma happen_facts: "sw_script (happen e w) = sw_script w" "sw_store (happen e w) = commit_event e (sw_store w)"
  "set (sw_past w) \<subseteq> set (sw_past (happen e w))"
  by (cases e; auto)+

lemma fold_happen:
  "sw_script (fold happen es w) = sw_script w \<and> sw_store (fold happen es w) = commits es (sw_store w) \<and> (traced w \<longrightarrow> traced (fold happen es w)) \<and>
   set (sw_past w) \<subseteq> set (sw_past (fold happen es w))"
  by (induction es arbitrary: w) (use happen_facts traced_happen in \<open>simp_all add: subset_trans, blast+\<close>)

lemma turn_passed: "\<exists>es. passed es w (snd (turn w))"
proof (cases "sw_script w")
  case (Cons e rest)
  then show ?thesis using fold_happen [of "snd e" "w\<lparr>sw_script := rest\<rparr>"]
    by (intro exI [of _ "snd e"]) (auto simp: passed_def turn_def meanwhile_of_def interrupted_def split: prod.splits)
qed (auto simp: turn_def intro: exI [of _ "[]"])

lemma turnE:
  assumes "turn w = (b, w')"
  obtains es where "passed es w w'"
  using turn_passed [of w] assms by auto

subsection \<open>Snapshots\<close>

lemma traced_site: "traced w \<Longrightarrow> belongs w t (site_of (sw_store w) t)"
  by (simp add: traced_def)

lemma remember_call_passed:
  assumes "traced w \<Longrightarrow> belongs w t s"
  shows "\<exists>es. passed es w (remember_call t s w)"
proof -
  obtain es where es: "passed es w (snd (turn w))" using turn_passed by blast
  have "passed [] (snd (turn w)) (remember_call t s w)" if "traced w"
    using traced_remember [of "snd (turn w)" t s] es that assms passed_belongs [OF es]
    by (auto simp: passed_def remember_call_def Let_def meanwhile_of_def interrupted_def)
  moreover have "\<not> traced w \<Longrightarrow> passed es w (remember_call t s w)"
    using es by (auto simp: passed_def remember_call_def Let_def meanwhile_of_def interrupted_def)
  ultimately show ?thesis using passed_trans [OF es] by (cases "traced w") force+
qed

text \<open>A snapshot is what the store held at some moment of the call.\<close>

definition was_read :: "string \<Rightarrow> SiteState \<Rightarrow> site_world \<Rightarrow> site_world \<Rightarrow> bool" where
  "was_read t s w w' \<longleftrightarrow> (\<exists>es1 es2 w1. passed es1 w w1 \<and> passed es2 w1 w' \<and> s = site_of (sw_store w1) t)"

lemma was_read_later: "passed es w w1 \<Longrightarrow> was_read t s w1 w' \<Longrightarrow> was_read t s w w'"
  unfolding was_read_def using passed_trans by blast

lemma was_read_belongs: "traced w \<Longrightarrow> was_read t s w w' \<Longrightarrow> belongs w' t s"
  unfolding was_read_def using passed_belongs traced_site passed_traced by blast

lemma turn_cancelled: "fst (turn w) \<Longrightarrow> interrupted w"
  by (auto simp: turn_def interrupted_def split: list.splits prod.splits)

lemma load_snapshot_reads:
  assumes "load_snapshot t w = (r, w')"
  shows "\<exists>es. passed es w w'" "case r of Inl e \<Rightarrow> e = SiteStore \<and> interrupted w | Inr s \<Rightarrow> was_read t s w w'"
proof -
  obtain b w1 where t: "turn w = (b, w1)" by fastforce
  then obtain es where es: "passed es w w1" by (rule turnE)
  obtain es' where es': "passed es' w1 (remember_call t (site_of (sw_store w1) t) w1)"
    using remember_call_passed traced_site by blast
  have w': "w' = (if b then w1 else remember_call t (site_of (sw_store w1) t) w1)"
    and r: "r = (if b then Inl SiteStore else Inr (site_of (sw_store w1) t))"
    using assms t by (auto simp: load_snapshot_def LoadSiteState_def split: if_splits)
  show "\<exists>es. passed es w w'" using es passed_trans [OF es es'] w' by auto
  show "case r of Inl e \<Rightarrow> e = SiteStore \<and> interrupted w | Inr s \<Rightarrow> was_read t s w w'"
    using w' r es es' turn_cancelled [of w] t unfolding was_read_def by (auto split: if_splits)
qed

lemma Snapshot_reads:
  assumes "Snapshot t w = (r, w')" "traced w"
  shows "\<exists>es. passed es w w'" "case r of Inl e \<Rightarrow> e = SiteStore \<and> interrupted w | Inr s \<Rightarrow> was_read t s w w'"
proof -
  obtain b w1 where t1: "turn w = (b, w1)" by fastforce
  then obtain es1 where es1: "passed es1 w w1" by (rule turnE)
  obtain b2 w2 where t2: "turn w1 = (b2, w2)" by fastforce
  then obtain es2 where es2: "passed es2 w1 w2" by (rule turnE)
  have tr: "traced w1" "traced w2" using assms(2) es1 es2 by (simp_all add: passed_def)
  have eq: "Snapshot t w = (if b then (Inl SiteStore, w1) else case gm_get (sw_cache w2) t of
      None \<Rightarrow> load_snapshot t w2
    | Some c \<Rightarrow> if ss_Revision c = ss_Revision (site_of (sw_store w1) t) then (Inr c, w2) else load_snapshot t w2)"
    using t1 t2 by (simp add: Snapshot_def SiteRevision_def cached_def)
  let ?reads = "(\<exists>es. passed es w w') \<and> (case r of Inl e \<Rightarrow> e = SiteStore \<and> interrupted w | Inr s \<Rightarrow> was_read t s w w')"
  have es12: "passed (es1 @ es2) w w2" by (rule passed_trans [OF es1 es2])
  have load: ?reads if l: "load_snapshot t w2 = (r, w')"
  proof -
    have "\<exists>es. passed es w w'" using load_snapshot_reads(1) [OF l] passed_trans [OF es12] by blast
    moreover have "case r of Inl e \<Rightarrow> e = SiteStore \<and> interrupted w | Inr s \<Rightarrow> was_read t s w w'"
      using load_snapshot_reads(2) [OF l] was_read_later [OF es12] passed_interrupted [OF es12] by (simp split: sum.splits)
    ultimately show ?thesis ..
  qed
  have hit: ?reads if c: "gm_get (sw_cache w2) t = Some c" "ss_Revision c = ss_Revision (site_of (sw_store w1) t)" "r = Inr c" "w' = w2" for c
  proof -
    have "belongs w2 t c" using c(1) tr(2) by (simp add: traced_def)
    moreover have "belongs w2 t (site_of (sw_store w1) t)" using passed_belongs [OF es2 traced_site [OF tr(1)]] .
    ultimately have "c = site_of (sw_store w1) t" using belongs_unique tr(2) c(2) by blast
    then show ?thesis using c(3,4) es1 es2 es12 unfolding was_read_def by auto
  qed
  have ?reads
  proof (cases b)
    case True
    then show ?thesis using assms(1) eq es1 turn_cancelled [of w] t1 by auto
  next
    case False
    show ?thesis
    proof (cases "gm_get (sw_cache w2) t")
      case None
      then show ?thesis using load assms(1) eq False by simp
    next
      case (Some c)
      then show ?thesis using load hit [OF Some] assms(1) eq False
        by (cases "ss_Revision c = ss_Revision (site_of (sw_store w1) t)") auto
    qed
  qed
  then show "\<exists>es. passed es w w'" "case r of Inl e \<Rightarrow> e = SiteStore \<and> interrupted w | Inr s \<Rightarrow> was_read t s w w'" by auto
qed

subsection \<open>A change takes effect once\<close>

text \<open>The change \<open>f\<close> was computed from what the store held, and stored, with nothing in between.\<close>

definition took_effect :: "string \<Rightarrow> ('c, 'r) change \<Rightarrow> (nat \<Rightarrow> int) \<Rightarrow> (nat \<Rightarrow> ids) \<Rightarrow> 'c \<Rightarrow> 'r \<Rightarrow> meanwhile list \<Rightarrow> site_world \<Rightarrow> site_world \<Rightarrow> bool" where
  "took_effect t f clock uuid c' r es w w' \<longleftrightarrow> (\<exists>es1 es2 w1 state k c.
     es = es1 @ es2 \<and> passed es1 w w1 \<and> f c (site_of (sw_store w1) t) (clock k) (uuid k) = (c', Inr (state, r)) \<and> encodes state \<and>
     passed es2 (committed t state w1) w')"

lemma took_effect_later: "passed es w w1 \<Longrightarrow> took_effect t f clock uuid c' r es' w1 w' \<Longrightarrow> took_effect t f clock uuid c' r (es @ es') w w'"
  unfolding took_effect_def
proof (elim exE conjE)
  fix es1 es2 w2 state k c
  assume "passed es w w1" "passed es1 w1 w2" "es' = es1 @ es2" "f c (site_of (sw_store w2) t) (clock k) (uuid k) = (c', Inr (state, r))" "encodes state"
    "passed es2 (committed t state w2) w'"
  then show "\<exists>es1 es2 w1 state k c. es @ es' = es1 @ es2 \<and> passed es1 w w1 \<and> f c (site_of (sw_store w1) t) (clock k) (uuid k) = (c', Inr (state, r)) \<and>
      encodes state \<and> passed es2 (committed t state w1) w'"
    using passed_trans by (intro exI [of _ "es @ es1"] exI [of _ es2] exI [of _ w2] exI [of _ state] exI [of _ k] exI [of _ c]) auto
qed

lemma SaveSiteState_passed:
  assumes "SaveSiteState t base state w = (r, w')" "belongs w t base" "traced w"
  shows "\<exists>es w1. passed es w w1 \<and> (if r = Inr True then w' = committed t state w1 \<and> base = site_of (sw_store w1) t \<and> encodes state else w' = w1)"
proof -
  obtain b w1 where t: "turn w = (b, w1)" by fastforce
  then obtain es where es: "passed es w w1" by (rule turnE)
  have "traced w1" "belongs w1 t base" using passed_traced [OF es] passed_belongs [OF es] assms(2,3) by auto
  then have "ss_Revision (site_of (sw_store w1) t) = ss_Revision base \<Longrightarrow> base = site_of (sw_store w1) t"
    using belongs_unique traced_site by metis
  then show ?thesis using assms(1) t es by (intro exI [of _ es] exI [of _ w1]) (auto simp: SaveSiteState_def split: if_splits)
qed

lemma attempts_take_effect:
  assumes "traced w" "attempts_from n k t f clock uuid c w = ((c', res), w')"
  shows "\<exists>es. case res of Inl e \<Rightarrow> passed es w w' | Inr r \<Rightarrow> took_effect t f clock uuid c' r es w w'"
  using assms
proof (induction n arbitrary: k c w)
  case 0
  then show ?case by (auto intro: exI [of _ "[]"])
next
  case (Suc n)
  obtain s w1 where s: "Snapshot t w = (s, w1)" by fastforce
  obtain es1 where es1: "passed es1 w w1" using Snapshot_reads(1) [OF s Suc.prems(1)] by blast
  have tr: "traced w1" using es1 Suc.prems(1) by (simp add: passed_def)
  show ?case
  proof (cases s)
    case (Inl e)
    then show ?thesis using Suc.prems(2) s es1 by auto
  next
    case (Inr base)
    have b: "belongs w1 t base" using Snapshot_reads(2) [OF s Suc.prems(1)] Inr was_read_belongs [OF Suc.prems(1)] by simp
    obtain c1 r1 where f: "f c base (clock k) (uuid k) = (c1, r1)" by fastforce
    show ?thesis
    proof (cases r1)
      case (Inl e)
      then show ?thesis using Suc.prems(2) s es1 f \<open>s = Inr base\<close> by auto
    next
      case r1: (Inr p)
      obtain state r where p: "p = (state, r)" by fastforce
      obtain v w2 where v: "SaveSiteState t base state w1 = (v, w2)" by fastforce
      obtain es2 w3 where es2: "passed es2 w1 w3"
        and w2: "if v = Inr True then w2 = committed t state w3 \<and> base = site_of (sw_store w3) t \<and> encodes state else w2 = w3"
        using SaveSiteState_passed [OF v b tr] by blast
      have es12: "passed (es1 @ es2) w w3" by (rule passed_trans [OF es1 es2])
      consider (error) e where "v = Inl e" | (saved) "v = Inr True" | (again) "v = Inr False" by (cases v) auto
      then show ?thesis
      proof cases
        case error
        then show ?thesis using Suc.prems(2) s f r1 p v w2 es12 \<open>s = Inr base\<close> by auto
      next
        case saved
        have later: "belongs (committed t state w3) t (state\<lparr>ss_Revision := ss_Revision base + 1\<rparr>)"
          using saved w2 by (simp add: belongs_def site_of_commit)
        obtain es3 where es3: "passed es3 w2 (remember_call t (state\<lparr>ss_Revision := ss_Revision base + 1\<rparr>) w2)"
          using remember_call_passed later saved w2 by metis
        have "took_effect t f clock uuid c' r ((es1 @ es2) @ es3) w w' \<and> res = Inr r"
          unfolding took_effect_def using es12 es3 saved w2 f r1 p Suc.prems(2) s v \<open>s = Inr base\<close>
          by (intro conjI exI [of _ "es1 @ es2"] exI [of _ es3] exI [of _ w3] exI [of _ state] exI [of _ k] exI [of _ c]) auto
        then show ?thesis by auto
      next
        case again
        have "traced w3" using es12 Suc.prems(1) by (simp add: passed_def)
        moreover have "attempts_from n (Suc k) t f clock uuid c1 w3 = ((c', res), w')"
          using Suc.prems(2) s f r1 p v again w2 \<open>s = Inr base\<close> by simp
        ultimately obtain es where "case res of Inl e \<Rightarrow> passed es w3 w' | Inr r \<Rightarrow> took_effect t f clock uuid c' r es w3 w'"
          using Suc.IH by blast
        then show ?thesis using passed_trans [OF es12] took_effect_later [OF es12]
          by (intro exI [of _ "(es1 @ es2) @ es"]) (auto split: sum.splits)
      qed
    qed
  qed
qed

subsection \<open>Why a change fails\<close>

fun commits_on :: "string \<Rightarrow> meanwhile list \<Rightarrow> nat" where
  "commits_on t [] = 0"
| "commits_on t (Committed t' s # es) = (if t' = t then Suc (commits_on t es) else commits_on t es)"
| "commits_on t (e # es) = commits_on t es"

lemma commits_on_append [simp]: "commits_on t (es @ es') = commits_on t es + commits_on t es'"
  by (induction t es rule: commits_on.induct) auto

lemma commits_revision: "ss_Revision (site_of (commits es store) t) = ss_Revision (site_of store t) + int (commits_on t es)"
  by (induction t es arbitrary: store rule: commits_on.induct) (auto simp: site_of_commit)

text \<open>The change refused, or what it made cannot be stored, on a state that the store held.\<close>

definition refused :: "string \<Rightarrow> ('c, 'r) change \<Rightarrow> (nat \<Rightarrow> int) \<Rightarrow> (nat \<Rightarrow> ids) \<Rightarrow> site_error \<Rightarrow> meanwhile list \<Rightarrow> site_world \<Rightarrow> bool" where
  "refused t f clock uuid e es w \<longleftrightarrow> (\<exists>es1 es2 k c. es = es1 @ es2 \<and>
     (case snd (f c (site_of (commits es1 (sw_store w)) t) (clock k) (uuid k)) of Inl e' \<Rightarrow> e = e' | Inr (state, _) \<Rightarrow> e = SiteStore \<and> \<not> encodes state))"

definition failure :: "nat \<Rightarrow> string \<Rightarrow> ('c, 'r) change \<Rightarrow> (nat \<Rightarrow> int) \<Rightarrow> (nat \<Rightarrow> ids) \<Rightarrow> site_error \<Rightarrow> meanwhile list \<Rightarrow> site_world \<Rightarrow> bool" where
  "failure n t f clock uuid e es w \<longleftrightarrow> (e = SiteStore \<and> interrupted w) \<or> refused t f clock uuid e es w \<or>
     (e = SiteConflict ''concurrent updates'' \<and> n \<le> commits_on t es)"

lemma refused_later:
  assumes "passed es w w1" "refused t f clock uuid e es' w1"
  shows "refused t f clock uuid e (es @ es') w"
proof -
  obtain es1 es2 k c where h: "es' = es1 @ es2"
    "case snd (f c (site_of (commits es1 (sw_store w1)) t) (clock k) (uuid k)) of Inl e' \<Rightarrow> e = e' | Inr (state, _) \<Rightarrow> e = SiteStore \<and> \<not> encodes state"
    using assms(2) unfolding refused_def by blast
  then show ?thesis using assms(1) unfolding refused_def
    by (intro exI [of _ "es @ es1"] exI [of _ es2] exI [of _ k] exI [of _ c]) (simp add: passed_def)
qed

lemma failure_later:
  assumes "passed es w w1" "failure n t f clock uuid e es' w1" "1 \<le> commits_on t es"
  shows "failure (Suc n) t f clock uuid e (es @ es') w"
  using assms(2) refused_later [OF assms(1), of t f clock uuid e es'] passed_interrupted [OF assms(1)] assms(3) unfolding failure_def by auto

text \<open>An attempt that the store turns away has seen a commit of another request.\<close>

lemma turned_away:
  assumes "traced w" "was_read t base w w1" "passed es w w1" "SaveSiteState t base state w1 = (Inr False, w2)"
  shows "\<exists>es'. passed es' w w2 \<and> 1 \<le> commits_on t es'"
proof -
  obtain es1 es2 w0 where r: "passed es1 w w0" "passed es2 w0 w1" "base = site_of (sw_store w0) t" using assms(2) unfolding was_read_def by blast
  obtain b w3 where t: "turn w1 = (b, w3)" by fastforce
  then obtain es3 where es3: "passed es3 w1 w3" by (rule turnE)
  have w2: "w2 = w3" "ss_Revision (site_of (sw_store w3) t) \<noteq> ss_Revision base"
    using assms(4) t by (auto simp: SaveSiteState_def split: if_splits)
  have p: "passed (es2 @ es3) w0 w3" by (rule passed_trans [OF r(2) es3])
  then have "ss_Revision (site_of (sw_store w3) t) = ss_Revision base + int (commits_on t (es2 @ es3))"
    using commits_revision by (simp add: passed_def r(3))
  with w2 have "1 \<le> commits_on t (es2 @ es3)" by linarith
  then show ?thesis using passed_trans [OF r(1) p] w2(1) by (intro exI [of _ "es1 @ es2 @ es3"]) simp
qed

lemma SaveSiteState_error:
  assumes "SaveSiteState t base state w = (Inl e, w')"
  shows "\<exists>es. passed es w w'" "e = SiteStore \<and> (interrupted w \<or> \<not> encodes state)"
proof -
  obtain b w1 where t: "turn w = (b, w1)" by fastforce
  then have "w' = w1" "e = SiteStore \<and> (b \<or> \<not> encodes state)" using assms by (auto simp: SaveSiteState_def split: if_splits)
  then show "\<exists>es. passed es w w'" "e = SiteStore \<and> (interrupted w \<or> \<not> encodes state)" using t turn_passed [of w] turn_cancelled [of w] by auto
qed

lemma refused_read:
  assumes "was_read t base w w1" "passed es w1 w'"
    "case snd (f c base (clock k) (uuid k)) of Inl e' \<Rightarrow> e = e' | Inr (state, _) \<Rightarrow> e = SiteStore \<and> \<not> encodes state"
  shows "\<exists>es. passed es w w' \<and> refused t f clock uuid e es w"
proof -
  obtain es1 es2 w0 where r: "passed es1 w w0" "passed es2 w0 w1" "base = site_of (sw_store w0) t" using assms(1) unfolding was_read_def by blast
  have "refused t f clock uuid e (es1 @ es2 @ es) w"
    unfolding refused_def using r assms(3) by (intro exI [of _ es1] exI [of _ "es2 @ es"] exI [of _ k] exI [of _ c]) (simp add: passed_def)
  then show ?thesis using passed_trans [OF r(1) passed_trans [OF r(2) assms(2)]] by blast
qed

lemma attempts_fail:
  assumes "traced w" "attempts_from n k t f clock uuid c w = ((c', Inl e), w')"
  shows "\<exists>es. passed es w w' \<and> failure n t f clock uuid e es w"
  using assms
proof (induction n arbitrary: k c w)
  case 0
  then show ?case by (intro exI [of _ "[]"]) (simp add: failure_def)
next
  case (Suc n)
  obtain s w1 where s: "Snapshot t w = (s, w1)" by fastforce
  obtain es1 where es1: "passed es1 w w1" using Snapshot_reads(1) [OF s Suc.prems(1)] by blast
  show ?case
  proof (cases s)
    case (Inl e')
    then show ?thesis using Suc.prems(2) s es1 Snapshot_reads(2) [OF s Suc.prems(1)] unfolding failure_def by auto
  next
    case (Inr base)
    have read: "was_read t base w w1" using Snapshot_reads(2) [OF s Suc.prems(1)] Inr by simp
    obtain c1 r1 where f: "f c base (clock k) (uuid k) = (c1, r1)" by fastforce
    show ?thesis
    proof (cases r1)
      case (Inl e')
      then have "e = e'" "w' = w1" using Suc.prems(2) s f \<open>s = Inr base\<close> by auto
      then show ?thesis using refused_read [OF read passed_refl, where f = f and c = c and clock = clock and k = k and uuid = uuid and e = e] f Inl unfolding failure_def by auto
    next
      case r1: (Inr p)
      obtain state r where p: "p = (state, r)" by fastforce
      obtain v w2 where v: "SaveSiteState t base state w1 = (v, w2)" by fastforce
      consider (error) e' where "v = Inl e'" | (saved) "v = Inr True" | (again) "v = Inr False" by (cases v) auto
      then show ?thesis
      proof cases
        case error
        then have e: "e' = e" "w' = w2" using Suc.prems(2) s f r1 p v \<open>s = Inr base\<close> by auto
        obtain es2 where es2: "passed es2 w1 w2" using SaveSiteState_error(1) v error by blast
        have "e = SiteStore \<and> (interrupted w1 \<or> \<not> encodes state)" using SaveSiteState_error(2) v error e(1) by blast
        then show ?thesis
          using refused_read [OF read es2, where f = f and c = c and clock = clock and k = k and uuid = uuid and e = e] f r1 p e(2) passed_interrupted [OF es1] passed_trans [OF es1 es2]
          unfolding failure_def by auto
      next
        case saved
        then show ?thesis using Suc.prems(2) s f r1 p v \<open>s = Inr base\<close> by simp
      next
        case again
        obtain es' where es': "passed es' w w2" "1 \<le> commits_on t es'" using turned_away [OF Suc.prems(1) read es1] v again by blast
        have "attempts_from n (Suc k) t f clock uuid c1 w2 = ((c', Inl e), w')"
          using Suc.prems(2) s f r1 p v again \<open>s = Inr base\<close> by simp
        then obtain es where "passed es w2 w'" "failure n t f clock uuid e es w2"
          using Suc.IH passed_traced [OF es'(1) Suc.prems(1)] by blast
        then show ?thesis using passed_trans [OF es'(1)] failure_later [OF es'(1) _ es'(2)] by blast
      qed
    qed
  qed
qed

lemma apply_takes_effect_once:
  assumes "traced w" "site_apply t f clock uuid c w = ((c', res), w')"
  shows "traced w' \<and> (\<exists>es. meanwhile_of w = es @ meanwhile_of w' \<and>
    (case res of
       Inl e \<Rightarrow> sw_store w' = commits es (sw_store w) \<and> (e = SiteInvalid ''tenant is empty'' \<and> trim_space t = [] \<or> failure 8 t f clock uuid e es w)
     | Inr r \<Rightarrow> \<exists>es1 es2 state k c0. es = es1 @ es2 \<and>
         f c0 (site_of (commits es1 (sw_store w)) t) (clock k) (uuid k) = (c', Inr (state, r)) \<and>
         sw_store w' = commits (es1 @ Committed t state # es2) (sw_store w)))"
proof (cases "trim_space t = []")
  case True
  then show ?thesis using assms by (auto simp: site_apply_def intro: exI [of _ "[]"])
next
  case False
  then have a: "attempts_from 8 0 t f clock uuid c w = ((c', res), w')" using assms(2) by (simp add: site_apply_def)
  show ?thesis
  proof (cases res)
    case (Inl e)
    then obtain es where "passed es w w'" "failure 8 t f clock uuid e es w" using attempts_fail [OF assms(1), of 8 0 t f clock uuid c c' e w'] a by blast
    then show ?thesis using Inl assms(1) by (auto simp: passed_def)
  next
    case (Inr r)
    then obtain es where "took_effect t f clock uuid c' r es w w'" using attempts_take_effect [OF assms(1) a] by auto
    then obtain es1 es2 w1 state k c0 where h: "es = es1 @ es2" "passed es1 w w1"
      "f c0 (site_of (sw_store w1) t) (clock k) (uuid k) = (c', Inr (state, r))" "passed es2 (committed t state w1) w'"
      unfolding took_effect_def by blast
    have "traced w'" using passed_traced [OF h(4)] traced_committed passed_traced [OF h(2) assms(1)] by blast
    moreover have "meanwhile_of w = es1 @ es2 @ meanwhile_of w'" using h(2,4) by (simp add: passed_def meanwhile_of_def)
    moreover have "f c0 (site_of (commits es1 (sw_store w)) t) (clock k) (uuid k) = (c', Inr (state, r))" using h(2,3) by (simp add: passed_def)
    moreover have "sw_store w' = commits (es1 @ Committed t state # es2) (sw_store w)" using h(2,4) by (simp add: passed_def)
    ultimately show ?thesis using Inr h(1)
      by (intro conjI exI [of _ es]) (simp_all, intro exI [of _ es1] exI [of _ es2] exI [of _ state] exI [of _ k] exI [of _ c0] conjI, simp_all)
  qed
qed

subsection \<open>The index of points\<close>

definition indexed :: "nat list gomap \<Rightarrow> string \<Rightarrow> nat list" where
  "indexed m d = (case gm_get m d of None \<Rightarrow> [] | Some l \<Rightarrow> l)"

lemma indexed_fold:
  "indexed (fold (\<lambda>(i, p) m. gm_put (st_DeviceID p) ((case gm_get m (st_DeviceID p) of None \<Rightarrow> [] | Some l \<Rightarrow> l) @ [i]) m) ips m) d =
   indexed m d @ map fst (filter (\<lambda>(i, p). st_DeviceID p = d) ips)"
  by (induction ips arbitrary: m) (auto simp: indexed_def)

lemma indexed_points: "indexed (index_points points) d = filter (\<lambda>i. st_DeviceID (points ! i) = d) [0..<length points]"
proof -
  have "enumerate 0 points = map (\<lambda>i. (i, points ! i)) [0..<length points]"
    by (rule nth_equalityI) (simp_all add: nth_enumerate_eq)
  then show ?thesis unfolding index_points_def indexed_fold by (simp add: indexed_def filter_map o_def)
qed

lemma locate_indexed: "locate s (indexed (pi_byDevice (new_index s)) d) c = Locate s d c"
  by (simp add: new_index_def indexed_points Locate_def)

lemma traced_points: "traced w \<Longrightarrow> gm_get (sw_points w) t = Some x \<Longrightarrow> \<exists>s. belongs w t s \<and> x = new_index s"
  by (simp add: traced_def)

lemma current_index_of:
  assumes "traced w" "belongs w t s"
  shows "fst (current_index t s (sw_points w)) = new_index s" "traced (w\<lparr>sw_points := snd (current_index t s (sw_points w))\<rparr>)"
proof -
  have old: "x = new_index s" if h: "gm_get (sw_points w) t = Some x" "pi_revision x = ss_Revision s" for x
  proof -
    obtain s' where "belongs w t s'" "x = new_index s'" using traced_points [OF assms(1) h(1)] by blast
    moreover from this have "ss_Revision s' = ss_Revision s" using h(2) by (simp add: new_index_def)
    ultimately show ?thesis using belongs_unique [OF assms(1)] assms(2) by blast
  qed
  show "fst (current_index t s (sw_points w)) = new_index s"
    using old by (cases "gm_get (sw_points w) t") (auto simp: current_index_def)
  show "traced (w\<lparr>sw_points := snd (current_index t s (sw_points w))\<rparr>)"
    using traced_index [OF assms] assms(1) by (cases "gm_get (sw_points w) t") (auto simp: current_index_def)
qed

lemma AlarmLocation_reads:
  assumes "traced w" "Service_AlarmLocation t d c w = (r, w')"
  shows "traced w' \<and> (\<exists>es1 es2. meanwhile_of w = es1 @ es2 @ meanwhile_of w' \<and> sw_store w' = commits (es1 @ es2) (sw_store w) \<and>
    ((r = None \<and> interrupted w) \<or> r = Locate (site_of (commits es1 (sw_store w)) t) d c))"
proof -
  obtain v w1 where v: "Snapshot t w = (v, w1)" by fastforce
  obtain es where es: "passed es w w1" using Snapshot_reads(1) [OF v assms(1)] by blast
  show ?thesis
  proof (cases v)
    case (Inl e)
    then have "r = None" "w' = w1" "interrupted w" using assms(2) v Snapshot_reads(2) [OF v assms(1)] by (auto simp: Service_AlarmLocation_def)
    then show ?thesis using es assms(1) by (intro conjI exI [of _ es] exI [of _ "[]"]) (auto simp: passed_def)
  next
    case (Inr s)
    have read: "was_read t s w w1" using Snapshot_reads(2) [OF v assms(1)] Inr by simp
    obtain es1 es2 w0 where h: "passed es1 w w0" "passed es2 w0 w1" "s = site_of (sw_store w0) t" using read unfolding was_read_def by blast
    obtain es3 where es3: "passed es3 w1 (snd (turn w1))" using turn_passed by blast
    have p: "passed (es1 @ es2 @ es3) w (snd (turn w1))" using passed_trans [OF h(1) passed_trans [OF h(2) es3]] .
    have b: "traced (snd (turn w1))" "belongs (snd (turn w1)) t s"
      using passed_traced [OF p assms(1)] passed_belongs [OF es3 was_read_belongs [OF assms(1) read]] by auto
    have r: "r = Locate s d c" "w' = (snd (turn w1))\<lparr>sw_points := snd (current_index t s (sw_points (snd (turn w1))))\<rparr>"
      using assms(2) v Inr
      by (simp_all add: Service_AlarmLocation_def Let_def case_prod_beta current_index_of(1) [OF b] flip: indexed_def locate_indexed [of s d c])
    have "traced w'" using current_index_of(2) [OF b] r(2) by simp
    moreover have "meanwhile_of w' = meanwhile_of (snd (turn w1))" "sw_store w' = sw_store (snd (turn w1))" using r(2) by (simp_all add: meanwhile_of_def)
    ultimately show ?thesis using p h r(1) by (intro conjI exI [of _ es1] exI [of _ "es2 @ es3"]) (simp_all add: passed_def)
  qed
qed

end
