(* ===== verification/Site_Import.thy ===== *)
theory Site_Import
  imports Site_Service GB26875 Modbus_Points
begin

text \<open>
  The import of sites, \<^verbatim>\<open>internal/sites/import.go\<close>: the rows of a table (\<^verbatim>\<open>ParseImport\<close> after the CSV or XLSX reader) and the change that creates
  missing units, buildings and floors by name and creates or moves points. Every row is tried, the errors are collected, and nothing is saved when there
  is one.
\<close>

subsection \<open>Rows\<close>

record ImportRow =
  ir_Line :: int
  ir_Unit :: string
  ir_UnitCode :: string
  ir_UnitAddress :: string
  ir_Building :: string
  ir_Floor :: string
  ir_Level :: int
  ir_DeviceID :: string
  ir_ComponentID :: string
  ir_PointName :: string

record ImportResult =
  im_Rows :: nat
  im_Units :: nat
  im_Buildings :: nat
  im_Floors :: nat
  im_PointsCreated :: nat
  im_PointsUpdated :: nat
  im_Errors :: "(int \<times> string) list"

definition zero_ImportResult :: "nat \<Rightarrow> ImportResult" where
  "zero_ImportResult n = \<lparr>im_Rows = n, im_Units = 0, im_Buildings = 0, im_Floors = 0, im_PointsCreated = 0, im_PointsUpdated = 0, im_Errors = []\<rparr>"

text \<open>The column headers by their UTF-8 bytes.\<close>

definition col_unit :: string where
  "col_unit = utf8_text [229, 141, 149, 228, 189, 141, 229, 144, 141, 231, 167, 176]"

definition col_code :: string where
  "col_code = utf8_text [229, 141, 149, 228, 189, 141, 231, 188, 150, 231, 160, 129]"

definition col_address :: string where
  "col_address = utf8_text [229, 141, 149, 228, 189, 141, 229, 156, 176, 229, 157, 128]"

definition col_building :: string where
  "col_building = utf8_text [229, 187, 186, 231, 173, 145, 229, 144, 141, 231, 167, 176]"

definition col_floor :: string where
  "col_floor = utf8_text [230, 165, 188, 229, 177, 130, 229, 144, 141, 231, 167, 176]"

definition col_level :: string where
  "col_level = utf8_text [230, 165, 188, 229, 177, 130, 229, 186, 143, 229, 143, 183]"

definition col_device :: string where
  "col_device = utf8_text [232, 174, 190, 229, 164, 135, 231, 188, 150, 229, 143, 183]"

definition col_component :: string where
  "col_component = utf8_text [233, 131, 168, 228, 187, 182, 231, 188, 150, 229, 143, 183]"

definition col_point :: string where
  "col_point = utf8_text [231, 130, 185, 228, 189, 141, 229, 144, 141, 231, 167, 176]"

definition maxImportRows :: nat where
  "maxImportRows = 5000"

definition import_columns :: "string list \<Rightarrow> nat gomap" where
  "import_columns header = fold (\<lambda>(i, name) m. gm_put (trim_space (trim_suffix (trim_space name) ''*'')) i m) (enumerate 0 header) []"

definition import_cell :: "nat gomap \<Rightarrow> string list \<Rightarrow> string \<Rightarrow> string" where
  "import_cell columns row name = (case gm_get columns name of None \<Rightarrow> [] | Some i \<Rightarrow> if i < length row then trim_space (row ! i) else [])"

definition import_level :: "golib \<Rightarrow> string \<Rightarrow> site_error + int" where
  "import_level lb level =
     (if level = [] then Inr 0
      else case lb_atof lb level of None \<Rightarrow> Inl (SiteInvalid ''floor level is no integer'')
        | Some n \<Rightarrow> if whole n then Inr (int_of_f64 n) else Inl (SiteInvalid ''floor level is no integer''))"

fun import_lines :: "golib \<Rightarrow> nat gomap \<Rightarrow> nat \<Rightarrow> string list list \<Rightarrow> ImportRow list \<Rightarrow> site_error + ImportRow list" where
  "import_lines lb columns i [] rows = Inr rows"
| "import_lines lb columns i (values # rest) rows =
     (if trim_space (concat values) = [] then import_lines lb columns (Suc i) rest rows
      else if length rows = maxImportRows then Inl (SiteInvalid ''too many rows'')
      else let cell = import_cell columns values in
        rbind (import_level lb (cell col_level)) (\<lambda>level.
          import_lines lb columns (Suc i) rest (rows @ [\<lparr>ir_Line = int i + 2, ir_Unit = cell col_unit, ir_UnitCode = cell col_code,
            ir_UnitAddress = cell col_address, ir_Building = cell col_building, ir_Floor = cell col_floor, ir_Level = level,
            ir_DeviceID = cell col_device, ir_ComponentID = cell col_component, ir_PointName = cell col_point\<rparr>])))"

definition import_table :: "golib \<Rightarrow> string list list \<Rightarrow> site_error + ImportRow list" where
  "import_table lb table = (case table of
     [] \<Rightarrow> Inl (SiteInvalid ''file is empty'')
   | header # lines \<Rightarrow>
       (let columns = import_columns header in
        if gm_get columns col_unit = None then Inl (SiteInvalid ''header is missing'')
        else rbind (import_lines lb columns 0 lines []) (\<lambda>rows. if rows = [] then Inl (SiteInvalid ''no rows'') else Inr rows)))"

subsection \<open>One row\<close>

definition row_text :: "ImportRow \<Rightarrow> site_error + ImportRow" where
  "row_text row =
     rbind (site_text ''unit name'' True 100 (ir_Unit row)) (\<lambda>u.
     rbind (site_text ''unit code'' False 64 (ir_UnitCode row)) (\<lambda>code.
     rbind (site_text ''unit address'' False 200 (ir_UnitAddress row)) (\<lambda>address.
     rbind (site_text ''building name'' False 100 (ir_Building row)) (\<lambda>building.
     rbind (site_text ''floor name'' False 50 (ir_Floor row)) (\<lambda>floor.
     rbind (site_text ''device id'' False 128 (ir_DeviceID row)) (\<lambda>device.
     rbind (site_text ''component id'' False 128 (ir_ComponentID row)) (\<lambda>component.
     rbind (site_text ''point name'' False 100 (ir_PointName row)) (\<lambda>point.
     Inr (row\<lparr>ir_Unit := u, ir_UnitCode := code, ir_UnitAddress := address, ir_Building := building, ir_Floor := floor,
       ir_DeviceID := device, ir_ComponentID := component, ir_PointName := point\<rparr>)))))))))"

text \<open>The run over the rows: the state, the counts and errors, the devices seen with their lines, and how many identities were drawn.\<close>

record import_run =
  ii_state :: SiteState
  ii_result :: ImportResult
  ii_seen :: "int gomap"
  ii_drawn :: nat

definition fail_row :: "int \<Rightarrow> string \<Rightarrow> import_run \<Rightarrow> import_run" where
  "fail_row line message r = r\<lparr>ii_result := (ii_result r)\<lparr>im_Errors := im_Errors (ii_result r) @ [(line, message)]\<rparr>\<rparr>"

definition new_record :: "string \<Rightarrow> string \<Rightarrow> int \<Rightarrow> SiteRecord" where
  "new_record uuid actor now = \<lparr>sr_ID = uuid, sr_Version = 1, sr_CreatedAt = now, sr_UpdatedAt = now, sr_UpdatedBy = actor\<rparr>"

fun find_last :: "('a \<Rightarrow> bool) \<Rightarrow> 'a list \<Rightarrow> nat option" where
  "find_last p [] = None"
| "find_last p (x # xs) = (case find_last p xs of Some i \<Rightarrow> Some (Suc i) | None \<Rightarrow> if p x then Some 0 else None)"

definition row_unit :: "string \<Rightarrow> int \<Rightarrow> ids \<Rightarrow> ImportRow \<Rightarrow> import_run \<Rightarrow> string + string \<times> import_run" where
  "row_unit actor now ids row r =
     (let units = ss_Units (ii_state r) in
      case find_last (\<lambda>u. su_Name u = ir_Unit row) units of
        Some i \<Rightarrow> Inr (unitID (units ! i), r)
      | None \<Rightarrow>
          (let taken = (case find_last (\<lambda>other. ir_UnitCode row \<noteq> [] \<and> su_Code other = ir_UnitCode row) units of None \<Rightarrow> [] | Some i \<Rightarrow> su_Name (units ! i)) in
           if taken \<noteq> [] then Inl ''unit code is taken''
           else let u = \<lparr>su_SiteRecord = new_record (ids (ii_drawn r)) actor now, su_Name = ir_Unit row, su_Code = ir_UnitCode row,
                         su_Address = ir_UnitAddress row, su_Contact = [], su_Phone = [], su_Notes = []\<rparr> in
             Inr (unitID u, r\<lparr>ii_state := (ii_state r)\<lparr>ss_Units := units @ [u]\<rparr>, ii_drawn := Suc (ii_drawn r),
               ii_result := (ii_result r)\<lparr>im_Units := im_Units (ii_result r) + 1\<rparr>\<rparr>)))"

definition row_building :: "string \<Rightarrow> int \<Rightarrow> ids \<Rightarrow> ImportRow \<Rightarrow> string \<Rightarrow> import_run \<Rightarrow> string \<times> import_run" where
  "row_building actor now ids row unit_id r =
     (if ir_Building row = [] then ([], r)
      else let buildings = ss_Buildings (ii_state r) in
        case find_last (\<lambda>b. bu_UnitID b = unit_id \<and> bu_Name b = ir_Building row) buildings of
          Some i \<Rightarrow> (buildingID (buildings ! i), r)
        | None \<Rightarrow>
            (let b = \<lparr>bu_SiteRecord = new_record (ids (ii_drawn r)) actor now, bu_UnitID = unit_id, bu_Name = ir_Building row,
                      bu_Address = [], bu_AboveFloors = 0, bu_BelowFloors = 0, bu_Notes = []\<rparr> in
             (buildingID b, r\<lparr>ii_state := (ii_state r)\<lparr>ss_Buildings := buildings @ [b]\<rparr>, ii_drawn := Suc (ii_drawn r),
               ii_result := (ii_result r)\<lparr>im_Buildings := im_Buildings (ii_result r) + 1\<rparr>\<rparr>)))"

definition row_floor :: "string \<Rightarrow> int \<Rightarrow> ids \<Rightarrow> ImportRow \<Rightarrow> string \<Rightarrow> import_run \<Rightarrow> string \<times> import_run" where
  "row_floor actor now ids row building_id r =
     (if ir_Floor row = [] then ([], r)
      else let floors = ss_Floors (ii_state r) in
        case find_last (\<lambda>f. sf_BuildingID f = building_id \<and> sf_Name f = ir_Floor row) floors of
          Some i \<Rightarrow> (floorID (floors ! i), r)
        | None \<Rightarrow>
            (let f = \<lparr>sf_SiteRecord = new_record (ids (ii_drawn r)) actor now, sf_BuildingID = building_id, sf_Name = ir_Floor row,
                      sf_Level = ir_Level row, sf_Plan = None\<rparr> in
             (floorID f, r\<lparr>ii_state := (ii_state r)\<lparr>ss_Floors := floors @ [f]\<rparr>, ii_drawn := Suc (ii_drawn r),
               ii_result := (ii_result r)\<lparr>im_Floors := im_Floors (ii_result r) + 1\<rparr>\<rparr>)))"

definition moved_point :: "string \<Rightarrow> int \<Rightarrow> SitePoint \<Rightarrow> SitePoint \<Rightarrow> SitePoint" where
  "moved_point actor now point old =
     (let record = st_SiteRecord old in
      point\<lparr>st_X := (if st_FloorID old = st_FloorID point then st_X old else st_X point),
        st_Y := (if st_FloorID old = st_FloorID point then st_Y old else st_Y point),
        st_Name := (if st_Name point = [] then st_Name old else st_Name point),
        st_SiteRecord := record\<lparr>sr_Version := sr_Version record + 1, sr_UpdatedAt := now, sr_UpdatedBy := actor\<rparr>\<rparr>)"

definition row_point :: "string \<Rightarrow> int \<Rightarrow> ids \<Rightarrow> SitePoint \<Rightarrow> import_run \<Rightarrow> import_run" where
  "row_point actor now ids point r =
     (let points = ss_Points (ii_state r) in
      case find_last (\<lambda>p. st_DeviceID p = st_DeviceID point \<and> st_ComponentID p = st_ComponentID point) points of
        None \<Rightarrow> r\<lparr>ii_state := (ii_state r)\<lparr>ss_Points := points @ [point\<lparr>st_SiteRecord := new_record (ids (ii_drawn r)) actor now\<rparr>]\<rparr>,
          ii_drawn := Suc (ii_drawn r), ii_result := (ii_result r)\<lparr>im_PointsCreated := im_PointsCreated (ii_result r) + 1\<rparr>\<rparr>
      | Some i \<Rightarrow> r\<lparr>ii_state := (ii_state r)\<lparr>ss_Points := points[i := moved_point actor now point (points ! i)]\<rparr>,
          ii_result := (ii_result r)\<lparr>im_PointsUpdated := im_PointsUpdated (ii_result r) + 1\<rparr>\<rparr>)"

definition place_row :: "string \<Rightarrow> int \<Rightarrow> ids \<Rightarrow> ImportRow \<Rightarrow> import_run \<Rightarrow> import_run" where
  "place_row actor now ids row r = (case row_unit actor now ids row r of
     Inl message \<Rightarrow> fail_row (ir_Line row) message r
   | Inr (unit_id, r) \<Rightarrow> (case row_building actor now ids row unit_id r of (building_id, r) \<Rightarrow>
       (case row_floor actor now ids row building_id r of (floor_id, r) \<Rightarrow>
         if ir_DeviceID row = [] then r
         else row_point actor now ids \<lparr>st_SiteRecord = \<lparr>sr_ID = [], sr_Version = 0, sr_CreatedAt = 0, sr_UpdatedAt = 0, sr_UpdatedBy = []\<rparr>,
           st_UnitID = unit_id, st_BuildingID = building_id, st_FloorID = floor_id, st_DeviceID = ir_DeviceID row, st_ComponentID = ir_ComponentID row,
           st_Name = ir_PointName row, st_X = None, st_Y = None\<rparr> r)))"

fun message_of :: "site_error \<Rightarrow> string" where
  "message_of (SiteInvalid m) = m"
| "message_of (SiteMissing m) = m"
| "message_of (SiteConflict m) = m"
| "message_of SiteStore = []"

definition import_row :: "string \<Rightarrow> int \<Rightarrow> ids \<Rightarrow> (string \<Rightarrow> bool) \<Rightarrow> ImportRow \<Rightarrow> import_run \<Rightarrow> import_run" where
  "import_row actor now ids allowed row r = (case row_text row of
     Inl e \<Rightarrow> fail_row (ir_Line row) (message_of e) r
   | Inr row \<Rightarrow>
       if ir_Floor row \<noteq> [] \<and> ir_Building row = [] then fail_row (ir_Line row) ''floor without building'' r
       else if ir_Level row < -20 \<or> ir_Level row > 300 then fail_row (ir_Line row) ''floor level'' r
       else if ir_DeviceID row = [] then
         (if ir_ComponentID row \<noteq> [] \<or> ir_PointName row \<noteq> [] then fail_row (ir_Line row) ''point without device'' r else place_row actor now ids row r)
       else let k = ir_DeviceID row @ [CHR 0x00] @ ir_ComponentID row in
         if gm_get (ii_seen r) k \<noteq> None then fail_row (ir_Line row) ''device or component repeated'' r
         else let r = r\<lparr>ii_seen := gm_put k (ir_Line row) (ii_seen r)\<rparr> in
           if \<not> allowed (ir_DeviceID row) then fail_row (ir_Line row) ''device is unknown or denied'' r
           else place_row actor now ids row r)"

subsection \<open>The change\<close>

definition run_import :: "string \<Rightarrow> ImportRow list \<Rightarrow> (string \<Rightarrow> bool) \<Rightarrow> SiteState \<Rightarrow> int \<Rightarrow> ids \<Rightarrow> import_run" where
  "run_import actor rows allowed state now ids = fold (import_row actor now ids allowed) rows
     \<lparr>ii_state = state, ii_result = zero_ImportResult (length rows), ii_seen = [], ii_drawn = 0\<rparr>"

definition import_sites :: "string \<Rightarrow> ImportRow list \<Rightarrow> (string \<Rightarrow> bool) \<Rightarrow> (ImportResult, unit) change" where
  "import_sites actor rows allowed result state now ids =
     (let r = run_import actor rows allowed state now ids in
      (ii_result r, if im_Errors (ii_result r) \<noteq> [] then Inl (SiteInvalid ''import has errors'') else Inr (ii_state r, ())))"

definition Import :: "string \<Rightarrow> string \<Rightarrow> ImportRow list \<Rightarrow> (string \<Rightarrow> bool) \<Rightarrow> (nat \<Rightarrow> int) \<Rightarrow> (nat \<Rightarrow> ids) \<Rightarrow> site_world \<Rightarrow>
    (ImportResult \<times> (site_error + unit)) \<times> site_world" where
  "Import tenant actor rows allowed clock uuid w = site_apply tenant (import_sites actor rows allowed) clock uuid (zero_ImportResult (length rows)) w"

end
