(* ===== verification/Site_Integrity.thy ===== *)
theory Site_Integrity
  imports Site_Import
begin

text \<open>
  The integrity of a tenant's sites: identities are unique, every building belongs to a unit, every floor to a building, every point to the unit of its
  building and the building of its floor, names and codes are unique where the service says so, and a mark on a floor plan has a plan and lies on it. Every
  change keeps it (\<open>change_keeps_sites\<close>), given fresh identities.
\<close>

subsection \<open>The invariant\<close>

definition unit_ok :: "SiteUnit \<Rightarrow> bool" where
  "unit_ok u \<longleftrightarrow> su_Name u \<noteq> [] \<and> length (runes (su_Name u)) \<le> 100"

definition building_ok :: "SiteUnit set \<Rightarrow> SiteBuilding \<Rightarrow> bool" where
  "building_ok us b \<longleftrightarrow> bu_UnitID b \<in> unitID ` us \<and> bu_Name b \<noteq> [] \<and> 0 \<le> bu_AboveFloors b \<and> bu_AboveFloors b \<le> 300 \<and>
     0 \<le> bu_BelowFloors b \<and> bu_BelowFloors b \<le> 20"

definition floor_ok :: "SiteBuilding set \<Rightarrow> SiteFloor \<Rightarrow> bool" where
  "floor_ok bs f \<longleftrightarrow> sf_BuildingID f \<in> buildingID ` bs \<and> sf_Name f \<noteq> [] \<and> -20 \<le> sf_Level f \<and> sf_Level f \<le> 300"

definition mark_ok :: "SiteFloor set \<Rightarrow> SitePoint \<Rightarrow> bool" where
  "mark_ok fs p \<longleftrightarrow> (st_X p = None \<longleftrightarrow> st_Y p = None) \<and>
     (st_X p \<noteq> None \<longrightarrow> validFraction (st_X p) \<and> validFraction (st_Y p) \<and> (\<exists>f \<in> fs. floorID f = st_FloorID p \<and> sf_Plan f \<noteq> None))"

definition site_point_ok :: "SiteUnit set \<Rightarrow> SiteBuilding set \<Rightarrow> SiteFloor set \<Rightarrow> SitePoint \<Rightarrow> bool" where
  "site_point_ok us bs fs p \<longleftrightarrow> st_DeviceID p \<noteq> [] \<and> st_UnitID p \<in> unitID ` us \<and>
     (st_BuildingID p \<noteq> [] \<longrightarrow> (\<exists>b \<in> bs. buildingID b = st_BuildingID p \<and> bu_UnitID b = st_UnitID p)) \<and>
     (st_FloorID p \<noteq> [] \<longrightarrow> (\<exists>f \<in> fs. floorID f = st_FloorID p \<and> sf_BuildingID f = st_BuildingID p)) \<and> mark_ok fs p"

definition unique_units :: "SiteUnit set \<Rightarrow> bool" where
  "unique_units us \<longleftrightarrow> alike unitID su_Name us \<and> alike unitID su_Code {u \<in> us. su_Code u \<noteq> []}"

definition unique_buildings :: "SiteBuilding set \<Rightarrow> bool" where
  "unique_buildings bs \<longleftrightarrow> alike buildingID (\<lambda>b. (bu_UnitID b, bu_Name b)) bs"

definition unique_floors :: "SiteFloor set \<Rightarrow> bool" where
  "unique_floors fs \<longleftrightarrow> alike floorID (\<lambda>f. (sf_BuildingID f, sf_Name f)) fs"

definition unique_points :: "SitePoint set \<Rightarrow> bool" where
  "unique_points ps \<longleftrightarrow> alike pointID (\<lambda>p. (st_DeviceID p, st_ComponentID p)) ps"

definition sites_ok :: "SiteState \<Rightarrow> bool" where
  "sites_ok s \<longleftrightarrow>
     ids_ok unitID (ss_Units s) \<and> ids_ok buildingID (ss_Buildings s) \<and> ids_ok floorID (ss_Floors s) \<and> ids_ok pointID (ss_Points s) \<and>
     unique_units (set (ss_Units s)) \<and> unique_buildings (set (ss_Buildings s)) \<and> unique_floors (set (ss_Floors s)) \<and> unique_points (set (ss_Points s)) \<and>
     list_all unit_ok (ss_Units s) \<and> list_all (building_ok (set (ss_Units s))) (ss_Buildings s) \<and> list_all (floor_ok (set (ss_Buildings s))) (ss_Floors s) \<and>
     list_all (site_point_ok (set (ss_Units s)) (set (ss_Buildings s)) (set (ss_Floors s))) (ss_Points s)"

definition site_ids :: "SiteState \<Rightarrow> string set" where
  "site_ids s = unitID ` set (ss_Units s) \<union> buildingID ` set (ss_Buildings s) \<union> floorID ` set (ss_Floors s) \<union> pointID ` set (ss_Points s)"

definition fresh_from :: "nat \<Rightarrow> ids \<Rightarrow> SiteState \<Rightarrow> bool" where
  "fresh_from n ids s \<longleftrightarrow> inj ids \<and> (\<forall>m \<ge> n. ids m \<noteq> [] \<and> ids m \<notin> site_ids s)"

subsection \<open>Edited records\<close>

lemma found_Inr: "found l ident i items = Inr n \<Longrightarrow> n < length items \<and> ident (items ! n) = i"
  by (auto simp: found_def find_id_Some split: option.splits)

lemma edited_Inr:
  "edited l ident i items = Inr index \<Longrightarrow> (case index of None \<Rightarrow> i = [] | Some n \<Rightarrow> n < length items \<and> ident (items ! n) = i)"
  by (cases "find_id ident i items"; cases "i = []") (use find_id_Some in \<open>fastforce simp: edited_def\<close>)+

lemma set_put_at:
  assumes "edited l ident i items = Inr index" "ids_ok ident items"
  shows "set (put_at index v items) = insert v {x \<in> set items. ident x \<noteq> i}"
proof (cases index)
  case None
  then show ?thesis using edited_Inr [OF assms(1)] assms(2) by (auto simp: put_at_def ids_ok_def image_iff)
next
  case (Some n)
  then show ?thesis using edited_Inr [OF assms(1)] set_update_id [OF assms(2)] by (simp add: put_at_def)
qed

lemma stamp_id: "stamp record old actor now uuid = Inr rec \<Longrightarrow> sr_ID rec = (case old of None \<Rightarrow> uuid | Some o' \<Rightarrow> sr_ID o')"
  by (auto simp: stamp_def split: option.splits if_splits)

lemma ids_put_at:
  assumes "edited l ident i items = Inr index" "ids_ok ident items" "ident v = (case index of None \<Rightarrow> uuid | Some n \<Rightarrow> ident (items ! n))"
    "uuid \<noteq> []" "uuid \<notin> ident ` set items"
  shows "ids_ok ident (put_at index v items)"
  using assms edited_Inr [OF assms(1)] by (cases index) (auto simp: put_at_def intro: ids_append ids_update)

lemma put_same:
  assumes "edited l ident i items = Inr index" "ids_ok ident items" "ident v = (case index of None \<Rightarrow> uuid | Some n \<Rightarrow> ident (items ! n))"
    "x \<in> set items" "ident x = i"
  shows "ident v = i" "\<exists>n. index = Some n \<and> x = items ! n"
proof -
  have "i \<noteq> []" using assms(2,4,5) by (auto simp: ids_ok_def image_iff)
  then obtain n where n: "index = Some n" "n < length items" "ident (items ! n) = i" using edited_Inr [OF assms(1)] by (cases index) auto
  moreover obtain m where "m < length items" "x = items ! m" using assms(4) by (auto simp: in_set_conv_nth)
  ultimately have "x = items ! n" using same_id [OF assms(2) n(2), of m] assms(5) by simp
  then show "ident v = i" "\<exists>n. index = Some n \<and> x = items ! n" using n assms(3) by auto
qed

lemma put_keeps_ids:
  assumes "edited l ident i items = Inr index" "ids_ok ident items" "ident v = (case index of None \<Rightarrow> uuid | Some n \<Rightarrow> ident (items ! n))"
  shows "ident ` set items \<subseteq> ident ` set (put_at index v items)"
proof
  fix j
  assume "j \<in> ident ` set items"
  then obtain x where x: "x \<in> set items" "j = ident x" by blast
  then show "j \<in> ident ` set (put_at index v items)"
    unfolding set_put_at [OF assms(1,2)] using put_same(1) [OF assms x(1)] by (cases "ident x = i") auto
qed

subsection \<open>Units and buildings\<close>

lemma fresh_ids_now: "fresh_from n ids s \<Longrightarrow> n \<le> m \<Longrightarrow> ids m \<noteq> [] \<and> ids m \<notin> unitID ` set (ss_Units s) \<and> ids m \<notin> buildingID ` set (ss_Buildings s) \<and>
    ids m \<notin> floorID ` set (ss_Floors s) \<and> ids m \<notin> pointID ` set (ss_Points s)"
  by (auto simp: fresh_from_def site_ids_def)

lemma sites_okD:
  assumes "sites_ok s"
  shows "ids_ok unitID (ss_Units s)" "ids_ok buildingID (ss_Buildings s)" "ids_ok floorID (ss_Floors s)" "ids_ok pointID (ss_Points s)"
    "unique_units (set (ss_Units s))" "unique_buildings (set (ss_Buildings s))" "unique_floors (set (ss_Floors s))" "unique_points (set (ss_Points s))"
    "list_all unit_ok (ss_Units s)" "list_all (building_ok (set (ss_Units s))) (ss_Buildings s)" "list_all (floor_ok (set (ss_Buildings s))) (ss_Floors s)"
    "list_all (site_point_ok (set (ss_Units s)) (set (ss_Buildings s)) (set (ss_Floors s))) (ss_Points s)"
  using assms by (simp_all add: sites_ok_def)

text \<open>What the children of a record need of it: a unit its identity, a building its identity and unit.\<close>

lemma units_replaced:
  assumes "sites_ok s" "ids_ok unitID us" "unique_units (set us)" "list_all unit_ok us"
    "\<And>i. i \<in> bu_UnitID ` set (ss_Buildings s) \<union> st_UnitID ` set (ss_Points s) \<Longrightarrow> i \<in> unitID ` set (ss_Units s) \<Longrightarrow> i \<in> unitID ` set us"
  shows "sites_ok (s\<lparr>ss_Units := us\<rparr>)"
proof -
  have "list_all (building_ok (set us)) (ss_Buildings s)"
    using sites_okD(10) [OF assms(1)] assms(5) by (fastforce simp: list_all_iff building_ok_def)
  moreover have "list_all (site_point_ok (set us) (set (ss_Buildings s)) (set (ss_Floors s))) (ss_Points s)"
    using sites_okD(12) [OF assms(1)] assms(5) by (simp add: list_all_iff site_point_ok_def)
  ultimately show ?thesis using sites_okD [OF assms(1)] assms(2-4) by (simp add: sites_ok_def)
qed

lemma buildings_replaced:
  assumes "sites_ok s" "ids_ok buildingID bs" "unique_buildings (set bs)" "list_all (building_ok (set (ss_Units s))) bs"
    "\<And>f. f \<in> set (ss_Floors s) \<Longrightarrow> sf_BuildingID f \<in> buildingID ` set (ss_Buildings s) \<Longrightarrow> sf_BuildingID f \<in> buildingID ` set bs"
    "\<And>p b. p \<in> set (ss_Points s) \<Longrightarrow> b \<in> set (ss_Buildings s) \<Longrightarrow> buildingID b = st_BuildingID p \<Longrightarrow>
      \<exists>b' \<in> set bs. buildingID b' = buildingID b \<and> bu_UnitID b' = bu_UnitID b"
  shows "sites_ok (s\<lparr>ss_Buildings := bs\<rparr>)"
proof -
  have "list_all (floor_ok (set bs)) (ss_Floors s)"
    using sites_okD(11) [OF assms(1)] assms(5) by (simp add: list_all_iff floor_ok_def)
  moreover have "site_point_ok (set (ss_Units s)) (set bs) (set (ss_Floors s)) p" if "p \<in> set (ss_Points s)" for p
  proof -
    have "site_point_ok (set (ss_Units s)) (set (ss_Buildings s)) (set (ss_Floors s)) p" using sites_okD(12) [OF assms(1)] that by (simp add: list_all_iff)
    then show ?thesis using assms(6) [OF that] unfolding site_point_ok_def by fastforce
  qed
  ultimately show ?thesis using sites_okD [OF assms(1)] assms(2-4) by (simp add: sites_ok_def list_all_iff)
qed

lemma floors_replaced:
  assumes "sites_ok s" "ids_ok floorID fs" "unique_floors (set fs)" "list_all (floor_ok (set (ss_Buildings s))) fs"
    "\<And>p f. p \<in> set (ss_Points s) \<Longrightarrow> f \<in> set (ss_Floors s) \<Longrightarrow> floorID f = st_FloorID p \<Longrightarrow>
      \<exists>f' \<in> set fs. floorID f' = floorID f \<and> sf_BuildingID f' = sf_BuildingID f \<and> (sf_Plan f \<noteq> None \<longrightarrow> sf_Plan f' \<noteq> None)"
  shows "sites_ok (s\<lparr>ss_Floors := fs\<rparr>)"
proof -
  have "site_point_ok (set (ss_Units s)) (set (ss_Buildings s)) (set fs) p" if "p \<in> set (ss_Points s)" for p
  proof -
    have old: "site_point_ok (set (ss_Units s)) (set (ss_Buildings s)) (set (ss_Floors s)) p" using sites_okD(12) [OF assms(1)] that by (simp add: list_all_iff)
    have "mark_ok (set fs) p" using old assms(5) [OF that] unfolding site_point_ok_def mark_ok_def by metis
    moreover have "st_FloorID p \<noteq> [] \<Longrightarrow> \<exists>f \<in> set fs. floorID f = st_FloorID p \<and> sf_BuildingID f = st_BuildingID p"
      using old assms(5) [OF that] unfolding site_point_ok_def by metis
    ultimately show ?thesis using old by (simp add: site_point_ok_def)
  qed
  then show ?thesis using sites_okD [OF assms(1)] assms(2-4) by (simp add: sites_ok_def list_all_iff)
qed

lemma points_replaced:
  assumes "sites_ok s" "ids_ok pointID ps" "unique_points (set ps)"
    "list_all (site_point_ok (set (ss_Units s)) (set (ss_Buildings s)) (set (ss_Floors s))) ps"
  shows "sites_ok (s\<lparr>ss_Points := ps\<rparr>)"
  using sites_okD [OF assms(1)] assms(2-4) by (simp add: sites_ok_def)

lemma site_text_Inr: "site_text l req n v = Inr v' \<Longrightarrow> (req \<longrightarrow> v' \<noteq> []) \<and> length (runes v') \<le> n"
  by (auto simp: site_text_def Let_def split: if_splits)

lemma unit_text_ok: "unit_text v = Inr v' \<Longrightarrow> unit_ok v'"
  by (auto simp: unit_text_def unit_ok_def dest!: site_text_Inr)

lemma save_unit_ok:
  assumes ok: "sites_ok s" and fresh: "fresh_from 0 ids s" and v: "unit_ok v" and save: "save_unit actor v s now ids = Inr (s', r)"
  shows "sites_ok s'"
proof -
  obtain index rec where e: "edited ''unit'' unitID (unitID v) (ss_Units s) = Inr index"
    and u: "\<not> list_ex (\<lambda>other. unitID other \<noteq> unitID v \<and> (su_Name other = su_Name v \<or> (su_Code v \<noteq> [] \<and> su_Code other = su_Code v))) (ss_Units s)"
    and st: "stamp (su_SiteRecord v) (map_option (\<lambda>n. su_SiteRecord (ss_Units s ! n)) index) actor now (ids 0) = Inr rec"
    and s': "s' = s\<lparr>ss_Units := put_at index (v\<lparr>su_SiteRecord := rec\<rparr>) (ss_Units s)\<rparr>"
    using save by (auto simp: save_unit_def Let_def)
  let ?v = "v\<lparr>su_SiteRecord := rec\<rparr>"
  let ?us = "put_at index ?v (ss_Units s)"
  note ids = sites_okD(1) [OF ok]
  have set: "set ?us = insert ?v {x \<in> set (ss_Units s). unitID x \<noteq> unitID v}" by (rule set_put_at [OF e ids])
  have id: "unitID ?v = (case index of None \<Rightarrow> ids 0 | Some n \<Rightarrow> unitID (ss_Units s ! n))"
    using stamp_id [OF st] by (simp add: unitID_def split: option.splits)
  have "ids_ok unitID ?us" using ids_put_at [OF e ids id] fresh_ids_now [OF fresh, of 0] by simp
  moreover have "alike unitID su_Name (set ?us)" unfolding set
    by (rule alike_put) (use sites_okD(5) [OF ok] list_ex_no [OF u] in \<open>auto simp: unique_units_def\<close>)
  moreover have "alike unitID su_Code {u \<in> set ?us. su_Code u \<noteq> []}"
  proof -
    have "alike unitID su_Code (insert ?v {x \<in> {x \<in> set (ss_Units s). su_Code x \<noteq> []}. unitID x \<noteq> unitID v})" if "su_Code v \<noteq> []"
      by (rule alike_put) (use sites_okD(5) [OF ok] list_ex_no [OF u] that in \<open>auto simp: unique_units_def\<close>)
    then show ?thesis using sites_okD(5) [OF ok] unfolding set unique_units_def
      by (cases "su_Code v = []") (auto elim!: alike_subset)
  qed
  moreover have "list_all unit_ok ?us" using sites_okD(9) [OF ok] v set by (auto simp: list_all_iff unit_ok_def)
  moreover have "unitID ` set (ss_Units s) \<subseteq> unitID ` set ?us" by (rule put_keeps_ids [OF e ids id])
  ultimately show ?thesis unfolding s' by (intro units_replaced [OF ok]) (auto simp: unique_units_def)
qed

lemma found_fields:
  assumes "found l ident i items = Inr n" "ids_ok ident items"
  shows "set (remove_at n items) = {x \<in> set items. ident x \<noteq> i}" "ids_ok ident (remove_at n items)"
  using set_remove_at [OF _ _ assms(2)] found_Inr [OF assms(1)] ids_remove_at [OF assms(2)] by auto

lemma delete_unit_ok:
  assumes ok: "sites_ok s" and del: "delete_unit i version s now ids = Inr (s', r)"
  shows "sites_ok s'"
proof -
  obtain n where n: "found ''unit'' unitID i (ss_Units s) = Inr n"
    and b: "\<not> list_ex (\<lambda>b. bu_UnitID b = i) (ss_Buildings s)" and p: "\<not> list_ex (\<lambda>p. st_UnitID p = i) (ss_Points s)"
    and s': "s' = s\<lparr>ss_Units := remove_at n (ss_Units s)\<rparr>"
    using del by (auto simp: delete_unit_def)
  note f = found_fields [OF n sites_okD(1) [OF ok]]
  have "unique_units (set (remove_at n (ss_Units s)))"
    using sites_okD(5) [OF ok] unfolding f(1) unique_units_def by (auto elim!: alike_subset)
  moreover have "list_all unit_ok (remove_at n (ss_Units s))" using sites_okD(9) [OF ok] f(1) by (simp add: list_all_iff)
  moreover have "j \<in> unitID ` set (remove_at n (ss_Units s))"
    if "j \<in> bu_UnitID ` set (ss_Buildings s) \<union> st_UnitID ` set (ss_Points s)" "j \<in> unitID ` set (ss_Units s)" for j
  proof -
    have "j \<noteq> i" using that(1) list_ex_no [OF b] list_ex_no [OF p] by blast
    then show ?thesis using that(2) unfolding f(1) by blast
  qed
  ultimately show ?thesis unfolding s' using f(2) by (intro units_replaced [OF ok])
qed

lemma building_text_ok:
  "building_text v = Inr v' \<Longrightarrow> bu_Name v' \<noteq> [] \<and> 0 \<le> bu_AboveFloors v' \<and> bu_AboveFloors v' \<le> 300 \<and> 0 \<le> bu_BelowFloors v' \<and> bu_BelowFloors v' \<le> 20"
  by (auto simp: building_text_def split: if_splits dest!: site_text_Inr)

lemma save_building_ok:
  assumes ok: "sites_ok s" and fresh: "fresh_from 0 ids s" and save: "save_building actor v s now ids = Inr (s', r)"
    and v: "bu_Name v \<noteq> [] \<and> 0 \<le> bu_AboveFloors v \<and> bu_AboveFloors v \<le> 300 \<and> 0 \<le> bu_BelowFloors v \<and> bu_BelowFloors v \<le> 20"
  shows "sites_ok s'"
proof -
  obtain m index rec where parent: "found ''unit'' unitID (bu_UnitID v) (ss_Units s) = Inr m"
    and e: "edited ''building'' buildingID (buildingID v) (ss_Buildings s) = Inr index"
    and mv: "case index of None \<Rightarrow> True | Some n \<Rightarrow> \<not> (bu_UnitID (ss_Buildings s ! n) \<noteq> bu_UnitID v \<and> hasBuildingPoints s (buildingID v))"
    and u: "\<not> list_ex (\<lambda>other. buildingID other \<noteq> buildingID v \<and> bu_UnitID other = bu_UnitID v \<and> bu_Name other = bu_Name v) (ss_Buildings s)"
    and st: "stamp (bu_SiteRecord v) (map_option (\<lambda>n. bu_SiteRecord (ss_Buildings s ! n)) index) actor now (ids 0) = Inr rec"
    and s': "s' = s\<lparr>ss_Buildings := put_at index (v\<lparr>bu_SiteRecord := rec\<rparr>) (ss_Buildings s)\<rparr>"
    using save by (auto simp: save_building_def Let_def)
  let ?v = "v\<lparr>bu_SiteRecord := rec\<rparr>"
  let ?bs = "put_at index ?v (ss_Buildings s)"
  note ids = sites_okD(2) [OF ok]
  have set: "set ?bs = insert ?v {x \<in> set (ss_Buildings s). buildingID x \<noteq> buildingID v}" by (rule set_put_at [OF e ids])
  have id: "buildingID ?v = (case index of None \<Rightarrow> ids 0 | Some n \<Rightarrow> buildingID (ss_Buildings s ! n))"
    using stamp_id [OF st] by (simp add: buildingID_def split: option.splits)
  have "ids_ok buildingID ?bs" using ids_put_at [OF e ids id] fresh_ids_now [OF fresh, of 0] by simp
  moreover have "unique_buildings (set ?bs)" unfolding set unique_buildings_def
    by (rule alike_put) (use sites_okD(6) [OF ok] list_ex_no [OF u] in \<open>auto simp: unique_buildings_def\<close>)
  moreover have "bu_UnitID v \<in> unitID ` set (ss_Units s)" using found_Inr [OF parent] by (metis image_eqI nth_mem)
  then have "list_all (building_ok (set (ss_Units s))) ?bs" using sites_okD(10) [OF ok] v set by (auto simp: list_all_iff building_ok_def)
  moreover have "sf_BuildingID f \<in> buildingID ` set (ss_Buildings s) \<Longrightarrow> sf_BuildingID f \<in> buildingID ` set ?bs" for f
    using put_keeps_ids [OF e ids id] by blast
  moreover have "\<exists>b' \<in> set ?bs. buildingID b' = buildingID b \<and> bu_UnitID b' = bu_UnitID b"
    if p: "p \<in> set (ss_Points s)" and b: "b \<in> set (ss_Buildings s)" "buildingID b = st_BuildingID p" for p b
  proof (cases "buildingID b = buildingID v")
    case True
    then have "hasBuildingPoints s (buildingID v)" using p b(2) by (auto simp: hasBuildingPoints_def list_ex_iff)
    then have "bu_UnitID b = bu_UnitID v" using put_same(2) [OF e ids id b(1) True] mv by auto
    then show ?thesis unfolding set using put_same(1) [OF e ids id b(1) True] True by simp
  next
    case False
    then show ?thesis unfolding set using b(1) by auto
  qed
  ultimately show ?thesis unfolding s' by (intro buildings_replaced [OF ok]) auto
qed

lemma delete_building_ok:
  assumes ok: "sites_ok s" and del: "delete_building i version s now ids = Inr (s', r)"
  shows "sites_ok s'"
proof -
  obtain n where n: "found ''building'' buildingID i (ss_Buildings s) = Inr n"
    and f: "\<not> list_ex (\<lambda>f. sf_BuildingID f = i) (ss_Floors s)" and p: "\<not> list_ex (\<lambda>p. st_BuildingID p = i) (ss_Points s)"
    and s': "s' = s\<lparr>ss_Buildings := remove_at n (ss_Buildings s)\<rparr>"
    using del by (auto simp: delete_building_def hasBuildingPoints_def)
  note r = found_fields [OF n sites_okD(2) [OF ok]]
  have "unique_buildings (set (remove_at n (ss_Buildings s)))"
    using sites_okD(6) [OF ok] unfolding r(1) unique_buildings_def by (auto elim!: alike_subset)
  moreover have "list_all (building_ok (set (ss_Units s))) (remove_at n (ss_Buildings s))" using sites_okD(10) [OF ok] r(1) by (simp add: list_all_iff)
  moreover have "sf_BuildingID g \<in> buildingID ` set (remove_at n (ss_Buildings s))"
    if "g \<in> set (ss_Floors s)" "sf_BuildingID g \<in> buildingID ` set (ss_Buildings s)" for g
    using that list_ex_no [OF f that(1)] unfolding r(1) by auto
  moreover have "\<exists>b' \<in> set (remove_at n (ss_Buildings s)). buildingID b' = buildingID b \<and> bu_UnitID b' = bu_UnitID b"
    if "q \<in> set (ss_Points s)" "b \<in> set (ss_Buildings s)" "buildingID b = st_BuildingID q" for q b
    using that list_ex_no [OF p that(1)] unfolding r(1) by auto
  ultimately show ?thesis unfolding s' using r(2) by (intro buildings_replaced [OF ok]) auto
qed

subsection \<open>Floors and points\<close>

lemma floor_text_ok: "floor_text v = Inr v' \<Longrightarrow> sf_Name v' \<noteq> [] \<and> -20 \<le> sf_Level v' \<and> sf_Level v' \<le> 300"
  by (auto simp: floor_text_def split: if_splits dest!: site_text_Inr)

lemma save_floor_ok:
  assumes ok: "sites_ok s" and fresh: "fresh_from 0 ids s" and save: "save_floor actor v s now ids = Inr (s', r)"
    and v: "sf_Name v \<noteq> [] \<and> -20 \<le> sf_Level v \<and> sf_Level v \<le> 300"
  shows "sites_ok s'"
proof -
  define plan where "plan index = (case index of None \<Rightarrow> None | Some n \<Rightarrow> sf_Plan (ss_Floors s ! n))" for index
  obtain m index rec where parent: "found ''building'' buildingID (sf_BuildingID v) (ss_Buildings s) = Inr m"
    and e: "edited ''floor'' floorID (floorID v) (ss_Floors s) = Inr index"
    and mv: "case index of None \<Rightarrow> True | Some n \<Rightarrow> sf_BuildingID (ss_Floors s ! n) = sf_BuildingID v"
    and u: "\<not> list_ex (\<lambda>other. floorID other \<noteq> floorID v \<and> sf_BuildingID other = sf_BuildingID v \<and> sf_Name other = sf_Name v) (ss_Floors s)"
    and st: "stamp (sf_SiteRecord v) (map_option (\<lambda>n. sf_SiteRecord (ss_Floors s ! n)) index) actor now (ids 0) = Inr rec"
    and s': "s' = s\<lparr>ss_Floors := put_at index (v\<lparr>sf_Plan := plan index, sf_SiteRecord := rec\<rparr>) (ss_Floors s)\<rparr>"
    using save by (auto simp: save_floor_def Let_def floorID_def plan_def)
  let ?v = "v\<lparr>sf_Plan := plan index, sf_SiteRecord := rec\<rparr>"
  let ?fs = "put_at index ?v (ss_Floors s)"
  note ids = sites_okD(3) [OF ok]
  have set: "set ?fs = insert ?v {x \<in> set (ss_Floors s). floorID x \<noteq> floorID v}" by (rule set_put_at [OF e ids])
  have id: "floorID ?v = (case index of None \<Rightarrow> ids 0 | Some n \<Rightarrow> floorID (ss_Floors s ! n))"
    using stamp_id [OF st] by (simp add: floorID_def split: option.splits)
  have "ids_ok floorID ?fs" using ids_put_at [OF e ids id] fresh_ids_now [OF fresh, of 0] by simp
  moreover have "unique_floors (set ?fs)" unfolding set unique_floors_def
    by (rule alike_put) (use sites_okD(7) [OF ok] list_ex_no [OF u] in \<open>auto simp: unique_floors_def\<close>)
  moreover have "sf_BuildingID v \<in> buildingID ` set (ss_Buildings s)" using found_Inr [OF parent] by (metis image_eqI nth_mem)
  then have "list_all (floor_ok (set (ss_Buildings s))) ?fs" using sites_okD(11) [OF ok] v set by (auto simp: list_all_iff floor_ok_def)
  moreover have "\<exists>f' \<in> set ?fs. floorID f' = floorID f \<and> sf_BuildingID f' = sf_BuildingID f \<and> (sf_Plan f \<noteq> None \<longrightarrow> sf_Plan f' \<noteq> None)"
    if "f \<in> set (ss_Floors s)" for f
  proof (cases "floorID f = floorID v")
    case True
    then have "sf_BuildingID f = sf_BuildingID v" "sf_Plan f = plan index" using put_same(2) [OF e ids id that True] mv by (auto simp: plan_def)
    then show ?thesis unfolding set using put_same(1) [OF e ids id that True] True by simp
  next
    case False
    then show ?thesis unfolding set using that by auto
  qed
  ultimately show ?thesis unfolding s' by (intro floors_replaced [OF ok]) blast+
qed

lemma set_floor_plan_ok:
  assumes ok: "sites_ok s" and save: "set_floor_plan actor i version plan c s now ids = (c', Inr (s', r))"
  shows "sites_ok s'"
proof -
  obtain n where n: "found ''floor'' floorID i (ss_Floors s) = Inr n"
    and s': "s' = s\<lparr>ss_Floors := (ss_Floors s)[n := r]\<rparr>"
    and r: "floorID r = floorID (ss_Floors s ! n)" "sf_BuildingID r = sf_BuildingID (ss_Floors s ! n)" "sf_Name r = sf_Name (ss_Floors s ! n)"
      "sf_Level r = sf_Level (ss_Floors s ! n)" "sf_Plan r \<noteq> None"
    using save by (auto simp: set_floor_plan_def Let_def floorID_def split: sum.splits)
  note f = found_Inr [OF n] and ids = sites_okD(3) [OF ok]
  have set: "set ((ss_Floors s)[n := r]) = insert r {x \<in> set (ss_Floors s). floorID x \<noteq> i}" using set_update_id [OF ids] f by simp
  have old: "ss_Floors s ! n \<in> set (ss_Floors s)" using f by simp
  have "ids_ok floorID ((ss_Floors s)[n := r])" using ids_update [OF ids] f r(1) by simp
  moreover have "unique_floors (set ((ss_Floors s)[n := r]))" unfolding set unique_floors_def
  proof (rule alike_put)
    show "alike floorID (\<lambda>f. (sf_BuildingID f, sf_Name f)) (set (ss_Floors s))" using sites_okD(7) [OF ok] by (simp add: unique_floors_def)
    then show "(sf_BuildingID x, sf_Name x) \<noteq> (sf_BuildingID r, sf_Name r)" if "x \<in> set (ss_Floors s)" "floorID x \<noteq> i" for x
      using that old r f unfolding alike_def by fastforce
  qed
  moreover have "list_all (floor_ok (set (ss_Buildings s))) ((ss_Floors s)[n := r])"
    using sites_okD(11) [OF ok] set r old by (auto simp: list_all_iff floor_ok_def)
  moreover have "\<exists>f' \<in> set ((ss_Floors s)[n := r]). floorID f' = floorID g \<and> sf_BuildingID f' = sf_BuildingID g \<and> (sf_Plan g \<noteq> None \<longrightarrow> sf_Plan f' \<noteq> None)"
    if g: "g \<in> set (ss_Floors s)" for g
  proof (cases "floorID g = i")
    case True
    obtain m where "m < length (ss_Floors s)" "g = ss_Floors s ! m" using g by (auto simp: in_set_conv_nth)
    then have "g = ss_Floors s ! n" using same_id [OF ids, of n m] f True by simp
    then show ?thesis unfolding set using r by simp
  next
    case False
    then show ?thesis unfolding set using g by auto
  qed
  ultimately show ?thesis unfolding s' by (intro floors_replaced [OF ok]) blast+
qed

lemma delete_floor_ok:
  assumes ok: "sites_ok s" and del: "delete_floor i version c s now ids = (c', Inr (s', r))"
  shows "sites_ok s'"
proof -
  obtain n where n: "found ''floor'' floorID i (ss_Floors s) = Inr n" and p: "\<not> list_ex (\<lambda>p. st_FloorID p = i) (ss_Points s)"
    and s': "s' = s\<lparr>ss_Floors := remove_at n (ss_Floors s)\<rparr>"
    using del by (auto simp: delete_floor_def split: sum.splits)
  note f = found_fields [OF n sites_okD(3) [OF ok]]
  have "unique_floors (set (remove_at n (ss_Floors s)))"
    using sites_okD(7) [OF ok] unfolding f(1) unique_floors_def by (auto elim!: alike_subset)
  moreover have "list_all (floor_ok (set (ss_Buildings s))) (remove_at n (ss_Floors s))" using sites_okD(11) [OF ok] f(1) by (simp add: list_all_iff)
  moreover have "\<exists>f' \<in> set (remove_at n (ss_Floors s)). floorID f' = floorID g \<and> sf_BuildingID f' = sf_BuildingID g \<and> (sf_Plan g \<noteq> None \<longrightarrow> sf_Plan f' \<noteq> None)"
    if "q \<in> set (ss_Points s)" "g \<in> set (ss_Floors s)" "floorID g = st_FloorID q" for q g
    using that list_ex_no [OF p that(1)] unfolding f(1) by auto
  ultimately show ?thesis unfolding s' using f(2) by (intro floors_replaced [OF ok]) blast+
qed

lemma point_text_ok: "point_text v = Inr v' \<Longrightarrow> st_DeviceID v' \<noteq> []"
  by (auto simp: point_text_def dest!: site_text_Inr)

lemma found_in: "found l ident i items = Inr n \<Longrightarrow> items ! n \<in> set items \<and> ident (items ! n) = i"
  using found_Inr by (metis nth_mem)

lemma place_floor_ok:
  assumes "place_floor s v = Inr v'"
  shows "st_FloorID v' = st_FloorID v \<and> st_DeviceID v' = st_DeviceID v \<and> st_ComponentID v' = st_ComponentID v \<and> st_SiteRecord v' = st_SiteRecord v"
    "st_FloorID v' \<noteq> [] \<longrightarrow> (\<exists>f \<in> set (ss_Floors s). floorID f = st_FloorID v' \<and> sf_BuildingID f = st_BuildingID v')"
  using assms by (auto simp: place_floor_def Let_def split: if_splits dest!: found_in)

lemma place_building_ok:
  assumes "place_building s v = Inr v'"
  shows "st_FloorID v' = st_FloorID v \<and> st_BuildingID v' = st_BuildingID v \<and> st_DeviceID v' = st_DeviceID v \<and> st_ComponentID v' = st_ComponentID v \<and>
      st_SiteRecord v' = st_SiteRecord v"
    "st_BuildingID v' \<noteq> [] \<longrightarrow> (\<exists>b \<in> set (ss_Buildings s). buildingID b = st_BuildingID v' \<and> bu_UnitID b = st_UnitID v')"
  using assms by (auto simp: place_building_def Let_def split: if_splits dest!: found_in)

lemma place_mark_ok:
  assumes "place_mark s v = Inr u"
  shows "mark_ok (set (ss_Floors s)) v"
proof (cases "find_id floorID (st_FloorID v) (ss_Floors s)")
  case None
  then show ?thesis using assms by (auto simp: place_mark_def mark_ok_def split: if_splits)
next
  case (Some n)
  then have "ss_Floors s ! n \<in> set (ss_Floors s)" "floorID (ss_Floors s ! n) = st_FloorID v" using find_id_Some [OF Some] by auto
  then show ?thesis using assms Some by (auto simp: place_mark_def mark_ok_def split: if_splits)
qed

lemma placePoint_ok:
  assumes "placePoint s v = Inr v'" "st_DeviceID v \<noteq> []"
  shows "site_point_ok (set (ss_Units s)) (set (ss_Buildings s)) (set (ss_Floors s)) v'"
    "st_DeviceID v' = st_DeviceID v \<and> st_ComponentID v' = st_ComponentID v \<and> st_SiteRecord v' = st_SiteRecord v"
proof -
  obtain v1 n where h: "place_floor s v = Inr v1" "place_building s v1 = Inr v'" "found ''unit'' unitID (st_UnitID v') (ss_Units s) = Inr n" "place_mark s v' = Inr ()"
    using assms(1) by (auto simp: placePoint_def)
  have "st_UnitID v' \<in> unitID ` set (ss_Units s)" using found_in [OF h(3)] by (metis image_eqI)
  then show "site_point_ok (set (ss_Units s)) (set (ss_Buildings s)) (set (ss_Floors s)) v'"
    using place_floor_ok [OF h(1)] place_building_ok [OF h(2)] place_mark_ok [OF h(4)] assms(2) by (simp add: site_point_ok_def)
  show "st_DeviceID v' = st_DeviceID v \<and> st_ComponentID v' = st_ComponentID v \<and> st_SiteRecord v' = st_SiteRecord v"
    using place_floor_ok(1) [OF h(1)] place_building_ok(1) [OF h(2)] by simp
qed

lemma site_point_ok_record [simp]: "site_point_ok us bs fs (p\<lparr>st_SiteRecord := rec\<rparr>) = site_point_ok us bs fs p"
  by (simp add: site_point_ok_def mark_ok_def)

lemma save_point_ok:
  assumes ok: "sites_ok s" and fresh: "fresh_from 0 ids s" and save: "save_point actor v0 s now ids = Inr (s', r)" and v0: "st_DeviceID v0 \<noteq> []"
  shows "sites_ok s'"
proof -
  obtain v index rec where place: "placePoint s v0 = Inr v"
    and e: "edited ''point'' pointID (pointID v) (ss_Points s) = Inr index"
    and u: "\<not> list_ex (\<lambda>other. pointID other \<noteq> pointID v \<and> st_DeviceID other = st_DeviceID v \<and> st_ComponentID other = st_ComponentID v) (ss_Points s)"
    and st: "stamp (st_SiteRecord v) (map_option (\<lambda>n. st_SiteRecord (ss_Points s ! n)) index) actor now (ids 0) = Inr rec"
    and s': "s' = s\<lparr>ss_Points := put_at index (v\<lparr>st_SiteRecord := rec\<rparr>) (ss_Points s)\<rparr>"
    using save by (auto simp: save_point_def Let_def)
  let ?v = "v\<lparr>st_SiteRecord := rec\<rparr>"
  let ?ps = "put_at index ?v (ss_Points s)"
  note ids = sites_okD(4) [OF ok]
  have set: "set ?ps = insert ?v {x \<in> set (ss_Points s). pointID x \<noteq> pointID v}" by (rule set_put_at [OF e ids])
  have id: "pointID ?v = (case index of None \<Rightarrow> ids 0 | Some n \<Rightarrow> pointID (ss_Points s ! n))"
    using stamp_id [OF st] by (simp add: pointID_def split: option.splits)
  have "ids_ok pointID ?ps" using ids_put_at [OF e ids id] fresh_ids_now [OF fresh, of 0] by simp
  moreover have "unique_points (set ?ps)" unfolding set unique_points_def
    by (rule alike_put) (use sites_okD(8) [OF ok] list_ex_no [OF u] in \<open>auto simp: unique_points_def\<close>)
  moreover have "list_all (site_point_ok (set (ss_Units s)) (set (ss_Buildings s)) (set (ss_Floors s))) ?ps"
    using sites_okD(12) [OF ok] placePoint_ok(1) [OF place v0] by (simp add: list_all_iff set)
  ultimately show ?thesis unfolding s' by (intro points_replaced [OF ok])
qed

lemma delete_point_ok:
  assumes ok: "sites_ok s" and del: "delete_point i version c s now ids = (c', Inr (s', r))"
  shows "sites_ok s'"
proof -
  obtain n where n: "found ''point'' pointID i (ss_Points s) = Inr n" and s': "s' = s\<lparr>ss_Points := remove_at n (ss_Points s)\<rparr>"
    using del by (auto simp: delete_point_def split: sum.splits)
  note f = found_fields [OF n sites_okD(4) [OF ok]]
  have "unique_points (set (remove_at n (ss_Points s)))"
    using sites_okD(8) [OF ok] unfolding f(1) unique_points_def by (auto elim!: alike_subset)
  moreover have "list_all (site_point_ok (set (ss_Units s)) (set (ss_Buildings s)) (set (ss_Floors s))) (remove_at n (ss_Points s))"
    using sites_okD(12) [OF ok] by (simp add: list_all_iff f(1))
  ultimately show ?thesis unfolding s' using f(2) by (intro points_replaced [OF ok])
qed

lemma fraction_finite: "validFraction x \<Longrightarrow> finite_mark x"
proof (cases x)
  case (Some y)
  assume "validFraction x"
  then show ?thesis using Some by (cases y) (auto simp: validFraction_def finite_mark_def f64_le_def)
qed (simp add: finite_mark_def)

lemma sites_ok_encodes: "sites_ok s \<Longrightarrow> encodes s"
proof -
  assume "sites_ok s"
  then have "\<forall>p \<in> set (ss_Points s). mark_ok (set (ss_Floors s)) p" using sites_okD(12) by (auto simp: list_all_iff site_point_ok_def)
  then have "\<forall>p \<in> set (ss_Points s). finite_mark (st_X p) \<and> finite_mark (st_Y p)"
    using fraction_finite by (auto simp: mark_ok_def finite_mark_def [of None] split: option.splits)
  then show ?thesis by (simp add: encodes_def list_all_iff)
qed

subsection \<open>The import\<close>

definition run_ok :: "ids \<Rightarrow> import_run \<Rightarrow> bool" where
  "run_ok ids r \<longleftrightarrow> sites_ok (ii_state r) \<and> fresh_from (ii_drawn r) ids (ii_state r)"

lemma find_last_Some: "find_last p xs = Some n \<Longrightarrow> n < length xs \<and> p (xs ! n)"
  by (induction xs arbitrary: n) (auto split: option.splits if_splits)

lemma find_last_None: "find_last p xs = None \<longleftrightarrow> (\<forall>x \<in> set xs. \<not> p x)"
  by (induction xs) (auto split: option.splits)

lemma fresh_later:
  assumes "fresh_from n ids s" "site_ids s' \<subseteq> insert (ids n) (site_ids s)"
  shows "fresh_from (Suc n) ids s'"
  unfolding fresh_from_def
proof (intro conjI allI impI)
  show inj: "inj ids" using assms(1) by (simp add: fresh_from_def)
  fix m
  assume "Suc n \<le> m"
  then have "ids m \<noteq> ids n" "ids m \<noteq> []" "ids m \<notin> site_ids s" using assms(1) inj by (auto simp: fresh_from_def dest: injD)
  then show "ids m \<noteq> []" "ids m \<notin> site_ids s'" using assms(2) by auto
qed

lemma alike_append: "alike ident k items \<Longrightarrow> (\<And>x. x \<in> items \<Longrightarrow> k x \<noteq> k v) \<Longrightarrow> alike ident k (insert v items)"
  unfolding alike_def by (metis insert_iff)

lemma new_record_id [simp]: "sr_ID (new_record uuid actor now) = uuid"
  by (simp add: new_record_def)

lemma row_unit_ok:
  assumes ok: "run_ok ids r" and name: "ir_Unit row \<noteq> []" "length (runes (ir_Unit row)) \<le> 100" and row: "row_unit actor now ids row r = Inr (u, r')"
  shows "run_ok ids r' \<and> u \<in> unitID ` set (ss_Units (ii_state r'))"
proof (cases "find_last (\<lambda>u. su_Name u = ir_Unit row) (ss_Units (ii_state r))")
  case (Some i)
  then show ?thesis using row ok find_last_Some [OF Some] by (auto simp: row_unit_def Let_def)
next
  case None
  let ?s = "ii_state r"
  let ?u = "\<lparr>su_SiteRecord = new_record (ids (ii_drawn r)) actor now, su_Name = ir_Unit row, su_Code = ir_UnitCode row,
    su_Address = ir_UnitAddress row, su_Contact = [], su_Phone = [], su_Notes = []\<rparr>"
  have sok: "sites_ok ?s" and fresh: "fresh_from (ii_drawn r) ids ?s" using ok by (auto simp: run_ok_def)
  have id: "unitID ?u = ids (ii_drawn r)" by (simp add: unitID_def)
  have code: "su_Code x \<noteq> ir_UnitCode row" if "x \<in> set (ss_Units ?s)" "ir_UnitCode row \<noteq> []" for x
  proof (cases "find_last (\<lambda>other. ir_UnitCode row \<noteq> [] \<and> su_Code other = ir_UnitCode row) (ss_Units ?s)")
    case (Some j)
    then have "su_Name (ss_Units ?s ! j) \<noteq> []" using find_last_Some [OF Some] sites_okD(9) [OF sok] by (auto simp: list_all_iff unit_ok_def)
    then show ?thesis using row None Some by (simp add: row_unit_def)
  qed (use that in \<open>auto simp: find_last_None\<close>)
  have r': "u = unitID ?u" "ii_state r' = ?s\<lparr>ss_Units := ss_Units ?s @ [?u]\<rparr>" "ii_drawn r' = Suc (ii_drawn r)"
    using row None by (auto simp: row_unit_def Let_def split: if_splits option.splits)
  have "sites_ok (ii_state r')" unfolding r'(2)
  proof (rule units_replaced [OF sok])
    show "ids_ok unitID (ss_Units ?s @ [?u])" using ids_append [OF sites_okD(1) [OF sok], of ?u] fresh_ids_now [OF fresh, of "ii_drawn r"] id by simp
    have "alike unitID su_Name (insert ?u (set (ss_Units ?s)))"
      using alike_append [of unitID su_Name _ ?u] sites_okD(5) [OF sok] None by (auto simp: unique_units_def find_last_None)
    moreover have "alike unitID su_Code {x \<in> insert ?u (set (ss_Units ?s)). su_Code x \<noteq> []}"
    proof (cases "ir_UnitCode row = []")
      case True
      then have "{x \<in> insert ?u (set (ss_Units ?s)). su_Code x \<noteq> []} = {x \<in> set (ss_Units ?s). su_Code x \<noteq> []}" by auto
      then show ?thesis using sites_okD(5) [OF sok] by (simp add: unique_units_def)
    next
      case False
      then have "{x \<in> insert ?u (set (ss_Units ?s)). su_Code x \<noteq> []} = insert ?u {x \<in> set (ss_Units ?s). su_Code x \<noteq> []}" by auto
      moreover have "alike unitID su_Code (insert ?u {x \<in> set (ss_Units ?s). su_Code x \<noteq> []})"
        by (rule alike_append) (use sites_okD(5) [OF sok] code [OF _ False] in \<open>auto simp: unique_units_def\<close>)
      ultimately show ?thesis by simp
    qed
    ultimately show "unique_units (set (ss_Units ?s @ [?u]))" by (simp add: unique_units_def)
    show "list_all unit_ok (ss_Units ?s @ [?u])" using sites_okD(9) [OF sok] name by (simp add: unit_ok_def)
  qed auto
  moreover have "site_ids (ii_state r') \<subseteq> insert (ids (ii_drawn r)) (site_ids ?s)" using r'(2) id by (auto simp: site_ids_def)
  ultimately show ?thesis using r' id fresh_later [OF fresh] by (simp add: run_ok_def)
qed

lemma row_building_ok:
  assumes ok: "run_ok ids r" and parent: "u \<in> unitID ` set (ss_Units (ii_state r))" and row: "row_building actor now ids row u r = (b, r')"
  shows "run_ok ids r'" "ss_Units (ii_state r') = ss_Units (ii_state r)"
    "if ir_Building row = [] then b = [] else \<exists>x \<in> set (ss_Buildings (ii_state r')). buildingID x = b \<and> bu_UnitID x = u"
proof -
  let ?s = "ii_state r"
  let ?b = "\<lparr>bu_SiteRecord = new_record (ids (ii_drawn r)) actor now, bu_UnitID = u, bu_Name = ir_Building row,
    bu_Address = [], bu_AboveFloors = 0, bu_BelowFloors = 0, bu_Notes = []\<rparr>"
  have sok: "sites_ok ?s" and fresh: "fresh_from (ii_drawn r) ids ?s" using ok by (auto simp: run_ok_def)
  have id: "buildingID ?b = ids (ii_drawn r)" by (simp add: buildingID_def)
  have "run_ok ids r' \<and> ss_Units (ii_state r') = ss_Units ?s \<and>
    (if ir_Building row = [] then b = [] else \<exists>x \<in> set (ss_Buildings (ii_state r')). buildingID x = b \<and> bu_UnitID x = u)"
  proof (cases "ir_Building row = []")
    case True
    then show ?thesis using row ok by (simp add: row_building_def)
  next
    case named: False
    show ?thesis
    proof (cases "find_last (\<lambda>b. bu_UnitID b = u \<and> bu_Name b = ir_Building row) (ss_Buildings ?s)")
      case (Some i)
      then show ?thesis using row ok named find_last_Some [OF Some] by (auto simp: row_building_def Let_def)
    next
      case None
      have r': "b = buildingID ?b" "ii_state r' = ?s\<lparr>ss_Buildings := ss_Buildings ?s @ [?b]\<rparr>" "ii_drawn r' = Suc (ii_drawn r)"
        using row None named by (auto simp: row_building_def Let_def)
      have "sites_ok (ii_state r')" unfolding r'(2)
      proof (rule buildings_replaced [OF sok])
        show "ids_ok buildingID (ss_Buildings ?s @ [?b])" using ids_append [OF sites_okD(2) [OF sok], of ?b] fresh_ids_now [OF fresh, of "ii_drawn r"] id by simp
        have "alike buildingID (\<lambda>b. (bu_UnitID b, bu_Name b)) (insert ?b (set (ss_Buildings ?s)))"
          by (rule alike_append) (use sites_okD(6) [OF sok] None in \<open>auto simp: unique_buildings_def find_last_None\<close>)
        then show "unique_buildings (set (ss_Buildings ?s @ [?b]))" by (simp add: unique_buildings_def)
        show "list_all (building_ok (set (ss_Units ?s))) (ss_Buildings ?s @ [?b])" using sites_okD(10) [OF sok] named parent by (simp add: building_ok_def)
      qed auto
      moreover have "site_ids (ii_state r') \<subseteq> insert (ids (ii_drawn r)) (site_ids ?s)" using r'(2) id by (auto simp: site_ids_def)
      ultimately show ?thesis using r' named fresh_later [OF fresh] by (simp add: run_ok_def)
    qed
  qed
  then show "run_ok ids r'" "ss_Units (ii_state r') = ss_Units (ii_state r)"
    "if ir_Building row = [] then b = [] else \<exists>x \<in> set (ss_Buildings (ii_state r')). buildingID x = b \<and> bu_UnitID x = u" by auto
qed

lemma row_floor_ok:
  assumes ok: "run_ok ids r" and parent: "ir_Floor row \<noteq> [] \<Longrightarrow> b \<in> buildingID ` set (ss_Buildings (ii_state r))"
    and level: "-20 \<le> ir_Level row" "ir_Level row \<le> 300" and row: "row_floor actor now ids row b r = (f, r')"
  shows "run_ok ids r'" "ss_Units (ii_state r') = ss_Units (ii_state r)" "ss_Buildings (ii_state r') = ss_Buildings (ii_state r)"
    "f \<noteq> [] \<Longrightarrow> \<exists>x \<in> set (ss_Floors (ii_state r')). floorID x = f \<and> sf_BuildingID x = b"
proof -
  let ?s = "ii_state r"
  let ?f = "\<lparr>sf_SiteRecord = new_record (ids (ii_drawn r)) actor now, sf_BuildingID = b, sf_Name = ir_Floor row, sf_Level = ir_Level row, sf_Plan = None\<rparr>"
  have sok: "sites_ok ?s" and fresh: "fresh_from (ii_drawn r) ids ?s" using ok by (auto simp: run_ok_def)
  have id: "floorID ?f = ids (ii_drawn r)" by (simp add: floorID_def)
  have "run_ok ids r' \<and> ss_Units (ii_state r') = ss_Units ?s \<and> ss_Buildings (ii_state r') = ss_Buildings ?s \<and>
    (f \<noteq> [] \<longrightarrow> (\<exists>x \<in> set (ss_Floors (ii_state r')). floorID x = f \<and> sf_BuildingID x = b))"
  proof (cases "ir_Floor row = []")
    case True
    then show ?thesis using row ok by (auto simp: row_floor_def)
  next
    case named: False
    show ?thesis
    proof (cases "find_last (\<lambda>f. sf_BuildingID f = b \<and> sf_Name f = ir_Floor row) (ss_Floors ?s)")
      case (Some i)
      then show ?thesis using row ok named find_last_Some [OF Some] by (auto simp: row_floor_def Let_def)
    next
      case None
      have r': "f = floorID ?f" "ii_state r' = ?s\<lparr>ss_Floors := ss_Floors ?s @ [?f]\<rparr>" "ii_drawn r' = Suc (ii_drawn r)"
        using row None named by (auto simp: row_floor_def Let_def)
      have "sites_ok (ii_state r')" unfolding r'(2)
      proof (rule floors_replaced [OF sok])
        show "ids_ok floorID (ss_Floors ?s @ [?f])" using ids_append [OF sites_okD(3) [OF sok], of ?f] fresh_ids_now [OF fresh, of "ii_drawn r"] id by simp
        have "alike floorID (\<lambda>f. (sf_BuildingID f, sf_Name f)) (insert ?f (set (ss_Floors ?s)))"
          by (rule alike_append) (use sites_okD(7) [OF sok] None in \<open>auto simp: unique_floors_def find_last_None\<close>)
        then show "unique_floors (set (ss_Floors ?s @ [?f]))" by (simp add: unique_floors_def)
        show "list_all (floor_ok (set (ss_Buildings ?s))) (ss_Floors ?s @ [?f])" using sites_okD(11) [OF sok] named parent level by (simp add: floor_ok_def)
      qed auto
      moreover have "site_ids (ii_state r') \<subseteq> insert (ids (ii_drawn r)) (site_ids ?s)" using r'(2) id by (auto simp: site_ids_def)
      ultimately show ?thesis using r' named fresh_later [OF fresh] by (simp add: run_ok_def)
    qed
  qed
  then show "run_ok ids r'" "ss_Units (ii_state r') = ss_Units (ii_state r)" "ss_Buildings (ii_state r') = ss_Buildings (ii_state r)"
    "f \<noteq> [] \<Longrightarrow> \<exists>x \<in> set (ss_Floors (ii_state r')). floorID x = f \<and> sf_BuildingID x = b" by auto
qed

lemma row_point_ok:
  assumes ok: "run_ok ids r" and point: "site_point_ok (set (ss_Units (ii_state r))) (set (ss_Buildings (ii_state r))) (set (ss_Floors (ii_state r))) p"
    and x: "st_X p = None" "st_Y p = None"
  shows "run_ok ids (row_point actor now ids p r)"
proof -
  let ?s = "ii_state r"
  let ?r = "row_point actor now ids p r"
  have sok: "sites_ok ?s" and fresh: "fresh_from (ii_drawn r) ids ?s" using ok by (auto simp: run_ok_def)
  show ?thesis
  proof (cases "find_last (\<lambda>q. st_DeviceID q = st_DeviceID p \<and> st_ComponentID q = st_ComponentID p) (ss_Points ?s)")
    case None
    let ?p = "p\<lparr>st_SiteRecord := new_record (ids (ii_drawn r)) actor now\<rparr>"
    have id: "pointID ?p = ids (ii_drawn r)" by (simp add: pointID_def)
    have r': "ii_state ?r = ?s\<lparr>ss_Points := ss_Points ?s @ [?p]\<rparr>" "ii_drawn ?r = Suc (ii_drawn r)" using None by (auto simp: row_point_def)
    have "sites_ok (ii_state ?r)" unfolding r'(1)
    proof (rule points_replaced [OF sok])
      show "ids_ok pointID (ss_Points ?s @ [?p])" using ids_append [OF sites_okD(4) [OF sok], of ?p] fresh_ids_now [OF fresh, of "ii_drawn r"] id by simp
      have "alike pointID (\<lambda>p. (st_DeviceID p, st_ComponentID p)) (insert ?p (set (ss_Points ?s)))"
        by (rule alike_append) (use sites_okD(8) [OF sok] None in \<open>auto simp: unique_points_def find_last_None\<close>)
      then show "unique_points (set (ss_Points ?s @ [?p]))" by (simp add: unique_points_def)
      show "list_all (site_point_ok (set (ss_Units ?s)) (set (ss_Buildings ?s)) (set (ss_Floors ?s))) (ss_Points ?s @ [?p])"
        using sites_okD(12) [OF sok] point by simp
    qed
    moreover have "site_ids (ii_state ?r) \<subseteq> insert (ids (ii_drawn r)) (site_ids ?s)" using r'(1) id by (auto simp: site_ids_def)
    ultimately show ?thesis using r' fresh_later [OF fresh] by (simp add: run_ok_def)
  next
    case (Some i)
    let ?p = "moved_point actor now p (ss_Points ?s ! i)"
    have i: "i < length (ss_Points ?s)" "st_DeviceID (ss_Points ?s ! i) = st_DeviceID p" "st_ComponentID (ss_Points ?s ! i) = st_ComponentID p"
      using find_last_Some [OF Some] by auto
    have r': "ii_state ?r = ?s\<lparr>ss_Points := (ss_Points ?s)[i := ?p]\<rparr>" "ii_drawn ?r = ii_drawn r" using Some by (auto simp: row_point_def Let_def)
    have id: "pointID ?p = pointID (ss_Points ?s ! i)" by (simp add: moved_point_def pointID_def Let_def)
    have ids: "ids_ok pointID (ss_Points ?s)" by (rule sites_okD(4) [OF sok])
    have set: "set ((ss_Points ?s)[i := ?p]) = insert ?p {x \<in> set (ss_Points ?s). pointID x \<noteq> pointID (ss_Points ?s ! i)}"
      by (rule set_update_id [OF ids i(1) refl])
    have old: "site_point_ok (set (ss_Units ?s)) (set (ss_Buildings ?s)) (set (ss_Floors ?s)) (ss_Points ?s ! i)"
      using sites_okD(12) [OF sok] i(1) by (simp add: list_all_length)
    have "sites_ok (ii_state ?r)" unfolding r'(1)
    proof (rule points_replaced [OF sok])
      show "ids_ok pointID ((ss_Points ?s)[i := ?p])" by (rule ids_update [OF ids i(1) id])
      show "unique_points (set ((ss_Points ?s)[i := ?p]))" unfolding set unique_points_def
      proof (rule alike_put)
        show a: "alike pointID (\<lambda>p. (st_DeviceID p, st_ComponentID p)) (set (ss_Points ?s))" using sites_okD(8) [OF sok] by (simp add: unique_points_def)
        show "(st_DeviceID x, st_ComponentID x) \<noteq> (st_DeviceID ?p, st_ComponentID ?p)"
          if "x \<in> set (ss_Points ?s)" "pointID x \<noteq> pointID (ss_Points ?s ! i)" for x
        proof
          assume "(st_DeviceID x, st_ComponentID x) = (st_DeviceID ?p, st_ComponentID ?p)"
          then have "(st_DeviceID x, st_ComponentID x) = (st_DeviceID (ss_Points ?s ! i), st_ComponentID (ss_Points ?s ! i))"
            using i by (simp add: moved_point_def Let_def)
          then have "pointID x = pointID (ss_Points ?s ! i)" using a that(1) nth_mem [OF i(1)] unfolding alike_def by blast
          then show False using that(2) by simp
        qed
      qed
      have "site_point_ok (set (ss_Units ?s)) (set (ss_Buildings ?s)) (set (ss_Floors ?s)) ?p"
        using point old x by (auto simp: site_point_ok_def mark_ok_def moved_point_def Let_def)
      then show "list_all (site_point_ok (set (ss_Units ?s)) (set (ss_Buildings ?s)) (set (ss_Floors ?s))) ((ss_Points ?s)[i := ?p])"
        using sites_okD(12) [OF sok] by (simp add: list_all_iff set)
    qed
    moreover have "site_ids (ii_state ?r) \<subseteq> site_ids ?s" unfolding site_ids_def r'(1) using set id nth_mem [OF i(1)] by auto
    then have "fresh_from (ii_drawn r) ids (ii_state ?r)" using fresh by (auto simp: fresh_from_def)
    ultimately show ?thesis using r'(2) by (simp add: run_ok_def)
  qed
qed

lemma fail_row_ok [simp]: "run_ok ids (fail_row line m r) = run_ok ids r"
  by (simp add: run_ok_def fail_row_def)

lemma place_row_ok:
  assumes ok: "run_ok ids r" and name: "ir_Unit row \<noteq> []" "length (runes (ir_Unit row)) \<le> 100"
    and floor: "ir_Floor row \<noteq> [] \<Longrightarrow> ir_Building row \<noteq> []" and level: "-20 \<le> ir_Level row" "ir_Level row \<le> 300"
  shows "run_ok ids (place_row actor now ids row r)"
proof (cases "row_unit actor now ids row r")
  case (Inl m)
  then show ?thesis using ok by (simp add: place_row_def)
next
  case (Inr p)
  obtain u r1 where p: "p = (u, r1)" by fastforce
  have r1: "run_ok ids r1" "u \<in> unitID ` set (ss_Units (ii_state r1))" using row_unit_ok [OF ok name] Inr p by auto
  obtain b r2 where b: "row_building actor now ids row u r1 = (b, r2)" by fastforce
  note r2 = row_building_ok [OF r1 b]
  obtain f r3 where f: "row_floor actor now ids row b r2 = (f, r3)" by fastforce
  have parent: "b \<in> buildingID ` set (ss_Buildings (ii_state r2))" if "ir_Floor row \<noteq> []" using r2(3) floor [OF that] by auto
  note r3 = row_floor_ok [OF r2(1) parent level f]
  let ?p = "\<lparr>st_SiteRecord = \<lparr>sr_ID = [], sr_Version = 0, sr_CreatedAt = 0, sr_UpdatedAt = 0, sr_UpdatedBy = []\<rparr>,
    st_UnitID = u, st_BuildingID = b, st_FloorID = f, st_DeviceID = ir_DeviceID row, st_ComponentID = ir_ComponentID row,
    st_Name = ir_PointName row, st_X = None, st_Y = None\<rparr>"
  have eq: "place_row actor now ids row r = (if ir_DeviceID row = [] then r3 else row_point actor now ids ?p r3)"
    using Inr p b f by (simp add: place_row_def)
  have "site_point_ok (set (ss_Units (ii_state r3))) (set (ss_Buildings (ii_state r3))) (set (ss_Floors (ii_state r3))) ?p" if "ir_DeviceID row \<noteq> []"
  proof -
    have "b \<noteq> [] \<Longrightarrow> \<exists>x \<in> set (ss_Buildings (ii_state r2)). buildingID x = b \<and> bu_UnitID x = u" using r2(3) by (cases "ir_Building row = []") simp_all
    moreover have "u \<in> unitID ` set (ss_Units (ii_state r3))" using r1(2) r2(2) r3(2) by simp
    ultimately show ?thesis using that r3(3,4) by (simp add: site_point_ok_def mark_ok_def)
  qed
  then show ?thesis unfolding eq using r3(1) row_point_ok [OF r3(1), of ?p] by simp
qed

lemma row_text_ok: "row_text row = Inr row' \<Longrightarrow> ir_Unit row' \<noteq> [] \<and> length (runes (ir_Unit row')) \<le> 100 \<and> ir_Level row' = ir_Level row"
proof -
  assume "row_text row = Inr row'"
  then obtain u where "site_text ''unit name'' True 100 (ir_Unit row) = Inr u" "ir_Unit row' = u" "ir_Level row' = ir_Level row"
    by (auto simp: row_text_def)
  then show ?thesis using site_text_Inr by blast
qed

lemma import_row_ok:
  assumes "run_ok ids r"
  shows "run_ok ids (import_row actor now ids allowed row r)"
proof (cases "row_text row")
  case (Inl e)
  then show ?thesis using assms by (simp add: import_row_def)
next
  case (Inr row')
  note t = row_text_ok [OF Inr]
  have seen: "run_ok ids (q\<lparr>ii_seen := x\<rparr>) = run_ok ids q" for q x by (simp add: run_ok_def)
  have "run_ok ids (place_row actor now ids row' q)"
    if "run_ok ids q" "\<not> (ir_Floor row' \<noteq> [] \<and> ir_Building row' = [])" "\<not> (ir_Level row' < -20 \<or> 300 < ir_Level row')" for q
    using that t by (intro place_row_ok) auto
  then show ?thesis using assms Inr seen by (simp add: import_row_def Let_def)
qed

lemma run_import_ok:
  assumes "sites_ok s" "fresh_from 0 ids s"
  shows "sites_ok (ii_state (run_import actor rows allowed s now ids))"
proof -
  have "run_ok ids (fold (import_row actor now ids allowed) rows r)" if "run_ok ids r" for r
    using that by (induction rows arbitrary: r) (simp_all add: import_row_ok)
  then show ?thesis using assms unfolding run_import_def by (simp add: run_ok_def)
qed

subsection \<open>Every operation\<close>

datatype site_op =
    OpSaveUnit string SiteUnit
  | OpDeleteUnit string int
  | OpSaveBuilding string SiteBuilding
  | OpDeleteBuilding string int
  | OpSaveFloor string SiteFloor
  | OpSetFloorPlan string string int FloorPlan
  | OpDeleteFloor string int
  | OpSavePoint string SitePoint
  | OpDeletePoint string int
  | OpImport string "ImportRow list" "string \<Rightarrow> bool"

text \<open>The state that an operation makes of a state, if it does not refuse it.\<close>

definition op_change :: "site_op \<Rightarrow> SiteState \<Rightarrow> int \<Rightarrow> ids \<Rightarrow> site_error + SiteState" where
  "op_change op s now ids = (case op of
     OpSaveUnit actor v \<Rightarrow> rbind (unit_text v) (\<lambda>v. map_sum id fst (save_unit actor v s now ids))
   | OpDeleteUnit i version \<Rightarrow> map_sum id fst (delete_unit i version s now ids)
   | OpSaveBuilding actor v \<Rightarrow> rbind (building_text v) (\<lambda>v. map_sum id fst (save_building actor v s now ids))
   | OpDeleteBuilding i version \<Rightarrow> map_sum id fst (delete_building i version s now ids)
   | OpSaveFloor actor v \<Rightarrow> rbind (floor_text v) (\<lambda>v. map_sum id fst (save_floor actor v s now ids))
   | OpSetFloorPlan actor i version plan \<Rightarrow> map_sum id fst (snd (set_floor_plan actor i version plan None s now ids))
   | OpDeleteFloor i version \<Rightarrow> map_sum id fst (snd (delete_floor i version None s now ids))
   | OpSavePoint actor v \<Rightarrow> rbind (point_text v) (\<lambda>v. map_sum id fst (save_point actor v s now ids))
   | OpDeletePoint i version \<Rightarrow> map_sum id fst (snd (delete_point i version None s now ids))
   | OpImport actor rows allowed \<Rightarrow> map_sum id fst (snd (import_sites actor rows allowed (zero_ImportResult 0) s now ids)))"

lemma change_keeps_sites:
  assumes "sites_ok s" "fresh_from 0 ids s" "op_change op s now ids = Inr s'"
  shows "sites_ok s'"
proof (cases op)
  case (OpSaveUnit actor v)
  then show ?thesis using assms by (auto simp: op_change_def map_sum_Inr dest: save_unit_ok unit_text_ok)
next
  case (OpDeleteUnit i version)
  then show ?thesis using assms by (auto simp: op_change_def map_sum_Inr dest: delete_unit_ok)
next
  case (OpSaveBuilding actor v)
  then show ?thesis using assms save_building_ok building_text_ok by (auto simp: op_change_def map_sum_Inr)
next
  case (OpDeleteBuilding i version)
  then show ?thesis using assms by (auto simp: op_change_def map_sum_Inr dest: delete_building_ok)
next
  case (OpSaveFloor actor v)
  then show ?thesis using assms save_floor_ok floor_text_ok by (auto simp: op_change_def map_sum_Inr)
next
  case (OpSetFloorPlan actor i version plan)
  then obtain r where "snd (set_floor_plan actor i version plan None s now ids) = Inr (s', r)" using assms(3) by (auto simp: op_change_def map_sum_Inr)
  then show ?thesis using set_floor_plan_ok [OF assms(1)] by (metis prod.collapse)
next
  case (OpDeleteFloor i version)
  then obtain r where "snd (delete_floor i version None s now ids) = Inr (s', r)" using assms(3) by (auto simp: op_change_def map_sum_Inr)
  then show ?thesis using delete_floor_ok [OF assms(1)] by (metis prod.collapse)
next
  case (OpSavePoint actor v)
  then show ?thesis using assms save_point_ok point_text_ok by (auto simp: op_change_def map_sum_Inr)
next
  case (OpDeletePoint i version)
  then obtain r where "snd (delete_point i version None s now ids) = Inr (s', r)" using assms(3) by (auto simp: op_change_def map_sum_Inr)
  then show ?thesis using delete_point_ok [OF assms(1)] by (metis prod.collapse)
next
  case (OpImport actor rows allowed)
  then show ?thesis using assms run_import_ok by (auto simp: op_change_def map_sum_Inr import_sites_def Let_def split: if_splits)
qed

end
