(* ===== verification/Site_Run.thy ===== *)
theory Site_Run
  imports Site_History Site_Integrity
begin

text \<open>
  The operations of the site service as a whole: every stored state that operations can lead to has its integrity (\<open>sites_run_ok\<close>), and each call of the
  service, run beside other requests, changes the store by one such operation at one moment or not at all (\<open>serve_site_effect\<close>).
\<close>

subsection \<open>Reachable stores\<close>

inductive sites_run :: "SiteState gomap \<Rightarrow> bool" where
  empty: "sites_run []"
| step: "sites_run store \<Longrightarrow> fresh_from 0 ids (site_of store t) \<Longrightarrow> op_change op (site_of store t) now ids = Inr state \<Longrightarrow> sites_run (commit t state store)"

lemma sites_ok_zero: "sites_ok zero_SiteState"
  by (simp add: sites_ok_def zero_SiteState_def ids_ok_def unique_units_def unique_buildings_def unique_floors_def unique_points_def alike_def)

lemma sites_ok_revision [simp]: "sites_ok (s\<lparr>ss_Revision := n\<rparr>) = sites_ok s"
  by (simp add: sites_ok_def)

lemma sites_run_ok: "sites_run store \<Longrightarrow> sites_ok (site_of store t)"
proof (induction arbitrary: t rule: sites_run.induct)
  case empty
  then show ?case by (simp add: site_of_def sites_ok_zero)
next
  case (step store ids t' op now state)
  then show ?case using change_keeps_sites [OF step.IH step.hyps(2,3)] by (simp add: site_of_commit)
qed

subsection \<open>Calls of the service\<close>

definition serve_site :: "string \<Rightarrow> site_op \<Rightarrow> (nat \<Rightarrow> int) \<Rightarrow> (nat \<Rightarrow> ids) \<Rightarrow> site_world \<Rightarrow> site_world" where
  "serve_site t op clock uuid w = (case op of
     OpSaveUnit actor v \<Rightarrow> snd (SaveUnit t actor v clock uuid w)
   | OpDeleteUnit i version \<Rightarrow> snd (DeleteUnit t i version clock uuid w)
   | OpSaveBuilding actor v \<Rightarrow> snd (SaveBuilding t actor v clock uuid w)
   | OpDeleteBuilding i version \<Rightarrow> snd (DeleteBuilding t i version clock uuid w)
   | OpSaveFloor actor v \<Rightarrow> snd (SaveFloor t actor v clock uuid w)
   | OpSetFloorPlan actor i version plan \<Rightarrow> snd (SetFloorPlan t actor i version plan clock uuid w)
   | OpDeleteFloor i version \<Rightarrow> snd (DeleteFloor t i version clock uuid w)
   | OpSavePoint actor v \<Rightarrow> snd (SavePoint t actor v clock uuid w)
   | OpDeletePoint i version \<Rightarrow> snd (DeletePoint t i version clock uuid w)
   | OpImport actor rows allowed \<Rightarrow> snd (Import t actor rows allowed clock uuid w))"

definition one_effect :: "string \<Rightarrow> (SiteState \<Rightarrow> int \<Rightarrow> ids \<Rightarrow> site_error + SiteState) \<Rightarrow> (nat \<Rightarrow> int) \<Rightarrow> (nat \<Rightarrow> ids) \<Rightarrow> site_world \<Rightarrow> site_world \<Rightarrow> bool" where
  "one_effect t g clock uuid w w' \<longleftrightarrow> traced w' \<and> (\<exists>es. meanwhile_of w = es @ meanwhile_of w' \<and>
     (sw_store w' = commits es (sw_store w) \<or>
      (\<exists>es1 es2 state k. es = es1 @ es2 \<and> g (site_of (commits es1 (sw_store w)) t) (clock k) (uuid k) = Inr state \<and>
         sw_store w' = commits (es1 @ Committed t state # es2) (sw_store w))))"

lemma apply_one_effect:
  assumes "traced w" "\<And>c s now ids state r. snd (f c s now ids) = Inr (state, r) \<Longrightarrow> g s now ids = Inr state"
  shows "one_effect t g clock uuid w (snd (site_apply t f clock uuid c w))"
proof -
  obtain c' res w' where a: "site_apply t f clock uuid c w = ((c', res), w')" by (metis prod.exhaust)
  note h = apply_takes_effect_once [OF assms(1) a]
  then obtain es where es: "meanwhile_of w = es @ meanwhile_of w'" "case res of
       Inl e \<Rightarrow> sw_store w' = commits es (sw_store w) \<and> (e = SiteInvalid ''tenant is empty'' \<and> trim_space t = [] \<or> failure 8 t f clock uuid e es w)
     | Inr r \<Rightarrow> \<exists>es1 es2 state k c0. es = es1 @ es2 \<and> f c0 (site_of (commits es1 (sw_store w)) t) (clock k) (uuid k) = (c', Inr (state, r)) \<and>
         sw_store w' = commits (es1 @ Committed t state # es2) (sw_store w)" by blast
  show ?thesis
  proof (cases res)
    case (Inl e)
    then show ?thesis using h es a unfolding one_effect_def by auto
  next
    case (Inr r)
    then obtain es1 es2 state k c0 where k: "es = es1 @ es2" "f c0 (site_of (commits es1 (sw_store w)) t) (clock k) (uuid k) = (c', Inr (state, r))"
      "sw_store w' = commits (es1 @ Committed t state # es2) (sw_store w)" using es(2) by auto
    have "g (site_of (commits es1 (sw_store w)) t) (clock k) (uuid k) = Inr state" using assms(2) k(2) by (metis snd_conv)
    then show ?thesis unfolding one_effect_def a snd_conv using h es(1) k(1,3)
      by (intro conjI exI [of _ es] disjI2 exI [of _ es1] exI [of _ es2] exI [of _ state] exI [of _ k]) blast+
  qed
qed

lemma one_effect_none: "traced w \<Longrightarrow> one_effect t g clock uuid w w"
  by (auto simp: one_effect_def intro: exI [of _ "[]"])

lemma snd_case_result: "snd (case x of ((c, r), w) \<Rightarrow> (h c r, w)) = snd x"
  by (simp add: case_prod_beta)

lemma checked_one_effect:
  assumes "traced w" "\<And>v s now ids state r. input = Inr v \<Longrightarrow> f v s now ids = Inr (state, r) \<Longrightarrow> g s now ids = Inr state"
  shows "one_effect t g clock uuid w (snd (checked_save t input f clock uuid w))"
proof (cases input)
  case (Inl e)
  then show ?thesis using one_effect_none [OF assms(1)] by (simp add: checked_save_def)
next
  case (Inr v)
  then show ?thesis using apply_one_effect [OF assms(1), of "uncaptured (f v)" g t clock uuid "()"] assms(2) [OF Inr]
    by (simp add: checked_save_def snd_case_result uncaptured_def)
qed

lemma snd_case_sum: "snd (case x of Inl e \<Rightarrow> (c, Inl e) | Inr n \<Rightarrow> (p n, q n)) = (case x of Inl e \<Rightarrow> Inl e | Inr n \<Rightarrow> q n)"
  by (cases x) auto

lemma captured_result:
  "snd (set_floor_plan actor i version plan c s now ids) = snd (set_floor_plan actor i version plan None s now ids)"
  "snd (delete_floor i version c s now ids) = snd (delete_floor i version None s now ids)"
  "snd (delete_point i version d s now ids) = snd (delete_point i version None s now ids)"
  "snd (import_sites actor rows allowed e s now ids) = snd (import_sites actor rows allowed (zero_ImportResult 0) s now ids)"
  by (simp_all only: set_floor_plan_def delete_floor_def delete_point_def import_sites_def Let_def snd_case_sum snd_conv)

lemma serve_site_effect:
  assumes "traced w"
  shows "one_effect t (op_change op) clock uuid w (serve_site t op clock uuid w)"
proof (cases op)
  case (OpSaveUnit actor v)
  then show ?thesis by (simp add: serve_site_def SaveUnit_def) (rule checked_one_effect [OF assms], simp add: op_change_def)
next
  case (OpDeleteUnit i version)
  then show ?thesis by (simp add: serve_site_def DeleteUnit_def snd_case_result) (rule apply_one_effect [OF assms], simp add: op_change_def uncaptured_def)
next
  case (OpSaveBuilding actor v)
  then show ?thesis by (simp add: serve_site_def SaveBuilding_def) (rule checked_one_effect [OF assms], simp add: op_change_def)
next
  case (OpDeleteBuilding i version)
  then show ?thesis by (simp add: serve_site_def DeleteBuilding_def snd_case_result) (rule apply_one_effect [OF assms], simp add: op_change_def uncaptured_def)
next
  case (OpSaveFloor actor v)
  then show ?thesis by (simp add: serve_site_def SaveFloor_def) (rule checked_one_effect [OF assms], simp add: op_change_def)
next
  case (OpSetFloorPlan actor i version plan)
  then show ?thesis by (simp add: serve_site_def SetFloorPlan_def snd_case_result)
    (rule apply_one_effect [OF assms], simp add: op_change_def, subst (asm) captured_result, simp)
next
  case (OpDeleteFloor i version)
  then show ?thesis by (simp add: serve_site_def DeleteFloor_def)
    (rule apply_one_effect [OF assms], simp add: op_change_def, subst (asm) captured_result, simp)
next
  case (OpSavePoint actor v)
  then show ?thesis by (simp add: serve_site_def SavePoint_def) (rule checked_one_effect [OF assms], simp add: op_change_def)
next
  case (OpDeletePoint i version)
  then show ?thesis by (simp add: serve_site_def DeletePoint_def)
    (rule apply_one_effect [OF assms], simp add: op_change_def, subst (asm) captured_result, simp)
next
  case (OpImport actor rows allowed)
  then show ?thesis by (simp add: serve_site_def Import_def)
    (rule apply_one_effect [OF assms], simp add: op_change_def, subst (asm) captured_result, simp)
qed

subsection \<open>Lookups\<close>

lemma pick_point_find:
  "pick_point points is c acc = (case find (\<lambda>i. st_ComponentID (points ! i) = c) is of
     Some i \<Rightarrow> Some (points ! i)
   | None \<Rightarrow> (case acc of Some p \<Rightarrow> Some p | None \<Rightarrow> map_option (\<lambda>i. points ! i) (find (\<lambda>i. st_ComponentID (points ! i) = []) is)))"
  by (induction "is" arbitrary: acc) (auto simp: Let_def split: option.splits)

lemma find_in: "find p xs = Some x \<Longrightarrow> x \<in> set xs \<and> p x"
  by (induction xs) (auto split: if_splits)

text \<open>A component with a point of its own is located there, any other component at the point of its device.\<close>

lemma same_point:
  assumes "sites_ok s" "i < length (ss_Points s)" "p \<in> set (ss_Points s)"
    "st_DeviceID (ss_Points s ! i) = st_DeviceID p" "st_ComponentID (ss_Points s ! i) = st_ComponentID p"
  shows "ss_Points s ! i = p"
proof -
  obtain j where j: "j < length (ss_Points s)" "p = ss_Points s ! j" using assms(3) by (auto simp: in_set_conv_nth)
  have "pointID (ss_Points s ! i) = pointID p"
    using sites_okD(8) [OF assms(1)] assms(2-5) nth_mem unfolding unique_points_def alike_def by blast
  then show ?thesis using same_id [OF sites_okD(4) [OF assms(1)] assms(2) j(1)] j(2) by simp
qed

lemma Locate_own_point:
  assumes ok: "sites_ok s" and p: "p \<in> set (ss_Points s)"
  shows "Locate s (st_DeviceID p) (st_ComponentID p) = Some (located s p)"
proof -
  let ?is = "filter (\<lambda>i. st_DeviceID (ss_Points s ! i) = st_DeviceID p) [0..<length (ss_Points s)]"
  obtain j where "j < length (ss_Points s)" "p = ss_Points s ! j" using p by (auto simp: in_set_conv_nth)
  then have "find (\<lambda>i. st_ComponentID (ss_Points s ! i) = st_ComponentID p) ?is \<noteq> None" by (auto simp: find_None_iff)
  then obtain i where i: "find (\<lambda>i. st_ComponentID (ss_Points s ! i) = st_ComponentID p) ?is = Some i" by blast
  note f = find_in [OF i]
  have "ss_Points s ! i = p" using f by (intro same_point [OF ok _ p]) auto
  then show ?thesis using i by (simp add: Locate_def locate_def pick_point_find)
qed

lemma Locate_device_point:
  assumes ok: "sites_ok s" and p: "p \<in> set (ss_Points s)" "st_ComponentID p = []"
    and none: "\<forall>q \<in> set (ss_Points s). \<not> (st_DeviceID q = st_DeviceID p \<and> st_ComponentID q = c)"
  shows "Locate s (st_DeviceID p) c = Some (located s p)"
proof -
  let ?is = "filter (\<lambda>i. st_DeviceID (ss_Points s ! i) = st_DeviceID p) [0..<length (ss_Points s)]"
  have no: "find (\<lambda>i. st_ComponentID (ss_Points s ! i) = c) ?is = None" using none by (auto simp: find_None_iff)
  obtain j where "j < length (ss_Points s)" "p = ss_Points s ! j" using p(1) by (auto simp: in_set_conv_nth)
  then have "find (\<lambda>i. st_ComponentID (ss_Points s ! i) = []) ?is \<noteq> None" using p(2) by (auto simp: find_None_iff)
  then obtain i where i: "find (\<lambda>i. st_ComponentID (ss_Points s ! i) = []) ?is = Some i" by blast
  note f = find_in [OF i]
  have "ss_Points s ! i = p" using f p(2) by (intro same_point [OF ok _ p(1)]) auto
  then show ?thesis using i no by (simp add: Locate_def locate_def pick_point_find)
qed

definition is_near :: "AlarmLocation \<Rightarrow> SitePoint \<Rightarrow> bool" where
  "is_near loc p \<longleftrightarrow> st_BuildingID p = lo_BuildingID loc \<and> (lo_FloorID loc = [] \<or> st_FloorID p = lo_FloorID loc)"

lemma near_devices:
  assumes "distinct out" "set out \<subseteq> set seen" "length out < maxNearbyDevices"
  shows "distinct (near loc ps seen out) \<and> length (near loc ps seen out) \<le> maxNearbyDevices \<and> set out \<subseteq> set (near loc ps seen out) \<and>
    set (near loc ps seen out) - set out \<subseteq> st_DeviceID ` {p \<in> set ps. is_near loc p} - set seen \<and>
    (length (near loc ps seen out) < maxNearbyDevices \<longrightarrow> st_DeviceID ` {p \<in> set ps. is_near loc p} - set seen \<subseteq> set (near loc ps seen out))"
  using assms
proof (induction ps arbitrary: seen out)
  case (Cons p ps)
  let ?skip = "st_BuildingID p \<noteq> lo_BuildingID loc \<or> (lo_FloorID loc \<noteq> [] \<and> st_FloorID p \<noteq> lo_FloorID loc) \<or> st_DeviceID p \<in> set seen"
  show ?case
  proof (cases ?skip)
    case True
    have "st_DeviceID ` {q \<in> set (p # ps). is_near loc q} - set seen = st_DeviceID ` {q \<in> set ps. is_near loc q} - set seen"
      using True by (auto simp: is_near_def)
    then show ?thesis using Cons.IH [OF Cons.prems] True by simp
  next
    case False
    let ?out = "out @ [st_DeviceID p]"
    have near: "is_near loc p" and new: "st_DeviceID p \<notin> set seen" using False by (auto simp: is_near_def)
    have d: "distinct ?out" "set ?out \<subseteq> set (st_DeviceID p # seen)" using Cons.prems(1,2) new by auto
    show ?thesis
    proof (cases "length ?out = maxNearbyDevices")
      case True
      then show ?thesis using False d near new by auto
    next
      case more: False
      then have "length ?out < maxNearbyDevices" using Cons.prems(3) by simp
      note ih = Cons.IH [OF d this]
      have eq: "near loc (p # ps) seen out = near loc ps (st_DeviceID p # seen) ?out" using False more by auto
      show ?thesis unfolding eq using ih near new Cons.prems(2) by auto
    qed
  qed
qed auto

end
