(* ===== verification/Site_Versions.thy ===== *)
theory Site_Versions
  imports Site_Run
begin

text \<open>
  The optimistic lock of a record. Whatever operations run, a record that is changed gets a higher version and a new identity is never one that was used,
  so identity and version name one content; an edit or deletion that names the version it read is accepted only while that very record is stored
  (\<open>path_edit_finds_record\<close>).
\<close>

subsection \<open>Versions only grow\<close>

definition aged :: "('a \<Rightarrow> SiteRecord) \<Rightarrow> string set \<Rightarrow> 'a list \<Rightarrow> 'a list \<Rightarrow> bool" where
  "aged rec new xs ys \<longleftrightarrow> (\<forall>y \<in> set ys. sr_ID (rec y) \<in> new \<or>
     (\<exists>x \<in> set xs. sr_ID (rec x) = sr_ID (rec y) \<and> (y = x \<or> sr_Version (rec x) < sr_Version (rec y))))"

lemma aged_refl [simp]: "aged rec new xs xs"
  by (auto simp: aged_def)

lemma aged_subset: "set ys \<subseteq> set xs \<Longrightarrow> aged rec new xs ys"
  by (auto simp: aged_def)

lemma aged_trans:
  assumes "aged rec new xs ys" "aged rec new' ys zs" "new \<subseteq> N" "new' \<subseteq> N"
  shows "aged rec N xs zs"
  unfolding aged_def
proof
  fix z
  assume "z \<in> set zs"
  then consider "sr_ID (rec z) \<in> new'" | y where "y \<in> set ys" "sr_ID (rec y) = sr_ID (rec z)" "z = y \<or> sr_Version (rec y) < sr_Version (rec z)"
    using assms(2) unfolding aged_def by blast
  then show "sr_ID (rec z) \<in> N \<or> (\<exists>x \<in> set xs. sr_ID (rec x) = sr_ID (rec z) \<and> (z = x \<or> sr_Version (rec x) < sr_Version (rec z)))"
  proof cases
    case 1
    then show ?thesis using assms(4) by blast
  next
    case (2 y)
    then have "sr_ID (rec y) \<in> new \<or> (\<exists>x \<in> set xs. sr_ID (rec x) = sr_ID (rec y) \<and> (y = x \<or> sr_Version (rec x) < sr_Version (rec y)))"
      using assms(1) unfolding aged_def by blast
    then show ?thesis using 2 assms(3) by (metis order_less_trans subsetD)
  qed
qed

lemma aged_append: "sr_ID (rec v) \<in> new \<Longrightarrow> aged rec new xs (xs @ [v])"
  by (auto simp: aged_def)

lemma aged_update:
  "n < length xs \<Longrightarrow> sr_ID (rec v) = sr_ID (rec (xs ! n)) \<Longrightarrow> sr_Version (rec (xs ! n)) < sr_Version (rec v) \<Longrightarrow> aged rec new xs (xs[n := v])"
  unfolding aged_def using set_update_subset_insert [of xs n v] nth_mem [of n xs] by (metis insertE subsetD)

lemma stamp_version: "stamp record (Some old) actor now uuid = Inr new \<Longrightarrow> sr_ID new = sr_ID old \<and> sr_Version new = sr_Version old + 1 \<and> sr_Version record = sr_Version old"
  by (auto simp: stamp_def split: if_splits)

lemma aged_put:
  assumes "edited l ident i xs = Inr index" "stamp rec0 (map_option (\<lambda>n. rec (xs ! n)) index) actor now uuid = Inr (rec v)" "uuid \<in> new"
  shows "aged rec new xs (put_at index v xs)"
proof (cases index)
  case None
  then have "sr_ID (rec v) = uuid" using stamp_id [OF assms(2)] by simp
  then show ?thesis using None assms(3) by (simp add: put_at_def aged_append)
next
  case (Some n)
  have "n < length xs" using edited_Inr [OF assms(1)] Some by simp
  moreover have "sr_ID (rec v) = sr_ID (rec (xs ! n))" "sr_Version (rec (xs ! n)) < sr_Version (rec v)"
    using stamp_version assms(2) Some by fastforce+
  ultimately show ?thesis using Some aged_update by (simp add: put_at_def)
qed

lemma aged_remove: "aged rec new xs (remove_at n xs)"
  by (rule aged_subset) (auto simp: remove_at_def dest: in_set_takeD in_set_dropD)

definition state_aged :: "string set \<Rightarrow> SiteState \<Rightarrow> SiteState \<Rightarrow> bool" where
  "state_aged new s s' \<longleftrightarrow> aged su_SiteRecord new (ss_Units s) (ss_Units s') \<and> aged bu_SiteRecord new (ss_Buildings s) (ss_Buildings s') \<and>
     aged sf_SiteRecord new (ss_Floors s) (ss_Floors s') \<and> aged st_SiteRecord new (ss_Points s) (ss_Points s')"

lemma state_aged_refl [simp]: "state_aged new s s"
  by (simp add: state_aged_def)

lemma state_aged_trans: "state_aged new s s' \<Longrightarrow> state_aged new' s' s'' \<Longrightarrow> new \<subseteq> N \<Longrightarrow> new' \<subseteq> N \<Longrightarrow> state_aged N s s''"
  unfolding state_aged_def by (elim conjE, intro conjI) (rule aged_trans; assumption)+

subsection \<open>Operations\<close>

lemma saves_age:
  "save_unit actor u s now ids = Inr (s', r) \<Longrightarrow> state_aged (range ids) s s'"
  "save_building actor b s now ids = Inr (s', r1) \<Longrightarrow> state_aged (range ids) s s'"
  "save_floor actor f s now ids = Inr (s', r2) \<Longrightarrow> state_aged (range ids) s s'"
  "save_point actor p s now ids = Inr (s', r3) \<Longrightarrow> state_aged (range ids) s s'"
  by (auto simp: save_unit_def save_building_def save_floor_def save_point_def state_aged_def Let_def intro!: aged_put)

lemma deletes_age:
  "delete_unit i version s now ids = Inr (s', r) \<Longrightarrow> state_aged new s s'"
  "delete_building i version s now ids = Inr (s', r) \<Longrightarrow> state_aged new s s'"
  "snd (delete_floor i version c s now ids) = Inr (s', r) \<Longrightarrow> state_aged new s s'"
  "snd (delete_point i version d s now ids) = Inr (s', r) \<Longrightarrow> state_aged new s s'"
  by (auto simp: delete_unit_def delete_building_def delete_floor_def delete_point_def state_aged_def aged_remove split: sum.splits)

lemma set_floor_plan_ages:
  assumes "snd (set_floor_plan actor i version plan c s now ids) = Inr (s', r)"
  shows "state_aged new s s'"
proof -
  obtain n where n: "found ''floor'' floorID i (ss_Floors s) = Inr n" and s': "s' = s\<lparr>ss_Floors := (ss_Floors s)[n := r]\<rparr>"
    and r: "sr_ID (sf_SiteRecord r) = sr_ID (sf_SiteRecord (ss_Floors s ! n))" "sr_Version (sf_SiteRecord (ss_Floors s ! n)) < sr_Version (sf_SiteRecord r)"
    using assms by (auto simp: set_floor_plan_def Let_def split: sum.splits)
  show ?thesis using aged_update [OF conjunct1 [OF found_Inr [OF n]] r] by (simp add: s' state_aged_def)
qed

subsection \<open>The import\<close>

lemma row_unit_ages: "row_unit actor now ids row r = Inr (u, r') \<Longrightarrow> state_aged (range ids) (ii_state r) (ii_state r')"
  by (auto simp: row_unit_def Let_def state_aged_def intro!: aged_append split: option.splits if_splits)

lemma row_building_ages: "row_building actor now ids row u r = (b, r') \<Longrightarrow> state_aged (range ids) (ii_state r) (ii_state r')"
  by (auto simp: row_building_def Let_def state_aged_def intro!: aged_append split: option.splits if_splits)

lemma row_floor_ages: "row_floor actor now ids row b r = (f, r') \<Longrightarrow> state_aged (range ids) (ii_state r) (ii_state r')"
  by (auto simp: row_floor_def Let_def state_aged_def intro!: aged_append split: option.splits if_splits)

lemma row_point_ages: "state_aged (range ids) (ii_state r) (ii_state (row_point actor now ids p r))"
proof (cases "find_last (\<lambda>q. st_DeviceID q = st_DeviceID p \<and> st_ComponentID q = st_ComponentID p) (ss_Points (ii_state r))")
  case None
  then show ?thesis by (auto simp: row_point_def state_aged_def intro!: aged_append)
next
  case (Some i)
  then have "i < length (ss_Points (ii_state r))" using find_last_Some [OF Some] by simp
  then show ?thesis using Some by (auto simp: row_point_def state_aged_def Let_def moved_point_def intro!: aged_update)
qed

lemma aged_chain: "state_aged new s s' \<Longrightarrow> state_aged new s' s'' \<Longrightarrow> state_aged new s s''"
  by (rule state_aged_trans) auto

lemma place_row_ages: "state_aged (range ids) (ii_state r) (ii_state (place_row actor now ids row r))"
proof (cases "row_unit actor now ids row r")
  case (Inl m)
  then show ?thesis by (simp add: place_row_def fail_row_def)
next
  case (Inr p)
  obtain u r1 where p: "p = (u, r1)" by fastforce
  obtain b r2 where b: "row_building actor now ids row u r1 = (b, r2)" by fastforce
  obtain f r3 where f: "row_floor actor now ids row b r2 = (f, r3)" by fastforce
  have "state_aged (range ids) (ii_state r) (ii_state r3)"
    using aged_chain [OF aged_chain [OF row_unit_ages row_building_ages [OF b]] row_floor_ages [OF f]] Inr p by blast
  then show ?thesis using Inr p b f aged_chain [OF _ row_point_ages] by (simp add: place_row_def)
qed

lemma import_row_ages: "state_aged (range ids) (ii_state r) (ii_state (import_row actor now ids allowed row r))"
proof (cases "row_text row")
  case (Inl e)
  then show ?thesis by (simp add: import_row_def fail_row_def)
next
  case (Inr row')
  have "state_aged (range ids) (ii_state r) (ii_state (place_row actor now ids row' (r\<lparr>ii_seen := x\<rparr>)))" for x
    using place_row_ages [of ids "r\<lparr>ii_seen := x\<rparr>"] by simp
  then show ?thesis using Inr place_row_ages by (simp add: import_row_def Let_def fail_row_def)
qed

lemma run_import_ages: "state_aged (range ids) s (ii_state (run_import actor rows allowed s now ids))"
proof -
  have "state_aged (range ids) (ii_state r) (ii_state (fold (import_row actor now ids allowed) rows r))" for r
  proof (induction rows arbitrary: r)
    case (Cons row rows)
    then show ?case using aged_chain [OF import_row_ages Cons.IH] by simp
  qed simp
  then show ?thesis unfolding run_import_def by (metis import_run.select_convs(1))
qed

lemma op_change_ages:
  assumes "op_change op s now ids = Inr s'"
  shows "state_aged (range ids) s s'"
proof (cases op)
  case (OpImport actor rows allowed)
  then show ?thesis using assms run_import_ages by (auto simp: op_change_def map_sum_Inr import_sites_def Let_def split: if_splits)
qed (use assms in \<open>auto simp: op_change_def map_sum_Inr dest: saves_age deletes_age set_floor_plan_ages\<close>)

subsection \<open>Edits\<close>

text \<open>Operations one after another, with every identity drawn new.\<close>

inductive sites_path :: "string set \<Rightarrow> SiteState \<Rightarrow> string set \<Rightarrow> SiteState \<Rightarrow> bool" where
  here: "sites_path used s used s"
| further: "sites_path used s used' s' \<Longrightarrow> range ids \<inter> used' = {} \<Longrightarrow> op_change op s' now ids = Inr s'' \<Longrightarrow> sites_path used s (used' \<union> range ids) s''"

lemma path_ages: "sites_path used s used' s' \<Longrightarrow> used \<subseteq> used' \<and> (\<exists>new. new \<subseteq> used' \<and> new \<inter> used = {} \<and> state_aged new s s')"
proof (induction rule: sites_path.induct)
  case (here used s)
  then show ?case by (intro conjI exI [of _ "{}"]) auto
next
  case (further used s used' s' ids op now s'')
  then obtain new where new: "new \<subseteq> used'" "new \<inter> used = {}" "state_aged new s s'" by blast
  have "state_aged (new \<union> range ids) s s''" using state_aged_trans [OF new(3) op_change_ages [OF further.hyps(3)]] by auto
  moreover have "(new \<union> range ids) \<inter> used = {}" using new(2) further.hyps(2) further.IH by blast
  ultimately show ?case using further.IH new(1) by (intro conjI exI [of _ "new \<union> range ids"]) auto
qed

fun based_on_unit :: "site_op \<Rightarrow> SiteRecord \<Rightarrow> bool" where
  "based_on_unit (OpSaveUnit actor v) r = (unitID v = sr_ID r \<and> sr_Version (su_SiteRecord v) = sr_Version r)"
| "based_on_unit (OpDeleteUnit i version) r = (i = sr_ID r \<and> version = sr_Version r)"
| "based_on_unit _ r = False"

fun based_on_building :: "site_op \<Rightarrow> SiteRecord \<Rightarrow> bool" where
  "based_on_building (OpSaveBuilding actor v) r = (buildingID v = sr_ID r \<and> sr_Version (bu_SiteRecord v) = sr_Version r)"
| "based_on_building (OpDeleteBuilding i version) r = (i = sr_ID r \<and> version = sr_Version r)"
| "based_on_building _ r = False"

fun based_on_floor :: "site_op \<Rightarrow> SiteRecord \<Rightarrow> bool" where
  "based_on_floor (OpSaveFloor actor v) r = (floorID v = sr_ID r \<and> sr_Version (sf_SiteRecord v) = sr_Version r)"
| "based_on_floor (OpSetFloorPlan actor i version plan) r = (i = sr_ID r \<and> version = sr_Version r)"
| "based_on_floor (OpDeleteFloor i version) r = (i = sr_ID r \<and> version = sr_Version r)"
| "based_on_floor _ r = False"

fun based_on_point :: "site_op \<Rightarrow> SiteRecord \<Rightarrow> bool" where
  "based_on_point (OpSavePoint actor v) r = (pointID v = sr_ID r \<and> sr_Version (st_SiteRecord v) = sr_Version r)"
| "based_on_point (OpDeletePoint i version) r = (i = sr_ID r \<and> version = sr_Version r)"
| "based_on_point _ r = False"

lemma same_version:
  assumes "aged rec new xs ys" "new \<inter> used = {}" "(\<lambda>x. sr_ID (rec x)) ` set xs \<subseteq> used" "ids_ok (\<lambda>x. sr_ID (rec x)) xs"
    "x \<in> set xs" "y \<in> set ys" "sr_ID (rec y) = sr_ID (rec x)" "sr_Version (rec y) = sr_Version (rec x)"
  shows "y = x"
proof -
  have "sr_ID (rec y) \<notin> new" using assms(2,3,5,7) by auto
  then obtain x' where x': "x' \<in> set xs" "sr_ID (rec x') = sr_ID (rec y)" "y = x' \<or> sr_Version (rec x') < sr_Version (rec y)"
    using assms(1,6) unfolding aged_def by blast
  have "x' = x" using assms(4,5,7) x'(1,2) unfolding ids_ok_def distinct_map inj_on_def by metis
  then show ?thesis using x'(3) assms(8) by auto
qed

text \<open>An edit or deletion goes through only where the record it names is stored with the version it names.\<close>

lemma edited_record:
  assumes "edited l (\<lambda>x. sr_ID (rec x)) (sr_ID r) xs = Inr index" "stamp r' (map_option (\<lambda>n. rec (xs ! n)) index) actor now uuid = Inr new" "sr_ID r \<noteq> []"
  shows "\<exists>y \<in> set xs. sr_ID (rec y) = sr_ID r \<and> sr_Version (rec y) = sr_Version r'"
proof -
  obtain n where n: "index = Some n" "n < length xs" "sr_ID (rec (xs ! n)) = sr_ID r" using edited_Inr [OF assms(1)] assms(3) by (cases index) auto
  then show ?thesis using stamp_version [of r' "rec (xs ! n)"] assms(2) nth_mem by fastforce
qed

lemma deleted_record:
  assumes "found l (\<lambda>x. sr_ID (rec x)) i xs = Inr n" "requireVersion (rec (xs ! n)) version = Inr u"
  shows "\<exists>y \<in> set xs. sr_ID (rec y) = i \<and> sr_Version (rec y) = version"
  using found_in [OF assms(1)] assms(2) by (auto simp: requireVersion_def)

lemma id_functions: "unitID = (\<lambda>x. sr_ID (su_SiteRecord x))" "buildingID = (\<lambda>x. sr_ID (bu_SiteRecord x))" "floorID = (\<lambda>x. sr_ID (sf_SiteRecord x))"
  "pointID = (\<lambda>x. sr_ID (st_SiteRecord x))"
  by (simp_all add: fun_eq_iff unitID_def buildingID_def floorID_def pointID_def)

lemma text_keeps_record:
  "unit_text v = Inr v' \<Longrightarrow> su_SiteRecord v' = su_SiteRecord v" "building_text b = Inr b' \<Longrightarrow> bu_SiteRecord b' = bu_SiteRecord b"
  "floor_text f = Inr f' \<Longrightarrow> sf_SiteRecord f' = sf_SiteRecord f" "point_text p = Inr p' \<Longrightarrow> st_SiteRecord p' = st_SiteRecord p"
  by (auto simp: unit_text_def building_text_def floor_text_def point_text_def split: if_splits)

lemma unit_edit_named:
  assumes "op_change op s now ids = Inr s'" "based_on_unit op r" "sr_ID r \<noteq> []"
  shows "\<exists>y \<in> set (ss_Units s). sr_ID (su_SiteRecord y) = sr_ID r \<and> sr_Version (su_SiteRecord y) = sr_Version r"
proof (cases op)
  case (OpSaveUnit actor v)
  obtain v' index new where h: "unit_text v = Inr v'" "edited ''unit'' unitID (unitID v') (ss_Units s) = Inr index"
    "stamp (su_SiteRecord v') (map_option (\<lambda>n. su_SiteRecord (ss_Units s ! n)) index) actor now (ids 0) = Inr new"
    using assms(1) OpSaveUnit by (auto simp: op_change_def map_sum_Inr save_unit_def Let_def)
  have v': "unitID v' = sr_ID r" "sr_Version (su_SiteRecord v') = sr_Version r"
    using text_keeps_record(1) [OF h(1)] assms(2) OpSaveUnit by (simp_all add: unitID_def)
  then show ?thesis using edited_record [OF h(2) [unfolded v'(1), unfolded id_functions(1)] h(3) assms(3)] by simp
next
  case (OpDeleteUnit i version)
  then obtain n u where h: "found ''unit'' unitID i (ss_Units s) = Inr n" "requireVersion (su_SiteRecord (ss_Units s ! n)) version = Inr u"
    using assms(1) by (auto simp: op_change_def map_sum_Inr delete_unit_def)
  show ?thesis using deleted_record [OF h(1) [unfolded id_functions(1)] h(2)] assms(2) OpDeleteUnit by simp
qed (use assms(2) in simp_all)

lemma building_edit_named:
  assumes "op_change op s now ids = Inr s'" "based_on_building op r" "sr_ID r \<noteq> []"
  shows "\<exists>y \<in> set (ss_Buildings s). sr_ID (bu_SiteRecord y) = sr_ID r \<and> sr_Version (bu_SiteRecord y) = sr_Version r"
proof (cases op)
  case (OpSaveBuilding actor v)
  obtain v' index new where h: "building_text v = Inr v'" "edited ''building'' buildingID (buildingID v') (ss_Buildings s) = Inr index"
    "stamp (bu_SiteRecord v') (map_option (\<lambda>n. bu_SiteRecord (ss_Buildings s ! n)) index) actor now (ids 0) = Inr new"
    using assms(1) OpSaveBuilding by (auto simp: op_change_def map_sum_Inr save_building_def Let_def)
  have v': "buildingID v' = sr_ID r" "sr_Version (bu_SiteRecord v') = sr_Version r"
    using text_keeps_record(2) [OF h(1)] assms(2) OpSaveBuilding by (simp_all add: buildingID_def)
  then show ?thesis using edited_record [OF h(2) [unfolded v'(1), unfolded id_functions(2)] h(3) assms(3)] by simp
next
  case (OpDeleteBuilding i version)
  then obtain n u where h: "found ''building'' buildingID i (ss_Buildings s) = Inr n" "requireVersion (bu_SiteRecord (ss_Buildings s ! n)) version = Inr u"
    using assms(1) by (auto simp: op_change_def map_sum_Inr delete_building_def)
  show ?thesis using deleted_record [OF h(1) [unfolded id_functions(2)] h(2)] assms(2) OpDeleteBuilding by simp
qed (use assms(2) in simp_all)

lemma floor_edit_named:
  assumes "op_change op s now ids = Inr s'" "based_on_floor op r" "sr_ID r \<noteq> []"
  shows "\<exists>y \<in> set (ss_Floors s). sr_ID (sf_SiteRecord y) = sr_ID r \<and> sr_Version (sf_SiteRecord y) = sr_Version r"
proof (cases op)
  case (OpSaveFloor actor v)
  obtain v' index new where h: "floor_text v = Inr v'" "edited ''floor'' floorID (floorID v') (ss_Floors s) = Inr index"
    "stamp (sf_SiteRecord v') (map_option (\<lambda>n. sf_SiteRecord (ss_Floors s ! n)) index) actor now (ids 0) = Inr new"
    using assms(1) OpSaveFloor by (auto simp: op_change_def map_sum_Inr save_floor_def Let_def floorID_def)
  have v': "floorID v' = sr_ID r" "sr_Version (sf_SiteRecord v') = sr_Version r"
    using text_keeps_record(3) [OF h(1)] assms(2) OpSaveFloor by (simp_all add: floorID_def)
  then show ?thesis using edited_record [OF h(2) [unfolded v'(1), unfolded id_functions(3)] h(3) assms(3)] by simp
next
  case (OpSetFloorPlan actor i version plan)
  then obtain n u where h: "found ''floor'' floorID i (ss_Floors s) = Inr n" "requireVersion (sf_SiteRecord (ss_Floors s ! n)) version = Inr u"
    using assms(1) by (auto simp: op_change_def map_sum_Inr set_floor_plan_def split: sum.splits)
  show ?thesis using deleted_record [OF h(1) [unfolded id_functions(3)] h(2)] assms(2) OpSetFloorPlan by simp
next
  case (OpDeleteFloor i version)
  then obtain n u where h: "found ''floor'' floorID i (ss_Floors s) = Inr n" "requireVersion (sf_SiteRecord (ss_Floors s ! n)) version = Inr u"
    using assms(1) by (auto simp: op_change_def map_sum_Inr delete_floor_def split: sum.splits)
  show ?thesis using deleted_record [OF h(1) [unfolded id_functions(3)] h(2)] assms(2) OpDeleteFloor by simp
qed (use assms(2) in simp_all)

lemma point_edit_named:
  assumes "op_change op s now ids = Inr s'" "based_on_point op r" "sr_ID r \<noteq> []"
  shows "\<exists>y \<in> set (ss_Points s). sr_ID (st_SiteRecord y) = sr_ID r \<and> sr_Version (st_SiteRecord y) = sr_Version r"
proof (cases op)
  case (OpSavePoint actor v)
  obtain v0 v' index new where h: "point_text v = Inr v0" "placePoint s v0 = Inr v'" "edited ''point'' pointID (pointID v') (ss_Points s) = Inr index"
    "stamp (st_SiteRecord v') (map_option (\<lambda>n. st_SiteRecord (ss_Points s ! n)) index) actor now (ids 0) = Inr new"
    using assms(1) OpSavePoint by (auto simp: op_change_def map_sum_Inr save_point_def Let_def)
  have v': "pointID v' = sr_ID r" "sr_Version (st_SiteRecord v') = sr_Version r"
    using text_keeps_record(4) [OF h(1)] placePoint_ok(2) [OF h(2) point_text_ok [OF h(1)]] assms(2) OpSavePoint by (simp_all add: pointID_def)
  then show ?thesis using edited_record [OF h(3) [unfolded v'(1), unfolded id_functions(4)] h(4) assms(3)] by simp
next
  case (OpDeletePoint i version)
  then obtain n u where h: "found ''point'' pointID i (ss_Points s) = Inr n" "requireVersion (st_SiteRecord (ss_Points s ! n)) version = Inr u"
    using assms(1) by (auto simp: op_change_def map_sum_Inr delete_point_def split: sum.splits)
  show ?thesis using deleted_record [OF h(1) [unfolded id_functions(4)] h(2)] assms(2) OpDeletePoint by simp
qed (use assms(2) in simp_all)

lemma path_edit_finds_record:
  assumes ok: "sites_ok s" "site_ids s \<subseteq> used" and path: "sites_path used s used' s'" and change: "op_change op s' now ids = Inr s''"
  shows "u \<in> set (ss_Units s) \<Longrightarrow> based_on_unit op (su_SiteRecord u) \<Longrightarrow> u \<in> set (ss_Units s')"
    "b \<in> set (ss_Buildings s) \<Longrightarrow> based_on_building op (bu_SiteRecord b) \<Longrightarrow> b \<in> set (ss_Buildings s')"
    "f \<in> set (ss_Floors s) \<Longrightarrow> based_on_floor op (sf_SiteRecord f) \<Longrightarrow> f \<in> set (ss_Floors s')"
    "p \<in> set (ss_Points s) \<Longrightarrow> based_on_point op (st_SiteRecord p) \<Longrightarrow> p \<in> set (ss_Points s')"
proof -
  obtain new where new: "new \<inter> used = {}" "state_aged new s s'" using path_ages [OF path] by blast
  note ids = sites_okD(1-4) [OF ok(1), unfolded id_functions]
  have sub: "(\<lambda>x. sr_ID (su_SiteRecord x)) ` set (ss_Units s) \<subseteq> used" "(\<lambda>x. sr_ID (bu_SiteRecord x)) ` set (ss_Buildings s) \<subseteq> used"
    "(\<lambda>x. sr_ID (sf_SiteRecord x)) ` set (ss_Floors s) \<subseteq> used" "(\<lambda>x. sr_ID (st_SiteRecord x)) ` set (ss_Points s) \<subseteq> used"
    using ok(2) unfolding site_ids_def id_functions by auto
  have aged: "aged su_SiteRecord new (ss_Units s) (ss_Units s')" "aged bu_SiteRecord new (ss_Buildings s) (ss_Buildings s')"
    "aged sf_SiteRecord new (ss_Floors s) (ss_Floors s')" "aged st_SiteRecord new (ss_Points s) (ss_Points s')" using new(2) by (simp_all add: state_aged_def)
  have id: "sr_ID (rec x) \<noteq> []" if "ids_ok (\<lambda>x. sr_ID (rec x)) xs" "x \<in> set xs" for rec :: "'x \<Rightarrow> SiteRecord" and xs x
    using that by (auto simp: ids_ok_def image_iff)
  show "u \<in> set (ss_Units s')" if h: "u \<in> set (ss_Units s)" "based_on_unit op (su_SiteRecord u)"
    using unit_edit_named [OF change h(2) id [OF ids(1) h(1)]] same_version [OF aged(1) new(1) sub(1) ids(1) h(1)] by metis
  show "b \<in> set (ss_Buildings s')" if h: "b \<in> set (ss_Buildings s)" "based_on_building op (bu_SiteRecord b)"
    using building_edit_named [OF change h(2) id [OF ids(2) h(1)]] same_version [OF aged(2) new(1) sub(2) ids(2) h(1)] by metis
  show "f \<in> set (ss_Floors s')" if h: "f \<in> set (ss_Floors s)" "based_on_floor op (sf_SiteRecord f)"
    using floor_edit_named [OF change h(2) id [OF ids(3) h(1)]] same_version [OF aged(3) new(1) sub(3) ids(3) h(1)] by metis
  show "p \<in> set (ss_Points s')" if h: "p \<in> set (ss_Points s)" "based_on_point op (st_SiteRecord p)"
    using point_edit_named [OF change h(2) id [OF ids(4) h(1)]] same_version [OF aged(4) new(1) sub(4) ids(4) h(1)] by metis
qed

end
