(* ===== verification/Site_Samples.thy ===== *)
theory Site_Samples
  imports Site_Versions
begin

text \<open>A tenant with one unit and one placed device, for the witnesses on sites.\<close>

definition demo_ids :: "nat \<Rightarrow> ids" where
  "demo_ids a n = replicate (a + n) (CHR ''x'')"

definition demo_record :: "nat \<Rightarrow> SiteRecord" where
  "demo_record a = \<lparr>sr_ID = replicate a (CHR ''x''), sr_Version = 1, sr_CreatedAt = 5, sr_UpdatedAt = 5, sr_UpdatedBy = ''me''\<rparr>"

definition blank_record :: SiteRecord where
  "blank_record = \<lparr>sr_ID = [], sr_Version = 0, sr_CreatedAt = 0, sr_UpdatedAt = 0, sr_UpdatedBy = []\<rparr>"

definition demo_unit :: SiteUnit where
  "demo_unit = \<lparr>su_SiteRecord = demo_record 1, su_Name = ''U'', su_Code = [], su_Address = [], su_Contact = [], su_Phone = [], su_Notes = []\<rparr>"

definition demo_point :: SitePoint where
  "demo_point = \<lparr>st_SiteRecord = demo_record 2, st_UnitID = ''x'', st_BuildingID = [], st_FloorID = [], st_DeviceID = ''d'', st_ComponentID = [],
     st_Name = ''P'', st_X = None, st_Y = None\<rparr>"

definition demo_state :: "nat \<Rightarrow> SiteState" where
  "demo_state n = \<lparr>ss_Revision = int n, ss_Units = [demo_unit], ss_Buildings = [], ss_Floors = [], ss_Points = (if n < 2 then [] else [demo_point])\<rparr>"

definition new_unit :: site_op where
  "new_unit = OpSaveUnit ''me'' (demo_unit\<lparr>su_SiteRecord := blank_record\<rparr>)"

definition new_point :: site_op where
  "new_point = OpSavePoint ''me'' (demo_point\<lparr>st_SiteRecord := blank_record\<rparr>)"

definition demo_store :: "SiteState gomap" where
  "demo_store = [(''t'', demo_state 2)]"

definition demo_world :: site_world where
  "demo_world = \<lparr>sw_store = demo_store, sw_past = [(''t'', demo_state 2)], sw_cache = [], sw_points = [],
     sw_script = [(False, []), (False, []), (False, []), (False, [Committed ''t'' (demo_state 2), Remembered ''t'' 1])]\<rparr>"

lemma demo_text: "site_text l req n s = Inr s" if "s = [] \<and> \<not> req \<or> (s = ''U'' \<or> s = ''d'' \<or> s = ''P'') \<and> 0 < n"
proof -
  have "trim_space ''U'' = ''U''" "trim_space ''d'' = ''d''" "trim_space ''P'' = ''P''" "trim_space [] = []"
    "length (runes ''U'') = 1" "length (runes ''d'') = 1" "length (runes ''P'') = 1" "runes [] = []" by code_simp+
  then show ?thesis using that by (auto simp: site_text_def)
qed

lemma demo_unit_change: "op_change new_unit zero_SiteState 5 (demo_ids 1) = Inr (demo_state 0)"
  by (simp add: op_change_def new_unit_def unit_text_def demo_text save_unit_def edited_def stamp_def put_at_def zero_SiteState_def demo_state_def demo_unit_def
      blank_record_def unitID_def demo_record_def demo_ids_def rbind_def require_def Let_def)

lemma demo_point_change: "op_change new_point (demo_state 1) 5 (demo_ids 2) = Inr ((demo_state 2)\<lparr>ss_Revision := 1\<rparr>)"
  by (simp add: op_change_def new_point_def point_text_def demo_text save_point_def placePoint_def place_floor_def place_building_def place_mark_def found_def
      edited_def stamp_def put_at_def demo_state_def demo_unit_def demo_point_def blank_record_def unitID_def pointID_def demo_record_def demo_ids_def rbind_def
      require_def Let_def numeral_2_eq_2)

lemma demo_fresh: "fresh_from 0 (demo_ids 1) zero_SiteState" "fresh_from 0 (demo_ids 2) (demo_state 1)"
proof -
  have "inj (demo_ids a)" for a by (rule injI) (auto simp: demo_ids_def dest: arg_cong [where f = length])
  then show "fresh_from 0 (demo_ids 1) zero_SiteState" "fresh_from 0 (demo_ids 2) (demo_state 1)"
    by (simp_all add: fresh_from_def demo_ids_def site_ids_def zero_SiteState_def demo_state_def demo_unit_def unitID_def demo_record_def numeral_2_eq_2)
qed

lemma demo_first: "sites_run [(''t'', demo_state 1)]"
proof -
  have "commit ''t'' (demo_state 0) [] = [(''t'', demo_state 1)]" "site_of [] ''t'' = zero_SiteState"
    by (simp_all add: commit_def site_of_def gm_put_def gm_get_def demo_state_def zero_SiteState_def)
  then show ?thesis
    using sites_run.step [OF sites_run.empty, where t = "''t''" and ids = "demo_ids 1" and op = new_unit and now = 5] demo_fresh(1) demo_unit_change by simp
qed

lemma demo_run: "sites_run demo_store"
proof -
  have one: "site_of [(''t'', demo_state 1)] ''t'' = demo_state 1" by (simp add: site_of_def gm_get_def)
  have two: "commit ''t'' ((demo_state 2)\<lparr>ss_Revision := 1\<rparr>) [(''t'', demo_state 1)] = demo_store"
    by (simp add: commit_def site_of_def gm_put_def gm_get_def demo_state_def demo_store_def)
  show ?thesis
    using demo_first sites_run.step [where t = "''t''" and store = "[(''t'', demo_state 1)]" and ids = "demo_ids 2" and op = new_point and now = 5] demo_fresh(2)
      demo_point_change one two by simp
qed

lemma demo_traced: "traced demo_world"
  by (auto simp: traced_def dated_def belongs_def demo_world_def demo_store_def site_of_def gm_get_def zero_SiteState_def demo_state_def)

lemma demo_missing:
  obtains c' w' where "site_apply ''t'' (uncaptured (delete_unit ''y'' 1) :: (unit, unit) change) (\<lambda>_. 7) (\<lambda>k. demo_ids 3) () demo_world =
    ((c', Inl (SiteMissing ''unit'')), w')"
proof -
  have t: "trim_space ''t'' \<noteq> []" by code_simp
  obtain w' where s: "Snapshot ''t'' demo_world = (Inr (demo_state 2), w')"
    by (simp add: Snapshot_def SiteRevision_def cached_def load_snapshot_def LoadSiteState_def turn_def demo_world_def demo_store_def site_of_def gm_get_def Let_def)
  have "delete_unit ''y'' 1 (demo_state 2) 7 (demo_ids 3) = Inl (SiteMissing ''unit'')"
    by (simp add: delete_unit_def found_def demo_state_def demo_unit_def unitID_def demo_record_def rbind_def)
  then have "site_apply ''t'' (uncaptured (delete_unit ''y'' 1) :: (unit, unit) change) (\<lambda>_. 7) (\<lambda>k. demo_ids 3) () demo_world =
      (((), Inl (SiteMissing ''unit'')), w')"
    using t s by (simp add: site_apply_def numeral_eq_Suc uncaptured_def)
  then show ?thesis by (rule that)
qed

text \<open>The unit is renamed after a device was placed in it.\<close>

definition rename_unit :: site_op where
  "rename_unit = OpSaveUnit ''you'' (demo_unit\<lparr>su_Name := ''P''\<rparr>)"

lemma demo_ok: "sites_ok (demo_state 1)"
proof -
  have "site_of [(''t'', demo_state 1)] ''t'' = demo_state 1" by (simp add: site_of_def gm_get_def)
  then show ?thesis using sites_run_ok [OF demo_first, of "''t''"] by simp
qed

lemma demo_ids_used: "site_ids (demo_state 1) \<subseteq> {''x''}"
  by (simp add: site_ids_def demo_state_def demo_unit_def unitID_def demo_record_def)

lemma demo_path: "sites_path {''x''} (demo_state 1) ({''x''} \<union> range (demo_ids 2)) ((demo_state 2)\<lparr>ss_Revision := 1\<rparr>)"
proof (rule sites_path.further [OF sites_path.here _ demo_point_change])
  show "range (demo_ids 2) \<inter> {''x''} = {}" by (auto simp: demo_ids_def numeral_2_eq_2)
qed

lemma rename_unit_change:
  "op_change rename_unit ((demo_state 2)\<lparr>ss_Revision := 1\<rparr>) 9 (demo_ids 9) = Inr ((demo_state 2)\<lparr>ss_Revision := 1,
     ss_Units := [demo_unit\<lparr>su_Name := ''P'', su_SiteRecord := (demo_record 1)\<lparr>sr_Version := 2, sr_UpdatedAt := 9, sr_UpdatedBy := ''you''\<rparr>\<rparr>]\<rparr>)"
  by (simp add: op_change_def rename_unit_def unit_text_def demo_text save_unit_def edited_def stamp_def put_at_def demo_state_def demo_unit_def
      unitID_def demo_record_def rbind_def require_def Let_def)

lemma rename_unit_based: "based_on_unit rename_unit (su_SiteRecord demo_unit)"
  by (simp add: rename_unit_def unitID_def)

lemma demo_unit_listed: "demo_unit \<in> set (ss_Units (demo_state 1))"
  by (simp add: demo_state_def)

end
