(* ===== verification/Site_Changes.thy ===== *)
theory Site_Changes
  imports Site_Integrity
begin

text \<open>
  The records that a store writes for a change of sites, \<^verbatim>\<open>SiteChanges\<close> of \<^verbatim>\<open>internal/model/sites.go\<close>: the difference of two states, record by record.
  Writing the difference to the rows of the old state gives the rows of the new one (\<open>changes_written\<close>). Go compares two records with their pointers, so
  equality is an argument: it may miss that two records are equal, but not call different ones equal.
\<close>

datatype site_row = RowUnit SiteUnit | RowBuilding SiteBuilding | RowFloor SiteFloor | RowPoint SitePoint

type_synonym SiteChange = "string \<times> string \<times> site_row option"

fun diff_next :: "('a \<Rightarrow> 'a \<Rightarrow> bool) \<Rightarrow> ('a \<Rightarrow> string) \<Rightarrow> 'a list \<Rightarrow> 'a gomap \<Rightarrow> (string \<times> 'a option) list" where
  "diff_next same ident [] old = map (\<lambda>e. (fst e, None)) old"
| "diff_next same ident (v # vs) old =
     (case gm_get old (ident v) of
        None \<Rightarrow> [(ident v, Some v)]
      | Some previous \<Rightarrow> if same previous v then [] else [(ident v, Some v)]) @ diff_next same ident vs (gm_del (ident v) old)"

definition diffSites :: "('a \<Rightarrow> 'a \<Rightarrow> bool) \<Rightarrow> ('a \<Rightarrow> string) \<Rightarrow> 'a list \<Rightarrow> 'a list \<Rightarrow> (string \<times> 'a option) list" where
  "diffSites same ident base new = diff_next same ident new (fold (\<lambda>v m. gm_put (ident v) v m) base [])"

definition site_changes :: "string \<Rightarrow> ('a \<Rightarrow> site_row) \<Rightarrow> (string \<times> 'a option) list \<Rightarrow> SiteChange list" where
  "site_changes kind row cs = map (\<lambda>(i, v). (kind, i, map_option row v)) cs"

record sameness =
  same_unit :: "SiteUnit \<Rightarrow> SiteUnit \<Rightarrow> bool"
  same_building :: "SiteBuilding \<Rightarrow> SiteBuilding \<Rightarrow> bool"
  same_floor :: "SiteFloor \<Rightarrow> SiteFloor \<Rightarrow> bool"
  same_site_point :: "SitePoint \<Rightarrow> SitePoint \<Rightarrow> bool"

definition SiteChanges :: "sameness \<Rightarrow> SiteState \<Rightarrow> SiteState \<Rightarrow> SiteChange list" where
  "SiteChanges e base new =
     site_changes ''unit'' RowUnit (diffSites (same_unit e) unitID (ss_Units base) (ss_Units new)) @
     site_changes ''building'' RowBuilding (diffSites (same_building e) buildingID (ss_Buildings base) (ss_Buildings new)) @
     site_changes ''floor'' RowFloor (diffSites (same_floor e) floorID (ss_Floors base) (ss_Floors new)) @
     site_changes ''point'' RowPoint (diffSites (same_site_point e) pointID (ss_Points base) (ss_Points new))"

subsection \<open>Rows\<close>

definition row_of :: "('a \<Rightarrow> string) \<Rightarrow> 'a list \<Rightarrow> string \<Rightarrow> 'a option" where
  "row_of ident items i = find (\<lambda>v. ident v = i) items"

definition site_rows :: "SiteState \<Rightarrow> string \<Rightarrow> string \<Rightarrow> site_row option" where
  "site_rows s kind i =
     (if kind = ''unit'' then map_option RowUnit (row_of unitID (ss_Units s) i)
      else if kind = ''building'' then map_option RowBuilding (row_of buildingID (ss_Buildings s) i)
      else if kind = ''floor'' then map_option RowFloor (row_of floorID (ss_Floors s) i)
      else if kind = ''point'' then map_option RowPoint (row_of pointID (ss_Points s) i)
      else None)"

definition write_row :: "SiteChange \<Rightarrow> (string \<Rightarrow> string \<Rightarrow> site_row option) \<Rightarrow> string \<Rightarrow> string \<Rightarrow> site_row option" where
  "write_row c rows kind i = (case c of (k, j, v) \<Rightarrow> if kind = k \<and> i = j then v else rows kind i)"

definition put_row :: "string \<times> 'a option \<Rightarrow> (string \<Rightarrow> 'a option) \<Rightarrow> string \<Rightarrow> 'a option" where
  "put_row c rows i = (if i = fst c then snd c else rows i)"

lemma diff_next_written:
  assumes "distinct (map ident new)" "\<And>p v. same p v \<Longrightarrow> p = v" "\<And>i. gm_get old i \<noteq> None \<Longrightarrow> rows i = gm_get old i"
  shows "fold put_row (diff_next same ident new old) rows i =
    (case row_of ident new i of Some v \<Rightarrow> Some v | None \<Rightarrow> if gm_get old i \<noteq> None then None else rows i)"
  using assms(1,3)
proof (induction new arbitrary: old rows)
  case Nil
  have "fold put_row (map (\<lambda>e. (fst e, None)) old) rows i = (if i \<in> fst ` set old then None else rows i)"
    by (induction old arbitrary: rows) (auto simp: put_row_def)
  then show ?case by (auto simp: row_of_def gm_get_def map_of_eq_None_iff)
next
  case (Cons v vs)
  define rows' where "rows' = (case gm_get old (ident v) of None \<Rightarrow> rows(ident v \<mapsto> v) | Some p \<Rightarrow> if same p v then rows else rows(ident v \<mapsto> v))"
  have rows': "rows' = rows(ident v \<mapsto> v)"
    using Cons.prems(2) [of "ident v"] assms(2) by (auto simp: rows'_def fun_eq_iff split: option.splits)
  have "put_row (ident v, Some v) rows = rows(ident v \<mapsto> v)" by (auto simp: put_row_def fun_eq_iff)
  then have step: "fold put_row (diff_next same ident (v # vs) old) rows = fold put_row (diff_next same ident vs (gm_del (ident v) old)) rows'"
    by (simp add: rows'_def split: option.splits)
  have "fold put_row (diff_next same ident vs (gm_del (ident v) old)) rows' i =
      (case row_of ident vs i of Some v \<Rightarrow> Some v | None \<Rightarrow> if gm_get (gm_del (ident v) old) i \<noteq> None then None else rows' i)"
    using Cons.prems by (intro Cons.IH) (auto simp: rows' split: if_splits)
  moreover have "row_of ident vs (ident v) = None" using Cons.prems(1) by (auto simp: row_of_def find_None_iff image_iff)
  ultimately show ?case unfolding step by (auto simp: rows' row_of_def split: option.splits)
qed

lemma row_of_snoc: "row_of ident (vs @ [v]) i = (case row_of ident vs i of Some x \<Rightarrow> Some x | None \<Rightarrow> if ident v = i then Some v else None)"
  by (induction vs) (simp_all add: row_of_def)

lemma base_rows: "gm_get (fold (\<lambda>v m. gm_put (ident v) v m) base m) i = (case row_of ident (rev base) i of Some v \<Rightarrow> Some v | None \<Rightarrow> gm_get m i)"
proof (induction base arbitrary: m)
  case (Cons v vs)
  then show ?case by (simp add: row_of_snoc split: option.splits)
qed (simp add: row_of_def)

lemma row_of_iff: "distinct (map ident items) \<Longrightarrow> row_of ident items i = Some v \<longleftrightarrow> v \<in> set items \<and> ident v = i"
  by (induction items) (auto simp: row_of_def)

lemma row_of_rev: "distinct (map ident items) \<Longrightarrow> row_of ident (rev items) i = row_of ident items i"
proof -
  assume d: "distinct (map ident items)"
  have "row_of ident (rev items) i = Some v \<longleftrightarrow> row_of ident items i = Some v" for v
    using row_of_iff [of ident "rev items" i v] row_of_iff [OF d, of i v] d by (simp add: rev_map [symmetric])
  then show ?thesis by (metis not_None_eq)
qed

lemma diff_written:
  assumes "distinct (map ident base)" "distinct (map ident new)" "\<And>p v. same p v \<Longrightarrow> p = v"
  shows "fold put_row (diffSites same ident base new) (row_of ident base) = row_of ident new"
proof
  fix i
  have old: "gm_get (fold (\<lambda>v m. gm_put (ident v) v m) base []) j = row_of ident base j" for j
    using base_rows [of ident base "[]" j] row_of_rev [OF assms(1), of j] by (simp split: option.splits)
  show "fold put_row (diffSites same ident base new) (row_of ident base) i = row_of ident new i"
    unfolding diffSites_def using diff_next_written [where same = same and ident = ident and new = new and old = "fold (\<lambda>v m. gm_put (ident v) v m) base []" and rows = "row_of ident base" and i = i] assms(2,3) old
    by (auto split: option.splits)
qed

lemma site_changes_written:
  "fold write_row (site_changes kind row cs) rows k i = (if k = kind then fold (\<lambda>c r. put_row (fst c, map_option row (snd c)) r) cs (rows kind) i else rows k i)"
proof (induction cs arbitrary: rows)
  case (Cons c cs)
  have "write_row (kind, fst c, map_option row (snd c)) rows kind = put_row (fst c, map_option row (snd c)) (rows kind)"
    by (auto simp: fun_eq_iff write_row_def put_row_def)
  moreover have "k \<noteq> kind \<Longrightarrow> write_row (kind, fst c, map_option row (snd c)) rows k i = rows k i" by (simp add: write_row_def)
  ultimately show ?case using Cons.IH by (simp add: site_changes_def case_prod_beta)
qed (simp add: site_changes_def)

lemma site_changes_rows:
  "fold write_row (site_changes kind row cs) rows k = (if k = kind then fold (\<lambda>c r. put_row (fst c, map_option row (snd c)) r) cs (rows kind) else rows k)"
  by (rule ext) (simp add: site_changes_written)

lemma put_row_map: "fold (\<lambda>c r. put_row (fst c, map_option row (snd c)) r) cs (\<lambda>i. map_option row (rows i)) = (\<lambda>i. map_option row (fold put_row cs rows i))"
proof (induction cs arbitrary: rows)
  case (Cons c cs)
  have "put_row (fst c, map_option row (snd c)) (\<lambda>i. map_option row (rows i)) = (\<lambda>i. map_option row (put_row c rows i))"
    by (auto simp: fun_eq_iff put_row_def)
  then show ?case using Cons by simp
qed simp

lemma changes_written:
  assumes "sites_ok base" "sites_ok new" "\<And>u v. same_unit e u v \<Longrightarrow> u = v" "\<And>u v. same_building e u v \<Longrightarrow> u = v"
    "\<And>u v. same_floor e u v \<Longrightarrow> u = v" "\<And>u v. same_site_point e u v \<Longrightarrow> u = v"
  shows "fold write_row (SiteChanges e base new) (site_rows base) = site_rows new"
proof (intro ext)
  fix kind i
  have d: "distinct (map unitID (ss_Units s))" "distinct (map buildingID (ss_Buildings s))" "distinct (map floorID (ss_Floors s))" "distinct (map pointID (ss_Points s))"
    if "sites_ok s" for s using sites_okD(1-4) [OF that] by (simp_all add: ids_ok_def)
  have rows: "site_rows s ''unit'' = (\<lambda>i. map_option RowUnit (row_of unitID (ss_Units s) i))" "site_rows s ''building'' = (\<lambda>i. map_option RowBuilding (row_of buildingID (ss_Buildings s) i))"
    "site_rows s ''floor'' = (\<lambda>i. map_option RowFloor (row_of floorID (ss_Floors s) i))" "site_rows s ''point'' = (\<lambda>i. map_option RowPoint (row_of pointID (ss_Points s) i))" for s
    by (simp_all add: site_rows_def fun_eq_iff)
  note w = diff_written [OF d(1) [OF assms(1)] d(1) [OF assms(2)] assms(3)] diff_written [OF d(2) [OF assms(1)] d(2) [OF assms(2)] assms(4)]
    diff_written [OF d(3) [OF assms(1)] d(3) [OF assms(2)] assms(5)] diff_written [OF d(4) [OF assms(1)] d(4) [OF assms(2)] assms(6)]
  have other: "site_rows s kind i = None" if "kind \<notin> {''unit'', ''building'', ''floor'', ''point''}" for s using that by (simp add: site_rows_def)
  show "fold write_row (SiteChanges e base new) (site_rows base) kind i = site_rows new kind i"
  proof (cases "kind \<in> {''unit'', ''building'', ''floor'', ''point''}")
    case True
    then consider "kind = ''unit''" | "kind = ''building''" | "kind = ''floor''" | "kind = ''point''" by blast
    then show ?thesis by cases (simp_all add: SiteChanges_def site_changes_rows rows put_row_map w)
  next
    case False
    then show ?thesis using other by (simp add: SiteChanges_def site_changes_rows)
  qed
qed

end
