(* ===== verification/Spec2Isabelle.thy ===== *)
theory Spec2Isabelle
  imports Modbus_Frame GB26875 Rule_Checks Redelivery Samples Rate_Limit Queue_Fifo Ingest_Samples Modbus_Samples Parser_Samples Scope_Samples
    Site_Samples Site_Changes
begin

text \<open>
  A verification of the core of the TorchLink IoT platform (a Go service that admits device reports, parses them, keeps device states, raises
  and closes alarms and publishes what happened). This theory imports the development and holds the properties that span its parts.

  \<^bold>\<open>The program.\<close> A report of a device reaches the platform as a raw message, over MQTT, HTTP, a listener, an edge queue or by polling. \<^verbatim>\<open>core.Engine\<close>
  admits it (\<^verbatim>\<open>IngestRaw\<close>): the identity is reserved, the payload archived, an index stored and the message published to the raw topic.
  A consumer parses it (\<^verbatim>\<open>handleRaw\<close>) into a standard message on the business stream; another consumer (\<^verbatim>\<open>handleStandard\<close>) claims it,
  updates the device state, matches the alarm rules, reports and recovers alarms and completes the message. Alarm events leave through an outbox in the
  store. Several workers share one store; they are kept apart by versions, claims with fencing tokens and leases. Everything the engine keeps is
  behind the repository interfaces of \<^verbatim>\<open>internal/ports\<close>; the model uses the in-memory repository, which defines their meaning.

  \<^bold>\<open>The theories\<close>, in the order of the code:
  \<^item> \<open>Go_Prelude\<close>, \<open>Go_Time\<close>, \<open>Go_Numbers\<close>, \<open>Go_SHA256\<close>: strings, maps, hex, calendar dates, IEEE values, JSON strings and
    SHA-256 as far as the code uses them, with the generic lemmas. A Go map is an association list with distinct keys, whose order stands for the
    order of a \<^verbatim>\<open>range\<close> loop.
  \<^item> \<open>Model_Types\<close>: the types of \<^verbatim>\<open>internal/model\<close> with their methods. \<open>Memory_Repo\<close>: \<^verbatim>\<open>internal/adapters/memory\<close>, one
    function per operation on a record of maps; \<open>Alarm_Store\<close>: the alarm invariant of the store and that every operation keeps it.
  \<^item> \<open>Engine_Base\<close>: the engine as a state-passing computation over a world with the store, the clock, the caches, the bus and the
    realtime channel. Between two calls of the store the world may change by a schedule of other workers, a call may fail, and publications may
    be refused: the schedule and the faults are lists in the world, and theorems quantify over them.
  \<^item> \<open>Device_State\<close> (\<^verbatim>\<open>core/device_state.go\<close>, \<^verbatim>\<open>device_timing.go\<close>, \<^verbatim>\<open>connections.go\<close>, \<^verbatim>\<open>protocol_cache.go\<close>), \<open>Rules\<close> and \<open>Rule_Checks\<close>
    (\<^verbatim>\<open>rules.go\<close>, \<^verbatim>\<open>rule_validation.go\<close>, \<^verbatim>\<open>thing_quality.go\<close>), \<open>Alarm_Engine\<close> and \<open>Alarm_Reports\<close> (\<^verbatim>\<open>alarm_*.go\<close>,
    \<^verbatim>\<open>external_data.go\<close>, \<^verbatim>\<open>rule_cache.go\<close>), \<open>Processor\<close> (\<^verbatim>\<open>consistency.go\<close>, \<^verbatim>\<open>component.go\<close>, \<^verbatim>\<open>outbox.go\<close>, the consumer of standard messages).
  \<^item> \<open>Raw_Archive\<close>, \<open>Ingest\<close>, \<open>Raw_Parsing\<close>: the archive on disk (\<^verbatim>\<open>adapters/local/archive.go\<close>), the admission of raw
    messages and the registration of gateway children (\<^verbatim>\<open>engine.go\<close>, \<^verbatim>\<open>mqtt_receipt.go\<close>), the parser registry and \<^verbatim>\<open>handleRaw\<close>.
  \<^item> \<open>Modbus_Frame\<close>, \<open>GB26875\<close>: the wire formats of \<^verbatim>\<open>internal/modbusframe\<close> and \<^verbatim>\<open>parser/gb26875.go\<close>; \<open>Checksums\<close> is the interface of
    their checksums, a locale that both interpret.
  \<^item> \<open>Point_Table\<close>, \<open>Modbus_Points\<close>, \<open>Modbus_Poll\<close>: point tables and read blocks (\<^verbatim>\<open>core/point_table.go\<close>), the parsers of Modbus responses
    (\<^verbatim>\<open>parser/modbus_*.go\<close>) and the active collection (\<^verbatim>\<open>protocolruntime/modbus.go\<close>, \<^verbatim>\<open>rtu_tcp.go\<close>).
  \<^item> \<open>Config_Parsers\<close>, \<open>Standard_Parser\<close>, \<open>Poll_Parser\<close>: the other parsers of payloads (\<^verbatim>\<open>parser/configurable.go\<close>, \<^verbatim>\<open>parser.go\<close>, \<^verbatim>\<open>standard.go\<close>,
    \<^verbatim>\<open>poll.go\<close>); a scripted or external parser is a value of the parser interface.
  \<^item> \<open>Repo_Queries\<close>, \<open>Device_Scope\<close>: the queries of the repository that serve the API, and the repository that limits them to the devices a user is granted
    (\<^verbatim>\<open>internal/devicescope\<close>).
  \<^item> \<open>Site_Records\<close>, \<open>Site_Service\<close>, \<open>Site_Import\<close>, \<open>Site_Changes\<close>: where devices are installed (\<^verbatim>\<open>internal/sites\<close>, \<^verbatim>\<open>model/sites.go\<close>, \<^verbatim>\<open>adapters/memory/sites.go\<close>): the
    changes of a tenant's units, buildings, floors and points, the service that commits them optimistically beside other requests, whose acts between its
    steps are a script in the world, the import, and the difference that a store writes.
  \<^item> \<open>Durable_Queue\<close> (\<^verbatim>\<open>internal/durablequeue\<close>) and \<open>Rate_Limit\<close> (\<^verbatim>\<open>internal/ratelimit\<close>).

  \<^bold>\<open>What is shown.\<close>
  \<^item> Alarms (\<open>Alarm_System\<close>, \<open>Engine_Progress\<close>, \<open>Redelivery\<close>): over any run of a worker among others, at most one alarm of a device and rule is open, a closed
    alarm is final, history is never lost; reports are idempotent as far as they are; disabling a rule closes its alarms.
  \<^item> Device states and delivery (\<open>Device_State\<close>, \<open>Fencing\<close>, \<open>Engine_Progress\<close>): versioned updates are not lost, the offline scan ends with
    nothing due, completion settles the state, a worker that lost its claim or lease cannot act on it, waiting for a claim is bounded, the outbox is relayed in order.
  \<^item> Raw messages (\<open>Ingest_Safety\<close>): an acknowledged message is archived, indexed and published; a repetition changes nothing; the retry publishes what
    waits; a gateway admits its own children only; parsing succeeds with a registered parser or is recorded.
  \<^item> Wire formats: frames round trip, a changed byte is detected, a component report is parsed to its alarms.
  \<^item> Modbus (\<open>Modbus_Device\<close>, \<open>Modbus_Readings\<close>): compiled blocks read every point and nothing else; for a device that answers as the protocol
    specifies, behind a network with faults, the parsed messages hold exactly its values; collections of a profile never overlap.
  \<^item> Payload parsers: a configured path walks the payload step by step, the checksum of a hex layout detects a changed byte, the token check of
    the standard format decides depth and repeated keys exactly, an answer of a polled device has to hold every point once.
  \<^item> Device scope (\<open>Scope_Confinement\<close>): the listed grant is the checked one; stores that agree on the granted devices cannot be told apart by any modelled
    query; changes leave other devices alone.
  \<^item> Sites (\<open>Site_Integrity\<close>, \<open>Site_History\<close>, \<open>Site_Run\<close>, \<open>Site_Versions\<close>): every operation keeps the integrity of the sites; a call of the service takes effect once,
    on the state it was computed from, and fails for competition only after eight commits of others; an edit replaces the record that was read; the
    index of points finds what a scan finds.
  \<^item> The edge queue (\<open>Queue_Invariant\<close>, \<open>Queue_Fifo\<close>) matches its directory whatever file operations fail, stays within its capacity and refines a FIFO queue
    (the locale of \<open>Queue_Fifo\<close>, interpreted on the queue); rate limits keep their budgets, alone and in a cluster.
  \<open>Samples\<close>, \<open>Ingest_Samples\<close>, \<open>Modbus_Samples\<close>, \<open>Parser_Samples\<close>, \<open>Scope_Samples\<close> and \<open>Site_Samples\<close> hold the concrete values on which the witnesses evaluate the theorems.

  \<^bold>\<open>Bounds and fuel.\<close> Loops over pages and batches take a budget, and the theorems about their results give the budget that is enough: the offline
  scan as many batches as devices are due, closing a rule one more page than the square of the stored alarms, the timing of a template one page more
  than the devices fill (\<open>timing_pages_enough\<close>). The retry of a versioned update, the attempts of a site change and the wait for a claim have the bounds of the code. Times and counters
  are unbounded integers, away from the ends of \<^verbatim>\<open>int64\<close>; bytes, checksums and frame fields are words of their width.

  \<^bold>\<open>What is assumed.\<close> The text of floats and its inverse, JSON decoders, the gzip and JSON codec of the archive, URL checks of media and the rule
  engine that runs rewritten expressions are arguments of the model (\<open>golib\<close>, \<open>codec\<close>, \<open>textlib\<close>, \<open>jsonlib\<close>, \<open>polllib\<close>, and named arguments); a theorem that needs a law of them names it.
  Case mapping and white space are those of ASCII. Locks make an operation of the repository atomic, so they do not appear; logging and metrics have no
  effect on the state and are left out.

  \<^bold>\<open>Not modelled:\<close> the SQL, Kafka, Redis, MQTT and S3 adapters, whose statements run in other systems; the HTTP layer around the engine; protocol packages
  and listeners, which run sockets and child processes; operator tooling (capacity tests, cluster plans, backup, operations centre), which renders files and
  drives running systems; video, AI and notification services around external systems; the readers of CSV, spreadsheet and archive files; configuration and
  start-up. Of the repository, the tables that only those parts use are left out, and of the collection the coordinator that starts it.
\<close>

section \<open>Alarms\<close>

text \<open>C1: whatever requests a worker serves, in whatever order, and whatever other workers that keep the alarm invariant
do between its repository calls, at most one alarm of a tenant, device and rule is open; alarms of external events,
which are keyed by the event, are the exception.\<close>

theorem one_open_alarm:
  assumes "engine_run lb w0 w" "good w0 w0"
    and "(k, a) \<in> set (rp_alarms (en_repo w))" "(k', a') \<in> set (rp_alarms (en_repo w))"
    and "alarm_open a" "same_open a a'" "\<not> external_rule (al_RuleID a)"
  shows "k = k' \<and> a = a'"
proof -
  have inv: "alarm_inv (en_repo w)" using run_history assms(1,2) by blast
  then have k: "k = k'" using assms(3-7) unfolding alarm_inv_def open_unique_def by fastforce
  with inv_mem(1) [OF inv assms(3)] inv_mem(1) [OF inv assms(4)] show ?thesis using assms(3,4) inv
    by (metis alarm_inv_def alarms_wf_def gm_mem_get option.inject)
qed

theorem one_open_alarm_witness:
  "\<exists>a. (key [''t'', ''a1''], a) \<in> set (rp_alarms (en_repo sample_run)) \<and>
     (\<forall>k' a'. (k', a') \<in> set (rp_alarms (en_repo sample_run)) \<longrightarrow> same_open a a' \<longrightarrow> k' = key [''t'', ''a1''])"
proof -
  obtain a where a: "(key [''t'', ''a1''], a) \<in> set (rp_alarms (en_repo sample_run))" "al_Status a = ''ACKED''" "al_RuleID a = ''r1''"
    by (rule sample_run_first)
  have "\<not> external_rule ''r1''" by code_simp
  then have "\<not> external_rule (al_RuleID a)" "alarm_open a" using a by (simp_all add: alarm_open_def)
  with one_open_alarm [OF sample_run_reached sample_good a(1)] a(1) show ?thesis by blast
qed

text \<open>C2: over any run an alarm that is closed stays closed, with the verification result and the attachments it was closed
with.\<close>

theorem closed_alarm_final:
  assumes "engine_run lb w0 w" "good w0 w0"
    and "gm_get (rp_alarms (en_repo w0)) k = Some a" "al_Status a = ''CLOSED''"
  shows "\<exists>a'. gm_get (rp_alarms (en_repo w)) k = Some a' \<and> al_Status a' = ''CLOSED'' \<and>
    al_Disposition a' = al_Disposition a \<and> al_Attachments a' = al_Attachments a"
proof -
  obtain a' where "gm_get (rp_alarms (en_repo w)) k = Some a'" "evolves a a'"
    using run_history [OF assms(1,2)] assms(3) by (auto simp: history_def)
  with assms(4) show ?thesis by (auto simp: evolves_def status_reach_closed)
qed

theorem closed_alarm_final_witness:
  "\<exists>a'. gm_get (rp_alarms (en_repo sample_run)) (key [''t'', ''a2'']) = Some a' \<and> al_Status a' = ''CLOSED''"
proof -
  have "gm_get (rp_alarms (en_repo (sample_worker sample_repo))) (key [''t'', ''a2'']) = Some (sample_alarm ''a2'' ''r2'' ''CLOSED'')" by code_simp
  moreover have "al_Status (sample_alarm ''a2'' ''r2'' ''CLOSED'') = ''CLOSED''" by code_simp
  ultimately show ?thesis using closed_alarm_final [OF sample_run_reached sample_good] by blast
qed



text \<open>C18: in every state a run reaches, every stored alarm is well formed: its key is its tenant and identity, it counts at
least one trigger, it has at most the allowed number of attachments, and when it is closed and needs verification
it carries the result of the verification.\<close>

theorem stored_alarms_well_formed:
  assumes "engine_run lb w0 w" "good w0 w0" "gm_get (rp_alarms (en_repo w)) k = Some a"
  shows "k = key [al_TenantID a, al_ID a] \<and> 1 \<le> al_TriggerCount a \<and> length (al_Attachments a) \<le> MaxAlarmAttachments \<and>
    (al_Status a = ''CLOSED'' \<and> RequiresVerification a \<longrightarrow> al_Disposition a \<noteq> None)"
proof -
  have "alarm_inv (en_repo w)" using run_history assms(1,2) by blast
  from inv_stored [OF this assms(3)] show ?thesis by (auto simp: alarm_key_def alarm_ok_def)
qed

theorem stored_alarms_well_formed_witness:
  "\<exists>a. gm_get (rp_alarms (en_repo sample_run)) (key [''t'', ''a1'']) = Some a \<and> 1 \<le> al_TriggerCount a"
proof -
  have "gm_get (rp_alarms (en_repo (sample_worker sample_repo))) (key [''t'', ''a1'']) = Some (sample_alarm ''a1'' ''r1'' ''ACTIVE'')" by code_simp
  then obtain a where a: "gm_get (rp_alarms (en_repo sample_run)) (key [''t'', ''a1'']) = Some a"
    using run_history [OF sample_run_reached sample_good] unfolding history_def by blast
  from stored_alarms_well_formed [OF sample_run_reached sample_good a] a show ?thesis by blast
qed

section \<open>Device state\<close>

text \<open>C3: no update of a device state is lost. Whatever other workers do between the calls, as long as they change the state
only with a larger version, an update that \<^verbatim>\<open>mutateDeviceState\<close> reports as written was computed from
exactly the state it replaced, and it stored that result with the next version.\<close>

theorem state_update_not_lost:
  assumes "others_disciplined t d w" "\<And>st f. reader t d (fn st f)"
    and "mutateDeviceState t d fn w = (Inr (before, after, True), w')"
  shows "\<exists>r found w1 w2 nxt. state_cas.disciplined t d (en_repo w) r \<and>
    stored_state r t d = (if found then Some before else None) \<and> (\<not> found \<longrightarrow> before = zero_DeviceState) \<and>
    fn before found w1 = (Inr (True, nxt), w2) \<and>
    after = nxt\<lparr>ds_TenantID := t, ds_DeviceID := d, ds_Version := ds_Version before + 1\<rparr> \<and>
    en_repo w' = r\<lparr>rp_states := gm_put (key [t, d]) after (rp_states r)\<rparr>"
  using mutate_loop_no_lost_update [where fn = fn, OF assms(2) since_self [OF assms(1)]] assms(3)
  unfolding mutateDeviceState_def written_from_def by blast

definition sample_offline :: "DeviceState \<Rightarrow> bool \<Rightarrow> (bool \<times> DeviceState) eng" where
  "sample_offline = (\<lambda>s found. eret (True, mark_offline 1000 s))"

theorem state_update_not_lost_witness:
  "\<exists>r. stored_state r ''t'' ''d'' = Some sample_state \<and>
     en_repo (snd (mutateDeviceState ''t'' ''d'' sample_offline (sample_worker sample_repo))) = r\<lparr>rp_states := gm_put (key [''t'', ''d''])
       ((mark_offline 1000 sample_state)\<lparr>ds_TenantID := ''t'', ds_DeviceID := ''d'', ds_Version := 2\<rparr>) (rp_states r)\<rparr>"
proof -
  let ?res = "mutateDeviceState ''t'' ''d'' sample_offline (sample_worker sample_repo)"
  let ?after = "(mark_offline 1000 sample_state)\<lparr>ds_TenantID := ''t'', ds_DeviceID := ''d'', ds_Version := 2\<rparr>"
  have o: "others_disciplined ''t'' ''d'' (sample_worker sample_repo)" by (simp add: others_disciplined_def)
  have r: "reader ''t'' ''d'' (sample_offline st f)" for st f
    unfolding reader_def sample_offline_def by (intro allI keep_rules)
  have "fst ?res = Inr (sample_state, ?after, True)" by code_simp
  then have "?res = (Inr (sample_state, ?after, True), snd ?res)" by (simp add: prod_eq_iff)
  moreover have "sample_state \<noteq> zero_DeviceState" by code_simp
  ultimately show ?thesis using state_update_not_lost [where fn = sample_offline, OF o r] by metis
qed

text \<open>C4: when nobody interferes, the holder of the current claim completes a message: the message is marked processed, no alarm
changes, and the stored state of the device says ALARM exactly when the device has an open alarm and was last seen no
earlier than the message.\<close>

theorem completion_settles_state:
  assumes "quiet w" "states_ok (en_repo w)"
    and "gm_get (rp_standard (en_repo w)) (key [sm_TenantID m, sm_MessageID m]) \<noteq> None"
    and "mc_token (claim_of (en_repo w) (key [sm_TenantID m, sm_MessageID m])) = tok"
    and "\<not> processed (en_repo w) (key [sm_TenantID m, sm_MessageID m])"
  shows "\<exists>w' s'. completeStandard m tok w = (Inr (), w') \<and> rp_alarms (en_repo w') = rp_alarms (en_repo w) \<and>
    processed (en_repo w') (key [sm_TenantID m, sm_MessageID m]) \<and> stored_state (en_repo w') (sm_TenantID m) (sm_DeviceID m) = Some s' \<and>
    (ds_BusinessStatus s' = ''ALARM'' \<longleftrightarrow> HasOpenAlarm (sm_TenantID m) (sm_DeviceID m) (en_repo w)) \<and> sm_Timestamp m \<le> ds_LastSeenAt s'"
  using completeStandard_quiet [OF assms] by metis

definition sample_claimed :: repo where
  "sample_claimed = snd (ClaimStandardMessage 900 (sample_message ''m1'' AlarmReport 900) ''worker-1'' 60000 sample_repo)"

theorem completion_settles_state_witness:
  "\<exists>w' s'. completeStandard (sample_message ''m1'' AlarmReport 900) 1 (sample_worker sample_claimed) = (Inr (), w') \<and>
     stored_state (en_repo w') ''t'' ''d'' = Some s' \<and> ds_BusinessStatus s' = ''ALARM''"
proof -
  let ?m = "sample_message ''m1'' AlarmReport 900"
  have ids: "sm_TenantID ?m = ''t''" "sm_DeviceID ?m = ''d''" "sm_MessageID ?m = ''m1''" by code_simp+
  have "states_ok sample_claimed" unfolding states_ok_def gm_ok_def by code_simp
  moreover have "gm_get (rp_standard sample_claimed) (key [''t'', ''m1'']) \<noteq> None" by code_simp
  moreover have "mc_token (claim_of sample_claimed (key [''t'', ''m1''])) = 1" by code_simp
  moreover have "\<not> processed sample_claimed (key [''t'', ''m1''])" by code_simp
  moreover have "HasOpenAlarm ''t'' ''d'' sample_claimed" by code_simp
  ultimately show ?thesis using completion_settles_state [of "sample_worker sample_claimed" ?m 1] by (auto simp: ids)
qed

text \<open>C6: when nobody interferes and its budget of batches covers the devices that are due, the offline scan returns without
error; every device whose deadline has passed is stored as silent with the next version, every other state is as it
was, and no device is due any more.\<close>

theorem offline_scan:
  assumes "quiet w" "states_ok (en_repo w)" "card (due_keys (en_clock w) (en_repo w)) < budget * offlineScanBatch"
  shows "\<exists>w'. ScanOffline budget w = (Inr (), w') \<and>
    (\<forall>k. gm_get (rp_states (en_repo w')) k = map_option (\<lambda>s. if 0 < OfflineCheckAt s \<and> OfflineCheckAt s < en_clock w
       then (mark_offline (en_clock w) s)\<lparr>ds_Version := ds_Version s + 1\<rparr> else s) (gm_get (rp_states (en_repo w)) k)) \<and>
    (\<forall>n. ListOfflineDue (en_clock w) n (en_repo w') = [])"
proof -
  let ?now = "en_clock w"
  obtain w' where w': "scan_batches budget ?now w = (Inr (), w')" "states_ok (en_repo w')"
    "\<And>k. gm_get (rp_states (en_repo w')) k = map_option (scanned ?now) (gm_get (rp_states (en_repo w)) k)"
    using scan_batches_quiet [OF assms] by metis
  have "due_keys ?now (en_repo w') = {}" by (auto simp: due_keys_def w'(3))
  then have "filter (offline_due ?now) (gm_vals (rp_states (en_repo w'))) = []"
    using due_listed(2) [OF w'(2), of ?now] by simp
  then have "ListOfflineDue ?now n (en_repo w') = []" for n
    by (simp add: ListOfflineDue_def offline_due_def [abs_def])
  moreover have "ScanOffline budget w = (Inr (), w')" using w'(1) by (simp add: ScanOffline_def ebind_eq enow_def)
  ultimately show ?thesis using w'(3) by (auto simp: scanned_def [abs_def] offline_due_def)
qed

theorem offline_scan_witness:
  "\<exists>w'. ScanOffline 1 (sample_worker sample_repo) = (Inr (), w') \<and> ListOfflineDue 1000 5 (en_repo w') = []"
proof -
  have f: "finite (due_keys 1000 sample_repo)" and c: "due_keys 1000 sample_repo \<subseteq> {key [''t'', ''d'']}"
    by (auto simp: due_keys_def sample_repo_def gm_get_def split: if_splits intro: finite_subset [of _ "{key [''t'', ''d'']}"])
  have "card (due_keys 1000 sample_repo) \<le> 1" using card_mono [OF _ c] by simp
  then have "card (due_keys (en_clock (sample_worker sample_repo)) (en_repo (sample_worker sample_repo))) < 1 * offlineScanBatch"
    by (simp add: offlineScanBatch_def)
  from offline_scan [OF _ _ this] sample_repo_ok show ?thesis by auto
qed

section \<open>Delivery\<close>

text \<open>C7: when nobody interferes and the bus accepts every publication, the outbox relay publishes every waiting alarm event
exactly once and in the order it was stored, and leaves the outbox empty.\<close>

theorem outbox_relayed_in_order:
  assumes "quiet w" "en_bus_faults w = []" "distinct (map ob_Seq (rp_outbox (en_repo w)))"
  shows "\<exists>w'. flushOutbox w = (Inr (), w') \<and> rp_outbox (en_repo w') = [] \<and>
    en_bus w' = en_bus w @ map (\<lambda>v. \<lparr>be_Topic = ob_Topic v, be_Key = ob_Key v, be_Payload = PAlarm (ob_Payload v)\<rparr>) (rp_outbox (en_repo w))"
  using flushOutbox_all [OF assms] by (simp add: outbox_event_def [abs_def])

definition sample_outbox :: repo where
  "sample_outbox = addOutbox (AlarmReportEvent (sample_alarm ''a1'' ''r1'' ''ACTIVE'') (sample_alarm ''a1'' ''r1'' ''ACTIVE''))
     (addOutbox (AlarmReportEvent (sample_alarm ''a2'' ''r2'' ''ACTIVE'') (sample_alarm ''a2'' ''r2'' ''ACTIVE'')) NewRepository)"

theorem outbox_relayed_in_order_witness:
  "\<exists>w'. flushOutbox (sample_worker sample_outbox) = (Inr (), w') \<and> rp_outbox (en_repo w') = [] \<and> length (en_bus w') = 2"
proof -
  have "distinct (map ob_Seq (rp_outbox sample_outbox))" "length (rp_outbox sample_outbox) = 2"
    by (simp_all add: sample_outbox_def addOutbox_def NewRepository_def)
  moreover have "en_bus (sample_worker sample_outbox) = []" by (simp add: sample_worker_def)
  ultimately show ?thesis using outbox_relayed_in_order [of "sample_worker sample_outbox"] by auto
qed


definition sample_taken :: repo where
  "sample_taken = snd (ClaimStandardMessage 70000 (sample_message ''m1'' AlarmReport 900) ''worker-2'' 60000 sample_claimed)"


text \<open>C19: waiting for a claim is bounded: when nobody else runs, \<^verbatim>\<open>claimStandard\<close> returns within 75 seconds of
simulated time, either with a claim that is not busy or with an error after at least 70 seconds.\<close>

theorem claim_wait_bounded:
  assumes "quiet w"
  shows "en_clock (snd (claimStandard msg w)) \<le> en_clock w + 75000 \<and>
    (case fst (claimStandard msg w) of Inr c \<Rightarrow> \<not> sc_Busy c | Inl e \<Rightarrow> en_clock w + 70000 < en_clock (snd (claimStandard msg w)))"
  using claimStandard_quiet [OF assms] by blast

theorem claim_wait_bounded_witness:
  "en_clock (snd (claimStandard (sample_message ''m1'' AlarmReport 900) (sample_worker sample_taken))) \<le> 76000"
  using claim_wait_bounded [of "sample_worker sample_taken" "sample_message ''m1'' AlarmReport 900"] by simp

text \<open>C9: an execution lease excludes others for its whole term: while the lease of one worker has not expired, the same
resource is not granted to another one, and a grant to another one carries a larger fencing token.\<close>

theorem lease_exclusive:
  assumes "AcquireExecutionLease now t res a endpoint ttl r = (Inr (v, True), r1)"
    and "AcquireExecutionLease now' t res b endpoint' ttl' r1 = (Inr (v', True), r2)" "b \<noteq> a"
  shows "el_ExpiresAt v = now + ttl \<and> el_ExpiresAt v \<le> now' \<and> el_Token v < el_Token v'"
proof -
  have ok: "t \<noteq> []" "res \<noteq> []" "a \<noteq> []" "1000 \<le> ttl" "ttl \<le> 60000" "b \<noteq> []" "1000 \<le> ttl'" "ttl' \<le> 60000"
    using assms(1,2) by (auto simp: AcquireExecutionLease_def split: if_splits)
  have g1: "lease_grant now a ttl (lease_view r t res) = Some (lease_view r1 t res)" "lease_view r1 t res = Some (a, el_Token v, el_ExpiresAt v)"
    using AcquireExecutionLease_grant [OF ok(1-5), of now endpoint r] assms(1) by auto
  have g2: "lease_grant now' b ttl' (lease_view r1 t res) = Some (lease_view r2 t res)" "lease_view r2 t res = Some (b, el_Token v', el_ExpiresAt v')"
    using AcquireExecutionLease_grant [OF ok(1,2,6-8), of now' endpoint' r1] assms(2) by auto
  have "now + ttl \<le> now'" using lease_fence.exclusive_term [OF g1(1) g2(1) assms(3) ok(3)] .
  moreover have "el_ExpiresAt v = now + ttl" using lease_fence.grant_until [OF g1(1)] g1(2) by simp
  moreover have "el_Token v < el_Token v'"
    using lease_fence.taken_over [OF lease_fence.attempts.granted [OF lease_fence.attempts.none g2(1)]] g1(2) g2(2) assms(3) by simp
  ultimately show ?thesis by simp
qed

theorem lease_exclusive_witness:
  "\<exists>v v'. fst (AcquireExecutionLease 0 ''t'' ''poll'' ''a'' ''e'' 1000 NewRepository) = Inr (v, True) \<and>
     fst (AcquireExecutionLease 2000 ''t'' ''poll'' ''b'' ''e'' 1000 (snd (AcquireExecutionLease 0 ''t'' ''poll'' ''a'' ''e'' 1000 NewRepository))) =
       Inr (v', True) \<and> el_Token v < el_Token v'"
proof -
  let ?one = "AcquireExecutionLease 0 ''t'' ''poll'' ''a'' ''e'' 1000 NewRepository"
  let ?two = "AcquireExecutionLease 2000 ''t'' ''poll'' ''b'' ''e'' 1000 (snd ?one)"
  have h: "snd (projr (fst ?one))" "snd (projr (fst ?two))" "\<not> isl (fst ?one)" "\<not> isl (fst ?two)" by code_simp+
  obtain v where v: "?one = (Inr (v, True), snd ?one)" using h(1,3) by (cases "fst ?one") (auto simp: prod_eq_iff)
  obtain v' where v': "?two = (Inr (v', True), snd ?two)" using h(2,4) by (cases "fst ?two") (auto simp: prod_eq_iff)
  have "''b'' \<noteq> ''a''" by simp
  from lease_exclusive [OF v v' this] v v' show ?thesis by (metis fst_conv)
qed

section \<open>Redelivery\<close>







text \<open>A report for an alarm that is already open is recognised as a repetition only when it is the report that opened the
alarm. Any other report is counted again each time it is delivered: two deliveries raise the trigger count by two.\<close>

theorem later_report_counted_per_delivery:
  assumes "gm_ok (rp_alarms r)" "find (\<lambda>(k, a). same_open v a) (rp_alarms r) = Some (k, a)" "al_TriggerID a \<noteq> al_TriggerID v"
  shows "al_TriggerCount (fst (fst (UpsertAlarm v (snd (UpsertAlarm v r))))) = al_TriggerCount a + 2"
  using assms by (rule UpsertAlarm_later_again)

section \<open>Rules\<close>








section \<open>Raw messages\<close>



text \<open>A message that was acknowledged and arrives again is answered from its index as known: nothing is archived, indexed,
reserved or published a second time.\<close>

theorem known_raw_changes_nothing:
  assumes "ingest_inv cd w" "en_sched w = []" "\<not> en_paused w" "rm_MessageID raw \<noteq> []" "clean (rm_TenantID raw)" "rm_GatewayID raw = []" "Validate_raw raw = None"
    and "gm_get (rp_rawReservations (en_repo w)) (key [rm_TenantID raw, rm_MessageID raw]) = Some old"
    and "rr_Hash old = PayloadHash raw" "rm_ProductID (rr_Metadata old) = rm_ProductID raw" "rm_DeviceID (rr_Metadata old) = rm_DeviceID raw"
    and "gm_get (rp_raw (en_repo w)) (key [rm_TenantID raw, rm_MessageID raw]) = Some v" "ri_PublishedAt v \<noteq> 0"
      "ri_DeviceID v = rm_DeviceID raw" "ri_ProductID v = rm_ProductID raw"
  shows "\<exists>w'. IngestRaw cd json_valid raw w = (Inr (v, False, None), w') \<and> rp_raw (en_repo w') = rp_raw (en_repo w) \<and>
    rp_rawReservations (en_repo w') = rp_rawReservations (en_repo w) \<and> en_archive w' = en_archive w \<and> en_bus w' = en_bus w"
  using Ingest_again [OF assms(1-3) _ assms(5-8,12,13,9-11,14,15), of json_valid] assms(4) by (auto simp: named_def prepared_def)

text \<open>C35: one pass of the retry, with archive and bus at work, publishes every message it lists; when no more than 200 messages were
waiting, none is left.\<close>

theorem retry_publishes_waiting_raw:
  assumes "calm_world cd w" "gm_ok (rp_raw (en_repo w))"
  shows "\<exists>w'. retryPendingRawOnce cd w = (Inr (), w') \<and>
    (\<forall>v \<in> set (ListPendingRawIndexes 200 (en_repo w)). acknowledged cd w' (ri_TenantID v) (ri_MessageID v) (ri_PayloadHash v)) \<and>
    (length (filter raw_pending (gm_vals (rp_raw (en_repo w)))) \<le> 200 \<longrightarrow> (\<forall>k v. gm_get (rp_raw (en_repo w')) k = Some v \<longrightarrow> \<not> raw_pending v))"
  using retry_publishes [OF assms] by blast

theorem retry_publishes_waiting_raw_witness:
  "\<exists>w'. retryPendingRawOnce archive_codec waiting_worker = (Inr (), w') \<and> (\<forall>k v. gm_get (rp_raw (en_repo w')) k = Some v \<longrightarrow> \<not> raw_pending v)"
proof -
  have "length (filter raw_pending (gm_vals (rp_raw (en_repo waiting_worker)))) \<le> 200" by (simp add: gm_vals_def waiting_worker_def)
  moreover have "gm_ok (rp_raw (en_repo waiting_worker))" by (simp add: gm_ok_def waiting_worker_def)
  ultimately show ?thesis using retry_publishes_waiting_raw [OF waiting_worker_calm] by blast
qed





section \<open>Modbus collection\<close>

text \<open>C32: the blocks compiled from a point table read every point whole with its function code and interval, as long as
each point fits the protocol; every block is a request the runtime builds, and reads no address that no point names. This holds for
every order the sort leaves equal addresses in.\<close>

theorem compiled_blocks_read_every_point:
  assumes "sorts srt" "CompileModbusReadBlocks srt points = Inr blocks" "\<forall>p \<in> set points. addressable p"
  shows "(\<forall>p \<in> set points. \<exists>b \<in> set blocks. covers b p) \<and>
    (\<forall>b \<in> set blocks. (\<exists>r. buildReadRequest t u b = Inr r) \<and>
       (\<forall>a. mb_StartAddress b \<le> a \<and> a < block_end b \<longrightarrow> (\<exists>p \<in> set points. mp_FunctionCode p = mb_FunctionCode b \<and> mp_Address p \<le> a \<and> a < point_end p)))"
proof (intro conjI ballI)
  fix p assume "p \<in> set points"
  then show "\<exists>b \<in> set blocks. covers b p" by (rule compile_covers [OF assms(2,1)])
next
  fix b assume b: "b \<in> set blocks"
  show "\<exists>r. buildReadRequest t u b = Inr r" using compiled_block_ok [OF assms(2,1,3) b] by (simp add: request_accepted)
  show "\<forall>a. mb_StartAddress b \<le> a \<and> a < block_end b \<longrightarrow> (\<exists>p \<in> set points. mp_FunctionCode p = mb_FunctionCode b \<and> mp_Address p \<le> a \<and> a < point_end p)"
    using compile_in_limits [OF assms(2,1,3) b] by (auto simp: tiled_def)
qed

theorem compiled_blocks_read_every_point_witness:
  "list_all (covers meter_block) meter_points"
  using compiled_blocks_read_every_point [OF sort_key_sorts meter_compiled meter_points_ok(1)] by (simp add: list_all_iff)



text \<open>A coil that lies behind a block, but within the last byte of its answer, is reported as off whatever the device
holds there: the parser takes the padding of the answer for the value of the point.\<close>

theorem coil_padding_reported_as_value:
  assumes "block_ok b" "mb_FunctionCode b \<le> 2" "points_of (gm_get config ''points'') = Inr points" "distinct (map mp_Identifier points)"
    and "p0 \<in> set points" "inside b p0" "p \<in> set points" "mp_FunctionCode p = mb_FunctionCode b"
    and "block_end b \<le> mp_Address p" "mp_Address p < mb_StartAddress b + 8 * ((mb_Quantity b + 7) div 8)"
  shows "\<exists>m. ParseModbusTCP lb fused points_of (poll_raw env profile release False t b req (tcp_answer dv tr u b)) config = Inr m \<and>
    gm_get (sm_Properties m) (mp_Identifier p) = Some (VBool False)"
proof -
  have "\<forall>p \<in> set points. mp_FunctionCode p = mb_FunctionCode b \<and> 2 < mb_FunctionCode b \<longrightarrow> sized p" using assms(2) by simp
  from parse_tcp_answer [where points_of = points_of and config = config, OF assms(1,3,4) this assms(5,6) poll_raw_fields(1,2)]
  show ?thesis using point_padding [OF assms(1,2,8-10)] assms(7) by blast
qed

text \<open>A table may give a 32-bit point one register; it is accepted, and decoding the point then panics, whatever the
device answers.\<close>

theorem short_register_count_panics:
  "normalizeModbusRows sample_lib short_table 10 = (Inr [short_point], []) \<and> (\<forall>fused dv. reading fused dv short_point = Inl ModbusPanic)"
proof -
  have "reading fused dv short_point = Inl ModbusPanic" for fused dv
    by (simp add: reading_def short_point_def sample_point_def pointWidth_def decodeModbusRegisterValue_def typed_value_def take_number_def to_lower_def ascii_lower_def Let_def)
  then show ?thesis using short_table_accepted by blast
qed



section \<open>Wire formats\<close>


text \<open>C24: a GB/T 26875.3 frame built by \<^verbatim>\<open>buildGB26875Frame\<close> from six-byte addresses, at most 512 bytes of
application data and a calendar time of the years 2000 to 2099 is decoded by \<^verbatim>\<open>decodeGB26875Frame\<close> to exactly
the sequence number, the addresses, the command, the data and the instant it was built from.\<close>

theorem gb26875_frame_roundtrip:
  assumes "length source = 6" "length destination = 6" "length application \<le> 512"
    and "civil_ok c" "2000 \<le> Year c" "Year c \<le> 2099"
  shows "decodeGB26875Frame loc (buildGB26875Frame sequence source destination command application c) =
    Inr \<lparr>gf_Sequence = sequence, gf_VersionMajor = 1, gf_VersionMinor = 3,
         gf_Source = to_upper (hex_encode source), gf_Destination = to_upper (hex_encode destination),
         gf_Command = command, gf_Data = application, gf_FrameTime = UnixMilli loc (civil_instant c)\<rparr>"
  using assms by (rule decode_build_frame)

definition sample_civil :: civil where
  "sample_civil = \<lparr>Year = 2024, Month = 2, Day = 29, Hour = 23, Minute = 59, Second = 58\<rparr>"

lemma sample_civil_ok: "civil_ok sample_civil" "2000 \<le> Year sample_civil" "Year sample_civil \<le> 2099"
  by code_simp+

theorem gb26875_frame_roundtrip_witness:
  "decodeGB26875Frame 28800 (buildGB26875Frame 7 [1, 2, 3, 4, 5, 6] platform_address 2 [9, 8] sample_civil) =
    Inr \<lparr>gf_Sequence = 7, gf_VersionMajor = 1, gf_VersionMinor = 3,
         gf_Source = to_upper (hex_encode [1, 2, 3, 4, 5, 6]), gf_Destination = to_upper (hex_encode platform_address),
         gf_Command = 2, gf_Data = [9, 8], gf_FrameTime = UnixMilli 28800 (civil_instant sample_civil)\<rparr>"
  by (rule gb26875_frame_roundtrip) (simp_all add: platform_address_def sample_civil_ok)

text \<open>C25: changing any single byte of a frame that \<^verbatim>\<open>decodeGB26875Frame\<close> accepts, markers, length field and
checksum included, makes it a frame that is rejected.\<close>

theorem gb26875_one_byte_detected:
  assumes "decodeGB26875Frame loc f = Inr fr" "i < length f" "c \<noteq> f ! i"
  shows "\<exists>e. decodeGB26875Frame loc (f[i := c]) = Inl e"
  using assms by (rule decode_one_byte)

theorem gb26875_one_byte_detected_witness:
  "\<exists>e. decodeGB26875Frame 0 ((BuildGB26875AckFrame 1 [1, 2, 3, 4, 5, 6] sample_civil)[26 := 4]) = Inl e"
proof (rule gb26875_one_byte_detected)
  show "decodeGB26875Frame 0 (BuildGB26875AckFrame 1 [1, 2, 3, 4, 5, 6] sample_civil) =
    Inr (projr (decodeGB26875Frame 0 (BuildGB26875AckFrame 1 [1, 2, 3, 4, 5, 6] sample_civil)))"
    by code_simp
  show "26 < length (BuildGB26875AckFrame 1 [1, 2, 3, 4, 5, 6] sample_civil)" by code_simp
  show "(4 :: byte) \<noteq> BuildGB26875AckFrame 1 [1, 2, 3, 4, 5, 6] sample_civil ! 26" by code_simp
qed



text \<open>Changing any single byte of an accepted Modbus RTU frame, its CRC included, is reported as a CRC
mismatch.\<close>

theorem modbus_one_byte_detected:
  assumes "Validate f = Inr ()" "i < length f" "c \<noteq> f ! i"
  shows "Validate (f[i := c]) = Inl RtuCrcMismatch"
  using assms by (rule Validate_one_byte)

section \<open>Payload parsers\<close>

text \<open>C39: the property that a protocol package maps to a path is what the path names in the payload: the parser of configurable JSON
walks a path of member names and array positions step by step, and leaves the property out when a step leads nowhere.\<close>

theorem configured_property_is_at_its_path:
  assumes "ParseConfigurableJSON lb tx raw config = Inr m" "tx_json tx (rm_Payload raw) = Some (VMap body)"
    and "gm_get config ''properties'' = Some (VMap ms)" "gm_ok ms"
    and "(name, VStr (''$'' @ render_path (Member k # ss))) \<in> set ms" "list_all plain_step (Member k # ss)"
  shows "gm_get (sm_Properties m) name = walk (VMap body) (Member k # ss)"
proof -
  have ne: "ms \<noteq> []" using assms(5) by auto
  obtain body' where "tx_json tx (rm_Payload raw) = Some (VMap body')" "resolve_all lb tx (VMap body') [] ms = Inr (sm_Properties m)"
    by (rule configured_properties [OF assms(1,3) ne])
  then have "resolve_all lb tx (VMap body) [] ms = Inr (sm_Properties m)" using assms(2) by simp
  from resolve_all_value [OF this assms(4,5) gm_get_Nil] show ?thesis unfolding resolve_path [OF assms(6)] by auto
qed

theorem configured_property_is_at_its_path_witness:
  "\<exists>m. ParseConfigurableJSON sample_lib sensor_text sensor_raw sensor_config = Inr m \<and> gm_get (sm_Properties m) ''temperature'' = Some (VFloat (FNum 21))"
proof -
  obtain m where m: "ParseConfigurableJSON sample_lib sensor_text sensor_raw sensor_config = Inr m"
    using sensor_parsed by (cases "ParseConfigurableJSON sample_lib sensor_text sensor_raw sensor_config") auto
  have "gm_get (sm_Properties m) ''temperature'' = walk (VMap sensor_body) (Member ''data'' # [Member ''readings'', Element 1])"
  proof (rule configured_property_is_at_its_path [OF m])
    show "tx_json sensor_text (rm_Payload sensor_raw) = Some (VMap sensor_body)" by (simp add: sensor_text_def)
    show "gm_get sensor_config ''properties'' = Some (VMap [(''temperature'', VStr (''$'' @ render_path sensor_path))])"
      by (simp add: sensor_config_def gm_get_def)
    show "list_all plain_step (Member ''data'' # [Member ''readings'', Element 1])" by (simp add: name_char_def path_stop_def is_space_def)
  qed (simp_all add: gm_ok_def sensor_path_def)
  moreover have "walk (VMap sensor_body) (Member ''data'' # [Member ''readings'', Element 1]) = Some (VFloat (FNum 21))" by code_simp
  ultimately show ?thesis using m by auto
qed

text \<open>C38: a message in the platform's own format is accepted only if its payload has no repeated key in an object and is at most 16 levels
deep; the message then has the tenant, product and device of the authenticated raw message, the kind of its route, a time that is positive,
before the year 10000 and at most five minutes ahead of the server's, the data its kind needs, and component reports within their bounds.\<close>

theorem standard_message_admitted:
  assumes "ParseStandard jl raw = Inr m" "fst (jl_tokens jl (rm_Payload raw)) = tokens_of t"
  shows "nesting t \<le> 16 \<and> unambiguous t \<and>
    sm_TenantID m = rm_TenantID raw \<and> sm_ProductID m = rm_ProductID raw \<and> sm_DeviceID m = rm_DeviceID raw \<and>
    kind_of (message_kind raw) = Some (sm_MessageType m) \<and> data_ok m \<and> \<not> isl (MessageComponents m) \<and>
    0 < sm_Timestamp m \<and> sm_Timestamp m \<le> 253402300799999 \<and> (rm_ReceivedAt raw \<le> 0 \<or> sm_Timestamp m \<le> rm_ReceivedAt raw + 300000)"
proof -
  note c = ParseStandard_checked [OF assms(1)]
  have "nesting t \<le> 16" "unambiguous t" using c(11) validate_admitted [OF assms(2)] by simp_all
  then show ?thesis using c(1-3,5-10) by (meson not_le)
qed

theorem standard_message_admitted_witness:
  "\<exists>m. ParseStandard state_json sensor_raw = Inr m \<and> sm_MessageType m = StateChange \<and> sm_DeviceID m = ''d'' \<and> nesting state_tree \<le> 16"
proof -
  obtain m where m: "ParseStandard state_json sensor_raw = Inr m"
    using state_parsed by (cases "ParseStandard state_json sensor_raw") auto
  have "fst (jl_tokens state_json (rm_Payload sensor_raw)) = tokens_of state_tree" by (simp add: state_json_def)
  from standard_message_admitted [OF m this] show ?thesis using m state_kind(1)
    by (simp add: kind_of_def) (simp add: sensor_raw_def)
qed



section \<open>Device scope\<close>



text \<open>C11: a change through the scoped repository leaves the devices, states and alarms of other devices as they are, and all messages, whether it is
accepted or refused. An update of an alarm has to keep the device of the stored alarm.\<close>

theorem scoped_change_leaves_others:
  assumes "context_ok ctx" "Limited ctx" "store_ok r" "keeps_owner c r"
  shows "same_others ctx r (apply_change ctx c r)"
  using assms by (rule changes_confined)

theorem scoped_change_leaves_others_witness:
  "same_others own_scope two_devices (apply_change own_scope (ChangeAlarm (scope_alarm ''a1'' ''d'')) two_devices) \<and>
   same_others own_scope two_devices (apply_change own_scope (ChangeDevice (scope_device ''e'')) two_devices)"
proof
  have "keeps_owner (ChangeAlarm (scope_alarm ''a1'' ''d'')) two_devices"
    by (simp add: stored_alarm_def two_devices_def scope_alarm_def gm_get_def)
  then show "same_others own_scope two_devices (apply_change own_scope (ChangeAlarm (scope_alarm ''a1'' ''d'')) two_devices)"
    by (rule scoped_change_leaves_others [OF own_scope_ok stores_ok(1)])
  show "same_others own_scope two_devices (apply_change own_scope (ChangeDevice (scope_device ''e'')) two_devices)"
    by (rule scoped_change_leaves_others [OF own_scope_ok stores_ok(1)]) simp
qed

section \<open>Sites\<close>

text \<open>C12: whatever operations of the site service are stored, for whatever tenants and in whatever order, imports included, every tenant's sites keep their
integrity: identities are unique, a building belongs to a unit, a floor to a building, a point to the unit of its building and the building of its floor,
names, codes and placed devices are unique as the service promises, numbers are in range, and a mark lies on the plan of its floor. The identities drawn for
new records have to be new.\<close>

theorem sites_keep_their_integrity:
  assumes "sites_run store"
  shows "sites_ok (site_of store tenant)"
  using assms by (rule sites_run_ok)

theorem sites_keep_their_integrity_witness: "sites_ok (site_of demo_store ''t'') \<and> length (ss_Points (site_of demo_store ''t'')) = 1"
  using sites_keep_their_integrity [OF demo_run, of "''t''"] by (simp add: demo_store_def site_of_def gm_get_def demo_state_def)

text \<open>C13: a call of the site service takes effect once or not at all, at one moment. Whatever other requests commit, remember and index between its steps,
and whatever its cache holds, the call leaves the store as their commits leave it with at most one state in between, and that state is what the operation
makes of the state stored right before it.\<close>

theorem site_call_takes_effect_once:
  assumes "traced w"
  shows "traced (serve_site tenant op clock uuid w) \<and> (\<exists>es. meanwhile_of w = es @ meanwhile_of (serve_site tenant op clock uuid w) \<and>
    (sw_store (serve_site tenant op clock uuid w) = commits es (sw_store w) \<or>
     (\<exists>es1 es2 state k. es = es1 @ es2 \<and> op_change op (site_of (commits es1 (sw_store w)) tenant) (clock k) (uuid k) = Inr state \<and>
        sw_store (serve_site tenant op clock uuid w) = commits (es1 @ Committed tenant state # es2) (sw_store w))))"
  using serve_site_effect [OF assms] unfolding one_effect_def .

theorem site_call_takes_effect_once_witness:
  "traced (serve_site ''t'' new_point (\<lambda>_. 7) (\<lambda>k. demo_ids 3) demo_world) \<and> length (meanwhile_of demo_world) = 2"
  using site_call_takes_effect_once [OF demo_traced] by (simp add: meanwhile_of_def demo_world_def)

text \<open>C15: a change that is neither cancelled nor met by eight commits of others during its call fails only for a cause in the sites: the operation refused a
state that the store held at some moment of the call, or its result cannot be encoded; the store is then left to the others.\<close>

theorem site_change_fails_for_cause:
  assumes "traced w" "site_apply tenant f clock uuid c w = ((c', Inl e), w')" "trim_space tenant \<noteq> []" "\<not> interrupted w" "commits_on tenant (meanwhile_of w) < 8"
  shows "\<exists>es. meanwhile_of w = es @ meanwhile_of w' \<and> sw_store w' = commits es (sw_store w) \<and> refused tenant f clock uuid e es w"
proof -
  obtain es where es: "meanwhile_of w = es @ meanwhile_of w'" "sw_store w' = commits es (sw_store w)" "failure 8 tenant f clock uuid e es w"
    using apply_takes_effect_once [OF assms(1,2)] assms(3) by auto
  moreover have "commits_on tenant es < 8" using assms(5) es(1) by simp
  ultimately show ?thesis using assms(4) unfolding failure_def by (intro exI [of _ es]) auto
qed

theorem site_change_fails_for_cause_witness:
  "\<exists>es. refused ''t'' (uncaptured (delete_unit ''y'' 1) :: (unit, unit) change) (\<lambda>_. 7) (\<lambda>k. demo_ids 3) (SiteMissing ''unit'') es demo_world"
proof -
  let ?f = "uncaptured (delete_unit ''y'' 1) :: (unit, unit) change"
  obtain c' w' where a: "site_apply ''t'' ?f (\<lambda>_. 7) (\<lambda>k. demo_ids 3) () demo_world = ((c', Inl (SiteMissing ''unit'')), w')"
    by (rule demo_missing)
  have "trim_space ''t'' \<noteq> []" by code_simp
  moreover have "\<not> interrupted demo_world" "commits_on ''t'' (meanwhile_of demo_world) < 8"
    by (simp_all add: interrupted_def demo_world_def meanwhile_of_def)
  ultimately show ?thesis using site_change_fails_for_cause [OF demo_traced a] by blast
qed

text \<open>C16: the position that is copied into an alarm is the one that a scan of the points finds. Although \<^verbatim>\<open>AlarmLocation\<close> reads a cached snapshot and an index
that other requests replace meanwhile, its answer is that of \<^verbatim>\<open>Locate\<close> on the sites that were stored at some moment of the call; only a cancelled call
may answer nothing instead.\<close>

theorem alarm_location_is_the_scan:
  assumes "traced w" "Service_AlarmLocation tenant device component w = (r, w')"
  shows "traced w' \<and> (\<exists>es1 es2. meanwhile_of w = es1 @ es2 @ meanwhile_of w' \<and> sw_store w' = commits (es1 @ es2) (sw_store w) \<and>
    ((r = None \<and> interrupted w) \<or> r = Locate (site_of (commits es1 (sw_store w)) tenant) device component))"
  using assms by (rule AlarmLocation_reads)

theorem alarm_location_is_the_scan_witness:
  "\<exists>es1. fst (Service_AlarmLocation ''t'' ''d'' ''c'' demo_world) = Locate (site_of (commits es1 (sw_store demo_world)) ''t'') ''d'' ''c''"
proof -
  have "\<not> interrupted demo_world" by (simp add: interrupted_def demo_world_def)
  then show ?thesis
    using alarm_location_is_the_scan [OF demo_traced, of "''t''" "''d''" "''c''" "fst (Service_AlarmLocation ''t'' ''d'' ''c'' demo_world)" "snd (Service_AlarmLocation ''t'' ''d'' ''c'' demo_world)"]
    by auto
qed

text \<open>C14: no edit of a unit, building, floor or point is lost. An operation that names the identity and version of a record as it was read is accepted, after
any number of other operations, only while exactly that record is still stored. Identities are never drawn twice.\<close>

theorem edit_replaces_what_was_read:
  assumes "sites_ok s" "site_ids s \<subseteq> used" "sites_path used s used' s'" "op_change op s' now ids = Inr s''"
  shows "(\<forall>u \<in> set (ss_Units s). based_on_unit op (su_SiteRecord u) \<longrightarrow> u \<in> set (ss_Units s')) \<and>
    (\<forall>b \<in> set (ss_Buildings s). based_on_building op (bu_SiteRecord b) \<longrightarrow> b \<in> set (ss_Buildings s')) \<and>
    (\<forall>f \<in> set (ss_Floors s). based_on_floor op (sf_SiteRecord f) \<longrightarrow> f \<in> set (ss_Floors s')) \<and>
    (\<forall>p \<in> set (ss_Points s). based_on_point op (st_SiteRecord p) \<longrightarrow> p \<in> set (ss_Points s'))"
  using path_edit_finds_record [OF assms] by blast

theorem edit_replaces_what_was_read_witness: "demo_unit \<in> set (ss_Units ((demo_state 2)\<lparr>ss_Revision := 1\<rparr>)) \<and> based_on_unit rename_unit (su_SiteRecord demo_unit)"
  using edit_replaces_what_was_read [OF demo_ok demo_ids_used demo_path rename_unit_change] rename_unit_based demo_unit_listed by blast

section \<open>Rate limits\<close>





text \<open>
  With fewer units than instances the shares exceed the limit: every instance grants one call of a budget whose limit is
  zero.
\<close>

lemma outage_widens_small_budget:
  "fst (Cluster_Allow k 0 d now (NewCluster (Some \<lparr>li_Allow = (\<lambda>_ _ _ s. (None, s)), li_Hits = h, li_Reset = r\<rparr>) n, s)) = True"
  by (simp add: Cluster_Allow_def NewCluster_def local_allow_def share_def Local_Allow_def NewLocal_def current_def zero_window_def quot_def
    tableLimit_def Let_def)

section \<open>The edge queue\<close>

text \<open>C28: in every state that the edge queue reaches, whatever calls it serves and whichever single file operations fail, its
counters are the number and the size of the entries of the directory, its active names are the pending entries, each of them is in
the order that \<^verbatim>\<open>Next\<close> serves, and no message is pending and rejected at once.\<close>

theorem queue_matches_directory:
  assumes "edge_reach cd w"
  shows "qu_used (qw_queue w) = weight file_size (gm_get (qw_files w)) \<and> qu_items (qw_queue w) = weight (\<lambda>_. 1) (gm_get (qw_files w)) \<and>
    qu_active (qw_queue w) = {n. gm_get (qw_files w) n \<noteq> None \<and> has_suffix n ''.json''} \<and>
    qu_active (qw_queue w) \<subseteq> set (qu_order (qw_queue w)) \<and>
    (\<forall>n. gm_get (qw_files w) n \<noteq> None \<and> has_suffix n ''.json'' \<longrightarrow> gm_get (qw_files w) (n @ ''.rejected'') = None)"
proof -
  have "q_inv w" using edge_reach_ok [OF assms] by (simp add: q_ok_def)
  then show ?thesis by (auto simp: q_inv_def jsons_def json_name_def apart_def)
qed

lemma sample_disk_opened: "OpenQueue 100 10 sample_disk = (Inr (), sample_disk)"
  by (simp add: OpenQueue_def sample_disk_def qbind_def readDir_def qret_def)

lemma sample_disk_reached: "edge_reach cd sample_disk"
  using edge_reach.opened [of sample_disk 100 10 sample_disk cd] sample_disk_opened
  by (simp add: gm_ok_def sample_disk_def apart_def jsons_def gm_get_def)

theorem queue_matches_directory_witness:
  "qu_items (qw_queue (run_call sample_codec (CPut (queued_raw ''m'')) sample_disk)) =
     weight (\<lambda>_. 1) (gm_get (qw_files (run_call sample_codec (CPut (queued_raw ''m'')) sample_disk)))"
  using queue_matches_directory [OF edge_reach.called [OF sample_disk_reached]] by blast

text \<open>C27: on a disk that does not fail, new messages with room in the queue are all accepted, and a worker that takes and
acknowledges one message after the other gets first what was pending and then the new messages, each once and in the order in
which they were put, and leaves the queue empty.\<close>

theorem queue_first_in_first_out:
  assumes "quiet_queue cd w" "room_for cd w raws"
  shows "case drain (next_step cd) ack_step (length (messages cd w) + length raws) (fold (put_step cd) raws w) of
    (served, w') \<Rightarrow> served = messages cd w @ raws \<and> messages cd w' = []"
  using edge.first_in_first_out [OF assms] by (simp add: case_prod_beta)

lemma sample_room: "room_for sample_codec sample_disk [queued_raw ''m1'']"
  by (simp add: room_for_def new_message_def faithful_def encoded_def sample_codec_def queued_raw_def sample_disk_def zero_RawMessage_def gm_get_def)

theorem queue_first_in_first_out_witness:
  "fst (drain (next_step sample_codec) ack_step 1 (put_step sample_codec (queued_raw ''m1'') sample_disk)) = [queued_raw ''m1'']"
proof -
  have "quiet_queue sample_codec sample_disk" using edge_reach_ok [OF sample_disk_reached] by (simp add: quiet_queue_def q_ok_def) (simp add: sample_disk_def)
  from queue_first_in_first_out [OF this sample_room]
  have "fst (drain (next_step sample_codec) ack_step (length (messages sample_codec sample_disk) + 1) (put_step sample_codec (queued_raw ''m1'') sample_disk)) =
    messages sample_codec sample_disk @ [queued_raw ''m1'']" by (simp add: case_prod_beta del: drain.simps)
  moreover have "messages sample_codec sample_disk = []" by (simp add: messages_def pending_def sample_disk_def)
  ultimately show ?thesis by (simp del: drain.simps)
qed

end
